(* ===== verification/RagPrelude.thy ===== *)
theory RagPrelude
  imports Main "HOL-Library.Char_ord" "HOL-Library.List_Lexorder" "HOL-Library.Monad_Syntax"
begin

text \<open>
  Shared vocabulary of the development: results of fallible Python code as sums, the identity
  strings of the service and their patterns, tables as lists of rows, and the lemmas about them
  that several components use. Nothing here is specific to one component.
\<close>

named_theorems row_simps "facts about tables as lists of rows with a key"
named_theorems io_simps "evaluation of database scripts"
named_theorems evolves_intros "rules that compose the effect of database scripts"

subsection \<open>Fallible results\<close>

text \<open>A Python function that may raise returns a sum: \<open>Inl\<close> the error, \<open>Inr\<close> the value.\<close>

definition bind_res :: "'e + 'a \<Rightarrow> ('a \<Rightarrow> 'e + 'b) \<Rightarrow> 'e + 'b" where
  "bind_res m f = (case m of Inl e \<Rightarrow> Inl e | Inr x \<Rightarrow> f x)"

lemma bind_res_simps [simp]:
  "bind_res (Inl e) f = Inl e"
  "bind_res (Inr x) f = f x"
  by (simp_all add: bind_res_def)

lemma bind_res_Inr_iff:
  "bind_res m f = Inr y \<longleftrightarrow> (\<exists>x. m = Inr x \<and> f x = Inr y)"
  by (auto simp: bind_res_def split: sum.splits)

definition of_option :: "'e \<Rightarrow> 'a option \<Rightarrow> 'e + 'a" where
  "of_option e m = (case m of None \<Rightarrow> Inl e | Some x \<Rightarrow> Inr x)"

lemma of_option_simps [simp]:
  "of_option e None = Inl e"
  "of_option e (Some x) = Inr x"
  by (simp_all add: of_option_def)

lemma of_option_Inr_iff [simp]: "of_option e m = Inr x \<longleftrightarrow> m = Some x"
  by (auto simp: of_option_def split: option.splits)

text \<open>A check that yields the value only when it holds, for chains of validators.\<close>

definition ensure :: "bool \<Rightarrow> unit option" where
  "ensure b = (if b then Some () else None)"

lemma ensure_simps [simp]:
  "ensure True = Some ()"
  "ensure False = None"
  "ensure b = Some u \<longleftrightarrow> b"
  "ensure b = None \<longleftrightarrow> \<not> b"
  by (simp_all add: ensure_def)

subsection \<open>Text\<close>

text \<open>Document and question text is Unicode: a Python string is the list of its code points.\<close>

type_synonym pytext = "nat list"

subsection \<open>Identity strings\<close>

text \<open>
  Identities are ASCII strings, restricted by regular expressions the storage contract, the
  database schema and the online routes all repeat. \<open>strip\<close> is the whitespace trimming the
  data models apply to an identity before they match it.
\<close>

definition is_space :: "char \<Rightarrow> bool" where
  "is_space c \<longleftrightarrow> c \<in> {CHR '' '', CHR 0x09, CHR 0x0A, CHR 0x0B, CHR 0x0C, CHR 0x0D}"

definition strip :: "string \<Rightarrow> string" where
  "strip s = rev (dropWhile is_space (rev (dropWhile is_space s)))"

definition id_head_char :: "char \<Rightarrow> bool" where
  "id_head_char c \<longleftrightarrow>
     c \<in> set ''ABCDEFGHIJKLMNOPQRSTUVWXYZabcdefghijklmnopqrstuvwxyz0123456789''"

definition id_tail_char :: "char \<Rightarrow> bool" where
  "id_tail_char c \<longleftrightarrow> id_head_char c \<or> c \<in> set ''._:-''"

text \<open>The pattern \<^verbatim>\<open>^[A-Za-z0-9][A-Za-z0-9._:-]{0,127}$\<close>.\<close>

definition contract_id_ok :: "string \<Rightarrow> bool" where
  "contract_id_ok s = (case s of [] \<Rightarrow> False
     | c # cs \<Rightarrow> id_head_char c \<and> list_all id_tail_char cs \<and> length cs \<le> 127)"

text \<open>The constrained string type \<open>ContractId\<close>: strip, then match.\<close>

definition norm_id :: "string \<Rightarrow> string option" where
  "norm_id s = (let t = strip s in if contract_id_ok t then Some t else None)"

definition norm_opt_id :: "string option \<Rightarrow> string option option" where
  "norm_opt_id m = (case m of None \<Rightarrow> Some None | Some s \<Rightarrow> map_option Some (norm_id s))"

definition hex_char :: "char \<Rightarrow> bool" where
  "hex_char c \<longleftrightarrow> c \<in> set ''abcdef0123456789''"

text \<open>The pattern \<^verbatim>\<open>^[a-f0-9]{64}$\<close>.\<close>

definition sha256_ok :: "string \<Rightarrow> bool" where
  "sha256_ok s \<longleftrightarrow> length s = 64 \<and> list_all hex_char s"

definition key_head_char :: "char \<Rightarrow> bool" where
  "key_head_char c \<longleftrightarrow> c \<in> set ''abcdefghijklmnopqrstuvwxyz0123456789''"

text \<open>The pattern \<^verbatim>\<open>^[a-z0-9][a-z0-9._/-]*$\<close> with 1 to 512 characters.\<close>

definition object_key_ok :: "string \<Rightarrow> bool" where
  "object_key_ok s = (case s of [] \<Rightarrow> False
     | c # cs \<Rightarrow> key_head_char c \<and> list_all (\<lambda>c. key_head_char c \<or> c \<in> set ''._/-'') cs
         \<and> length cs \<le> 511)"

lemma id_tail_not_space: "id_tail_char c \<Longrightarrow> \<not> is_space c"
  by (auto simp: id_tail_char_def id_head_char_def is_space_def)

lemma strip_no_space:
  assumes "\<forall>c \<in> set s. \<not> is_space c"
  shows "strip s = s"
proof -
  have *: "dropWhile is_space xs = xs" if "\<forall>c \<in> set xs. \<not> is_space c" for xs
    using that by (cases xs) auto
  show ?thesis using assms by (simp add: strip_def *)
qed

lemma contract_id_no_space: "contract_id_ok s \<Longrightarrow> \<forall>c \<in> set s. \<not> is_space c"
  using id_tail_not_space
  by (auto simp: contract_id_ok_def list_all_iff id_tail_char_def split: list.splits)

lemma norm_id_ok [simp]: "contract_id_ok s \<Longrightarrow> norm_id s = Some s"
  by (simp add: norm_id_def strip_no_space contract_id_no_space)

lemma norm_id_Some: "norm_id s = Some t \<Longrightarrow> contract_id_ok t"
  by (auto simp: norm_id_def Let_def split: if_splits)

lemma norm_opt_id_Some: "norm_opt_id m = Some (Some t) \<Longrightarrow> contract_id_ok t"
  by (auto simp: norm_opt_id_def dest: norm_id_Some split: option.splits)

lemma norm_opt_id_ok [simp]:
  "norm_opt_id None = Some None"
  "contract_id_ok s \<Longrightarrow> norm_opt_id (Some s) = Some (Some s)"
  by (simp_all add: norm_opt_id_def)

lemma contract_id_nonempty: "contract_id_ok s \<Longrightarrow> s \<noteq> []"
  by (auto simp: contract_id_ok_def)

text \<open>\<open>str.upper\<close> on ASCII.\<close>

definition upper_char :: "char \<Rightarrow> char" where
  "upper_char c = (if CHR ''a'' \<le> c \<and> c \<le> CHR ''z'' then char_of (of_char c - 32 :: nat) else c)"

definition upper :: "string \<Rightarrow> string" where
  "upper s = map upper_char s"

subsection \<open>Tables as lists of rows\<close>

text \<open>
  A database table is the list of its rows. \<open>update_rows\<close> is an SQL \<^verbatim>\<open>UPDATE\<close> restricted by a
  condition; a key is a function whose values are distinct over the table.
\<close>

definition update_rows :: "('r \<Rightarrow> bool) \<Rightarrow> ('r \<Rightarrow> 'r) \<Rightarrow> 'r list \<Rightarrow> 'r list" where
  "update_rows p f rs = map (\<lambda>r. if p r then f r else r) rs"

definition keyed :: "('r \<Rightarrow> 'k) \<Rightarrow> 'r list \<Rightarrow> bool" where
  "keyed k rs \<longleftrightarrow> distinct (map k rs)"

lemma set_update_rows:
  "r' \<in> set (update_rows p f rs) \<longleftrightarrow>
     (\<exists>r \<in> set rs. (p r \<and> r' = f r) \<or> (\<not> p r \<and> r' = r))"
  by (auto simp: update_rows_def)

lemma length_update_rows [simp]: "length (update_rows p f rs) = length rs"
  by (simp add: update_rows_def)

lemma keyed_Nil [simp]: "keyed k []"
  by (simp add: keyed_def)

lemma keyed_snoc [row_simps]: "keyed k (rs @ [r]) \<longleftrightarrow> keyed k rs \<and> (\<forall>x \<in> set rs. k x \<noteq> k r)"
  by (auto simp: keyed_def image_iff)

lemma keyed_update_rows [row_simps]:
  assumes "\<And>r. r \<in> set rs \<Longrightarrow> p r \<Longrightarrow> k (f r) = k r"
  shows "keyed k (update_rows p f rs) \<longleftrightarrow> keyed k rs"
proof -
  have "map k (update_rows p f rs) = map k rs" using assms by (auto simp: update_rows_def)
  then show ?thesis by (simp add: keyed_def)
qed

lemma keyed_unique: "keyed k rs \<Longrightarrow> r \<in> set rs \<Longrightarrow> s \<in> set rs \<Longrightarrow> k r = k s \<Longrightarrow> r = s"
  unfolding keyed_def by (metis distinct_map inj_on_eq_iff)

text \<open>Every row of the first table has a successor in the second.\<close>

definition kept_by :: "('r \<Rightarrow> 'r \<Rightarrow> bool) \<Rightarrow> 'r list \<Rightarrow> 'r list \<Rightarrow> bool" where
  "kept_by R xs ys \<longleftrightarrow> (\<forall>x \<in> set xs. \<exists>y \<in> set ys. R x y)"

lemma kept_byD: "kept_by R xs ys \<Longrightarrow> x \<in> set xs \<Longrightarrow> \<exists>y \<in> set ys. R x y"
  by (simp add: kept_by_def)

lemma kept_by_refl: "(\<And>x. R x x) \<Longrightarrow> kept_by R xs xs"
  by (auto simp: kept_by_def)

lemma kept_by_snoc: "(\<And>x. R x x) \<Longrightarrow> kept_by R xs (xs @ [y])"
  by (auto simp: kept_by_def)

lemma kept_by_trans:
  "kept_by R xs ys \<Longrightarrow> kept_by R ys zs \<Longrightarrow> (\<And>x y z. R x y \<Longrightarrow> R y z \<Longrightarrow> R x z) \<Longrightarrow> kept_by R xs zs"
  unfolding kept_by_def by meson

lemma kept_by_update_rows:
  assumes "\<And>x. R x x" and "\<And>x. x \<in> set xs \<Longrightarrow> p x \<Longrightarrow> R x (f x)"
  shows "kept_by R xs (update_rows p f xs)"
proof -
  have "R x (if p x then f x else x)" if "x \<in> set xs" for x
    using assms that by simp
  then show ?thesis unfolding kept_by_def update_rows_def set_map by blast
qed

text \<open>Replacing the one row with a given key.\<close>

lemma keyed_replace:
  assumes "keyed k rs" and "old \<in> set rs" and "k2 new = k2 old"
  shows "keyed k2 (update_rows (\<lambda>r. k r = k old) (\<lambda>_. new) rs) \<longleftrightarrow> keyed k2 rs"
  using assms keyed_unique [OF assms(1) _ assms(2)] by (intro keyed_update_rows) auto

lemma set_replace:
  assumes "keyed k rs" and "old \<in> set rs"
  shows "set (update_rows (\<lambda>r. k r = k old) (\<lambda>_. new) rs) = insert new (set rs - {old})"
proof -
  have "k r = k old \<longleftrightarrow> r = old" if "r \<in> set rs" for r
    using keyed_unique [OF assms(1) that assms(2)] by blast
  then show ?thesis using assms(2) unfolding set_eq_iff set_update_rows by blast
qed

lemma kept_by_replace:
  assumes "keyed k rs" and "old \<in> set rs" and "\<And>x. R x x" and "R old new"
  shows "kept_by R rs (update_rows (\<lambda>r. k r = k old) (\<lambda>_. new) rs)"
  using assms by (auto simp: kept_by_def set_replace)

lemma keyed_filter: "keyed k rs \<Longrightarrow> keyed k (filter p rs)"
  by (simp add: keyed_def distinct_map_filter)

lemma find_SomeD: "find p xs = Some x \<Longrightarrow> x \<in> set xs \<and> p x"
  by (induction xs) (auto split: if_splits)

lemma find_NoneD: "find p xs = None \<Longrightarrow> x \<in> set xs \<Longrightarrow> \<not> p x"
  by (auto simp: find_None_iff)

text \<open>Looking a row up by its key returns the one row with that key.\<close>

lemma find_keyed:
  assumes "keyed k rs" and "r \<in> set rs" and "p r" and "\<And>s. s \<in> set rs \<Longrightarrow> p s \<Longrightarrow> k s = k r"
  shows "find p rs = Some r"
proof (cases "find p rs")
  case None
  with assms(2,3) show ?thesis by (auto simp: find_None_iff)
next
  case (Some s)
  then have "s \<in> set rs" "p s" by (auto dest: find_SomeD)
  with assms show ?thesis using Some keyed_unique by metis
qed

lemma find_update_rows_same:
  assumes "\<And>r. p r \<Longrightarrow> q (f r)" and "\<And>r. \<not> p r \<Longrightarrow> \<not> q r"
  shows "find q (update_rows p f rs) = map_option f (find p rs)"
  using assms by (induction rs) (auto simp: update_rows_def)

lemma find_update_rows_other:
  assumes "\<And>r. p r \<Longrightarrow> \<not> q r" and "\<And>r. p r \<Longrightarrow> \<not> q (f r)"
  shows "find q (update_rows p f rs) = find q rs"
  using assms by (induction rs) (auto simp: update_rows_def)


subsection \<open>Sorting by several keys\<close>

text \<open>
  \<^verbatim>\<open>ORDER BY a, b\<close> is a stable sort by \<open>a\<close> of a list sorted by \<open>b\<close>. \<open>by_key k R\<close> is the
  lexicographic order it establishes.
\<close>

definition by_key :: "('a \<Rightarrow> 'k :: linorder) \<Rightarrow> ('a \<Rightarrow> 'a \<Rightarrow> bool) \<Rightarrow> 'a \<Rightarrow> 'a \<Rightarrow> bool" where
  "by_key k R x y \<longleftrightarrow> k x < k y \<or> (k x = k y \<and> R x y)"

lemma insort_by_key:
  assumes "sorted_wrt (by_key k R) ys" and "\<forall>y \<in> set ys. R x y"
  shows "sorted_wrt (by_key k R) (insort_key k x ys)"
  using assms
proof (induction ys)
  case Nil
  then show ?case by simp
next
  case (Cons y ys)
  then show ?case
    by (auto simp: by_key_def set_insort_key not_le)
qed

lemma sort_key_by_key:
  "sorted_wrt R xs \<Longrightarrow> sorted_wrt (by_key k R) (sort_key k xs)"
  by (induction xs) (auto intro: insort_by_key)

lemma sorted_wrt_hd: "sorted_wrt R (x # xs) \<Longrightarrow> y \<in> set (x # xs) \<Longrightarrow> y = x \<or> R x y"
  by auto

end
