(* ===== verification/StorageModels.thy ===== *)
theory StorageModels
  imports RagPrelude
begin

text \<open>
  The data contract of the PostgreSQL fact source (\<^verbatim>\<open>backend/storage/models.py\<close>): the status
  enumerations, the frozen lifecycle transition graph, the records and their validators. A
  validator is the whole of \<^verbatim>\<open>model_validate\<close> for the class: it trims and matches the
  identity fields, checks the time zones and the numeric bounds, runs the model's own check and
  returns the normalised record. \<open>*_ok\<close> is the same contract as a predicate on a record
  that is already normal; the lemmas at the end relate the two.
\<close>

subsection \<open>Errors\<close>

text \<open>What the database itself may refuse.\<close>

datatype db_failure = Outage | CheckViolation | UniqueViolation | ForeignKeyViolation
  | TransitionRejected

text \<open>The exception classes of the storage layer, with the driver's errors as one constructor.\<close>

datatype fact_error =
    ValueError
  | ValidationError
  | PostgresFactSourceError
  | IdentityConflictError
  | ConcurrentLifecycleUpdateError
  | LifecycleTransitionError
  | DatabaseError db_failure

subsection \<open>Enumerations and the transition graph\<close>

datatype lifecycle_status = REGISTERED | PROCESSING | REVIEW | READY | FAILED | INACTIVE

datatype index_state = IX_PENDING | IX_READY | IX_FAILED

datatype ingestion_job_status = JOB_PENDING | JOB_RUNNING | JOB_SUCCEEDED | JOB_FAILED

datatype cleanup_job_status = CL_PENDING | CL_RUNNING | CL_RETRY | CL_SUCCEEDED | CL_FAILED

fun allowed_lifecycle_transitions :: "lifecycle_status \<Rightarrow> lifecycle_status set" where
  "allowed_lifecycle_transitions REGISTERED = {PROCESSING, INACTIVE}"
| "allowed_lifecycle_transitions PROCESSING = {REVIEW, READY, FAILED, INACTIVE}"
| "allowed_lifecycle_transitions REVIEW = {PROCESSING, FAILED, INACTIVE}"
| "allowed_lifecycle_transitions READY = {INACTIVE}"
| "allowed_lifecycle_transitions FAILED = {PROCESSING, INACTIVE}"
| "allowed_lifecycle_transitions INACTIVE = {}"

subsection \<open>Timestamps\<close>

text \<open>
  A Python \<open>datetime\<close> with (\<open>Aware\<close>) or without (\<open>Naive\<close>) a time zone; the number is
  the instant in microseconds. Only aware ones are compared: the validators reject the others
  before.
\<close>

datatype timestamp = Aware (instant: int) | Naive (instant: int)

fun aware :: "timestamp \<Rightarrow> bool" where
  "aware (Aware _) = True"
| "aware (Naive _) = False"

text \<open>\<open>_require_timezone\<close>, as the check it makes: a missing timestamp passes.\<close>

definition require_timezone :: "timestamp option \<Rightarrow> bool" where
  "require_timezone t = (case t of None \<Rightarrow> True | Some t \<Rightarrow> aware t)"

subsection \<open>Document identity\<close>

record document_identity =
  di_paper_id :: string
  di_document_id :: string
  di_owner_id :: string
  di_source_type :: string
  di_mapping_version :: string
  di_source_created_time :: timestamp
  di_source_updated_time :: timestamp

definition source_type_ok :: "string \<Rightarrow> bool" where
  "source_type_ok s \<longleftrightarrow> s = ''uploaded'' \<or> s = ''collected''"

definition source_times_ordered :: "document_identity \<Rightarrow> bool" where
  "source_times_ordered d \<longleftrightarrow>
     \<not> instant (di_source_updated_time d) < instant (di_source_created_time d)"

definition validate_identity :: "document_identity \<Rightarrow> fact_error + document_identity" where
  "validate_identity d = of_option ValidationError (do {
     paper \<leftarrow> norm_id (di_paper_id d);
     doc \<leftarrow> norm_id (di_document_id d);
     owner \<leftarrow> norm_id (di_owner_id d);
     _ \<leftarrow> ensure (source_type_ok (di_source_type d));
     mapping \<leftarrow> norm_id (di_mapping_version d);
     _ \<leftarrow> ensure (require_timezone (Some (di_source_created_time d)));
     _ \<leftarrow> ensure (require_timezone (Some (di_source_updated_time d)));
     _ \<leftarrow> ensure (source_times_ordered d);
     Some (d\<lparr>di_paper_id := paper, di_document_id := doc, di_owner_id := owner,
              di_mapping_version := mapping\<rparr>)
   })"

definition identity_ok :: "document_identity \<Rightarrow> bool" where
  "identity_ok d \<longleftrightarrow>
     contract_id_ok (di_paper_id d) \<and> contract_id_ok (di_document_id d) \<and>
     contract_id_ok (di_owner_id d) \<and> source_type_ok (di_source_type d) \<and>
     contract_id_ok (di_mapping_version d) \<and>
     aware (di_source_created_time d) \<and> aware (di_source_updated_time d) \<and>
     source_times_ordered d"

subsection \<open>Document version lifecycle\<close>

record index_states =
  elasticsearch_chunks :: index_state
  milvus_vectors :: index_state

definition default_index_states :: index_states where
  "default_index_states = \<lparr>elasticsearch_chunks = IX_PENDING, milvus_vectors = IX_PENDING\<rparr>"

definition ready_index_states :: index_states where
  "ready_index_states = \<lparr>elasticsearch_chunks = IX_READY, milvus_vectors = IX_READY\<rparr>"

record version =
  ver_paper_id :: string
  ver_document_id :: string
  ver_owner_id :: string
  ver_document_version_id :: string
  ver_content_sha256 :: string
  ver_source_snapshot_sha256 :: string
  ver_parse_version :: string
  ver_lifecycle_revision :: int
  ver_lifecycle_status :: lifecycle_status
  ver_parse_finish_time :: "timestamp option"
  ver_chunk_splitter_time :: "timestamp option"
  ver_chunk_create_time :: "timestamp option"
  ver_chunk_gen_time :: "timestamp option"
  ver_vector_index_time :: "timestamp option"
  ver_index_states :: index_states
  ver_delete_time :: "timestamp option"
  ver_chunk_expire_time :: "timestamp option"
  ver_last_access_time :: "timestamp option"
  ver_last_refresh_time :: "timestamp option"
  ver_failure_code :: "string option"
  ver_updated_at :: timestamp

definition version_times_aware :: "version \<Rightarrow> bool" where
  "version_times_aware v \<longleftrightarrow>
     require_timezone (ver_parse_finish_time v) \<and> require_timezone (ver_chunk_splitter_time v) \<and>
     require_timezone (ver_chunk_create_time v) \<and> require_timezone (ver_chunk_gen_time v) \<and>
     require_timezone (ver_vector_index_time v) \<and> require_timezone (ver_delete_time v) \<and>
     require_timezone (ver_chunk_expire_time v) \<and> require_timezone (ver_last_access_time v) \<and>
     require_timezone (ver_last_refresh_time v) \<and> require_timezone (Some (ver_updated_at v))"

definition milestones_present :: "version \<Rightarrow> bool" where
  "milestones_present v \<longleftrightarrow>
     ver_parse_finish_time v \<noteq> None \<and> ver_chunk_splitter_time v \<noteq> None \<and>
     ver_chunk_create_time v \<noteq> None \<and> ver_chunk_gen_time v \<noteq> None \<and>
     ver_vector_index_time v \<noteq> None"

text \<open>The model validator \<open>lifecycle_fails_closed\<close>: the conditions under which it does not raise.\<close>

definition lifecycle_fails_closed :: "version \<Rightarrow> bool" where
  "lifecycle_fails_closed v =
     (if ver_lifecycle_status v \<noteq> INACTIVE \<and>
         (ver_delete_time v \<noteq> None \<or> ver_chunk_expire_time v \<noteq> None) then False
      else if ver_lifecycle_status v = INACTIVE \<and>
         (ver_delete_time v = None \<and> ver_chunk_expire_time v = None) then False
      else if ver_lifecycle_status v = FAILED \<and> ver_failure_code v = None then False
      else if ver_lifecycle_status v = READY then
        (if \<not> milestones_present v then False
         else if ver_index_states v \<noteq> ready_index_states then False
         else ver_failure_code v = None)
      else True)"

definition is_active :: "version \<Rightarrow> bool" where
  "is_active v \<longleftrightarrow> ver_lifecycle_status v = READY \<and> ver_delete_time v = None \<and>
     ver_chunk_expire_time v = None"

definition validate_version :: "version \<Rightarrow> fact_error + version" where
  "validate_version v = of_option ValidationError (do {
     paper \<leftarrow> norm_id (ver_paper_id v);
     doc \<leftarrow> norm_id (ver_document_id v);
     owner \<leftarrow> norm_id (ver_owner_id v);
     vid \<leftarrow> norm_id (ver_document_version_id v);
     _ \<leftarrow> ensure (sha256_ok (ver_content_sha256 v));
     _ \<leftarrow> ensure (sha256_ok (ver_source_snapshot_sha256 v));
     parse \<leftarrow> norm_id (ver_parse_version v);
     _ \<leftarrow> ensure (1 \<le> ver_lifecycle_revision v);
     code \<leftarrow> norm_opt_id (ver_failure_code v);
     _ \<leftarrow> ensure (version_times_aware v);
     _ \<leftarrow> ensure (lifecycle_fails_closed v);
     Some (v\<lparr>ver_paper_id := paper, ver_document_id := doc, ver_owner_id := owner,
              ver_document_version_id := vid, ver_parse_version := parse,
              ver_failure_code := code\<rparr>)
   })"

definition opt_id_ok :: "string option \<Rightarrow> bool" where
  "opt_id_ok m = (case m of None \<Rightarrow> True | Some s \<Rightarrow> contract_id_ok s)"

definition version_ok :: "version \<Rightarrow> bool" where
  "version_ok v \<longleftrightarrow>
     contract_id_ok (ver_paper_id v) \<and> contract_id_ok (ver_document_id v) \<and>
     contract_id_ok (ver_owner_id v) \<and> contract_id_ok (ver_document_version_id v) \<and>
     sha256_ok (ver_content_sha256 v) \<and> sha256_ok (ver_source_snapshot_sha256 v) \<and>
     contract_id_ok (ver_parse_version v) \<and> 1 \<le> ver_lifecycle_revision v \<and>
     opt_id_ok (ver_failure_code v) \<and> version_times_aware v \<and> lifecycle_fails_closed v"

subsection \<open>Ingestion jobs\<close>

record ingestion_job =
  ij_job_id :: string
  ij_owner_id :: string
  ij_idempotency_key :: string
  ij_document_id :: string
  ij_document_version_id :: string
  ij_status :: ingestion_job_status
  ij_attempt_count :: int
  ij_failure_code :: "string option"
  ij_created_at :: timestamp
  ij_updated_at :: timestamp

definition failed_job_has_code :: "ingestion_job \<Rightarrow> bool" where
  "failed_job_has_code j \<longleftrightarrow> \<not> (ij_status j = JOB_FAILED \<and> ij_failure_code j = None)"

definition validate_job :: "ingestion_job \<Rightarrow> fact_error + ingestion_job" where
  "validate_job j = of_option ValidationError (do {
     jid \<leftarrow> norm_id (ij_job_id j);
     owner \<leftarrow> norm_id (ij_owner_id j);
     key \<leftarrow> norm_id (ij_idempotency_key j);
     doc \<leftarrow> norm_id (ij_document_id j);
     vid \<leftarrow> norm_id (ij_document_version_id j);
     _ \<leftarrow> ensure (0 \<le> ij_attempt_count j);
     code \<leftarrow> norm_opt_id (ij_failure_code j);
     _ \<leftarrow> ensure (require_timezone (Some (ij_created_at j)));
     _ \<leftarrow> ensure (require_timezone (Some (ij_updated_at j)));
     _ \<leftarrow> ensure (failed_job_has_code j);
     Some (j\<lparr>ij_job_id := jid, ij_owner_id := owner, ij_idempotency_key := key,
              ij_document_id := doc, ij_document_version_id := vid, ij_failure_code := code\<rparr>)
   })"

definition job_ok :: "ingestion_job \<Rightarrow> bool" where
  "job_ok j \<longleftrightarrow>
     contract_id_ok (ij_job_id j) \<and> contract_id_ok (ij_owner_id j) \<and>
     contract_id_ok (ij_idempotency_key j) \<and> contract_id_ok (ij_document_id j) \<and>
     contract_id_ok (ij_document_version_id j) \<and> 0 \<le> ij_attempt_count j \<and>
     opt_id_ok (ij_failure_code j) \<and> aware (ij_created_at j) \<and> aware (ij_updated_at j) \<and>
     failed_job_has_code j"

subsection \<open>PDF objects and runtime snapshots\<close>

record pdf_object =
  po_owner_id :: string
  po_document_id :: string
  po_document_version_id :: string
  po_object_key :: string
  po_storage_backend :: string
  po_content_sha256 :: string
  po_size_bytes :: int
  po_media_type :: string
  po_stored_at :: timestamp

definition pdf_object_fields_ok :: "pdf_object \<Rightarrow> bool" where
  "pdf_object_fields_ok p \<longleftrightarrow>
     object_key_ok (po_object_key p) \<and> po_storage_backend p = ''filesystem_v1'' \<and>
     sha256_ok (po_content_sha256 p) \<and> 1 \<le> po_size_bytes p \<and>
     po_media_type p = ''application/pdf'' \<and> require_timezone (Some (po_stored_at p))"

definition validate_pdf_object :: "pdf_object \<Rightarrow> fact_error + pdf_object" where
  "validate_pdf_object p = of_option ValidationError (do {
     owner \<leftarrow> norm_id (po_owner_id p);
     doc \<leftarrow> norm_id (po_document_id p);
     vid \<leftarrow> norm_id (po_document_version_id p);
     _ \<leftarrow> ensure (pdf_object_fields_ok p);
     Some (p\<lparr>po_owner_id := owner, po_document_id := doc, po_document_version_id := vid\<rparr>)
   })"

definition pdf_object_ok :: "pdf_object \<Rightarrow> bool" where
  "pdf_object_ok p \<longleftrightarrow>
     contract_id_ok (po_owner_id p) \<and> contract_id_ok (po_document_id p) \<and>
     contract_id_ok (po_document_version_id p) \<and> pdf_object_fields_ok p"

record runtime_snapshot =
  rs_owner_id :: string
  rs_document_id :: string
  rs_document_version_id :: string
  rs_pdf_object_key :: string
  rs_pdf_sha256 :: string
  rs_chunk_count :: int
  rs_chunk_snapshot_sha256 :: string

definition validate_runtime_snapshot :: "runtime_snapshot \<Rightarrow> fact_error + runtime_snapshot" where
  "validate_runtime_snapshot s = of_option ValidationError (do {
     owner \<leftarrow> norm_id (rs_owner_id s);
     doc \<leftarrow> norm_id (rs_document_id s);
     vid \<leftarrow> norm_id (rs_document_version_id s);
     _ \<leftarrow> ensure (object_key_ok (rs_pdf_object_key s));
     _ \<leftarrow> ensure (sha256_ok (rs_pdf_sha256 s));
     _ \<leftarrow> ensure (1 \<le> rs_chunk_count s);
     _ \<leftarrow> ensure (sha256_ok (rs_chunk_snapshot_sha256 s));
     Some (s\<lparr>rs_owner_id := owner, rs_document_id := doc, rs_document_version_id := vid\<rparr>)
   })"

subsection \<open>Cleanup jobs\<close>

record cleanup_job =
  cj_cleanup_id :: string
  cj_backend :: string
  cj_owner_id :: string
  cj_document_id :: string
  cj_document_version_id :: string
  cj_status :: cleanup_job_status
  cj_attempt_count :: int
  cj_max_attempts :: int
  cj_next_attempt_at :: timestamp
  cj_lease_token :: "string option"
  cj_lease_expires_at :: "timestamp option"
  cj_failure_code :: "string option"
  cj_created_at :: timestamp
  cj_updated_at :: timestamp
  cj_completed_at :: "timestamp option"

definition cleanup_backend_ok :: "string \<Rightarrow> bool" where
  "cleanup_backend_ok b \<longleftrightarrow>
     b = ''elasticsearch_chunks'' \<or> b = ''milvus_vectors'' \<or> b = ''runtime_snapshot''"

text \<open>The model validator \<open>cleanup_state_is_replay_safe\<close>: the conditions under which it does not raise.\<close>

definition cleanup_state_is_replay_safe :: "cleanup_job \<Rightarrow> bool" where
  "cleanup_state_is_replay_safe j =
     (let is_running = (cj_status j = CL_RUNNING);
          terminal = (cj_status j = CL_SUCCEEDED \<or> cj_status j = CL_FAILED) in
      if is_running \<noteq> (cj_lease_token j \<noteq> None \<and> cj_lease_expires_at j \<noteq> None) then False
      else if (cj_status j = CL_RETRY \<or> cj_status j = CL_FAILED) \<and> cj_failure_code j = None
        then False
      else if \<not> (cj_status j = CL_RETRY \<or> cj_status j = CL_FAILED) \<and> cj_failure_code j \<noteq> None
        then False
      else if terminal \<noteq> (cj_completed_at j \<noteq> None) then False
      else if cj_attempt_count j > cj_max_attempts j then False
      else if cj_status j = CL_PENDING \<and> cj_attempt_count j \<noteq> 0 then False
      else if is_running \<and> cj_attempt_count j < 1 then False
      else True)"

definition cleanup_times_aware :: "cleanup_job \<Rightarrow> bool" where
  "cleanup_times_aware j \<longleftrightarrow>
     require_timezone (Some (cj_next_attempt_at j)) \<and> require_timezone (cj_lease_expires_at j) \<and>
     require_timezone (Some (cj_created_at j)) \<and> require_timezone (Some (cj_updated_at j)) \<and>
     require_timezone (cj_completed_at j)"

definition validate_cleanup :: "cleanup_job \<Rightarrow> fact_error + cleanup_job" where
  "validate_cleanup j = of_option ValidationError (do {
     cid \<leftarrow> norm_id (cj_cleanup_id j);
     _ \<leftarrow> ensure (cleanup_backend_ok (cj_backend j));
     owner \<leftarrow> norm_id (cj_owner_id j);
     doc \<leftarrow> norm_id (cj_document_id j);
     vid \<leftarrow> norm_id (cj_document_version_id j);
     _ \<leftarrow> ensure (0 \<le> cj_attempt_count j);
     _ \<leftarrow> ensure (1 \<le> cj_max_attempts j \<and> cj_max_attempts j \<le> 100);
     token \<leftarrow> norm_opt_id (cj_lease_token j);
     code \<leftarrow> norm_opt_id (cj_failure_code j);
     _ \<leftarrow> ensure (cleanup_times_aware j);
     _ \<leftarrow> ensure (cleanup_state_is_replay_safe j);
     Some (j\<lparr>cj_cleanup_id := cid, cj_owner_id := owner, cj_document_id := doc,
              cj_document_version_id := vid, cj_lease_token := token, cj_failure_code := code\<rparr>)
   })"

definition cleanup_ok :: "cleanup_job \<Rightarrow> bool" where
  "cleanup_ok j \<longleftrightarrow>
     contract_id_ok (cj_cleanup_id j) \<and> cleanup_backend_ok (cj_backend j) \<and>
     contract_id_ok (cj_owner_id j) \<and> contract_id_ok (cj_document_id j) \<and>
     contract_id_ok (cj_document_version_id j) \<and> 0 \<le> cj_attempt_count j \<and>
     1 \<le> cj_max_attempts j \<and> cj_max_attempts j \<le> 100 \<and>
     opt_id_ok (cj_lease_token j) \<and> opt_id_ok (cj_failure_code j) \<and>
     cleanup_times_aware j \<and> cleanup_state_is_replay_safe j"

subsection \<open>Chunk records\<close>

text \<open>
  The frozen \<open>ChunkRecordV1\<close> of \<^verbatim>\<open>backend/ingestion/models.py\<close>. Identities are ASCII strings,
  the text and the section path are Unicode.
\<close>

record chunk =
  ch_chunk_id :: string
  ch_document_id :: string
  ch_version_id :: string
  ch_text :: pytext
  ch_section_path :: pytext
  ch_page_start :: int
  ch_page_end :: int
  ch_parent_chunk_id :: "string option"
  ch_previous_chunk_id :: "string option"
  ch_next_chunk_id :: "string option"
  ch_tenant_id :: string
  ch_visibility :: string
  ch_library_scope_ids :: "string list"
  ch_parse_version :: string
  ch_embedding_version :: string
  ch_is_active :: bool

definition visibility_ok :: "string \<Rightarrow> bool" where
  "visibility_ok v \<longleftrightarrow> v = ''public'' \<or> v = ''tenant'' \<or> v = ''private''"

text \<open>The model validator \<open>ranges_and_scopes_are_valid\<close>.\<close>

definition ranges_and_scopes_are_valid :: "chunk \<Rightarrow> bool" where
  "ranges_and_scopes_are_valid c \<longleftrightarrow>
     \<not> ch_page_end c < ch_page_start c \<and> distinct (ch_library_scope_ids c)"

fun norm_ids :: "string list \<Rightarrow> string list option" where
  "norm_ids [] = Some []"
| "norm_ids (s # ss) = do { t \<leftarrow> norm_id s; ts \<leftarrow> norm_ids ss; Some (t # ts) }"

definition chunk_scalars_ok :: "chunk \<Rightarrow> bool" where
  "chunk_scalars_ok c \<longleftrightarrow>
     ch_text c \<noteq> [] \<and> ch_section_path c \<noteq> [] \<and> 1 \<le> ch_page_start c \<and> 1 \<le> ch_page_end c \<and>
     visibility_ok (ch_visibility c)"

definition validate_chunk :: "chunk \<Rightarrow> fact_error + chunk" where
  "validate_chunk c = of_option ValidationError (do {
     cid \<leftarrow> norm_id (ch_chunk_id c);
     doc \<leftarrow> norm_id (ch_document_id c);
     vid \<leftarrow> norm_id (ch_version_id c);
     parent \<leftarrow> norm_opt_id (ch_parent_chunk_id c);
     prev \<leftarrow> norm_opt_id (ch_previous_chunk_id c);
     nxt \<leftarrow> norm_opt_id (ch_next_chunk_id c);
     tenant \<leftarrow> norm_id (ch_tenant_id c);
     libs \<leftarrow> norm_ids (ch_library_scope_ids c);
     parse \<leftarrow> norm_id (ch_parse_version c);
     emb \<leftarrow> norm_id (ch_embedding_version c);
     _ \<leftarrow> ensure (chunk_scalars_ok c);
     let c' = c\<lparr>ch_chunk_id := cid, ch_document_id := doc, ch_version_id := vid,
                ch_parent_chunk_id := parent, ch_previous_chunk_id := prev,
                ch_next_chunk_id := nxt, ch_tenant_id := tenant, ch_library_scope_ids := libs,
                ch_parse_version := parse, ch_embedding_version := emb\<rparr>;
     _ \<leftarrow> ensure (ranges_and_scopes_are_valid c');
     Some c'
   })"

definition chunk_ok :: "chunk \<Rightarrow> bool" where
  "chunk_ok c \<longleftrightarrow>
     contract_id_ok (ch_chunk_id c) \<and> contract_id_ok (ch_document_id c) \<and>
     contract_id_ok (ch_version_id c) \<and> opt_id_ok (ch_parent_chunk_id c) \<and>
     opt_id_ok (ch_previous_chunk_id c) \<and> opt_id_ok (ch_next_chunk_id c) \<and>
     contract_id_ok (ch_tenant_id c) \<and> list_all contract_id_ok (ch_library_scope_ids c) \<and>
     contract_id_ok (ch_parse_version c) \<and> contract_id_ok (ch_embedding_version c) \<and>
     chunk_scalars_ok c \<and> ranges_and_scopes_are_valid c"

subsection \<open>Normal forms\<close>

text \<open>
  Validation is idempotent: what a validator returns satisfies the contract, and a record that
  satisfies the contract is returned unchanged. These two facts are all the later components
  use of the validators.
\<close>

lemma opt_id_ok_norm: "norm_opt_id m = Some n \<Longrightarrow> opt_id_ok n"
  by (auto simp: norm_opt_id_def opt_id_ok_def dest: norm_id_Some split: option.splits)

lemma norm_opt_id_id [simp]: "opt_id_ok m \<Longrightarrow> norm_opt_id m = Some m"
  by (cases m) (simp_all add: opt_id_ok_def)

lemma norm_opt_id_None: "norm_opt_id m = Some n \<Longrightarrow> (n = None) = (m = None)"
  by (auto simp: norm_opt_id_def split: option.splits)

lemma norm_ids_ok [simp]: "list_all contract_id_ok ss \<Longrightarrow> norm_ids ss = Some ss"
  by (induction ss) auto

lemma norm_ids_Some: "norm_ids ss = Some ts \<Longrightarrow> list_all contract_id_ok ts"
  by (induction ss arbitrary: ts) (auto simp: norm_id_Some split: bind_splits)

lemmas validator_defs = validate_identity_def validate_version_def validate_job_def
  validate_pdf_object_def validate_runtime_snapshot_def validate_cleanup_def validate_chunk_def

lemma validate_identity_ok: "identity_ok d \<Longrightarrow> validate_identity d = Inr d"
  by (simp add: identity_ok_def validate_identity_def require_timezone_def)

lemma validate_identity_InrD: "validate_identity d = Inr d' \<Longrightarrow> identity_ok d'"
  by (auto simp: validate_identity_def identity_ok_def require_timezone_def norm_id_Some
      source_times_ordered_def split: bind_splits)

lemma lifecycle_fails_closed_cong:
  assumes "ver_lifecycle_status v = ver_lifecycle_status w" "ver_delete_time v = ver_delete_time w"
    "ver_chunk_expire_time v = ver_chunk_expire_time w"
    "(ver_failure_code v = None) = (ver_failure_code w = None)"
    "milestones_present v = milestones_present w" "ver_index_states v = ver_index_states w"
  shows "lifecycle_fails_closed v = lifecycle_fails_closed w"
  using assms by (simp add: lifecycle_fails_closed_def)

lemma validate_version_ok: "version_ok v \<Longrightarrow> validate_version v = Inr v"
  by (simp add: version_ok_def validate_version_def)

lemma validate_version_InrD:
  assumes "validate_version v = Inr v'"
  shows "version_ok v'"
proof -
  from assms obtain p d w i r code where
    v': "v' = v\<lparr>ver_paper_id := p, ver_document_id := d, ver_owner_id := w,
       ver_document_version_id := i, ver_parse_version := r, ver_failure_code := code\<rparr>"
    and ids: "contract_id_ok p" "contract_id_ok d" "contract_id_ok w" "contract_id_ok i"
      "contract_id_ok r" "norm_opt_id (ver_failure_code v) = Some code"
    and rest: "sha256_ok (ver_content_sha256 v)" "sha256_ok (ver_source_snapshot_sha256 v)"
      "1 \<le> ver_lifecycle_revision v" "version_times_aware v" "lifecycle_fails_closed v"
    by (auto simp: validate_version_def norm_id_Some split: bind_splits)
  have "lifecycle_fails_closed v' = lifecycle_fails_closed v"
    unfolding v' using norm_opt_id_None [OF ids(6)]
    by (intro lifecycle_fails_closed_cong) (simp_all add: milestones_present_def)
  with rest ids show ?thesis
    by (simp add: version_ok_def v' opt_id_ok_norm version_times_aware_def)
qed

lemma validate_job_ok: "job_ok j \<Longrightarrow> validate_job j = Inr j"
  by (simp add: job_ok_def validate_job_def require_timezone_def)

lemma validate_job_InrD: "validate_job j = Inr j' \<Longrightarrow> job_ok j'"
  by (auto simp: validate_job_def job_ok_def require_timezone_def norm_id_Some opt_id_ok_norm
      failed_job_has_code_def dest: norm_opt_id_None split: bind_splits)

lemma validate_pdf_object_ok: "pdf_object_ok p \<Longrightarrow> validate_pdf_object p = Inr p"
  by (simp add: pdf_object_ok_def validate_pdf_object_def)

lemma validate_cleanup_ok: "cleanup_ok j \<Longrightarrow> validate_cleanup j = Inr j"
  by (simp add: cleanup_ok_def validate_cleanup_def)

text \<open>The cascade of checks is the conjunction of what each one demands.\<close>

lemma cleanup_state_iff:
  "cleanup_state_is_replay_safe j \<longleftrightarrow>
     ((cj_status j = CL_RUNNING) = (cj_lease_token j \<noteq> None \<and> cj_lease_expires_at j \<noteq> None)) \<and>
     ((cj_status j \<in> {CL_RETRY, CL_FAILED}) = (cj_failure_code j \<noteq> None)) \<and>
     ((cj_status j \<in> {CL_SUCCEEDED, CL_FAILED}) = (cj_completed_at j \<noteq> None)) \<and>
     cj_attempt_count j \<le> cj_max_attempts j \<and>
     (cj_status j = CL_PENDING \<longrightarrow> cj_attempt_count j = 0) \<and>
     (cj_status j = CL_RUNNING \<longrightarrow> 1 \<le> cj_attempt_count j)"
  unfolding cleanup_state_is_replay_safe_def Let_def
  by (cases "cj_status j"; cases "cj_failure_code j"; cases "cj_completed_at j"; force)

lemma cleanup_state_cong:
  assumes "cj_status j = cj_status k" "cj_attempt_count j = cj_attempt_count k"
    "cj_max_attempts j = cj_max_attempts k"
    "(cj_lease_token j = None) = (cj_lease_token k = None)"
    "(cj_lease_expires_at j = None) = (cj_lease_expires_at k = None)"
    "(cj_failure_code j = None) = (cj_failure_code k = None)"
    "(cj_completed_at j = None) = (cj_completed_at k = None)"
  shows "cleanup_state_is_replay_safe j = cleanup_state_is_replay_safe k"
  using assms by (simp add: cleanup_state_iff)

lemma validate_cleanup_InrD:
  assumes "validate_cleanup j = Inr j'"
  shows "cleanup_ok j'"
proof -
  from assms obtain c w d i token code where
    j': "j' = j\<lparr>cj_cleanup_id := c, cj_owner_id := w, cj_document_id := d,
       cj_document_version_id := i, cj_lease_token := token, cj_failure_code := code\<rparr>"
    and ids: "contract_id_ok c" "contract_id_ok d" "contract_id_ok w" "contract_id_ok i"
      "norm_opt_id (cj_lease_token j) = Some token" "norm_opt_id (cj_failure_code j) = Some code"
    and rest: "cleanup_backend_ok (cj_backend j)" "0 \<le> cj_attempt_count j"
      "1 \<le> cj_max_attempts j" "cj_max_attempts j \<le> 100" "cleanup_times_aware j"
      "cleanup_state_is_replay_safe j"
    by (auto simp: validate_cleanup_def norm_id_Some split: bind_splits)
  have "cleanup_state_is_replay_safe j' = cleanup_state_is_replay_safe j"
    unfolding j' using norm_opt_id_None [OF ids(5)] norm_opt_id_None [OF ids(6)]
    by (intro cleanup_state_cong) simp_all
  with rest ids show ?thesis
    by (simp add: cleanup_ok_def j' opt_id_ok_norm cleanup_times_aware_def)
qed

lemma validate_chunk_ok: "chunk_ok c \<Longrightarrow> validate_chunk c = Inr c"
  by (simp add: chunk_ok_def validate_chunk_def)

lemma validate_chunk_InrD:
  assumes "validate_chunk c = Inr c'"
  shows "chunk_ok c'"
proof -
  from assms obtain cid doc vid parent prev nxt tenant libs parse emb where
    c': "c' = c\<lparr>ch_chunk_id := cid, ch_document_id := doc, ch_version_id := vid,
       ch_parent_chunk_id := parent, ch_previous_chunk_id := prev, ch_next_chunk_id := nxt,
       ch_tenant_id := tenant, ch_library_scope_ids := libs, ch_parse_version := parse,
       ch_embedding_version := emb\<rparr>"
    and ids: "norm_id (ch_chunk_id c) = Some cid" "norm_id (ch_document_id c) = Some doc"
      "norm_id (ch_version_id c) = Some vid" "norm_opt_id (ch_parent_chunk_id c) = Some parent"
      "norm_opt_id (ch_previous_chunk_id c) = Some prev"
      "norm_opt_id (ch_next_chunk_id c) = Some nxt" "norm_id (ch_tenant_id c) = Some tenant"
      "norm_ids (ch_library_scope_ids c) = Some libs" "norm_id (ch_parse_version c) = Some parse"
      "norm_id (ch_embedding_version c) = Some emb"
    and rest: "chunk_scalars_ok c" "ranges_and_scopes_are_valid c'"
    unfolding validate_chunk_def Let_def
    by (simp split: bind_splits if_splits) blast
  have "chunk_scalars_ok c'" using rest(1) by (simp add: c' chunk_scalars_ok_def)
  with rest(2) ids show ?thesis
    by (simp add: chunk_ok_def c' norm_id_Some norm_ids_Some opt_id_ok_norm)
qed

end
