(* ===== verification/FactTables.thy ===== *)
theory FactTables
  imports StorageModels
begin

text \<open>
  The PostgreSQL schema of \<^verbatim>\<open>backend/storage/migrations\<close> and the meaning of every SQL statement
  \<^verbatim>\<open>backend/storage/postgres.py\<close> executes. A table is the list of its rows in insertion order. A
  statement maps a database to the row (or rows) it returns and the new database, or to the error
  PostgreSQL raises: a CHECK, UNIQUE or FOREIGN KEY violation, or the transition trigger. The
  generated column \<open>is_active\<close> is computed, timestamps are \<^verbatim>\<open>TIMESTAMPTZ\<close>.
  \<open>db_inv\<close> is the schema's integrity; \<open>db_history\<close> relates a database to a later one.
\<close>

subsection \<open>Tables\<close>

record chunk_row =
  cr_ordinal :: int
  cr_chunk :: chunk \<comment> \<open>the columns of the row; there is no \<open>is_active\<close> column, the field is False\<close>

record db =
  documents :: "document_identity list"
  versions :: "version list"
  jobs :: "ingestion_job list"
  cleanups :: "cleanup_job list"
  pdf_objects :: "pdf_object list"
  chunk_rows :: "chunk_row list"

definition empty_db :: db where
  "empty_db = \<lparr>documents = [], versions = [], jobs = [], cleanups = [], pdf_objects = [],
     chunk_rows = []\<rparr>"

type_synonym 'a statement = "db \<Rightarrow> fact_error + ('a \<times> db)"

definition db_raise :: "db_failure \<Rightarrow> fact_error + 'a" where
  "db_raise e = Inl (DatabaseError e)"

lemma db_raise_neq_Inr [simp]: "db_raise e \<noteq> Inr x" "Inr x \<noteq> db_raise e"
  by (simp_all add: db_raise_def)

subsection \<open>Row constraints and the trigger\<close>

definition document_check :: "document_identity \<Rightarrow> bool" where
  "document_check d \<longleftrightarrow>
     contract_id_ok (di_document_id d) \<and> contract_id_ok (di_owner_id d) \<and>
     contract_id_ok (di_paper_id d) \<and> source_type_ok (di_source_type d) \<and>
     contract_id_ok (di_mapping_version d) \<and> source_times_ordered d"

definition version_check :: "version \<Rightarrow> bool" where
  "version_check v \<longleftrightarrow>
     contract_id_ok (ver_document_version_id v) \<and> sha256_ok (ver_content_sha256 v) \<and>
     sha256_ok (ver_source_snapshot_sha256 v) \<and> contract_id_ok (ver_parse_version v) \<and>
     1 \<le> ver_lifecycle_revision v \<and> opt_id_ok (ver_failure_code v) \<and>
     ((ver_lifecycle_status v = INACTIVE \<and>
        (ver_delete_time v \<noteq> None \<or> ver_chunk_expire_time v \<noteq> None)) \<or>
      (ver_lifecycle_status v \<noteq> INACTIVE \<and>
        ver_delete_time v = None \<and> ver_chunk_expire_time v = None)) \<and>
     (ver_lifecycle_status v \<noteq> FAILED \<or> ver_failure_code v \<noteq> None) \<and>
     (ver_lifecycle_status v \<noteq> READY \<or>
       (milestones_present v \<and> ver_index_states v = ready_index_states \<and>
        ver_failure_code v = None))"

definition job_check :: "ingestion_job \<Rightarrow> bool" where
  "job_check j \<longleftrightarrow>
     contract_id_ok (ij_job_id j) \<and> contract_id_ok (ij_owner_id j) \<and>
     contract_id_ok (ij_idempotency_key j) \<and> 0 \<le> ij_attempt_count j \<and>
     opt_id_ok (ij_failure_code j) \<and>
     ((ij_status j = JOB_FAILED) = (ij_failure_code j \<noteq> None))"

definition cleanup_check :: "cleanup_job \<Rightarrow> bool" where
  "cleanup_check j \<longleftrightarrow>
     contract_id_ok (cj_cleanup_id j) \<and> cleanup_backend_ok (cj_backend j) \<and>
     contract_id_ok (cj_owner_id j) \<and> contract_id_ok (cj_document_id j) \<and>
     contract_id_ok (cj_document_version_id j) \<and> 0 \<le> cj_attempt_count j \<and>
     1 \<le> cj_max_attempts j \<and> cj_max_attempts j \<le> 100 \<and>
     opt_id_ok (cj_lease_token j) \<and> opt_id_ok (cj_failure_code j) \<and>
     ((cj_status j = CL_RUNNING) = (cj_lease_token j \<noteq> None \<and> cj_lease_expires_at j \<noteq> None)) \<and>
     ((cj_status j = CL_RETRY \<or> cj_status j = CL_FAILED) = (cj_failure_code j \<noteq> None)) \<and>
     ((cj_status j = CL_SUCCEEDED \<or> cj_status j = CL_FAILED) = (cj_completed_at j \<noteq> None)) \<and>
     cj_attempt_count j \<le> cj_max_attempts j \<and>
     (cj_status j \<noteq> CL_PENDING \<or> cj_attempt_count j = 0)"

definition pdf_object_check :: "pdf_object \<Rightarrow> bool" where
  "pdf_object_check p \<longleftrightarrow>
     object_key_ok (po_object_key p) \<and> po_storage_backend p = ''filesystem_v1'' \<and>
     sha256_ok (po_content_sha256 p) \<and> 0 < po_size_bytes p \<and>
     po_media_type p = ''application/pdf''"

definition chunk_row_check :: "chunk_row \<Rightarrow> bool" where
  "chunk_row_check r \<longleftrightarrow>
     contract_id_ok (ch_chunk_id (cr_chunk r)) \<and> 0 \<le> cr_ordinal r \<and>
     ch_text (cr_chunk r) \<noteq> [] \<and> ch_section_path (cr_chunk r) \<noteq> [] \<and>
     1 \<le> ch_page_start (cr_chunk r) \<and> ch_page_start (cr_chunk r) \<le> ch_page_end (cr_chunk r) \<and>
     visibility_ok (ch_visibility (cr_chunk r)) \<and>
     contract_id_ok (ch_parse_version (cr_chunk r)) \<and>
     contract_id_ok (ch_embedding_version (cr_chunk r)) \<and> \<not> ch_is_active (cr_chunk r)"

text \<open>The foreign key shared by jobs, cleanups, PDF objects and chunks.\<close>

definition version_matches :: "string \<Rightarrow> string \<Rightarrow> string \<Rightarrow> version \<Rightarrow> bool" where
  "version_matches vid owner doc v \<longleftrightarrow>
     ver_document_version_id v = vid \<and> ver_owner_id v = owner \<and> ver_document_id v = doc"

definition version_fk :: "db \<Rightarrow> string \<Rightarrow> string \<Rightarrow> string \<Rightarrow> bool" where
  "version_fk d vid owner doc \<longleftrightarrow> (\<exists>v \<in> set (versions d). version_matches vid owner doc v)"

definition same_version_identity :: "version \<Rightarrow> version \<Rightarrow> bool" where
  "same_version_identity v w \<longleftrightarrow>
     ver_document_version_id w = ver_document_version_id v \<and>
     ver_document_id w = ver_document_id v \<and> ver_owner_id w = ver_owner_id v \<and>
     ver_paper_id w = ver_paper_id v \<and> ver_content_sha256 w = ver_content_sha256 v \<and>
     ver_source_snapshot_sha256 w = ver_source_snapshot_sha256 v \<and>
     ver_parse_version w = ver_parse_version v"

text \<open>The trigger \<open>rag_enforce_document_version_transition\<close>: when it lets an update pass.\<close>

definition version_transition_allowed :: "lifecycle_status \<Rightarrow> lifecycle_status \<Rightarrow> bool" where
  "version_transition_allowed old new =
     (if new = old then old = PROCESSING else
       (case old of
          REGISTERED \<Rightarrow> new \<in> {PROCESSING, INACTIVE}
        | PROCESSING \<Rightarrow> new \<in> {REVIEW, READY, FAILED, INACTIVE}
        | REVIEW \<Rightarrow> new \<in> {PROCESSING, FAILED, INACTIVE}
        | READY \<Rightarrow> new = INACTIVE
        | FAILED \<Rightarrow> new \<in> {PROCESSING, INACTIVE}
        | INACTIVE \<Rightarrow> False))"

definition version_step :: "version \<Rightarrow> version \<Rightarrow> bool" where
  "version_step v w \<longleftrightarrow>
     same_version_identity v w \<and> ver_lifecycle_revision w = ver_lifecycle_revision v + 1 \<and>
     version_transition_allowed (ver_lifecycle_status v) (ver_lifecycle_status w)"

subsection \<open>Integrity\<close>

definition documents_inv :: "db \<Rightarrow> bool" where
  "documents_inv d \<longleftrightarrow>
     keyed di_document_id (documents d) \<and>
     keyed (\<lambda>r. (di_owner_id r, di_paper_id r)) (documents d) \<and>
     (\<forall>r \<in> set (documents d). identity_ok r)"

definition document_matches :: "version \<Rightarrow> document_identity \<Rightarrow> bool" where
  "document_matches v r \<longleftrightarrow> di_document_id r = ver_document_id v \<and>
     di_owner_id r = ver_owner_id v \<and> di_paper_id r = ver_paper_id v"

definition source_identity :: "version \<Rightarrow> string \<times> string \<times> string \<times> string" where
  "source_identity v = (ver_document_id v, ver_content_sha256 v, ver_source_snapshot_sha256 v,
     ver_parse_version v)"

definition active_key :: "version \<Rightarrow> string \<times> string" where
  "active_key v = (ver_owner_id v, ver_document_id v)"

definition one_active :: "version list \<Rightarrow> bool" where
  "one_active vs \<longleftrightarrow> (\<forall>v \<in> set vs. \<forall>w \<in> set vs.
     is_active v \<and> is_active w \<and> active_key v = active_key w \<longrightarrow>
     ver_document_version_id v = ver_document_version_id w)"

definition versions_inv :: "db \<Rightarrow> bool" where
  "versions_inv d \<longleftrightarrow>
     keyed ver_document_version_id (versions d) \<and> keyed source_identity (versions d) \<and>
     one_active (versions d) \<and>
     (\<forall>v \<in> set (versions d). version_ok v \<and> (\<exists>r \<in> set (documents d). document_matches v r))"

definition jobs_inv :: "db \<Rightarrow> bool" where
  "jobs_inv d \<longleftrightarrow>
     keyed ij_job_id (jobs d) \<and> keyed (\<lambda>j. (ij_owner_id j, ij_idempotency_key j)) (jobs d) \<and>
     (\<forall>j \<in> set (jobs d). job_ok j \<and>
        version_fk d (ij_document_version_id j) (ij_owner_id j) (ij_document_id j))"

definition cleanup_identity :: "cleanup_job \<Rightarrow> string \<times> string \<times> string \<times> string" where
  "cleanup_identity j = (cj_backend j, cj_owner_id j, cj_document_id j, cj_document_version_id j)"

text \<open>A cleanup job exists only for a version that is INACTIVE.\<close>

definition inactive_version :: "db \<Rightarrow> string \<Rightarrow> string \<Rightarrow> string \<Rightarrow> bool" where
  "inactive_version d vid owner doc \<longleftrightarrow>
     (\<exists>v \<in> set (versions d). version_matches vid owner doc v \<and> ver_lifecycle_status v = INACTIVE)"

definition cleanups_inv :: "db \<Rightarrow> bool" where
  "cleanups_inv d \<longleftrightarrow>
     keyed cj_cleanup_id (cleanups d) \<and> keyed cleanup_identity (cleanups d) \<and>
     (\<forall>j \<in> set (cleanups d). cleanup_ok j \<and>
        inactive_version d (cj_document_version_id j) (cj_owner_id j) (cj_document_id j))"

definition snapshots_inv :: "db \<Rightarrow> bool" where
  "snapshots_inv d \<longleftrightarrow>
     keyed po_document_version_id (pdf_objects d) \<and> keyed po_object_key (pdf_objects d) \<and>
     (\<forall>p \<in> set (pdf_objects d). pdf_object_ok p \<and>
        version_fk d (po_document_version_id p) (po_owner_id p) (po_document_id p)) \<and>
     keyed (\<lambda>r. ch_chunk_id (cr_chunk r)) (chunk_rows d) \<and>
     keyed (\<lambda>r. (ch_version_id (cr_chunk r), cr_ordinal r)) (chunk_rows d) \<and>
     (\<forall>r \<in> set (chunk_rows d). chunk_row_check r \<and>
        version_fk d (ch_version_id (cr_chunk r)) (ch_tenant_id (cr_chunk r))
          (ch_document_id (cr_chunk r)))"

definition db_inv :: "db \<Rightarrow> bool" where
  "db_inv d \<longleftrightarrow> documents_inv d \<and> versions_inv d \<and> jobs_inv d \<and> cleanups_inv d \<and> snapshots_inv d"

lemma db_inv_empty: "db_inv empty_db"
  by (simp add: db_inv_def documents_inv_def versions_inv_def jobs_inv_def cleanups_inv_def
      snapshots_inv_def one_active_def empty_db_def)

subsection \<open>History\<close>

definition document_evolves :: "document_identity \<Rightarrow> document_identity \<Rightarrow> bool" where
  "document_evolves r r' \<longleftrightarrow>
     di_document_id r' = di_document_id r \<and> di_owner_id r' = di_owner_id r \<and>
     di_paper_id r' = di_paper_id r \<and> di_source_type r' = di_source_type r \<and>
     instant (di_source_updated_time r) \<le> instant (di_source_updated_time r')"

definition job_evolves :: "ingestion_job \<Rightarrow> ingestion_job \<Rightarrow> bool" where
  "job_evolves j j' \<longleftrightarrow>
     ij_job_id j' = ij_job_id j \<and> ij_owner_id j' = ij_owner_id j \<and>
     ij_idempotency_key j' = ij_idempotency_key j \<and> ij_document_id j' = ij_document_id j \<and>
     ij_document_version_id j' = ij_document_version_id j \<and>
     ij_attempt_count j \<le> ij_attempt_count j'"

text \<open>The state machine of a cleanup job, one rule per way the queue changes it.\<close>

inductive cleanup_step :: "cleanup_job \<Rightarrow> cleanup_job \<Rightarrow> bool" where
  claim: "cj_status j \<in> {CL_PENDING, CL_RETRY} \<Longrightarrow>
     cleanup_step j (j\<lparr>cj_status := CL_RUNNING, cj_attempt_count := cj_attempt_count j + 1,
       cj_lease_token := Some t, cj_lease_expires_at := Some e, cj_failure_code := None,
       cj_updated_at := u, cj_completed_at := None\<rparr>)"
| complete: "cj_status j = CL_RUNNING \<Longrightarrow>
     cleanup_step j (j\<lparr>cj_status := CL_SUCCEEDED, cj_lease_token := None,
       cj_lease_expires_at := None, cj_failure_code := None, cj_updated_at := u,
       cj_completed_at := Some u\<rparr>)"
| retry: "cj_status j = CL_RUNNING \<Longrightarrow> cj_attempt_count j < cj_max_attempts j \<Longrightarrow>
     cleanup_step j (j\<lparr>cj_status := CL_RETRY, cj_next_attempt_at := n, cj_lease_token := None,
       cj_lease_expires_at := None, cj_failure_code := Some c, cj_updated_at := u,
       cj_completed_at := None\<rparr>)"
| give_up: "cj_status j = CL_RUNNING \<Longrightarrow> \<not> cj_attempt_count j < cj_max_attempts j \<Longrightarrow>
     cleanup_step j (j\<lparr>cj_status := CL_FAILED, cj_next_attempt_at := n, cj_lease_token := None,
       cj_lease_expires_at := None, cj_failure_code := Some c, cj_updated_at := u,
       cj_completed_at := Some u\<rparr>)"

definition pdf_objects_kept :: "db \<Rightarrow> db \<Rightarrow> bool" where
  "pdf_objects_kept d d' \<longleftrightarrow>
     (\<forall>p \<in> set (pdf_objects d). p \<in> set (pdf_objects d') \<or>
        inactive_version d' (po_document_version_id p) (po_owner_id p) (po_document_id p))"

definition chunk_rows_kept :: "db \<Rightarrow> db \<Rightarrow> bool" where
  "chunk_rows_kept d d' \<longleftrightarrow>
     (\<forall>r \<in> set (chunk_rows d). r \<in> set (chunk_rows d') \<or>
        inactive_version d' (ch_version_id (cr_chunk r)) (ch_tenant_id (cr_chunk r))
          (ch_document_id (cr_chunk r)))"

abbreviation versions_kept :: "db \<Rightarrow> db \<Rightarrow> bool" where
  "versions_kept d d' \<equiv> kept_by version_step\<^sup>*\<^sup>* (versions d) (versions d')"

text \<open>And backwards: every version comes from one that was there, or from a new registration.\<close>

definition freshly_registered :: "version \<Rightarrow> bool" where
  "freshly_registered v \<longleftrightarrow> ver_lifecycle_status v = REGISTERED \<and> ver_lifecycle_revision v = 1"

definition versions_born :: "db \<Rightarrow> db \<Rightarrow> bool" where
  "versions_born d d' \<longleftrightarrow>
     (\<forall>w \<in> set (versions d'). \<exists>v. version_step\<^sup>*\<^sup>* v w \<and> (v \<in> set (versions d) \<or> freshly_registered v))"

definition db_history :: "db \<Rightarrow> db \<Rightarrow> bool" where
  "db_history d d' \<longleftrightarrow>
     kept_by document_evolves (documents d) (documents d') \<and> versions_kept d d' \<and> versions_born d d' \<and>
     kept_by job_evolves (jobs d) (jobs d') \<and>
     kept_by cleanup_step\<^sup>*\<^sup>* (cleanups d) (cleanups d') \<and>
     pdf_objects_kept d d' \<and> chunk_rows_kept d d'"

text \<open>What every committed change does: it keeps the integrity and extends the history.\<close>

definition db_evolves :: "db \<Rightarrow> db \<Rightarrow> bool" where
  "db_evolves d d' \<longleftrightarrow> (db_inv d \<longrightarrow> db_inv d' \<and> db_history d d')"

subsection \<open>Statements on documents, versions and jobs\<close>

definition sql_register_document :: "document_identity \<Rightarrow> document_identity option statement" where
  "sql_register_document cand d =
     (if \<not> document_check cand then db_raise CheckViolation else
      (case find (\<lambda>r. di_owner_id r = di_owner_id cand \<and> di_paper_id r = di_paper_id cand)
              (documents d) of
         Some old \<Rightarrow>
           (let new = old\<lparr>di_mapping_version := di_mapping_version cand,
                  di_source_updated_time := Aware (max (instant (di_source_updated_time old))
                    (instant (di_source_updated_time cand)))\<rparr>
            in if \<not> document_check new then db_raise CheckViolation
               else Inr (Some new, d\<lparr>documents :=
                 update_rows (\<lambda>r. di_document_id r = di_document_id old) (\<lambda>_. new) (documents d)\<rparr>))
       | None \<Rightarrow>
           (if \<exists>r \<in> set (documents d). di_document_id r = di_document_id cand
            then db_raise UniqueViolation
            else Inr (Some cand, d\<lparr>documents := documents d @ [cand]\<rparr>))))"

definition new_version ::
  "document_identity \<Rightarrow> string \<Rightarrow> string \<Rightarrow> string \<Rightarrow> string \<Rightarrow> int \<Rightarrow> version" where
  "new_version r vid content snapshot parse now =
     \<lparr>ver_paper_id = di_paper_id r, ver_document_id = di_document_id r,
      ver_owner_id = di_owner_id r, ver_document_version_id = vid,
      ver_content_sha256 = content, ver_source_snapshot_sha256 = snapshot,
      ver_parse_version = parse, ver_lifecycle_revision = 1,
      ver_lifecycle_status = REGISTERED, ver_parse_finish_time = None,
      ver_chunk_splitter_time = None, ver_chunk_create_time = None, ver_chunk_gen_time = None,
      ver_vector_index_time = None, ver_index_states = default_index_states,
      ver_delete_time = None, ver_chunk_expire_time = None, ver_last_access_time = None,
      ver_last_refresh_time = None, ver_failure_code = None, ver_updated_at = Aware now\<rparr>"

definition by_source :: "string \<Rightarrow> string \<Rightarrow> string \<Rightarrow> string \<Rightarrow> string \<Rightarrow> version \<Rightarrow> bool" where
  "by_source owner doc content snapshot parse v \<longleftrightarrow>
     ver_owner_id v = owner \<and> source_identity v = (doc, content, snapshot, parse)"

text \<open>
  The INSERT and the UNION ALL read of the same statement: the read sees the table before the
  insertion, the first row wins.
\<close>

definition sql_register_version ::
  "string \<Rightarrow> string \<Rightarrow> string \<Rightarrow> string \<Rightarrow> string \<Rightarrow> string \<Rightarrow> int \<Rightarrow> version option statement"
where
  "sql_register_version owner doc vid content snapshot parse now d =
     (case find (\<lambda>r. di_owner_id r = owner \<and> di_document_id r = doc) (documents d) of
        None \<Rightarrow> Inr (find (by_source owner doc content snapshot parse) (versions d), d)
      | Some r \<Rightarrow>
          (let v = new_version r vid content snapshot parse now in
           if \<not> version_check v then db_raise CheckViolation
           else if \<exists>w \<in> set (versions d). source_identity w = source_identity v
             then Inr (find (by_source owner doc content snapshot parse) (versions d), d)
           else if \<exists>w \<in> set (versions d). ver_document_version_id w = vid
             then db_raise UniqueViolation
           else Inr (Some v, d\<lparr>versions := versions d @ [v]\<rparr>)))"

definition sql_get_version_by_source ::
  "string \<Rightarrow> string \<Rightarrow> string \<Rightarrow> string \<Rightarrow> string \<Rightarrow> version option statement" where
  "sql_get_version_by_source owner doc content snapshot parse d =
     Inr (find (by_source owner doc content snapshot parse) (versions d), d)"

definition new_job :: "string \<Rightarrow> string \<Rightarrow> string \<Rightarrow> string \<Rightarrow> string \<Rightarrow> int \<Rightarrow> ingestion_job" where
  "new_job jid owner key doc vid now =
     \<lparr>ij_job_id = jid, ij_owner_id = owner, ij_idempotency_key = key, ij_document_id = doc,
      ij_document_version_id = vid, ij_status = JOB_PENDING, ij_attempt_count = 0,
      ij_failure_code = None, ij_created_at = Aware now, ij_updated_at = Aware now\<rparr>"

definition sql_register_job ::
  "string \<Rightarrow> string \<Rightarrow> string \<Rightarrow> string \<Rightarrow> string \<Rightarrow> int \<Rightarrow> ingestion_job option statement" where
  "sql_register_job jid owner key doc vid now d =
     (let j = new_job jid owner key doc vid now in
      if \<not> job_check j then db_raise CheckViolation else
      (case find (\<lambda>r. ij_owner_id r = owner \<and> ij_idempotency_key r = key) (jobs d) of
         Some old \<Rightarrow> Inr (Some old, d)
       | None \<Rightarrow>
           (if \<exists>r \<in> set (jobs d). ij_job_id r = jid then db_raise UniqueViolation
            else if \<not> version_fk d vid owner doc then db_raise ForeignKeyViolation
            else Inr (Some j, d\<lparr>jobs := jobs d @ [j]\<rparr>))))"

definition sql_lock_version :: "string \<Rightarrow> string \<Rightarrow> version option statement" where
  "sql_lock_version owner vid d =
     Inr (find (\<lambda>v. ver_owner_id v = owner \<and> ver_document_version_id v = vid) (versions d), d)"

text \<open>The columns the lifecycle UPDATE sets, taken from the candidate.\<close>

definition set_lifecycle_columns :: "version \<Rightarrow> version \<Rightarrow> version" where
  "set_lifecycle_columns cand old = old\<lparr>
     ver_lifecycle_revision := ver_lifecycle_revision cand,
     ver_lifecycle_status := ver_lifecycle_status cand,
     ver_parse_finish_time := ver_parse_finish_time cand,
     ver_chunk_splitter_time := ver_chunk_splitter_time cand,
     ver_chunk_create_time := ver_chunk_create_time cand,
     ver_chunk_gen_time := ver_chunk_gen_time cand,
     ver_vector_index_time := ver_vector_index_time cand,
     ver_index_states := ver_index_states cand,
     ver_delete_time := ver_delete_time cand,
     ver_chunk_expire_time := ver_chunk_expire_time cand,
     ver_last_access_time := ver_last_access_time cand,
     ver_last_refresh_time := ver_last_refresh_time cand,
     ver_failure_code := ver_failure_code cand,
     ver_updated_at := ver_updated_at cand\<rparr>"

definition replace_version :: "version \<Rightarrow> version \<Rightarrow> version list \<Rightarrow> version list" where
  "replace_version old new vs =
     update_rows (\<lambda>v. ver_document_version_id v = ver_document_version_id old) (\<lambda>_. new) vs"

definition sql_update_version :: "version \<Rightarrow> int \<Rightarrow> version option statement" where
  "sql_update_version cand expected_revision d =
     (case find (\<lambda>v. ver_owner_id v = ver_owner_id cand \<and>
               ver_document_version_id v = ver_document_version_id cand \<and>
               ver_lifecycle_revision v = expected_revision) (versions d) of
        None \<Rightarrow> Inr (None, d)
      | Some old \<Rightarrow>
          (let new = set_lifecycle_columns cand old in
           if \<not> version_step old new then db_raise TransitionRejected
           else if \<not> version_check new then db_raise CheckViolation
           else if is_active new \<and> (\<exists>w \<in> set (versions d). is_active w \<and>
                active_key w = active_key new \<and>
                ver_document_version_id w \<noteq> ver_document_version_id old)
             then db_raise UniqueViolation
           else Inr (Some new, d\<lparr>versions := replace_version old new (versions d)\<rparr>)))"

definition sql_get_online_version :: "string \<Rightarrow> string \<Rightarrow> version option statement" where
  "sql_get_online_version owner vid d =
     Inr (find (\<lambda>v. ver_owner_id v = owner \<and> ver_document_version_id v = vid \<and> is_active v)
            (versions d), d)"

definition online_row :: "string \<Rightarrow> version \<Rightarrow> bool" where
  "online_row owner v \<longleftrightarrow>
     ver_owner_id v = owner \<and> ver_lifecycle_status v = READY \<and> is_active v \<and>
     ver_delete_time v = None \<and> ver_chunk_expire_time v = None \<and>
     elasticsearch_chunks (ver_index_states v) = IX_READY \<and>
     milvus_vectors (ver_index_states v) = IX_READY"

definition sql_resolve_online_versions :: "string \<Rightarrow> string list \<Rightarrow> version list statement" where
  "sql_resolve_online_versions owner doc_ids d =
     Inr (sort_key ver_document_id (sort_key ver_document_version_id
            (filter (\<lambda>v. online_row owner v \<and>
                (doc_ids = [] \<or> ver_document_id v \<in> set doc_ids)) (versions d))), d)"

definition sql_update_job ::
  "string \<Rightarrow> string \<Rightarrow> ingestion_job_status \<Rightarrow> string option \<Rightarrow> int \<Rightarrow> ingestion_job option statement"
where
  "sql_update_job owner jid status code now d =
     (case find (\<lambda>j. ij_owner_id j = owner \<and> ij_job_id j = jid) (jobs d) of
        None \<Rightarrow> Inr (None, d)
      | Some old \<Rightarrow>
          (let new = old\<lparr>ij_status := status,
                 ij_attempt_count := ij_attempt_count old + (if status = JOB_RUNNING then 1 else 0),
                 ij_failure_code := code, ij_updated_at := Aware now\<rparr>
           in if \<not> job_check new then db_raise CheckViolation
              else Inr (Some new, d\<lparr>jobs :=
                update_rows (\<lambda>j. ij_job_id j = ij_job_id old) (\<lambda>_. new) (jobs d)\<rparr>)))"

subsection \<open>Statements on snapshots\<close>

definition tz :: "timestamp \<Rightarrow> timestamp" where
  "tz t = Aware (instant t)"

definition sql_persist_pdf_object :: "pdf_object \<Rightarrow> unit statement" where
  "sql_persist_pdf_object p d =
     (if \<not> pdf_object_check p then db_raise CheckViolation
      else if \<exists>q \<in> set (pdf_objects d). po_document_version_id q = po_document_version_id p
        then Inr ((), d)
      else if \<exists>q \<in> set (pdf_objects d). po_object_key q = po_object_key p
        then db_raise UniqueViolation
      else if \<not> version_fk d (po_document_version_id p) (po_owner_id p) (po_document_id p)
        then db_raise ForeignKeyViolation
      else Inr ((), d\<lparr>pdf_objects := pdf_objects d @ [p\<lparr>po_stored_at := tz (po_stored_at p)\<rparr>]\<rparr>))"

definition sql_get_pdf_object :: "string \<Rightarrow> string \<Rightarrow> pdf_object option statement" where
  "sql_get_pdf_object owner vid d =
     Inr (find (\<lambda>p. po_owner_id p = owner \<and> po_document_version_id p = vid) (pdf_objects d), d)"

definition sql_persist_chunk :: "chunk_row \<Rightarrow> unit statement" where
  "sql_persist_chunk r d =
     (if \<not> chunk_row_check r then db_raise CheckViolation
      else if \<exists>q \<in> set (chunk_rows d). ch_chunk_id (cr_chunk q) = ch_chunk_id (cr_chunk r)
        then Inr ((), d)
      else if \<exists>q \<in> set (chunk_rows d).
          ch_version_id (cr_chunk q) = ch_version_id (cr_chunk r) \<and> cr_ordinal q = cr_ordinal r
        then db_raise UniqueViolation
      else if \<not> version_fk d (ch_version_id (cr_chunk r)) (ch_tenant_id (cr_chunk r))
          (ch_document_id (cr_chunk r))
        then db_raise ForeignKeyViolation
      else Inr ((), d\<lparr>chunk_rows := chunk_rows d @ [r]\<rparr>))"

definition sql_get_chunk_snapshot :: "string \<Rightarrow> string \<Rightarrow> chunk_row list statement" where
  "sql_get_chunk_snapshot owner vid d =
     Inr (sort_key cr_ordinal (filter (\<lambda>r. ch_tenant_id (cr_chunk r) = owner \<and>
            ch_version_id (cr_chunk r) = vid) (chunk_rows d)), d)"

definition chunk_row_online :: "db \<Rightarrow> string \<Rightarrow> string list \<Rightarrow> chunk_row \<Rightarrow> bool" where
  "chunk_row_online d owner vids r \<longleftrightarrow>
     ch_tenant_id (cr_chunk r) = owner \<and> ch_version_id (cr_chunk r) \<in> set vids \<and>
     (\<exists>v \<in> set (versions d).
        version_matches (ch_version_id (cr_chunk r)) (ch_tenant_id (cr_chunk r))
          (ch_document_id (cr_chunk r)) v \<and>
        ver_lifecycle_status v = READY \<and> is_active v \<and> ver_delete_time v = None \<and>
        ver_chunk_expire_time v = None)"

definition sql_load_online_chunks :: "string \<Rightarrow> string list \<Rightarrow> chunk_row list statement" where
  "sql_load_online_chunks owner vids d =
     Inr (sort_key (\<lambda>r. ch_version_id (cr_chunk r)) (sort_key cr_ordinal
            (filter (chunk_row_online d owner vids) (chunk_rows d))), d)"

definition sql_get_inactive_pdf_object :: "string \<Rightarrow> string \<Rightarrow> pdf_object option statement" where
  "sql_get_inactive_pdf_object owner vid d =
     Inr (find (\<lambda>p. po_owner_id p = owner \<and> po_document_version_id p = vid \<and>
            (\<exists>v \<in> set (versions d).
               version_matches (po_document_version_id p) (po_owner_id p) (po_document_id p) v \<and>
               ver_lifecycle_status v = INACTIVE \<and> \<not> is_active v)) (pdf_objects d), d)"

definition sql_verify_inactive :: "string \<Rightarrow> string \<Rightarrow> bool option statement" where
  "sql_verify_inactive owner vid d =
     Inr (map_option (\<lambda>_. True) (find (\<lambda>v. ver_owner_id v = owner \<and>
            ver_document_version_id v = vid \<and> ver_lifecycle_status v = INACTIVE \<and>
            \<not> is_active v) (versions d)), d)"

text \<open>Deletions run the trigger \<open>rag_allow_only_inactive_snapshot_delete\<close> on every row.\<close>

definition snapshot_delete_allowed :: "db \<Rightarrow> string \<Rightarrow> string \<Rightarrow> string \<Rightarrow> bool" where
  "snapshot_delete_allowed d vid owner doc \<longleftrightarrow>
     (\<exists>v \<in> set (versions d). version_matches vid owner doc v \<and>
        ver_lifecycle_status v = INACTIVE \<and> \<not> is_active v)"

definition sql_purge_chunks :: "string \<Rightarrow> string \<Rightarrow> unit statement" where
  "sql_purge_chunks owner vid d =
     (let hit = (\<lambda>r. ch_tenant_id (cr_chunk r) = owner \<and> ch_version_id (cr_chunk r) = vid) in
      if \<exists>r \<in> set (chunk_rows d). hit r \<and> \<not> snapshot_delete_allowed d
           (ch_version_id (cr_chunk r)) (ch_tenant_id (cr_chunk r)) (ch_document_id (cr_chunk r))
      then db_raise TransitionRejected
      else Inr ((), d\<lparr>chunk_rows := filter (\<lambda>r. \<not> hit r) (chunk_rows d)\<rparr>))"

definition sql_purge_pdf_object :: "string \<Rightarrow> string \<Rightarrow> unit statement" where
  "sql_purge_pdf_object owner vid d =
     (let hit = (\<lambda>p. po_owner_id p = owner \<and> po_document_version_id p = vid) in
      if \<exists>p \<in> set (pdf_objects d). hit p \<and> \<not> snapshot_delete_allowed d
           (po_document_version_id p) (po_owner_id p) (po_document_id p)
      then db_raise TransitionRejected
      else Inr ((), d\<lparr>pdf_objects := filter (\<lambda>p. \<not> hit p) (pdf_objects d)\<rparr>))"

subsection \<open>Statements on the cleanup queue\<close>

definition sql_enqueue_cleanup :: "cleanup_job \<Rightarrow> cleanup_job option statement" where
  "sql_enqueue_cleanup cand d =
     (if \<not> inactive_version d (cj_document_version_id cand) (cj_owner_id cand)
           (cj_document_id cand)
      then Inr (None, d)
      else if \<not> cleanup_check cand then db_raise CheckViolation
      else (case find (\<lambda>j. cleanup_identity j = cleanup_identity cand) (cleanups d) of
         Some old \<Rightarrow> Inr (Some old, d)
       | None \<Rightarrow>
           (if \<exists>j \<in> set (cleanups d). cj_cleanup_id j = cj_cleanup_id cand
            then db_raise UniqueViolation
            else Inr (Some cand, d\<lparr>cleanups := cleanups d @ [cand]\<rparr>))))"

text \<open>The shared SET list of a failed or expired attempt.\<close>

definition fail_attempt :: "int \<Rightarrow> timestamp \<Rightarrow> string \<Rightarrow> cleanup_job \<Rightarrow> cleanup_job" where
  "fail_attempt now next_at code j = j\<lparr>
     cj_status := (if cj_attempt_count j \<ge> cj_max_attempts j then CL_FAILED else CL_RETRY),
     cj_next_attempt_at := next_at, cj_lease_token := None, cj_lease_expires_at := None,
     cj_failure_code := Some code, cj_updated_at := Aware now,
     cj_completed_at := (if cj_attempt_count j \<ge> cj_max_attempts j then Some (Aware now)
                         else None)\<rparr>"

definition lease_expired :: "int \<Rightarrow> cleanup_job \<Rightarrow> bool" where
  "lease_expired now j \<longleftrightarrow> cj_status j = CL_RUNNING \<and>
     (case cj_lease_expires_at j of None \<Rightarrow> False | Some t \<Rightarrow> instant t \<le> now)"

definition sql_recover_expired_leases :: "int \<Rightarrow> unit statement" where
  "sql_recover_expired_leases now d =
     (let expire = fail_attempt now (Aware now) ''CLEANUP_LEASE_EXPIRED'' in
      if \<exists>j \<in> set (cleanups d). lease_expired now j \<and> \<not> cleanup_check (expire j)
      then db_raise CheckViolation
      else Inr ((), d\<lparr>cleanups := update_rows (lease_expired now) expire (cleanups d)\<rparr>))"

definition cleanup_due :: "int \<Rightarrow> cleanup_job \<Rightarrow> bool" where
  "cleanup_due now j \<longleftrightarrow> cj_status j \<in> {CL_PENDING, CL_RETRY} \<and>
     instant (cj_next_attempt_at j) \<le> now"

definition due_in_order :: "int \<Rightarrow> db \<Rightarrow> cleanup_job list" where
  "due_in_order now d =
     sort_key (\<lambda>j. instant (cj_next_attempt_at j)) (sort_key (\<lambda>j. instant (cj_created_at j))
       (sort_key cj_cleanup_id (filter (cleanup_due now) (cleanups d))))"

definition lease_job :: "int \<Rightarrow> string \<Rightarrow> int \<Rightarrow> cleanup_job \<Rightarrow> cleanup_job" where
  "lease_job now token expires j = j\<lparr>cj_status := CL_RUNNING,
     cj_attempt_count := cj_attempt_count j + 1, cj_lease_token := Some token,
     cj_lease_expires_at := Some (Aware expires), cj_failure_code := None,
     cj_updated_at := Aware now, cj_completed_at := None\<rparr>"

definition sql_claim_due_cleanup :: "int \<Rightarrow> string \<Rightarrow> int \<Rightarrow> cleanup_job option statement" where
  "sql_claim_due_cleanup now token expires d =
     (case due_in_order now d of
        [] \<Rightarrow> Inr (None, d)
      | j # _ \<Rightarrow>
          (let new = lease_job now token expires j in
           if \<not> cleanup_check new then db_raise CheckViolation
           else Inr (Some new, d\<lparr>cleanups :=
             update_rows (\<lambda>r. cj_cleanup_id r = cj_cleanup_id j) (\<lambda>_. new) (cleanups d)\<rparr>)))"

definition leased_as :: "string \<Rightarrow> string \<Rightarrow> cleanup_job \<Rightarrow> bool" where
  "leased_as cid token j \<longleftrightarrow> cj_cleanup_id j = cid \<and> cj_status j = CL_RUNNING \<and>
     cj_lease_token j = Some token"

definition finish_job :: "int \<Rightarrow> cleanup_job \<Rightarrow> cleanup_job" where
  "finish_job now j = j\<lparr>cj_status := CL_SUCCEEDED, cj_lease_token := None,
     cj_lease_expires_at := None, cj_failure_code := None, cj_updated_at := Aware now,
     cj_completed_at := Some (Aware now)\<rparr>"

definition sql_settle_cleanup ::
  "string \<Rightarrow> string \<Rightarrow> (cleanup_job \<Rightarrow> cleanup_job) \<Rightarrow> cleanup_job option statement" where
  "sql_settle_cleanup cid token f d =
     (case find (leased_as cid token) (cleanups d) of
        None \<Rightarrow> Inr (None, d)
      | Some j \<Rightarrow>
          (if \<not> cleanup_check (f j) then db_raise CheckViolation
           else Inr (Some (f j), d\<lparr>cleanups :=
             update_rows (\<lambda>r. cj_cleanup_id r = cj_cleanup_id j) (\<lambda>_. f j) (cleanups d)\<rparr>)))"

definition sql_complete_cleanup :: "string \<Rightarrow> string \<Rightarrow> int \<Rightarrow> cleanup_job option statement" where
  "sql_complete_cleanup cid token now = sql_settle_cleanup cid token (finish_job now)"

definition sql_record_cleanup_failure ::
  "string \<Rightarrow> string \<Rightarrow> string \<Rightarrow> timestamp \<Rightarrow> int \<Rightarrow> cleanup_job option statement" where
  "sql_record_cleanup_failure cid token code retry_at now =
     sql_settle_cleanup cid token (fail_attempt now retry_at code)"

end
