(* ===== verification/FactIntegrity.thy ===== *)
theory FactIntegrity
  imports FactTables
begin

text \<open>
  Every statement of the fact source keeps the schema's integrity and extends the history
  (\<open>db_evolves\<close>): one lemma per statement, over frame lemmas that say which parts of the
  integrity a change of one table can touch. The constraints of the schema and the validated
  candidate are all these proofs use of the code above.
\<close>

subsection \<open>The lifecycle of one version\<close>

text \<open>The trigger's graph is the frozen transition graph plus PROCESSING progress.\<close>

lemma version_transition_allowed_iff:
  "version_transition_allowed s t \<longleftrightarrow>
     t \<in> allowed_lifecycle_transitions s \<or> (s = PROCESSING \<and> t = PROCESSING)"
  by (cases s; cases t; simp add: version_transition_allowed_def)

lemma same_version_identity_refl [simp]: "same_version_identity v v"
  by (simp add: same_version_identity_def)

lemma same_version_identity_trans:
  "same_version_identity u v \<Longrightarrow> same_version_identity v w \<Longrightarrow> same_version_identity u w"
  by (simp add: same_version_identity_def)

lemma version_steps_identity: "version_step\<^sup>*\<^sup>* v w \<Longrightarrow> same_version_identity v w"
proof (induction rule: rtranclp_induct)
  case base
  show ?case by simp
next
  case (step y z)
  then show ?case by (auto simp: version_step_def intro: same_version_identity_trans)
qed

lemma version_steps_revision:
  "version_step\<^sup>*\<^sup>* v w \<Longrightarrow> v = w \<or> ver_lifecycle_revision v < ver_lifecycle_revision w"
  by (induction rule: rtranclp_induct) (auto simp: version_step_def)

lemma inactive_no_step: "ver_lifecycle_status v = INACTIVE \<Longrightarrow> \<not> version_step v w"
  by (auto simp: version_step_def version_transition_allowed_def split: if_splits)

lemma inactive_steps: "version_step\<^sup>*\<^sup>* v w \<Longrightarrow> ver_lifecycle_status v = INACTIVE \<Longrightarrow> w = v"
  by (induction rule: rtranclp_induct) (auto dest: inactive_no_step)

lemma ready_steps:
  "version_step\<^sup>*\<^sup>* v w \<Longrightarrow> ver_lifecycle_status v = READY \<Longrightarrow>
     w = v \<or> ver_lifecycle_status w = INACTIVE"
proof (induction rule: rtranclp_induct)
  case base
  then show ?case by simp
next
  case (step y z)
  then show ?case
    by (auto simp: version_step_def version_transition_allowed_def split: if_splits)
qed

lemma steps_to_ready_from:
  assumes "version_step\<^sup>*\<^sup>* v w" and "ver_lifecycle_status w = READY"
  shows "v = w \<or> (\<exists>u. version_step\<^sup>*\<^sup>* v u \<and> version_step u w \<and> ver_lifecycle_status u = PROCESSING)"
  using assms(1)
proof (cases rule: rtranclp.cases)
  case rtrancl_refl
  then show ?thesis by simp
next
  case (rtrancl_into_rtrancl u)
  with assms(2) have "ver_lifecycle_status u = PROCESSING"
    by (cases "ver_lifecycle_status u")
      (simp_all add: version_step_def version_transition_allowed_def split: if_splits)
  with rtrancl_into_rtrancl show ?thesis by blast
qed

subsection \<open>Frames\<close>

lemma version_fk_mono:
  assumes "versions_kept d d'" and "version_fk d vid owner doc"
  shows "version_fk d' vid owner doc"
proof -
  from assms(2) obtain v where v: "v \<in> set (versions d)" "version_matches vid owner doc v"
    by (auto simp: version_fk_def)
  with kept_byD [OF assms(1)] obtain w where "w \<in> set (versions d')" "version_step\<^sup>*\<^sup>* v w"
    by blast
  with v version_steps_identity [of v w] show ?thesis
    by (auto simp: version_fk_def version_matches_def same_version_identity_def)
qed

lemma inactive_version_mono:
  assumes "versions_kept d d'" and "inactive_version d vid owner doc"
  shows "inactive_version d' vid owner doc"
proof -
  from assms(2) obtain v where v: "v \<in> set (versions d)" "version_matches vid owner doc v"
    "ver_lifecycle_status v = INACTIVE" by (auto simp: inactive_version_def)
  with kept_byD [OF assms(1)] obtain w where "w \<in> set (versions d')" "version_step\<^sup>*\<^sup>* v w"
    by blast
  with v inactive_steps [of v w] show ?thesis by (auto simp: inactive_version_def)
qed

lemma jobs_inv_versions:
  assumes "jobs_inv d" and "versions_kept d d'" and "jobs d' = jobs d"
  shows "jobs_inv d'"
  using assms(1,3) version_fk_mono [OF assms(2)] by (simp add: jobs_inv_def)

lemma cleanups_inv_versions:
  assumes "cleanups_inv d" and "versions_kept d d'" and "cleanups d' = cleanups d"
  shows "cleanups_inv d'"
  using assms(1,3) inactive_version_mono [OF assms(2)] by (simp add: cleanups_inv_def)

lemma snapshots_inv_versions:
  assumes "snapshots_inv d" and "versions_kept d d'"
    and "pdf_objects d' = pdf_objects d" and "chunk_rows d' = chunk_rows d"
  shows "snapshots_inv d'"
  using assms(1,3,4) version_fk_mono [OF assms(2)] by (simp add: snapshots_inv_def)

lemma versions_inv_documents:
  assumes "versions_inv d" and "versions d' = versions d"
    and "kept_by document_evolves (documents d) (documents d')"
  shows "versions_inv d'"
proof -
  have "\<exists>r' \<in> set (documents d'). document_matches v r'"
    if "r \<in> set (documents d)" "document_matches v r" for v r
    using kept_byD [OF assms(3) that(1)] that(2)
    by (auto simp: document_matches_def document_evolves_def)
  then show ?thesis using assms(1,2) unfolding versions_inv_def by metis
qed

lemma document_evolves_refl [simp]: "document_evolves r r"
  by (simp add: document_evolves_def)

lemma document_evolves_trans:
  "document_evolves r s \<Longrightarrow> document_evolves s t \<Longrightarrow> document_evolves r t"
  by (simp add: document_evolves_def)

lemma job_evolves_refl [simp]: "job_evolves j j"
  by (simp add: job_evolves_def)

lemma job_evolves_trans: "job_evolves i j \<Longrightarrow> job_evolves j k \<Longrightarrow> job_evolves i k"
  by (simp add: job_evolves_def)

lemma kept_refls [simp]:
  "kept_by document_evolves ds ds" "kept_by version_step\<^sup>*\<^sup>* vs vs"
  "kept_by job_evolves js js" "kept_by cleanup_step\<^sup>*\<^sup>* cs cs"
  by (simp_all add: kept_by_refl)

lemma pdf_objects_kept_same [simp]: "pdf_objects d' = pdf_objects d \<Longrightarrow> pdf_objects_kept d d'"
  by (simp add: pdf_objects_kept_def)

lemma chunk_rows_kept_same [simp]: "chunk_rows d' = chunk_rows d \<Longrightarrow> chunk_rows_kept d d'"
  by (simp add: chunk_rows_kept_def)

lemma versions_born_same [simp]: "versions d' = versions d \<Longrightarrow> versions_born d d'"
  by (auto simp: versions_born_def)

lemma versions_born_trans:
  assumes "versions_born d e" and "versions_born e f"
  shows "versions_born d f"
  unfolding versions_born_def
proof
  fix w assume "w \<in> set (versions f)"
  then obtain v where v: "version_step\<^sup>*\<^sup>* v w" "v \<in> set (versions e) \<or> freshly_registered v"
    using assms(2) unfolding versions_born_def by blast
  show "\<exists>v. version_step\<^sup>*\<^sup>* v w \<and> (v \<in> set (versions d) \<or> freshly_registered v)"
  proof (cases "v \<in> set (versions e)")
    case True
    then obtain u where "version_step\<^sup>*\<^sup>* u v" "u \<in> set (versions d) \<or> freshly_registered u"
      using assms(1) unfolding versions_born_def by blast
    then show ?thesis using rtranclp_trans [OF _ v(1)] by blast
  qed (use v in blast)
qed

lemma pdf_objects_kept_trans:
  "pdf_objects_kept d e \<Longrightarrow> pdf_objects_kept e f \<Longrightarrow> versions_kept e f \<Longrightarrow> pdf_objects_kept d f"
  unfolding pdf_objects_kept_def by (meson inactive_version_mono)

lemma chunk_rows_kept_trans:
  "chunk_rows_kept d e \<Longrightarrow> chunk_rows_kept e f \<Longrightarrow> versions_kept e f \<Longrightarrow> chunk_rows_kept d f"
  unfolding chunk_rows_kept_def by (meson inactive_version_mono)

lemma db_history_refl [simp]: "db_history d d"
  by (simp add: db_history_def)

lemma db_history_trans: "db_history d e \<Longrightarrow> db_history e f \<Longrightarrow> db_history d f"
  unfolding db_history_def
  by (intro conjI)
    (meson kept_by_trans document_evolves_trans job_evolves_trans rtranclp_trans
      versions_born_trans pdf_objects_kept_trans chunk_rows_kept_trans)+

lemma db_evolves_refl [simp]: "db_evolves d d"
  by (simp add: db_evolves_def)

lemma db_evolves_trans: "db_evolves d e \<Longrightarrow> db_evolves e f \<Longrightarrow> db_evolves d f"
  unfolding db_evolves_def by (meson db_history_trans)

subsection \<open>Changing one table\<close>

lemma db_evolves_documents:
  assumes "db_inv d \<Longrightarrow> documents_inv (d\<lparr>documents := ds\<rparr>)"
    and "db_inv d \<Longrightarrow> kept_by document_evolves (documents d) ds"
  shows "db_evolves d (d\<lparr>documents := ds\<rparr>)"
  using assms versions_inv_documents [of d "d\<lparr>documents := ds\<rparr>"]
  by (auto simp: db_evolves_def db_inv_def db_history_def
      intro: jobs_inv_versions cleanups_inv_versions snapshots_inv_versions)

lemma db_evolves_versions:
  assumes "db_inv d \<Longrightarrow> versions_inv (d\<lparr>versions := vs\<rparr>)"
    and "db_inv d \<Longrightarrow> kept_by version_step\<^sup>*\<^sup>* (versions d) vs"
    and "db_inv d \<Longrightarrow> versions_born d (d\<lparr>versions := vs\<rparr>)"
  shows "db_evolves d (d\<lparr>versions := vs\<rparr>)"
  using assms
  by (auto simp: db_evolves_def db_inv_def db_history_def documents_inv_def
      intro: jobs_inv_versions cleanups_inv_versions snapshots_inv_versions)

lemma db_evolves_jobs:
  assumes "db_inv d \<Longrightarrow> jobs_inv (d\<lparr>jobs := js\<rparr>)"
    and "db_inv d \<Longrightarrow> kept_by job_evolves (jobs d) js"
  shows "db_evolves d (d\<lparr>jobs := js\<rparr>)"
  using assms
  by (auto simp: db_evolves_def db_inv_def db_history_def documents_inv_def versions_inv_def
      intro: cleanups_inv_versions snapshots_inv_versions)

lemma db_evolves_cleanups:
  assumes "db_inv d \<Longrightarrow> cleanups_inv (d\<lparr>cleanups := cs\<rparr>)"
    and "db_inv d \<Longrightarrow> kept_by cleanup_step\<^sup>*\<^sup>* (cleanups d) cs"
  shows "db_evolves d (d\<lparr>cleanups := cs\<rparr>)"
  using assms
  by (auto simp: db_evolves_def db_inv_def db_history_def documents_inv_def versions_inv_def
      intro: jobs_inv_versions snapshots_inv_versions)

lemma db_evolves_snapshots:
  assumes "db_inv d \<Longrightarrow> snapshots_inv d'"
    and "documents d' = documents d" "versions d' = versions d" "jobs d' = jobs d"
      "cleanups d' = cleanups d"
    and "pdf_objects_kept d d'" "chunk_rows_kept d d'"
  shows "db_evolves d d'"
  using assms
  by (auto simp: db_evolves_def db_inv_def db_history_def documents_inv_def versions_inv_def
      intro: jobs_inv_versions cleanups_inv_versions)

subsection \<open>Statements on documents, versions and jobs\<close>

lemma document_check_ok:
  "document_check r \<Longrightarrow> aware (di_source_created_time r) \<Longrightarrow> aware (di_source_updated_time r) \<Longrightarrow>
     identity_ok r"
  by (simp add: document_check_def identity_ok_def)

lemma evolves_register_document:
  assumes "identity_ok cand" and run: "sql_register_document cand d = Inr (x, d')"
  shows "db_evolves d d'"
proof (cases "find (\<lambda>r. di_owner_id r = di_owner_id cand \<and> di_paper_id r = di_paper_id cand)
    (documents d)")
  case None
  then have d': "d' = d\<lparr>documents := documents d @ [cand]\<rparr>"
    and new: "\<forall>r \<in> set (documents d). di_document_id r \<noteq> di_document_id cand"
    using run by (auto simp: sql_register_document_def split: if_splits)
  from None have "\<forall>r \<in> set (documents d).
      (di_owner_id r, di_paper_id r) \<noteq> (di_owner_id cand, di_paper_id cand)"
    by (auto dest: find_NoneD)
  with new assms(1) show ?thesis unfolding d'
    by (intro db_evolves_documents)
      (auto simp: db_inv_def documents_inv_def row_simps intro: kept_by_snoc)
next
  case (Some old)
  then have old: "old \<in> set (documents d)" by (auto dest: find_SomeD)
  let ?new = "old\<lparr>di_mapping_version := di_mapping_version cand,
    di_source_updated_time := Aware (max (instant (di_source_updated_time old))
      (instant (di_source_updated_time cand)))\<rparr>"
  let ?ds = "update_rows (\<lambda>r. di_document_id r = di_document_id old) (\<lambda>_. ?new) (documents d)"
  from Some run have d': "d' = d\<lparr>documents := ?ds\<rparr>" and check: "document_check ?new"
    by (auto simp: sql_register_document_def Let_def split: if_splits)
  show ?thesis unfolding d'
  proof (rule db_evolves_documents)
    assume "db_inv d"
    then have inv: "keyed di_document_id (documents d)"
      "keyed (\<lambda>r. (di_owner_id r, di_paper_id r)) (documents d)"
      "\<forall>r \<in> set (documents d). identity_ok r"
      by (auto simp: db_inv_def documents_inv_def)
    have "identity_ok ?new"
      using check inv(3) old by (intro document_check_ok) (auto simp: identity_ok_def)
    with inv old show "documents_inv (d\<lparr>documents := ?ds\<rparr>)"
      by (simp add: documents_inv_def keyed_replace [OF inv(1) old] set_replace [OF inv(1) old])
    show "kept_by document_evolves (documents d) ?ds"
      by (rule kept_by_replace [OF inv(1) old]) (auto simp: document_evolves_def)
  qed
qed

lemma new_version_simps [simp]:
  "ver_document_version_id (new_version r vid c s p n) = vid"
  "ver_owner_id (new_version r vid c s p n) = di_owner_id r"
  "ver_document_id (new_version r vid c s p n) = di_document_id r"
  "source_identity (new_version r vid c s p n) = (di_document_id r, c, s, p)"
  "ver_lifecycle_status (new_version r vid c s p n) = REGISTERED"
  "ver_lifecycle_revision (new_version r vid c s p n) = 1"
  "is_active (new_version r vid c s p n) = False"
  "document_matches (new_version r vid c s p n) r"
  by (simp_all add: new_version_def source_identity_def is_active_def document_matches_def)

lemma new_version_ok:
  "identity_ok r \<Longrightarrow> version_check (new_version r vid c s p n) \<Longrightarrow> version_ok (new_version r vid c s p n)"
  by (simp add: new_version_def version_ok_def version_check_def identity_ok_def
      version_times_aware_def require_timezone_def lifecycle_fails_closed_def)

lemma versions_invI:
  assumes "keyed ver_document_version_id vs" and "keyed source_identity vs" and "one_active vs"
    and "\<forall>v \<in> set vs. version_ok v"
    and "\<forall>v \<in> set vs. \<exists>r \<in> set (documents d). document_matches v r"
  shows "versions_inv (d\<lparr>versions := vs\<rparr>)"
proof -
  have "versions (d\<lparr>versions := vs\<rparr>) = vs" "documents (d\<lparr>versions := vs\<rparr>) = documents d"
    by simp_all
  with assms show ?thesis unfolding versions_inv_def by metis
qed

lemma one_active_change:
  assumes "one_active vs" and "set vs' \<subseteq> insert new (set vs)"
    and "\<And>w. is_active new \<Longrightarrow> w \<in> set vs \<Longrightarrow> is_active w \<Longrightarrow> active_key w = active_key new \<Longrightarrow>
      ver_document_version_id w = ver_document_version_id new"
  shows "one_active vs'"
  using assms unfolding one_active_def by (metis insertE subsetD)

lemma one_active_snoc: "one_active vs \<Longrightarrow> \<not> is_active v \<Longrightarrow> one_active (vs @ [v])"
  by (rule one_active_change [where new = v]) auto

lemma versions_invD:
  assumes "db_inv d"
  shows "keyed ver_document_version_id (versions d)" and "keyed source_identity (versions d)"
    and "one_active (versions d)" and "\<forall>v \<in> set (versions d). version_ok v"
    and "\<forall>v \<in> set (versions d). \<exists>r \<in> set (documents d). document_matches v r"
  using assms unfolding db_inv_def versions_inv_def by blast+

lemma evolves_register_version:
  assumes run: "sql_register_version owner doc vid c s p now d = Inr (x, d')"
  shows "db_evolves d d'"
proof (cases "find (\<lambda>r. di_owner_id r = owner \<and> di_document_id r = doc) (documents d)")
  case None
  with run show ?thesis by (simp add: sql_register_version_def)
next
  case (Some r)
  then have r: "r \<in> set (documents d)" by (auto dest: find_SomeD)
  let ?v = "new_version r vid c s p now"
  show ?thesis
  proof (cases "d' = d")
    case True
    then show ?thesis by simp
  next
    case False
    with run Some have d': "d' = d\<lparr>versions := versions d @ [?v]\<rparr>" and check: "version_check ?v"
      and fresh: "\<forall>w \<in> set (versions d). source_identity w \<noteq> source_identity ?v"
        "\<forall>w \<in> set (versions d). ver_document_version_id w \<noteq> vid"
      by (auto simp: sql_register_version_def Let_def split: if_splits)
    show ?thesis unfolding d'
    proof (rule db_evolves_versions)
      assume inv: "db_inv d"
      note parts = versions_invD [OF inv]
      have "identity_ok r" using inv r by (simp add: db_inv_def documents_inv_def)
      then have ok: "version_ok ?v" using check by (rule new_version_ok)
      show "versions_inv (d\<lparr>versions := versions d @ [?v]\<rparr>)"
      proof (rule versions_invI)
        show "keyed ver_document_version_id (versions d @ [?v])"
          "keyed source_identity (versions d @ [?v])"
          using parts(1,2) fresh by (simp_all add: row_simps)
        show "one_active (versions d @ [?v])" 
          by (rule one_active_snoc [OF parts(3)]) simp
        show "\<forall>v \<in> set (versions d @ [?v]). version_ok v" using parts(4) ok by simp
        show "\<forall>v \<in> set (versions d @ [?v]). \<exists>r \<in> set (documents d). document_matches v r"
          using parts(5) r by (auto intro: bexI [of _ r])
      qed
      show "kept_by version_step\<^sup>*\<^sup>* (versions d) (versions d @ [?v])"
        by (rule kept_by_snoc) simp
      have "freshly_registered ?v" by (simp add: freshly_registered_def)
      then show "versions_born d (d\<lparr>versions := versions d @ [?v]\<rparr>)" by (auto simp: versions_born_def)
    qed
  qed
qed

lemma evolves_get_version_by_source:
  "sql_get_version_by_source owner doc c s p d = Inr (x, d') \<Longrightarrow> db_evolves d d'"
  by (simp add: sql_get_version_by_source_def)

lemma evolves_register_job:
  assumes run: "sql_register_job jid owner key doc vid now d = Inr (x, d')"
  shows "db_evolves d d'"
proof (cases "d' = d")
  case True
  then show ?thesis by simp
next
  case False
  let ?j = "new_job jid owner key doc vid now"
  from False run have d': "d' = d\<lparr>jobs := jobs d @ [?j]\<rparr>" and check: "job_check ?j"
    and none: "find (\<lambda>r. ij_owner_id r = owner \<and> ij_idempotency_key r = key) (jobs d) = None"
    and fresh: "\<forall>r \<in> set (jobs d). ij_job_id r \<noteq> jid" and fk: "version_fk d vid owner doc"
    by (auto simp: sql_register_job_def Let_def split: if_splits option.splits)
  show ?thesis unfolding d'
  proof (rule db_evolves_jobs)
    assume inv: "db_inv d"
    from fk obtain v where "v \<in> set (versions d)" "version_matches vid owner doc v"
      by (auto simp: version_fk_def)
    with inv have "contract_id_ok vid" "contract_id_ok doc"
      by (auto simp: db_inv_def versions_inv_def version_ok_def version_matches_def)
    then have ok: "job_ok ?j"
      using check by (simp add: job_ok_def job_check_def new_job_def failed_job_has_code_def)
    have keys: "\<forall>r \<in> set (jobs d). (ij_owner_id r, ij_idempotency_key r) \<noteq> (owner, key)"
      using none by (auto dest: find_NoneD)
    have fk': "version_fk (d\<lparr>jobs := js\<rparr>) a b e = version_fk d a b e" for js a b e
      by (simp add: version_fk_def)
    show "jobs_inv (d\<lparr>jobs := jobs d @ [?j]\<rparr>)"
      using inv ok keys fresh fk by (auto simp: db_inv_def jobs_inv_def row_simps fk' new_job_def)
    show "kept_by job_evolves (jobs d) (jobs d @ [?j])" by (rule kept_by_snoc) simp
  qed
qed

lemma evolves_lock_version: "sql_lock_version owner vid d = Inr (x, d') \<Longrightarrow> db_evolves d d'"
  by (simp add: sql_lock_version_def)

lemma set_lifecycle_columns_identity [simp]:
  "same_version_identity old (set_lifecycle_columns cand old)"
  "source_identity (set_lifecycle_columns cand old) = source_identity old"
  "active_key (set_lifecycle_columns cand old) = active_key old"
  "document_matches (set_lifecycle_columns cand old) r = document_matches old r"
  "ver_document_version_id (set_lifecycle_columns cand old) = ver_document_version_id old"
  by (simp_all add: same_version_identity_def set_lifecycle_columns_def source_identity_def
      active_key_def document_matches_def)

lemma set_lifecycle_columns_ok:
  assumes "version_ok old" and "version_ok cand"
  shows "version_ok (set_lifecycle_columns cand old)"
proof -
  have "lifecycle_fails_closed (set_lifecycle_columns cand old) = lifecycle_fails_closed cand"
    by (rule lifecycle_fails_closed_cong)
      (simp_all add: set_lifecycle_columns_def milestones_present_def)
  with assms show ?thesis
    by (simp add: version_ok_def set_lifecycle_columns_def version_times_aware_def)
qed

lemma evolves_update_version:
  assumes "version_ok cand" and run: "sql_update_version cand expected d = Inr (x, d')"
  shows "db_evolves d d'"
proof (cases "find (\<lambda>v. ver_owner_id v = ver_owner_id cand \<and>
      ver_document_version_id v = ver_document_version_id cand \<and>
      ver_lifecycle_revision v = expected) (versions d)")
  case None
  with run show ?thesis by (simp add: sql_update_version_def)
next
  case (Some old)
  then have old: "old \<in> set (versions d)" by (auto dest: find_SomeD)
  let ?new = "set_lifecycle_columns cand old"
  from Some run have d': "d' = d\<lparr>versions := replace_version old ?new (versions d)\<rparr>"
    and step: "version_step old ?new"
    and single: "\<not> (is_active ?new \<and> (\<exists>w \<in> set (versions d). is_active w \<and>
        active_key w = active_key ?new \<and>
        ver_document_version_id w \<noteq> ver_document_version_id old))"
    by (auto simp: sql_update_version_def Let_def split: if_splits)
  show ?thesis unfolding d' replace_version_def
  proof (rule db_evolves_versions)
    assume "db_inv d"
    note inv = versions_invD [OF this]
    let ?vs = "update_rows (\<lambda>v. ver_document_version_id v = ver_document_version_id old)
      (\<lambda>_. ?new) (versions d)"
    have set: "set ?vs = insert ?new (set (versions d) - {old})"
      by (rule set_replace [OF inv(1) old])
    show "versions_inv (d\<lparr>versions := ?vs\<rparr>)"
    proof (rule versions_invI)
      show "keyed ver_document_version_id ?vs" "keyed source_identity ?vs"
        using inv(1,2) by (simp_all add: keyed_replace [OF inv(1) old])
      show "one_active ?vs"
        using single by (intro one_active_change [OF inv(3), of _ ?new]) (auto simp: set)
      show "\<forall>v \<in> set ?vs. version_ok v"
        using inv(4) set_lifecycle_columns_ok [of old cand] assms(1) old unfolding set by blast
      show "\<forall>v \<in> set ?vs. \<exists>r \<in> set (documents d). document_matches v r"
        using inv(5) old set_lifecycle_columns_identity(4) unfolding set by blast
    qed
    show "kept_by version_step\<^sup>*\<^sup>* (versions d) ?vs"
      using step by (intro kept_by_replace [OF inv(1) old]) auto
    show "versions_born d (d\<lparr>versions := ?vs\<rparr>)"
      using r_into_rtranclp [of version_step, OF step] old by (auto simp: versions_born_def set)
  qed
qed

lemma evolves_get_online_version: "sql_get_online_version owner vid d = Inr (x, d') \<Longrightarrow> db_evolves d d'"
  by (simp add: sql_get_online_version_def)

lemma evolves_resolve_online_versions:
  "sql_resolve_online_versions owner docs d = Inr (x, d') \<Longrightarrow> db_evolves d d'"
  by (simp add: sql_resolve_online_versions_def)

lemma evolves_update_job:
  assumes run: "sql_update_job owner jid status code now d = Inr (x, d')"
  shows "db_evolves d d'"
proof (cases "find (\<lambda>j. ij_owner_id j = owner \<and> ij_job_id j = jid) (jobs d)")
  case None
  with run show ?thesis by (simp add: sql_update_job_def)
next
  case (Some old)
  then have old: "old \<in> set (jobs d)" by (auto dest: find_SomeD)
  let ?new = "old\<lparr>ij_status := status,
    ij_attempt_count := ij_attempt_count old + (if status = JOB_RUNNING then 1 else 0),
    ij_failure_code := code, ij_updated_at := Aware now\<rparr>"
  let ?js = "update_rows (\<lambda>j. ij_job_id j = ij_job_id old) (\<lambda>_. ?new) (jobs d)"
  from Some run have d': "d' = d\<lparr>jobs := ?js\<rparr>" and check: "job_check ?new"
    by (auto simp: sql_update_job_def Let_def split: if_splits)
  show ?thesis unfolding d'
  proof (rule db_evolves_jobs)
    assume "db_inv d"
    then have inv: "keyed ij_job_id (jobs d)"
      "keyed (\<lambda>j. (ij_owner_id j, ij_idempotency_key j)) (jobs d)"
      "\<forall>j \<in> set (jobs d). job_ok j \<and>
         version_fk d (ij_document_version_id j) (ij_owner_id j) (ij_document_id j)"
      by (auto simp: db_inv_def jobs_inv_def)
    have "job_ok ?new" using inv(3) old check
      by (auto simp: job_ok_def job_check_def failed_job_has_code_def)
    moreover have fk': "version_fk (d\<lparr>jobs := js\<rparr>) a b e = version_fk d a b e" for js a b e
      by (simp add: version_fk_def)
    ultimately show "jobs_inv (d\<lparr>jobs := ?js\<rparr>)"
      using inv old
      by (simp add: jobs_inv_def set_replace [OF inv(1) old] keyed_replace [OF inv(1) old])
    show "kept_by job_evolves (jobs d) ?js"
      by (rule kept_by_replace [OF inv(1) old]) (auto simp: job_evolves_def)
  qed
qed

subsection \<open>Statements on snapshots\<close>

lemma version_fk_update [simp]:
  "version_fk (d\<lparr>jobs := js\<rparr>) = version_fk d" "version_fk (d\<lparr>pdf_objects := ps\<rparr>) = version_fk d"
  "version_fk (d\<lparr>chunk_rows := cs\<rparr>) = version_fk d" "version_fk (d\<lparr>cleanups := ks\<rparr>) = version_fk d"
  by (simp_all add: version_fk_def fun_eq_iff)

lemma inactive_version_update [simp]:
  "inactive_version (d\<lparr>pdf_objects := ps\<rparr>) = inactive_version d"
  "inactive_version (d\<lparr>chunk_rows := cs\<rparr>) = inactive_version d"
  "inactive_version (d\<lparr>cleanups := ks\<rparr>) = inactive_version d"
  by (simp_all add: inactive_version_def fun_eq_iff)

lemma version_fk_ids:
  assumes "db_inv d" and "version_fk d vid owner doc"
  shows "contract_id_ok vid" and "contract_id_ok owner" and "contract_id_ok doc"
proof -
  from assms(2) obtain v where "v \<in> set (versions d)" "version_matches vid owner doc v"
    by (auto simp: version_fk_def)
  with versions_invD(4) [OF assms(1)]
  show "contract_id_ok vid" "contract_id_ok owner" "contract_id_ok doc"
    by (auto simp: version_ok_def version_matches_def)
qed

lemma evolves_persist_pdf_object:
  assumes run: "sql_persist_pdf_object p d = Inr (x, d')"
  shows "db_evolves d d'"
proof (cases "d' = d")
  case True
  then show ?thesis by simp
next
  case False
  let ?p = "p\<lparr>po_stored_at := tz (po_stored_at p)\<rparr>"
  from False run have d': "d' = d\<lparr>pdf_objects := pdf_objects d @ [?p]\<rparr>"
    and check: "pdf_object_check p"
    and fresh: "\<forall>q \<in> set (pdf_objects d). po_document_version_id q \<noteq> po_document_version_id p"
      "\<forall>q \<in> set (pdf_objects d). po_object_key q \<noteq> po_object_key p"
    and fk: "version_fk d (po_document_version_id p) (po_owner_id p) (po_document_id p)"
    by (auto simp: sql_persist_pdf_object_def split: if_splits)
  show ?thesis unfolding d'
  proof (rule db_evolves_snapshots)
    assume inv: "db_inv d"
    have "pdf_object_ok ?p" using check version_fk_ids [OF inv fk]
      by (simp add: pdf_object_ok_def pdf_object_check_def pdf_object_fields_ok_def tz_def
          require_timezone_def)
    then show "snapshots_inv (d\<lparr>pdf_objects := pdf_objects d @ [?p]\<rparr>)"
      using inv fresh fk by (simp add: db_inv_def snapshots_inv_def row_simps)
  qed (simp_all add: pdf_objects_kept_def)
qed

lemma evolves_persist_chunk:
  assumes run: "sql_persist_chunk r d = Inr (x, d')"
  shows "db_evolves d d'"
proof (cases "d' = d")
  case True
  then show ?thesis by simp
next
  case False
  with run have d': "d' = d\<lparr>chunk_rows := chunk_rows d @ [r]\<rparr>" and check: "chunk_row_check r"
    and fresh: "\<forall>q \<in> set (chunk_rows d). ch_chunk_id (cr_chunk q) \<noteq> ch_chunk_id (cr_chunk r)"
      "\<forall>q \<in> set (chunk_rows d). (ch_version_id (cr_chunk q), cr_ordinal q) \<noteq>
         (ch_version_id (cr_chunk r), cr_ordinal r)"
    and fk: "version_fk d (ch_version_id (cr_chunk r)) (ch_tenant_id (cr_chunk r))
      (ch_document_id (cr_chunk r))"
    by (auto simp: sql_persist_chunk_def split: if_splits)
  show ?thesis unfolding d'
  proof (rule db_evolves_snapshots)
    assume inv: "db_inv d"
    then show "snapshots_inv (d\<lparr>chunk_rows := chunk_rows d @ [r]\<rparr>)"
      using check fresh fk by (simp add: db_inv_def snapshots_inv_def row_simps)
  qed (simp_all add: chunk_rows_kept_def)
qed

lemma snapshot_delete_allowed_inactive:
  "snapshot_delete_allowed d vid owner doc \<longleftrightarrow> inactive_version d vid owner doc"
  by (auto simp: snapshot_delete_allowed_def inactive_version_def is_active_def)

lemma evolves_purge_chunks:
  assumes run: "sql_purge_chunks owner vid d = Inr (x, d')"
  shows "db_evolves d d'"
proof -
  let ?hit = "\<lambda>r. ch_tenant_id (cr_chunk r) = owner \<and> ch_version_id (cr_chunk r) = vid"
  from run have d': "d' = d\<lparr>chunk_rows := filter (\<lambda>r. \<not> ?hit r) (chunk_rows d)\<rparr>"
    and ok: "\<forall>r \<in> set (chunk_rows d). ?hit r \<longrightarrow> inactive_version d (ch_version_id (cr_chunk r))
      (ch_tenant_id (cr_chunk r)) (ch_document_id (cr_chunk r))"
    by (auto simp: sql_purge_chunks_def Let_def snapshot_delete_allowed_inactive split: if_splits)
  show ?thesis unfolding d'
  proof (rule db_evolves_snapshots)
    assume "db_inv d"
    then show "snapshots_inv (d\<lparr>chunk_rows := filter (\<lambda>r. \<not> ?hit r) (chunk_rows d)\<rparr>)"
      by (simp add: db_inv_def snapshots_inv_def keyed_filter)
  next
    show "chunk_rows_kept d (d\<lparr>chunk_rows := filter (\<lambda>r. \<not> ?hit r) (chunk_rows d)\<rparr>)"
      using ok by (auto simp: chunk_rows_kept_def)
  qed simp_all
qed

lemma evolves_purge_pdf_object:
  assumes run: "sql_purge_pdf_object owner vid d = Inr (x, d')"
  shows "db_evolves d d'"
proof -
  let ?hit = "\<lambda>p. po_owner_id p = owner \<and> po_document_version_id p = vid"
  from run have d': "d' = d\<lparr>pdf_objects := filter (\<lambda>p. \<not> ?hit p) (pdf_objects d)\<rparr>"
    and ok: "\<forall>p \<in> set (pdf_objects d). ?hit p \<longrightarrow>
      inactive_version d (po_document_version_id p) (po_owner_id p) (po_document_id p)"
    by (auto simp: sql_purge_pdf_object_def Let_def snapshot_delete_allowed_inactive split: if_splits)
  show ?thesis unfolding d'
  proof (rule db_evolves_snapshots)
    assume "db_inv d"
    then show "snapshots_inv (d\<lparr>pdf_objects := filter (\<lambda>p. \<not> ?hit p) (pdf_objects d)\<rparr>)"
      by (simp add: db_inv_def snapshots_inv_def keyed_filter)
  next
    show "pdf_objects_kept d (d\<lparr>pdf_objects := filter (\<lambda>p. \<not> ?hit p) (pdf_objects d)\<rparr>)"
      using ok by (auto simp: pdf_objects_kept_def)
  qed simp_all
qed

lemma evolves_snapshot_reads:
  "sql_get_pdf_object owner vid d = Inr (p, d') \<Longrightarrow> db_evolves d d'"
  "sql_get_chunk_snapshot owner vid d = Inr (rs, d') \<Longrightarrow> db_evolves d d'"
  "sql_load_online_chunks owner vids d = Inr (rs, d') \<Longrightarrow> db_evolves d d'"
  "sql_get_inactive_pdf_object owner vid d = Inr (p, d') \<Longrightarrow> db_evolves d d'"
  "sql_verify_inactive owner vid d = Inr (b, d') \<Longrightarrow> db_evolves d d'"
  by (simp_all add: sql_get_pdf_object_def sql_get_chunk_snapshot_def sql_load_online_chunks_def
      sql_get_inactive_pdf_object_def sql_verify_inactive_def)

subsection \<open>Statements on the cleanup queue\<close>

lemma cleanup_ok_from_check:
  "cleanup_check j \<Longrightarrow> cleanup_times_aware j \<Longrightarrow>
     (cj_status j = CL_RUNNING \<longrightarrow> 1 \<le> cj_attempt_count j) \<Longrightarrow> cleanup_ok j"
  by (auto simp: cleanup_check_def cleanup_ok_def cleanup_state_iff)

lemma fail_attempt_identity [simp]:
  "cj_cleanup_id (fail_attempt now n c j) = cj_cleanup_id j"
  "cleanup_identity (fail_attempt now n c j) = cleanup_identity j"
  by (simp_all add: fail_attempt_def cleanup_identity_def)

lemma fail_attempt_step:
  assumes "cj_status j = CL_RUNNING"
  shows "cleanup_step j (fail_attempt now n c j)"
  using cleanup_step.retry [OF assms, where n = n and c = c and u = "Aware now"]
    cleanup_step.give_up [OF assms, where n = n and c = c and u = "Aware now"]
  by (cases "cj_attempt_count j < cj_max_attempts j") (simp_all add: fail_attempt_def)

lemma fail_attempt_ok:
  assumes "cleanup_ok j" and "aware n" and "cleanup_check (fail_attempt now n c j)"
  shows "cleanup_ok (fail_attempt now n c j)"
  using assms
  by (intro cleanup_ok_from_check)
    (auto simp: fail_attempt_def cleanup_ok_def cleanup_times_aware_def require_timezone_def)

lemma finish_job_identity [simp]:
  "cj_cleanup_id (finish_job now j) = cj_cleanup_id j"
  "cleanup_identity (finish_job now j) = cleanup_identity j"
  by (simp_all add: finish_job_def cleanup_identity_def)

lemma finish_job_step: "cj_status j = CL_RUNNING \<Longrightarrow> cleanup_step j (finish_job now j)"
  unfolding finish_job_def by (rule cleanup_step.complete)

lemma finish_job_ok: "cleanup_ok j \<Longrightarrow> cleanup_check (finish_job now j) \<Longrightarrow> cleanup_ok (finish_job now j)"
  by (intro cleanup_ok_from_check)
    (auto simp: finish_job_def cleanup_ok_def cleanup_times_aware_def require_timezone_def)

lemma lease_job_identity [simp]:
  "cj_cleanup_id (lease_job now t e j) = cj_cleanup_id j"
  "cleanup_identity (lease_job now t e j) = cleanup_identity j"
  by (simp_all add: lease_job_def cleanup_identity_def)

lemma lease_job_step: "cleanup_due now j \<Longrightarrow> cleanup_step j (lease_job now t e j)"
  unfolding lease_job_def by (rule cleanup_step.claim) (simp add: cleanup_due_def)

lemma lease_job_ok:
  "cleanup_ok j \<Longrightarrow> cleanup_check (lease_job now t e j) \<Longrightarrow> cleanup_ok (lease_job now t e j)"
  by (intro cleanup_ok_from_check)
    (auto simp: lease_job_def cleanup_ok_def cleanup_times_aware_def require_timezone_def)

lemma cleanups_invD:
  assumes "db_inv d"
  shows "keyed cj_cleanup_id (cleanups d)" and "keyed cleanup_identity (cleanups d)"
    and "\<forall>j \<in> set (cleanups d). cleanup_ok j"
    and "\<forall>j \<in> set (cleanups d).
      inactive_version d (cj_document_version_id j) (cj_owner_id j) (cj_document_id j)"
  using assms by (auto simp: db_inv_def cleanups_inv_def)

text \<open>Replacing one job by a successor with the same identity.\<close>

lemma evolves_replace_cleanup:
  assumes "j \<in> set (cleanups d)" and "cleanup_step j j'"
    and "cj_cleanup_id j' = cj_cleanup_id j" and "cleanup_identity j' = cleanup_identity j"
    and "cleanup_ok j \<Longrightarrow> cleanup_ok j'"
  shows "db_evolves d (d\<lparr>cleanups :=
    update_rows (\<lambda>r. cj_cleanup_id r = cj_cleanup_id j) (\<lambda>_. j') (cleanups d)\<rparr>)"
proof (rule db_evolves_cleanups)
  assume "db_inv d"
  note inv = cleanups_invD [OF this]
  have ids: "cj_document_version_id j' = cj_document_version_id j" "cj_owner_id j' = cj_owner_id j"
    "cj_document_id j' = cj_document_id j"
    using assms(4) by (simp_all add: cleanup_identity_def)
  show "cleanups_inv (d\<lparr>cleanups :=
      update_rows (\<lambda>r. cj_cleanup_id r = cj_cleanup_id j) (\<lambda>_. j') (cleanups d)\<rparr>)"
    using inv assms ids
    by (simp add: cleanups_inv_def set_replace [OF inv(1) assms(1)]
        keyed_replace [OF inv(1) assms(1)])
  show "kept_by cleanup_step\<^sup>*\<^sup>* (cleanups d)
      (update_rows (\<lambda>r. cj_cleanup_id r = cj_cleanup_id j) (\<lambda>_. j') (cleanups d))"
    using assms(2) by (intro kept_by_replace [OF inv(1) assms(1)]) auto
qed

lemma evolves_enqueue_cleanup:
  assumes "cleanup_ok cand" and run: "sql_enqueue_cleanup cand d = Inr (x, d')"
  shows "db_evolves d d'"
proof (cases "d' = d")
  case True
  then show ?thesis by simp
next
  case False
  with run have d': "d' = d\<lparr>cleanups := cleanups d @ [cand]\<rparr>"
    and inactive: "inactive_version d (cj_document_version_id cand) (cj_owner_id cand)
      (cj_document_id cand)"
    and none: "find (\<lambda>j. cleanup_identity j = cleanup_identity cand) (cleanups d) = None"
    and fresh: "\<forall>j \<in> set (cleanups d). cj_cleanup_id j \<noteq> cj_cleanup_id cand"
    by (auto simp: sql_enqueue_cleanup_def split: if_splits option.splits)
  have "\<forall>j \<in> set (cleanups d). cleanup_identity j \<noteq> cleanup_identity cand"
    using none by (auto dest: find_NoneD)
  with fresh inactive assms(1) show ?thesis unfolding d'
    by (intro db_evolves_cleanups)
      (auto simp: db_inv_def cleanups_inv_def row_simps intro: kept_by_snoc)
qed

lemma evolves_recover_expired_leases:
  assumes run: "sql_recover_expired_leases now d = Inr (x, d')"
  shows "db_evolves d d'"
proof -
  let ?f = "fail_attempt now (Aware now) ''CLEANUP_LEASE_EXPIRED''"
  from run have d': "d' = d\<lparr>cleanups := update_rows (lease_expired now) ?f (cleanups d)\<rparr>"
    and check: "\<forall>j \<in> set (cleanups d). lease_expired now j \<longrightarrow> cleanup_check (?f j)"
    by (auto simp: sql_recover_expired_leases_def Let_def split: if_splits)
  show ?thesis unfolding d'
  proof (rule db_evolves_cleanups)
    assume "db_inv d"
    note inv = cleanups_invD [OF this]
    have "cleanup_ok (?f j)" if "j \<in> set (cleanups d)" "lease_expired now j" for j
      using that inv(3) check by (intro fail_attempt_ok) auto
    moreover have "inactive_version d (cj_document_version_id (?f j)) (cj_owner_id (?f j))
        (cj_document_id (?f j))" if "j \<in> set (cleanups d)" for j
      using inv(4) that by (simp add: fail_attempt_def)
    ultimately show "cleanups_inv (d\<lparr>cleanups := update_rows (lease_expired now) ?f (cleanups d)\<rparr>)"
      using inv by (auto simp: cleanups_inv_def keyed_update_rows set_update_rows)
    show "kept_by cleanup_step\<^sup>*\<^sup>* (cleanups d) (update_rows (lease_expired now) ?f (cleanups d))"
      by (rule kept_by_update_rows) (auto simp: lease_expired_def intro: fail_attempt_step)
  qed
qed

lemma due_in_order_set: "set (due_in_order now d) = {j \<in> set (cleanups d). cleanup_due now j}"
  by (auto simp: due_in_order_def)

lemma evolves_claim_due_cleanup:
  assumes run: "sql_claim_due_cleanup now token expires d = Inr (x, d')"
  shows "db_evolves d d'"
proof (cases "due_in_order now d")
  case Nil
  with run show ?thesis by (simp add: sql_claim_due_cleanup_def)
next
  case (Cons j js)
  then have "j \<in> set (due_in_order now d)" by simp
  then have j: "j \<in> set (cleanups d)" "cleanup_due now j" by (simp_all add: due_in_order_set)
  from Cons run have check: "cleanup_check (lease_job now token expires j)"
    and d': "d' = d\<lparr>cleanups := update_rows (\<lambda>r. cj_cleanup_id r = cj_cleanup_id j)
      (\<lambda>_. lease_job now token expires j) (cleanups d)\<rparr>"
    by (auto simp: sql_claim_due_cleanup_def Let_def split: if_splits)
  show ?thesis unfolding d'
    using j check by (intro evolves_replace_cleanup) (auto intro: lease_job_step lease_job_ok)
qed

lemma evolves_settle_cleanup:
  assumes run: "sql_settle_cleanup cid token f d = Inr (x, d')"
    and "\<And>j. cj_status j = CL_RUNNING \<Longrightarrow> cleanup_step j (f j)"
    and "\<And>j. cj_cleanup_id (f j) = cj_cleanup_id j"
    and "\<And>j. cleanup_identity (f j) = cleanup_identity j"
    and "\<And>j. cleanup_ok j \<Longrightarrow> cleanup_check (f j) \<Longrightarrow> cleanup_ok (f j)"
  shows "db_evolves d d'"
proof (cases "find (leased_as cid token) (cleanups d)")
  case None
  with run show ?thesis by (simp add: sql_settle_cleanup_def)
next
  case (Some j)
  then have j: "j \<in> set (cleanups d)" "cj_status j = CL_RUNNING"
    by (auto dest!: find_SomeD simp: leased_as_def)
  from Some run have check: "cleanup_check (f j)"
    and d': "d' = d\<lparr>cleanups := update_rows (\<lambda>r. cj_cleanup_id r = cj_cleanup_id j)
      (\<lambda>_. f j) (cleanups d)\<rparr>"
    by (auto simp: sql_settle_cleanup_def split: if_splits)
  show ?thesis unfolding d'
    using j check assms(2-5) by (intro evolves_replace_cleanup) auto
qed

lemma evolves_complete_cleanup:
  "sql_complete_cleanup cid token now d = Inr (x, d') \<Longrightarrow> db_evolves d d'"
  unfolding sql_complete_cleanup_def
  by (erule evolves_settle_cleanup) (auto intro: finish_job_step finish_job_ok)

lemma evolves_record_cleanup_failure:
  "aware retry_at \<Longrightarrow> sql_record_cleanup_failure cid token code retry_at now d = Inr (x, d') \<Longrightarrow>
     db_evolves d d'"
  unfolding sql_record_cleanup_failure_def
  by (erule evolves_settle_cleanup) (auto intro: fail_attempt_step fail_attempt_ok)

lemmas statement_evolves = evolves_register_document evolves_register_version
  evolves_get_version_by_source evolves_register_job evolves_lock_version evolves_update_version
  evolves_get_online_version evolves_resolve_online_versions evolves_update_job
  evolves_persist_pdf_object evolves_persist_chunk evolves_purge_chunks evolves_purge_pdf_object
  evolves_snapshot_reads evolves_enqueue_cleanup evolves_recover_expired_leases
  evolves_claim_due_cleanup evolves_complete_cleanup evolves_record_cleanup_failure

end
