(* ===== verification/Transactions.thy ===== *)
theory Transactions
  imports FactIntegrity
begin

text \<open>
  The connection of \<open>PostgresFactRepository\<close> and the shape of its methods: \<open>_execute_*\<close>,
  \<open>_commit\<close>, \<open>_rollback\<close> and \<^verbatim>\<open>try: ... except Exception: rollback; raise\<close>. A method is a
  function from the connection to its result and the new connection. The connection holds the
  committed database, the uncommitted one, and a list of faults: each statement or commit takes
  the next one, and \<open>True\<close> is a driver error at that point (an empty list is a database that
  answers). Every property below holds for every list of faults.
\<close>

record conn =
  committed :: db
  working :: db
  faults :: "bool list"

type_synonym 'a io = "conn \<Rightarrow> (fact_error + 'a) \<times> conn"

definition fault_next :: "conn \<Rightarrow> bool" where
  "fault_next c = (case faults c of [] \<Rightarrow> False | f # _ \<Rightarrow> f)"

definition return_io :: "'a \<Rightarrow> 'a io" where
  "return_io x c = (Inr x, c)"

definition raise_io :: "fact_error \<Rightarrow> 'a io" where
  "raise_io e c = (Inl e, c)"

definition lift_io :: "fact_error + 'a \<Rightarrow> 'a io" where
  "lift_io r c = (r, c)"

definition bind_io :: "'a io \<Rightarrow> ('a \<Rightarrow> 'b io) \<Rightarrow> 'b io" where
  "bind_io m f c = (case m c of (Inl e, c') \<Rightarrow> (Inl e, c') | (Inr x, c') \<Rightarrow> f x c')"

definition when_io :: "bool \<Rightarrow> unit io \<Rightarrow> unit io" where
  "when_io b m = (if b then m else return_io ())"

text \<open>\<open>_execute_one\<close>, \<open>_execute_no_result\<close> and \<open>_execute_all\<close> differ in what the statement returns.\<close>

definition execute :: "'a statement \<Rightarrow> 'a io" where
  "execute stmt c =
     (let c' = c\<lparr>faults := tl (faults c)\<rparr> in
      if fault_next c then (Inl (DatabaseError Outage), c')
      else (case stmt (working c) of
              Inl e \<Rightarrow> (Inl e, c')
            | Inr (x, d) \<Rightarrow> (Inr x, c'\<lparr>working := d\<rparr>)))"

definition commit_io :: "unit io" where
  "commit_io c =
     (let c' = c\<lparr>faults := tl (faults c)\<rparr> in
      if fault_next c then (Inl (DatabaseError Outage), c')
      else (Inr (), c'\<lparr>committed := working c\<rparr>))"

definition rollback :: "conn \<Rightarrow> conn" where
  "rollback c = c\<lparr>working := committed c\<rparr>"

definition rollback_on_error :: "'a io \<Rightarrow> 'a io" where
  "rollback_on_error m c = (case m c of (Inl e, c') \<Rightarrow> (Inl e, rollback c') | r \<Rightarrow> r)"

text \<open>
  The shape of the methods: a body, a commit unless the caller asked to leave the transaction
  open (\<open>commit_transaction\<close>), and the rollback around both.
\<close>

definition transaction :: "bool \<Rightarrow> 'a io \<Rightarrow> 'a io" where
  "transaction commit_transaction m =
     rollback_on_error (bind_io m (\<lambda>x. bind_io (when_io commit_transaction commit_io)
       (\<lambda>_. return_io x)))"

subsection \<open>Evaluation\<close>

lemma bind_io_return [io_simps]: "bind_io (return_io x) f = f x"
  by (rule ext) (simp add: bind_io_def return_io_def)

lemma bind_io_raise [io_simps]: "bind_io (raise_io e) f = raise_io e"
  by (rule ext) (simp add: bind_io_def raise_io_def)

lemma bind_io_Inr:
  "bind_io m f c = (Inr y, c'') \<longleftrightarrow> (\<exists>x c'. m c = (Inr x, c') \<and> f x c' = (Inr y, c''))"
  by (auto simp: bind_io_def split: prod.splits sum.splits)

lemma execute_Inr:
  "execute stmt c = (Inr x, c') \<longleftrightarrow> \<not> fault_next c \<and>
     (\<exists>d. stmt (working c) = Inr (x, d) \<and> c' = c\<lparr>faults := tl (faults c), working := d\<rparr>)"
  by (auto simp: execute_def Let_def split: sum.splits)

lemma commit_io_Inr:
  "commit_io c = (Inr x, c') \<longleftrightarrow> \<not> fault_next c \<and>
     c' = c\<lparr>faults := tl (faults c), committed := working c\<rparr>"
  by (auto simp: commit_io_def Let_def)

lemma return_io_Inr: "return_io x c = (Inr y, c') \<longleftrightarrow> y = x \<and> c' = c"
  by (auto simp: return_io_def)

lemma raise_io_Inr: "raise_io e c \<noteq> (Inr y, c')"
  by (simp add: raise_io_def)

lemma lift_io_Inr: "lift_io r c = (Inr y, c') \<longleftrightarrow> r = Inr y \<and> c' = c"
  by (auto simp: lift_io_def)

lemma when_io_Inr:
  "when_io b m c = (Inr u, c') \<longleftrightarrow> (if b then m c = (Inr u, c') else c' = c)"
  by (auto simp: when_io_def return_io_def)

lemma rollback_on_error_Inr: "rollback_on_error m c = (Inr y, c') \<longleftrightarrow> m c = (Inr y, c')"
  by (auto simp: rollback_on_error_def split: prod.splits sum.splits)

text \<open>Running a script while the database answers.\<close>

lemma run_execute:
  "faults c = [] \<Longrightarrow> execute stmt c = (case stmt (working c) of
     Inl e \<Rightarrow> (Inl e, c) | Inr (x, d) \<Rightarrow> (Inr x, c\<lparr>working := d\<rparr>))"
  by (cases c) (simp add: execute_def fault_next_def Let_def split: sum.splits prod.splits)

lemma run_commit: "faults c = [] \<Longrightarrow> commit_io c = (Inr (), c\<lparr>committed := working c\<rparr>)"
  by (cases c) (simp add: commit_io_def fault_next_def Let_def)

lemma run_bind:
  "m c = (Inr x, c') \<Longrightarrow> bind_io m f c = f x c'"
  "m c = (Inl e, c') \<Longrightarrow> bind_io m f c = (Inl e, c')"
  by (simp_all add: bind_io_def)

lemmas io_run_simps = run_execute run_commit bind_io_def transaction_def rollback_on_error_def
  when_io_def return_io_def raise_io_def lift_io_def

lemmas io_Inr_simps = bind_io_Inr execute_Inr commit_io_Inr return_io_Inr raise_io_Inr lift_io_Inr
  when_io_Inr rollback_on_error_Inr

lemma rollback_simps [simp]:
  "committed (rollback c) = committed c" "working (rollback c) = committed c"
  by (simp_all add: rollback_def)

lemma rollback_on_error_Inl:
  "rollback_on_error m c = (Inl e, c') \<Longrightarrow> working c' = committed c'"
  by (auto simp: rollback_on_error_def split: prod.splits sum.splits)

subsection \<open>Transactions\<close>

text \<open>
  Between two methods nothing is pending. A method is atomic when it leaves nothing pending
  behind and, if it raises, has committed nothing.
\<close>

definition quiescent :: "conn \<Rightarrow> bool" where
  "quiescent c \<longleftrightarrow> working c = committed c"

definition atomic_io :: "'a io \<Rightarrow> bool" where
  "atomic_io m \<longleftrightarrow> (\<forall>c r c'. quiescent c \<longrightarrow> m c = (r, c') \<longrightarrow>
     quiescent c' \<and> (\<forall>e. r = Inl e \<longrightarrow> committed c' = committed c))"

text \<open>The body of a transaction: statements that commit nothing.\<close>

definition uncommitted :: "'a io \<Rightarrow> bool" where
  "uncommitted m \<longleftrightarrow> (\<forall>c r c'. m c = (r, c') \<longrightarrow> committed c' = committed c)"

lemma uncommitted_execute [evolves_intros]: "uncommitted (execute stmt)"
  by (auto simp: uncommitted_def execute_def Let_def split: if_splits sum.splits)

lemma uncommitted_return [evolves_intros]:
  "uncommitted (return_io x)" "uncommitted (raise_io e)" "uncommitted (lift_io r)"
  by (simp_all add: uncommitted_def return_io_def raise_io_def lift_io_def)

lemma uncommitted_bind [evolves_intros]:
  "uncommitted m \<Longrightarrow> (\<And>x. uncommitted (f x)) \<Longrightarrow> uncommitted (bind_io m f)"
  unfolding uncommitted_def bind_io_def by (fastforce split: prod.splits sum.splits)

lemma uncommitted_when_False: "uncommitted (when_io False m)"
  by (simp add: when_io_def uncommitted_return)

lemma uncommitted_rollback [evolves_intros]: "uncommitted m \<Longrightarrow> uncommitted (rollback_on_error m)"
  unfolding uncommitted_def rollback_on_error_def by (fastforce split: prod.splits sum.splits)

lemma uncommitted_if [evolves_intros]:
  "(b \<Longrightarrow> uncommitted m) \<Longrightarrow> (\<not> b \<Longrightarrow> uncommitted m') \<Longrightarrow> uncommitted (if b then m else m')"
  by simp

lemma uncommitted_case_option [evolves_intros]:
  "(x = None \<Longrightarrow> uncommitted m) \<Longrightarrow> (\<And>y. x = Some y \<Longrightarrow> uncommitted (f y)) \<Longrightarrow>
     uncommitted (case x of None \<Rightarrow> m | Some y \<Rightarrow> f y)"
  by (cases x) simp_all

lemma uncommitted_case_sum [evolves_intros]:
  "(\<And>e. x = Inl e \<Longrightarrow> uncommitted (f e)) \<Longrightarrow> (\<And>y. x = Inr y \<Longrightarrow> uncommitted (g y)) \<Longrightarrow>
     uncommitted (case x of Inl e \<Rightarrow> f e | Inr y \<Rightarrow> g y)"
  by (cases x) simp_all

lemma uncommitted_transaction [evolves_intros]:
  "uncommitted m \<Longrightarrow> uncommitted (transaction False m)"
  by (simp add: transaction_def uncommitted_bind uncommitted_return uncommitted_rollback
      uncommitted_when_False)

lemma atomic_transaction:
  assumes "uncommitted m"
  shows "atomic_io (transaction True m)"
  unfolding atomic_io_def
proof (intro allI impI)
  fix c r c'
  assume q: "quiescent c" and run: "transaction True m c = (r, c')"
  obtain s c1 where m: "m c = (s, c1)" by (cases "m c")
  then have "committed c1 = committed c" using assms by (simp add: uncommitted_def)
  with run m show "quiescent c' \<and> (\<forall>e. r = Inl e \<longrightarrow> committed c' = committed c)"
    by (cases s; cases "fault_next c1")
      (auto simp: transaction_def when_io_def rollback_on_error_def bind_io_def quiescent_def
        commit_io_def return_io_def Let_def)
qed

text \<open>A method that returns has run its body to the end and committed what the body left.\<close>

lemma transaction_Inr:
  "transaction True m c = (Inr x, c') \<longleftrightarrow> (\<exists>c1. m c = (Inr x, c1) \<and> \<not> fault_next c1 \<and>
     c' = c1\<lparr>faults := tl (faults c1), committed := working c1\<rparr>)"
  "transaction False m c = (Inr x, c') \<longleftrightarrow> m c = (Inr x, c')"
  by (auto simp: transaction_def io_Inr_simps)

text \<open>A method that only reads leaves the database as it found it, whatever happens.\<close>

definition read_only :: "'a io \<Rightarrow> bool" where
  "read_only m \<longleftrightarrow> (\<forall>c r c'. quiescent c \<longrightarrow> m c = (r, c') \<longrightarrow>
     quiescent c' \<and> committed c' = committed c)"

lemma read_only_execute:
  "(\<And>d x d'. stmt d = Inr (x, d') \<Longrightarrow> d' = d) \<Longrightarrow> read_only (execute stmt)"
  by (auto simp: read_only_def quiescent_def execute_def Let_def split: if_splits sum.splits)

lemma read_only_commit: "read_only commit_io"
  by (auto simp: read_only_def quiescent_def commit_io_def Let_def split: if_splits)

lemma read_only_return: "read_only (return_io x)" "read_only (raise_io e)" "read_only (lift_io r)"
  by (simp_all add: read_only_def return_io_def raise_io_def lift_io_def)

lemma read_only_bind:
  assumes "read_only m" and "\<And>x. read_only (f x)"
  shows "read_only (bind_io m f)"
  unfolding read_only_def
proof (intro allI impI)
  fix c r c'
  assume q: "quiescent c" and run: "bind_io m f c = (r, c')"
  obtain s c1 where m: "m c = (s, c1)" by (cases "m c")
  with assms(1) q have c1: "quiescent c1" "committed c1 = committed c"
    unfolding read_only_def by blast+
  show "quiescent c' \<and> committed c' = committed c"
  proof (cases s)
    case (Inl e)
    with run m c1 show ?thesis by (simp add: bind_io_def)
  next
    case (Inr x)
    with run m have "f x c1 = (r, c')" by (simp add: bind_io_def)
    with assms(2) c1 show ?thesis unfolding read_only_def by metis
  qed
qed

lemma read_only_rollback:
  assumes "read_only m"
  shows "read_only (rollback_on_error m)"
  unfolding read_only_def
proof (intro allI impI)
  fix c r c'
  assume q: "quiescent c" and run: "rollback_on_error m c = (r, c')"
  obtain s c1 where m: "m c = (s, c1)" by (cases "m c")
  with assms q have "quiescent c1" "committed c1 = committed c" unfolding read_only_def by blast+
  with run m show "quiescent c' \<and> committed c' = committed c"
    by (cases s) (auto simp: rollback_on_error_def quiescent_def)
qed

lemma read_only_when: "read_only m \<Longrightarrow> read_only (when_io b m)"
  by (simp add: when_io_def read_only_return)

lemma read_only_if:
  "(b \<Longrightarrow> read_only m) \<Longrightarrow> (\<not> b \<Longrightarrow> read_only m') \<Longrightarrow> read_only (if b then m else m')"
  by simp

lemma read_only_case_option:
  "(x = None \<Longrightarrow> read_only m) \<Longrightarrow> (\<And>y. x = Some y \<Longrightarrow> read_only (f y)) \<Longrightarrow>
     read_only (case x of None \<Rightarrow> m | Some y \<Rightarrow> f y)"
  by (cases x) simp_all

lemma read_only_transaction: "read_only m \<Longrightarrow> read_only (transaction b m)"
  by (simp add: transaction_def read_only_rollback read_only_bind read_only_when read_only_commit
      read_only_return)

lemmas read_only_intros = read_only_transaction read_only_rollback read_only_bind
  read_only_commit read_only_return read_only_if read_only_case_option

lemma read_only_atomic: "read_only m \<Longrightarrow> atomic_io m"
  unfolding read_only_def atomic_io_def by blast

lemma atomic_raise [evolves_intros]: "atomic_io (raise_io e)" "atomic_io (return_io x)" "atomic_io (lift_io r)"
  by (simp_all add: atomic_io_def raise_io_def return_io_def lift_io_def)

lemma atomic_case_sum:
  "(\<And>e. x = Inl e \<Longrightarrow> atomic_io (f e)) \<Longrightarrow> (\<And>y. x = Inr y \<Longrightarrow> atomic_io (g y)) \<Longrightarrow>
     atomic_io (case x of Inl e \<Rightarrow> f e | Inr y \<Rightarrow> g y)"
  by (cases x) simp_all

lemma atomic_if: "(b \<Longrightarrow> atomic_io m) \<Longrightarrow> (\<not> b \<Longrightarrow> atomic_io m') \<Longrightarrow> atomic_io (if b then m else m')"
  by simp

lemma atomicD:
  "atomic_io m \<Longrightarrow> quiescent c \<Longrightarrow> m c = (r, c') \<Longrightarrow> quiescent c'"
  "atomic_io m \<Longrightarrow> quiescent c \<Longrightarrow> m c = (Inl e, c') \<Longrightarrow> committed c' = committed c"
  unfolding atomic_io_def by blast+

lemma atomic_error:
  "atomic_io m \<Longrightarrow> quiescent c \<Longrightarrow> m c = (Inl e, c') \<Longrightarrow> quiescent c' \<and> committed c' = committed c"
  using atomicD by blast

subsection \<open>Changes along a relation\<close>

text \<open>
  \<open>moves_along R m\<close>: whatever \<open>m\<close> does, the committed database changes only along \<open>R\<close>, and
  what is pending is reachable along \<open>R\<close> from what is committed.
\<close>

definition moves_along :: "(db \<Rightarrow> db \<Rightarrow> bool) \<Rightarrow> 'a io \<Rightarrow> bool" where
  "moves_along R m \<longleftrightarrow> (\<forall>c r c'. R (committed c) (working c) \<longrightarrow> m c = (r, c') \<longrightarrow>
     R (committed c) (committed c') \<and> R (committed c') (working c'))"

locale change_relation =
  fixes R :: "db \<Rightarrow> db \<Rightarrow> bool"
  assumes refl: "R d d"
    and trans: "R d e \<Longrightarrow> R e f \<Longrightarrow> R d f"
begin

lemma along_return:
  "moves_along R (return_io x)" "moves_along R (raise_io e)" "moves_along R (lift_io r)"
  by (auto simp: moves_along_def return_io_def raise_io_def lift_io_def refl)

lemma along_execute:
  assumes "\<And>d x d'. stmt d = Inr (x, d') \<Longrightarrow> R d d'"
  shows "moves_along R (execute stmt)"
  using assms refl trans
  by (auto simp: moves_along_def execute_def Let_def split: if_splits sum.splits)

lemma along_commit: "moves_along R commit_io"
  using refl by (auto simp: moves_along_def commit_io_def Let_def split: if_splits)

lemma along_bind:
  assumes "moves_along R m" and "\<And>c x c'. m c = (Inr x, c') \<Longrightarrow> moves_along R (f x)"
  shows "moves_along R (bind_io m f)"
  unfolding moves_along_def
proof (intro allI impI)
  fix c r c'
  assume start: "R (committed c) (working c)" and run: "bind_io m f c = (r, c')"
  obtain s c1 where m: "m c = (s, c1)" by (cases "m c")
  with assms(1) start have c1: "R (committed c) (committed c1)" "R (committed c1) (working c1)"
    unfolding moves_along_def by blast+
  show "R (committed c) (committed c') \<and> R (committed c') (working c')"
  proof (cases s)
    case (Inl e)
    with run m c1 show ?thesis by (simp add: bind_io_def)
  next
    case (Inr x)
    with run m have "f x c1 = (r, c')" by (simp add: bind_io_def)
    moreover have "moves_along R (f x)" using assms(2) m Inr by blast
    ultimately have "R (committed c1) (committed c')" "R (committed c') (working c')"
      using c1(2) unfolding moves_along_def by blast+
    with c1(1) trans show ?thesis by blast
  qed
qed

lemma along_rollback: "moves_along R m \<Longrightarrow> moves_along R (rollback_on_error m)"
  unfolding moves_along_def rollback_on_error_def
  by (fastforce simp: refl split: prod.splits sum.splits)

lemma along_when: "moves_along R m \<Longrightarrow> moves_along R (when_io b m)"
  by (simp add: when_io_def along_return)

lemma along_transaction: "moves_along R m \<Longrightarrow> moves_along R (transaction b m)"
  unfolding transaction_def
  by (intro along_rollback along_bind along_when along_commit along_return)

lemma along_if:
  "(b \<Longrightarrow> moves_along R m) \<Longrightarrow> (\<not> b \<Longrightarrow> moves_along R m') \<Longrightarrow> moves_along R (if b then m else m')"
  by simp

lemma along_case_option:
  "(x = None \<Longrightarrow> moves_along R m) \<Longrightarrow> (\<And>y. x = Some y \<Longrightarrow> moves_along R (f y)) \<Longrightarrow>
     moves_along R (case x of None \<Rightarrow> m | Some y \<Rightarrow> f y)"
  by (cases x) simp_all

lemma along_case_sum:
  "(\<And>e. x = Inl e \<Longrightarrow> moves_along R (f e)) \<Longrightarrow> (\<And>y. x = Inr y \<Longrightarrow> moves_along R (g y)) \<Longrightarrow>
     moves_along R (case x of Inl e \<Rightarrow> f e | Inr y \<Rightarrow> g y)"
  by (cases x) simp_all

lemmas along_intros = along_transaction along_rollback along_bind along_execute along_commit
  along_return along_if along_case_option along_case_sum

lemma along_quiescent:
  assumes "moves_along R m" and "quiescent c" and "m c = (r, c')"
  shows "R (committed c) (committed c')"
  using assms refl unfolding moves_along_def quiescent_def by metis

end

interpretation evolution: change_relation db_evolves
  by unfold_locales (auto intro: db_evolves_trans)

end
