(* ===== verification/SampleFacts.thy ===== *)
theory SampleFacts
  imports Transactions
begin

text \<open>
  One concrete fact source, for the instances at which the properties of the later theories are
  applied: owner \<open>alice\<close> has a READY and an INACTIVE version of \<open>doc1\<close>, and a
  version of \<open>doc2\<close> in PROCESSING with its ingestion job; the INACTIVE version has a pending
  and a leased cleanup job.
\<close>

definition sample_hash :: "char \<Rightarrow> string" where
  "sample_hash c = replicate 64 c"

definition sample_document :: "string \<Rightarrow> string \<Rightarrow> document_identity" where
  "sample_document paper doc =
     \<lparr>di_paper_id = paper, di_document_id = doc, di_owner_id = ''alice'',
      di_source_type = ''uploaded'', di_mapping_version = ''map1'',
      di_source_created_time = Aware 1, di_source_updated_time = Aware 2\<rparr>"

definition sample_version ::
  "string \<Rightarrow> string \<Rightarrow> string \<Rightarrow> char \<Rightarrow> lifecycle_status \<Rightarrow> version" where
  "sample_version paper doc vid c s =
     \<lparr>ver_paper_id = paper, ver_document_id = doc, ver_owner_id = ''alice'',
      ver_document_version_id = vid, ver_content_sha256 = sample_hash c,
      ver_source_snapshot_sha256 = sample_hash CHR ''0'', ver_parse_version = ''parse1'',
      ver_lifecycle_revision = 3, ver_lifecycle_status = s, ver_parse_finish_time = Some (Aware 3),
      ver_chunk_splitter_time = Some (Aware 4), ver_chunk_create_time = Some (Aware 5),
      ver_chunk_gen_time = Some (Aware 6),
      ver_vector_index_time = (if s = PROCESSING then None else Some (Aware 7)),
      ver_index_states = (if s = PROCESSING then default_index_states else ready_index_states),
      ver_delete_time = (if s = INACTIVE then Some (Aware 8) else None),
      ver_chunk_expire_time = None, ver_last_access_time = None, ver_last_refresh_time = None,
      ver_failure_code = None, ver_updated_at = Aware 9\<rparr>"

definition sample_cleanup ::
  "string \<Rightarrow> string \<Rightarrow> cleanup_job_status \<Rightarrow> (string \<times> int) option \<Rightarrow> cleanup_job" where
  "sample_cleanup cid backend s lease =
     \<lparr>cj_cleanup_id = cid, cj_backend = backend, cj_owner_id = ''alice'',
      cj_document_id = ''doc1'', cj_document_version_id = ''v_old'', cj_status = s,
      cj_attempt_count = (if lease = None then 0 else 1), cj_max_attempts = 5,
      cj_next_attempt_at = Aware 10, cj_lease_token = map_option fst lease,
      cj_lease_expires_at = map_option (\<lambda>l. Aware (snd l)) lease, cj_failure_code = None,
      cj_created_at = Aware 10, cj_updated_at = Aware 10, cj_completed_at = None\<rparr>"

definition sample_job :: ingestion_job where
  "sample_job = \<lparr>ij_job_id = ''job2'', ij_owner_id = ''alice'', ij_idempotency_key = ''key2'',
     ij_document_id = ''doc2'', ij_document_version_id = ''v_new'', ij_status = JOB_RUNNING,
     ij_attempt_count = 1, ij_failure_code = None, ij_created_at = Aware 2,
     ij_updated_at = Aware 9\<rparr>"

definition sample_pending :: cleanup_job where
  "sample_pending = sample_cleanup ''cleanup1'' ''elasticsearch_chunks'' CL_PENDING None"

definition sample_leased :: cleanup_job where
  "sample_leased = sample_cleanup ''cleanup2'' ''milvus_vectors'' CL_RUNNING
     (Some (''lease2'', 500))"

definition sample_pdf :: pdf_object where
  "sample_pdf = \<lparr>po_owner_id = ''alice'', po_document_id = ''doc1'',
     po_document_version_id = ''v_ready'', po_object_key = ''objects/a.pdf'',
     po_storage_backend = ''filesystem_v1'', po_content_sha256 = sample_hash CHR ''a'',
     po_size_bytes = 10, po_media_type = ''application/pdf'', po_stored_at = Aware 3\<rparr>"

definition sample_chunk :: "string \<Rightarrow> chunk" where
  "sample_chunk cid = \<lparr>ch_chunk_id = cid, ch_document_id = ''doc1'', ch_version_id = ''v_ready'',
     ch_text = [97, 98], ch_section_path = [97], ch_page_start = 1, ch_page_end = 2,
     ch_parent_chunk_id = None, ch_previous_chunk_id = None, ch_next_chunk_id = None,
     ch_tenant_id = ''alice'', ch_visibility = ''private'', ch_library_scope_ids = [],
     ch_parse_version = ''parse1'', ch_embedding_version = ''embed1'', ch_is_active = False\<rparr>"

definition sample_ready :: version where
  "sample_ready = sample_version ''paper1'' ''doc1'' ''v_ready'' CHR ''a'' READY"

definition sample_inactive :: version where
  "sample_inactive = sample_version ''paper1'' ''doc1'' ''v_old'' CHR ''b'' INACTIVE"

definition sample_processing :: version where
  "sample_processing = sample_version ''paper2'' ''doc2'' ''v_new'' CHR ''c'' PROCESSING"

definition sample_db :: db where
  "sample_db =
     \<lparr>documents = [sample_document ''paper1'' ''doc1'', sample_document ''paper2'' ''doc2''],
      versions = [sample_ready, sample_inactive, sample_processing], jobs = [sample_job],
      cleanups = [sample_pending, sample_leased], pdf_objects = [], chunk_rows = []\<rparr>"

definition sample_stored :: db where
  "sample_stored = sample_db\<lparr>pdf_objects := [sample_pdf],
     chunk_rows := [\<lparr>cr_ordinal = 0, cr_chunk = sample_chunk ''chunk1''\<rparr>]\<rparr>"

definition connected :: "db \<Rightarrow> conn" where
  "connected d = \<lparr>committed = d, working = d, faults = []\<rparr>"

lemma connected_simps [simp]:
  "committed (connected d) = d" "working (connected d) = d" "faults (connected d) = []"
  "quiescent (connected d)"
  by (simp_all add: connected_def quiescent_def)

lemma sample_db_inv: "db_inv sample_db"
  by code_simp

end
