(* ===== verification/PostgresFacts.thy ===== *)
theory PostgresFacts
  imports SampleFacts "HOL-Library.Multiset"
begin

text \<open>
  The document, version and job methods of \<open>PostgresFactRepository\<close>
  (\<^verbatim>\<open>backend/storage/postgres.py\<close>). What the injected \<open>clock\<close> and \<open>id_factory\<close> return is an
  argument, a time stands for the aware UTC time at that instant. An argument
  \<open>commit_transaction\<close> is the keyword of the same name.
\<close>

subsection \<open>Registration\<close>

definition register_document ::
  "string \<Rightarrow> string \<Rightarrow> string \<Rightarrow> string \<Rightarrow> string \<Rightarrow> timestamp \<Rightarrow> timestamp \<Rightarrow> document_identity io"
where
  "register_document doc_id owner_id paper_id source_type mapping_version created updated =
     (case validate_identity \<lparr>di_paper_id = paper_id, di_document_id = doc_id,
         di_owner_id = owner_id, di_source_type = source_type,
         di_mapping_version = mapping_version, di_source_created_time = created,
         di_source_updated_time = updated\<rparr> of
        Inl e \<Rightarrow> raise_io e
      | Inr candidate \<Rightarrow> transaction True (
          bind_io (execute (sql_register_document candidate)) (\<lambda>row. case row of
            None \<Rightarrow> raise_io PostgresFactSourceError
          | Some row \<Rightarrow> bind_io (lift_io (validate_identity row)) (\<lambda>identity.
              if di_source_type identity \<noteq> di_source_type candidate
              then raise_io IdentityConflictError
              else return_io identity))))"

text \<open>\<open>_register_version\<close>: the second read is the one after a lost race.\<close>

definition register_version ::
  "bool \<Rightarrow> int \<Rightarrow> string \<Rightarrow> string \<Rightarrow> string \<Rightarrow> string \<Rightarrow> string \<Rightarrow> string \<Rightarrow> version io"
where
  "register_version commit_transaction now version_id owner_id document_id content_sha256
     source_snapshot_sha256 parse_version =
     transaction commit_transaction (
       bind_io (execute (sql_register_version owner_id document_id version_id content_sha256
         source_snapshot_sha256 parse_version now)) (\<lambda>row.
       bind_io (case row of
           None \<Rightarrow> execute (sql_get_version_by_source owner_id document_id content_sha256
             source_snapshot_sha256 parse_version)
         | Some v \<Rightarrow> return_io (Some v)) (\<lambda>row.
       case row of
         None \<Rightarrow> raise_io IdentityConflictError
       | Some v \<Rightarrow> lift_io (validate_version v))))"

definition register_ingestion_job ::
  "bool \<Rightarrow> int \<Rightarrow> string \<Rightarrow> string \<Rightarrow> string \<Rightarrow> string \<Rightarrow> string \<Rightarrow> ingestion_job io"
where
  "register_ingestion_job commit_transaction now job_id owner_id document_id document_version_id
     idempotency_key =
     transaction commit_transaction (
       bind_io (execute (sql_register_job job_id owner_id idempotency_key document_id
         document_version_id now)) (\<lambda>row.
       case row of
         None \<Rightarrow> raise_io PostgresFactSourceError
       | Some row \<Rightarrow> bind_io (lift_io (validate_job row)) (\<lambda>job.
           if ij_document_id job \<noteq> document_id \<or>
              ij_document_version_id job \<noteq> document_version_id
           then raise_io IdentityConflictError
           else return_io job)))"

definition register_version_and_ingestion_job ::
  "int \<Rightarrow> int \<Rightarrow> string \<Rightarrow> string \<Rightarrow> string \<Rightarrow> string \<Rightarrow> string \<Rightarrow> string \<Rightarrow> string \<Rightarrow> string \<Rightarrow>
     (version \<times> ingestion_job) io"
where
  "register_version_and_ingestion_job now now' version_id job_id owner_id document_id
     content_sha256 source_snapshot_sha256 parse_version idempotency_key =
     transaction True (
       bind_io (register_version False now version_id owner_id document_id content_sha256
         source_snapshot_sha256 parse_version) (\<lambda>version.
       bind_io (register_ingestion_job False now' job_id owner_id document_id
         (ver_document_version_id version) idempotency_key) (\<lambda>job.
       return_io (version, job))))"

subsection \<open>Lifecycle transitions\<close>

text \<open>
  The \<open>updates\<close> dictionary of a transition: its keys are column names, its values the three
  kinds of value the mutable columns hold. A value of the wrong kind is a validation error.
\<close>

datatype patch_value = Time "timestamp option" | Code "string option" | States index_states

type_synonym patch = "(string \<times> patch_value) list"

definition lifecycle_mutable_fields :: "string list" where
  "lifecycle_mutable_fields =
     [''parse_finish_time'', ''chunk_splitter_time'', ''chunk_create_time'', ''chunk_gen_time'',
      ''vector_index_time'', ''index_states'', ''delete_time'', ''chunk_expire_time'',
      ''last_access_time'', ''last_refresh_time'', ''failure_code'']"

fun patch_field :: "string \<Rightarrow> patch_value \<Rightarrow> version \<Rightarrow> version option" where
  "patch_field k (Time t) v =
     (if k = ''parse_finish_time'' then Some (v\<lparr>ver_parse_finish_time := t\<rparr>)
      else if k = ''chunk_splitter_time'' then Some (v\<lparr>ver_chunk_splitter_time := t\<rparr>)
      else if k = ''chunk_create_time'' then Some (v\<lparr>ver_chunk_create_time := t\<rparr>)
      else if k = ''chunk_gen_time'' then Some (v\<lparr>ver_chunk_gen_time := t\<rparr>)
      else if k = ''vector_index_time'' then Some (v\<lparr>ver_vector_index_time := t\<rparr>)
      else if k = ''delete_time'' then Some (v\<lparr>ver_delete_time := t\<rparr>)
      else if k = ''chunk_expire_time'' then Some (v\<lparr>ver_chunk_expire_time := t\<rparr>)
      else if k = ''last_access_time'' then Some (v\<lparr>ver_last_access_time := t\<rparr>)
      else if k = ''last_refresh_time'' then Some (v\<lparr>ver_last_refresh_time := t\<rparr>)
      else None)"
| "patch_field k (Code c) v =
     (if k = ''failure_code'' then Some (v\<lparr>ver_failure_code := c\<rparr>) else None)"
| "patch_field k (States s) v =
     (if k = ''index_states'' then Some (v\<lparr>ver_index_states := s\<rparr>) else None)"

fun apply_patch :: "patch \<Rightarrow> version \<Rightarrow> version option" where
  "apply_patch [] v = Some v"
| "apply_patch ((k, x) # p) v = do { w \<leftarrow> patch_field k x v; apply_patch p w }"

text \<open>The candidate row: the current one, the patch over it, the next revision, validated.\<close>

definition lifecycle_candidate ::
  "int \<Rightarrow> lifecycle_status \<Rightarrow> patch \<Rightarrow> version \<Rightarrow> fact_error + version" where
  "lifecycle_candidate now target_status p current =
     bind_res (of_option ValidationError (apply_patch p current)) (\<lambda>v.
       validate_version (v\<lparr>ver_lifecycle_revision := ver_lifecycle_revision current + 1,
         ver_lifecycle_status := target_status, ver_updated_at := Aware now\<rparr>))"

definition is_processing_progress :: "version \<Rightarrow> lifecycle_status \<Rightarrow> patch \<Rightarrow> bool" where
  "is_processing_progress current target_status p \<longleftrightarrow>
     ver_lifecycle_status current = PROCESSING \<and> target_status = PROCESSING \<and> p \<noteq> []"

definition transition_version ::
  "bool \<Rightarrow> int \<Rightarrow> string \<Rightarrow> string \<Rightarrow> int \<Rightarrow> lifecycle_status \<Rightarrow> patch \<Rightarrow> version io" where
  "transition_version commit_transaction now owner_id document_version_id expected_revision
     target_status p =
     (if \<exists>k \<in> set (map fst p). k \<notin> set lifecycle_mutable_fields then raise_io ValueError
      else transaction commit_transaction (
        bind_io (execute (sql_lock_version owner_id document_version_id)) (\<lambda>current_row.
        case current_row of
          None \<Rightarrow> raise_io IdentityConflictError
        | Some row \<Rightarrow> bind_io (lift_io (validate_version row)) (\<lambda>current.
            if ver_lifecycle_revision current \<noteq> expected_revision
            then raise_io ConcurrentLifecycleUpdateError
            else if target_status \<notin> allowed_lifecycle_transitions (ver_lifecycle_status current)
              \<and> \<not> is_processing_progress current target_status p
            then raise_io LifecycleTransitionError
            else bind_io (lift_io (lifecycle_candidate now target_status p current)) (\<lambda>candidate.
              bind_io (execute (sql_update_version candidate expected_revision)) (\<lambda>updated_row.
              case updated_row of
                None \<Rightarrow> raise_io ConcurrentLifecycleUpdateError
              | Some row \<Rightarrow> lift_io (validate_version row)))))))"

subsection \<open>Online visibility\<close>

definition validate_row :: "version option \<Rightarrow> version option io" where
  "validate_row row = (case row of None \<Rightarrow> return_io None
     | Some v \<Rightarrow> bind_io (lift_io (validate_version v)) (\<lambda>v. return_io (Some v)))"

definition get_online_version :: "string \<Rightarrow> string \<Rightarrow> version option io" where
  "get_online_version owner_id document_version_id =
     rollback_on_error (
       bind_io (execute (sql_get_online_version owner_id document_version_id)) (\<lambda>row.
       bind_io commit_io (\<lambda>_. validate_row row)))"

fun validate_rows :: "version list \<Rightarrow> fact_error + version list" where
  "validate_rows [] = Inr []"
| "validate_rows (v # vs) = bind_res (validate_version v) (\<lambda>w.
     bind_res (validate_rows vs) (\<lambda>ws. Inr (w # ws)))"

definition resolve_online_versions :: "string \<Rightarrow> string list \<Rightarrow> version list io" where
  "resolve_online_versions owner_id requested =
     (if length requested > 1000 then raise_io ValueError
      else if \<not> distinct requested then raise_io ValueError
      else if \<not> contract_id_ok owner_id \<or> (\<exists>d \<in> set requested. \<not> contract_id_ok d)
        then raise_io ValueError
      else transaction True (
        bind_io (execute (sql_resolve_online_versions owner_id requested)) (\<lambda>rows.
        bind_io (lift_io (validate_rows rows)) (\<lambda>vs.
        if \<not> distinct (map ver_document_id vs) then raise_io PostgresFactSourceError
        else return_io vs))))"

subsection \<open>Job state and the joint outcomes\<close>

definition update_ingestion_job ::
  "bool \<Rightarrow> int \<Rightarrow> string \<Rightarrow> string \<Rightarrow> ingestion_job_status \<Rightarrow> string option \<Rightarrow> ingestion_job io"
where
  "update_ingestion_job commit_transaction now owner_id job_id status failure_code =
     (if status = JOB_FAILED \<and> failure_code = None then raise_io ValueError
      else if status \<noteq> JOB_FAILED \<and> failure_code \<noteq> None then raise_io ValueError
      else transaction commit_transaction (
        bind_io (execute (sql_update_job owner_id job_id status failure_code now)) (\<lambda>row.
        case row of
          None \<Rightarrow> raise_io IdentityConflictError
        | Some row \<Rightarrow> lift_io (validate_job row))))"

definition record_indexing_failure ::
  "int \<Rightarrow> int \<Rightarrow> string \<Rightarrow> string \<Rightarrow> int \<Rightarrow> index_states \<Rightarrow> string \<Rightarrow> string \<Rightarrow>
     (version \<times> ingestion_job) io"
where
  "record_indexing_failure now now' owner_id document_version_id expected_revision ix job_id
     failure_code =
     transaction True (
       bind_io (transition_version False now owner_id document_version_id expected_revision
         PROCESSING [(''index_states'', States ix), (''failure_code'', Code (Some failure_code))])
       (\<lambda>version.
       bind_io (update_ingestion_job False now' owner_id job_id JOB_FAILED (Some failure_code))
       (\<lambda>job.
       if ij_document_version_id job \<noteq> ver_document_version_id version
       then raise_io IdentityConflictError
       else return_io (version, job))))"

definition finalize_indexing_success ::
  "int \<Rightarrow> int \<Rightarrow> string \<Rightarrow> string \<Rightarrow> int \<Rightarrow> index_states \<Rightarrow> timestamp \<Rightarrow> string \<Rightarrow>
     (version \<times> ingestion_job) io"
where
  "finalize_indexing_success now now' owner_id document_version_id expected_revision ix
     vector_index_time job_id =
     transaction True (
       bind_io (transition_version False now owner_id document_version_id expected_revision
         READY [(''index_states'', States ix), (''vector_index_time'', Time (Some vector_index_time)),
                (''failure_code'', Code None)])
       (\<lambda>version.
       bind_io (update_ingestion_job False now' owner_id job_id JOB_SUCCEEDED None) (\<lambda>job.
       if ij_document_version_id job \<noteq> ver_document_version_id version
       then raise_io IdentityConflictError
       else return_io (version, job))))"


subsection \<open>Every method keeps the integrity and is atomic\<close>

lemma uncommitted_register_version [evolves_intros]:
  "uncommitted (register_version False now vid owner doc content snapshot parse)"
  unfolding register_version_def by (intro evolves_intros)

lemma uncommitted_register_ingestion_job [evolves_intros]:
  "uncommitted (register_ingestion_job False now jid owner doc vid key)"
  unfolding register_ingestion_job_def by (intro evolves_intros)

lemma uncommitted_transition_version [evolves_intros]:
  "uncommitted (transition_version False now owner vid n target p)"
  unfolding transition_version_def by (intro evolves_intros)

lemma uncommitted_update_ingestion_job [evolves_intros]:
  "uncommitted (update_ingestion_job False now owner jid status code)"
  unfolding update_ingestion_job_def by (intro evolves_intros)

lemma atomic_register_document: "atomic_io (register_document i w p s m t u)"
  unfolding register_document_def
  by (intro atomic_case_sum atomic_raise atomic_transaction evolves_intros)

lemma atomic_register_version: "atomic_io (register_version True now vid owner doc c s p)"
  unfolding register_version_def by (intro atomic_transaction evolves_intros)

lemma atomic_register_ingestion_job:
  "atomic_io (register_ingestion_job True now jid owner doc vid key)"
  unfolding register_ingestion_job_def by (intro atomic_transaction evolves_intros)

lemma atomic_register_version_and_ingestion_job:
  "atomic_io (register_version_and_ingestion_job now now' vid jid owner doc c s p key)"
  unfolding register_version_and_ingestion_job_def by (intro atomic_transaction evolves_intros)

lemma atomic_transition_version:
  "atomic_io (transition_version True now owner vid n target p)"
  unfolding transition_version_def
  by (intro atomic_if atomic_raise atomic_transaction evolves_intros)

lemma atomic_update_ingestion_job:
  "atomic_io (update_ingestion_job True now owner jid status code)"
  unfolding update_ingestion_job_def
  by (intro atomic_if atomic_raise atomic_transaction evolves_intros)

lemma atomic_record_indexing_failure:
  "atomic_io (record_indexing_failure now now' owner vid n ix jid code)"
  unfolding record_indexing_failure_def by (intro atomic_transaction evolves_intros)

lemma atomic_finalize_indexing_success:
  "atomic_io (finalize_indexing_success now now' owner vid n ix t jid)"
  unfolding finalize_indexing_success_def by (intro atomic_transaction evolves_intros)

lemma read_only_get_online_version: "read_only (get_online_version owner vid)"
  unfolding get_online_version_def validate_row_def
  by (intro read_only_intros read_only_execute) (simp add: sql_get_online_version_def)

lemma read_only_resolve_online_versions: "read_only (resolve_online_versions owner docs)"
  unfolding resolve_online_versions_def
  by (intro read_only_intros read_only_execute) (simp add: sql_resolve_online_versions_def)

lemma evolves_execute_register_document:
  "identity_ok cand \<Longrightarrow> moves_along db_evolves (execute (sql_register_document cand))"
  by (rule evolution.along_execute) (rule evolves_register_document)

lemma along_register_document: "moves_along db_evolves (register_document i w p s m t u)"
  unfolding register_document_def
  by (intro evolution.along_intros evolves_execute_register_document)
    (auto intro: validate_identity_InrD)

lemma along_register_version: "moves_along db_evolves (register_version b now vid owner doc c s p)"
  unfolding register_version_def
  by (intro evolution.along_intros) (auto intro: evolves_register_version evolves_get_version_by_source)

lemma along_register_ingestion_job:
  "moves_along db_evolves (register_ingestion_job b now jid owner doc vid key)"
  unfolding register_ingestion_job_def
  by (intro evolution.along_intros) (auto intro: evolves_register_job)

lemma along_register_version_and_ingestion_job:
  "moves_along db_evolves (register_version_and_ingestion_job now now' vid jid owner doc c s p key)"
  unfolding register_version_and_ingestion_job_def
  by (intro evolution.along_intros along_register_version along_register_ingestion_job)

lemma lifecycle_candidate_ok:
  "lifecycle_candidate now target p v = Inr cand \<Longrightarrow> version_ok cand"
  by (auto simp: lifecycle_candidate_def bind_res_Inr_iff intro: validate_version_InrD)

lemma along_transition_version:
  "moves_along db_evolves (transition_version b now owner vid n target p)"
  unfolding transition_version_def
  by (intro evolution.along_intros)
    (auto simp: lift_io_Inr intro: evolves_lock_version evolves_update_version
      dest: lifecycle_candidate_ok)

lemma along_update_ingestion_job:
  "moves_along db_evolves (update_ingestion_job b now owner jid status code)"
  unfolding update_ingestion_job_def
  by (intro evolution.along_intros) (auto intro: evolves_update_job)

lemma along_record_indexing_failure:
  "moves_along db_evolves (record_indexing_failure now now' owner vid n ix jid code)"
  unfolding record_indexing_failure_def
  by (intro evolution.along_intros along_transition_version along_update_ingestion_job)

lemma along_finalize_indexing_success:
  "moves_along db_evolves (finalize_indexing_success now now' owner vid n ix t jid)"
  unfolding finalize_indexing_success_def
  by (intro evolution.along_intros along_transition_version along_update_ingestion_job)


subsection \<open>What a transition does\<close>

text \<open>\<open>keeps_identity v w\<close>: outside the lifecycle columns, \<open>w\<close> is \<open>v\<close>.\<close>

definition keeps_identity :: "version \<Rightarrow> version \<Rightarrow> bool" where
  "keeps_identity v w \<longleftrightarrow> set_lifecycle_columns w v = w"

lemma keeps_identity_iff: "keeps_identity v w \<longleftrightarrow> same_version_identity v w"
  by (cases v; cases w)
    (auto simp: keeps_identity_def same_version_identity_def set_lifecycle_columns_def)

lemma patch_field_keeps: "patch_field k x v = Some w \<Longrightarrow> same_version_identity v w"
  by (cases x) (auto simp: same_version_identity_def split: if_splits)

lemma apply_patch_keeps: "apply_patch p v = Some w \<Longrightarrow> same_version_identity v w"
proof (induction p v arbitrary: w rule: apply_patch.induct)
  case (1 v)
  then show ?case by simp
next
  case (2 k x p v)
  then obtain u where "patch_field k x v = Some u" "apply_patch p u = Some w"
    by (auto split: bind_splits)
  with 2 show ?case by (blast intro: same_version_identity_trans dest: patch_field_keeps)
qed

lemma validate_version_keeps:
  assumes "validate_version w = Inr w'" and "version_ok v" and "same_version_identity v w"
  shows "same_version_identity v w' \<and> ver_lifecycle_revision w' = ver_lifecycle_revision w \<and>
    ver_lifecycle_status w' = ver_lifecycle_status w"
  using assms
  by (auto simp: validate_version_def version_ok_def same_version_identity_def split: bind_splits)

lemma version_ok_check: "version_ok v \<Longrightarrow> version_check v"
  by (auto simp: version_ok_def version_check_def lifecycle_fails_closed_def split: if_splits)

lemma lifecycle_candidate_step:
  assumes cand: "lifecycle_candidate now target p v = Inr w" and "version_ok v"
    and allowed: "target \<in> allowed_lifecycle_transitions (ver_lifecycle_status v) \<or>
      is_processing_progress v target p"
  shows "version_step v w" and "version_ok w" and "version_check w"
    and "set_lifecycle_columns w v = w" and "ver_lifecycle_status w = target"
proof -
  from cand obtain u where u: "apply_patch p v = Some u"
    and w: "validate_version (u\<lparr>ver_lifecycle_revision := ver_lifecycle_revision v + 1,
      ver_lifecycle_status := target, ver_updated_at := Aware now\<rparr>) = Inr w"
    by (auto simp: lifecycle_candidate_def bind_res_Inr_iff)
  have "same_version_identity v (u\<lparr>ver_lifecycle_revision := ver_lifecycle_revision v + 1,
      ver_lifecycle_status := target, ver_updated_at := Aware now\<rparr>)"
    using apply_patch_keeps [OF u] by (simp add: same_version_identity_def)
  from validate_version_keeps [OF w assms(2) this]
  have keeps: "same_version_identity v w" "ver_lifecycle_revision w = ver_lifecycle_revision v + 1"
    "ver_lifecycle_status w = target" by simp_all
  with allowed show "version_step v w" "ver_lifecycle_status w = target"
    by (auto simp: version_step_def version_transition_allowed_iff is_processing_progress_def)
  show ok: "version_ok w" using w by (rule validate_version_InrD)
  then show "version_check w" by (rule version_ok_check)
  show "set_lifecycle_columns w v = w" using keeps(1) keeps_identity_iff
    by (simp add: keeps_identity_def)
qed

text \<open>The contract of a transition, over the version table alone.\<close>

definition online_elsewhere :: "db \<Rightarrow> version \<Rightarrow> bool" where
  "online_elsewhere d w \<longleftrightarrow> (\<exists>u \<in> set (versions d). is_active u \<and> active_key u = active_key w \<and>
     ver_document_version_id u \<noteq> ver_document_version_id w)"

definition transition_spec ::
  "int \<Rightarrow> string \<Rightarrow> string \<Rightarrow> int \<Rightarrow> lifecycle_status \<Rightarrow> patch \<Rightarrow> db \<Rightarrow> fact_error + (version \<times> db)" where
  "transition_spec now owner vid expected target p d =
     (if \<exists>k \<in> set (map fst p). k \<notin> set lifecycle_mutable_fields then Inl ValueError
      else case find (\<lambda>v. ver_owner_id v = owner \<and> ver_document_version_id v = vid) (versions d) of
        None \<Rightarrow> Inl IdentityConflictError
      | Some v \<Rightarrow>
          if ver_lifecycle_revision v \<noteq> expected then Inl ConcurrentLifecycleUpdateError
          else if target \<notin> allowed_lifecycle_transitions (ver_lifecycle_status v) \<and>
            \<not> is_processing_progress v target p then Inl LifecycleTransitionError
          else bind_res (lifecycle_candidate now target p v) (\<lambda>w.
            if is_active w \<and> online_elsewhere d w then Inl (DatabaseError UniqueViolation)
            else Inr (w, d\<lparr>versions := replace_version v w (versions d)\<rparr>)))"

text \<open>
  A candidate that passed the application's checks passes the trigger and every CHECK of the
  schema, so the UPDATE can only be refused by the one-active-version index.
\<close>

lemma update_version_candidate:
  assumes inv: "db_inv d" and v: "v \<in> set (versions d)"
    and cand: "lifecycle_candidate now target p v = Inr w"
    and allowed: "target \<in> allowed_lifecycle_transitions (ver_lifecycle_status v) \<or>
      is_processing_progress v target p"
  shows "sql_update_version w (ver_lifecycle_revision v) d =
    (if is_active w \<and> online_elsewhere d w then Inl (DatabaseError UniqueViolation)
     else Inr (Some w, d\<lparr>versions := replace_version v w (versions d)\<rparr>))"
proof -
  note vs = versions_invD [OF inv]
  have ok: "version_ok v" using vs(4) v by blast
  note step = lifecycle_candidate_step [OF cand ok allowed]
  have same: "same_version_identity v w" using step(1) by (simp add: version_step_def)
  have "find (\<lambda>u. ver_owner_id u = ver_owner_id w \<and>
      ver_document_version_id u = ver_document_version_id w \<and>
      ver_lifecycle_revision u = ver_lifecycle_revision v) (versions d) = Some v"
    using same by (intro find_keyed [OF vs(1) v]) (auto simp: same_version_identity_def)
  with step same show ?thesis
    by (auto simp: sql_update_version_def Let_def online_elsewhere_def db_raise_def
        same_version_identity_def)
qed


lemma conn_same [simp]: "(c\<lparr>working := working c\<rparr> :: conn) = c" "c\<lparr>committed := committed c\<rparr> = c"
  by simp_all

lemma rollback_quiescent: "quiescent c \<Longrightarrow> rollback (c\<lparr>working := d\<rparr>) = c"
  by (cases c) (simp add: rollback_def quiescent_def)

lemma rollback_quiescent_same: "quiescent c \<Longrightarrow> rollback c = c"
  by (cases c) (simp add: rollback_def quiescent_def)

lemma same_identity_fields:
  "same_version_identity v w \<Longrightarrow> ver_owner_id w = ver_owner_id v \<and>
     ver_document_version_id w = ver_document_version_id v \<and> ver_document_id w = ver_document_id v"
  by (simp add: same_version_identity_def)

text \<open>C33. Refinement: with the database up, \<open>transition_version\<close> is exactly its contract on the
  version table. Unknown fields, a foreign or missing version, a stale revision and a move outside
  the transition graph each raise their own error and change nothing; otherwise the validated
  candidate replaces the row and is committed, unless another version of the document is online.
  The trigger and the CHECK constraints never fire.\<close>

theorem transition_refines_spec:
  assumes "db_inv (working c)" and "quiescent c" and "faults c = []"
  shows "transition_version True now owner vid n target p c =
    (case transition_spec now owner vid n target p (working c) of
       Inl e \<Rightarrow> (Inl e, c)
     | Inr (v, d) \<Rightarrow> (Inr v, c\<lparr>working := d, committed := d\<rparr>))"
proof (cases "\<exists>k \<in> set (map fst p). k \<notin> set lifecycle_mutable_fields")
  case True
  then show ?thesis by (simp add: transition_version_def transition_spec_def raise_io_def)
next
  case known: False
  note same = rollback_quiescent_same [OF assms(2)]
  show ?thesis
  proof (cases "find (\<lambda>v. ver_owner_id v = owner \<and> ver_document_version_id v = vid)
      (versions (working c))")
    case None
    with known assms(3) same show ?thesis
      by (simp add: transition_version_def transition_spec_def io_run_simps sql_lock_version_def)
  next
    case (Some v)
    then have v: "v \<in> set (versions (working c))" by (auto dest: find_SomeD)
    have ok: "version_ok v" using versions_invD(4) [OF assms(1)] v by blast
    let ?allowed = "target \<in> allowed_lifecycle_transitions (ver_lifecycle_status v) \<or>
      is_processing_progress v target p"
    show ?thesis
    proof (cases "ver_lifecycle_revision v = n \<and> ?allowed")
      case False
      with Some known assms(3) same ok show ?thesis
        by (auto simp: transition_version_def transition_spec_def io_run_simps sql_lock_version_def
            validate_version_ok)
    next
      case True
      show ?thesis
      proof (cases "lifecycle_candidate now target p v")
        case (Inl e)
        with Some known assms(3) same ok True show ?thesis
          by (auto simp: transition_version_def transition_spec_def io_run_simps
              sql_lock_version_def validate_version_ok)
      next
        case (Inr w)
        from True have "?allowed" by blast
        from update_version_candidate [OF assms(1) v Inr this]
          lifecycle_candidate_step(2) [OF Inr ok this] True
        show ?thesis using Some known assms(3) same ok Inr
          by (auto simp: transition_version_def transition_spec_def io_run_simps
              sql_lock_version_def validate_version_ok)
      qed
    qed
  qed
qed

theorem transition_refines_spec_witness:
  "fst (transition_version True 20 ''alice'' ''v_new'' 3 READY [] (connected sample_db)) =
    Inl ValidationError"
proof -
  have "transition_spec 20 ''alice'' ''v_new'' 3 READY [] sample_db = Inl ValidationError"
    by code_simp
  with transition_refines_spec [of "connected sample_db" 20 "''alice''" "''v_new''" 3 READY "[]"]
  show ?thesis by (simp add: sample_db_inv)
qed


subsection \<open>Online scope\<close>

lemma validate_rows_ok: "\<forall>v \<in> set vs. version_ok v \<Longrightarrow> validate_rows vs = Inr vs"
  by (induction vs) (simp_all add: validate_version_ok)

lemma online_row_active: "online_row owner v \<Longrightarrow> is_active v \<and> ver_owner_id v = owner"
  by (simp add: online_row_def)

lemma distinct_online_documents:
  assumes "db_inv d"
  shows "distinct (map ver_document_id (filter (\<lambda>v. online_row owner v \<and> P v) (versions d)))"
proof -
  note vs = versions_invD [OF assms]
  have "inj_on ver_document_id (set (filter (\<lambda>v. online_row owner v \<and> P v) (versions d)))"
  proof (rule inj_onI)
    fix v w
    assume v: "v \<in> set (filter (\<lambda>v. online_row owner v \<and> P v) (versions d))"
      and w: "w \<in> set (filter (\<lambda>v. online_row owner v \<and> P v) (versions d))"
      and doc: "ver_document_id v = ver_document_id w"
    then have "ver_document_version_id v = ver_document_version_id w"
      using vs(3) unfolding one_active_def active_key_def
      by (metis (no_types, lifting) filter_is_subset mem_Collect_eq online_row_active set_filter
          subsetD)
    with v w show "v = w" using keyed_unique [OF vs(1)] by simp
  qed
  moreover have "distinct (filter (\<lambda>v. online_row owner v \<and> P v) (versions d))"
    using vs(1) by (simp add: keyed_def distinct_map)
  ultimately show ?thesis by (simp only: distinct_map)
qed

text \<open>The online scope is exact: for a valid owner and request, \<open>resolve_online_versions\<close> returns
  precisely the owner's READY, doubly indexed, undeleted versions of the requested documents (all
  documents when none is named), at most one per document and in document order. The error for
  several active versions of one document cannot occur.\<close>

theorem resolve_online_exact:
  assumes "db_inv (working c)" and "quiescent c" and "faults c = []"
    and "length docs \<le> 1000" and "distinct docs" and "contract_id_ok owner"
    and "\<forall>d \<in> set docs. contract_id_ok d"
  shows "\<exists>vs. resolve_online_versions owner docs c = (Inr vs, c) \<and>
    set vs = {v \<in> set (versions (working c)). online_row owner v \<and>
      (docs = [] \<or> ver_document_id v \<in> set docs)} \<and>
    distinct (map ver_document_id vs) \<and> sorted (map ver_document_id vs)"
proof -
  let ?rows = "filter (\<lambda>v. online_row owner v \<and> (docs = [] \<or> ver_document_id v \<in> set docs))
    (versions (working c))"
  let ?vs = "sort_key ver_document_id (sort_key ver_document_version_id ?rows)"
  have set: "set ?vs = {v \<in> set (versions (working c)). online_row owner v \<and>
      (docs = [] \<or> ver_document_id v \<in> set docs)}" by simp
  have "distinct (map ver_document_id ?rows)"
    using assms(1) by (rule distinct_online_documents)
  moreover have "mset (map ver_document_id ?vs) = mset (map ver_document_id ?rows)" by simp
  ultimately have dist: "distinct (map ver_document_id ?vs)"
    using mset_eq_imp_distinct_iff by blast
  have valid: "validate_rows ?vs = Inr ?vs"
    using versions_invD(4) [OF assms(1)] by (intro validate_rows_ok) auto
  have c: "c\<lparr>committed := working c\<rparr> = c" using assms(2) by (cases c) (simp add: quiescent_def)
  have "resolve_online_versions owner docs c = transaction True (
      bind_io (execute (sql_resolve_online_versions owner docs)) (\<lambda>rows.
      bind_io (lift_io (validate_rows rows)) (\<lambda>vs.
      if \<not> distinct (map ver_document_id vs) then raise_io PostgresFactSourceError
      else return_io vs))) c"
    using assms(4-7) by (auto simp: resolve_online_versions_def)
  also have "\<dots> = (Inr ?vs, c)"
    using assms(3) valid dist c by (simp add: io_run_simps sql_resolve_online_versions_def)
  finally show ?thesis using set dist by (intro exI [of _ ?vs]) simp
qed

theorem resolve_online_exact_witness:
  "\<exists>vs. resolve_online_versions ''alice'' [''doc1'', ''doc2''] (connected sample_db) =
    (Inr vs, connected sample_db) \<and> distinct (map ver_document_id vs)"
proof -
  have "contract_id_ok ''alice''" "\<forall>d \<in> set [''doc1'', ''doc2'']. contract_id_ok d"
    "distinct [''doc1'', ''doc2'']" by code_simp+
  with resolve_online_exact [of "connected sample_db" "[''doc1'', ''doc2'']" "''alice''"]
  show ?thesis by (auto simp: sample_db_inv)
qed


subsection \<open>Joint outcomes\<close>

lemma transition_success:
  assumes run: "transition_version False now owner vid n target p c = (Inr w, c')"
    and inv: "db_inv (working c)"
  obtains v where "v \<in> set (versions (working c))" and "ver_owner_id v = owner"
    and "ver_document_version_id v = vid" and "ver_lifecycle_revision v = n"
    and "version_step v w" and "lifecycle_candidate now target p v = Inr w" and "version_ok w"
    and "ver_lifecycle_status w = target"
    and "working c' = (working c)\<lparr>versions := replace_version v w (versions (working c))\<rparr>"
    and "w \<in> set (versions (working c'))"
proof -
  from run obtain row v cand row' c1 c2 where
    found: "find (\<lambda>v. ver_owner_id v = owner \<and> ver_document_version_id v = vid)
      (versions (working c)) = Some row" and v: "validate_version row = Inr v"
    and n: "ver_lifecycle_revision v = n"
    and allowed: "target \<in> allowed_lifecycle_transitions (ver_lifecycle_status v) \<or>
      is_processing_progress v target p"
    and cand: "lifecycle_candidate now target p v = Inr cand"
    and upd: "sql_update_version cand n (working c) = Inr (Some row', working c')"
    and w: "validate_version row' = Inr w"
    by (auto simp: transition_version_def transaction_Inr io_Inr_simps sql_lock_version_def
        split: if_splits option.splits)
  from found have row: "row \<in> set (versions (working c))" "ver_owner_id row = owner"
    "ver_document_version_id row = vid" by (auto dest: find_SomeD)
  with versions_invD(4) [OF inv] have ok: "version_ok row" by blast
  with v have vr: "v = row" by (simp add: validate_version_ok)
  note step = lifecycle_candidate_step [OF cand [unfolded vr] ok allowed [unfolded vr]]
  from upd update_version_candidate [OF inv row(1) cand [unfolded vr] allowed [unfolded vr]] n
  have upd': "row' = cand" "working c' = (working c)\<lparr>versions :=
      replace_version row cand (versions (working c))\<rparr>"
    by (auto simp: vr split: if_splits)
  with w step(2) have "w = cand" by (simp add: validate_version_ok)
  moreover have "cand \<in> set (versions (working c'))"
    using set_replace [OF versions_invD(1) [OF inv] row(1)] by (simp add: upd' replace_version_def)
  ultimately show thesis
    using that [of row] row n step cand upd' by (simp add: vr)
qed

lemma jobs_invD:
  assumes "db_inv d"
  shows "keyed ij_job_id (jobs d)" and "keyed (\<lambda>j. (ij_owner_id j, ij_idempotency_key j)) (jobs d)"
    and "\<forall>j \<in> set (jobs d). job_ok j"
    and "\<forall>j \<in> set (jobs d). version_fk d (ij_document_version_id j) (ij_owner_id j) (ij_document_id j)"
  using assms by (auto simp: db_inv_def jobs_inv_def)

lemma job_check_ok:
  "job_check k \<Longrightarrow> job_ok j \<Longrightarrow> ij_document_id k = ij_document_id j \<Longrightarrow>
     ij_document_version_id k = ij_document_version_id j \<Longrightarrow> aware (ij_created_at k) \<Longrightarrow>
     aware (ij_updated_at k) \<Longrightarrow> job_ok k"
  by (auto simp: job_check_def job_ok_def failed_job_has_code_def)

lemma update_job_success:
  assumes run: "update_ingestion_job False now owner jid status code c = (Inr k, c')"
    and inv: "db_inv (working c)"
  obtains j where "j \<in> set (jobs (working c))" and "ij_owner_id j = owner" and "ij_job_id j = jid"
    and "k = j\<lparr>ij_status := status,
      ij_attempt_count := ij_attempt_count j + (if status = JOB_RUNNING then 1 else 0),
      ij_failure_code := code, ij_updated_at := Aware now\<rparr>"
    and "k \<in> set (jobs (working c'))" and "versions (working c') = versions (working c)"
proof -
  from run obtain row where
    upd: "sql_update_job owner jid status code now (working c) = Inr (Some row, working c')"
    and k: "validate_job row = Inr k"
    by (auto simp: update_ingestion_job_def transaction_Inr io_Inr_simps split: if_splits option.splits)
  from upd obtain j where found: "find (\<lambda>j. ij_owner_id j = owner \<and> ij_job_id j = jid)
      (jobs (working c)) = Some j" by (auto simp: sql_update_job_def split: option.splits)
  let ?new = "j\<lparr>ij_status := status,
      ij_attempt_count := ij_attempt_count j + (if status = JOB_RUNNING then 1 else 0),
      ij_failure_code := code, ij_updated_at := Aware now\<rparr>"
  from found have j: "j \<in> set (jobs (working c))" "ij_owner_id j = owner" "ij_job_id j = jid"
    by (auto dest: find_SomeD)
  from upd found have row: "row = ?new" and check: "job_check ?new"
    and c': "working c' = (working c)\<lparr>jobs :=
      update_rows (\<lambda>r. ij_job_id r = ij_job_id j) (\<lambda>_. ?new) (jobs (working c))\<rparr>"
    by (auto simp: sql_update_job_def Let_def split: if_splits)
  from jobs_invD(3) [OF inv] j have "job_ok j" by blast
  with check have "job_ok ?new" by (rule job_check_ok) (use \<open>job_ok j\<close> in \<open>simp_all add: job_ok_def\<close>)
  with k row have "k = ?new" by (simp add: validate_job_ok)
  moreover have "?new \<in> set (jobs (working c'))"
    using set_replace [OF jobs_invD(1) [OF inv] j(1)] by (simp add: c')
  ultimately show thesis using that [of j] j c' by simp
qed


lemma ready_version_facts:
  "version_ok v \<Longrightarrow> ver_lifecycle_status v = READY \<Longrightarrow>
     is_active v \<and> milestones_present v \<and> ver_index_states v = ready_index_states \<and>
     ver_failure_code v = None"
  by (auto simp: version_ok_def lifecycle_fails_closed_def is_active_def split: if_splits)

lemma transition_evolves:
  assumes "transition_version False now owner vid n target p c = (Inr w, c1)" and "quiescent c"
    and "db_inv (working c)"
  shows "db_inv (working c1)"
proof -
  have "db_evolves (committed c1) (working c1)" "committed c1 = committed c"
    using assms(1,2) along_transition_version [of False now owner vid n target p]
      uncommitted_transition_version [of now owner vid n target p]
    unfolding moves_along_def uncommitted_def quiescent_def by (metis db_evolves_refl)+
  with assms(2,3) show ?thesis by (simp add: db_evolves_def quiescent_def)
qed

text \<open>Publication is one step: when \<open>finalize_indexing_success\<close> returns, the committed database
  holds together the version READY and online, at the next revision, with all milestones and both
  index receipts and no failure code, and its own job SUCCEEDED without a failure code; before, that
  version was in PROCESSING at the expected revision.\<close>

theorem finalize_publishes:
  assumes "finalize_indexing_success now now' owner vid n ix t jid c = (Inr (w, k), c')"
    and "db_inv (working c)" and "quiescent c"
  shows "w \<in> set (versions (committed c')) \<and> is_active w \<and> milestones_present w \<and>
    ver_index_states w = ready_index_states \<and> ver_failure_code w = None \<and>
    ver_lifecycle_revision w = n + 1 \<and> k \<in> set (jobs (committed c')) \<and>
    ij_status k = JOB_SUCCEEDED \<and> ij_failure_code k = None \<and>
    ij_document_version_id k = vid \<and> ver_document_version_id w = vid \<and> quiescent c' \<and>
    (\<exists>v \<in> set (versions (committed c)). same_version_identity v w \<and>
       ver_lifecycle_status v = PROCESSING \<and> ver_lifecycle_revision v = n)"
proof -
  from assms(1) obtain c1 c2 where
    tr: "transition_version False now owner vid n READY [(''index_states'', States ix),
      (''vector_index_time'', Time (Some t)), (''failure_code'', Code None)] c = (Inr w, c1)"
    and job: "update_ingestion_job False now' owner jid JOB_SUCCEEDED None c1 = (Inr k, c2)"
    and bound: "ij_document_version_id k = ver_document_version_id w"
    and c': "committed c' = working c2" "working c' = working c2"
    by (auto simp: finalize_indexing_success_def transaction_Inr io_Inr_simps split: if_splits)
  obtain v where v: "v \<in> set (versions (working c))" "ver_document_version_id v = vid"
    "ver_lifecycle_revision v = n" "version_step v w" "version_ok w"
    "ver_lifecycle_status w = READY" "w \<in> set (versions (working c1))"
    using transition_success [OF tr assms(2)] by blast
  obtain j where k: "k = j\<lparr>ij_status := JOB_SUCCEEDED,
      ij_attempt_count := ij_attempt_count j + (if JOB_SUCCEEDED = JOB_RUNNING then 1 else 0),
      ij_failure_code := None, ij_updated_at := Aware now'\<rparr>"
      "k \<in> set (jobs (working c2))" "versions (working c2) = versions (working c1)"
    using update_job_success [OF job transition_evolves [OF tr assms(3,2)]] by blast
  have "ver_lifecycle_status v = PROCESSING"
    using v(4,6) by (cases "ver_lifecycle_status v")
      (simp_all add: version_step_def version_transition_allowed_def split: if_splits)
  then have "\<exists>v \<in> set (versions (committed c)). same_version_identity v w \<and>
      ver_lifecycle_status v = PROCESSING \<and> ver_lifecycle_revision v = n"
    using v assms(3) by (auto simp: version_step_def quiescent_def)
  moreover have "ij_status k = JOB_SUCCEEDED" "ij_failure_code k = None" using k(1) by simp_all
  moreover have "ver_lifecycle_revision w = n + 1" "ver_document_version_id w = vid"
    using v by (auto simp: version_step_def same_version_identity_def)
  ultimately show ?thesis
    using v k(2,3) ready_version_facts [OF v(5,6)] bound c' by (simp add: quiescent_def)
qed

theorem finalize_publishes_witness:
  "\<exists>w k. fst (finalize_indexing_success 20 21 ''alice'' ''v_new'' 3 ready_index_states (Aware 15)
      ''job2'' (connected sample_db)) = Inr (w, k) \<and> is_active w \<and> ij_status k = JOB_SUCCEEDED"
proof -
  let ?run = "finalize_indexing_success 20 21 ''alice'' ''v_new'' 3 ready_index_states (Aware 15)
    ''job2'' (connected sample_db)"
  have "case fst ?run of Inl _ \<Rightarrow> False | Inr _ \<Rightarrow> True" by code_simp
  then obtain w k where res: "fst ?run = Inr (w, k)" by (cases "fst ?run") auto
  then have run: "?run = (Inr (w, k), snd ?run)" by (metis prod.collapse)
  from finalize_publishes [OF run] res show ?thesis
    by (intro exI [of _ w] exI [of _ k]) (simp add: sample_db_inv)
qed

text \<open>An indexing failure leaves the version in PROCESSING and offline, with the reported index
  states and failure code, and its job FAILED under the same code, in one commit; the version can
  be retried from the next revision.\<close>

theorem indexing_failure_recorded:
  assumes "record_indexing_failure now now' owner vid n ix jid code c = (Inr (w, k), c')"
    and "db_inv (working c)" and "quiescent c"
  shows "w \<in> set (versions (committed c')) \<and> ver_lifecycle_status w = PROCESSING \<and>
    \<not> is_active w \<and> ver_lifecycle_revision w = n + 1 \<and> ver_index_states w = ix \<and>
    ver_document_version_id w = vid \<and> k \<in> set (jobs (committed c')) \<and>
    ij_status k = JOB_FAILED \<and> ij_failure_code k = Some code \<and>
    ij_document_version_id k = vid \<and> quiescent c'"
proof -
  from assms(1) obtain c1 c2 where
    tr: "transition_version False now owner vid n PROCESSING [(''index_states'', States ix),
      (''failure_code'', Code (Some code))] c = (Inr w, c1)"
    and job: "update_ingestion_job False now' owner jid JOB_FAILED (Some code) c1 = (Inr k, c2)"
    and bound: "ij_document_version_id k = ver_document_version_id w"
    and c': "committed c' = working c2" "working c' = working c2"
    by (auto simp: record_indexing_failure_def transaction_Inr io_Inr_simps split: if_splits)
  obtain v where v: "ver_document_version_id v = vid"
    "ver_lifecycle_revision v = n" "version_step v w"
    "ver_lifecycle_status w = PROCESSING" "w \<in> set (versions (working c1))"
    and cand: "lifecycle_candidate now PROCESSING [(''index_states'', States ix),
      (''failure_code'', Code (Some code))] v = Inr w"
    using transition_success [OF tr assms(2)] by blast
  obtain j where k: "k = j\<lparr>ij_status := JOB_FAILED,
      ij_attempt_count := ij_attempt_count j + (if JOB_FAILED = JOB_RUNNING then 1 else 0),
      ij_failure_code := Some code, ij_updated_at := Aware now'\<rparr>"
      "k \<in> set (jobs (working c2))" "versions (working c2) = versions (working c1)"
    using update_job_success [OF job transition_evolves [OF tr assms(3,2)]] by blast
  have "ver_index_states w = ix" using cand
    by (auto simp: lifecycle_candidate_def bind_res_Inr_iff validate_version_def
        split: bind_splits if_splits)
  moreover have "ij_status k = JOB_FAILED" "ij_failure_code k = Some code" using k(1) by simp_all
  moreover have "ver_lifecycle_revision w = n + 1" "ver_document_version_id w = vid"
    using v by (auto simp: version_step_def same_version_identity_def)
  ultimately show ?thesis
    using v k(2,3) bound c' by (simp add: quiescent_def is_active_def)
qed

theorem indexing_failure_recorded_witness:
  "\<exists>w k. fst (record_indexing_failure 20 21 ''alice'' ''v_new'' 3 default_index_states
      ''job2'' ''E1'' (connected sample_db)) = Inr (w, k) \<and> \<not> is_active w \<and>
      ij_failure_code k = Some ''E1''"
proof -
  let ?run = "record_indexing_failure 20 21 ''alice'' ''v_new'' 3 default_index_states
    ''job2'' ''E1'' (connected sample_db)"
  have "case fst ?run of Inl _ \<Rightarrow> False | Inr _ \<Rightarrow> True" by code_simp
  then obtain w k where res: "fst ?run = Inr (w, k)" by (cases "fst ?run") auto
  then have run: "?run = (Inr (w, k), snd ?run)" by (metis prod.collapse)
  from indexing_failure_recorded [OF run] res show ?thesis
    by (intro exI [of _ w] exI [of _ k]) (simp add: sample_db_inv)
qed

subsection \<open>Registration\<close>

lemma register_job_again:
  assumes inv: "db_inv d" and k: "k \<in> set (jobs d)" "ij_owner_id k = owner" "ij_idempotency_key k = key"
    and "contract_id_ok jid"
  shows "sql_register_job jid owner key doc vid now d = Inr (Some k, d)"
proof -
  note js = jobs_invD [OF inv]
  have "job_check (new_job jid owner key doc vid now)"
    using js(3) k assms(5) by (auto simp: job_check_def new_job_def job_ok_def opt_id_ok_def)
  moreover have "find (\<lambda>r. ij_owner_id r = owner \<and> ij_idempotency_key r = key) (jobs d) = Some k"
    using k by (intro find_keyed [OF js(2) k(1)]) auto
  ultimately show ?thesis by (simp add: sql_register_job_def Let_def)
qed

lemma register_version_again:
  assumes inv: "db_inv d" and v: "v \<in> set (versions d)" "by_source owner doc content snap parse v"
    and "contract_id_ok vid"
  shows "sql_register_version owner doc vid content snap parse now d = Inr (Some v, d)"
proof -
  note vs = versions_invD [OF inv]
  have found: "find (by_source owner doc content snap parse) (versions d) = Some v"
    using v by (intro find_keyed [OF vs(2) v(1)]) (auto simp: by_source_def)
  from v(2) have src: "source_identity v = (doc, content, snap, parse)" "ver_owner_id v = owner"
    by (simp_all add: by_source_def)
  have "version_ok v" using vs(4) v(1) by blast
  with src have "version_check (new_version r vid content snap parse now)" for r
    using assms(4)
    by (auto simp: version_ok_def source_identity_def version_check_def new_version_def opt_id_ok_def)
  moreover have "\<exists>w \<in> set (versions d). source_identity w = (doc, content, snap, parse)"
    using v(1) src by blast
  moreover have "source_identity (new_version r vid content snap parse now) =
      (doc, content, snap, parse)"
    if "find (\<lambda>r. di_owner_id r = owner \<and> di_document_id r = doc) (documents d) = Some r" for r
    using find_SomeD [OF that] by simp
  ultimately show ?thesis using found
    by (simp add: sql_register_version_def Let_def split: option.split)
qed

text \<open>What a successful registration has left in the database.\<close>

lemma sql_register_version_row:
  assumes "sql_register_version owner doc vid content snap parse now d = Inr (Some v, d')"
  shows "v \<in> set (versions d') \<and> by_source owner doc content snap parse v"
  using assms unfolding sql_register_version_def Let_def
  by (auto simp: by_source_def split: option.splits if_splits dest!: find_SomeD)

lemma sql_register_job_row:
  assumes "sql_register_job jid owner key doc vid now d = Inr (Some k, d')"
  shows "k \<in> set (jobs d') \<and> ij_owner_id k = owner \<and> ij_idempotency_key k = key \<and>
    versions d' = versions d"
  using assms unfolding sql_register_job_def Let_def
  by (auto simp: new_job_def split: option.splits if_splits dest!: find_SomeD)

lemma register_version_success:
  assumes run: "register_version False now vid owner doc content snap parse c = (Inr v, c')"
    and inv: "db_inv (working c)"
  shows "v \<in> set (versions (working c')) \<and> by_source owner doc content snap parse v \<and>
    db_inv (working c')"
proof -
  from run obtain row c1 row' c2 where
    e1: "execute (sql_register_version owner doc vid content snap parse now) c = (Inr row, c1)"
    and e2: "(case row of None \<Rightarrow> execute (sql_get_version_by_source owner doc content snap parse)
      | Some v \<Rightarrow> return_io (Some v)) c1 = (Inr row', c2)"
    and e3: "(case row' of None \<Rightarrow> raise_io IdentityConflictError
      | Some v \<Rightarrow> lift_io (validate_version v)) c2 = (Inr v, c')"
    unfolding register_version_def transaction_Inr bind_io_Inr by blast
  from e1 obtain d where first: "sql_register_version owner doc vid content snap parse now
      (working c) = Inr (row, d)" and c1: "working c1 = d" by (auto simp: execute_Inr)
  have rest: "(row = None \<and> find (by_source owner doc content snap parse) (versions d) = row' \<or>
      row = row') \<and> (\<exists>r. row' = Some r \<and> validate_version r = Inr v)"
    and c': "working c' = d"
    using c1 e2 e3
    by (auto simp: io_Inr_simps sql_get_version_by_source_def split: option.splits)
  have inv': "db_inv d" using evolves_register_version [OF first] inv by (simp add: db_evolves_def)
  from rest obtain r where r: "r \<in> set (versions d)" "by_source owner doc content snap parse r"
    "validate_version r = Inr v"
    using sql_register_version_row first by (metis find_SomeD)
  with versions_invD(4) [OF inv'] have "v = r" by (auto simp: validate_version_ok)
  with r inv' c' show ?thesis by simp
qed

lemma register_job_success:
  assumes run: "register_ingestion_job False now jid owner doc vid key c = (Inr k, c')"
    and inv: "db_inv (working c)"
  shows "k \<in> set (jobs (working c')) \<and> ij_owner_id k = owner \<and> ij_idempotency_key k = key \<and>
    ij_document_id k = doc \<and> ij_document_version_id k = vid \<and> db_inv (working c') \<and>
    versions (working c') = versions (working c)"
proof -
  from run obtain row where reg: "sql_register_job jid owner key doc vid now (working c) =
      Inr (Some row, working c')" and k: "validate_job row = Inr k"
    and bound: "ij_document_id k = doc" "ij_document_version_id k = vid"
    by (auto simp: register_ingestion_job_def transaction_Inr io_Inr_simps
        split: option.splits if_splits)
  have inv': "db_inv (working c')"
    using evolves_register_job [OF reg] inv by (simp add: db_evolves_def)
  note row = sql_register_job_row [OF reg]
  with jobs_invD(3) [OF inv'] k have "k = row" by (auto simp: validate_job_ok)
  with row bound inv' show ?thesis by simp
qed

lemma registered_pair:
  assumes "register_version_and_ingestion_job now now' vid jid owner doc content snap parse key c =
      (Inr (v, k), c')" and "db_inv (working c)"
  shows "v \<in> set (versions (committed c'))" and "by_source owner doc content snap parse v"
    and "k \<in> set (jobs (committed c'))" and "ij_owner_id k = owner" and "ij_idempotency_key k = key"
    and "ij_document_id k = doc" and "ij_document_version_id k = ver_document_version_id v"
    and "db_inv (committed c')" and "quiescent c'"
proof -
  from assms(1) obtain c1 c2 where
    ver: "register_version False now vid owner doc content snap parse c = (Inr v, c1)"
    and job: "register_ingestion_job False now' jid owner doc (ver_document_version_id v) key c1 =
      (Inr k, c2)"
    and c': "committed c' = working c2" "working c' = working c2"
    by (auto simp: register_version_and_ingestion_job_def transaction_Inr io_Inr_simps)
  note v = register_version_success [OF ver assms(2)]
  note k = register_job_success [OF job v [THEN conjunct2, THEN conjunct2]]
  show "v \<in> set (versions (committed c'))" "by_source owner doc content snap parse v"
    "k \<in> set (jobs (committed c'))" "ij_owner_id k = owner" "ij_idempotency_key k = key"
    "ij_document_id k = doc" "ij_document_version_id k = ver_document_version_id v"
    "db_inv (committed c')" "quiescent c'"
    using v k c' by (simp_all add: quiescent_def)
qed

text \<open>Registration is idempotent: repeating a joint registration that succeeded, for the same
  sources and idempotency key, returns the same version and the same job and leaves the database as
  it is, whatever new identifiers and times the retry brings.\<close>

theorem registration_idempotent:
  assumes "register_version_and_ingestion_job now now' vid jid owner doc content snap parse key c =
      (Inr (v, k), c1)" and "db_inv (working c)"
    and "working c2 = committed c1" and "quiescent c2" and "faults c2 = []"
    and "contract_id_ok vid'" and "contract_id_ok jid'"
  shows "register_version_and_ingestion_job later later' vid' jid' owner doc content snap parse key c2
    = (Inr (v, k), c2)"
proof -
  note p = registered_pair [OF assms(1,2)]
  have inv: "db_inv (working c2)" using p(8) assms(3) by simp
  have ver: "sql_register_version owner doc vid' content snap parse later (working c2) =
      Inr (Some v, working c2)"
    using p(1,2) assms(3,6) by (intro register_version_again [OF inv]) simp_all
  have job: "sql_register_job jid' owner key doc (ver_document_version_id v) later' (working c2) =
      Inr (Some k, working c2)"
    using p(3,4,5) assms(3,7) by (intro register_job_again [OF inv]) simp_all
  have "validate_version v = Inr v" "validate_job k = Inr k"
    using versions_invD(4) [OF p(8)] jobs_invD(3) [OF p(8)] p(1,3)
    by (auto simp: validate_version_ok validate_job_ok)
  moreover have "c2\<lparr>committed := working c2\<rparr> = c2"
    using assms(4) by (cases c2) (simp add: quiescent_def)
  ultimately show ?thesis
    using assms(5) ver job p(6,7)
    by (simp add: register_version_and_ingestion_job_def register_version_def
        register_ingestion_job_def io_run_simps)
qed

theorem registration_idempotent_witness:
  "\<exists>v k d. fst (register_version_and_ingestion_job 31 31 ''v8'' ''job8'' ''alice'' ''doc2''
      (sample_hash CHR ''d'') (sample_hash CHR ''0'') ''parse1'' ''key3'' (connected d)) = Inr (v, k) \<and>
    ver_document_version_id v = ''v7'' \<and> ij_job_id k = ''job7''"
proof -
  let ?run = "register_version_and_ingestion_job 30 30 ''v7'' ''job7'' ''alice'' ''doc2''
    (sample_hash CHR ''d'') (sample_hash CHR ''0'') ''parse1'' ''key3'' (connected sample_db)"
  have "case fst ?run of Inl _ \<Rightarrow> False | Inr (v, k) \<Rightarrow> ver_document_version_id v = ''v7'' \<and>
      ij_job_id k = ''job7''" by code_simp
  then obtain v k where res: "fst ?run = Inr (v, k)"
    and ids: "ver_document_version_id v = ''v7''" "ij_job_id k = ''job7''"
    by (cases "fst ?run") auto
  then have run: "?run = (Inr (v, k), snd ?run)" by (metis prod.collapse)
  have "contract_id_ok ''v8''" "contract_id_ok ''job8''" by code_simp+
  with registration_idempotent [OF run, of "connected (committed (snd ?run))" "''v8''" "''job8''" 31 31]
  have "fst (register_version_and_ingestion_job 31 31 ''v8'' ''job8'' ''alice'' ''doc2''
      (sample_hash CHR ''d'') (sample_hash CHR ''0'') ''parse1'' ''key3''
      (connected (committed (snd ?run)))) = Inr (v, k)"
    by (simp add: sample_db_inv)
  with ids show ?thesis by blast
qed

end
