(* ===== verification/RuntimeSnapshots.thy ===== *)
theory RuntimeSnapshots
  imports SampleFacts "HOL-Library.Multiset"
begin

text \<open>
  The PDF registration and chunk snapshot methods of \<open>PostgresFactRepository\<close>
  (\<^verbatim>\<open>backend/storage/postgres.py\<close>). A chunk row is the chunk with its ordinal; the JSON text of
  its library scopes is read back as the list it was written from. \<open>fp\<close> is
  \<open>chunks_fingerprint\<close>, a SHA-256 digest over the chunks in order.
\<close>

subsection \<open>Persisting a snapshot\<close>

definition chunk_from_row :: "bool \<Rightarrow> chunk_row \<Rightarrow> fact_error + chunk" where
  "chunk_from_row active r = validate_chunk ((cr_chunk r)\<lparr>ch_is_active := active\<rparr>)"

fun chunks_from_rows :: "bool \<Rightarrow> chunk_row list \<Rightarrow> fact_error + chunk list" where
  "chunks_from_rows active [] = Inr []"
| "chunks_from_rows active (r # rs) = bind_res (chunk_from_row active r) (\<lambda>c.
     bind_res (chunks_from_rows active rs) (\<lambda>cs. Inr (c # cs)))"

definition snapshot_chunk_matches :: "pdf_object \<Rightarrow> chunk \<Rightarrow> bool" where
  "snapshot_chunk_matches pdf c \<longleftrightarrow>
     ch_tenant_id c = po_owner_id pdf \<and> ch_document_id c = po_document_id pdf \<and>
     ch_version_id c = po_document_version_id pdf \<and> \<not> ch_is_active c"

text \<open>Equality of two registrations up to \<open>stored_at\<close>.\<close>

definition same_pdf_object :: "pdf_object \<Rightarrow> pdf_object \<Rightarrow> bool" where
  "same_pdf_object p q \<longleftrightarrow> p\<lparr>po_stored_at := po_stored_at q\<rparr> = q"

text \<open>The loop over \<open>enumerate(chunk_list)\<close>.\<close>

fun persist_chunks :: "int \<Rightarrow> chunk list \<Rightarrow> unit io" where
  "persist_chunks ordinal [] = return_io ()"
| "persist_chunks ordinal (c # cs) =
     bind_io (execute (sql_persist_chunk \<lparr>cr_ordinal = ordinal, cr_chunk = c\<rparr>))
       (\<lambda>_. persist_chunks (ordinal + 1) cs)"

definition persist_snapshot_rows :: "pdf_object \<Rightarrow> chunk list \<Rightarrow> unit io" where
  "persist_snapshot_rows pdf chunks =
     bind_io (execute (sql_persist_pdf_object pdf)) (\<lambda>_.
     bind_io (execute (sql_get_pdf_object (po_owner_id pdf) (po_document_version_id pdf))) (\<lambda>row.
     bind_io (case row of None \<Rightarrow> raise_io IdentityConflictError
       | Some row \<Rightarrow> bind_io (lift_io (validate_pdf_object row)) (\<lambda>stored_pdf.
           if \<not> same_pdf_object stored_pdf pdf then raise_io IdentityConflictError
           else return_io ())) (\<lambda>_.
     bind_io (persist_chunks 0 chunks) (\<lambda>_.
     bind_io (execute (sql_get_chunk_snapshot (po_owner_id pdf) (po_document_version_id pdf)))
       (\<lambda>rows.
     bind_io (lift_io (chunks_from_rows False rows)) (\<lambda>stored_chunks.
     if stored_chunks \<noteq> chunks then raise_io IdentityConflictError
     else return_io ()))))))"

definition persist_runtime_snapshot ::
  "(chunk list \<Rightarrow> string) \<Rightarrow> pdf_object \<Rightarrow> chunk list \<Rightarrow> runtime_snapshot io" where
  "persist_runtime_snapshot fp pdf chunks =
     (if chunks = [] then raise_io ValueError
      else if \<not> distinct (map ch_chunk_id chunks) then raise_io ValueError
      else if \<exists>c \<in> set chunks. \<not> snapshot_chunk_matches pdf c then raise_io ValueError
      else rollback_on_error (
        bind_io (persist_snapshot_rows pdf chunks) (\<lambda>_.
        bind_io commit_io (\<lambda>_.
        lift_io (validate_runtime_snapshot
          \<lparr>rs_owner_id = po_owner_id pdf, rs_document_id = po_document_id pdf,
           rs_document_version_id = po_document_version_id pdf,
           rs_pdf_object_key = po_object_key pdf, rs_pdf_sha256 = po_content_sha256 pdf,
           rs_chunk_count = int (length chunks),
           rs_chunk_snapshot_sha256 = fp chunks\<rparr>)))))"

subsection \<open>Reading snapshots\<close>

definition load_online_chunks :: "string \<Rightarrow> string list \<Rightarrow> chunk list io" where
  "load_online_chunks owner_id requested =
     (if requested = [] then return_io []
      else if length requested > 1000 then raise_io ValueError
      else if \<not> distinct requested \<or> \<not> contract_id_ok owner_id \<or>
          (\<exists>v \<in> set requested. \<not> contract_id_ok v) then raise_io ValueError
      else transaction True (
        bind_io (execute (sql_load_online_chunks owner_id requested)) (\<lambda>rows.
        bind_io (lift_io (chunks_from_rows True rows)) (\<lambda>chunks.
        if set (map ch_version_id chunks) \<noteq> set requested then raise_io IdentityConflictError
        else if \<not> distinct (map ch_chunk_id chunks) then raise_io PostgresFactSourceError
        else return_io chunks))))"

definition pdf_object_result :: "pdf_object option \<Rightarrow> pdf_object option io" where
  "pdf_object_result row = (case row of None \<Rightarrow> return_io None
     | Some p \<Rightarrow> bind_io (lift_io (validate_pdf_object p)) (\<lambda>p. return_io (Some p)))"

definition get_inactive_pdf_object :: "string \<Rightarrow> string \<Rightarrow> pdf_object option io" where
  "get_inactive_pdf_object owner_id document_version_id =
     rollback_on_error (
       bind_io (execute (sql_get_inactive_pdf_object owner_id document_version_id)) (\<lambda>row.
       bind_io commit_io (\<lambda>_. pdf_object_result row)))"

definition get_pdf_object :: "string \<Rightarrow> string \<Rightarrow> pdf_object option io" where
  "get_pdf_object owner_id document_version_id =
     rollback_on_error (
       bind_io (execute (sql_get_pdf_object owner_id document_version_id)) (\<lambda>row.
       bind_io commit_io (\<lambda>_. pdf_object_result row)))"

subsection \<open>Removing a snapshot\<close>

definition purge_inactive_runtime_snapshot :: "string \<Rightarrow> string \<Rightarrow> unit io" where
  "purge_inactive_runtime_snapshot owner_id document_version_id =
     transaction True (
       bind_io (execute (sql_verify_inactive owner_id document_version_id)) (\<lambda>inactive.
       if inactive = None then raise_io IdentityConflictError
       else bind_io (execute (sql_purge_chunks owner_id document_version_id)) (\<lambda>_.
            execute (sql_purge_pdf_object owner_id document_version_id))))"

subsection \<open>Every method keeps the integrity and is atomic\<close>

lemma uncommitted_persist_chunks [evolves_intros]: "uncommitted (persist_chunks n cs)"
  by (induction cs arbitrary: n) (auto intro!: evolves_intros)

lemma uncommitted_persist_snapshot_rows [evolves_intros]:
  "uncommitted (persist_snapshot_rows pdf cs)"
  unfolding persist_snapshot_rows_def by (intro evolves_intros)

lemma snapshot_record_valid:
  assumes "pdf_object_ok pdf" and "sha256_ok digest" and "cs \<noteq> []"
  shows "\<exists>s. validate_runtime_snapshot
    \<lparr>rs_owner_id = po_owner_id pdf, rs_document_id = po_document_id pdf,
     rs_document_version_id = po_document_version_id pdf,
     rs_pdf_object_key = po_object_key pdf, rs_pdf_sha256 = po_content_sha256 pdf,
     rs_chunk_count = int (length cs), rs_chunk_snapshot_sha256 = digest\<rparr> = Inr s"
  using assms
  by (cases cs) (simp_all add: validate_runtime_snapshot_def pdf_object_ok_def
      pdf_object_fields_ok_def)

text \<open>
  The returned record is built after the commit. It is valid whenever the fingerprint is a SHA-256
  digest: the PDF record equals, up to its time, a row that was validated before the commit. So nothing
  can fail after the commit.
\<close>

lemma persisted_pdf_valid:
  assumes "validate_pdf_object row = Inr p" and "same_pdf_object p pdf" and "sha256_ok digest" and "cs \<noteq> []"
  shows "\<exists>s. validate_runtime_snapshot
    \<lparr>rs_owner_id = po_owner_id pdf, rs_document_id = po_document_id pdf,
     rs_document_version_id = po_document_version_id pdf,
     rs_pdf_object_key = po_object_key pdf, rs_pdf_sha256 = po_content_sha256 pdf,
     rs_chunk_count = int (length cs), rs_chunk_snapshot_sha256 = digest\<rparr> = Inr s"
proof -
  have "pdf_object_ok p"
    using assms(1) by (auto simp: validate_pdf_object_def pdf_object_ok_def pdf_object_fields_ok_def norm_id_Some
        split: bind_splits)
  moreover have "pdf = p\<lparr>po_stored_at := po_stored_at pdf\<rparr>" using assms(2) by (simp add: same_pdf_object_def)
  then have "po_owner_id pdf = po_owner_id p" "po_document_id pdf = po_document_id p"
    "po_document_version_id pdf = po_document_version_id p" "po_object_key pdf = po_object_key p"
    "po_content_sha256 pdf = po_content_sha256 p"
    by (metis pdf_object.select_convs pdf_object.surjective pdf_object.update_convs(9))+
  ultimately show ?thesis using snapshot_record_valid [of p digest cs] assms(3,4) by simp
qed

lemma atomic_persist_runtime_snapshot:
  assumes "sha256_ok (fp cs)"
  shows "atomic_io (persist_runtime_snapshot fp pdf cs)"
  unfolding atomic_io_def
proof (intro allI impI)
  fix c r c'
  assume q: "quiescent c" and run: "persist_runtime_snapshot fp pdf cs c = (r, c')"
  let ?snapshot = "\<lparr>rs_owner_id = po_owner_id pdf, rs_document_id = po_document_id pdf,
     rs_document_version_id = po_document_version_id pdf,
     rs_pdf_object_key = po_object_key pdf, rs_pdf_sha256 = po_content_sha256 pdf,
     rs_chunk_count = int (length cs), rs_chunk_snapshot_sha256 = fp cs\<rparr>"
  obtain t c1 where rows: "persist_snapshot_rows pdf cs c = (t, c1)" by (cases "persist_snapshot_rows pdf cs c")
  then have same: "committed c1 = committed c"
    using uncommitted_persist_snapshot_rows unfolding uncommitted_def by blast
  show "quiescent c' \<and> (\<forall>e. r = Inl e \<longrightarrow> committed c' = committed c)"
  proof (cases t)
    case (Inl e)
    with run rows same q show ?thesis
      by (auto simp: persist_runtime_snapshot_def raise_io_def rollback_on_error_def bind_io_def rollback_def
          quiescent_def split: if_splits)
  next
    case (Inr u)
    show ?thesis
    proof (cases "cs = []")
      case True
      with run q show ?thesis by (auto simp: persist_runtime_snapshot_def raise_io_def)
    next
      case False
      obtain row p where "validate_pdf_object row = Inr p" "same_pdf_object p pdf"
        using rows Inr unfolding persist_snapshot_rows_def
        by (auto simp: io_Inr_simps split: option.splits if_splits)
      from persisted_pdf_valid [OF this assms False] obtain x where "validate_runtime_snapshot ?snapshot = Inr x" by blast
      with run rows same q Inr show ?thesis
        by (cases "fault_next c1")
          (auto simp: persist_runtime_snapshot_def raise_io_def rollback_on_error_def bind_io_def rollback_def
            quiescent_def commit_io_def lift_io_def Let_def split: if_splits)
    qed
  qed
qed

lemma atomic_purge: "atomic_io (purge_inactive_runtime_snapshot owner vid)"
  unfolding purge_inactive_runtime_snapshot_def by (intro atomic_transaction evolves_intros)

lemma read_only_load_online_chunks: "read_only (load_online_chunks owner vids)"
  unfolding load_online_chunks_def
  by (intro read_only_intros read_only_execute) (simp add: sql_load_online_chunks_def)

lemma read_only_get_inactive_pdf_object: "read_only (get_inactive_pdf_object owner vid)"
  unfolding get_inactive_pdf_object_def pdf_object_result_def
  by (intro read_only_intros read_only_execute) (simp add: sql_get_inactive_pdf_object_def)

lemma read_only_get_pdf_object: "read_only (get_pdf_object owner vid)"
  unfolding get_pdf_object_def pdf_object_result_def
  by (intro read_only_intros read_only_execute) (simp add: sql_get_pdf_object_def)

lemma along_persist_chunks: "moves_along db_evolves (persist_chunks n cs)"
  by (induction cs arbitrary: n)
    (auto intro!: evolution.along_intros intro: evolves_persist_chunk)

lemma along_persist_runtime_snapshot: "moves_along db_evolves (persist_runtime_snapshot fp pdf cs)"
  unfolding persist_runtime_snapshot_def persist_snapshot_rows_def
  by (intro evolution.along_intros along_persist_chunks)
    (auto intro: evolves_persist_pdf_object evolves_snapshot_reads)

lemma along_purge: "moves_along db_evolves (purge_inactive_runtime_snapshot owner vid)"
  unfolding purge_inactive_runtime_snapshot_def
  by (intro evolution.along_intros)
    (auto intro: evolves_purge_chunks evolves_purge_pdf_object evolves_snapshot_reads)


subsection \<open>What was persisted is what is served\<close>

definition activate :: "chunk \<Rightarrow> chunk" where
  "activate c = c\<lparr>ch_is_active := True\<rparr>"

definition snapshot_rows :: "string \<Rightarrow> string \<Rightarrow> db \<Rightarrow> chunk_row list" where
  "snapshot_rows owner vid d = sort_key cr_ordinal (filter (\<lambda>r. ch_tenant_id (cr_chunk r) = owner \<and>
     ch_version_id (cr_chunk r) = vid) (chunk_rows d))"

lemma validate_chunk_activate:
  "validate_chunk (c\<lparr>ch_is_active := b\<rparr>) = Inr c' \<Longrightarrow>
     validate_chunk (c\<lparr>ch_is_active := True\<rparr>) = Inr (activate c')"
proof -
  assume "validate_chunk (c\<lparr>ch_is_active := b\<rparr>) = Inr c'"
  then show ?thesis
    unfolding validate_chunk_def Let_def
    by (simp split: bind_splits if_splits)
      (auto simp: activate_def chunk_scalars_ok_def ranges_and_scopes_are_valid_def)
qed

lemma chunks_from_rows_activate:
  "chunks_from_rows False rs = Inr cs \<Longrightarrow> chunks_from_rows True rs = Inr (map activate cs)"
  by (induction rs arbitrary: cs)
    (auto simp: bind_res_Inr_iff chunk_from_row_def dest: validate_chunk_activate)

lemma persisted_rows:
  assumes "persist_runtime_snapshot fp pdf cs c = (Inr s, c')"
  shows "chunks_from_rows False (snapshot_rows (po_owner_id pdf) (po_document_version_id pdf)
      (committed c')) = Inr cs"
    and "cs \<noteq> []" and "distinct (map ch_chunk_id cs)"
    and "\<forall>c \<in> set cs. snapshot_chunk_matches pdf c"
    and "quiescent c'"
  using assms unfolding persist_runtime_snapshot_def persist_snapshot_rows_def
  by (auto simp: io_Inr_simps sql_get_chunk_snapshot_def snapshot_rows_def quiescent_def
      split: if_splits)

lemma sort_key_constant:
  assumes "\<forall>x \<in> set xs. k x = a"
  shows "sort_key k xs = xs"
  using assms by (induction xs) (auto simp: insort_is_Cons)

lemma online_rows_of_version:
  assumes inv: "db_inv d" and v: "v \<in> set (versions d)" "version_matches vid owner doc v"
    and "is_active v"
  shows "sql_load_online_chunks owner [vid] d = Inr (snapshot_rows owner vid d, d)"
proof -
  have online: "chunk_row_online d owner [vid] r \<longleftrightarrow>
      ch_tenant_id (cr_chunk r) = owner \<and> ch_version_id (cr_chunk r) = vid"
    if r: "r \<in> set (chunk_rows d)" for r
  proof
    assume ids: "ch_tenant_id (cr_chunk r) = owner \<and> ch_version_id (cr_chunk r) = vid"
    from inv r have "version_fk d (ch_version_id (cr_chunk r)) (ch_tenant_id (cr_chunk r))
        (ch_document_id (cr_chunk r))" by (simp add: db_inv_def snapshots_inv_def)
    then obtain w where w: "w \<in> set (versions d)" "version_matches (ch_version_id (cr_chunk r))
        (ch_tenant_id (cr_chunk r)) (ch_document_id (cr_chunk r)) w"
      by (auto simp: version_fk_def)
    with ids v have "w = v"
      by (intro keyed_unique [OF versions_invD(1) [OF inv]]) (auto simp: version_matches_def)
    with w ids \<open>is_active v\<close> show "chunk_row_online d owner [vid] r"
      by (auto simp: chunk_row_online_def is_active_def)
  qed (simp add: chunk_row_online_def)
  have "filter (chunk_row_online d owner [vid]) (chunk_rows d) =
      filter (\<lambda>r. ch_tenant_id (cr_chunk r) = owner \<and> ch_version_id (cr_chunk r) = vid)
        (chunk_rows d)"
    using online by (rule filter_cong [OF refl])
  moreover have "sort_key (\<lambda>r. ch_version_id (cr_chunk r)) (snapshot_rows owner vid d) =
      snapshot_rows owner vid d"
    by (rule sort_key_constant [where a = vid]) (simp add: snapshot_rows_def)
  ultimately show ?thesis by (simp add: sql_load_online_chunks_def snapshot_rows_def)
qed

lemma served_rows:
  assumes rows: "chunks_from_rows False (snapshot_rows (po_owner_id pdf) (po_document_version_id pdf)
      (working c2)) = Inr cs"
    and cs: "cs \<noteq> []" "distinct (map ch_chunk_id cs)" "\<forall>c \<in> set cs. snapshot_chunk_matches pdf c"
    and pdf: "pdf_object_ok pdf"
    and inv: "db_inv (working c2)" and v: "v \<in> set (versions (working c2))"
      "version_matches (po_document_version_id pdf) (po_owner_id pdf) (po_document_id pdf) v"
      "is_active v"
    and up: "faults c2 = []"
  shows "load_online_chunks (po_owner_id pdf) [po_document_version_id pdf] c2 =
    (Inr (map activate cs), c2\<lparr>committed := working c2\<rparr>)"
proof -
  note read = chunks_from_rows_activate [OF rows]
  have ids: "set (map ch_version_id (map activate cs)) = {po_document_version_id pdf}"
    using cs(1,3) by (cases cs) (auto simp: snapshot_chunk_matches_def activate_def)
  have dist: "distinct (map ch_chunk_id (map activate cs))"
    using cs(2) by (simp add: activate_def comp_def)
  have "load_online_chunks (po_owner_id pdf) [po_document_version_id pdf] c2 =
      transaction True (bind_io (execute (sql_load_online_chunks (po_owner_id pdf)
        [po_document_version_id pdf])) (\<lambda>rows. bind_io (lift_io (chunks_from_rows True rows))
        (\<lambda>chunks. if set (map ch_version_id chunks) \<noteq> set [po_document_version_id pdf]
          then raise_io IdentityConflictError
          else if \<not> distinct (map ch_chunk_id chunks) then raise_io PostgresFactSourceError
          else return_io chunks))) c2"
    using pdf by (simp add: load_online_chunks_def pdf_object_ok_def)
  also have "\<dots> = (Inr (map activate cs), c2\<lparr>committed := working c2\<rparr>)"
    using ids dist up
    by (simp add: image_image comp_def transaction_def rollback_on_error_def bind_io_def
        execute_def fault_next_def online_rows_of_version [OF inv v] lift_io_def read return_io_def when_io_def commit_io_def)
  finally show ?thesis .
qed

text \<open>C38. What was persisted is what is served: once \<open>persist_runtime_snapshot\<close> has returned, and
  as long as the chunk rows are those it committed, \<open>load_online_chunks\<close> for the version, when it
  is online, returns exactly the persisted chunks, in their order and marked active; the rows of no
  other version or owner are mixed in.\<close>

theorem persisted_snapshot_is_served:
  assumes run: "persist_runtime_snapshot fp pdf cs c = (Inr s, c1)" and pdf: "pdf_object_ok pdf"
    and rows: "chunk_rows (working c2) = chunk_rows (committed c1)"
    and inv: "db_inv (working c2)" and v: "v \<in> set (versions (working c2))"
      "version_matches (po_document_version_id pdf) (po_owner_id pdf) (po_document_id pdf) v"
      "is_active v"
    and up: "faults c2 = []"
  shows "load_online_chunks (po_owner_id pdf) [po_document_version_id pdf] c2 =
    (Inr (map activate cs), c2\<lparr>committed := working c2\<rparr>)"
proof -
  note p = persisted_rows [OF run]
  have "snapshot_rows (po_owner_id pdf) (po_document_version_id pdf) (working c2) =
      snapshot_rows (po_owner_id pdf) (po_document_version_id pdf) (committed c1)"
    using rows by (simp add: snapshot_rows_def)
  with p(1) have "chunks_from_rows False (snapshot_rows (po_owner_id pdf) (po_document_version_id pdf)
      (working c2)) = Inr cs" by simp
  from served_rows [OF this p(2-4) pdf inv v up] show ?thesis .
qed

theorem persisted_snapshot_is_served_witness:
  "\<exists>c2. load_online_chunks ''alice'' [''v_ready''] c2 =
    (Inr (map activate [sample_chunk ''chunk1'', sample_chunk ''chunk2'']), c2)"
proof -
  let ?fp = "\<lambda>_. sample_hash CHR ''f''"
  let ?cs = "[sample_chunk ''chunk1'', sample_chunk ''chunk2'']"
  let ?run = "persist_runtime_snapshot ?fp sample_pdf ?cs (connected sample_db)"
  have "case fst ?run of Inl _ \<Rightarrow> False | Inr _ \<Rightarrow> True" by code_simp
  then obtain s where "fst ?run = Inr s" by (cases "fst ?run") auto
  then have run: "?run = (Inr s, snd ?run)" by (metis prod.collapse)
  let ?c2 = "connected (committed (snd ?run))"
  have facts: "pdf_object_ok sample_pdf" "db_inv (working ?c2)"
    "sample_ready \<in> set (versions (working ?c2))" "is_active sample_ready"
    "version_matches (po_document_version_id sample_pdf) (po_owner_id sample_pdf)
      (po_document_id sample_pdf) sample_ready" by code_simp+
  have ids: "po_owner_id sample_pdf = ''alice''" "po_document_version_id sample_pdf = ''v_ready''"
    by code_simp+
  have "?c2\<lparr>committed := working ?c2\<rparr> = ?c2" by (simp add: connected_def)
  with persisted_snapshot_is_served [OF run facts(1) _ facts(2,3,5,4), of ] ids
  show ?thesis by (intro exI [of _ ?c2]) simp
qed

subsection \<open>Growth\<close>

text \<open>The rows of chunks in order, from an ordinal on.\<close>

fun ordinal_rows :: "int \<Rightarrow> chunk list \<Rightarrow> chunk_row list" where
  "ordinal_rows n [] = []"
| "ordinal_rows n (b # bs) = \<lparr>cr_ordinal = n, cr_chunk = b\<rparr> # ordinal_rows (n + 1) bs"

lemma ordinal_rows_append: "ordinal_rows n (as @ bs) = ordinal_rows n as @ ordinal_rows (n + int (length as)) bs"
  by (induction as arbitrary: n) (simp_all add: add.assoc)

lemma ordinal_rows_member:
  "r \<in> set (ordinal_rows n bs) \<Longrightarrow> cr_chunk r \<in> set bs \<and> n \<le> cr_ordinal r \<and> cr_ordinal r < n + int (length bs)"
  by (induction bs arbitrary: n) fastforce+

lemma ordinal_rows_chunks: "map cr_chunk (ordinal_rows n bs) = bs"
  by (induction bs arbitrary: n) simp_all

lemma ordinal_rows_sorted: "sorted (map cr_ordinal (ordinal_rows n bs))" "distinct (map cr_ordinal (ordinal_rows n bs))"
  by (induction bs arbitrary: n) (fastforce dest: ordinal_rows_member)+

lemma chunks_from_ordinal_rows:
  "\<forall>b \<in> set bs. chunk_ok b \<and> \<not> ch_is_active b \<Longrightarrow> chunks_from_rows False (ordinal_rows n bs) = Inr bs"
proof (induction bs arbitrary: n)
  case (Cons b bs)
  have same: "b\<lparr>ch_is_active := False\<rparr> = b" using Cons.prems by (cases b) simp
  have "validate_chunk b = Inr b" using Cons.prems by (simp add: validate_chunk_ok)
  then have "validate_chunk (b\<lparr>ch_is_active := False\<rparr>) = Inr b" by (simp only: same)
  with Cons show ?case by (simp add: chunk_from_row_def bind_res_def)
qed simp

lemma chunk_ok_check:
  assumes "chunk_ok b" and "\<not> ch_is_active b" and "0 \<le> n"
  shows "chunk_row_check \<lparr>cr_ordinal = n, cr_chunk = b\<rparr>"
  using assms by (simp add: chunk_ok_def chunk_row_check_def chunk_scalars_ok_def ranges_and_scopes_are_valid_def)

text \<open>A chunk whose identifier is stored is skipped; new ones are appended.\<close>

lemma persist_chunks_stored:
  assumes "faults c = []" and "0 \<le> n" and "\<forall>b \<in> set bs. chunk_ok b \<and> \<not> ch_is_active b"
    and "\<forall>b \<in> set bs. \<exists>q \<in> set (chunk_rows (working c)). ch_chunk_id (cr_chunk q) = ch_chunk_id b"
  shows "persist_chunks n bs c = (Inr (), c)"
  using assms(2-4)
proof (induction bs arbitrary: n)
  case Nil
  then show ?case by (simp add: return_io_def)
next
  case (Cons b bs)
  have "chunk_row_check \<lparr>cr_ordinal = n, cr_chunk = b\<rparr>" using Cons.prems by (simp add: chunk_ok_check)
  moreover have "\<exists>q \<in> set (chunk_rows (working c)). ch_chunk_id (cr_chunk q) = ch_chunk_id b"
    using Cons.prems(3) by simp
  ultimately have "sql_persist_chunk \<lparr>cr_ordinal = n, cr_chunk = b\<rparr> (working c) = Inr ((), working c)"
    by (simp add: sql_persist_chunk_def)
  then have "execute (sql_persist_chunk \<lparr>cr_ordinal = n, cr_chunk = b\<rparr>) c = (Inr (), c)"
    using assms(1) by (simp add: execute_def fault_next_def)
  with Cons show ?case by (simp add: bind_io_def)
qed

lemma persist_chunks_new:
  assumes "faults c = []" and "0 \<le> n" and "\<forall>b \<in> set bs. chunk_ok b \<and> \<not> ch_is_active b"
    and "distinct (map ch_chunk_id bs)"
    and "\<forall>b \<in> set bs. \<forall>q \<in> set (chunk_rows (working c)). ch_chunk_id (cr_chunk q) \<noteq> ch_chunk_id b"
    and "\<forall>b \<in> set bs. \<forall>q \<in> set (chunk_rows (working c)). ch_version_id (cr_chunk q) = ch_version_id b \<longrightarrow> cr_ordinal q < n"
    and "\<forall>b \<in> set bs. version_fk (working c) (ch_version_id b) (ch_tenant_id b) (ch_document_id b)"
  shows "persist_chunks n bs c
    = (Inr (), c\<lparr>working := (working c)\<lparr>chunk_rows := chunk_rows (working c) @ ordinal_rows n bs\<rparr>\<rparr>)"
  using assms
proof (induction bs arbitrary: n c)
  case Nil
  then show ?case by (simp add: return_io_def)
next
  case (Cons b bs)
  let ?r = "\<lparr>cr_ordinal = n, cr_chunk = b\<rparr>"
  let ?c = "c\<lparr>working := (working c)\<lparr>chunk_rows := chunk_rows (working c) @ [?r]\<rparr>\<rparr>"
  have "chunk_row_check ?r" using Cons.prems by (simp add: chunk_ok_check)
  then have "sql_persist_chunk ?r (working c) = Inr ((), (working c)\<lparr>chunk_rows := chunk_rows (working c) @ [?r]\<rparr>)"
    using Cons.prems(5-7) by (fastforce simp: sql_persist_chunk_def)
  then have first: "execute (sql_persist_chunk ?r) c = (Inr (), ?c)"
    using Cons.prems(1) by (simp add: execute_def fault_next_def)
  have "version_fk (working ?c) vid owner doc = version_fk (working c) vid owner doc" for vid owner doc
    by (simp add: version_fk_def)
  then have "persist_chunks (n + 1) bs ?c
      = (Inr (), ?c\<lparr>working := (working ?c)\<lparr>chunk_rows := chunk_rows (working ?c) @ ordinal_rows (n + 1) bs\<rparr>\<rparr>)"
    using Cons.prems by (intro Cons.IH) fastforce+
  with first show ?case by (simp add: bind_io_def)
qed

lemma persist_chunks_append:
  "persist_chunks n (as @ bs) = bind_io (persist_chunks n as) (\<lambda>_. persist_chunks (n + int (length as)) bs)"
  by (induction as arbitrary: n) (rule ext, simp add: bind_io_def return_io_def add.assoc split: prod.splits sum.splits)+

text \<open>The rows of the version after the growth.\<close>

lemma snapshot_rows_grown:
  assumes "snapshot_rows owner vid d = ordinal_rows 0 cs"
    and "\<forall>b \<in> set bs. ch_tenant_id b = owner \<and> ch_version_id b = vid"
  shows "snapshot_rows owner vid (d\<lparr>chunk_rows := chunk_rows d @ ordinal_rows (int (length cs)) bs\<rparr>) = ordinal_rows 0 (cs @ bs)"
proof -
  let ?P = "\<lambda>r. ch_tenant_id (cr_chunk r) = owner \<and> ch_version_id (cr_chunk r) = vid"
  have new: "filter ?P (ordinal_rows (int (length cs)) bs) = ordinal_rows (int (length cs)) bs"
    using assms(2) by (intro filter_True) (fastforce dest: ordinal_rows_member)
  have "mset (filter ?P (chunk_rows d)) = mset (ordinal_rows 0 cs)"
    using assms(1) by (metis mset_sort snapshot_rows_def)
  then have m: "mset (filter ?P (chunk_rows d) @ ordinal_rows (int (length cs)) bs) = mset (ordinal_rows 0 (cs @ bs))"
    by (simp add: ordinal_rows_append)
  have "inj_on cr_ordinal (set (ordinal_rows 0 (cs @ bs)))"
    using ordinal_rows_sorted(2) by (simp add: distinct_map)
  then have "inj_on cr_ordinal (set (filter ?P (chunk_rows d) @ ordinal_rows (int (length cs)) bs))"
    using mset_eq_setD [OF m] by simp
  from sort_key_inj_key_eq [OF m this ordinal_rows_sorted(1)] show ?thesis
    by (simp add: snapshot_rows_def new)
qed

lemma stored_pdf_found:
  assumes "db_inv d" and "pdf \<in> set (pdf_objects d)"
  shows "find (\<lambda>p. po_owner_id p = po_owner_id pdf \<and> po_document_version_id p = po_document_version_id pdf)
    (pdf_objects d) = Some pdf" and "pdf_object_ok pdf"
    and "version_fk d (po_document_version_id pdf) (po_owner_id pdf) (po_document_id pdf)"
proof -
  have inv: "keyed po_document_version_id (pdf_objects d)" "\<forall>p \<in> set (pdf_objects d). pdf_object_ok p \<and>
      version_fk d (po_document_version_id p) (po_owner_id p) (po_document_id p)"
    using assms(1) by (simp_all add: db_inv_def snapshots_inv_def)
  with assms(2) show "pdf_object_ok pdf"
    "version_fk d (po_document_version_id pdf) (po_owner_id pdf) (po_document_id pdf)" by blast+
  let ?P = "\<lambda>p. po_owner_id p = po_owner_id pdf \<and> po_document_version_id p = po_document_version_id pdf"
  obtain q where q: "find ?P (pdf_objects d) = Some q"
    using assms(2) by (cases "find ?P (pdf_objects d)") (auto simp: find_None_iff)
  then have "q \<in> set (pdf_objects d)" "?P q" by (auto dest: find_SomeD)
  with keyed_unique [OF inv(1) _ assms(2)] have "q = pdf" by simp
  with q show "find ?P (pdf_objects d) = Some pdf" by simp
qed

lemma validate_runtime_snapshot_count: "validate_runtime_snapshot x = Inr s \<Longrightarrow> rs_chunk_count s = rs_chunk_count x"
  by (auto simp: validate_runtime_snapshot_def split: bind_splits)

text \<open>The stored rows of a version hold its chunks; none of its ordinals is beyond them.\<close>

lemma stored_snapshot_rows:
  assumes "db_inv d" and "pdf \<in> set (pdf_objects d)"
    and "snapshot_rows (po_owner_id pdf) (po_document_version_id pdf) d = ordinal_rows 0 cs"
  shows "\<forall>b \<in> set cs. \<exists>q \<in> set (chunk_rows d). ch_chunk_id (cr_chunk q) = ch_chunk_id b"
    and "\<forall>q \<in> set (chunk_rows d). ch_version_id (cr_chunk q) = po_document_version_id pdf \<longrightarrow>
      cr_ordinal q < int (length cs)"
proof -
  let ?P = "\<lambda>r. ch_tenant_id (cr_chunk r) = po_owner_id pdf \<and> ch_version_id (cr_chunk r) = po_document_version_id pdf"
  have stored: "set (filter ?P (chunk_rows d)) = set (ordinal_rows 0 cs)"
    using assms(3) unfolding snapshot_rows_def by (metis set_sort)
  show "\<forall>b \<in> set cs. \<exists>q \<in> set (chunk_rows d). ch_chunk_id (cr_chunk q) = ch_chunk_id b"
  proof
    fix b assume "b \<in> set cs"
    then have "b \<in> cr_chunk ` set (ordinal_rows 0 cs)" using ordinal_rows_chunks [of 0 cs] by (metis set_map)
    then obtain q where "q \<in> set (filter ?P (chunk_rows d))" "cr_chunk q = b" unfolding stored by blast
    then show "\<exists>q \<in> set (chunk_rows d). ch_chunk_id (cr_chunk q) = ch_chunk_id b" by auto
  qed
  show "\<forall>q \<in> set (chunk_rows d). ch_version_id (cr_chunk q) = po_document_version_id pdf \<longrightarrow>
      cr_ordinal q < int (length cs)"
  proof (intro ballI impI)
    fix q assume q: "q \<in> set (chunk_rows d)" "ch_version_id (cr_chunk q) = po_document_version_id pdf"
    have fk: "version_fk d (ch_version_id (cr_chunk q)) (ch_tenant_id (cr_chunk q)) (ch_document_id (cr_chunk q))"
      using assms(1) q(1) by (simp add: db_inv_def snapshots_inv_def)
    obtain v w where v: "v \<in> set (versions d)" "version_matches (ch_version_id (cr_chunk q))
        (ch_tenant_id (cr_chunk q)) (ch_document_id (cr_chunk q)) v"
      and w: "w \<in> set (versions d)" "version_matches (po_document_version_id pdf) (po_owner_id pdf) (po_document_id pdf) w"
      using fk stored_pdf_found(3) [OF assms(1,2)] unfolding version_fk_def by blast
    have "v = w" using v w q(2)
      by (intro keyed_unique [OF versions_invD(1) [OF assms(1)]]) (auto simp: version_matches_def)
    with v w q have "q \<in> set (filter ?P (chunk_rows d))" by (auto simp: version_matches_def)
    then show "cr_ordinal q < int (length cs)" unfolding stored using ordinal_rows_member [of q 0 cs] by simp
  qed
qed

text \<open>C40. A stored snapshot is not closed. Let the PDF registration of a version be stored, its chunk rows
  being any list of chunks with the ordinals from 0, and let the driver not fail. Calling
  \<open>persist_runtime_snapshot\<close> again with this PDF and the stored chunks followed by any new ones, valid
  chunks of the version whose identifiers are unused, succeeds: exactly the rows of the new chunks are
  added, the record counts them all, and nothing else changes, whatever the state of the version. If the
  version is READY and online, the next read serves the larger set.\<close>

theorem snapshot_can_grow:
  assumes "db_inv d" and "pdf \<in> set (pdf_objects d)"
    and "snapshot_rows (po_owner_id pdf) (po_document_version_id pdf) d = ordinal_rows 0 cs"
    and "new \<noteq> []" and "\<forall>b \<in> set (cs @ new). chunk_ok b \<and> snapshot_chunk_matches pdf b"
    and "distinct (map ch_chunk_id (cs @ new))"
    and "\<forall>b \<in> set new. \<forall>r \<in> set (chunk_rows d). ch_chunk_id (cr_chunk r) \<noteq> ch_chunk_id b"
    and "sha256_ok (fp (cs @ new))"
  shows "\<exists>s e. persist_runtime_snapshot fp pdf (cs @ new) (connected d) = (Inr s, connected e)
    \<and> e = d\<lparr>chunk_rows := chunk_rows d @ ordinal_rows (int (length cs)) new\<rparr>
    \<and> rs_chunk_count s = int (length (cs @ new))
    \<and> (\<forall>v \<in> set (versions d). is_active v \<and>
        version_matches (po_document_version_id pdf) (po_owner_id pdf) (po_document_id pdf) v \<longrightarrow>
        load_online_chunks (po_owner_id pdf) [po_document_version_id pdf] (connected e)
          = (Inr (map activate (cs @ new)), connected e))"
proof -
  let ?owner = "po_owner_id pdf" and ?vid = "po_document_version_id pdf"
  let ?e = "d\<lparr>chunk_rows := chunk_rows d @ ordinal_rows (int (length cs)) new\<rparr>"
  note pdf = stored_pdf_found [OF assms(1,2)]
  have ok: "\<forall>b \<in> set (cs @ new). chunk_ok b \<and> \<not> ch_is_active b"
    and ids: "\<forall>b \<in> set (cs @ new). ch_tenant_id b = ?owner \<and> ch_document_id b = po_document_id pdf \<and> ch_version_id b = ?vid"
    using assms(5) by (auto simp: snapshot_chunk_matches_def)
  note stored = stored_snapshot_rows [OF assms(1-3)]
  have "persist_chunks 0 cs (connected d) = (Inr (), connected d)"
    using ok stored(1) by (intro persist_chunks_stored) simp_all
  moreover have "persist_chunks (int (length cs)) new (connected d) = (Inr (), (connected d)\<lparr>working := ?e\<rparr>)"
    using persist_chunks_new [of "connected d" "int (length cs)" new] assms(6,7) ok ids stored(2) pdf(3) by simp
  ultimately have chunks: "persist_chunks 0 (cs @ new) (connected d) = (Inr (), (connected d)\<lparr>working := ?e\<rparr>)"
    by (simp add: persist_chunks_append bind_io_def)
  have grown: "snapshot_rows ?owner ?vid ?e = ordinal_rows 0 (cs @ new)"
    using ids by (intro snapshot_rows_grown assms(3)) simp
  have read: "chunks_from_rows False (snapshot_rows ?owner ?vid ?e) = Inr (cs @ new)"
    unfolding grown by (rule chunks_from_ordinal_rows [OF ok])
  have check: "pdf_object_check pdf"
    using pdf(2) by (simp add: pdf_object_ok_def pdf_object_fields_ok_def pdf_object_check_def)
  have rows: "persist_snapshot_rows pdf (cs @ new) (connected d) = (Inr (), (connected d)\<lparr>working := ?e\<rparr>)"
    using check assms(2) chunks read
    by (auto simp: persist_snapshot_rows_def bind_io_def execute_def fault_next_def sql_persist_pdf_object_def
        sql_get_pdf_object_def pdf(1) lift_io_def validate_pdf_object_ok [OF pdf(2)] same_pdf_object_def
        return_io_def sql_get_chunk_snapshot_def snapshot_rows_def connected_def)
  obtain s where s: "validate_runtime_snapshot \<lparr>rs_owner_id = ?owner, rs_document_id = po_document_id pdf,
      rs_document_version_id = ?vid, rs_pdf_object_key = po_object_key pdf, rs_pdf_sha256 = po_content_sha256 pdf,
      rs_chunk_count = int (length (cs @ new)), rs_chunk_snapshot_sha256 = fp (cs @ new)\<rparr> = Inr s"
    using snapshot_record_valid [OF pdf(2) assms(8), of "cs @ new"] assms(4) by blast
  have run: "persist_runtime_snapshot fp pdf (cs @ new) (connected d) = (Inr s, connected ?e)"
    using assms(4,5,6) rows s
    by (auto simp: persist_runtime_snapshot_def rollback_on_error_def bind_io_def commit_io_def fault_next_def
        lift_io_def connected_def)
  have "db_evolves d ?e"
    using evolution.along_quiescent [OF along_persist_runtime_snapshot _ run] by simp
  then have inv: "db_inv (working (connected ?e))" using assms(1) by (simp add: db_evolves_def)
  note p = persisted_rows [OF run]
  have "load_online_chunks ?owner [?vid] (connected ?e) = (Inr (map activate (cs @ new)), connected ?e)"
    if "v \<in> set (versions d)" "version_matches ?vid ?owner (po_document_id pdf) v" "is_active v" for v
    using served_rows [OF _ p(2-4) pdf(2) inv, of v] p(1) that by (simp add: connected_def)
  moreover have "rs_chunk_count s = int (length (cs @ new))" using validate_runtime_snapshot_count [OF s] by simp
  ultimately show ?thesis using run by blast
qed

text \<open>A READY version with one chunk gains another.\<close>

theorem snapshot_can_grow_witness:
  "\<exists>s e. persist_runtime_snapshot (\<lambda>_. sample_hash CHR ''f'') sample_pdf
       [sample_chunk ''chunk1'', sample_chunk ''chunk2''] (connected sample_stored) = (Inr s, connected e) \<and>
     rs_chunk_count s = 2 \<and>
     load_online_chunks ''alice'' [''v_ready''] (connected e) =
       (Inr [activate (sample_chunk ''chunk1''), activate (sample_chunk ''chunk2'')], connected e)"
proof -
  have facts: "db_inv sample_stored" "sample_pdf \<in> set (pdf_objects sample_stored)"
    "snapshot_rows (po_owner_id sample_pdf) (po_document_version_id sample_pdf) sample_stored =
      ordinal_rows 0 [sample_chunk ''chunk1'']"
    "\<forall>b \<in> set ([sample_chunk ''chunk1''] @ [sample_chunk ''chunk2'']). chunk_ok b \<and> snapshot_chunk_matches sample_pdf b"
    "distinct (map ch_chunk_id ([sample_chunk ''chunk1''] @ [sample_chunk ''chunk2'']))"
    "\<forall>b \<in> set [sample_chunk ''chunk2'']. \<forall>r \<in> set (chunk_rows sample_stored). ch_chunk_id (cr_chunk r) \<noteq> ch_chunk_id b"
    "sha256_ok (sample_hash CHR ''f'')" "sample_ready \<in> set (versions sample_stored)" "is_active sample_ready"
    "version_matches (po_document_version_id sample_pdf) (po_owner_id sample_pdf) (po_document_id sample_pdf) sample_ready"
    "po_owner_id sample_pdf = ''alice''" "po_document_version_id sample_pdf = ''v_ready''" by code_simp+
  from snapshot_can_grow [OF facts(1-3) _ facts(4-6), of "\<lambda>_. sample_hash CHR ''f''"] facts(7-12)
  show ?thesis by fastforce
qed

end
