(* ===== verification/CleanupQueue.thy ===== *)
theory CleanupQueue
  imports SampleFacts
begin

text \<open>
  The cleanup queue of \<open>PostgresFactRepository\<close> (\<^verbatim>\<open>backend/storage/postgres.py\<close>): a job is
  enqueued for an INACTIVE version, claimed under a lease, then completed or failed by whoever
  holds the lease; an expired lease is recovered by the next claim.
\<close>

subsection \<open>Operations\<close>

definition pending_cleanup ::
  "int \<Rightarrow> string \<Rightarrow> string \<Rightarrow> string \<Rightarrow> string \<Rightarrow> string \<Rightarrow> int \<Rightarrow> cleanup_job" where
  "pending_cleanup now cleanup_id backend owner_id document_id document_version_id max_attempts =
     \<lparr>cj_cleanup_id = cleanup_id, cj_backend = backend, cj_owner_id = owner_id,
      cj_document_id = document_id, cj_document_version_id = document_version_id,
      cj_status = CL_PENDING, cj_attempt_count = 0, cj_max_attempts = max_attempts,
      cj_next_attempt_at = Aware now, cj_lease_token = None, cj_lease_expires_at = None,
      cj_failure_code = None, cj_created_at = Aware now, cj_updated_at = Aware now,
      cj_completed_at = None\<rparr>"

definition enqueue_cleanup ::
  "int \<Rightarrow> string \<Rightarrow> string \<Rightarrow> string \<Rightarrow> string \<Rightarrow> string \<Rightarrow> int \<Rightarrow> cleanup_job io" where
  "enqueue_cleanup now cleanup_id backend owner_id document_id document_version_id max_attempts =
     (case validate_cleanup (pending_cleanup now cleanup_id backend owner_id document_id
         document_version_id max_attempts) of
        Inl e \<Rightarrow> raise_io e
      | Inr candidate \<Rightarrow> transaction True (
          bind_io (execute (sql_enqueue_cleanup candidate)) (\<lambda>row.
          case row of
            None \<Rightarrow> raise_io IdentityConflictError
          | Some row \<Rightarrow> bind_io (lift_io (validate_cleanup row)) (\<lambda>job.
              if cj_backend job \<noteq> cj_backend candidate \<or>
                 cj_owner_id job \<noteq> cj_owner_id candidate \<or>
                 cj_document_id job \<noteq> cj_document_id candidate \<or>
                 cj_document_version_id job \<noteq> cj_document_version_id candidate \<or>
                 cj_max_attempts job \<noteq> cj_max_attempts candidate
              then raise_io IdentityConflictError
              else return_io job))))"

definition claimed_result :: "cleanup_job option \<Rightarrow> cleanup_job option io" where
  "claimed_result row = (case row of None \<Rightarrow> return_io None
     | Some j \<Rightarrow> bind_io (lift_io (validate_cleanup j)) (\<lambda>j. return_io (Some j)))"

text \<open>Times are in microseconds.\<close>

definition claim_cleanup :: "int \<Rightarrow> string \<Rightarrow> int \<Rightarrow> cleanup_job option io" where
  "claim_cleanup now lease_token lease_seconds =
     (if lease_seconds < 1 then raise_io ValueError
      else rollback_on_error (
        bind_io (execute (sql_recover_expired_leases now)) (\<lambda>_.
        bind_io (execute (sql_claim_due_cleanup now lease_token (now + lease_seconds * 1000000)))
          (\<lambda>row.
        bind_io commit_io (\<lambda>_. claimed_result row)))))"

definition complete_cleanup :: "int \<Rightarrow> string \<Rightarrow> string \<Rightarrow> cleanup_job io" where
  "complete_cleanup now cleanup_id lease_token =
     transaction True (
       bind_io (execute (sql_complete_cleanup cleanup_id lease_token now)) (\<lambda>row.
       case row of
         None \<Rightarrow> raise_io IdentityConflictError
       | Some row \<Rightarrow> lift_io (validate_cleanup row)))"

definition record_cleanup_failure ::
  "int \<Rightarrow> string \<Rightarrow> string \<Rightarrow> string \<Rightarrow> timestamp \<Rightarrow> cleanup_job io" where
  "record_cleanup_failure now cleanup_id lease_token failure_code retry_at =
     (if \<not> contract_id_ok failure_code then raise_io ValueError
      else if \<not> aware retry_at then raise_io ValueError
      else transaction True (
        bind_io (execute (sql_record_cleanup_failure cleanup_id lease_token failure_code retry_at now))
          (\<lambda>row.
        case row of
          None \<Rightarrow> raise_io IdentityConflictError
        | Some row \<Rightarrow> lift_io (validate_cleanup row))))"

subsection \<open>Every method keeps the integrity and is atomic\<close>

lemma atomic_enqueue_cleanup: "atomic_io (enqueue_cleanup now cid b owner doc vid k)"
  unfolding enqueue_cleanup_def
  by (intro atomic_case_sum atomic_raise atomic_transaction evolves_intros)

lemma atomic_complete_cleanup: "atomic_io (complete_cleanup now cid token)"
  unfolding complete_cleanup_def by (intro atomic_transaction evolves_intros)

lemma atomic_record_cleanup_failure: "atomic_io (record_cleanup_failure now cid token code at)"
  unfolding record_cleanup_failure_def
  by (intro atomic_if atomic_raise atomic_transaction evolves_intros)

lemma along_enqueue_cleanup:
  "moves_along db_evolves (enqueue_cleanup now cid b owner doc vid k)"
  unfolding enqueue_cleanup_def
  by (intro evolution.along_intros) (auto intro: evolves_enqueue_cleanup dest: validate_cleanup_InrD)

lemma along_claim_cleanup: "moves_along db_evolves (claim_cleanup now token secs)"
  unfolding claim_cleanup_def claimed_result_def
  by (intro evolution.along_intros)
    (auto intro: evolves_recover_expired_leases evolves_claim_due_cleanup)

lemma along_complete_cleanup: "moves_along db_evolves (complete_cleanup now cid token)"
  unfolding complete_cleanup_def
  by (intro evolution.along_intros) (auto intro: evolves_complete_cleanup)

lemma along_record_cleanup_failure:
  "moves_along db_evolves (record_cleanup_failure now cid token code at)"
  unfolding record_cleanup_failure_def
  by (intro evolution.along_intros) (auto intro: evolves_record_cleanup_failure)

subsection \<open>The state machine of a job\<close>

inductive_cases cleanup_stepE: "cleanup_step j k"

lemma cleanup_step_identity:
  "cleanup_step j k \<Longrightarrow> cj_cleanup_id k = cj_cleanup_id j \<and> cleanup_identity k = cleanup_identity j \<and>
     cj_max_attempts k = cj_max_attempts j"
  by (erule cleanup_stepE) (simp_all add: cleanup_identity_def)

lemma cleanup_step_attempts: "cleanup_step j k \<Longrightarrow> cj_attempt_count j \<le> cj_attempt_count k"
  by (erule cleanup_stepE) simp_all

lemma cleanup_steps_identity:
  "cleanup_step\<^sup>*\<^sup>* j k \<Longrightarrow> cj_cleanup_id k = cj_cleanup_id j \<and> cleanup_identity k = cleanup_identity j \<and>
     cj_max_attempts k = cj_max_attempts j"
  by (induction rule: rtranclp_induct) (auto dest: cleanup_step_identity)

lemma cleanup_steps_attempts: "cleanup_step\<^sup>*\<^sup>* j k \<Longrightarrow> cj_attempt_count j \<le> cj_attempt_count k"
  by (induction rule: rtranclp_induct) (auto dest: cleanup_step_attempts)

lemma settled_no_step: "cj_status j \<in> {CL_SUCCEEDED, CL_FAILED} \<Longrightarrow> \<not> cleanup_step j k"
  by (auto elim: cleanup_stepE)

lemma settled_steps:
  "cleanup_step\<^sup>*\<^sup>* j k \<Longrightarrow> cj_status j \<in> {CL_SUCCEEDED, CL_FAILED} \<Longrightarrow> k = j"
  by (induction rule: rtranclp_induct) (use settled_no_step in blast)+

text \<open>
  A job never makes more attempts than \<open>max_attempts\<close>, and the budget of steps left shrinks
  with every step: the queue cannot keep one job alive forever.
\<close>

definition steps_left :: "cleanup_job \<Rightarrow> nat" where
  "steps_left j = (if cj_status j \<in> {CL_SUCCEEDED, CL_FAILED} then 0
     else nat (2 * (cj_max_attempts j - cj_attempt_count j)) +
       (if cj_status j = CL_RUNNING then 1 else 0))"

lemma cleanup_attempts_bounded: "cleanup_ok j \<Longrightarrow> cj_attempt_count j \<le> cj_max_attempts j"
  by (simp add: cleanup_ok_def cleanup_state_is_replay_safe_def Let_def split: if_splits)

lemma cleanup_step_progress:
  assumes "cleanup_step j k" and "cleanup_ok j" and "cleanup_ok k"
  shows "steps_left k < steps_left j"
proof -
  have "cj_attempt_count j \<le> cj_max_attempts j" "cj_attempt_count k \<le> cj_max_attempts k"
    using assms(2,3) by (simp_all only: cleanup_attempts_bounded)
  with assms(1) show ?thesis by (cases rule: cleanup_step.cases) (auto simp: steps_left_def)
qed


subsection \<open>Claiming\<close>

text \<open>The state of the queue the claim sees: the expired leases are back in the queue.\<close>

definition recovered :: "int \<Rightarrow> db \<Rightarrow> db" where
  "recovered now d = d\<lparr>cleanups := update_rows (lease_expired now)
     (fail_attempt now (Aware now) ''CLEANUP_LEASE_EXPIRED'') (cleanups d)\<rparr>"

definition queue_order :: "cleanup_job \<Rightarrow> cleanup_job \<Rightarrow> bool" where
  "queue_order = by_key (\<lambda>j. instant (cj_next_attempt_at j))
     (by_key (\<lambda>j. instant (cj_created_at j)) (\<lambda>j k. cj_cleanup_id j \<le> cj_cleanup_id k))"

lemma due_in_order_sorted: "sorted_wrt queue_order (due_in_order now d)"
proof -
  have "sorted_wrt (\<lambda>j k. cj_cleanup_id j \<le> cj_cleanup_id k)
      (sort_key cj_cleanup_id (filter (cleanup_due now) (cleanups d)))"
    using sorted_sort_key [of cj_cleanup_id "filter (cleanup_due now) (cleanups d)"]
    by (simp add: sorted_wrt_map)
  then show ?thesis unfolding queue_order_def due_in_order_def
    by (intro sort_key_by_key)
qed

lemma due_in_order_head:
  assumes "due_in_order now d = j # js"
  shows "j \<in> set (cleanups d)" and "cleanup_due now j"
    and "\<And>i. i \<in> set (cleanups d) \<Longrightarrow> cleanup_due now i \<Longrightarrow> i = j \<or> queue_order j i"
proof -
  have members: "i \<in> set (j # js) \<longleftrightarrow> i \<in> set (cleanups d) \<and> cleanup_due now i" for i
    using due_in_order_set [of now d] assms by auto
  then show "j \<in> set (cleanups d)" "cleanup_due now j" by auto
  show "i = j \<or> queue_order j i" if "i \<in> set (cleanups d)" "cleanup_due now i" for i
    using due_in_order_sorted [of now d] sorted_wrt_hd [of queue_order j js i] that members
    unfolding assms by blast
qed

text \<open>What a claim that returns a job did to the table.\<close>

lemma claimed_row:
  assumes "db_inv d" and "sql_claim_due_cleanup now token expires d = Inr (Some row, d2)"
  obtains j js where "due_in_order now d = j # js" and "row = lease_job now token expires j" and "cleanup_check row"
    and "d2 = d\<lparr>cleanups := update_rows (\<lambda>r. cj_cleanup_id r = cj_cleanup_id j) (\<lambda>_. row) (cleanups d)\<rparr>"
    and "cleanup_ok row"
proof -
  from assms(2) obtain j js where due: "due_in_order now d = j # js"
    and row: "row = lease_job now token expires j" and check: "cleanup_check row"
    and d2: "d2 = d\<lparr>cleanups := update_rows (\<lambda>r. cj_cleanup_id r = cj_cleanup_id j) (\<lambda>_. row) (cleanups d)\<rparr>"
    by (auto simp: sql_claim_due_cleanup_def Let_def split: list.splits if_splits)
  have "cleanup_ok row" unfolding row
    using cleanups_invD(3) [OF assms(1)] due_in_order_head [OF due] check row by (intro lease_job_ok) auto
  with due row check d2 show thesis using that by blast
qed

text \<open>Nothing fails after the commit of a claim: the row it returns is valid.\<close>

lemma claim_cleanup_atomic:
  assumes "quiescent c" and "db_inv (committed c)" and "claim_cleanup now token secs c = (Inl e, c')"
  shows "committed c' = committed c"
proof (cases "secs < 1")
  case True
  with assms(3) show ?thesis by (simp add: claim_cleanup_def raise_io_def)
next
  case False
  let ?claim = "execute (sql_claim_due_cleanup now token (now + secs * 1000000))"
  obtain t1 c1 where rec: "execute (sql_recover_expired_leases now) c = (t1, c1)"
    by (cases "execute (sql_recover_expired_leases now) c")
  obtain t2 c2 where claim: "?claim c1 = (t2, c2)" by (cases "?claim c1")
  have same: "committed c1 = committed c" "committed c2 = committed c1"
    using uncommitted_execute rec claim unfolding uncommitted_def by blast+
  show ?thesis
  proof (cases t1)
    case (Inl e1)
    with assms(3) False rec same show ?thesis
      by (auto simp: claim_cleanup_def rollback_on_error_def bind_io_def rollback_def)
  next
    case one: (Inr u)
    show ?thesis
    proof (cases t2)
      case (Inl e2)
      with assms(3) False rec claim one same show ?thesis
        by (auto simp: claim_cleanup_def rollback_on_error_def bind_io_def rollback_def)
    next
      case two: (Inr row)
      have "sql_recover_expired_leases now (committed c) = Inr (u, working c1)"
        using rec one assms(1) by (auto simp: execute_def quiescent_def Let_def split: if_splits sum.splits)
      then have inv: "db_inv (working c1)"
        using evolves_recover_expired_leases assms(2) by (auto simp: db_evolves_def)
      have sql: "sql_claim_due_cleanup now token (now + secs * 1000000) (working c1) = Inr (row, working c2)"
        using claim two by (auto simp: execute_def Let_def split: if_splits sum.splits)
      have "\<exists>y. claimed_result row c3 = (Inr y, c3)" for c3
      proof (cases row)
        case (Some j)
        have "cleanup_ok j" by (rule claimed_row [OF inv sql [unfolded Some]])
        then show ?thesis
          by (simp add: claimed_result_def Some bind_io_def lift_io_def return_io_def validate_cleanup_ok)
      qed (simp add: claimed_result_def return_io_def)
      then obtain y where "claimed_result row (c2\<lparr>faults := tl (faults c2), committed := working c2\<rparr>) =
        (Inr y, c2\<lparr>faults := tl (faults c2), committed := working c2\<rparr>)" by blast
      with assms(3) False rec claim one two same show ?thesis
        by (cases "fault_next c2")
          (auto simp: claim_cleanup_def rollback_on_error_def bind_io_def rollback_def commit_io_def Let_def)
    qed
  qed
qed

lemma claim_cleanup_cases:
  assumes "claim_cleanup now token secs c = (Inr (Some k), c')" and "db_inv (working c)"
  obtains j where "0 < secs" and "j \<in> set (cleanups (recovered now (working c)))"
    and "cleanup_due now j"
    and "\<And>i. i \<in> set (cleanups (recovered now (working c))) \<Longrightarrow> cleanup_due now i \<Longrightarrow>
      i = j \<or> queue_order j i"
    and "k = lease_job now token (now + secs * 1000000) j" and "cleanup_ok k"
    and "keyed cj_cleanup_id (cleanups (recovered now (working c)))"
    and "committed c' = (recovered now (working c))\<lparr>cleanups :=
      update_rows (\<lambda>r. cj_cleanup_id r = cj_cleanup_id j) (\<lambda>_. k)
        (cleanups (recovered now (working c)))\<rparr>"
    and "quiescent c'"
proof -
  let ?d = "recovered now (working c)"
  from assms(1) obtain row d2 where secs: "0 < secs"
    and rec: "sql_recover_expired_leases now (working c) = Inr ((), ?d)"
    and claim: "sql_claim_due_cleanup now token (now + secs * 1000000) ?d = Inr (Some row, d2)"
    and k: "validate_cleanup row = Inr k"
    and c': "committed c' = d2" "quiescent c'"
    by (auto simp: claim_cleanup_def claimed_result_def io_Inr_simps quiescent_def recovered_def
        sql_recover_expired_leases_def Let_def split: if_splits option.splits)
  from evolves_recover_expired_leases [OF rec] assms(2) have inv: "db_inv ?d"
    by (simp add: db_evolves_def)
  obtain j js where due: "due_in_order now ?d = j # js"
    and row: "row = lease_job now token (now + secs * 1000000) j"
    and d2: "d2 = ?d\<lparr>cleanups := update_rows (\<lambda>r. cj_cleanup_id r = cj_cleanup_id j)
      (\<lambda>_. row) (cleanups ?d)\<rparr>" and "cleanup_ok row"
    by (rule claimed_row [OF inv claim])
  note head = due_in_order_head [OF due]
  from \<open>cleanup_ok row\<close> have kr: "k = row" using k validate_cleanup_ok [of row] by simp
  show thesis
    by (rule that [of j])
      (use secs head row kr k c' d2 cleanups_invD(1) [OF inv] validate_cleanup_InrD in auto)
qed

lemma recovered_member:
  "i \<in> set (cleanups d) \<Longrightarrow> \<not> lease_expired now i \<Longrightarrow> i \<in> set (cleanups (recovered now d))"
  by (auto simp: recovered_def set_update_rows)


subsection \<open>Settling\<close>

lemma cleanup_ok_check: "cleanup_ok j \<Longrightarrow> cleanup_check j"
  by (auto simp: cleanup_ok_def cleanup_check_def cleanup_state_iff)

lemma finish_job_valid:
  "cleanup_ok j \<Longrightarrow> cj_status j = CL_RUNNING \<Longrightarrow>
     cleanup_ok (finish_job now j) \<and> cleanup_check (finish_job now j)"
  by (simp add: cleanup_ok_def cleanup_check_def cleanup_state_iff finish_job_def
      cleanup_times_aware_def require_timezone_def opt_id_ok_def)

lemma fail_attempt_valid:
  "cleanup_ok j \<Longrightarrow> cj_status j = CL_RUNNING \<Longrightarrow> aware at \<Longrightarrow> contract_id_ok code \<Longrightarrow>
     cleanup_ok (fail_attempt now at code j) \<and> cleanup_check (fail_attempt now at code j)"
  by (simp add: cleanup_ok_def cleanup_check_def cleanup_state_iff fail_attempt_def
      cleanup_times_aware_def require_timezone_def opt_id_ok_def)

lemma settle_leased:
  assumes "db_inv d" and "j \<in> set (cleanups d)" and "leased_as cid token j"
    and "cleanup_check (f j)"
  shows "sql_settle_cleanup cid token f d = Inr (Some (f j), d\<lparr>cleanups :=
      update_rows (\<lambda>r. cj_cleanup_id r = cj_cleanup_id j) (\<lambda>_. f j) (cleanups d)\<rparr>)"
    and "f j \<in> set (update_rows (\<lambda>r. cj_cleanup_id r = cj_cleanup_id j) (\<lambda>_. f j) (cleanups d))"
proof -
  note keyed = cleanups_invD(1) [OF assms(1)]
  have "find (leased_as cid token) (cleanups d) = Some j"
    using assms(3) by (intro find_keyed [OF keyed assms(2)]) (auto simp: leased_as_def)
  then show "sql_settle_cleanup cid token f d = Inr (Some (f j), d\<lparr>cleanups :=
      update_rows (\<lambda>r. cj_cleanup_id r = cj_cleanup_id j) (\<lambda>_. f j) (cleanups d)\<rparr>)"
    using assms(4) by (simp add: sql_settle_cleanup_def)
  show "f j \<in> set (update_rows (\<lambda>r. cj_cleanup_id r = cj_cleanup_id j) (\<lambda>_. f j) (cleanups d))"
    using set_replace [OF keyed assms(2)] by simp
qed

subsection \<open>Properties\<close>

text \<open>A claim that returns a job returns it RUNNING under the caller's fresh lease with one
  attempt more, takes it from the jobs that are due once the expired leases are back in the queue,
  and no due job precedes it in the order (next attempt, creation, id). Everything is committed.\<close>

theorem claim_takes_next_due:
  assumes "claim_cleanup now token secs c = (Inr (Some k), c')" and "db_inv (working c)"
  shows "\<exists>j \<in> set (cleanups (recovered now (working c))).
    cleanup_due now j \<and> k = lease_job now token (now + secs * 1000000) j \<and>
    cj_attempt_count k \<le> cj_max_attempts k \<and>
    (\<forall>i \<in> set (cleanups (recovered now (working c))).
       \<not> cleanup_due now i \<or> i = j \<or> queue_order j i) \<and>
    set (cleanups (committed c')) = insert k (set (cleanups (recovered now (working c))) - {j})"
proof -
  from claim_cleanup_cases [OF assms] obtain j where
    j: "j \<in> set (cleanups (recovered now (working c)))" "cleanup_due now j"
      "\<And>i. i \<in> set (cleanups (recovered now (working c))) \<Longrightarrow> cleanup_due now i \<Longrightarrow>
        i = j \<or> queue_order j i"
    and k: "k = lease_job now token (now + secs * 1000000) j" "cleanup_ok k"
    and keyed: "keyed cj_cleanup_id (cleanups (recovered now (working c)))"
    and c': "committed c' = (recovered now (working c))\<lparr>cleanups :=
      update_rows (\<lambda>r. cj_cleanup_id r = cj_cleanup_id j) (\<lambda>_. k)
        (cleanups (recovered now (working c)))\<rparr>" by blast
  have "set (cleanups (committed c')) = insert k (set (cleanups (recovered now (working c))) - {j})"
    using set_replace [OF keyed j(1)] by (simp add: c')
  moreover have "cj_attempt_count k \<le> cj_max_attempts k"
    using k(2) by (simp add: cleanup_ok_def cleanup_state_iff)
  ultimately show ?thesis using j k(1) by (intro bexI [OF _ j(1)]) blast
qed

theorem claim_takes_next_due_witness:
  "\<exists>j \<in> set (cleanups (recovered 100 sample_db)).
    cleanup_due 100 j \<and> lease_job 100 ''lease9'' 1000100 sample_pending = lease_job 100 ''lease9'' (100 + 1 * 1000000) j"
proof -
  have run: "claim_cleanup 100 ''lease9'' 1 (connected sample_db) =
      (Inr (Some (lease_job 100 ''lease9'' 1000100 sample_pending)),
       snd (claim_cleanup 100 ''lease9'' 1 (connected sample_db)))" by code_simp
  have inv: "db_inv (working (connected sample_db))" by (simp add: sample_db_inv)
  show ?thesis using claim_takes_next_due [OF run inv] by auto
qed

text \<open>A job that another worker holds under a lease that has not expired is never touched by a
  claim: it stays in the table as it is, and the job the claim returns is a different one.\<close>

theorem claim_never_steals:
  assumes "claim_cleanup now token secs c = (Inr (Some k), c')" and "db_inv (working c)"
    and "i \<in> set (cleanups (working c))" and "cj_status i = CL_RUNNING"
    and "\<not> lease_expired now i"
  shows "i \<in> set (cleanups (committed c')) \<and> cj_cleanup_id k \<noteq> cj_cleanup_id i"
proof -
  from claim_cleanup_cases [OF assms(1,2)] obtain j where
    j: "j \<in> set (cleanups (recovered now (working c)))" "cleanup_due now j"
    and k: "k = lease_job now token (now + secs * 1000000) j"
    and keyed: "keyed cj_cleanup_id (cleanups (recovered now (working c)))"
    and c': "committed c' = (recovered now (working c))\<lparr>cleanups :=
      update_rows (\<lambda>r. cj_cleanup_id r = cj_cleanup_id j) (\<lambda>_. k)
        (cleanups (recovered now (working c)))\<rparr>" by blast
  have i: "i \<in> set (cleanups (recovered now (working c)))"
    using assms(3,5) by (rule recovered_member)
  have "i \<noteq> j" using j(2) assms(4) by (auto simp: cleanup_due_def)
  with keyed_unique [OF keyed i j(1)] have "cj_cleanup_id j \<noteq> cj_cleanup_id i" by auto
  with i \<open>i \<noteq> j\<close> show ?thesis using set_replace [OF keyed j(1)] by (simp add: c' k)
qed

theorem claim_never_steals_witness:
  "sample_leased \<in> set (cleanups (committed (snd (claim_cleanup 100 ''lease9'' 1 (connected sample_db)))))"
proof -
  have run: "claim_cleanup 100 ''lease9'' 1 (connected sample_db) =
      (Inr (Some (lease_job 100 ''lease9'' 1000100 sample_pending)),
       snd (claim_cleanup 100 ''lease9'' 1 (connected sample_db)))" by code_simp
  have inv: "db_inv (working (connected sample_db))" by (simp add: sample_db_inv)
  have "sample_leased \<in> set (cleanups (working (connected sample_db)))"
    by (simp add: sample_db_def)
  moreover have "cj_status sample_leased = CL_RUNNING" "\<not> lease_expired 100 sample_leased"
    by code_simp+
  ultimately show ?thesis using claim_never_steals [OF run inv] by blast
qed

text \<open>C36. Lease fencing: without the row being RUNNING under exactly the caller's token (a stale
  worker, a job already settled, a recovered lease), neither completion nor failure succeeds,
  whatever the database does, and the committed database is untouched.\<close>

theorem stale_lease_is_fenced:
  assumes "\<forall>j \<in> set (cleanups (working c)). \<not> leased_as cid token j" and "quiescent c"
  shows "(\<exists>e. fst (complete_cleanup now cid token c) = Inl e) \<and>
    (\<exists>e. fst (record_cleanup_failure now cid token code at c) = Inl e) \<and>
    committed (snd (complete_cleanup now cid token c)) = committed c \<and>
    committed (snd (record_cleanup_failure now cid token code at c)) = committed c"
proof -
  have none: "find (leased_as cid token) (cleanups (working c)) = None"
    using assms(1) by (simp add: find_None_iff)
  have 1: "\<exists>e. fst (complete_cleanup now cid token c) = Inl e"
    by (cases "fst (complete_cleanup now cid token c)"; cases "complete_cleanup now cid token c")
      (auto simp: complete_cleanup_def transaction_Inr io_Inr_simps sql_complete_cleanup_def
        sql_settle_cleanup_def none)
  have 2: "\<exists>e. fst (record_cleanup_failure now cid token code at c) = Inl e"
    by (cases "fst (record_cleanup_failure now cid token code at c)";
        cases "record_cleanup_failure now cid token code at c")
      (auto simp: record_cleanup_failure_def transaction_Inr io_Inr_simps
        sql_record_cleanup_failure_def sql_settle_cleanup_def none split: if_splits)
  from 1 2 atomicD(2) [OF atomic_complete_cleanup assms(2)]
    atomicD(2) [OF atomic_record_cleanup_failure assms(2)]
  show ?thesis by (metis prod.collapse)
qed

theorem stale_lease_is_fenced_witness:
  "committed (snd (complete_cleanup 100 ''cleanup2'' ''stale'' (connected sample_db))) = sample_db"
proof -
  have "\<forall>j \<in> set (cleanups (working (connected sample_db))). \<not> leased_as ''cleanup2'' ''stale'' j"
    by code_simp
  from stale_lease_is_fenced [OF this] show ?thesis by simp
qed

text \<open>The holder of the lease settles its job: with the database up, completion commits the job
  as SUCCEEDED with its lease cleared; a reported failure commits RETRY at the given time while
  attempts are left and FAILED with a completion time when they are used up.\<close>

theorem lease_holder_settles:
  assumes "db_inv (working c)" and "faults c = []" and "j \<in> set (cleanups (working c))"
    and "leased_as cid token j" and "contract_id_ok code" and "aware at"
  shows "fst (complete_cleanup now cid token c) = Inr (finish_job now j) \<and>
    fst (record_cleanup_failure now cid token code at c) = Inr (fail_attempt now at code j) \<and>
    finish_job now j \<in> set (cleanups (committed (snd (complete_cleanup now cid token c)))) \<and>
    fail_attempt now at code j \<in>
      set (cleanups (committed (snd (record_cleanup_failure now cid token code at c))))"
proof -
  have running: "cj_status j = CL_RUNNING" using assms(4) by (simp add: leased_as_def)
  have ok: "cleanup_ok j" using cleanups_invD(3) [OF assms(1)] assms(3) by blast
  note settle = settle_leased [OF assms(1,3,4)]
  show ?thesis
    using assms(2,5,6) settle [of "finish_job now"] settle [of "fail_attempt now at code"]
      finish_job_valid [OF ok running] fail_attempt_valid [OF ok running assms(6,5)]
    by (auto simp: complete_cleanup_def record_cleanup_failure_def sql_complete_cleanup_def
        sql_record_cleanup_failure_def io_run_simps validate_cleanup_ok)
qed

theorem lease_holder_settles_witness:
  "fst (complete_cleanup 100 ''cleanup2'' ''lease2'' (connected sample_db)) =
    Inr (finish_job 100 sample_leased)"
proof -
  have "sample_leased \<in> set (cleanups (working (connected sample_db)))"
    "leased_as ''cleanup2'' ''lease2'' sample_leased" "contract_id_ok ''E1''" "aware (Aware 5)"
    by code_simp+
  with lease_holder_settles [of "connected sample_db" sample_leased "''cleanup2''" "''lease2''"
      "''E1''" "Aware 5" 100] show ?thesis
    by (simp add: sample_db_inv)
qed

end
