(* ===== verification/FactRuns.thy ===== *)
theory FactRuns
  imports PostgresFacts RuntimeSnapshots CleanupQueue
begin

text \<open>
  The fact source as a state machine: one rule per public method of \<open>PostgresFactRepository\<close>,
  called with any arguments, any generated identifiers and any clock, in any order, and with
  driver errors at any statement. A run starts from any connection with nothing pending on a
  database that has the schema's integrity, for example the empty one.
\<close>

subsection \<open>Steps and runs\<close>

inductive fact_step :: "conn \<Rightarrow> conn \<Rightarrow> bool" where
  weather: "fact_step c (c\<lparr>faults := fs\<rparr>)"
| document: "register_document i w p s m t u c = (r, c') \<Longrightarrow> fact_step c c'"
| version: "register_version True now vid w doc h g p c = (r, c') \<Longrightarrow> fact_step c c'"
| job: "register_ingestion_job True now jid w doc vid key c = (r, c') \<Longrightarrow> fact_step c c'"
| pair: "register_version_and_ingestion_job now now' vid jid w doc h g p key c = (r, c') \<Longrightarrow>
    fact_step c c'"
| transition: "transition_version True now w vid n target p c = (r, c') \<Longrightarrow> fact_step c c'"
| online: "get_online_version w vid c = (r, c') \<Longrightarrow> fact_step c c'"
| resolve: "resolve_online_versions w docs c = (r, c') \<Longrightarrow> fact_step c c'"
| update_job: "update_ingestion_job True now w jid status code c = (r, c') \<Longrightarrow> fact_step c c'"
| index_failure: "record_indexing_failure now now' w vid n ix jid code c = (r, c') \<Longrightarrow> fact_step c c'"
| index_success: "finalize_indexing_success now now' w vid n ix t jid c = (r, c') \<Longrightarrow> fact_step c c'"
| persist: "persist_runtime_snapshot fp pdf cs c = (r, c') \<Longrightarrow> fact_step c c'"
| load: "load_online_chunks w vids c = (r, c') \<Longrightarrow> fact_step c c'"
| inactive_pdf: "get_inactive_pdf_object w vid c = (r, c') \<Longrightarrow> fact_step c c'"
| pdf: "get_pdf_object w vid c = (r, c') \<Longrightarrow> fact_step c c'"
| purge: "purge_inactive_runtime_snapshot w vid c = (r, c') \<Longrightarrow> fact_step c c'"
| enqueue: "enqueue_cleanup now cid b w doc vid k c = (r, c') \<Longrightarrow> fact_step c c'"
| claim: "claim_cleanup now token secs c = (r, c') \<Longrightarrow> fact_step c c'"
| complete: "complete_cleanup now cid token c = (r, c') \<Longrightarrow> fact_step c c'"
| cleanup_failure: "record_cleanup_failure now cid token code at c = (r, c') \<Longrightarrow> fact_step c c'"

abbreviation fact_run :: "conn \<Rightarrow> conn \<Rightarrow> bool" where
  "fact_run \<equiv> fact_step\<^sup>*\<^sup>*"

lemma along_get_online_version: "moves_along db_evolves (get_online_version w vid)"
  unfolding get_online_version_def validate_row_def
  by (intro evolution.along_intros) (auto intro: evolves_get_online_version)

lemma along_resolve_online_versions: "moves_along db_evolves (resolve_online_versions w docs)"
  unfolding resolve_online_versions_def
  by (intro evolution.along_intros) (auto intro: evolves_resolve_online_versions)

lemma along_load_online_chunks: "moves_along db_evolves (load_online_chunks w vids)"
  unfolding load_online_chunks_def
  by (intro evolution.along_intros) (auto intro: evolves_snapshot_reads)

lemma along_pdf_objects:
  "moves_along db_evolves (get_inactive_pdf_object w vid)"
  "moves_along db_evolves (get_pdf_object w vid)"
  unfolding get_inactive_pdf_object_def get_pdf_object_def pdf_object_result_def
  by (intro evolution.along_intros, auto intro: evolves_snapshot_reads)+

text \<open>Each method, started with nothing pending, commits a change that keeps the integrity and
  leaves nothing pending, however it ends.\<close>

definition well_behaved :: "'a io \<Rightarrow> bool" where
  "well_behaved m \<longleftrightarrow> (\<forall>c r c'. m c = (r, c') \<longrightarrow> quiescent c \<longrightarrow>
     db_evolves (committed c) (committed c') \<and> quiescent c')"

lemma well_behavedI:
  "moves_along db_evolves m \<Longrightarrow> (\<And>c r c'. quiescent c \<Longrightarrow> m c = (r, c') \<Longrightarrow> quiescent c') \<Longrightarrow>
     well_behaved m"
  unfolding well_behaved_def using evolution.along_quiescent by blast

lemma well_behaved_atomic: "moves_along db_evolves m \<Longrightarrow> atomic_io m \<Longrightarrow> well_behaved m"
  by (rule well_behavedI) (auto dest: atomicD)

lemma well_behaved_read: "moves_along db_evolves m \<Longrightarrow> read_only m \<Longrightarrow> well_behaved m"
  by (rule well_behaved_atomic) (auto intro: read_only_atomic)

text \<open>A commit followed by the validation of what is returned leaves nothing pending either.\<close>

lemma quiescent_commit_last:
  assumes "rollback_on_error (bind_io m (\<lambda>x. bind_io commit_io (\<lambda>_. f x))) c = (r, c')"
    and "\<And>x c1 r1 c2. f x c1 = (r1, c2) \<Longrightarrow> c2 = c1"
  shows "quiescent c'"
proof (cases r)
  case (Inl e)
  with rollback_on_error_Inl [OF assms(1) [unfolded Inl]] show ?thesis by (simp add: quiescent_def)
next
  case (Inr y)
  with assms(1) obtain x c1 where "f x (c1\<lparr>faults := tl (faults c1), committed := working c1\<rparr>) =
      (Inr y, c')" by (auto simp: io_Inr_simps)
  with assms(2) show ?thesis by (fastforce simp: quiescent_def)
qed

lemma well_behaved_persist: "well_behaved (persist_runtime_snapshot fp pdf cs)"
proof (rule well_behavedI [OF along_persist_runtime_snapshot])
  fix c r c'
  assume "quiescent c" "persist_runtime_snapshot fp pdf cs c = (r, c')"
  then show "quiescent c'"
    unfolding persist_runtime_snapshot_def
    by (auto simp: raise_io_def lift_io_def split: if_splits elim!: quiescent_commit_last)
qed

lemma well_behaved_claim: "well_behaved (claim_cleanup now token secs)"
proof (rule well_behavedI [OF along_claim_cleanup])
  fix c r c'
  assume "quiescent c" and run: "claim_cleanup now token secs c = (r, c')"
  have last: "claimed_result row c1 = (r1, c2) \<Longrightarrow> c2 = c1" for row c1 r1 c2
    by (auto simp: claimed_result_def return_io_def lift_io_def bind_io_def
        split: option.splits sum.splits)
  have assoc: "bind_io a (\<lambda>_. bind_io b g) = bind_io (bind_io a (\<lambda>_. b)) g" for a :: "unit io" and b g
    by (rule ext) (auto simp: bind_io_def split: prod.splits sum.splits)
  show "quiescent c'"
  proof (cases "secs < 1")
    case True
    with run \<open>quiescent c\<close> show ?thesis by (simp add: claim_cleanup_def raise_io_def)
  next
    case False
    from run have "rollback_on_error (bind_io (bind_io (execute (sql_recover_expired_leases now))
        (\<lambda>_. execute (sql_claim_due_cleanup now token (now + secs * 1000000))))
        (\<lambda>row. bind_io commit_io (\<lambda>_. claimed_result row))) c = (r, c')"
      unfolding claim_cleanup_def assoc using False by simp
    then show ?thesis by (rule quiescent_commit_last) (rule last)
  qed
qed

lemmas methods_well_behaved =
  well_behaved_atomic [OF along_register_document atomic_register_document]
  well_behaved_atomic [OF along_register_version atomic_register_version]
  well_behaved_atomic [OF along_register_ingestion_job atomic_register_ingestion_job]
  well_behaved_atomic [OF along_register_version_and_ingestion_job
    atomic_register_version_and_ingestion_job]
  well_behaved_atomic [OF along_transition_version atomic_transition_version]
  well_behaved_read [OF along_get_online_version read_only_get_online_version]
  well_behaved_read [OF along_resolve_online_versions read_only_resolve_online_versions]
  well_behaved_atomic [OF along_update_ingestion_job atomic_update_ingestion_job]
  well_behaved_atomic [OF along_record_indexing_failure atomic_record_indexing_failure]
  well_behaved_atomic [OF along_finalize_indexing_success atomic_finalize_indexing_success]
  well_behaved_persist
  well_behaved_read [OF along_load_online_chunks read_only_load_online_chunks]
  well_behaved_read [OF along_pdf_objects(1) read_only_get_inactive_pdf_object]
  well_behaved_read [OF along_pdf_objects(2) read_only_get_pdf_object]
  well_behaved_atomic [OF along_purge atomic_purge]
  well_behaved_atomic [OF along_enqueue_cleanup atomic_enqueue_cleanup]
  well_behaved_claim
  well_behaved_atomic [OF along_complete_cleanup atomic_complete_cleanup]
  well_behaved_atomic [OF along_record_cleanup_failure atomic_record_cleanup_failure]

lemmas method_steps = methods_well_behaved [unfolded well_behaved_def, rule_format]

lemma fact_step_evolves:
  assumes "fact_step c c'" and q: "quiescent c"
  shows "db_evolves (committed c) (committed c') \<and> quiescent c'"
  using assms(1)
proof (cases rule: fact_step.cases)
  case (weather fs)
  with q show ?thesis by (simp add: quiescent_def)
qed (erule method_steps, rule q)+

lemma fact_run_evolves:
  assumes "fact_run c c'" and "quiescent c"
  shows "db_evolves (committed c) (committed c') \<and> quiescent c'"
  using assms
proof (induction rule: rtranclp_induct)
  case base
  then show ?case by simp
next
  case (step y z)
  then show ?case using fact_step_evolves db_evolves_trans by blast
qed

subsection \<open>Properties of all runs\<close>

lemma run_facts:
  assumes "fact_run c c'" and "quiescent c" and "db_inv (committed c)"
  shows "db_inv (committed c')" and "versions_kept (committed c) (committed c')"
    and "kept_by cleanup_step\<^sup>*\<^sup>* (cleanups (committed c)) (cleanups (committed c'))"
    and "pdf_objects_kept (committed c) (committed c')"
    and "chunk_rows_kept (committed c) (committed c')"
    and "versions_born (committed c) (committed c')"
  using fact_run_evolves [OF assms(1,2)] assms(3) by (simp_all add: db_evolves_def db_history_def)

text \<open>A run for the instances: the clock strikes 20 and the version \<open>v_new\<close> becomes READY.\<close>

definition sample_published :: conn where
  "sample_published = snd (finalize_indexing_success 20 21 ''alice'' ''v_new'' 3 ready_index_states
     (Aware 15) ''job2'' (connected sample_db))"

lemma sample_run: "fact_run (connected sample_db) sample_published"
  unfolding sample_published_def
  by (rule r_into_rtranclp) (rule fact_step.index_success, rule prod.collapse [symmetric])

text \<open>C1. Integrity and history of every run: whatever methods are called, in whatever order, with
  whatever arguments and driver errors, the committed database keeps every key, foreign key, row
  contract and the one-online-version rule, nothing stays pending between calls, and documents,
  versions, jobs and cleanups only ever evolve along their state machines.\<close>

theorem runs_keep_integrity:
  assumes "fact_run c c'" and "quiescent c" and "db_inv (committed c)"
  shows "db_inv (committed c') \<and> db_history (committed c) (committed c') \<and> quiescent c'"
  using fact_run_evolves [OF assms(1,2)] assms(3) by (simp add: db_evolves_def)

theorem runs_keep_integrity_witness: "db_inv (committed sample_published)"
  using runs_keep_integrity [OF sample_run] by (simp add: sample_db_inv)

text \<open>C5. At any moment of any run a document of an owner has at most one online version.\<close>

theorem one_online_version:
  assumes "fact_run c c'" and "quiescent c" and "db_inv (committed c)"
    and "v \<in> set (versions (committed c'))" and "w \<in> set (versions (committed c'))"
    and "is_active v" and "is_active w" and "ver_owner_id v = ver_owner_id w"
    and "ver_document_id v = ver_document_id w"
  shows "v = w"
proof -
  note vs = versions_invD [OF run_facts(1) [OF assms(1-3)]]
  have "active_key v = active_key w" using assms(8,9) by (simp add: active_key_def)
  then have "ver_document_version_id v = ver_document_version_id w"
    using vs(3) assms(4-7) unfolding one_active_def by blast
  with keyed_unique [OF vs(1) assms(4,5)] show ?thesis by blast
qed

theorem one_online_version_witness:
  "{v \<in> set (versions (committed sample_published)). is_active v \<and>
     ver_owner_id v = ''alice'' \<and> ver_document_id v = ''doc1''} = {sample_ready}"
proof -
  have ready: "sample_ready \<in> set (versions (committed sample_published))" "is_active sample_ready"
    "ver_owner_id sample_ready = ''alice''" "ver_document_id sample_ready = ''doc1''"
    by code_simp+
  then have "v = sample_ready" if "v \<in> set (versions (committed sample_published))" "is_active v"
    "ver_owner_id v = ''alice''" "ver_document_id v = ''doc1''" for v
    using one_online_version [OF sample_run, of v sample_ready] that by (simp add: sample_db_inv)
  with ready show ?thesis by blast
qed

text \<open>INACTIVE is final: once a version is INACTIVE its row never changes again in any run, so it
  is never online again.\<close>

theorem inactive_is_final:
  assumes "fact_run c c'" and "quiescent c" and "db_inv (committed c)"
    and "v \<in> set (versions (committed c))" and "ver_lifecycle_status v = INACTIVE"
  shows "v \<in> set (versions (committed c')) \<and> \<not> is_active v \<and>
    (\<forall>w \<in> set (versions (committed c')).
       ver_document_version_id w \<noteq> ver_document_version_id v \<or> w = v)"
proof -
  note r = run_facts [OF assms(1-3)]
  from kept_byD [OF r(2) assms(4)] inactive_steps [OF _ assms(5)]
  have v: "v \<in> set (versions (committed c'))" by blast
  moreover have "\<not> is_active v" using assms(5) by (simp add: is_active_def)
  ultimately show ?thesis using keyed_unique [OF versions_invD(1) [OF r(1)] v] by metis
qed

theorem inactive_is_final_witness:
  "sample_inactive \<in> set (versions (committed sample_published))"
proof -
  have "sample_inactive \<in> set (versions (committed (connected sample_db)))"
    "ver_lifecycle_status sample_inactive = INACTIVE" by code_simp+
  with inactive_is_final [OF sample_run] show ?thesis by (simp add: sample_db_inv)
qed

text \<open>The revision is a sound compare-and-swap token: a version never disappears and never
  changes its owner, document, content or parser; a later row of the same version with the same
  revision is the same row, and any change has raised the revision.\<close>

theorem revision_identifies_row:
  assumes "fact_run c c'" and "quiescent c" and "db_inv (committed c)"
    and "v \<in> set (versions (committed c))"
  shows "\<exists>w \<in> set (versions (committed c')). same_version_identity v w \<and>
    (w = v \<or> ver_lifecycle_revision v < ver_lifecycle_revision w)"
  using kept_byD [OF run_facts(2) [OF assms(1-3)] assms(4)] version_steps_identity
    version_steps_revision by blast

theorem revision_identifies_row_witness:
  "\<exists>w \<in> set (versions (committed sample_published)). same_version_identity sample_processing w \<and>
    (w = sample_processing \<or> 3 < ver_lifecycle_revision w)"
proof -
  have "sample_processing \<in> set (versions (committed (connected sample_db)))"
    "ver_lifecycle_revision sample_processing = 3" by code_simp+
  with revision_identifies_row [OF sample_run, of sample_processing]
  show ?thesis by (simp add: sample_db_inv)
qed

text \<open>C35. Only complete evidence is ever online: in every reachable database an online version has
  all its milestone times and both index receipts and no failure code or deletion time. If its row
  was not there at the start of the run, the run took the version there from PROCESSING: from the row
  it had at the start, or, when the run registered it, from a row registered as REGISTERED with
  revision 1.\<close>

theorem online_needs_evidence:
  assumes "fact_run c c'" and "quiescent c" and "db_inv (committed c)"
    and "w \<in> set (versions (committed c'))" and "is_active w"
  shows "milestones_present w \<and> ver_index_states w = ready_index_states \<and>
    ver_failure_code w = None \<and> ver_delete_time w = None \<and>
    (\<forall>v \<in> set (versions (committed c)).
       ver_document_version_id v \<noteq> ver_document_version_id w \<or> v = w \<or>
       (\<exists>u. version_step\<^sup>*\<^sup>* v u \<and> version_step u w \<and> ver_lifecycle_status u = PROCESSING)) \<and>
    ((\<forall>v \<in> set (versions (committed c)). ver_document_version_id v \<noteq> ver_document_version_id w) \<longrightarrow>
       (\<exists>v u. freshly_registered v \<and> same_version_identity v w \<and>
          version_step\<^sup>*\<^sup>* v u \<and> version_step u w \<and> ver_lifecycle_status u = PROCESSING))"
proof -
  note r = run_facts [OF assms(1-3)]
  have ready: "ver_lifecycle_status w = READY" "ver_delete_time w = None"
    using assms(5) by (simp_all add: is_active_def)
  have "version_ok w" using versions_invD(4) [OF r(1)] assms(4) by blast
  note facts = ready_version_facts [OF this ready(1)]
  have "v = w \<or> (\<exists>u. version_step\<^sup>*\<^sup>* v u \<and> version_step u w \<and> ver_lifecycle_status u = PROCESSING)"
    if v: "v \<in> set (versions (committed c))" "ver_document_version_id v = ver_document_version_id w" for v
  proof -
    from kept_byD [OF r(2) v(1)] obtain x where x: "x \<in> set (versions (committed c'))"
      "version_step\<^sup>*\<^sup>* v x" by blast
    with version_steps_identity [OF x(2)] v(2)
    have "ver_document_version_id x = ver_document_version_id w"
      by (simp add: same_version_identity_def)
    with keyed_unique [OF versions_invD(1) [OF r(1)] x(1) assms(4)] x(2) have "version_step\<^sup>*\<^sup>* v w"
      by simp
    with steps_to_ready_from ready(1) show ?thesis by blast
  qed
  moreover have "\<exists>v u. freshly_registered v \<and> same_version_identity v w \<and>
      version_step\<^sup>*\<^sup>* v u \<and> version_step u w \<and> ver_lifecycle_status u = PROCESSING"
    if new: "\<forall>v \<in> set (versions (committed c)). ver_document_version_id v \<noteq> ver_document_version_id w"
  proof -
    obtain v where v: "version_step\<^sup>*\<^sup>* v w" "v \<in> set (versions (committed c)) \<or> freshly_registered v"
      using r(6) assms(4) unfolding versions_born_def by blast
    note same = version_steps_identity [OF v(1)]
    have "v \<notin> set (versions (committed c))" using new same by (auto simp: same_version_identity_def)
    with v(2) have fresh: "freshly_registered v" by blast
    then have "v \<noteq> w" using ready(1) by (auto simp: freshly_registered_def)
    with steps_to_ready_from [OF v(1) ready(1)] fresh same show ?thesis by blast
  qed
  ultimately show ?thesis using facts ready by blast
qed

text \<open>In the sample run the version \<open>v_new\<close> becomes READY.\<close>

theorem online_needs_evidence_witness:
  "\<exists>w \<in> set (versions (committed sample_published)). ver_document_version_id w = ''v_new'' \<and> is_active w \<and>
     milestones_present w \<and> ver_index_states w = ready_index_states \<and>
     (\<exists>u. version_step u w \<and> ver_lifecycle_status u = PROCESSING)"
proof -
  let ?ws = "filter (\<lambda>w. ver_document_version_id w = ''v_new'' \<and> is_active w) (versions (committed sample_published))"
  have "?ws \<noteq> []" by code_simp
  then obtain w where w: "w \<in> set (versions (committed sample_published))" "ver_document_version_id w = ''v_new''"
    "is_active w" by (auto simp: filter_empty_conv)
  have v: "sample_processing \<in> set (versions (committed (connected sample_db)))"
    "ver_document_version_id sample_processing = ''v_new''" "\<not> is_active sample_processing" by code_simp+
  have e: "milestones_present w \<and> ver_index_states w = ready_index_states \<and>
    (\<forall>v \<in> set (versions (committed (connected sample_db))).
       ver_document_version_id v \<noteq> ver_document_version_id w \<or> v = w \<or>
       (\<exists>u. version_step\<^sup>*\<^sup>* v u \<and> version_step u w \<and> ver_lifecycle_status u = PROCESSING))"
    using online_needs_evidence [OF sample_run _ _ w(1,3)] by (simp add: sample_db_inv)
  then have "sample_processing = w \<or> (\<exists>u. version_step u w \<and> ver_lifecycle_status u = PROCESSING)"
    using bspec [OF conjunct2 [OF conjunct2 [OF e]] v(1)] v(2) w(2) by auto
  with e w v(3) show ?thesis by blast
qed

text \<open>C39. A cleanup job is bounded and final: through any run it keeps its target and its retry
  budget, never makes more attempts than the budget, never makes fewer than before, and once
  SUCCEEDED or FAILED never changes.\<close>

theorem cleanup_is_bounded:
  assumes "fact_run c c'" and "quiescent c" and "db_inv (committed c)"
    and "j \<in> set (cleanups (committed c))"
  shows "\<exists>k \<in> set (cleanups (committed c')). cj_cleanup_id k = cj_cleanup_id j \<and>
    cleanup_identity k = cleanup_identity j \<and> cj_max_attempts k = cj_max_attempts j \<and>
    cj_attempt_count j \<le> cj_attempt_count k \<and> cj_attempt_count k \<le> cj_max_attempts j \<and>
    (cj_status j \<notin> {CL_SUCCEEDED, CL_FAILED} \<or> k = j)"
proof -
  note r = run_facts [OF assms(1-3)]
  from kept_byD [OF r(3) assms(4)] obtain k where k: "k \<in> set (cleanups (committed c'))"
    "cleanup_step\<^sup>*\<^sup>* j k" by blast
  have "cj_attempt_count k \<le> cj_max_attempts k"
    using cleanups_invD(3) [OF r(1)] k(1) by (auto simp: cleanup_ok_def cleanup_state_iff)
  with k cleanup_steps_identity [OF k(2)] cleanup_steps_attempts [OF k(2)] settled_steps [OF k(2)]
  show ?thesis by (intro bexI [OF _ k(1)]) auto
qed

theorem cleanup_is_bounded_witness:
  "\<exists>k \<in> set (cleanups (committed sample_published)). cj_cleanup_id k = ''cleanup2'' \<and>
    cj_attempt_count k \<le> 5"
proof -
  have "sample_leased \<in> set (cleanups (committed (connected sample_db)))"
    "cj_cleanup_id sample_leased = ''cleanup2''" "cj_max_attempts sample_leased = 5"
    by code_simp+
  with cleanup_is_bounded [OF sample_run, of sample_leased] show ?thesis by (auto simp: sample_db_inv)
qed

text \<open>Served data outlives its version: a PDF registration or a chunk row disappears in a run
  only if its version is INACTIVE by then.\<close>

theorem snapshots_outlive_versions:
  assumes "fact_run c c'" and "quiescent c" and "db_inv (committed c)"
  shows "(\<forall>p \<in> set (pdf_objects (committed c)). p \<in> set (pdf_objects (committed c')) \<or>
      inactive_version (committed c') (po_document_version_id p) (po_owner_id p) (po_document_id p)) \<and>
    (\<forall>r \<in> set (chunk_rows (committed c)). r \<in> set (chunk_rows (committed c')) \<or>
      inactive_version (committed c') (ch_version_id (cr_chunk r)) (ch_tenant_id (cr_chunk r))
        (ch_document_id (cr_chunk r)))"
  using run_facts(4,5) [OF assms] by (simp add: pdf_objects_kept_def chunk_rows_kept_def)

theorem snapshots_outlive_versions_witness:
  "sample_pdf \<in> set (pdf_objects (committed
    (snd (purge_inactive_runtime_snapshot ''alice'' ''v_ready'' (connected sample_stored)))))"
proof -
  let ?c = "snd (purge_inactive_runtime_snapshot ''alice'' ''v_ready'' (connected sample_stored))"
  have run: "fact_run (connected sample_stored) ?c"
    by (rule r_into_rtranclp) (rule fact_step.purge, rule prod.collapse [symmetric])
  have inv: "db_inv (committed (connected sample_stored))" by code_simp
  have mem: "sample_pdf \<in> set (pdf_objects (committed (connected sample_stored)))"
    and live: "\<not> inactive_version (committed ?c) (po_document_version_id sample_pdf)
      (po_owner_id sample_pdf) (po_document_id sample_pdf)" by code_simp+
  from snapshots_outlive_versions [OF run connected_simps(4) inv, THEN conjunct1, rule_format, OF mem]
    live show ?thesis by blast
qed

text \<open>C34. All or nothing: each of the fourteen mutating methods, called with nothing pending, either
  returns, or leaves the committed database exactly as it was, at whatever statement it fails; in both
  cases no transaction stays open. This holds as well for the two that build and validate the record
  they return after their commit: \<open>persist_runtime_snapshot\<close>, whose record is valid because the fingerprint is a
  SHA-256 digest, and \<open>claim_cleanup\<close>, whose row is valid in every database of a run. (A commit that
  raises is taken to have committed nothing.)\<close>

theorem mutations_are_atomic:
  assumes "\<forall>cs. sha256_ok (fp cs)"
  shows
  "atomic_io (register_document i w p s m t u) \<and>
   atomic_io (register_version True now vid w doc h g pv) \<and>
   atomic_io (register_ingestion_job True now jid w doc vid key) \<and>
   atomic_io (register_version_and_ingestion_job now now' vid jid w doc h g pv key) \<and>
   atomic_io (transition_version True now w vid n target patch) \<and>
   atomic_io (update_ingestion_job True now w jid status code) \<and>
   atomic_io (record_indexing_failure now now' w vid n ix jid fc) \<and>
   atomic_io (finalize_indexing_success now now' w vid n ix t' jid) \<and>
   atomic_io (persist_runtime_snapshot fp pdf cs) \<and>
   atomic_io (purge_inactive_runtime_snapshot w vid) \<and>
   atomic_io (enqueue_cleanup now cid b w doc vid k) \<and>
   atomic_io (complete_cleanup now cid token) \<and>
   atomic_io (record_cleanup_failure now cid token fc at) \<and>
   (\<forall>c r c'. quiescent c \<and> db_inv (committed c) \<and> claim_cleanup now token secs c = (r, c') \<longrightarrow>
      quiescent c' \<and> (\<forall>e. r = Inl e \<longrightarrow> committed c' = committed c))"
proof -
  have "quiescent c' \<and> (\<forall>e. r = Inl e \<longrightarrow> committed c' = committed c)"
    if "quiescent c" "db_inv (committed c)" "claim_cleanup now token secs c = (r, c')" for c r c'
    using that well_behaved_claim claim_cleanup_atomic unfolding well_behaved_def by blast
  with assms show ?thesis
    by (intro conjI atomic_register_document atomic_register_version atomic_register_ingestion_job
        atomic_register_version_and_ingestion_job atomic_transition_version
        atomic_update_ingestion_job atomic_record_indexing_failure atomic_finalize_indexing_success
        atomic_persist_runtime_snapshot atomic_purge atomic_enqueue_cleanup atomic_complete_cleanup
        atomic_record_cleanup_failure) blast+
qed

text \<open>A driver error at the last statement before the commit, and at the commit itself.\<close>

theorem mutations_are_atomic_witness:
  "(\<exists>e c'. persist_runtime_snapshot (\<lambda>_. sample_hash CHR ''f'') sample_pdf [sample_chunk ''chunk1'']
       ((connected sample_db)\<lparr>faults := [False, False, False, True]\<rparr>) = (Inl e, c') \<and> committed c' = sample_db) \<and>
   (\<exists>e c'. claim_cleanup 100 ''lease9'' 60 ((connected sample_db)\<lparr>faults := [False, False, True]\<rparr>) = (Inl e, c') \<and>
     committed c' = sample_db)"
proof -
  have "sha256_ok (sample_hash CHR ''f'')" by code_simp
  then have sha: "\<forall>cs :: chunk list. sha256_ok (sample_hash CHR ''f'')" by simp
  let ?c = "(connected sample_db)\<lparr>faults := [False, False, False, True]\<rparr>"
    and ?k = "(connected sample_db)\<lparr>faults := [False, False, True]\<rparr>"
  let ?p = "persist_runtime_snapshot (\<lambda>_. sample_hash CHR ''f'') sample_pdf [sample_chunk ''chunk1''] ?c"
    and ?q = "claim_cleanup 100 ''lease9'' 60 ?k"
  have "case fst ?p of Inl _ \<Rightarrow> True | Inr _ \<Rightarrow> False" "case fst ?q of Inl _ \<Rightarrow> True | Inr _ \<Rightarrow> False"
    by code_simp+
  then obtain e e' where p: "?p = (Inl e, snd ?p)" and q: "?q = (Inl e', snd ?q)"
    by (cases ?p; cases ?q; cases "fst ?p"; cases "fst ?q") auto
  have quiet: "quiescent ?c" "quiescent ?k" by (simp_all add: quiescent_def)
  note atomic = mutations_are_atomic [OF sha, THEN conjunct2, THEN conjunct2, THEN conjunct2, THEN conjunct2,
    THEN conjunct2, THEN conjunct2, THEN conjunct2, THEN conjunct2]
  from atomicD(2) [OF conjunct1 [OF atomic] quiet(1) p] p
  have "\<exists>e c'. ?p = (Inl e, c') \<and> committed c' = sample_db" by auto
  moreover have "db_inv (committed ?k)" using sample_db_inv by simp
  with atomic [THEN conjunct2, THEN conjunct2, THEN conjunct2, THEN conjunct2, THEN conjunct2, rule_format,
      OF conjI [OF quiet(2) conjI [OF _ q]]]
  have "committed (snd ?q) = sample_db" by simp
  with q have "\<exists>e c'. ?q = (Inl e, c') \<and> committed c' = sample_db" by auto
  ultimately show ?thesis ..
qed

end
