(* ===== verification/IngestionModels.thy ===== *)
theory IngestionModels
  imports StorageModels
begin

text \<open>
  The parse and ingestion records of \<^verbatim>\<open>backend/ingestion/models.py\<close> (the chunk record is in
  StorageModels, the tables need it) and the result of an ingestion.
\<close>

record parsed_block =
  pb_page_number :: int
  pb_section_path :: "pytext list"
  pb_source_start :: int
  pb_source_end :: int
  pb_text :: pytext

text \<open>The field constraints and \<open>source_range_is_ordered\<close>.\<close>

definition parsed_block_ok :: "parsed_block \<Rightarrow> bool" where
  "parsed_block_ok b \<longleftrightarrow>
     1 \<le> pb_page_number b \<and> pb_section_path b \<noteq> [] \<and>
     (\<forall>s \<in> set (pb_section_path b). s \<noteq> []) \<and>
     0 \<le> pb_source_start b \<and> 1 \<le> pb_source_end b \<and> pb_text b \<noteq> [] \<and>
     \<not> pb_source_end b \<le> pb_source_start b"

datatype parse_status = PARSE_PASS | PARSE_REVIEW | PARSE_FAILED

record parsed_pdf =
  pp_pdf_sha256 :: string
  pp_source_text_sha256 :: string
  pp_clean_text :: pytext
  pp_page_count :: int
  pp_parse_status :: parse_status
  pp_warnings :: "string list"
  pp_blocks :: "parsed_block list"

text \<open>The service's own exception with its code, and any other exception, which passes through it.\<close>

datatype service_failure = Pdf_Ingestion_Error string | Service_Escaped

record ingestion_result =
  ir_document_id :: string
  ir_version_id :: string
  ir_pdf_sha256 :: string
  ir_source_text_sha256 :: string
  ir_parse_status :: parse_status
  ir_warnings :: "string list"
  ir_strategy :: string
  ir_chunks :: "chunk list"

end
