(* ===== verification/IndexLifecycle.thy ===== *)
theory IndexLifecycle
  imports PostgresFacts CleanupQueue IngestionModels
begin

text \<open>
  The coordinator of the two search indexes (\<^verbatim>\<open>backend/ingestion/index_lifecycle.py\<close>). Its
  collaborators are protocols: a repository, two index writers, a visibility invalidator and a
  cleanup scheduler. Each is a record of functions on a state \<open>'s\<close> that holds the fact source
  and the rest of the world; an exception is \<open>Inl\<close>, and the state it leaves behind is whatever
  the call made of it. What an exception of a writer says is never read: it is \<open>()\<close>.
\<close>

subsection \<open>Collaborators and results\<close>

datatype index_backend = ELASTICSEARCH | MILVUS

fun backend_value :: "index_backend \<Rightarrow> string" where
  "backend_value ELASTICSEARCH = ''elasticsearch_chunks''"
| "backend_value MILVUS = ''milvus_vectors''"

definition backend_upper :: "index_backend \<Rightarrow> string" where
  "backend_upper b = upper (backend_value b)"

datatype inactivation_reason = DELETE | REVOKE | EXPIRE

record index_write_receipt =
  rc_backend :: index_backend
  rc_owner_id :: string
  rc_document_version_id :: string
  rc_chunk_count :: int
  rc_source_chunks_sha256 :: string

record cleanup_request =
  cq_backend :: string
  cq_owner_id :: string
  cq_document_id :: string
  cq_document_version_id :: string

record 's lifecycle_repository =
  lr_transition :: "string \<Rightarrow> string \<Rightarrow> int \<Rightarrow> lifecycle_status \<Rightarrow> patch \<Rightarrow> 's \<Rightarrow>
    (fact_error + version) \<times> 's"
  lr_record_failure :: "string \<Rightarrow> string \<Rightarrow> int \<Rightarrow> index_states \<Rightarrow> string \<Rightarrow> string \<Rightarrow> 's \<Rightarrow>
    (fact_error + (version \<times> ingestion_job)) \<times> 's"
  lr_finalize :: "string \<Rightarrow> string \<Rightarrow> int \<Rightarrow> index_states \<Rightarrow> timestamp \<Rightarrow> string \<Rightarrow> 's \<Rightarrow>
    (fact_error + (version \<times> ingestion_job)) \<times> 's"

record 's index_writer =
  iw_backend :: index_backend
  iw_ensure_staged :: "string \<Rightarrow> string \<Rightarrow> string \<Rightarrow> chunk list \<Rightarrow> 's \<Rightarrow>
    (unit + index_write_receipt) \<times> 's"
  iw_activate :: "string \<Rightarrow> string \<Rightarrow> 's \<Rightarrow> (unit + unit) \<times> 's"
  iw_deactivate :: "string \<Rightarrow> string \<Rightarrow> 's \<Rightarrow> (unit + unit) \<times> 's"

record index_publication_result =
  ip_version :: version
  ip_job :: ingestion_job
  ip_receipts :: "index_write_receipt \<times> index_write_receipt"

record inactivation_result =
  in_version :: version
  in_reason :: inactivation_reason
  in_visibility_invalidated :: bool
  in_deactivated_backends :: "index_backend list"
  in_cleanup_requests :: "cleanup_request list"
  in_failures :: "string list"

text \<open>\<open>Escaped\<close> is an exception of the repository that the code does not catch.\<close>

datatype lifecycle_failure =
    PublicationValueError
  | Escaped fact_error
  | IndexLifecycleError string "string list"
  | InactivationCleanupPendingError inactivation_result

record preparation =
  pr_identity :: document_identity
  pr_version :: version
  pr_job :: ingestion_job
  pr_ingestion :: ingestion_result

subsection \<open>Steps\<close>

fun updated_states :: "index_states \<Rightarrow> index_backend \<Rightarrow> index_state \<Rightarrow> index_states" where
  "updated_states current ELASTICSEARCH x = current\<lparr>elasticsearch_chunks := x\<rparr>"
| "updated_states current MILVUS x = current\<lparr>milvus_vectors := x\<rparr>"

definition validated_writers :: "'s index_writer \<Rightarrow> 's index_writer \<Rightarrow> 's index_writer list option" where
  "validated_writers elasticsearch milvus =
     (if iw_backend elasticsearch \<noteq> ELASTICSEARCH then None
      else if iw_backend milvus \<noteq> MILVUS then None
      else Some [elasticsearch, milvus])"

definition validate_preparation ::
  "(chunk list \<Rightarrow> string) \<Rightarrow> preparation \<Rightarrow> (chunk list \<times> string) option" where
  "validate_preparation fp prep =
     (let v = pr_version prep; j = pr_job prep; chunks = ir_chunks (pr_ingestion prep) in
      if ver_lifecycle_status v \<noteq> PROCESSING then None
      else if ij_status j \<noteq> JOB_RUNNING then None
      else if ij_owner_id j \<noteq> ver_owner_id v \<or> ij_document_id j \<noteq> ver_document_id v \<or>
         ij_document_version_id j \<noteq> ver_document_version_id v then None
      else if ir_parse_status (pr_ingestion prep) \<noteq> PARSE_PASS then None
      else if chunks = [] then None
      else if \<exists>c \<in> set chunks. ch_tenant_id c \<noteq> ver_owner_id v \<or>
         ch_document_id c \<noteq> ver_document_id v \<or>
         ch_version_id c \<noteq> ver_document_version_id v \<or> ch_is_active c then None
      else Some (chunks, fp chunks))"

definition verify_receipt ::
  "index_write_receipt \<Rightarrow> 's index_writer \<Rightarrow> version \<Rightarrow> int \<Rightarrow> string \<Rightarrow> bool" where
  "verify_receipt rc w v expected_count expected_sha256 =
     (if rc_backend rc \<noteq> iw_backend w then False
      else \<not> (rc_owner_id rc \<noteq> ver_owner_id v \<or>
        rc_document_version_id rc \<noteq> ver_document_version_id v \<or>
        rc_chunk_count rc \<noteq> expected_count \<or> rc_source_chunks_sha256 rc \<noteq> expected_sha256))"

fun compensate_deactivation ::
  "'s index_writer list \<Rightarrow> string \<Rightarrow> string \<Rightarrow> 's \<Rightarrow> string list \<times> 's" where
  "compensate_deactivation [] owner vid s = ([], s)"
| "compensate_deactivation (w # ws) owner vid s =
     (let (r, s1) = iw_deactivate w owner vid s;
          (failures, s2) = compensate_deactivation ws owner vid s1 in
      case r of Inr _ \<Rightarrow> (failures, s2)
      | Inl _ \<Rightarrow> ((backend_value (iw_backend w) @ '':deactivate'') # failures, s2))"

definition record_failure ::
  "'s lifecycle_repository \<Rightarrow> version \<Rightarrow> ingestion_job \<Rightarrow> index_backend \<Rightarrow> string \<Rightarrow> 's \<Rightarrow>
     (fact_error + (version \<times> ingestion_job)) \<times> 's" where
  "record_failure R v j b code =
     lr_record_failure R (ver_owner_id v) (ver_document_version_id v) (ver_lifecycle_revision v)
       (updated_states (ver_index_states v) b IX_FAILED) (ij_job_id j) code"

text \<open>Staging and verifying, the body of the first \<^verbatim>\<open>try\<close>.\<close>

definition stage_writer ::
  "'s index_writer \<Rightarrow> version \<Rightarrow> chunk list \<Rightarrow> string \<Rightarrow> 's \<Rightarrow> (unit + index_write_receipt) \<times> 's"
where
  "stage_writer w v chunks sha s =
     (case iw_ensure_staged w (ver_owner_id v) (ver_document_id v) (ver_document_version_id v)
         chunks s of
        (Inl e, s1) \<Rightarrow> (Inl (), s1)
      | (Inr rc, s1) \<Rightarrow>
          if verify_receipt rc w v (int (length chunks)) sha then (Inr rc, s1) else (Inl (), s1))"

fun stage_writers ::
  "'s lifecycle_repository \<Rightarrow> chunk list \<Rightarrow> string \<Rightarrow> 's index_writer list \<Rightarrow> version \<Rightarrow>
     ingestion_job \<Rightarrow> index_write_receipt list \<Rightarrow> 's \<Rightarrow>
     (lifecycle_failure + (version \<times> index_write_receipt list)) \<times> 's"
where
  "stage_writers R chunks sha [] v j receipts s = (Inr (v, receipts), s)"
| "stage_writers R chunks sha (w # ws) v j receipts s =
     (case stage_writer w v chunks sha s of
        (Inl _, s1) \<Rightarrow>
          (let code = backend_upper (iw_backend w) @ ''_STAGE_FAILED'' in
           case record_failure R v j (iw_backend w) code s1 of
             (Inl _, s2) \<Rightarrow>
               (Inl (IndexLifecycleError code [''fact_source:record_failure'']), s2)
           | (Inr _, s2) \<Rightarrow> (Inl (IndexLifecycleError code []), s2))
      | (Inr rc, s1) \<Rightarrow>
          (case lr_transition R (ver_owner_id v) (ver_document_version_id v)
             (ver_lifecycle_revision v) PROCESSING
             [(''index_states'', States (updated_states (ver_index_states v) (iw_backend w) IX_READY)),
              (''failure_code'', Code None)] s1 of
             (Inl e, s2) \<Rightarrow> (Inl (Escaped e), s2)
           | (Inr v', s2) \<Rightarrow> stage_writers R chunks sha ws v' j (receipts @ [rc]) s2))"

fun activate_writers ::
  "'s lifecycle_repository \<Rightarrow> 's index_writer list \<Rightarrow> 's index_writer list \<Rightarrow> version \<Rightarrow>
     ingestion_job \<Rightarrow> 's \<Rightarrow> (lifecycle_failure + unit) \<times> 's"
where
  "activate_writers R all [] v j s = (Inr (), s)"
| "activate_writers R all (w # ws) v j s =
     (case iw_activate w (ver_owner_id v) (ver_document_version_id v) s of
        (Inr _, s1) \<Rightarrow> activate_writers R all ws v j s1
      | (Inl _, s1) \<Rightarrow>
          (let (compensation, s2) = compensate_deactivation all (ver_owner_id v)
                 (ver_document_version_id v) s1;
               code = backend_upper (iw_backend w) @ ''_ACTIVATION_FAILED'' in
           case record_failure R v j (iw_backend w) code s2 of
             (Inl _, s3) \<Rightarrow> (Inl (IndexLifecycleError code
               (compensation @ [''fact_source:record_failure''])), s3)
           | (Inr _, s3) \<Rightarrow> (Inl (IndexLifecycleError code compensation), s3)))"

definition finalize_publication ::
  "'s lifecycle_repository \<Rightarrow> 's index_writer list \<Rightarrow> timestamp \<Rightarrow> version \<Rightarrow> ingestion_job \<Rightarrow>
     's \<Rightarrow> (lifecycle_failure + (version \<times> ingestion_job)) \<times> 's" where
  "finalize_publication R writers now v j s =
     (case lr_finalize R (ver_owner_id v) (ver_document_version_id v) (ver_lifecycle_revision v)
         ready_index_states now (ij_job_id j) s of
        (Inr r, s1) \<Rightarrow> (Inr r, s1)
      | (Inl _, s1) \<Rightarrow>
          (let (compensation, s2) = compensate_deactivation writers (ver_owner_id v)
                 (ver_document_version_id v) s1;
               code = ''INDEX_FINALIZATION_FAILED'' in
           case record_failure R v j ELASTICSEARCH code s2 of
             (Inl _, s3) \<Rightarrow> (Inl (IndexLifecycleError code
               (compensation @ [''fact_source:record_failure''])), s3)
           | (Inr _, s3) \<Rightarrow> (Inl (IndexLifecycleError code compensation), s3)))"

definition publish_prepared_indexes ::
  "(chunk list \<Rightarrow> string) \<Rightarrow> 's lifecycle_repository \<Rightarrow> 's index_writer \<Rightarrow> 's index_writer \<Rightarrow>
     timestamp \<Rightarrow> preparation \<Rightarrow> 's \<Rightarrow> (lifecycle_failure + index_publication_result) \<times> 's"
where
  "publish_prepared_indexes fp R elasticsearch milvus now prep s =
     (case validated_writers elasticsearch milvus of None \<Rightarrow> (Inl PublicationValueError, s)
      | Some writers \<Rightarrow>
     (case validate_preparation fp prep of None \<Rightarrow> (Inl PublicationValueError, s)
      | Some (chunks, sha) \<Rightarrow>
     (case stage_writers R chunks sha writers (pr_version prep) (pr_job prep) [] s of
        (Inl e, s1) \<Rightarrow> (Inl e, s1)
      | (Inr (v, receipts), s1) \<Rightarrow>
     (case activate_writers R writers writers v (pr_job prep) s1 of
        (Inl e, s2) \<Rightarrow> (Inl e, s2)
      | (Inr _, s2) \<Rightarrow>
     (case finalize_publication R writers now v (pr_job prep) s2 of
        (Inl e, s3) \<Rightarrow> (Inl e, s3)
      | (Inr (v', j'), s3) \<Rightarrow>
          (Inr \<lparr>ip_version = v', ip_job = j', ip_receipts = (receipts ! 0, receipts ! 1)\<rparr>, s3))))))"

subsection \<open>Inactivation\<close>

text \<open>One call that may fail, and what is appended to the failures when it does.\<close>

definition attempt :: "('s \<Rightarrow> (unit + unit) \<times> 's) \<Rightarrow> string \<Rightarrow> 's \<Rightarrow> bool \<times> string list \<times> 's" where
  "attempt f label s = (case f s of (Inr _, s') \<Rightarrow> (True, [], s') | (Inl _, s') \<Rightarrow> (False, [label], s'))"

fun retire_writers ::
  "(cleanup_request \<Rightarrow> 's \<Rightarrow> (unit + unit) \<times> 's) \<Rightarrow> version \<Rightarrow> 's index_writer list \<Rightarrow> 's \<Rightarrow>
     index_backend list \<times> cleanup_request list \<times> string list \<times> 's"
where
  "retire_writers enqueue v [] s = ([], [], [], s)"
| "retire_writers enqueue v (w # ws) s =
     (let b = iw_backend w;
          (gone, f1, s1) = attempt (iw_deactivate w (ver_owner_id v) (ver_document_version_id v))
            (backend_value b @ '':deactivate'') s;
          request = \<lparr>cq_backend = backend_value b, cq_owner_id = ver_owner_id v,
            cq_document_id = ver_document_id v,
            cq_document_version_id = ver_document_version_id v\<rparr>;
          (queued, f2, s2) = attempt (enqueue request) (backend_value b @ '':enqueue_cleanup'') s1;
          (gs, qs, fs, s3) = retire_writers enqueue v ws s2
      in ((if gone then [b] else []) @ gs, (if queued then [request] else []) @ qs,
          f1 @ f2 @ fs, s3))"

definition retire_version ::
  "(string \<Rightarrow> string \<Rightarrow> string \<Rightarrow> 's \<Rightarrow> (unit + unit) \<times> 's) \<Rightarrow>
     (cleanup_request \<Rightarrow> 's \<Rightarrow> (unit + unit) \<times> 's) \<Rightarrow> 's index_writer list \<Rightarrow>
     inactivation_reason \<Rightarrow> version \<Rightarrow> 's \<Rightarrow> inactivation_result \<times> 's"
where
  "retire_version invalidate enqueue writers reason v s =
     (let (visible, f1, s1) = attempt (invalidate (ver_owner_id v) (ver_document_id v)
            (ver_document_version_id v)) ''query_visibility:invalidate'' s;
          (gone, queued, f2, s2) = retire_writers enqueue v writers s1;
          request = \<lparr>cq_backend = ''runtime_snapshot'', cq_owner_id = ver_owner_id v,
            cq_document_id = ver_document_id v,
            cq_document_version_id = ver_document_version_id v\<rparr>;
          (q, f3, s3) = attempt (enqueue request) ''runtime_snapshot:enqueue_cleanup'' s2
      in (\<lparr>in_version = v, in_reason = reason, in_visibility_invalidated = visible,
           in_deactivated_backends = gone,
           in_cleanup_requests = queued @ (if q then [request] else []),
           in_failures = f1 @ f2 @ f3\<rparr>, s3))"

definition inactivate_and_schedule_cleanup ::
  "'s lifecycle_repository \<Rightarrow> (string \<Rightarrow> string \<Rightarrow> string \<Rightarrow> 's \<Rightarrow> (unit + unit) \<times> 's) \<Rightarrow>
     (cleanup_request \<Rightarrow> 's \<Rightarrow> (unit + unit) \<times> 's) \<Rightarrow> 's index_writer \<Rightarrow> 's index_writer \<Rightarrow>
     timestamp \<Rightarrow> inactivation_reason \<Rightarrow> version \<Rightarrow> 's \<Rightarrow>
     (lifecycle_failure + inactivation_result) \<times> 's"
where
  "inactivate_and_schedule_cleanup R invalidate enqueue elasticsearch milvus now reason version s =
     (case validated_writers elasticsearch milvus of None \<Rightarrow> (Inl PublicationValueError, s)
      | Some writers \<Rightarrow>
     (case (if ver_lifecycle_status version \<noteq> INACTIVE
            then lr_transition R (ver_owner_id version) (ver_document_version_id version)
              (ver_lifecycle_revision version) INACTIVE
              [(if reason = EXPIRE then ''chunk_expire_time'' else ''delete_time'', Time (Some now))] s
            else (Inr version, s)) of
        (Inl e, s1) \<Rightarrow> (Inl (Escaped e), s1)
      | (Inr v, s1) \<Rightarrow>
          (let (result, s2) = retire_version invalidate enqueue writers reason v s1 in
           if in_failures result \<noteq> [] then (Inl (InactivationCleanupPendingError result), s2)
           else (Inr result, s2))))"

subsection \<open>Contracts\<close>

text \<open>
  \<open>harmless sane online f\<close>: started in a sane state, \<open>f\<close> ends in one and puts no
  version online, whether it returns or raises.
\<close>

definition harmless ::
  "('s \<Rightarrow> bool) \<Rightarrow> ('s \<Rightarrow> string \<Rightarrow> string \<Rightarrow> bool) \<Rightarrow> ('s \<Rightarrow> 'r \<times> 's) \<Rightarrow> bool" where
  "harmless sane online f \<longleftrightarrow> (\<forall>s r s'. sane s \<longrightarrow> f s = (r, s') \<longrightarrow>
     sane s' \<and> (\<forall>a b. online s' a b \<longrightarrow> online s a b))"

lemma harmlessD:
  "harmless sane online f \<Longrightarrow> f s = (r, s') \<Longrightarrow> sane s \<Longrightarrow>
     sane s' \<and> (\<forall>a b. online s' a b \<longrightarrow> online s a b)"
  unfolding harmless_def by blast

lemma harmless_return: "harmless sane online (Pair r)"
  by (simp add: harmless_def)

text \<open>What the coordinator relies on in the repository.\<close>

locale fact_contract =
  fixes R :: "'s lifecycle_repository" and sane :: "'s \<Rightarrow> bool"
    and online :: "'s \<Rightarrow> string \<Rightarrow> string \<Rightarrow> bool"
  assumes transition_harmless:
      "target \<noteq> READY \<Longrightarrow> harmless sane online (lr_transition R w v n target p)"
    and failure_harmless: "harmless sane online (lr_record_failure R w v n ix j code)"
    and finalize_failed: "sane s \<Longrightarrow> lr_finalize R w v n ix t j s = (Inl e, s') \<Longrightarrow>
      sane s' \<and> (online s' a b \<longrightarrow> online s a b)"
    and finalize_done: "sane s \<Longrightarrow> lr_finalize R w v n ix t j s = (Inr (x, k), s') \<Longrightarrow>
      sane s' \<and> online s' w v \<and> is_active x \<and> ver_owner_id x = w \<and>
      ver_document_version_id x = v \<and> ij_status k = JOB_SUCCEEDED"
    and transition_same: "sane s \<Longrightarrow> lr_transition R w v n target p s = (Inr x, s') \<Longrightarrow>
      ver_owner_id x = w \<and> ver_document_version_id x = v"
    and inactive_done: "sane s \<Longrightarrow> lr_transition R w v n INACTIVE p s = (Inr x, s') \<Longrightarrow>
      \<not> online s' w v \<and> ver_lifecycle_status x = INACTIVE"
begin

lemma record_failure_harmless: "harmless sane online (record_failure R v j b code)"
  unfolding record_failure_def by (rule failure_harmless)

end

text \<open>Writers that cannot touch the fact source.\<close>

definition writer_harmless ::
  "('s \<Rightarrow> bool) \<Rightarrow> ('s \<Rightarrow> string \<Rightarrow> string \<Rightarrow> bool) \<Rightarrow> 's index_writer \<Rightarrow> bool" where
  "writer_harmless sane online w \<longleftrightarrow>
     (\<forall>a d v cs. harmless sane online (iw_ensure_staged w a d v cs)) \<and>
     (\<forall>a v. harmless sane online (iw_activate w a v)) \<and>
     (\<forall>a v. harmless sane online (iw_deactivate w a v))"

locale index_publication = fact_contract R sane online
  for R :: "'s lifecycle_repository" and sane :: "'s \<Rightarrow> bool"
    and online :: "'s \<Rightarrow> string \<Rightarrow> string \<Rightarrow> bool" +
  fixes elasticsearch milvus :: "'s index_writer"
  assumes elasticsearch_harmless: "writer_harmless sane online elasticsearch"
    and milvus_harmless: "writer_harmless sane online milvus"
begin

lemma stage_writer_harmless:
  assumes "writer_harmless sane online w"
  shows "harmless sane online (stage_writer w v chunks sha)"
  unfolding harmless_def
proof (intro allI impI)
  fix s r s'
  assume "sane s" and run: "stage_writer w v chunks sha s = (r, s')"
  obtain r1 s1 where st: "iw_ensure_staged w (ver_owner_id v) (ver_document_id v)
      (ver_document_version_id v) chunks s = (r1, s1)"
    by (cases "iw_ensure_staged w (ver_owner_id v) (ver_document_id v)
      (ver_document_version_id v) chunks s")
  have "s' = s1" using run st by (cases r1) (auto simp: stage_writer_def split: if_splits)
  moreover have "harmless sane online (iw_ensure_staged w (ver_owner_id v) (ver_document_id v)
      (ver_document_version_id v) chunks)"
    using assms by (simp add: writer_harmless_def)
  ultimately show "sane s' \<and> (\<forall>a b. online s' a b \<longrightarrow> online s a b)"
    using harmlessD st \<open>sane s\<close> by metis
qed

lemma compensate_harmless:
  assumes "list_all (writer_harmless sane online) ws"
  shows "harmless sane online (compensate_deactivation ws w v)"
  using assms
proof (induction ws)
  case Nil
  then show ?case by (simp add: harmless_def)
next
  case (Cons x ws)
  show ?case unfolding harmless_def
  proof (intro allI impI)
    fix s r s'
    assume "sane s" and run: "compensate_deactivation (x # ws) w v s = (r, s')"
    obtain r1 s1 where x: "iw_deactivate x w v s = (r1, s1)" by (cases "iw_deactivate x w v s")
    obtain fs s2 where ws: "compensate_deactivation ws w v s1 = (fs, s2)"
      by (cases "compensate_deactivation ws w v s1")
    have "harmless sane online (iw_deactivate x w v)"
      using Cons.prems by (simp add: writer_harmless_def)
    from harmlessD [OF this x \<open>sane s\<close>] harmlessD [OF Cons.IH ws] Cons.prems
    have "sane s2 \<and> (\<forall>a b. online s2 a b \<longrightarrow> online s a b)" by simp
    moreover have "s' = s2" using run x ws by (auto split: sum.splits)
    ultimately show "sane s' \<and> (\<forall>a b. online s' a b \<longrightarrow> online s a b)" by simp
  qed
qed

lemma stage_writers_harmless:
  assumes "list_all (writer_harmless sane online) ws" and "sane s"
    and "stage_writers R chunks sha ws v j receipts s = (r, s')"
  shows "sane s' \<and> (\<forall>a b. online s' a b \<longrightarrow> online s a b)"
  using assms
proof (induction ws arbitrary: v receipts s)
  case Nil
  then show ?case by simp
next
  case (Cons w ws)
  have w: "writer_harmless sane online w" using Cons.prems(1) by simp
  obtain r1 s1 where st: "stage_writer w v chunks sha s = (r1, s1)"
    by (cases "stage_writer w v chunks sha s")
  note s1 = harmlessD [OF stage_writer_harmless [OF w] st Cons.prems(2)]
  show ?case
  proof (cases r1)
    case (Inl u)
    let ?code = "backend_upper (iw_backend w) @ ''_STAGE_FAILED''"
    obtain r2 s2 where rec: "record_failure R v j (iw_backend w) ?code s1 = (r2, s2)"
      by (cases "record_failure R v j (iw_backend w) ?code s1")
    with Inl st Cons.prems(3) have "s' = s2" by (cases r2) (auto simp: Let_def)
    with harmlessD [OF record_failure_harmless rec] s1 show ?thesis by blast
  next
    case (Inr rc)
    let ?p = "[(''index_states'', States (updated_states (ver_index_states v) (iw_backend w) IX_READY)),
      (''failure_code'', Code None)]"
    obtain r2 s2 where tr: "lr_transition R (ver_owner_id v) (ver_document_version_id v)
        (ver_lifecycle_revision v) PROCESSING ?p s1 = (r2, s2)"
      by (cases "lr_transition R (ver_owner_id v) (ver_document_version_id v)
        (ver_lifecycle_revision v) PROCESSING ?p s1")
    have "PROCESSING \<noteq> READY" by simp
    note s2 = harmlessD [OF transition_harmless [OF this] tr conjunct1 [OF s1]]
    show ?thesis
    proof (cases r2)
      case (Inl e)
      with Inr st tr Cons.prems(3) s1 s2 show ?thesis by simp
    next
      case (Inr v')
      with \<open>r1 = Inr rc\<close> st tr Cons.prems(3)
      have "stage_writers R chunks sha ws v' j (receipts @ [rc]) s2 = (r, s')" by simp
      from Cons.IH [OF _ _ this] Cons.prems(1) s1 s2 show ?thesis by simp
    qed
  qed
qed

lemma activate_writers_harmless:
  assumes "list_all (writer_harmless sane online) ws" and "list_all (writer_harmless sane online) all"
    and "sane s" and "activate_writers R all ws v j s = (r, s')"
  shows "sane s' \<and> (\<forall>a b. online s' a b \<longrightarrow> online s a b)"
  using assms
proof (induction ws arbitrary: s)
  case Nil
  then show ?case by simp
next
  case (Cons w ws)
  have "harmless sane online (iw_activate w (ver_owner_id v) (ver_document_version_id v))"
    using Cons.prems(1) by (simp add: writer_harmless_def)
  moreover obtain r1 s1 where act: "iw_activate w (ver_owner_id v) (ver_document_version_id v) s = (r1, s1)"
    by (cases "iw_activate w (ver_owner_id v) (ver_document_version_id v) s")
  ultimately have s1: "sane s1 \<and> (\<forall>a b. online s1 a b \<longrightarrow> online s a b)"
    using Cons.prems(3) by (blast dest: harmlessD)
  show ?case
  proof (cases r1)
    case (Inr u)
    with act Cons.prems(4) have "activate_writers R all ws v j s1 = (r, s')" by simp
    from Cons.IH [OF _ Cons.prems(2) _ this] Cons.prems(1) s1 show ?thesis by simp
  next
    case (Inl u)
    obtain fs s2 where comp: "compensate_deactivation all (ver_owner_id v)
        (ver_document_version_id v) s1 = (fs, s2)"
      by (cases "compensate_deactivation all (ver_owner_id v) (ver_document_version_id v) s1")
    let ?code = "backend_upper (iw_backend w) @ ''_ACTIVATION_FAILED''"
    obtain r3 s3 where rec: "record_failure R v j (iw_backend w) ?code s2 = (r3, s3)"
      by (cases "record_failure R v j (iw_backend w) ?code s2")
    have "s' = s3" using Inl act comp rec Cons.prems(4) by (cases r3) (auto simp: Let_def)
    moreover note s2 = harmlessD [OF compensate_harmless [OF Cons.prems(2)] comp conjunct1 [OF s1]]
    moreover note harmlessD [OF record_failure_harmless rec conjunct1 [OF s2]]
    ultimately show ?thesis using s1 by blast
  qed
qed

lemma finalize_failed_harmless:
  assumes "list_all (writer_harmless sane online) ws" and "sane s"
    and "finalize_publication R ws now v j s = (Inl e, s')"
  shows "sane s' \<and> (\<forall>a b. online s' a b \<longrightarrow> online s a b)"
proof -
  from assms(3) obtain e1 s1 where fin: "lr_finalize R (ver_owner_id v) (ver_document_version_id v)
      (ver_lifecycle_revision v) ready_index_states now (ij_job_id j) s = (Inl e1, s1)"
    by (auto simp: finalize_publication_def split: prod.splits sum.splits)
  obtain fs s2 where comp: "compensate_deactivation ws (ver_owner_id v)
      (ver_document_version_id v) s1 = (fs, s2)"
    by (cases "compensate_deactivation ws (ver_owner_id v) (ver_document_version_id v) s1")
  let ?code = "''INDEX_FINALIZATION_FAILED''"
  obtain r3 s3 where rec: "record_failure R v j ELASTICSEARCH ?code s2 = (r3, s3)"
    by (cases "record_failure R v j ELASTICSEARCH ?code s2")
  have "s' = s3" using fin comp rec assms(3)
    by (cases r3) (auto simp: finalize_publication_def Let_def)
  moreover have s1: "sane s1 \<and> (\<forall>a b. online s1 a b \<longrightarrow> online s a b)"
    using finalize_failed [OF assms(2) fin] by blast
  moreover note s2 = harmlessD [OF compensate_harmless [OF assms(1)] comp conjunct1 [OF s1]]
  moreover note harmlessD [OF record_failure_harmless rec conjunct1 [OF s2]]
  ultimately show ?thesis by blast
qed

text \<open>A publication that raises has put nothing online.\<close>

lemma publish_fails_closed:
  assumes "sane s"
    and run: "publish_prepared_indexes fp R elasticsearch milvus now prep s = (Inl e, s')"
  shows "sane s' \<and> (\<forall>a b. online s' a b \<longrightarrow> online s a b)"
proof -
  have ws: "list_all (writer_harmless sane online) [elasticsearch, milvus]"
    by (simp add: elasticsearch_harmless milvus_harmless)
  note run' = run [unfolded publish_prepared_indexes_def validated_writers_def]
  show ?thesis
  proof (cases "iw_backend elasticsearch = ELASTICSEARCH \<and> iw_backend milvus = MILVUS \<and>
      validate_preparation fp prep \<noteq> None")
    case False
    with run' \<open>sane s\<close> show ?thesis by (auto split: if_splits option.splits)
  next
    case True
    then obtain chunks sha where prep: "validate_preparation fp prep = Some (chunks, sha)" by auto
    let ?ws = "[elasticsearch, milvus]"
    obtain r1 s1 where st: "stage_writers R chunks sha ?ws (pr_version prep) (pr_job prep) [] s = (r1, s1)"
      by (cases "stage_writers R chunks sha ?ws (pr_version prep) (pr_job prep) [] s")
    note s1 = stage_writers_harmless [OF ws \<open>sane s\<close> st]
    show ?thesis
    proof (cases r1)
      case (Inl e1)
      with run' True prep st s1 show ?thesis by simp
    next
      case (Inr vr)
      obtain v receipts where vr: "vr = (v, receipts)" by (cases vr)
      obtain r2 s2 where act: "activate_writers R ?ws ?ws v (pr_job prep) s1 = (r2, s2)"
        by (cases "activate_writers R ?ws ?ws v (pr_job prep) s1")
      note s2 = activate_writers_harmless [OF ws ws conjunct1 [OF s1] act]
      show ?thesis
      proof (cases r2)
        case (Inl e2)
        with run' True prep st act Inr vr s1 s2 show ?thesis by simp
      next
        case (Inr u)
        with run' True prep st act \<open>r1 = Inr vr\<close> vr
        have "finalize_publication R ?ws now v (pr_job prep) s2 = (Inl e, s')"
          by (auto split: prod.splits sum.splits)
        from finalize_failed_harmless [OF ws conjunct1 [OF s2] this] s1 s2 show ?thesis by blast
      qed
    qed
  qed
qed

lemma stage_writers_identity:
  assumes "stage_writers R chunks sha ws v j receipts s = (Inr (v', receipts'), s')"
    and "list_all (writer_harmless sane online) ws" and "sane s"
  shows "ver_owner_id v' = ver_owner_id v \<and>
    ver_document_version_id v' = ver_document_version_id v \<and>
    (\<exists>rs. receipts' = receipts @ rs \<and> list_all2 (\<lambda>w rc. rc_backend rc = iw_backend w \<and>
       rc_owner_id rc = ver_owner_id v \<and> rc_document_version_id rc = ver_document_version_id v \<and>
       rc_chunk_count rc = int (length chunks) \<and> rc_source_chunks_sha256 rc = sha) ws rs)"
  using assms
proof (induction ws arbitrary: v receipts s)
  case Nil
  then show ?case by simp
next
  case (Cons w ws)
  have w: "writer_harmless sane online w" "list_all (writer_harmless sane online) ws"
    using Cons.prems(2) by simp_all
  from Cons.prems(1) obtain rc s1 v1 s2 where st: "stage_writer w v chunks sha s = (Inr rc, s1)"
    and tr: "lr_transition R (ver_owner_id v) (ver_document_version_id v)
      (ver_lifecycle_revision v) PROCESSING [(''index_states'', States (updated_states
      (ver_index_states v) (iw_backend w) IX_READY)), (''failure_code'', Code None)] s1 =
      (Inr v1, s2)"
    and rest: "stage_writers R chunks sha ws v1 j (receipts @ [rc]) s2 = (Inr (v', receipts'), s')"
    by (auto simp: Let_def split: prod.splits sum.splits)
  note s1 = harmlessD [OF stage_writer_harmless [OF w(1)] st Cons.prems(3)]
  have "PROCESSING \<noteq> READY" by simp
  note s2 = harmlessD [OF transition_harmless [OF this] tr conjunct1 [OF s1]]
  from transition_same [OF conjunct1 [OF s1] tr] Cons.IH [OF rest w(2) conjunct1 [OF s2]] st
  show ?case
    by (fastforce simp: stage_writer_def verify_receipt_def split: prod.splits sum.splits if_splits)
qed

text \<open>A publication that returns has staged and activated both indexes before the version went
  online, and holds a receipt of each for exactly the chunks of the preparation.\<close>

lemma publish_succeeds:
  assumes "sane s"
    and run: "publish_prepared_indexes fp R elasticsearch milvus now prep s = (Inr res, s')"
  defines "owner \<equiv> ver_owner_id (pr_version prep)"
    and "vid \<equiv> ver_document_version_id (pr_version prep)"
    and "chunks \<equiv> ir_chunks (pr_ingestion prep)"
  shows "sane s' \<and> online s' owner vid \<and> is_active (ip_version res) \<and>
    ver_owner_id (ip_version res) = owner \<and> ver_document_version_id (ip_version res) = vid \<and>
    ij_status (ip_job res) = JOB_SUCCEEDED \<and>
    (\<forall>rc \<in> {fst (ip_receipts res), snd (ip_receipts res)}. rc_owner_id rc = owner \<and>
       rc_document_version_id rc = vid \<and> rc_chunk_count rc = int (length chunks) \<and>
       rc_source_chunks_sha256 rc = fp chunks) \<and>
    rc_backend (fst (ip_receipts res)) = ELASTICSEARCH \<and>
    rc_backend (snd (ip_receipts res)) = MILVUS \<and>
    (\<exists>s1 s2 s3 n. iw_activate elasticsearch owner vid s1 = (Inr (), s2) \<and>
       iw_activate milvus owner vid s2 = (Inr (), s3) \<and>
       lr_finalize R owner vid n ready_index_states now (ij_job_id (pr_job prep)) s3 =
         (Inr (ip_version res, ip_job res), s'))"
proof -
  let ?ws = "[elasticsearch, milvus]"
  have ws: "list_all (writer_harmless sane online) ?ws"
    by (simp add: elasticsearch_harmless milvus_harmless)
  from run have backends: "iw_backend elasticsearch = ELASTICSEARCH" "iw_backend milvus = MILVUS"
    by (auto simp: publish_prepared_indexes_def validated_writers_def split: if_splits)
  with run have "validate_preparation fp prep \<noteq> None"
    by (cases "validate_preparation fp prep")
      (auto simp: publish_prepared_indexes_def validated_writers_def)
  then have prep: "validate_preparation fp prep = Some (chunks, fp chunks)"
    by (auto simp: validate_preparation_def Let_def chunks_def split: if_splits)
  note run' = run [unfolded publish_prepared_indexes_def validated_writers_def]
  obtain v receipts s1 where st: "stage_writers R chunks (fp chunks) ?ws (pr_version prep)
      (pr_job prep) [] s = (Inr (v, receipts), s1)"
    using run' backends prep by (auto split: prod.splits sum.splits)
  obtain s3 where act: "activate_writers R ?ws ?ws v (pr_job prep) s1 = (Inr (), s3)"
    and fin: "finalize_publication R ?ws now v (pr_job prep) s3 =
      (Inr (ip_version res, ip_job res), s')"
    and rcs: "ip_receipts res = (receipts ! 0, receipts ! 1)"
    using run' backends prep st by (auto split: prod.splits sum.splits)
  note ids = stage_writers_identity [OF st ws \<open>sane s\<close>]
  then have v: "ver_owner_id v = owner" "ver_document_version_id v = vid"
    by (simp_all add: owner_def vid_def)
  note s1 = stage_writers_harmless [OF ws \<open>sane s\<close> st]
  note s3 = activate_writers_harmless [OF ws ws conjunct1 [OF s1] act]
  have lr: "lr_finalize R owner vid (ver_lifecycle_revision v) ready_index_states now
      (ij_job_id (pr_job prep)) s3 = (Inr (ip_version res, ip_job res), s')"
    using fin v by (auto simp: finalize_publication_def Let_def split: prod.splits sum.splits)
  note final = finalize_done [OF conjunct1 [OF s3] lr]
  from act v obtain s2 where "iw_activate elasticsearch owner vid s1 = (Inr (), s2)"
    "iw_activate milvus owner vid s2 = (Inr (), s3)"
    by (auto simp: Let_def split: prod.splits sum.splits)
  moreover from ids obtain r1 r2 where "receipts = [r1, r2]"
    "rc_backend r1 = ELASTICSEARCH" "rc_backend r2 = MILVUS"
    "\<forall>rc \<in> {r1, r2}. rc_owner_id rc = owner \<and> rc_document_version_id rc = vid \<and>
       rc_chunk_count rc = int (length chunks) \<and> rc_source_chunks_sha256 rc = fp chunks"
    by (auto simp: list_all2_Cons1 backends owner_def vid_def)
  ultimately show ?thesis using final lr rcs by auto
qed

end

text \<open>The other collaborators of an inactivation.\<close>

locale index_inactivation = index_publication R sane online elasticsearch milvus
  for R :: "'s lifecycle_repository" and sane :: "'s \<Rightarrow> bool"
    and online :: "'s \<Rightarrow> string \<Rightarrow> string \<Rightarrow> bool"
    and elasticsearch milvus :: "'s index_writer" +
  fixes invalidate :: "string \<Rightarrow> string \<Rightarrow> string \<Rightarrow> 's \<Rightarrow> (unit + unit) \<times> 's"
    and enqueue :: "cleanup_request \<Rightarrow> 's \<Rightarrow> (unit + unit) \<times> 's"
  assumes invalidate_harmless: "harmless sane online (invalidate a d v)"
    and enqueue_harmless: "harmless sane online (enqueue q)"
begin

lemma attempt_harmless:
  assumes "harmless sane online f" and "sane s" and "attempt f label s = (ok, fs, s')"
  shows "sane s' \<and> (\<forall>a b. online s' a b \<longrightarrow> online s a b)"
proof -
  obtain r s1 where f: "f s = (r, s1)" by (cases "f s")
  with assms(3) have "s' = s1" by (cases r) (auto simp: attempt_def)
  with harmlessD [OF assms(1) f assms(2)] show ?thesis by simp
qed

lemma retire_writers_harmless:
  assumes "list_all (writer_harmless sane online) ws" and "sane s"
    and "retire_writers enqueue v ws s = (gs, qs, fs, s')"
  shows "sane s' \<and> (\<forall>a b. online s' a b \<longrightarrow> online s a b)"
  using assms
proof (induction ws arbitrary: s s' gs qs fs)
  case Nil
  then show ?case by simp
next
  case (Cons w ws)
  let ?q = "\<lparr>cq_backend = backend_value (iw_backend w), cq_owner_id = ver_owner_id v,
    cq_document_id = ver_document_id v, cq_document_version_id = ver_document_version_id v\<rparr>"
  obtain g f1 s1 where 1: "attempt (iw_deactivate w (ver_owner_id v) (ver_document_version_id v))
      (backend_value (iw_backend w) @ '':deactivate'') s = (g, f1, s1)" by (metis prod_cases3)
  obtain q f2 s2 where 2: "attempt (enqueue ?q)
      (backend_value (iw_backend w) @ '':enqueue_cleanup'') s1 = (q, f2, s2)" by (metis prod_cases3)
  obtain gs' qs' fs' s3 where 3: "retire_writers enqueue v ws s2 = (gs', qs', fs', s3)"
    by (metis prod_cases4)
  have "s' = s3" using Cons.prems(3) 1 2 3 by (auto simp: Let_def)
  have "harmless sane online (iw_deactivate w (ver_owner_id v) (ver_document_version_id v))"
    using Cons.prems(1) by (simp add: writer_harmless_def)
  note s1 = attempt_harmless [OF this Cons.prems(2) 1]
  note s2 = attempt_harmless [OF enqueue_harmless conjunct1 [OF s1] 2]
  from Cons.IH [OF _ conjunct1 [OF s2] 3] Cons.prems(1) s1 s2 \<open>s' = s3\<close> show ?case by simp
qed

lemma retire_version_harmless:
  assumes "sane s" and "retire_version invalidate enqueue [elasticsearch, milvus] reason v s = (res, s')"
  shows "sane s' \<and> (\<forall>a b. online s' a b \<longrightarrow> online s a b)"
proof -
  have ws: "list_all (writer_harmless sane online) [elasticsearch, milvus]"
    by (simp add: elasticsearch_harmless milvus_harmless)
  let ?q = "\<lparr>cq_backend = ''runtime_snapshot'', cq_owner_id = ver_owner_id v,
    cq_document_id = ver_document_id v, cq_document_version_id = ver_document_version_id v\<rparr>"
  obtain vis f1 s1 where 1: "attempt (invalidate (ver_owner_id v) (ver_document_id v)
      (ver_document_version_id v)) ''query_visibility:invalidate'' s = (vis, f1, s1)"
    by (metis prod_cases3)
  obtain gs qs fs s2 where 2: "retire_writers enqueue v [elasticsearch, milvus] s1 = (gs, qs, fs, s2)"
    by (metis prod_cases4)
  obtain q f3 s3 where 3: "attempt (enqueue ?q) ''runtime_snapshot:enqueue_cleanup'' s2 = (q, f3, s3)"
    by (metis prod_cases3)
  have "s' = s3" using assms(2) 1 2 3
    by (simp add: retire_version_def Let_def del: retire_writers.simps)
  note s1 = attempt_harmless [OF invalidate_harmless assms(1) 1]
  note s2 = retire_writers_harmless [OF ws conjunct1 [OF s1] 2]
  note s3 = attempt_harmless [OF enqueue_harmless conjunct1 [OF s2] 3]
  from s1 s2 s3 \<open>s' = s3\<close> show ?thesis by blast
qed

text \<open>Whatever the downstream systems do, the version is offline afterwards.\<close>

lemma inactivation_takes_offline:
  assumes "sane s" and "iw_backend elasticsearch = ELASTICSEARCH" and "iw_backend milvus = MILVUS"
    and offline: "ver_lifecycle_status v = INACTIVE \<Longrightarrow>
      \<not> online s (ver_owner_id v) (ver_document_version_id v)"
    and run: "inactivate_and_schedule_cleanup R invalidate enqueue elasticsearch milvus now reason v s
      = (r, s')"
  shows "sane s' \<and> (\<forall>a b. online s' a b \<longrightarrow> online s a b) \<and>
    ((\<exists>e. r = Inl (Escaped e)) \<or> \<not> online s' (ver_owner_id v) (ver_document_version_id v))"
proof -
  let ?tr = "if ver_lifecycle_status v \<noteq> INACTIVE
    then lr_transition R (ver_owner_id v) (ver_document_version_id v) (ver_lifecycle_revision v)
      INACTIVE [(if reason = EXPIRE then ''chunk_expire_time'' else ''delete_time'', Time (Some now))] s
    else (Inr v, s)"
  obtain r1 s1 where tr: "?tr = (r1, s1)" by (cases ?tr)
  have "INACTIVE \<noteq> READY" by simp
  note harmless = transition_harmless [OF this]
  have s1: "sane s1 \<and> (\<forall>a b. online s1 a b \<longrightarrow> online s a b)"
    using tr assms(1) harmlessD [OF harmless] by (cases "ver_lifecycle_status v = INACTIVE") force+
  show ?thesis
  proof (cases r1)
    case (Inl e)
    with run tr assms(2,3) have "r = Inl (Escaped e)" "s' = s1"
      by (auto simp: inactivate_and_schedule_cleanup_def validated_writers_def)
    with s1 show ?thesis by blast
  next
    case (Inr x)
    have off: "\<not> online s1 (ver_owner_id v) (ver_document_version_id v)"
      using tr Inr offline assms(1) inactive_done
      by (cases "ver_lifecycle_status v = INACTIVE") auto
    obtain res s2 where ret: "retire_version invalidate enqueue [elasticsearch, milvus] reason x s1 =
        (res, s2)" by (metis surj_pair)
    have "s' = s2" using run tr Inr ret assms(2,3)
      by (auto simp: inactivate_and_schedule_cleanup_def validated_writers_def split: if_splits)
    with retire_version_harmless [OF conjunct1 [OF s1] ret] s1 off show ?thesis by blast
  qed
qed

end

end
