(* ===== verification/CleanupWorker.thy ===== *)
theory CleanupWorker
  imports IndexLifecycle RuntimeSnapshots
begin

text \<open>
  Physical cleanup of inactive versions (\<^verbatim>\<open>backend/ingestion/cleanup.py\<close>): the scheduler that
  feeds the queue, the cleaner of runtime snapshots, and the worker that claims a job, deletes the
  version behind one of three cleaners, and settles the job. Collaborators are records of functions
  on a state \<open>'s\<close>; the clock is a function of that state. Seconds become microseconds.
\<close>

subsection \<open>Collaborators\<close>

record 's cleanup_repository =
  clr_enqueue :: "string \<Rightarrow> string \<Rightarrow> string \<Rightarrow> string \<Rightarrow> int \<Rightarrow> 's \<Rightarrow> (fact_error + cleanup_job) \<times> 's"
  clr_claim :: "int \<Rightarrow> 's \<Rightarrow> (fact_error + cleanup_job option) \<times> 's"
  clr_complete :: "string \<Rightarrow> string \<Rightarrow> 's \<Rightarrow> (fact_error + cleanup_job) \<times> 's"
  clr_failure :: "string \<Rightarrow> string \<Rightarrow> string \<Rightarrow> timestamp \<Rightarrow> 's \<Rightarrow> (fact_error + cleanup_job) \<times> 's"

record 's index_cleaner =
  ic_backend :: string
  ic_delete_version :: "string \<Rightarrow> string \<Rightarrow> 's \<Rightarrow> (unit + bool) \<times> 's"

record cleanup_execution_result =
  ce_job :: cleanup_job
  ce_physical_object_existed :: "bool option"

definition execution_succeeded :: "cleanup_execution_result \<Rightarrow> bool" where
  "execution_succeeded r \<longleftrightarrow> cj_status (ce_job r) = CL_SUCCEEDED"

datatype worker_error = WorkerValueError | CleanupWorkerError | WorkerEscaped fact_error

subsection \<open>Scheduler\<close>

definition make_scheduler :: "int \<Rightarrow> int option" where
  "make_scheduler max_attempts = (if max_attempts < 1 then None else Some max_attempts)"

definition scheduler_enqueue ::
  "'s cleanup_repository \<Rightarrow> int \<Rightarrow> cleanup_request \<Rightarrow> 's \<Rightarrow> (unit + unit) \<times> 's" where
  "scheduler_enqueue R max_attempts q s =
     (case clr_enqueue R (cq_backend q) (cq_owner_id q) (cq_document_id q)
         (cq_document_version_id q) max_attempts s of
        (Inl e, s') \<Rightarrow> (Inl (), s') | (Inr j, s') \<Rightarrow> (Inr (), s'))"

subsection \<open>Runtime snapshot cleaner\<close>

definition snapshot_delete_version ::
  "(string \<Rightarrow> string \<Rightarrow> 's \<Rightarrow> (fact_error + pdf_object option) \<times> 's) \<Rightarrow>
     (pdf_object \<Rightarrow> 's \<Rightarrow> (unit + bool) \<times> 's) \<Rightarrow>
     (string \<Rightarrow> string \<Rightarrow> 's \<Rightarrow> (fact_error + unit) \<times> 's) \<Rightarrow>
     string \<Rightarrow> string \<Rightarrow> 's \<Rightarrow> (unit + bool) \<times> 's"
where
  "snapshot_delete_version get_inactive delete_pdf purge owner_id document_version_id s =
     (case get_inactive owner_id document_version_id s of
        (Inl e, s1) \<Rightarrow> (Inl (), s1)
      | (Inr None, s1) \<Rightarrow> (Inr False, s1)
      | (Inr (Some p), s1) \<Rightarrow>
          (case delete_pdf p s1 of
             (Inl e, s2) \<Rightarrow> (Inl (), s2)
           | (Inr existed, s2) \<Rightarrow>
               (case purge owner_id document_version_id s2 of
                  (Inl e, s3) \<Rightarrow> (Inl (), s3)
                | (Inr u, s3) \<Rightarrow> (Inr existed, s3))))"

subsection \<open>Worker\<close>

record 's cleanup_worker =
  cw_cleaners :: "(string \<times> 's index_cleaner) list"
  cw_lease_seconds :: int
  cw_base_retry_seconds :: int
  cw_max_retry_seconds :: int

definition make_worker ::
  "'s index_cleaner \<Rightarrow> 's index_cleaner \<Rightarrow> 's index_cleaner \<Rightarrow> int \<Rightarrow> int \<Rightarrow> int \<Rightarrow>
     's cleanup_worker option" where
  "make_worker elasticsearch milvus runtime_snapshot lease_seconds base_retry max_retry =
     (if ic_backend elasticsearch \<noteq> ''elasticsearch_chunks'' then None
      else if ic_backend milvus \<noteq> ''milvus_vectors'' then None
      else if ic_backend runtime_snapshot \<noteq> ''runtime_snapshot'' then None
      else if lease_seconds < 1 \<or> base_retry < 1 then None
      else if max_retry < base_retry then None
      else Some \<lparr>cw_cleaners = [(''elasticsearch_chunks'', elasticsearch),
          (''milvus_vectors'', milvus), (ic_backend runtime_snapshot, runtime_snapshot)],
        cw_lease_seconds = lease_seconds, cw_base_retry_seconds = base_retry,
        cw_max_retry_seconds = max_retry\<rparr>)"

definition retry_delay :: "'s cleanup_worker \<Rightarrow> cleanup_job \<Rightarrow> int" where
  "retry_delay W j =
     (let exponent = max (cj_attempt_count j - 1) 0 in
      min (cw_base_retry_seconds W * 2 ^ nat exponent) (cw_max_retry_seconds W))"

definition run_once ::
  "('s \<Rightarrow> int) \<Rightarrow> 's cleanup_repository \<Rightarrow> 's cleanup_worker \<Rightarrow> 's \<Rightarrow>
     (worker_error + cleanup_execution_result option) \<times> 's"
where
  "run_once clock R W s =
     (case clr_claim R (cw_lease_seconds W) s of
        (Inl e, s1) \<Rightarrow> (Inl (WorkerEscaped e), s1)
      | (Inr None, s1) \<Rightarrow> (Inr None, s1)
      | (Inr (Some j), s1) \<Rightarrow>
     (case (if cj_status j \<noteq> CL_RUNNING then None else cj_lease_token j) of
        None \<Rightarrow> (Inl CleanupWorkerError, s1)
      | Some token \<Rightarrow>
     (case map_of (cw_cleaners W) (cj_backend j) of
        None \<Rightarrow> (Inl CleanupWorkerError, s1)
      | Some cleaner \<Rightarrow>
     (case ic_delete_version cleaner (cj_owner_id j) (cj_document_version_id j) s1 of
        (Inl u, s2) \<Rightarrow>
          (let failure_code = upper (cj_backend j) @ ''_DELETE_FAILED'';
               retry_at = Aware (clock s2 + retry_delay W j * 1000000) in
           (case clr_failure R (cj_cleanup_id j) token failure_code retry_at s2 of
              (Inl e, s3) \<Rightarrow> (Inl CleanupWorkerError, s3)
            | (Inr failed, s3) \<Rightarrow>
                (Inr (Some \<lparr>ce_job = failed, ce_physical_object_existed = None\<rparr>), s3)))
      | (Inr existed, s2) \<Rightarrow>
          (case clr_complete R (cj_cleanup_id j) token s2 of
             (Inl e, s3) \<Rightarrow> (Inl CleanupWorkerError, s3)
           | (Inr completed, s3) \<Rightarrow>
               (Inr (Some \<lparr>ce_job = completed, ce_physical_object_existed = Some existed\<rparr>), s3))))))"

text \<open>The \<^verbatim>\<open>for _ in range(max_jobs)\<close> loop; an exception ends it and loses the results.\<close>

fun run_jobs ::
  "('s \<Rightarrow> int) \<Rightarrow> 's cleanup_repository \<Rightarrow> 's cleanup_worker \<Rightarrow> nat \<Rightarrow> 's \<Rightarrow>
     (worker_error + cleanup_execution_result list) \<times> 's"
where
  "run_jobs clock R W 0 s = (Inr [], s)"
| "run_jobs clock R W (Suc n) s =
     (case run_once clock R W s of
        (Inl e, s1) \<Rightarrow> (Inl e, s1)
      | (Inr None, s1) \<Rightarrow> (Inr [], s1)
      | (Inr (Some r), s1) \<Rightarrow>
          (case run_jobs clock R W n s1 of
             (Inl e, s2) \<Rightarrow> (Inl e, s2)
           | (Inr rs, s2) \<Rightarrow> (Inr (r # rs), s2)))"

definition run_batch ::
  "('s \<Rightarrow> int) \<Rightarrow> 's cleanup_repository \<Rightarrow> 's cleanup_worker \<Rightarrow> int \<Rightarrow> 's \<Rightarrow>
     (worker_error + cleanup_execution_result list) \<times> 's"
where
  "run_batch clock R W max_jobs s =
     (if max_jobs < 1 then (Inl WorkerValueError, s) else run_jobs clock R W (nat max_jobs) s)"

subsection \<open>Retry delays\<close>

lemma make_worker_delays:
  "make_worker e m r l b mx = Some W \<Longrightarrow>
     1 \<le> cw_base_retry_seconds W \<and> cw_base_retry_seconds W \<le> cw_max_retry_seconds W \<and>
     1 \<le> cw_lease_seconds W"
  by (auto simp: make_worker_def split: if_splits)

text \<open>Exponential backoff: for a worker the constructor accepts, the delay lies between the base
  and the maximum, is the base for the first attempt, never decreases with the attempts, and doubles
  from one attempt to the next until it reaches the maximum.\<close>

theorem retry_delay_backoff:
  assumes "make_worker e m r l b mx = Some W" and "1 \<le> cj_attempt_count j"
    and "cj_attempt_count k = cj_attempt_count j + 1"
  shows "b \<le> retry_delay W j \<and> retry_delay W j \<le> mx \<and> retry_delay W j \<le> retry_delay W k \<and>
    retry_delay W k = min (2 * retry_delay W j) mx \<and>
    (cj_attempt_count j \<noteq> 1 \<or> retry_delay W j = b)"
proof -
  have W: "cw_base_retry_seconds W = b" "cw_max_retry_seconds W = mx" "1 \<le> b" "b \<le> mx"
    using assms(1) by (auto simp: make_worker_def split: if_splits)
  define n where "n = nat (cj_attempt_count j - 1)"
  have j: "retry_delay W j = min (b * 2 ^ n) mx"
    using assms(2) by (simp add: retry_delay_def Let_def W n_def)
  have "nat (max (cj_attempt_count k - 1) 0) = Suc n"
    using assms(2,3) by (simp add: n_def)
  then have k: "retry_delay W k = min (2 * (b * 2 ^ n)) mx"
    by (simp only: retry_delay_def Let_def W) (simp add: ac_simps)
  have "b * 1 \<le> b * 2 ^ n" using W(3) by (intro mult_left_mono) auto
  then have base: "b \<le> b * 2 ^ n" by simp
  have first: "cj_attempt_count j \<noteq> 1 \<or> n = 0" by (simp add: n_def)
  define x where "x = b * 2 ^ n"
  have "cj_attempt_count j \<noteq> 1 \<or> x = b" using first by (auto simp: x_def)
  then show ?thesis unfolding j k x_def [symmetric]
    using base [folded x_def] W(3,4) by (auto simp: min_def)
qed

theorem retry_delay_backoff_witness:
  "retry_delay \<lparr>cw_cleaners = [] :: (string \<times> unit index_cleaner) list, cw_lease_seconds = 300,
     cw_base_retry_seconds = 30, cw_max_retry_seconds = 3600\<rparr> sample_leased = 30 \<and>
   (\<exists>W :: unit cleanup_worker. retry_delay W sample_leased \<le> 3600 \<and> 30 \<le> retry_delay W sample_leased)"
proof -
  let ?cl = "\<lambda>b. \<lparr>ic_backend = b, ic_delete_version = \<lambda>_ _ s :: unit. (Inr True, s)\<rparr>"
  obtain W where W: "make_worker (?cl ''elasticsearch_chunks'') (?cl ''milvus_vectors'')
      (?cl ''runtime_snapshot'') 300 30 3600 = Some W" by (simp add: make_worker_def)
  have n: "cj_attempt_count sample_leased = 1" by code_simp
  from retry_delay_backoff [OF W, of sample_leased "sample_leased\<lparr>cj_attempt_count := 2\<rparr>"] n
  have "30 \<le> retry_delay W sample_leased \<and> retry_delay W sample_leased \<le> 3600" by simp
  with n show ?thesis by (auto simp: retry_delay_def)
qed

subsection \<open>What the worker relies on in the queue\<close>

text \<open>Two workers with the same settings and cleaners that do the same to inactive versions.\<close>

definition same_on_inactive ::
  "('s \<Rightarrow> string \<Rightarrow> string \<Rightarrow> bool) \<Rightarrow> 's cleanup_worker \<Rightarrow> 's cleanup_worker \<Rightarrow> bool" where
  "same_on_inactive inactive W W' \<longleftrightarrow>
     cw_lease_seconds W' = cw_lease_seconds W \<and>
     cw_base_retry_seconds W' = cw_base_retry_seconds W \<and>
     cw_max_retry_seconds W' = cw_max_retry_seconds W \<and>
     list_all2 (\<lambda>(k, c) (k', c'). k' = k \<and> (\<forall>s a v. inactive s a v \<longrightarrow>
        ic_delete_version c' a v s = ic_delete_version c a v s)) (cw_cleaners W) (cw_cleaners W')"

lemma map_of_list_all2:
  assumes "list_all2 (\<lambda>(k, c) (k', c'). k' = k \<and> P c c') xs ys"
  shows "(map_of xs b = None \<and> map_of ys b = None) \<or>
    (\<exists>c c'. map_of xs b = Some c \<and> map_of ys b = Some c' \<and> P c c')"
  using assms by (induction rule: list_all2_induct) auto

locale cleanup_contract =
  fixes R :: "'s cleanup_repository" and sane :: "'s \<Rightarrow> bool"
    and inactive :: "'s \<Rightarrow> string \<Rightarrow> string \<Rightarrow> bool"
  assumes claimed: "sane s \<Longrightarrow> clr_claim R l s = (Inr (Some j), s') \<Longrightarrow>
      sane s' \<and> inactive s' (cj_owner_id j) (cj_document_version_id j) \<and>
      cj_status j = CL_RUNNING \<and> cj_lease_token j \<noteq> None \<and> cleanup_backend_ok (cj_backend j)"
begin

lemma only_inactive_deleted:
  assumes "sane s" and "same_on_inactive inactive W W'"
  shows "run_once clock R W' s = run_once clock R W s"
proof -
  have lease: "cw_lease_seconds W' = cw_lease_seconds W"
    and delay: "retry_delay W' = retry_delay W"
    using assms(2) by (simp_all add: same_on_inactive_def retry_delay_def fun_eq_iff)
  obtain r s1 where claim: "clr_claim R (cw_lease_seconds W) s = (r, s1)"
    by (cases "clr_claim R (cw_lease_seconds W) s")
  show ?thesis
  proof (cases "\<exists>j. r = Inr (Some j)")
    case False
    then show ?thesis unfolding run_once_def lease claim
      by (auto split: sum.splits option.splits)
  next
    case True
    then obtain j where r: "r = Inr (Some j)" by blast
    note c = claimed [OF assms(1) claim [unfolded r]]
    let ?P = "\<lambda>c c'. \<forall>s a v. inactive s a v \<longrightarrow> ic_delete_version c' a v s = ic_delete_version c a v s"
    have "list_all2 (\<lambda>(k, c) (k', c'). k' = k \<and> ?P c c') (cw_cleaners W) (cw_cleaners W')"
      using assms(2) by (simp add: same_on_inactive_def)
    from map_of_list_all2 [OF this, of "cj_backend j"] show ?thesis
      using c unfolding run_once_def lease delay claim r by auto
  qed
qed

lemma worker_finds_cleaner:
  assumes "sane s" and "make_worker e m t l b mx = Some W"
    and "clr_claim R (cw_lease_seconds W) s = (Inr (Some j), s')"
  shows "\<exists>c token. map_of (cw_cleaners W) (cj_backend j) = Some c \<and> cj_status j = CL_RUNNING \<and>
    cj_lease_token j = Some token \<and> c \<in> {e, m, t} \<and> ic_backend c = cj_backend j"
  using claimed [OF assms(1,3)] assms(2)
  by (auto simp: make_worker_def cleanup_backend_ok_def split: if_splits)

end

end
