(* ===== verification/PostgresCollaborators.thy ===== *)
theory PostgresCollaborators
  imports FactRuns CleanupWorker
begin

text \<open>
  The coordinators over the real fact source: their repository protocols are the methods of
  \<open>PostgresFactRepository\<close> on a connection, the rest of the world (search indexes, object store,
  caches) is an arbitrary state \<open>'w\<close> beside it that the writers and cleaners may change as they
  please. \<open>clock c n\<close> and \<open>ids c n\<close> are what the injected clock and id factory return at their
  n-th use in a method called on the connection \<open>c\<close>. The interpretations discharge the contracts.
\<close>

subsection \<open>State\<close>

definition on_facts :: "(conn \<Rightarrow> 'r \<times> conn) \<Rightarrow> conn \<times> 'w \<Rightarrow> 'r \<times> (conn \<times> 'w)" where
  "on_facts m s = (let (r, c') = m (fst s) in (r, (c', snd s)))"

definition on_world :: "('w \<Rightarrow> 'r \<times> 'w) \<Rightarrow> conn \<times> 'w \<Rightarrow> 'r \<times> (conn \<times> 'w)" where
  "on_world m s = (let (r, w') = m (snd s) in (r, (fst s, w')))"

definition facts_sane :: "conn \<times> 'w \<Rightarrow> bool" where
  "facts_sane s \<longleftrightarrow> quiescent (fst s) \<and> db_inv (committed (fst s))"

definition facts_online :: "conn \<times> 'w \<Rightarrow> string \<Rightarrow> string \<Rightarrow> bool" where
  "facts_online s owner vid \<longleftrightarrow> (\<exists>v \<in> set (versions (committed (fst s))).
     ver_owner_id v = owner \<and> ver_document_version_id v = vid \<and> is_active v)"

definition facts_inactive :: "conn \<times> 'w \<Rightarrow> string \<Rightarrow> string \<Rightarrow> bool" where
  "facts_inactive s owner vid \<longleftrightarrow> (\<exists>v \<in> set (versions (committed (fst s))).
     ver_owner_id v = owner \<and> ver_document_version_id v = vid \<and>
     ver_lifecycle_status v = INACTIVE)"

definition postgres_lifecycle :: "(conn \<Rightarrow> nat \<Rightarrow> int) \<Rightarrow> (conn \<times> 'w) lifecycle_repository" where
  "postgres_lifecycle clock =
     \<lparr>lr_transition = (\<lambda>w v n target p s.
        on_facts (transition_version True (clock (fst s) 0) w v n target p) s),
      lr_record_failure = (\<lambda>w v n ix j code s.
        on_facts (record_indexing_failure (clock (fst s) 0) (clock (fst s) 1) w v n ix j code) s),
      lr_finalize = (\<lambda>w v n ix t j s.
        on_facts (finalize_indexing_success (clock (fst s) 0) (clock (fst s) 1) w v n ix t j) s)\<rparr>"

definition postgres_cleanup ::
  "(conn \<Rightarrow> nat \<Rightarrow> int) \<Rightarrow> (conn \<Rightarrow> nat \<Rightarrow> string) \<Rightarrow> (conn \<times> 'w) cleanup_repository" where
  "postgres_cleanup clock ids =
     \<lparr>clr_enqueue = (\<lambda>b w d v k s.
        on_facts (enqueue_cleanup (clock (fst s) 0) (ids (fst s) 0) b w d v k) s),
      clr_claim = (\<lambda>l s. on_facts (claim_cleanup (clock (fst s) 0) (ids (fst s) 0) l) s),
      clr_complete = (\<lambda>cid t s. on_facts (complete_cleanup (clock (fst s) 0) cid t) s),
      clr_failure = (\<lambda>cid t code at s.
        on_facts (record_cleanup_failure (clock (fst s) 0) cid t code at) s)\<rparr>"

definition world_writer :: "'w index_writer \<Rightarrow> (conn \<times> 'w) index_writer" where
  "world_writer w =
     \<lparr>iw_backend = iw_backend w,
      iw_ensure_staged = (\<lambda>a d v cs. on_world (iw_ensure_staged w a d v cs)),
      iw_activate = (\<lambda>a v. on_world (iw_activate w a v)),
      iw_deactivate = (\<lambda>a v. on_world (iw_deactivate w a v))\<rparr>"

subsection \<open>The contracts hold\<close>

lemma on_facts_harmless:
  assumes "\<And>c r c'. quiescent c \<Longrightarrow> db_inv (committed c) \<Longrightarrow> m c = (r, c') \<Longrightarrow>
    quiescent c' \<and> db_inv (committed c') \<and>
    (\<forall>v \<in> set (versions (committed c')). is_active v \<longrightarrow> (\<exists>u \<in> set (versions (committed c)).
       ver_owner_id u = ver_owner_id v \<and>
       ver_document_version_id u = ver_document_version_id v \<and> is_active u))"
  shows "facts_sane s \<Longrightarrow> on_facts m s = (r, s') \<Longrightarrow>
    facts_sane s' \<and> (\<forall>a b. facts_online s' a b \<longrightarrow> facts_online s a b)"
  using assms [of "fst s"] unfolding facts_sane_def facts_online_def on_facts_def
  by (cases "m (fst s)") fastforce

lemma on_world_harmless: "harmless facts_sane facts_online (on_world m)"
  by (auto simp: harmless_def on_world_def facts_sane_def facts_online_def split: prod.splits)

lemma world_writer_harmless: "writer_harmless facts_sane facts_online (world_writer w)"
  by (simp add: writer_harmless_def world_writer_def on_world_harmless)

text \<open>A committed transition, with or without the commit inside.\<close>

lemma transition_True_False:
  assumes "transition_version True now w v n target p c = (Inr x, c')"
  obtains c1 where "transition_version False now w v n target p c = (Inr x, c1)"
    and "committed c' = working c1" and "quiescent c'"
  using assms unfolding transition_version_def
  by (auto simp: transaction_Inr quiescent_def raise_io_def split: if_splits)

lemma transition_committed:
  assumes "transition_version True now w v n target p c = (Inr x, c')" and "quiescent c"
    and "db_inv (committed c)"
  shows "\<exists>u \<in> set (versions (committed c)). version_step u x \<and> ver_lifecycle_status x = target \<and>
    ver_owner_id x = w \<and> ver_document_version_id x = v \<and>
    set (versions (committed c')) = insert x (set (versions (committed c)) - {u}) \<and>
    quiescent c' \<and> db_inv (committed c')"
proof -
  have inv: "db_inv (working c)" using assms(2,3) by (simp add: quiescent_def)
  obtain c1 where run: "transition_version False now w v n target p c = (Inr x, c1)"
    and c': "committed c' = working c1" "quiescent c'"
    using transition_True_False [OF assms(1)] .
  obtain u where u: "u \<in> set (versions (working c))" "ver_owner_id u = w"
    "ver_document_version_id u = v" "version_step u x" "ver_lifecycle_status x = target"
    and upd: "working c1 = (working c)\<lparr>versions := replace_version u x (versions (working c))\<rparr>"
    using transition_success [OF run inv] by blast
  have "set (versions (committed c')) = insert x (set (versions (committed c)) - {u})"
    using set_replace [OF versions_invD(1) [OF inv] u(1)] assms(2) upd c'
    by (simp add: replace_version_def quiescent_def)
  moreover have "db_inv (committed c')" using transition_evolves [OF run assms(2) inv] c' by simp
  ultimately show ?thesis using u c' assms(2)
    by (auto simp: quiescent_def version_step_def same_version_identity_def)
qed

lemma transition_keeps_offline:
  assumes "target \<noteq> READY" and "quiescent c" and "db_inv (committed c)"
    and "transition_version True now w v n target p c = (r, c')"
  shows "quiescent c' \<and> db_inv (committed c') \<and>
    (\<forall>x \<in> set (versions (committed c')). is_active x \<longrightarrow> x \<in> set (versions (committed c)))"
proof (cases r)
  case (Inl e)
  from atomic_error [OF atomic_transition_version assms(2) assms(4) [unfolded Inl]] assms(3)
  show ?thesis by simp
next
  case (Inr x)
  from transition_committed [OF assms(4) [unfolded Inr] assms(2,3)] obtain u where
    "ver_lifecycle_status x = target" "quiescent c'" "db_inv (committed c')"
    "set (versions (committed c')) = insert x (set (versions (committed c)) - {u})" by blast
  with assms(1) show ?thesis by (auto simp: is_active_def)
qed

lemma failure_keeps_offline:
  assumes "quiescent c" and "db_inv (committed c)"
    and "record_indexing_failure now now' w v n ix j code c = (r, c')"
  shows "quiescent c' \<and> db_inv (committed c') \<and>
    (\<forall>x \<in> set (versions (committed c')). is_active x \<longrightarrow> x \<in> set (versions (committed c)))"
proof (cases r)
  case (Inl e)
  from atomic_error [OF atomic_record_indexing_failure assms(1) assms(3) [unfolded Inl]] assms(2)
  show ?thesis by simp
next
  case (Inr xk)
  obtain x k where "xk = (x, k)" by (cases xk)
  with assms(3) Inr have run: "record_indexing_failure now now' w v n ix j code c = (Inr (x, k), c')"
    by simp
  have inv: "db_inv (working c)" using assms(1,2) by (simp add: quiescent_def)
  from run obtain c1 c2 where
    tr: "transition_version False now w v n PROCESSING [(''index_states'', States ix),
      (''failure_code'', Code (Some code))] c = (Inr x, c1)"
    and job: "update_ingestion_job False now' w j JOB_FAILED (Some code) c1 = (Inr k, c2)"
    and c': "committed c' = working c2" "working c' = working c2"
    by (auto simp: record_indexing_failure_def transaction_Inr io_Inr_simps split: if_splits)
  obtain u where u: "u \<in> set (versions (working c))" "ver_lifecycle_status x = PROCESSING"
    and upd: "working c1 = (working c)\<lparr>versions := replace_version u x (versions (working c))\<rparr>"
    using transition_success [OF tr inv] by blast
  have vs: "versions (working c2) = versions (working c1)"
    using update_job_success [OF job transition_evolves [OF tr assms(1) inv]] by blast
  have "set (versions (committed c')) = insert x (set (versions (committed c)) - {u})"
    using set_replace [OF versions_invD(1) [OF inv] u(1)] assms(1) upd c' vs
    by (simp add: replace_version_def quiescent_def)
  moreover have "db_inv (committed c')"
    using evolution.along_quiescent [OF along_record_indexing_failure assms(1) run] assms(2)
    by (simp add: db_evolves_def)
  ultimately show ?thesis using u(2) c' by (auto simp: quiescent_def is_active_def)
qed

lemma same_versions_harmless:
  assumes "m c = (r, c')" and "well_behaved m" and "quiescent c" and "db_inv (committed c)"
    and "versions (committed c') = versions (committed c)"
  shows "quiescent c' \<and> db_inv (committed c') \<and>
    (\<forall>x \<in> set (versions (committed c')). is_active x \<longrightarrow> x \<in> set (versions (committed c)))"
  using assms by (auto simp: well_behaved_def db_evolves_def)

lemma keeps_offline_harmless:
  assumes "\<And>c r c'. quiescent c \<Longrightarrow> db_inv (committed c) \<Longrightarrow> m c c = (r, c') \<Longrightarrow>
    quiescent c' \<and> db_inv (committed c') \<and>
    (\<forall>x \<in> set (versions (committed c')). is_active x \<longrightarrow> x \<in> set (versions (committed c)))"
  shows "harmless facts_sane facts_online (\<lambda>s. on_facts (m (fst s)) s)"
  unfolding harmless_def
proof (intro allI impI)
  fix s :: "conn \<times> 'w" and r s'
  assume sane: "facts_sane s" and run: "on_facts (m (fst s)) s = (r, s')"
  obtain r1 c1 where m: "m (fst s) (fst s) = (r1, c1)" by (cases "m (fst s) (fst s)")
  with run have s': "s' = (c1, snd s)" by (simp add: on_facts_def)
  have "quiescent (fst s)" "db_inv (committed (fst s))" using sane by (simp_all add: facts_sane_def)
  from assms [OF this m] show "facts_sane s' \<and> (\<forall>a b. facts_online s' a b \<longrightarrow> facts_online s a b)"
    unfolding s' facts_sane_def facts_online_def by auto
qed

lemma finalize_committed:
  assumes "finalize_indexing_success now now' w v n ix t j c = (Inr (x, k), c')" and "quiescent c"
    and "db_inv (committed c)"
  shows "quiescent c' \<and> db_inv (committed c') \<and> x \<in> set (versions (committed c')) \<and> is_active x \<and>
    ver_owner_id x = w \<and> ver_document_version_id x = v \<and> ij_status k = JOB_SUCCEEDED"
proof -
  have inv: "db_inv (working c)" using assms(2,3) by (simp add: quiescent_def)
  from assms(1) obtain c1 c2 where
    tr: "transition_version False now w v n READY [(''index_states'', States ix),
      (''vector_index_time'', Time (Some t)), (''failure_code'', Code None)] c = (Inr x, c1)"
    and job: "update_ingestion_job False now' w j JOB_SUCCEEDED None c1 = (Inr k, c2)"
    and c': "committed c' = working c2" "working c' = working c2"
    by (auto simp: finalize_indexing_success_def transaction_Inr io_Inr_simps split: if_splits)
  obtain u where u: "version_step u x" "ver_owner_id u = w" "ver_document_version_id u = v"
    "version_ok x" "ver_lifecycle_status x = READY" "x \<in> set (versions (working c1))"
    using transition_success [OF tr inv] by blast
  obtain i where k: "k = i\<lparr>ij_status := JOB_SUCCEEDED,
      ij_attempt_count := ij_attempt_count i + (if JOB_SUCCEEDED = JOB_RUNNING then 1 else 0),
      ij_failure_code := None, ij_updated_at := Aware now'\<rparr>"
      "versions (working c2) = versions (working c1)"
    using update_job_success [OF job transition_evolves [OF tr assms(2) inv]] by blast
  have "db_inv (committed c')"
    using evolution.along_quiescent [OF along_finalize_indexing_success assms(2,1)] assms(3)
    by (simp add: db_evolves_def)
  then show ?thesis using u k c' ready_version_facts [OF u(4,5)]
    by (simp add: quiescent_def version_step_def same_version_identity_def)
qed

interpretation pg: fact_contract "postgres_lifecycle clock" facts_sane facts_online
  for clock :: "conn \<Rightarrow> nat \<Rightarrow> int"
proof
  fix target :: lifecycle_status and w v n p
  assume "target \<noteq> READY"
  then show "harmless facts_sane facts_online (lr_transition (postgres_lifecycle clock) w v n target p)"
    unfolding postgres_lifecycle_def lifecycle_repository.simps
    by (intro keeps_offline_harmless [where m = "\<lambda>c. transition_version True (clock c 0) w v n target p"])
      (rule transition_keeps_offline)
next
  fix w v n ix j code
  show "harmless facts_sane facts_online
      (lr_record_failure (postgres_lifecycle clock) w v n ix j code)"
    unfolding postgres_lifecycle_def lifecycle_repository.simps
    by (intro keeps_offline_harmless
        [where m = "\<lambda>c. record_indexing_failure (clock c 0) (clock c 1) w v n ix j code"])
      (rule failure_keeps_offline)
next
  fix s :: "conn \<times> 'w" and w v n ix t j e s' a b
  assume sane: "facts_sane s"
    and run: "lr_finalize (postgres_lifecycle clock) w v n ix t j s = (Inl e, s')"
  then obtain c' where m: "finalize_indexing_success (clock (fst s) 0) (clock (fst s) 1) w v n ix t j
      (fst s) = (Inl e, c')" and s': "s' = (c', snd s)"
    by (auto simp: postgres_lifecycle_def on_facts_def split: prod.splits)
  have "quiescent (fst s)" using sane by (simp add: facts_sane_def)
  from atomic_error [OF atomic_finalize_indexing_success this m] sane
  show "facts_sane s' \<and> (facts_online s' a b \<longrightarrow> facts_online s a b)"
    by (simp add: s' facts_sane_def facts_online_def)
next
  fix s :: "conn \<times> 'w" and w v n ix t j x k s'
  assume sane: "facts_sane s"
    and run: "lr_finalize (postgres_lifecycle clock) w v n ix t j s = (Inr (x, k), s')"
  then obtain c' where m: "finalize_indexing_success (clock (fst s) 0) (clock (fst s) 1) w v n ix t j
      (fst s) = (Inr (x, k), c')" and s': "s' = (c', snd s)"
    by (auto simp: postgres_lifecycle_def on_facts_def split: prod.splits)
  have "quiescent (fst s)" "db_inv (committed (fst s))" using sane by (simp_all add: facts_sane_def)
  from finalize_committed [OF m this]
  show "facts_sane s' \<and> facts_online s' w v \<and> is_active x \<and> ver_owner_id x = w \<and>
      ver_document_version_id x = v \<and> ij_status k = JOB_SUCCEEDED"
    by (auto simp: s' facts_sane_def facts_online_def)
next
  fix s :: "conn \<times> 'w" and w v n target p x s'
  assume sane: "facts_sane s"
    and run: "lr_transition (postgres_lifecycle clock) w v n target p s = (Inr x, s')"
  then obtain c' where m: "transition_version True (clock (fst s) 0) w v n target p (fst s) =
      (Inr x, c')" by (auto simp: postgres_lifecycle_def on_facts_def split: prod.splits)
  have "quiescent (fst s)" "db_inv (committed (fst s))" using sane by (simp_all add: facts_sane_def)
  from transition_committed [OF m this] show "ver_owner_id x = w \<and> ver_document_version_id x = v"
    by blast
next
  fix s :: "conn \<times> 'w" and w v n p x s'
  assume sane: "facts_sane s"
    and run: "lr_transition (postgres_lifecycle clock) w v n INACTIVE p s = (Inr x, s')"
  then obtain c' where m: "transition_version True (clock (fst s) 0) w v n INACTIVE p (fst s) =
      (Inr x, c')" and s': "s' = (c', snd s)"
    by (auto simp: postgres_lifecycle_def on_facts_def split: prod.splits)
  have "quiescent (fst s)" "db_inv (committed (fst s))" using sane by (simp_all add: facts_sane_def)
  from transition_committed [OF m this] obtain u where
    x: "ver_lifecycle_status x = INACTIVE" "ver_owner_id x = w" "ver_document_version_id x = v"
      "x \<in> set (versions (committed c'))" "db_inv (committed c')" by blast
  have "y = x" if "y \<in> set (versions (committed c'))" "ver_document_version_id y = v" for y
    using keyed_unique [OF versions_invD(1) [OF x(5)] that(1) x(4)] that(2) x(3) by simp
  with x(1) show "\<not> facts_online s' w v \<and> ver_lifecycle_status x = INACTIVE"
    by (auto simp: s' facts_online_def is_active_def)
qed

interpretation pg_index: index_publication "postgres_lifecycle clock" facts_sane facts_online
  "world_writer elasticsearch" "world_writer milvus"
  for clock :: "conn \<Rightarrow> nat \<Rightarrow> int" and elasticsearch milvus :: "'w index_writer"
  by unfold_locales (rule world_writer_harmless)+

definition postgres_enqueue ::
  "(conn \<Rightarrow> nat \<Rightarrow> int) \<Rightarrow> (conn \<Rightarrow> nat \<Rightarrow> string) \<Rightarrow> int \<Rightarrow> cleanup_request \<Rightarrow> conn \<times> 'w \<Rightarrow>
     (unit + unit) \<times> (conn \<times> 'w)" where
  "postgres_enqueue clock ids max_attempts =
     scheduler_enqueue (postgres_cleanup clock ids) max_attempts"

lemma sql_enqueue_versions:
  "sql_enqueue_cleanup cand d = Inr (row, d') \<Longrightarrow> versions d' = versions d"
  by (auto simp: sql_enqueue_cleanup_def split: if_splits option.splits)

lemma enqueue_cleanup_versions:
  assumes "enqueue_cleanup now cid b w doc vid k c = (r, c')" and "quiescent c"
  shows "versions (committed c') = versions (committed c)"
proof (cases r)
  case (Inl e)
  from atomic_error [OF atomic_enqueue_cleanup assms(2) assms(1) [unfolded Inl]] show ?thesis by simp
next
  case (Inr j)
  with assms show ?thesis
    by (auto simp: enqueue_cleanup_def transaction_Inr io_Inr_simps quiescent_def
        split: sum.splits option.splits if_splits dest: sql_enqueue_versions)
qed

lemma enqueue_harmless: "harmless facts_sane facts_online (postgres_enqueue clock ids k q)"
  unfolding harmless_def
proof (intro allI impI)
  fix s :: "conn \<times> 'w" and r s'
  assume sane: "facts_sane s" and run: "postgres_enqueue clock ids k q s = (r, s')"
  obtain r1 c' where m: "enqueue_cleanup (clock (fst s) 0) (ids (fst s) 0) (cq_backend q)
      (cq_owner_id q) (cq_document_id q) (cq_document_version_id q) k (fst s) = (r1, c')"
    by (cases "enqueue_cleanup (clock (fst s) 0) (ids (fst s) 0) (cq_backend q)
      (cq_owner_id q) (cq_document_id q) (cq_document_version_id q) k (fst s)")
  with run have s': "s' = (c', snd s)"
    by (cases r1) (auto simp: postgres_enqueue_def scheduler_enqueue_def postgres_cleanup_def
        on_facts_def)
  have q: "quiescent (fst s)" "db_inv (committed (fst s))" using sane by (simp_all add: facts_sane_def)
  let ?m = "enqueue_cleanup (clock (fst s) 0) (ids (fst s) 0) (cq_backend q)
      (cq_owner_id q) (cq_document_id q) (cq_document_version_id q) k"
  have "well_behaved ?m"
    by (rule well_behaved_atomic [OF along_enqueue_cleanup atomic_enqueue_cleanup])
  with same_versions_harmless [where m = ?m, OF m _ q enqueue_cleanup_versions [OF m q(1)]]
  show "facts_sane s' \<and> (\<forall>a b. facts_online s' a b \<longrightarrow> facts_online s a b)"
    by (auto simp: s' facts_sane_def facts_online_def)
qed

interpretation pg_inactivation: index_inactivation "postgres_lifecycle clock" facts_sane facts_online
  "world_writer elasticsearch" "world_writer milvus" "\<lambda>a d v. on_world (invalidate a d v)"
  "postgres_enqueue clock ids max_attempts"
  for clock :: "conn \<Rightarrow> nat \<Rightarrow> int" and elasticsearch milvus :: "'w index_writer"
    and invalidate :: "string \<Rightarrow> string \<Rightarrow> string \<Rightarrow> 'w \<Rightarrow> (unit + unit) \<times> 'w"
    and ids :: "conn \<Rightarrow> nat \<Rightarrow> string" and max_attempts :: int
  by unfold_locales (rule on_world_harmless enqueue_harmless)+

text \<open>The contract holds with every other queue that puts nothing online.\<close>

lemma any_queue_inactivation:
  assumes "\<forall>q. harmless facts_sane facts_online (enqueue q)"
  shows "index_inactivation (postgres_lifecycle clock) facts_sane facts_online (world_writer elasticsearch)
    (world_writer milvus) (\<lambda>a d v. on_world (invalidate a d v)) enqueue"
  by unfold_locales (use assms in \<open>simp_all add: on_world_harmless\<close>)

interpretation pg_cleanup: cleanup_contract "postgres_cleanup clock ids" facts_sane facts_inactive
  for clock :: "conn \<Rightarrow> nat \<Rightarrow> int" and ids :: "conn \<Rightarrow> nat \<Rightarrow> string"
proof
  fix s :: "conn \<times> 'w" and l j s'
  assume sane: "facts_sane s" and run: "clr_claim (postgres_cleanup clock ids) l s = (Inr (Some j), s')"
  then obtain c' where m: "claim_cleanup (clock (fst s) 0) (ids (fst s) 0) l (fst s) =
      (Inr (Some j), c')" and s': "s' = (c', snd s)"
    by (auto simp: postgres_cleanup_def on_facts_def split: prod.splits)
  have q: "quiescent (fst s)" "db_inv (committed (fst s))" "db_inv (working (fst s))"
    using sane by (simp_all add: facts_sane_def quiescent_def)
  from claim_cleanup_cases [OF m q(3)] obtain i where
    j: "j = lease_job (clock (fst s) 0) (ids (fst s) 0) (clock (fst s) 0 + l * 1000000) i"
    and ok: "cleanup_ok j" and "quiescent c'"
    and upd: "committed c' = (recovered (clock (fst s) 0) (working (fst s)))\<lparr>cleanups :=
      update_rows (\<lambda>r. cj_cleanup_id r = cj_cleanup_id i) (\<lambda>_. j)
        (cleanups (recovered (clock (fst s) 0) (working (fst s))))\<rparr>"
    and i: "i \<in> set (cleanups (recovered (clock (fst s) 0) (working (fst s))))" by blast
  have inv: "db_inv (committed c')"
    using evolution.along_quiescent [OF along_claim_cleanup q(1) m] q(2) by (simp add: db_evolves_def)
  have "j \<in> set (cleanups (committed c'))"
    using i upd unfolding upd by (auto simp: set_update_rows)
  with cleanups_invD(4) [OF inv] have "inactive_version (committed c') (cj_document_version_id j)
      (cj_owner_id j) (cj_document_id j)" by blast
  then have "facts_inactive s' (cj_owner_id j) (cj_document_version_id j)"
    by (auto simp: s' facts_inactive_def inactive_version_def version_matches_def)
  with inv \<open>quiescent c'\<close> ok j show "facts_sane s' \<and>
      facts_inactive s' (cj_owner_id j) (cj_document_version_id j) \<and> cj_status j = CL_RUNNING \<and>
      cj_lease_token j \<noteq> None \<and> cleanup_backend_ok (cj_backend j)"
    by (simp add: s' facts_sane_def lease_job_def cleanup_ok_def)
qed

subsection \<open>Properties of the coordinators\<close>

text \<open>C4. Publication fails closed: with the fact source on PostgreSQL and any two index writers,
  whatever they do or raise and whatever the database refuses, a publication that raises leaves the
  fact source intact with nothing pending and has put no version of any document online.\<close>

theorem publication_fails_closed:
  assumes "facts_sane s"
    and "publish_prepared_indexes fp (postgres_lifecycle clock) (world_writer es) (world_writer mv)
      now prep s = (Inl e, s')"
  shows "facts_sane s' \<and> (\<forall>a b. facts_online s' a b \<longrightarrow> facts_online s a b)"
  using assms by (rule pg_index.publish_fails_closed)

text \<open>The index writers of the instances: they stage and activate in a world that counts calls;
  \<open>ok\<close> says whether activation works.\<close>

definition sample_writer :: "index_backend \<Rightarrow> bool \<Rightarrow> nat index_writer" where
  "sample_writer b ok =
     \<lparr>iw_backend = b,
      iw_ensure_staged = (\<lambda>a d v cs n. (Inr \<lparr>rc_backend = b, rc_owner_id = a,
        rc_document_version_id = v, rc_chunk_count = int (length cs),
        rc_source_chunks_sha256 = sample_hash CHR ''f''\<rparr>, n + 1)),
      iw_activate = (\<lambda>a v n. (if ok then Inr () else Inl (), n + 1)),
      iw_deactivate = (\<lambda>a v n. (if ok then Inr () else Inl (), n + 1))\<rparr>"

definition sample_preparation :: preparation where
  "sample_preparation =
     \<lparr>pr_identity = sample_document ''paper2'' ''doc2'', pr_version = sample_processing,
      pr_job = sample_job,
      pr_ingestion = \<lparr>ir_document_id = ''doc2'', ir_version_id = ''v_new'',
        ir_pdf_sha256 = sample_hash CHR ''c'', ir_source_text_sha256 = sample_hash CHR ''e'',
        ir_parse_status = PARSE_PASS, ir_warnings = [], ir_strategy = ''s1'',
        ir_chunks = [(sample_chunk ''chunk9'')\<lparr>ch_document_id := ''doc2'',
          ch_version_id := ''v_new''\<rparr>]\<rparr>\<rparr>"

definition sample_publish :: "bool \<Rightarrow> (lifecycle_failure + index_publication_result) \<times> (conn \<times> nat)" where
  "sample_publish ok = publish_prepared_indexes (\<lambda>_. sample_hash CHR ''f'')
     (postgres_lifecycle (\<lambda>c n. 20)) (world_writer (sample_writer ELASTICSEARCH True))
     (world_writer (sample_writer MILVUS ok)) (Aware 15) sample_preparation (connected sample_db, 0)"

lemma sample_state_sane: "facts_sane (connected sample_db, w)"
  by (simp add: facts_sane_def sample_db_inv)

theorem publication_fails_closed_witness:
  "\<not> facts_online (snd (sample_publish False)) ''alice'' ''v_new''"
proof -
  have "case fst (sample_publish False) of Inl _ \<Rightarrow> True | Inr _ \<Rightarrow> False" by code_simp
  then obtain e where "fst (sample_publish False) = Inl e" by (cases "fst (sample_publish False)") auto
  then have "sample_publish False = (Inl e, snd (sample_publish False))" by (metis prod.collapse)
  from publication_fails_closed [OF sample_state_sane this [unfolded sample_publish_def]]
  have "facts_online (snd (sample_publish False)) ''alice'' ''v_new'' \<longrightarrow>
      facts_online (connected sample_db, 0 :: nat) ''alice'' ''v_new''"
    by (simp add: sample_publish_def)
  moreover have "\<not> facts_online (connected sample_db, 0 :: nat) ''alice'' ''v_new''" by code_simp
  ultimately show ?thesis by blast
qed

text \<open>C31. Publication succeeds only with complete evidence: when it returns, the version is online in
  the committed database and its job SUCCEEDED, each index has given a receipt of its own for exactly
  this version, chunk count and fingerprint, and both indexes had been activated, Elasticsearch
  first, before the single finalizing commit.\<close>

theorem publication_reaches_ready:
  assumes "facts_sane s"
    and "publish_prepared_indexes fp (postgres_lifecycle clock) (world_writer es) (world_writer mv)
      now prep s = (Inr res, s')"
  shows "facts_online s' (ver_owner_id (pr_version prep)) (ver_document_version_id (pr_version prep)) \<and>
    is_active (ip_version res) \<and> ij_status (ip_job res) = JOB_SUCCEEDED \<and>
    rc_backend (fst (ip_receipts res)) = ELASTICSEARCH \<and>
    rc_backend (snd (ip_receipts res)) = MILVUS \<and>
    (\<forall>rc \<in> {fst (ip_receipts res), snd (ip_receipts res)}.
       rc_owner_id rc = ver_owner_id (pr_version prep) \<and>
       rc_document_version_id rc = ver_document_version_id (pr_version prep) \<and>
       rc_chunk_count rc = int (length (ir_chunks (pr_ingestion prep))) \<and>
       rc_source_chunks_sha256 rc = fp (ir_chunks (pr_ingestion prep))) \<and>
    (\<exists>s1 s2 s3 n.
       iw_activate (world_writer es) (ver_owner_id (pr_version prep))
         (ver_document_version_id (pr_version prep)) s1 = (Inr (), s2) \<and>
       iw_activate (world_writer mv) (ver_owner_id (pr_version prep))
         (ver_document_version_id (pr_version prep)) s2 = (Inr (), s3) \<and>
       lr_finalize (postgres_lifecycle clock) (ver_owner_id (pr_version prep))
         (ver_document_version_id (pr_version prep)) n ready_index_states now
         (ij_job_id (pr_job prep)) s3 = (Inr (ip_version res, ip_job res), s'))"
  using pg_index.publish_succeeds [OF assms] by blast

theorem publication_reaches_ready_witness:
  "facts_online (snd (sample_publish True)) ''alice'' ''v_new''"
proof -
  have "case fst (sample_publish True) of Inl _ \<Rightarrow> False | Inr _ \<Rightarrow> True" by code_simp
  then obtain r where "fst (sample_publish True) = Inr r" by (cases "fst (sample_publish True)") auto
  then have "sample_publish True = (Inr r, snd (sample_publish True))" by (metis prod.collapse)
  from publication_reaches_ready [OF sample_state_sane this [unfolded sample_publish_def]]
  have "facts_online (snd (sample_publish True)) (ver_owner_id (pr_version sample_preparation))
      (ver_document_version_id (pr_version sample_preparation))"
    by (simp add: sample_publish_def)
  moreover have "ver_owner_id (pr_version sample_preparation) = ''alice''"
    "ver_document_version_id (pr_version sample_preparation) = ''v_new''" by code_simp+
  ultimately show ?thesis by simp
qed

text \<open>C32. Inactivation is fact first, for any index writers and visibility cache, and for any cleanup
  queue that itself puts nothing online (the queue in PostgreSQL is one). Let the record the caller
  passes not say INACTIVE, or say it truly, the version not being online. Once an inactivation gets past
  its own commit the version is offline, whether the call returns or raises because some downstream
  step is pending; nothing else comes online either. Only an exception of the commit itself leaves it as
  it was. (A record that says INACTIVE of a version that is online is trusted: no transition is made.)\<close>

theorem inactivation_is_fact_first:
  assumes "facts_sane s" and "iw_backend es = ELASTICSEARCH" and "iw_backend mv = MILVUS"
    and "\<forall>q. harmless facts_sane facts_online (enqueue q)"
    and "ver_lifecycle_status v \<noteq> INACTIVE \<or>
      \<not> facts_online s (ver_owner_id v) (ver_document_version_id v)"
    and "inactivate_and_schedule_cleanup (postgres_lifecycle clock)
      (\<lambda>a d v. on_world (invalidate a d v)) enqueue (world_writer es)
      (world_writer mv) now reason v s = (r, s')"
  shows "facts_sane s' \<and> (\<forall>a b. facts_online s' a b \<longrightarrow> facts_online s a b) \<and>
    ((\<exists>e. r = Inl (Escaped e)) \<or>
     \<not> facts_online s' (ver_owner_id v) (ver_document_version_id v))"
  using assms(2,3,5)
  by (intro index_inactivation.inactivation_takes_offline [OF any_queue_inactivation [OF assms(4)] assms(1) _ _ _ assms(6)])
    (auto simp: world_writer_def)

definition sample_inactivate :: "(lifecycle_failure + inactivation_result) \<times> (conn \<times> nat)" where
  "sample_inactivate = inactivate_and_schedule_cleanup (postgres_lifecycle (\<lambda>c n. 20))
     (\<lambda>a d v. on_world (\<lambda>n :: nat. (Inl (), n + 1)))
     (postgres_enqueue (\<lambda>c n. 20) (\<lambda>c n. ''cleanup9'') 5)
     (world_writer (sample_writer ELASTICSEARCH False)) (world_writer (sample_writer MILVUS True))
     (Aware 16) DELETE sample_ready (connected sample_db, 0)"

theorem inactivation_is_fact_first_witness:
  "\<not> facts_online (snd sample_inactivate) ''alice'' ''v_ready''"
proof -
  have run: "sample_inactivate = (fst sample_inactivate, snd sample_inactivate)" by simp
  have ids: "ver_owner_id sample_ready = ''alice''" "ver_document_version_id sample_ready = ''v_ready''"
    "ver_lifecycle_status sample_ready \<noteq> INACTIVE"
    "iw_backend (sample_writer ELASTICSEARCH False) = ELASTICSEARCH"
    "iw_backend (sample_writer MILVUS True) = MILVUS" by code_simp+
  have "case fst sample_inactivate of Inl (Escaped _) \<Rightarrow> False | _ \<Rightarrow> True" by code_simp
  then have "\<nexists>e. fst sample_inactivate = Inl (Escaped e)" by auto
  with inactivation_is_fact_first [OF sample_state_sane ids(4,5) _ _ run [unfolded sample_inactivate_def]]
    ids show ?thesis by (simp add: sample_inactivate_def enqueue_harmless)
qed

text \<open>C37. Physical deletion touches only inactive versions: what the worker does is determined by how
  its cleaners treat versions that are INACTIVE in the committed fact source. Replacing the cleaners
  by others that agree there, and may do anything to live versions, changes neither the result nor
  the state.\<close>

theorem worker_deletes_only_inactive:
  assumes "facts_sane s" and "same_on_inactive facts_inactive W W'"
  shows "run_once tick (postgres_cleanup clock ids) W' s =
    run_once tick (postgres_cleanup clock ids) W s"
  using assms by (rule pg_cleanup.only_inactive_deleted)

definition sample_worker :: "bool \<Rightarrow> (conn \<times> unit) cleanup_worker" where
  "sample_worker guarded =
     (let cleaner = (\<lambda>b. \<lparr>ic_backend = b, ic_delete_version = (\<lambda>a v s.
        if guarded \<and> \<not> facts_inactive s a v then (Inl (), s) else (Inr True, s))\<rparr>) in
      \<lparr>cw_cleaners = map (\<lambda>b. (b, cleaner b))
         [''elasticsearch_chunks'', ''milvus_vectors'', ''runtime_snapshot''],
       cw_lease_seconds = 300, cw_base_retry_seconds = 30, cw_max_retry_seconds = 3600\<rparr>)"

definition sample_work :: "bool \<Rightarrow> (worker_error + cleanup_execution_result option) \<times> (conn \<times> unit)" where
  "sample_work guarded = run_once (\<lambda>_. 100) (postgres_cleanup (\<lambda>c n. 100) (\<lambda>c n. ''lease9''))
     (sample_worker guarded) (connected sample_db, ())"

theorem worker_deletes_only_inactive_witness: "sample_work True = sample_work False"
proof -
  have "same_on_inactive facts_inactive (sample_worker False) (sample_worker True)"
    by (auto simp: same_on_inactive_def sample_worker_def Let_def)
  from worker_deletes_only_inactive [OF sample_state_sane this] show ?thesis
    unfolding sample_work_def by simp
qed

lemma complete_cleanup_success:
  assumes "complete_cleanup now cid token c = (Inr k, c')" and "quiescent c"
    and "db_inv (committed c)"
  shows "k \<in> set (cleanups (committed c')) \<and> cj_status k = CL_SUCCEEDED \<and> quiescent c' \<and>
    db_inv (committed c')"
proof -
  have inv: "db_inv (working c)" using assms(2,3) by (simp add: quiescent_def)
  from assms(1) obtain row where sql: "sql_settle_cleanup cid token (finish_job now) (working c) =
      Inr (Some row, committed c')" and k: "validate_cleanup row = Inr k" and q: "quiescent c'"
    by (auto simp: complete_cleanup_def transaction_Inr io_Inr_simps sql_complete_cleanup_def
        quiescent_def split: option.splits)
  from sql obtain j where found: "find (leased_as cid token) (cleanups (working c)) = Some j"
    by (auto simp: sql_settle_cleanup_def split: option.splits)
  then have j: "j \<in> set (cleanups (working c))" "leased_as cid token j" by (auto dest: find_SomeD)
  from sql found have check: "cleanup_check (finish_job now j)" and row: "row = finish_job now j"
    by (auto simp: sql_settle_cleanup_def split: if_splits)
  have "cleanup_ok j" using cleanups_invD(3) [OF inv] j(1) by blast
  with check have "k = row" using k row finish_job_ok [of j now] by (simp add: validate_cleanup_ok)
  moreover have "row \<in> set (cleanups (committed c'))"
    using settle_leased [where f = "finish_job now", OF inv j check] sql row by simp
  moreover have "db_inv (committed c')"
    using evolution.along_quiescent [OF along_complete_cleanup assms(2,1)] assms(3)
    by (simp add: db_evolves_def)
  ultimately show ?thesis using q row by (simp add: finish_job_def)
qed

lemma cleanup_failure_success:
  assumes "record_cleanup_failure now cid token code at c = (Inr k, c')" and "quiescent c"
    and "db_inv (committed c)"
  shows "k \<in> set (cleanups (committed c')) \<and> cj_failure_code k = Some code \<and>
    cj_next_attempt_at k = at \<and> quiescent c' \<and> db_inv (committed c') \<and>
    cj_status k = (if cj_attempt_count k \<ge> cj_max_attempts k then CL_FAILED else CL_RETRY)"
proof -
  have inv: "db_inv (working c)" using assms(2,3) by (simp add: quiescent_def)
  from assms(1) obtain row where sql: "sql_settle_cleanup cid token (fail_attempt now at code)
      (working c) = Inr (Some row, committed c')" and k: "validate_cleanup row = Inr k"
    and q: "quiescent c'" and "aware at"
    by (auto simp: record_cleanup_failure_def transaction_Inr io_Inr_simps
        sql_record_cleanup_failure_def quiescent_def split: option.splits if_splits)
  from sql obtain j where found: "find (leased_as cid token) (cleanups (working c)) = Some j"
    by (auto simp: sql_settle_cleanup_def split: option.splits)
  then have j: "j \<in> set (cleanups (working c))" "leased_as cid token j" by (auto dest: find_SomeD)
  from sql found have check: "cleanup_check (fail_attempt now at code j)"
    and row: "row = fail_attempt now at code j"
    by (auto simp: sql_settle_cleanup_def split: if_splits)
  have "cleanup_ok j" using cleanups_invD(3) [OF inv] j(1) by blast
  with check have "k = row"
    using k row fail_attempt_ok [OF _ \<open>aware at\<close>, of j now code] by (simp add: validate_cleanup_ok)
  moreover have "row \<in> set (cleanups (committed c'))"
    using settle_leased [where f = "fail_attempt now at code", OF inv j check] sql row by simp
  moreover have "db_inv (committed c')"
    using evolution.along_quiescent [OF along_record_cleanup_failure assms(2,1)] assms(3)
    by (simp add: db_evolves_def)
  ultimately show ?thesis using q row by (simp add: fail_attempt_def)
qed

text \<open>A worker run settles the job it claimed: over cleaners that leave the fact source intact,
  a run that returns a result has committed exactly that job, SUCCEEDED when the physical deletion
  returned, and otherwise with the stable code of its backend, FAILED when the attempts are used up
  and RETRY with a later attempt when they are not.\<close>

theorem worker_settles_job:
  assumes "facts_sane s"
    and "\<forall>(b, cl) \<in> set (cw_cleaners W). \<forall>a v s. facts_sane s \<longrightarrow>
      facts_sane (snd (ic_delete_version cl a v s))"
    and "run_once tick (postgres_cleanup clock ids) W s = (Inr (Some r), s')"
  shows "facts_sane s' \<and> ce_job r \<in> set (cleanups (committed (fst s'))) \<and>
    (case ce_physical_object_existed r of
       Some existed \<Rightarrow> cj_status (ce_job r) = CL_SUCCEEDED
     | None \<Rightarrow> (\<exists>b. cj_failure_code (ce_job r) = Some (upper b @ ''_DELETE_FAILED'')) \<and>
         cj_status (ce_job r) = (if cj_attempt_count (ce_job r) \<ge> cj_max_attempts (ce_job r)
           then CL_FAILED else CL_RETRY))"
proof -
  obtain r1 s1 where claim: "clr_claim (postgres_cleanup clock ids) (cw_lease_seconds W) s = (r1, s1)"
    by (cases "clr_claim (postgres_cleanup clock ids) (cw_lease_seconds W) s")
  with assms(3) obtain j where r1: "r1 = Inr (Some j)"
    by (auto simp: run_once_def split: sum.splits option.splits)
  note c = pg_cleanup.claimed [OF assms(1) claim [unfolded r1]]
  with assms(3) claim r1 obtain token cl where token: "cj_lease_token j = Some token"
    and cl: "map_of (cw_cleaners W) (cj_backend j) = Some cl"
    by (auto simp: run_once_def split: option.splits)
  obtain d s2 where del: "ic_delete_version cl (cj_owner_id j) (cj_document_version_id j) s1 = (d, s2)"
    by (cases "ic_delete_version cl (cj_owner_id j) (cj_document_version_id j) s1")
  have "(cj_backend j, cl) \<in> set (cw_cleaners W)" using cl by (rule map_of_SomeD)
  with assms(2) c have "facts_sane (snd (ic_delete_version cl (cj_owner_id j)
      (cj_document_version_id j) s1))" by blast
  then have s2: "quiescent (fst s2)" "db_inv (committed (fst s2))"
    by (simp_all add: del facts_sane_def)
  note run = assms(3) [unfolded run_once_def claim r1]
  show ?thesis
  proof (cases d)
    case (Inl u)
    let ?at = "Aware (tick s2 + retry_delay W j * 1000000)"
    from run c token cl del Inl obtain k c3 where
      "record_cleanup_failure (clock (fst s2) 0) (cj_cleanup_id j) token
        (upper (cj_backend j) @ ''_DELETE_FAILED'') ?at (fst s2) = (Inr k, c3)"
      and r: "r = \<lparr>ce_job = k, ce_physical_object_existed = None\<rparr>" "s' = (c3, snd s2)"
      by (auto simp: Let_def postgres_cleanup_def on_facts_def split: prod.splits sum.splits)
    from cleanup_failure_success [OF this(1) s2] r show ?thesis by (auto simp: facts_sane_def)
  next
    case (Inr existed)
    from run c token cl del Inr obtain k c3 where
      "complete_cleanup (clock (fst s2) 0) (cj_cleanup_id j) token (fst s2) = (Inr k, c3)"
      and r: "r = \<lparr>ce_job = k, ce_physical_object_existed = Some existed\<rparr>" "s' = (c3, snd s2)"
      by (auto simp: Let_def postgres_cleanup_def on_facts_def split: prod.splits sum.splits)
    from complete_cleanup_success [OF this(1) s2] r show ?thesis by (auto simp: facts_sane_def)
  qed
qed

theorem worker_settles_job_witness:
  "\<exists>r. fst (sample_work False) = Inr (Some r) \<and>
    ce_job r \<in> set (cleanups (committed (fst (snd (sample_work False)))))"
proof -
  have "case fst (sample_work False) of Inr (Some _) \<Rightarrow> True | _ \<Rightarrow> False" by code_simp
  then obtain r where r: "fst (sample_work False) = Inr (Some r)"
    by (cases "fst (sample_work False)") (auto split: option.splits)
  then have run: "sample_work False = (Inr (Some r), snd (sample_work False))" by (metis prod.collapse)
  have "\<forall>(b, cl) \<in> set (cw_cleaners (sample_worker False)). \<forall>a v s. facts_sane s \<longrightarrow>
      facts_sane (snd (ic_delete_version cl a v s))" by (simp add: sample_worker_def Let_def)
  from worker_settles_job [OF sample_state_sane this run [unfolded sample_work_def]] r
  show ?thesis by (simp add: sample_work_def)
qed

end
