(* ===== verification/PersistentIngestion.thy ===== *)
theory PersistentIngestion
  imports PostgresCollaborators
begin

text \<open>
  Preparation of a PDF through the fact source (\<^verbatim>\<open>backend/ingestion/persistent.py\<close>). The
  repository and the object store are records of functions on a state \<open>'s\<close>; SHA-256 over the bytes
  and the in-process ingestion of a PDF are arguments, the latter with the identity arguments the
  code passes it (document, owner, libraries, strategy, digest, review flag, version).
\<close>

subsection \<open>Collaborators and results\<close>

record 's fact_repository =
  fr_register_document :: "string \<Rightarrow> string \<Rightarrow> string \<Rightarrow> string \<Rightarrow> timestamp \<Rightarrow> timestamp \<Rightarrow> 's \<Rightarrow>
    (fact_error + document_identity) \<times> 's"
  fr_register_pair :: "string \<Rightarrow> string \<Rightarrow> string \<Rightarrow> string \<Rightarrow> string \<Rightarrow> string \<Rightarrow> 's \<Rightarrow>
    (fact_error + (version \<times> ingestion_job)) \<times> 's"
  fr_transition :: "string \<Rightarrow> string \<Rightarrow> int \<Rightarrow> lifecycle_status \<Rightarrow> patch \<Rightarrow> 's \<Rightarrow>
    (fact_error + version) \<times> 's"
  fr_update_job :: "string \<Rightarrow> string \<Rightarrow> ingestion_job_status \<Rightarrow> string option \<Rightarrow> 's \<Rightarrow>
    (fact_error + ingestion_job) \<times> 's"
  fr_persist :: "pdf_object \<Rightarrow> chunk list \<Rightarrow> 's \<Rightarrow> (fact_error + runtime_snapshot) \<times> 's"

datatype ingestion_failure =
    PdfIngestionError string
  | IngestionValueError
  | RuntimeSnapshotPersistenceError string
  | RepositoryEscaped fact_error
  | ServiceEscaped

record runtime_ingestion =
  ri_preparation :: preparation
  ri_pdf_object :: pdf_object
  ri_snapshot :: runtime_snapshot

text \<open>The arguments of a request that describe the document and how to ingest it.\<close>

record 'bytes ingestion_request =
  rq_pdf_bytes :: 'bytes
  rq_owner_id :: string
  rq_paper_id :: string
  rq_source_type :: string
  rq_source_created_time :: timestamp
  rq_source_updated_time :: timestamp
  rq_idempotency_key :: string
  rq_strategy :: string
  rq_library_scope_ids :: "string list"
  rq_expected_sha256 :: "string option"
  rq_source_snapshot_sha256 :: "string option"
  rq_allow_parse_review :: bool
  rq_mapping_version :: string

type_synonym 'bytes ingest =
  "'bytes \<Rightarrow> string \<Rightarrow> string \<Rightarrow> string list \<Rightarrow> string \<Rightarrow> string \<Rightarrow> bool \<Rightarrow> string \<Rightarrow>
     service_failure + ingestion_result"

definition ingestion_parse_version :: string where
  "ingestion_parse_version = ''pypdf_text_v1''"

definition then_do :: "('e + 'a) \<times> 's \<Rightarrow> ('a \<Rightarrow> 's \<Rightarrow> ('e + 'b) \<times> 's) \<Rightarrow> ('e + 'b) \<times> 's" where
  "then_do m f = (case m of (Inl e, s) \<Rightarrow> (Inl e, s) | (Inr x, s) \<Rightarrow> f x s)"

definition escaping :: "(fact_error + 'a) \<times> 's \<Rightarrow> (ingestion_failure + 'a) \<times> 's" where
  "escaping m = (case m of (Inl e, s) \<Rightarrow> (Inl (RepositoryEscaped e), s) | (Inr x, s) \<Rightarrow> (Inr x, s))"

subsection \<open>Preparation\<close>

definition start_or_resume_processing ::
  "'s fact_repository \<Rightarrow> version \<Rightarrow> 's \<Rightarrow> (ingestion_failure + version) \<times> 's" where
  "start_or_resume_processing R v s =
     (if ver_lifecycle_status v = PROCESSING then (Inr v, s)
      else if ver_lifecycle_status v \<in> {REGISTERED, REVIEW, FAILED}
      then escaping (fr_transition R (ver_owner_id v) (ver_document_version_id v)
        (ver_lifecycle_revision v) PROCESSING [(''failure_code'', Code None)] s)
      else (Inl IngestionValueError, s))"

definition record_ingestion_failure ::
  "'s fact_repository \<Rightarrow> version \<Rightarrow> ingestion_job \<Rightarrow> string \<Rightarrow> 's \<Rightarrow>
     (ingestion_failure + (version \<times> ingestion_job)) \<times> 's" where
  "record_ingestion_failure R v j code s =
     then_do (escaping (fr_transition R (ver_owner_id v) (ver_document_version_id v)
       (ver_lifecycle_revision v) FAILED [(''failure_code'', Code (Some code))] s)) (\<lambda>v' s.
     then_do (escaping (fr_update_job R (ij_owner_id j) (ij_job_id j) JOB_FAILED (Some code) s)) (\<lambda>j' s.
     (Inr (v', j'), s)))"

definition progress_patch :: "timestamp \<Rightarrow> patch" where
  "progress_patch t =
     [(''parse_finish_time'', Time (Some t)), (''chunk_splitter_time'', Time (Some t)),
      (''chunk_create_time'', Time (Some t)), (''chunk_gen_time'', Time (Some t)),
      (''failure_code'', Code None)]"

text \<open>A failure of the service is recorded and raised again; any other exception is not caught.\<close>

definition ingestion_raised ::
  "'s fact_repository \<Rightarrow> version \<Rightarrow> ingestion_job \<Rightarrow> service_failure \<Rightarrow> 's \<Rightarrow>
     (ingestion_failure + 'a) \<times> 's"
where
  "ingestion_raised R v j f s = (case f of
     Pdf_Ingestion_Error code \<Rightarrow> then_do (record_ingestion_failure R v j code s)
       (\<lambda>_ s. (Inl (PdfIngestionError code), s))
   | Service_Escaped \<Rightarrow> (Inl ServiceEscaped, s))"

text \<open>What follows a successful ingestion: REVIEW needs a human, the rest goes on in PROCESSING.\<close>

definition conclude_preparation ::
  "'s fact_repository \<Rightarrow> timestamp \<Rightarrow> 'bytes ingestion_request \<Rightarrow> document_identity \<Rightarrow> version \<Rightarrow>
     ingestion_job \<Rightarrow> ingestion_result \<Rightarrow> 's \<Rightarrow> (ingestion_failure + preparation) \<times> 's"
where
  "conclude_preparation R completed_at q identity v j ingestion s =
     (if ir_parse_status ingestion = PARSE_REVIEW
      then then_do (escaping (fr_transition R (rq_owner_id q) (ver_document_version_id v)
          (ver_lifecycle_revision v) REVIEW (progress_patch completed_at) s)) (\<lambda>v s.
        then_do (escaping (fr_update_job R (rq_owner_id q) (ij_job_id j) JOB_FAILED
          (Some ''PARSE_REVIEW_REQUIRED'') s)) (\<lambda>j s.
        (Inr \<lparr>pr_identity = identity, pr_version = v, pr_job = j, pr_ingestion = ingestion\<rparr>, s)))
      else then_do (escaping (fr_transition R (rq_owner_id q) (ver_document_version_id v)
          (ver_lifecycle_revision v) PROCESSING (progress_patch completed_at) s)) (\<lambda>v s.
        (Inr \<lparr>pr_identity = identity, pr_version = v, pr_job = j, pr_ingestion = ingestion\<rparr>, s)))"

definition prepare_persistent_pdf_ingestion ::
  "('bytes \<Rightarrow> string) \<Rightarrow> 'bytes ingest \<Rightarrow> 's fact_repository \<Rightarrow> timestamp \<Rightarrow>
     'bytes ingestion_request \<Rightarrow> 's \<Rightarrow> (ingestion_failure + preparation) \<times> 's"
where
  "prepare_persistent_pdf_ingestion sha ingest R completed_at q s =
     (let actual = sha (rq_pdf_bytes q);
          snapshot = (case rq_source_snapshot_sha256 q of None \<Rightarrow> actual
            | Some h \<Rightarrow> if h = [] then actual else h) in
      if rq_expected_sha256 q \<noteq> None \<and> rq_expected_sha256 q \<noteq> Some actual
      then (Inl (PdfIngestionError ''PDF_IDENTITY_MISMATCH''), s)
      else if \<not> sha256_ok snapshot then (Inl IngestionValueError, s)
      else
       then_do (escaping (fr_register_document R (rq_owner_id q) (rq_paper_id q)
         (rq_source_type q) (rq_mapping_version q) (rq_source_created_time q)
         (rq_source_updated_time q) s)) (\<lambda>identity s.
       then_do (escaping (fr_register_pair R (rq_owner_id q) (di_document_id identity) actual
         snapshot ingestion_parse_version (rq_idempotency_key q) s)) (\<lambda>(v, j) s.
       then_do (start_or_resume_processing R v s) (\<lambda>v s.
       then_do (escaping (fr_update_job R (rq_owner_id q) (ij_job_id j) JOB_RUNNING None s)) (\<lambda>j s.
       (case ingest (rq_pdf_bytes q) (di_document_id identity) (rq_owner_id q)
           (rq_library_scope_ids q) (rq_strategy q) actual (rq_allow_parse_review q)
           (ver_document_version_id v) of
          Inl f \<Rightarrow> ingestion_raised R v j f s
        | Inr ingestion \<Rightarrow> conclude_preparation R completed_at q identity v j ingestion s))))))"

text \<open>\<open>put_pdf\<close> is the object store, called with owner, document, version and digest.\<close>

definition prepare_and_persist_pdf_ingestion ::
  "('bytes \<Rightarrow> string) \<Rightarrow> 'bytes ingest \<Rightarrow> 's fact_repository \<Rightarrow>
     ('bytes \<Rightarrow> string \<Rightarrow> string \<Rightarrow> string \<Rightarrow> string \<Rightarrow> 's \<Rightarrow> (unit + pdf_object) \<times> 's) \<Rightarrow>
     timestamp \<Rightarrow> 'bytes ingestion_request \<Rightarrow> 's \<Rightarrow> (ingestion_failure + runtime_ingestion) \<times> 's"
where
  "prepare_and_persist_pdf_ingestion sha ingest R put_pdf completed_at q s =
     then_do (prepare_persistent_pdf_ingestion sha ingest R completed_at q s) (\<lambda>prep s.
     let v = pr_version prep; j = pr_job prep; chunks = ir_chunks (pr_ingestion prep) in
     if ver_lifecycle_status v \<noteq> PROCESSING \<or> ir_parse_status (pr_ingestion prep) \<noteq> PARSE_PASS
     then (Inl (RuntimeSnapshotPersistenceError ''RUNTIME_SNAPSHOT_NOT_PUBLISHABLE''), s)
     else
     (case put_pdf (rq_pdf_bytes q) (ver_owner_id v) (ver_document_id v)
         (ver_document_version_id v) (ver_content_sha256 v) s of
        (Inl _, s) \<Rightarrow> then_do (record_ingestion_failure R v j ''PDF_OBJECT_PERSIST_FAILED'' s)
          (\<lambda>_ s. (Inl (RuntimeSnapshotPersistenceError ''PDF_OBJECT_PERSIST_FAILED''), s))
      | (Inr pdf, s) \<Rightarrow>
     (case fr_persist R pdf chunks s of
        (Inl _, s) \<Rightarrow> then_do (record_ingestion_failure R v j ''CHUNK_SNAPSHOT_PERSIST_FAILED'' s)
          (\<lambda>_ s. (Inl (RuntimeSnapshotPersistenceError ''CHUNK_SNAPSHOT_PERSIST_FAILED''), s))
      | (Inr snapshot, s) \<Rightarrow>
          (Inr \<lparr>ri_preparation = prep, ri_pdf_object = pdf, ri_snapshot = snapshot\<rparr>, s))))"

subsection \<open>On PostgreSQL\<close>

definition postgres_facts ::
  "(chunk list \<Rightarrow> string) \<Rightarrow> (conn \<Rightarrow> nat \<Rightarrow> int) \<Rightarrow> (conn \<Rightarrow> nat \<Rightarrow> string) \<Rightarrow>
     (conn \<times> 'w) fact_repository" where
  "postgres_facts fp clock ids =
     \<lparr>fr_register_document = (\<lambda>w p t m c u s.
        on_facts (register_document (ids (fst s) 0) w p t m c u) s),
      fr_register_pair = (\<lambda>w d h g pv key s.
        on_facts (register_version_and_ingestion_job (clock (fst s) 0) (clock (fst s) 1)
          (ids (fst s) 0) (ids (fst s) 1) w d h g pv key) s),
      fr_transition = (\<lambda>w v n target p s.
        on_facts (transition_version True (clock (fst s) 0) w v n target p) s),
      fr_update_job = (\<lambda>w j st code s.
        on_facts (update_ingestion_job True (clock (fst s) 0) w j st code) s),
      fr_persist = (\<lambda>p cs s. on_facts (persist_runtime_snapshot fp p cs) s)\<rparr>"

text \<open>A change that brings no version online, the second relation the methods respect.\<close>

definition no_new_online :: "db \<Rightarrow> db \<Rightarrow> bool" where
  "no_new_online d d' \<longleftrightarrow> (\<forall>v \<in> set (versions d'). is_active v \<longrightarrow> v \<in> set (versions d))"

interpretation offline: change_relation no_new_online
  by unfold_locales (auto simp: no_new_online_def)

lemma offline_statements:
  "sql_register_document cand d = Inr (x, d') \<Longrightarrow> no_new_online d d'"
  "sql_register_version w doc vid h g pv now d = Inr (y, d') \<Longrightarrow> no_new_online d d'"
  "sql_get_version_by_source w doc h g pv d = Inr (y, d') \<Longrightarrow> no_new_online d d'"
  "sql_register_job jid w key doc vid now d = Inr (z, d') \<Longrightarrow> no_new_online d d'"
  "sql_update_job w jid st code now d = Inr (z, d') \<Longrightarrow> no_new_online d d'"
  "sql_persist_pdf_object pdf d = Inr (u, d') \<Longrightarrow> no_new_online d d'"
  "sql_get_pdf_object w vid d = Inr (po, d') \<Longrightarrow> no_new_online d d'"
  "sql_persist_chunk r d = Inr (u, d') \<Longrightarrow> no_new_online d d'"
  "sql_get_chunk_snapshot w vid d = Inr (rs, d') \<Longrightarrow> no_new_online d d'"
  unfolding no_new_online_def sql_register_document_def sql_register_version_def
    sql_get_version_by_source_def sql_register_job_def sql_update_job_def
    sql_persist_pdf_object_def sql_get_pdf_object_def sql_persist_chunk_def
    sql_get_chunk_snapshot_def Let_def
  by (auto split: if_splits option.splits)

lemma offline_register_document:
  "moves_along no_new_online (register_document i w p t m c u)"
  unfolding register_document_def
  by (intro offline.along_intros) (auto intro: offline_statements)

lemma offline_register_pair:
  "moves_along no_new_online (register_version_and_ingestion_job now now' vid jid w doc h g pv key)"
  unfolding register_version_and_ingestion_job_def register_version_def register_ingestion_job_def
  by (intro offline.along_intros) (auto intro: offline_statements)

lemma offline_update_job:
  "moves_along no_new_online (update_ingestion_job b now w jid st code)"
  unfolding update_ingestion_job_def
  by (intro offline.along_intros) (auto intro: offline_statements)

lemma offline_persist_chunks: "moves_along no_new_online (persist_chunks n cs)"
  by (induction cs arbitrary: n)
    (auto intro!: offline.along_intros intro: offline_statements)

lemma offline_persist: "moves_along no_new_online (persist_runtime_snapshot fp pdf cs)"
  unfolding persist_runtime_snapshot_def persist_snapshot_rows_def
  by (intro offline.along_intros offline_persist_chunks) (auto intro: offline_statements)

lemma offline_method_harmless:
  assumes "\<And>c. moves_along no_new_online (m c)" and "\<And>c. well_behaved (m c)"
  shows "harmless facts_sane facts_online (\<lambda>s. on_facts (m (fst s)) s)"
proof (rule keeps_offline_harmless)
  fix c r c'
  assume q: "quiescent c" "db_inv (committed c)" and run: "m c c = (r, c')"
  from assms(2) q run have "quiescent c' \<and> db_inv (committed c')"
    unfolding well_behaved_def db_evolves_def by blast
  moreover have "no_new_online (committed c) (committed c')"
    using offline.along_quiescent [OF assms(1) q(1) run] .
  ultimately show "quiescent c' \<and> db_inv (committed c') \<and>
      (\<forall>x \<in> set (versions (committed c')). is_active x \<longrightarrow> x \<in> set (versions (committed c)))"
    by (simp add: no_new_online_def)
qed

lemma harmless_then:
  assumes "harmless sane online m" and "\<And>x. harmless sane online (f x)"
  shows "harmless sane online (\<lambda>s. then_do (m s) f)"
  unfolding harmless_def
proof (intro allI impI)
  fix s r s'
  assume "sane s" and run: "then_do (m s) f = (r, s')"
  obtain r1 s1 where m: "m s = (r1, s1)" by (cases "m s")
  note s1 = harmlessD [OF assms(1) m \<open>sane s\<close>]
  show "sane s' \<and> (\<forall>a b. online s' a b \<longrightarrow> online s a b)"
  proof (cases r1)
    case (Inl e)
    with run m s1 show ?thesis by (auto simp: then_do_def)
  next
    case (Inr x)
    with run m have "f x s1 = (r, s')" by (simp add: then_do_def)
    from harmlessD [OF assms(2) this conjunct1 [OF s1]] s1 show ?thesis by blast
  qed
qed

lemma harmless_escaping: "harmless sane online m \<Longrightarrow> harmless sane online (\<lambda>s. escaping (m s))"
  unfolding harmless_def escaping_def by (auto split: prod.splits sum.splits)

lemma harmless_pure: "harmless sane online (\<lambda>s. (r, s))"
  by (simp add: harmless_def)

lemma harmless_if:
  "harmless sane online m \<Longrightarrow> harmless sane online n \<Longrightarrow>
     harmless sane online (\<lambda>s. if b then m s else n s)"
  by (cases b) simp_all

lemma postgres_facts_harmless:
  "harmless facts_sane facts_online (fr_register_document (postgres_facts fp clock ids) w p t m c u)"
  "harmless facts_sane facts_online (fr_register_pair (postgres_facts fp clock ids) w d h g pv key)"
  "target \<noteq> READY \<Longrightarrow>
     harmless facts_sane facts_online (fr_transition (postgres_facts fp clock ids) w v n target patch)"
  "harmless facts_sane facts_online (fr_update_job (postgres_facts fp clock ids) w j st code)"
  "harmless facts_sane facts_online (fr_persist (postgres_facts fp clock ids) pdf cs)"
proof -
  show "harmless facts_sane facts_online
      (fr_register_document (postgres_facts fp clock ids) w p t m c u)"
    unfolding postgres_facts_def fact_repository.simps
    by (rule offline_method_harmless [where m = "\<lambda>x. register_document (ids x 0) w p t m c u"])
      (rule offline_register_document offline_register_pair offline_update_job methods_well_behaved)+
  show "harmless facts_sane facts_online
      (fr_register_pair (postgres_facts fp clock ids) w d h g pv key)"
    unfolding postgres_facts_def fact_repository.simps
    by (rule offline_method_harmless [where m = "\<lambda>x. register_version_and_ingestion_job (clock x 0)
        (clock x 1) (ids x 0) (ids x 1) w d h g pv key"]) (rule offline_register_document offline_register_pair offline_update_job methods_well_behaved)+
  show "target \<noteq> READY \<Longrightarrow> harmless facts_sane facts_online
      (fr_transition (postgres_facts fp clock ids) w v n target patch)"
    using pg.transition_harmless unfolding postgres_facts_def postgres_lifecycle_def by simp
  show "harmless facts_sane facts_online (fr_update_job (postgres_facts fp clock ids) w j st code)"
    unfolding postgres_facts_def fact_repository.simps
    by (rule offline_method_harmless [where m = "\<lambda>x. update_ingestion_job True (clock x 0) w j st code"])
      (rule offline_register_document offline_register_pair offline_update_job methods_well_behaved)+
  show "harmless facts_sane facts_online (fr_persist (postgres_facts fp clock ids) pdf cs)"
    unfolding postgres_facts_def fact_repository.simps
    by (rule offline_method_harmless [where m = "\<lambda>x. persist_runtime_snapshot fp pdf cs"])
      (rule offline_persist well_behaved_persist)+
qed

lemma harmless_case_result:
  assumes "harmless sane online m" and "\<And>e. harmless sane online (f e)"
    and "\<And>x. harmless sane online (g x)"
  shows "harmless sane online (\<lambda>s. case m s of (Inl e, s) \<Rightarrow> f e s | (Inr x, s) \<Rightarrow> g x s)"
  unfolding harmless_def
proof (intro allI impI)
  fix s r s'
  assume "sane s" and run: "(case m s of (Inl e, s) \<Rightarrow> f e s | (Inr x, s) \<Rightarrow> g x s) = (r, s')"
  obtain r1 s1 where m: "m s = (r1, s1)" by (cases "m s")
  note s1 = harmlessD [OF assms(1) m \<open>sane s\<close>]
  show "sane s' \<and> (\<forall>a b. online s' a b \<longrightarrow> online s a b)"
  proof (cases r1)
    case (Inl e)
    with run m have "f e s1 = (r, s')" by simp
    from harmlessD [OF assms(2) this conjunct1 [OF s1]] s1 show ?thesis by blast
  next
    case (Inr x)
    with run m have "g x s1 = (r, s')" by simp
    from harmlessD [OF assms(3) this conjunct1 [OF s1]] s1 show ?thesis by blast
  qed
qed

lemma harmless_case_sum:
  "(\<And>e. harmless sane online (f e)) \<Longrightarrow> (\<And>x. harmless sane online (g x)) \<Longrightarrow>
     harmless sane online (\<lambda>s. case r of Inl e \<Rightarrow> f e s | Inr x \<Rightarrow> g x s)"
  by (cases r) simp_all

lemma harmless_prod: "(\<And>a b. harmless sane online (f a b)) \<Longrightarrow> harmless sane online (case x of (a, b) \<Rightarrow> f a b)"
  by (cases x) simp

lemmas harmless_intros = harmless_then harmless_escaping harmless_pure harmless_if harmless_case_sum
  harmless_prod harmless_case_result postgres_facts_harmless

lemma record_ingestion_failure_harmless:
  "harmless facts_sane facts_online (record_ingestion_failure (postgres_facts fp clock ids) v j code)"
  unfolding record_ingestion_failure_def by (intro harmless_intros) simp

lemma start_or_resume_harmless:
  "harmless facts_sane facts_online (start_or_resume_processing (postgres_facts fp clock ids) v)"
  unfolding start_or_resume_processing_def by (intro harmless_intros) simp

lemma ingestion_raised_harmless:
  "harmless facts_sane facts_online (ingestion_raised (postgres_facts fp clock ids) v j f)"
  unfolding ingestion_raised_def
  by (cases f) (simp_all, (intro harmless_intros record_ingestion_failure_harmless)+)

lemma conclude_harmless:
  "harmless facts_sane facts_online
     (conclude_preparation (postgres_facts fp clock ids) t q identity v j ingestion)"
  unfolding conclude_preparation_def by (intro harmless_intros) simp_all

lemma prepare_harmless:
  "harmless facts_sane facts_online
     (prepare_persistent_pdf_ingestion sha ingest (postgres_facts fp clock ids) t q)"
  unfolding prepare_persistent_pdf_ingestion_def Let_def
  by (intro harmless_intros start_or_resume_harmless ingestion_raised_harmless
      conclude_harmless)

text \<open>Ingestion never publishes: preparing and persisting a PDF, with the fact source on
  PostgreSQL, any parser, any object store and any driver errors, keeps the fact source intact and
  puts no version online, however it ends; only the publication step can.\<close>

theorem ingestion_never_publishes:
  assumes "facts_sane s"
    and "prepare_and_persist_pdf_ingestion sha ingest (postgres_facts fp clock ids)
      (\<lambda>b w d v h. on_world (put b w d v h)) t q s = (r, s')"
  shows "facts_sane s' \<and> (\<forall>a b. facts_online s' a b \<longrightarrow> facts_online s a b)"
proof -
  have "harmless facts_sane facts_online (prepare_and_persist_pdf_ingestion sha ingest
      (postgres_facts fp clock ids) (\<lambda>b w d v h. on_world (put b w d v h)) t q)"
    unfolding prepare_and_persist_pdf_ingestion_def Let_def
    by (intro harmless_intros prepare_harmless record_ingestion_failure_harmless on_world_harmless)
  from harmlessD [OF this assms(2,1)] show ?thesis .
qed

definition sample_request :: "unit ingestion_request" where
  "sample_request =
     \<lparr>rq_pdf_bytes = (), rq_owner_id = ''alice'', rq_paper_id = ''paper3'',
      rq_source_type = ''uploaded'', rq_source_created_time = Aware 1,
      rq_source_updated_time = Aware 2, rq_idempotency_key = ''key9'', rq_strategy = ''s1'',
      rq_library_scope_ids = [], rq_expected_sha256 = None, rq_source_snapshot_sha256 = None,
      rq_allow_parse_review = False, rq_mapping_version = ''map1''\<rparr>"

text \<open>A store that keeps every PDF, and an ingestion into one chunk.\<close>

definition sample_put :: "unit \<Rightarrow> string \<Rightarrow> string \<Rightarrow> string \<Rightarrow> string \<Rightarrow> nat \<Rightarrow> (unit + pdf_object) \<times> nat" where
  "sample_put b w d v h n = (Inr \<lparr>po_owner_id = w, po_document_id = d, po_document_version_id = v,
     po_object_key = ''objects/c.pdf'', po_storage_backend = ''filesystem_v1'',
     po_content_sha256 = h, po_size_bytes = 5, po_media_type = ''application/pdf'',
     po_stored_at = Aware 9\<rparr>, n + 1)"

definition sample_ingest :: "unit ingest" where
  "sample_ingest b doc w libs strategy sha review vid = Inr
     \<lparr>ir_document_id = doc, ir_version_id = vid, ir_pdf_sha256 = sha,
      ir_source_text_sha256 = sample_hash CHR ''e'', ir_parse_status = PARSE_PASS, ir_warnings = [],
      ir_strategy = strategy, ir_chunks = [(sample_chunk ''chunk7'')\<lparr>ch_document_id := doc,
        ch_version_id := vid, ch_tenant_id := w\<rparr>]\<rparr>"

definition sample_prepare :: "(ingestion_failure + runtime_ingestion) \<times> (conn \<times> nat)" where
  "sample_prepare = prepare_and_persist_pdf_ingestion (\<lambda>_. sample_hash CHR ''9'') sample_ingest
     (postgres_facts (\<lambda>_. sample_hash CHR ''f'') (\<lambda>c n. 30) (\<lambda>c n. if n = 0 then ''new0'' else ''new1''))
     (\<lambda>b w d v h. on_world (sample_put b w d v h)) (Aware 29) sample_request (connected sample_db, 0)"

theorem ingestion_never_publishes_witness:
  "\<not> facts_online (snd sample_prepare) ''alice'' ''new0''"
proof -
  have "sample_prepare = (fst sample_prepare, snd sample_prepare)" by simp
  from ingestion_never_publishes [OF sample_state_sane this [unfolded sample_prepare_def]]
  have "facts_online (snd sample_prepare) ''alice'' ''new0'' \<longrightarrow>
      facts_online (connected sample_db, 0 :: nat) ''alice'' ''new0''"
    by (simp add: sample_prepare_def)
  moreover have "\<not> facts_online (connected sample_db, 0 :: nat) ''alice'' ''new0''" by code_simp
  ultimately show ?thesis by blast
qed

subsection \<open>From preparation to publication\<close>

lemma then_do_Inr:
  "then_do m f = (Inr y, s') \<longleftrightarrow> (\<exists>x s1. m = (Inr x, s1) \<and> f x s1 = (Inr y, s'))"
  by (auto simp: then_do_def split: prod.splits sum.splits)

lemma escaping_Inr: "escaping m = (Inr y, s') \<longleftrightarrow> m = (Inr y, s')"
  by (auto simp: escaping_def split: prod.splits sum.splits)

lemma on_facts_Inr: "on_facts m s = (Inr y, s') \<longleftrightarrow> (\<exists>c'. m (fst s) = (Inr y, c') \<and> s' = (c', snd s))"
  by (auto simp: on_facts_def split: prod.splits)

text \<open>A state in which a version and a job of the request are on file.\<close>

definition on_file :: "conn \<times> 'w \<Rightarrow> version \<Rightarrow> ingestion_job \<Rightarrow> bool" where
  "on_file s v j \<longleftrightarrow> facts_sane s \<and> v \<in> set (versions (committed (fst s))) \<and>
     j \<in> set (jobs (committed (fst s))) \<and> ij_owner_id j = ver_owner_id v \<and>
     ij_document_id j = ver_document_id v \<and> ij_document_version_id j = ver_document_version_id v"

lemma on_file_transition:
  assumes "on_file s v j"
    and "fr_transition (postgres_facts fp clock ids) w (ver_document_version_id v) n target p s = (Inr x, s')"
  shows "on_file s' x j \<and> ver_lifecycle_status x = target \<and>
    ver_document_version_id x = ver_document_version_id v \<and> ver_owner_id x = ver_owner_id v"
proof -
  from assms(2) obtain c' where run: "transition_version True (clock (fst s) 0) w
      (ver_document_version_id v) n target p (fst s) = (Inr x, c')" and s': "s' = (c', snd s)"
    by (auto simp: postgres_facts_def on_facts_Inr)
  have q: "quiescent (fst s)" "db_inv (committed (fst s))" "db_inv (working (fst s))"
    and v: "v \<in> set (versions (committed (fst s)))" "j \<in> set (jobs (committed (fst s)))"
    using assms(1) by (simp_all add: on_file_def facts_sane_def quiescent_def)
  from transition_committed [OF run q(1,2)] obtain u where u: "u \<in> set (versions (committed (fst s)))"
    "version_step u x" "ver_lifecycle_status x = target"
    "ver_document_version_id x = ver_document_version_id v"
    "set (versions (committed c')) = insert x (set (versions (committed (fst s))) - {u})"
    "quiescent c'" "db_inv (committed c')" by blast
  have "ver_document_version_id u = ver_document_version_id v"
    using u(2,4) by (simp add: version_step_def same_version_identity_def)
  with keyed_unique [OF versions_invD(1) [OF q(2)] u(1) v(1)] have "u = v" by blast
  then have same: "same_version_identity v x" using u(2) by (simp add: version_step_def)
  obtain c1 where run1: "transition_version False (clock (fst s) 0) w
      (ver_document_version_id v) n target p (fst s) = (Inr x, c1)" and c1: "committed c' = working c1"
    using transition_True_False [OF run] .
  from transition_success [OF run1 q(3)] have "jobs (committed c') = jobs (committed (fst s))"
    using c1 q(1) unfolding quiescent_def by (metis db.ext_inject db.surjective db.update_convs(2))
  with u same assms(1) v show ?thesis
    by (simp add: on_file_def s' facts_sane_def same_version_identity_def)
qed

lemma on_file_running:
  assumes "on_file s v j"
    and "fr_update_job (postgres_facts fp clock ids) w (ij_job_id j) JOB_RUNNING None s = (Inr k, s')"
  shows "on_file s' v k \<and> ij_status k = JOB_RUNNING"
proof -
  from assms(2) obtain c' where run: "update_ingestion_job True (clock (fst s) 0) w (ij_job_id j)
      JOB_RUNNING None (fst s) = (Inr k, c')" and s': "s' = (c', snd s)"
    by (auto simp: postgres_facts_def on_facts_Inr)
  have q: "quiescent (fst s)" "db_inv (committed (fst s))" "db_inv (working (fst s))"
    and v: "v \<in> set (versions (committed (fst s)))" "j \<in> set (jobs (committed (fst s)))"
    using assms(1) by (simp_all add: on_file_def facts_sane_def quiescent_def)
  from run obtain c1 where run1: "update_ingestion_job False (clock (fst s) 0) w (ij_job_id j)
      JOB_RUNNING None (fst s) = (Inr k, c1)" and c1: "committed c' = working c1" "quiescent c'"
    by (auto simp: update_ingestion_job_def transaction_Inr quiescent_def)
  from update_job_success [OF run1 q(3)] obtain i where i: "i \<in> set (jobs (working (fst s)))"
    "ij_job_id i = ij_job_id j"
    and k: "k = i\<lparr>ij_status := JOB_RUNNING,
      ij_attempt_count := ij_attempt_count i + (if JOB_RUNNING = JOB_RUNNING then 1 else 0),
      ij_failure_code := None, ij_updated_at := Aware (clock (fst s) 0)\<rparr>"
      "k \<in> set (jobs (working c1))" "versions (working c1) = versions (working (fst s))" by blast
  have "i = j" using keyed_unique [OF jobs_invD(1) [OF q(2)] _ v(2) i(2)] i(1) q(1)
    by (simp add: quiescent_def)
  moreover have "db_inv (committed c')"
    using evolution.along_quiescent [OF along_update_ingestion_job q(1) run] q(2)
    by (simp add: db_evolves_def)
  ultimately show ?thesis using k c1 v assms(1) q(1)
    by (simp add: on_file_def s' facts_sane_def quiescent_def)
qed

lemma on_file_registered:
  assumes "facts_sane s"
    and "fr_register_pair (postgres_facts fp clock ids) w d h g pv key s = (Inr (v, j), s')"
  shows "on_file s' v j \<and> ver_owner_id v = w \<and> ver_document_id v = d"
proof -
  from assms(2) obtain c' where run: "register_version_and_ingestion_job (clock (fst s) 0)
      (clock (fst s) 1) (ids (fst s) 0) (ids (fst s) 1) w d h g pv key (fst s) = (Inr (v, j), c')"
    and s': "s' = (c', snd s)" by (auto simp: postgres_facts_def on_facts_Inr)
  have "db_inv (working (fst s))" using assms(1) by (simp add: facts_sane_def quiescent_def)
  from registered_pair [OF run this] show ?thesis
    by (auto simp: on_file_def s' facts_sane_def by_source_def source_identity_def)
qed

lemma on_file_started:
  assumes "on_file s v j"
    and "start_or_resume_processing (postgres_facts fp clock ids) v s = (Inr x, s')"
  shows "on_file s' x j \<and> ver_document_version_id x = ver_document_version_id v \<and>
    ver_owner_id x = ver_owner_id v"
  using assms(2) on_file_transition [OF assms(1)] assms(1)
  by (auto simp: start_or_resume_processing_def escaping_Inr split: if_splits)

lemma prepared_on_file:
  assumes "facts_sane s"
    and "prepare_persistent_pdf_ingestion sha ingest (postgres_facts fp clock ids) t q s =
      (Inr prep, s')"
    and "ver_lifecycle_status (pr_version prep) = PROCESSING"
  shows "on_file s' (pr_version prep) (pr_job prep) \<and> ij_status (pr_job prep) = JOB_RUNNING"
proof -
  let ?R = "postgres_facts fp clock ids"
  obtain identity s1 h g pv key v0 j0 s2 v1 s3 j1 s4 where
    doc: "fr_register_document ?R (rq_owner_id q) (rq_paper_id q) (rq_source_type q)
      (rq_mapping_version q) (rq_source_created_time q) (rq_source_updated_time q) s = (Inr identity, s1)"
    and pair: "fr_register_pair ?R (rq_owner_id q) (di_document_id identity) h g pv key s1 =
      (Inr (v0, j0), s2)"
    and start: "start_or_resume_processing ?R v0 s2 = (Inr v1, s3)"
    and job: "fr_update_job ?R (rq_owner_id q) (ij_job_id j0) JOB_RUNNING None s3 = (Inr j1, s4)"
    and tail: "(case ingest (rq_pdf_bytes q) (di_document_id identity) (rq_owner_id q)
        (rq_library_scope_ids q) (rq_strategy q) (sha (rq_pdf_bytes q)) (rq_allow_parse_review q)
        (ver_document_version_id v1) of
        Inl f \<Rightarrow> ingestion_raised ?R v1 j1 f s4
      | Inr ingestion \<Rightarrow> conclude_preparation ?R t q identity v1 j1 ingestion s4) = (Inr prep, s')"
    using assms(2) unfolding prepare_persistent_pdf_ingestion_def Let_def
    by (simp only: then_do_Inr escaping_Inr split: if_splits prod.splits) (auto simp: then_do_Inr escaping_Inr)
  from tail obtain ingestion where "conclude_preparation ?R t q identity v1 j1 ingestion s4 = (Inr prep, s')"
    by (auto simp: ingestion_raised_def then_do_Inr split: sum.splits service_failure.splits)
  then have last: "(\<exists>p. fr_transition ?R (rq_owner_id q) (ver_document_version_id v1)
        (ver_lifecycle_revision v1) PROCESSING p s4 = (Inr (pr_version prep), s') \<and> pr_job prep = j1) \<or>
      (\<exists>p s5. fr_transition ?R (rq_owner_id q) (ver_document_version_id v1)
        (ver_lifecycle_revision v1) REVIEW p s4 = (Inr (pr_version prep), s5))"
    by (auto simp: conclude_preparation_def then_do_Inr escaping_Inr split: if_splits)
  have "facts_sane s1" using harmlessD [OF postgres_facts_harmless(1) doc assms(1)] by blast
  with pair have f2: "on_file s2 v0 j0" using on_file_registered by blast
  have f3: "on_file s3 v1 j0" using on_file_started [OF f2 start] by blast
  have f4: "on_file s4 v1 j1" "ij_status j1 = JOB_RUNNING" using on_file_running [OF f3 job] by blast+
  from last show ?thesis
  proof (elim disjE exE conjE)
    fix p
    assume "fr_transition ?R (rq_owner_id q) (ver_document_version_id v1)
        (ver_lifecycle_revision v1) PROCESSING p s4 = (Inr (pr_version prep), s')" "pr_job prep = j1"
    with on_file_transition [OF f4(1)] f4(2) show ?thesis by blast
  next
    fix p s5
    assume "fr_transition ?R (rq_owner_id q) (ver_document_version_id v1)
        (ver_lifecycle_revision v1) REVIEW p s4 = (Inr (pr_version prep), s5)"
    from on_file_transition [OF f4(1) this] assms(3) show ?thesis by simp
  qed
qed

text \<open>What is prepared is what the service ingested.\<close>

lemma prepared_ingestion:
  assumes "prepare_persistent_pdf_ingestion sha ingest R t q s = (Inr prep, s')"
  shows "\<exists>doc vid. ingest (rq_pdf_bytes q) doc (rq_owner_id q) (rq_library_scope_ids q) (rq_strategy q)
    (sha (rq_pdf_bytes q)) (rq_allow_parse_review q) vid = Inr (pr_ingestion prep)"
proof -
  obtain identity v1 j1 s4 where
    tail: "(case ingest (rq_pdf_bytes q) (di_document_id identity) (rq_owner_id q)
        (rq_library_scope_ids q) (rq_strategy q) (sha (rq_pdf_bytes q)) (rq_allow_parse_review q)
        (ver_document_version_id v1) of
        Inl f \<Rightarrow> ingestion_raised R v1 j1 f s4
      | Inr ingestion \<Rightarrow> conclude_preparation R t q identity v1 j1 ingestion s4) = (Inr prep, s')"
    using assms unfolding prepare_persistent_pdf_ingestion_def Let_def
    by (simp only: then_do_Inr escaping_Inr split: if_splits prod.splits) (auto simp: then_do_Inr escaping_Inr)
  from tail obtain ingestion where ok: "ingest (rq_pdf_bytes q) (di_document_id identity) (rq_owner_id q)
        (rq_library_scope_ids q) (rq_strategy q) (sha (rq_pdf_bytes q)) (rq_allow_parse_review q)
        (ver_document_version_id v1) = Inr ingestion"
    and "conclude_preparation R t q identity v1 j1 ingestion s4 = (Inr prep, s')"
    by (auto simp: ingestion_raised_def then_do_Inr split: sum.splits service_failure.splits)
  then have "pr_ingestion prep = ingestion"
    by (auto simp: conclude_preparation_def then_do_Inr escaping_Inr split: if_splits)
  with ok show ?thesis by blast
qed

text \<open>The steps of a run that returns.\<close>

lemma persisted_ingestion:
  assumes "prepare_and_persist_pdf_ingestion sha ingest (postgres_facts fp clock ids) put t q s = (Inr r, s')"
  shows "\<exists>s1 s2 pdf. prepare_persistent_pdf_ingestion sha ingest (postgres_facts fp clock ids) t q s = (Inr (ri_preparation r), s1) \<and>
    ir_parse_status (pr_ingestion (ri_preparation r)) = PARSE_PASS \<and>
    persist_runtime_snapshot fp pdf (ir_chunks (pr_ingestion (ri_preparation r))) (fst s2) = (Inr (ri_snapshot r), fst s') \<and>
    pdf = ri_pdf_object r"
  using assms unfolding prepare_and_persist_pdf_ingestion_def Let_def
  by (auto simp: then_do_Inr postgres_facts_def on_facts_Inr split: if_splits sum.splits prod.splits)

text \<open>The two halves of the pipeline fit: whatever preparation and persistence return, over an
  object store that registers a PDF under the identity it was given, passes every guard of the
  publication step, and the persisted rows of the version are exactly the chunks it will index.\<close>

theorem ingestion_hands_over:
  assumes "facts_sane s"
    and "\<forall>b w d v h n p n'. put b w d v h n = (Inr p, n') \<longrightarrow>
      po_owner_id p = w \<and> po_document_id p = d \<and> po_document_version_id p = v"
    and "prepare_and_persist_pdf_ingestion sha ingest (postgres_facts fp clock ids)
      (\<lambda>b w d v h. on_world (put b w d v h)) t q s = (Inr r, s')"
  shows "validate_preparation g (ri_preparation r) =
      Some (ir_chunks (pr_ingestion (ri_preparation r)), g (ir_chunks (pr_ingestion (ri_preparation r)))) \<and>
    chunks_from_rows False (snapshot_rows (ver_owner_id (pr_version (ri_preparation r)))
      (ver_document_version_id (pr_version (ri_preparation r))) (committed (fst s'))) =
      Inr (ir_chunks (pr_ingestion (ri_preparation r)))"
proof -
  let ?R = "postgres_facts fp clock ids"
  from assms(3) obtain prep s1 pdf s2 snap where
    prep: "prepare_persistent_pdf_ingestion sha ingest ?R t q s = (Inr prep, s1)"
    and guard: "ver_lifecycle_status (pr_version prep) = PROCESSING"
      "ir_parse_status (pr_ingestion prep) = PARSE_PASS"
    and put: "on_world (put (rq_pdf_bytes q) (ver_owner_id (pr_version prep))
      (ver_document_id (pr_version prep)) (ver_document_version_id (pr_version prep))
      (ver_content_sha256 (pr_version prep))) s1 = (Inr pdf, s2)"
    and persist: "fr_persist ?R pdf (ir_chunks (pr_ingestion prep)) s2 = (Inr snap, s')"
    and r: "ri_preparation r = prep"
    unfolding prepare_and_persist_pdf_ingestion_def Let_def
    by (auto simp: then_do_Inr split: if_splits sum.splits prod.splits)
  note f = prepared_on_file [OF assms(1) prep guard(1)]
  from put obtain w' where "put (rq_pdf_bytes q) (ver_owner_id (pr_version prep))
      (ver_document_id (pr_version prep)) (ver_document_version_id (pr_version prep))
      (ver_content_sha256 (pr_version prep)) (snd s1) = (Inr pdf, w')"
    by (auto simp: on_world_def split: prod.splits)
  with assms(2) have pdf: "po_owner_id pdf = ver_owner_id (pr_version prep)"
    "po_document_id pdf = ver_document_id (pr_version prep)"
    "po_document_version_id pdf = ver_document_version_id (pr_version prep)" by blast+
  from persist obtain c' where run: "persist_runtime_snapshot fp pdf (ir_chunks (pr_ingestion prep))
      (fst s2) = (Inr snap, c')" and s': "s' = (c', snd s2)"
    by (auto simp: postgres_facts_def on_facts_Inr)
  note rows = persisted_rows [OF run]
  show ?thesis
    using f guard rows pdf unfolding validate_preparation_def Let_def r
    by (auto simp: on_file_def snapshot_chunk_matches_def s')
qed

theorem ingestion_hands_over_witness:
  "\<exists>r. fst sample_prepare = Inr r \<and> validate_preparation (\<lambda>_. []) (ri_preparation r) \<noteq> None"
proof -
  have "case fst sample_prepare of Inl _ \<Rightarrow> False | Inr _ \<Rightarrow> True" by code_simp
  then obtain r where r: "fst sample_prepare = Inr r" by (cases "fst sample_prepare") auto
  then have run: "sample_prepare = (Inr r, snd sample_prepare)" by (metis prod.collapse)
  have "\<forall>b w d v h n p n'. sample_put b w d v h n = (Inr p, n') \<longrightarrow>
      po_owner_id p = w \<and> po_document_id p = d \<and> po_document_version_id p = v"
    by (auto simp: sample_put_def)
  from ingestion_hands_over [OF sample_state_sane this run [unfolded sample_prepare_def], of "\<lambda>_. []"] r
  show ?thesis by auto
qed

end
