(* ===== verification/Binary64.thy ===== *)
theory Binary64
  imports Complex_Main "HOL-Library.Log_Nat"
begin

text \<open>
  Python's \<open>float\<close>: the finite IEEE 754 binary64 numbers as rationals, and the rounding (to
  nearest, ties to even) of every operation's exact result. A magnitude of \<open>2 ^ 1024\<close> or more
  is an overflow. The locale \<open>rounding\<close> states what the ranking code relies on, that rounding is
  monotone and keeps zero; it is interpreted on \<open>binary64\<close>.
\<close>

subsection \<open>Rounding\<close>

text \<open>The binary exponent of a positive rational, from the lengths of its two parts.\<close>

definition binary_exponent :: "rat \<Rightarrow> int" where
  "binary_exponent x = (let (p, q) = quotient_of x; d = bitlen p - bitlen q in
     if 2 powi d \<le> x then d else d - 1)"

definition half_even :: "rat \<Rightarrow> int" where
  "half_even x = (let n = \<lfloor>x\<rfloor>; r = x - of_int n in
     if r < 1 / 2 then n else if 1 / 2 < r then n + 1 else if even n then n else n + 1)"

text \<open>The exponent of the last place: 53 bits, and no finer than the subnormal numbers.\<close>

definition ulp_exponent :: "rat \<Rightarrow> int" where
  "ulp_exponent x = max (binary_exponent x - 52) (- 1074)"

definition round_positive :: "rat \<Rightarrow> rat" where
  "round_positive x =
     of_int (half_even (x / 2 powi ulp_exponent x)) * 2 powi ulp_exponent x"

definition binary64 :: "rat \<Rightarrow> rat" where
  "binary64 x = (if x = 0 then 0 else if x < 0 then - round_positive (- x) else round_positive x)"

definition overflows :: "rat \<Rightarrow> bool" where
  "overflows x \<longleftrightarrow> 2 ^ 1024 \<le> \<bar>binary64 x\<bar>"

subsection \<open>The exponent\<close>

lemma powi_mono: "i \<le> j \<Longrightarrow> (2 :: rat) powi i \<le> 2 powi j"
  by (intro power_int_increasing) auto

lemma powi_pos [simp]: "(0 :: rat) < 2 powi i"
  by (rule zero_less_power_int) simp

lemma powi_less: "(2 :: rat) powi i < 2 powi j \<longleftrightarrow> i < j"
  using powi_mono [of j i] power_int_strict_increasing [of i j "2 :: rat"] by fastforce

lemma powi_nat: "0 \<le> i \<Longrightarrow> (2 :: rat) powi i = of_int (2 ^ nat i)"
  by (simp add: power_int_def)

lemma powi_split:
  assumes "i \<le> j"
  shows "(2 :: rat) powi j = of_int (2 ^ nat (j - i)) * 2 powi i"
proof -
  have "(2 :: rat) powi j = 2 powi (j - i) * 2 powi i"
    by (simp flip: power_int_add)
  also have "(2 :: rat) powi (j - i) = of_int (2 ^ nat (j - i))"
    using assms by (intro powi_nat) simp
  finally show ?thesis .
qed

lemma bitlen_powi:
  assumes "0 < p"
  shows "(2 :: rat) powi (bitlen p - 1) \<le> of_int p" and "of_int p < (2 :: rat) powi bitlen p"
proof -
  have pos: "0 < bitlen p" using assms by (simp add: bitlen_eq_zero_iff not_le dual_order.not_eq_order_implies_strict bitlen_nonneg)
  note b = bitlen_bounds [OF assms]
  have "(2 :: rat) powi (bitlen p - 1) = of_int (2 ^ nat (bitlen p - 1))"
    using pos by (intro powi_nat) simp
  then show "(2 :: rat) powi (bitlen p - 1) \<le> of_int p" using b by (simp only: of_int_le_iff)
  have "(2 :: rat) powi bitlen p = of_int (2 ^ nat (bitlen p))" using pos by (intro powi_nat) simp
  then show "of_int p < (2 :: rat) powi bitlen p" using b by (simp only: of_int_less_iff)
qed

lemma binary_exponent_bounds:
  assumes "0 < x"
  shows "2 powi binary_exponent x \<le> x" and "x < 2 powi (binary_exponent x + 1)"
proof -
  obtain p q where pq: "quotient_of x = (p, q)" by (cases "quotient_of x")
  have q: "0 < q" using quotient_of_denom_pos [OF pq] .
  have x: "x = of_int p / of_int q" using quotient_of_div [OF pq] .
  have p: "0 < p" using assms q unfolding x by (simp add: zero_less_divide_iff)
  have qpos: "(0 :: rat) < of_int q" using q by simp
  let ?d = "bitlen p - bitlen q"
  have "x < 2 powi bitlen p / 2 powi (bitlen q - 1)"
    unfolding x using bitlen_powi(2) [OF p] bitlen_powi(1) [OF q] p
    by (intro frac_less) simp_all
  also have "\<dots> = 2 powi (?d + 1)"
    by (simp add: power_int_diff [symmetric] algebra_simps)
  finally have upper: "x < 2 powi (?d + 1)" .
  have "2 powi (bitlen p - 1) / 2 powi bitlen q < x"
    unfolding x using bitlen_powi(1) [OF p] bitlen_powi(2) [OF q] qpos
    by (intro frac_less2) simp_all
  moreover have "2 powi (bitlen p - 1) / 2 powi bitlen q = (2 :: rat) powi (?d - 1)"
    by (simp add: power_int_diff [symmetric] algebra_simps)
  ultimately have lower: "2 powi (?d - 1) < x" by simp
  have e: "binary_exponent x = (if 2 powi ?d \<le> x then ?d else ?d - 1)"
    by (simp add: binary_exponent_def pq)
  show "2 powi binary_exponent x \<le> x" using lower e by simp
  show "x < 2 powi (binary_exponent x + 1)" using upper e by auto
qed

lemma binary_exponent_mono:
  assumes "0 < x" and "x \<le> y"
  shows "binary_exponent x \<le> binary_exponent y"
proof -
  have "0 < y" using assms by simp
  have "(2 :: rat) powi binary_exponent x < 2 powi (binary_exponent y + 1)"
    using binary_exponent_bounds(1) [OF assms(1)] assms(2)
      binary_exponent_bounds(2) [OF \<open>0 < y\<close>] by linarith
  then show ?thesis by (simp add: powi_less)
qed

subsection \<open>Rounding is monotone\<close>

lemma half_even_bounds: "\<lfloor>x\<rfloor> \<le> half_even x" "half_even x \<le> \<lceil>x\<rceil>"
proof -
  show "\<lfloor>x\<rfloor> \<le> half_even x" by (simp add: half_even_def Let_def)
  show "half_even x \<le> \<lceil>x\<rceil>"
  proof (cases "x = of_int \<lfloor>x\<rfloor>")
    case True
    then have "half_even x = \<lfloor>x\<rfloor>" by (simp add: half_even_def Let_def)
    then show ?thesis by (simp add: floor_le_ceiling)
  next
    case False
    then have "\<lceil>x\<rceil> = \<lfloor>x\<rfloor> + 1" by (simp add: ceiling_altdef)
    then show ?thesis by (auto simp: half_even_def Let_def)
  qed
qed

lemma half_even_int [simp]: "half_even (of_int n) = n"
  by (simp add: half_even_def)

lemma half_even_mono: "x \<le> y \<Longrightarrow> half_even x \<le> half_even y"
proof (cases "\<lfloor>x\<rfloor> = \<lfloor>y\<rfloor>")
  case True
  assume "x \<le> y"
  with True show ?thesis by (auto simp: half_even_def Let_def)
next
  case False
  assume "x \<le> y"
  then have "\<lfloor>x\<rfloor> \<le> \<lfloor>y\<rfloor>" by (rule floor_mono)
  with False have "\<lceil>x\<rceil> \<le> \<lfloor>y\<rfloor>" by (simp add: ceiling_altdef)
  with half_even_bounds(2) [of x] half_even_bounds(1) [of y] show ?thesis by linarith
qed

lemma round_at_scale:
  assumes "x \<le> 2 powi j" and "i \<le> j"
  shows "of_int (half_even (x / 2 powi i)) * 2 powi i \<le> (2 :: rat) powi j"
proof -
  note j = powi_split [OF assms(2)]
  have "x / 2 powi i \<le> of_int (2 ^ nat (j - i))"
    using assms(1) unfolding j by (simp add: divide_le_eq)
  from half_even_mono [OF this] have "half_even (x / 2 powi i) \<le> 2 ^ nat (j - i)"
    by (simp only: half_even_int)
  then have "(of_int (half_even (x / 2 powi i)) :: rat) \<le> of_int (2 ^ nat (j - i))"
    by (simp only: of_int_le_iff)
  then show ?thesis unfolding j by (intro mult_right_mono) simp_all
qed

lemma round_above_scale:
  assumes "2 powi j \<le> x" and "i \<le> j"
  shows "(2 :: rat) powi j \<le> of_int (half_even (x / 2 powi i)) * 2 powi i"
proof -
  note j = powi_split [OF assms(2)]
  have "of_int (2 ^ nat (j - i)) \<le> x / 2 powi i"
    using assms(1) unfolding j by (simp add: le_divide_eq)
  from half_even_mono [OF this] have "2 ^ nat (j - i) \<le> half_even (x / 2 powi i)"
    by (simp only: half_even_int)
  then have "of_int (2 ^ nat (j - i)) \<le> (of_int (half_even (x / 2 powi i)) :: rat)"
    by (simp only: of_int_le_iff)
  then show ?thesis unfolding j by (intro mult_right_mono) simp_all
qed

lemma round_positive_mono:
  assumes "0 < x" and "x \<le> y"
  shows "round_positive x \<le> round_positive y"
proof (cases "ulp_exponent x = ulp_exponent y")
  case True
  have "half_even (x / 2 powi ulp_exponent y) \<le> half_even (y / 2 powi ulp_exponent y)"
    using assms(2) by (intro half_even_mono divide_right_mono) simp_all
  then show ?thesis
    unfolding round_positive_def True by (intro mult_right_mono) simp_all
next
  case False
  have y: "0 < y" using assms by simp
  have e: "binary_exponent x \<le> binary_exponent y" by (rule binary_exponent_mono [OF assms])
  let ?j = "max (binary_exponent x + 1) (ulp_exponent x)"
  have j: "?j \<le> binary_exponent y" "ulp_exponent y \<le> binary_exponent y" "ulp_exponent x \<le> ?j"
    using False e by (auto simp: ulp_exponent_def max_def split: if_splits)
  have "x \<le> 2 powi ?j"
    using binary_exponent_bounds(2) [OF assms(1)] powi_mono [of "binary_exponent x + 1" ?j]
    by (intro less_imp_le) (rule order_less_le_trans, assumption, simp)
  then have "round_positive x \<le> 2 powi ?j"
    unfolding round_positive_def by (rule round_at_scale) (rule j(3))
  also have "\<dots> \<le> 2 powi binary_exponent y" by (rule powi_mono [OF j(1)])
  also have "\<dots> \<le> round_positive y"
    unfolding round_positive_def
    by (rule round_above_scale [OF binary_exponent_bounds(1) [OF y] j(2)])
  finally show ?thesis .
qed

lemma round_positive_nonneg: "0 < x \<Longrightarrow> 0 \<le> round_positive x"
  unfolding round_positive_def
  using half_even_mono [of 0 "x / 2 powi ulp_exponent x"] half_even_int [of 0]
  by (intro mult_nonneg_nonneg) simp_all

lemma binary64_zero [simp]: "binary64 0 = 0"
  by (simp add: binary64_def)

lemma binary64_mono:
  assumes "x \<le> y"
  shows "binary64 x \<le> binary64 y"
proof -
  consider "y < 0" | "x < 0" "0 \<le> y" | "x = 0" "0 \<le> y" | "0 < x" using assms by linarith
  then show ?thesis
  proof cases
    case 1
    with assms show ?thesis using round_positive_mono [of "- y" "- x"] by (simp add: binary64_def)
  next
    case 2
    then show ?thesis
      using round_positive_nonneg [of "- x"] round_positive_nonneg [of y]
      by (cases "y = 0") (auto simp: binary64_def)
  next
    case 3
    then show ?thesis using round_positive_nonneg [of y] by (simp add: binary64_def)
  next
    case 4
    with assms show ?thesis using round_positive_mono [of x y] by (simp add: binary64_def)
  qed
qed

subsection \<open>Exact results\<close>

text \<open>A number with at most 53 significant bits, none below the subnormals, is kept.\<close>

lemma binary64_exact:
  assumes "x = of_int m * 2 powi e" and "0 < m" and "m \<le> 2 ^ 53" and "- 1074 \<le> e"
  shows "binary64 x = x"
proof -
  have pos: "0 < x" using assms(1,2) by simp
  have "x \<le> 2 powi (e + 53)"
    using assms(1,3) by (simp add: power_int_add)
  then have "(2 :: rat) powi binary_exponent x \<le> 2 powi (e + 53)"
    using binary_exponent_bounds(1) [OF pos] by linarith
  then have b: "binary_exponent x \<le> e + 53" using powi_less [of "e + 53" "binary_exponent x"] by linarith
  have "\<exists>n. x = of_int n * 2 powi ulp_exponent x"
  proof (cases "ulp_exponent x \<le> e")
    case True
    have "of_int m * (2 :: rat) powi e = of_int (m * 2 ^ nat (e - ulp_exponent x)) * 2 powi ulp_exponent x"
      by (simp only: powi_split [OF True] of_int_mult mult.assoc)
    with assms(1) have "x = of_int (m * 2 ^ nat (e - ulp_exponent x)) * 2 powi ulp_exponent x"
      by (rule trans)
    then show ?thesis by (rule exI)
  next
    case False
    then have "ulp_exponent x = e + 1" "binary_exponent x = e + 53"
      using b assms(4) by (auto simp: ulp_exponent_def max_def split: if_splits)
    moreover have "x = 2 powi (e + 53)"
      using binary_exponent_bounds(1) [OF pos] \<open>x \<le> 2 powi (e + 53)\<close> calculation(2) by simp
    ultimately show ?thesis using powi_split [of "e + 1" "e + 53"] by auto
  qed
  then obtain n where n: "x = of_int n * 2 powi ulp_exponent x" by blast
  then have "x / 2 powi ulp_exponent x = of_int n" by (simp add: divide_eq_eq)
  then have "round_positive x = x" unfolding round_positive_def using n by (simp only: half_even_int)
  with pos show ?thesis by (simp add: binary64_def)
qed

lemma binary64_one [simp]: "binary64 1 = 1"
  by (rule binary64_exact [of _ 1 0]) simp_all

lemma binary64_uminus: "binary64 (- x) = - binary64 x"
  by (simp add: binary64_def)

lemma round_positive_idem:
  assumes "0 < x"
  shows "binary64 (round_positive x) = round_positive x"
proof -
  let ?u = "ulp_exponent x" and ?m = "half_even (x / 2 powi ulp_exponent x)"
  have "x \<le> 2 powi (53 + ?u)"
    using binary_exponent_bounds(2) [OF assms] powi_mono [of "binary_exponent x + 1" "53 + ?u"]
    unfolding ulp_exponent_def by linarith
  then have "x / 2 powi ?u \<le> of_int (2 ^ 53)" by (simp add: divide_le_eq power_int_add)
  from half_even_mono [OF this] have "?m \<le> 2 ^ 53" by (simp only: half_even_int)
  moreover have "0 \<le> ?m" using half_even_mono [of 0 "x / 2 powi ?u"] half_even_int [of 0] assms by simp
  moreover have "round_positive x = 0" if "?m = 0" using that by (simp add: round_positive_def)
  moreover have "round_positive x = of_int ?m * 2 powi ?u" by (simp add: round_positive_def)
  ultimately show ?thesis
    using binary64_exact [of "round_positive x" ?m ?u] by (cases "?m = 0") (auto simp: ulp_exponent_def)
qed

lemma binary64_idem: "binary64 (binary64 x) = binary64 x"
proof -
  consider "x < 0" | "x = 0" | "0 < x" by linarith
  then show ?thesis
  proof cases
    case 1
    then have "binary64 x = - round_positive (- x)" by (simp add: binary64_def)
    with 1 show ?thesis using round_positive_idem [of "- x"] by (simp add: binary64_uminus)
  next
    case 3
    then have "binary64 x = round_positive x" by (simp add: binary64_def)
    with 3 show ?thesis using round_positive_idem by simp
  qed simp
qed

subsection \<open>The contract of the ranking code\<close>

locale rounding =
  fixes rnd :: "rat \<Rightarrow> rat"
  assumes rnd_mono: "x \<le> y \<Longrightarrow> rnd x \<le> rnd y"
    and rnd_idem: "rnd (rnd x) = rnd x"
    and rnd_zero: "rnd 0 = 0"
    and rnd_one: "rnd 1 = 1"
begin

lemma rnd_nonneg: "0 \<le> x \<Longrightarrow> 0 \<le> rnd x"
  using rnd_mono [of 0 x] by (simp add: rnd_zero)

lemma rnd_pos: "1 \<le> x \<Longrightarrow> 0 < rnd x"
  using rnd_mono [of 1 x] by (simp add: rnd_one)

text \<open>A rounded sum is monotone in both arguments, and adding something nonnegative to a float
  never lowers it.\<close>

lemma rnd_add_mono: "a \<le> b \<Longrightarrow> c \<le> d \<Longrightarrow> rnd (a + c) \<le> rnd (b + d)"
  by (intro rnd_mono) simp

lemma rnd_add_lower: "rnd a = a \<Longrightarrow> 0 \<le> c \<Longrightarrow> a \<le> rnd (a + c)"
  using rnd_mono [of a "a + c"] by simp

text \<open>The reciprocal of a larger integer is not larger.\<close>

lemma rnd_reciprocal_antimono:
  assumes "1 \<le> i" and "i \<le> j"
  shows "rnd (1 / rnd (of_int j)) \<le> rnd (1 / rnd (of_int i))"
proof -
  have "0 < rnd (of_int i)" using assms(1) by (intro rnd_pos) simp
  moreover have "rnd (of_int i) \<le> rnd (of_int j)" using assms(2) by (intro rnd_mono) simp
  ultimately show ?thesis by (intro rnd_mono [of "1 / _" "1 / _"] frac_le) simp_all
qed

lemma rnd_reciprocal_nonneg: "1 \<le> i \<Longrightarrow> 0 \<le> rnd (1 / rnd (of_int i))"
  by (intro rnd_nonneg) (simp add: rnd_pos less_imp_le)

end

interpretation binary64: rounding binary64
  by unfold_locales (auto intro: binary64_mono simp: binary64_idem)

end
