(* ===== verification/PyValues.thy ===== *)
theory PyValues
  imports RagPrelude Complex_Main
begin

text \<open>
  Python values of the retrieval code: text as lists of code points with the string methods the
  code calls, slices, and JSON values. A JSON object is the list of its items in the order of
  their keys, so that equality of dictionaries is equality of lists. The character tables of
  Unicode that no formula describes (case folding, letters, digits) are a record the definitions
  take as an argument; white space is a short list and is written out.
\<close>

named_theorems slice_simps "facts about slices of text"

subsection \<open>Text\<close>

definition ascii :: "string \<Rightarrow> pytext" where
  "ascii s = map of_char s"

lemma ascii_inject [simp]: "ascii s = ascii t \<longleftrightarrow> s = t"
proof -
  have "inj (of_char :: char \<Rightarrow> nat)" by (rule inj_of_char)
  then show ?thesis unfolding ascii_def by (metis inj_map_eq_map)
qed

lemma ascii_Nil [simp]: "ascii [] = []"
  by (simp add: ascii_def)

lemma ascii_eq_Nil [simp]: "ascii s = [] \<longleftrightarrow> s = []"
  by (simp add: ascii_def)

record unicode =
  uc_fold :: "nat \<Rightarrow> nat list" \<comment> \<open>full case folding of a character\<close>
  uc_lower :: "pytext \<Rightarrow> pytext" \<comment> \<open>\<open>str.lower\<close>, which looks at neighbouring characters\<close>
  uc_upper :: "nat \<Rightarrow> bool" \<comment> \<open>\<open>str.isupper\<close> of a character\<close>
  uc_alpha :: "nat \<Rightarrow> bool"
  uc_alnum :: "nat \<Rightarrow> bool"
  uc_digit :: "nat \<Rightarrow> bool" \<comment> \<open>decimal digits, \<^verbatim>\<open>\d\<close>\<close>
  uc_digit_value :: "nat \<Rightarrow> nat"

text \<open>\<open>str.isspace\<close> and the class \<^verbatim>\<open>\s\<close>.\<close>

definition uspace :: "nat \<Rightarrow> bool" where
  "uspace c \<longleftrightarrow> (9 \<le> c \<and> c \<le> 13) \<or> (28 \<le> c \<and> c \<le> 32) \<or> c = 133 \<or> c = 160 \<or> c = 5760 \<or>
     (8192 \<le> c \<and> c \<le> 8202) \<or> c = 8232 \<or> c = 8233 \<or> c = 8239 \<or> c = 8287 \<or> c = 12288"

definition strip_text :: "(nat \<Rightarrow> bool) \<Rightarrow> pytext \<Rightarrow> pytext" where
  "strip_text p t = rev (dropWhile p (rev (dropWhile p t)))"

abbreviation trim :: "pytext \<Rightarrow> pytext" where
  "trim \<equiv> strip_text uspace"

definition blank :: "pytext \<Rightarrow> bool" where
  "blank t \<longleftrightarrow> list_all uspace t"

lemma blank_Nil [simp]: "blank []"
  by (simp add: blank_def)

lemma strip_text_Nil_iff: "strip_text p t = [] \<longleftrightarrow> list_all p t"
proof (cases "dropWhile p t")
  case Nil
  then show ?thesis by (auto simp: strip_text_def list_all_iff dropWhile_eq_Nil_conv dest: set_dropWhileD)
next
  case (Cons x xs)
  then have "\<not> p x" by (simp add: dropWhile_eq_Cons_conv)
  moreover have "x \<in> set t" using Cons set_dropWhileD [of x p t] by simp
  ultimately show ?thesis
    using Cons by (auto simp: strip_text_def list_all_iff dropWhile_eq_Nil_conv)
qed

lemma dropWhile_id: "t = [] \<or> \<not> p (hd t) \<Longrightarrow> dropWhile p t = t"
  by (cases t) auto

lemma strip_text_id: "t = [] \<or> \<not> p (hd t) \<and> \<not> p (last t) \<Longrightarrow> strip_text p t = t"
  using dropWhile_id [of t p] dropWhile_id [of "rev t" p] by (auto simp: strip_text_def hd_rev)

lemma strip_text_ends:
  assumes "strip_text p t \<noteq> []"
  shows "\<not> p (hd (strip_text p t)) \<and> \<not> p (last (strip_text p t))"
proof -
  let ?d = "dropWhile p t"
  have d: "?d \<noteq> []" "dropWhile p (rev ?d) \<noteq> []" using assms
    by (auto simp: strip_text_def dest: set_dropWhileD)
  then have "\<not> p (last (strip_text p t))" by (simp add: strip_text_def last_rev hd_dropWhile)
  moreover have "\<not> p (hd (strip_text p t))"
  proof -
    have "?d = strip_text p t @ rev (takeWhile p (rev ?d))"
      unfolding strip_text_def by (metis rev_append rev_rev_ident takeWhile_dropWhile_id)
    then have "hd (strip_text p t) = hd ?d" using assms by (metis hd_append2)
    with d(1) show ?thesis by (simp add: hd_dropWhile)
  qed
  ultimately show ?thesis by simp
qed

lemma trim_Nil_iff: "trim t = [] \<longleftrightarrow> blank t"
  by (simp add: strip_text_Nil_iff blank_def)

definition casefold :: "unicode \<Rightarrow> pytext \<Rightarrow> pytext" where
  "casefold u t = concat (map (uc_fold u) t)"

definition slice :: "nat \<Rightarrow> nat \<Rightarrow> 'a list \<Rightarrow> 'a list" where
  "slice a b t = take (b - a) (drop a t)"

lemma length_slice [slice_simps]: "length (slice a b t) = min (b - a) (length t - a)"
  by (simp add: slice_def)

lemma slice_append [slice_simps]:
  assumes "a \<le> b" and "b \<le> c"
  shows "slice a b t @ slice b c t = slice a c t"
proof -
  have "slice b c t = take (c - b) (drop (b - a) (drop a t))" using assms by (simp add: slice_def)
  then have "slice a b t @ slice b c t = take (b - a + (c - b)) (drop a t)"
    by (simp only: slice_def take_add)
  moreover have "b - a + (c - b) = c - a" using assms by simp
  ultimately show ?thesis by (simp add: slice_def)
qed

lemma slice_full [slice_simps]: "slice 0 (length t) t = t"
  by (simp add: slice_def)

lemma slice_empty [slice_simps]: "b \<le> a \<Longrightarrow> slice a b t = []"
  by (simp add: slice_def)

lemma nth_slice: "a + i < b \<Longrightarrow> b \<le> length t \<Longrightarrow> slice a b t ! i = t ! (a + i)"
  by (simp add: slice_def)

text \<open>\<open>str.find\<close> from a position, and \<open>in\<close>.\<close>

definition occurs_at :: "pytext \<Rightarrow> pytext \<Rightarrow> nat \<Rightarrow> bool" where
  "occurs_at sub t i \<longleftrightarrow> i + length sub \<le> length t \<and> slice i (i + length sub) t = sub"

definition text_find :: "pytext \<Rightarrow> pytext \<Rightarrow> nat \<Rightarrow> nat option" where
  "text_find sub t i = find (occurs_at sub t) [i..<Suc (length t)]"

definition contains :: "pytext \<Rightarrow> pytext \<Rightarrow> bool" where
  "contains sub t \<longleftrightarrow> text_find sub t 0 \<noteq> None"

lemma text_find_Some:
  "text_find sub t i = Some j \<Longrightarrow> i \<le> j \<and> j + length sub \<le> length t \<and> slice j (j + length sub) t = sub"
  unfolding text_find_def using find_SomeD [of "occurs_at sub t" "[i..<Suc (length t)]" j]
  by (auto simp: occurs_at_def)

fun join :: "'a list \<Rightarrow> 'a list list \<Rightarrow> 'a list" where
  "join s [] = []"
| "join s [t] = t"
| "join s (t # ts) = t @ s @ join s ts"

text \<open>Text with a property, without repetitions, in the order of first occurrence
  (\<open>dict.fromkeys\<close>).\<close>

fun first_occurrences :: "'a list \<Rightarrow> 'a list" where
  "first_occurrences [] = []"
| "first_occurrences (x # xs) = x # filter (\<lambda>y. y \<noteq> x) (first_occurrences xs)"

lemma set_first_occurrences [simp]: "set (first_occurrences xs) = set xs"
  by (induction xs) auto

lemma distinct_first_occurrences [simp]: "distinct (first_occurrences xs)"
  by (induction xs) auto

subsection \<open>JSON values\<close>

text \<open>A float is a rational, or not finite (\<^verbatim>\<open>NaN\<close> and the infinities).\<close>

datatype json = JNull | JBool bool | JInt int | JFloat "rat option" | JStr pytext
  | JList "json list" | JObj "(string \<times> json) list"

type_synonym jobject = "(string \<times> json) list"

definition get :: "jobject \<Rightarrow> string \<Rightarrow> json option" where
  "get d k = map_of d k"

fun is_str :: "json \<Rightarrow> bool" where
  "is_str (JStr _) = True"
| "is_str _ = False"

text \<open>\<open>isinstance(x, str) and x\<close>.\<close>

fun nonempty_str :: "json option \<Rightarrow> bool" where
  "nonempty_str (Some (JStr s)) = (s \<noteq> [])"
| "nonempty_str _ = False"

text \<open>\<open>isinstance(x, int)\<close> holds of booleans too.\<close>

fun is_int :: "json option \<Rightarrow> bool" where
  "is_int (Some (JInt _)) = True"
| "is_int (Some (JBool _)) = True"
| "is_int _ = False"

fun is_list :: "json option \<Rightarrow> bool" where
  "is_list (Some (JList _)) = True"
| "is_list _ = False"

fun is_bool :: "json option \<Rightarrow> bool" where
  "is_bool (Some (JBool _)) = True"
| "is_bool _ = False"

text \<open>The value of an integer or boolean.\<close>

fun int_of :: "json option \<Rightarrow> int" where
  "int_of (Some (JInt i)) = i"
| "int_of (Some (JBool b)) = (if b then 1 else 0)"
| "int_of _ = 0"

text \<open>The items of a value, when it is a list.\<close>

fun items_of :: "json option \<Rightarrow> json list" where
  "items_of (Some (JList xs)) = xs"
| "items_of _ = []"

fun fields_of :: "json option \<Rightarrow> jobject option" where
  "fields_of (Some (JObj d)) = Some d"
| "fields_of _ = None"

fun text_of :: "json option \<Rightarrow> pytext" where
  "text_of (Some (JStr s)) = s"
| "text_of _ = []"

lemma nonempty_strE:
  assumes "nonempty_str v"
  obtains s where "v = Some (JStr s)" and "s \<noteq> []"
  using assms by (cases v rule: nonempty_str.cases) auto

text \<open>Assignment to a key.\<close>

definition put_field :: "jobject \<Rightarrow> string \<Rightarrow> json \<Rightarrow> jobject" where
  "put_field d k v = (if k \<in> set (map fst d) then map (\<lambda>(k', v'). (k', if k' = k then v else v')) d
     else d @ [(k, v)])"

lemma map_of_put: "map_of (map (\<lambda>(k', v'). (k', if k' = k then v else v')) d) i =
    (if i = k then map_option (\<lambda>_. v) (map_of d k) else map_of d i)"
  by (induction d) auto

lemma get_put_field: "get (put_field d k v) i = (if i = k then Some v else get d i)"
proof (cases "map_of d k")
  case None
  then have "k \<notin> set (map fst d)" by (simp add: map_of_eq_None_iff)
  with None show ?thesis
    by (simp add: put_field_def get_def map_add_def split: option.splits)
next
  case (Some w)
  then have "k \<in> set (map fst d)" by (metis map_of_eq_None_iff option.distinct(1) set_map)
  with Some show ?thesis by (simp only: put_field_def if_True get_def map_of_put) simp
qed

text \<open>UTF-8; a surrogate has no encoding.\<close>

definition utf8_char :: "nat \<Rightarrow> nat list option" where
  "utf8_char c =
     (if c < 128 then Some [c]
      else if c < 2048 then Some [192 + c div 64, 128 + c mod 64]
      else if 55296 \<le> c \<and> c \<le> 57343 then None
      else if c < 65536 then Some [224 + c div 4096, 128 + c div 64 mod 64, 128 + c mod 64]
      else Some [240 + c div 262144, 128 + c div 4096 mod 64, 128 + c div 64 mod 64, 128 + c mod 64])"

fun utf8 :: "pytext \<Rightarrow> nat list option" where
  "utf8 [] = Some []"
| "utf8 (c # t) = (case utf8_char c of None \<Rightarrow> None
     | Some bs \<Rightarrow> map_option (\<lambda>r. bs @ r) (utf8 t))"

text \<open>\<open>str(n)\<close> of a natural number.\<close>

fun decimal :: "nat \<Rightarrow> pytext" where
  "decimal n = (if n < 10 then [48 + n] else decimal (n div 10) @ [48 + n mod 10])"

declare decimal.simps [simp del]

text \<open>An exception of an inner call, turned into one of the caller's.\<close>

definition or_error :: "'e \<Rightarrow> 'f + 'a \<Rightarrow> 'e + 'a" where
  "or_error e r = (case r of Inl _ \<Rightarrow> Inl e | Inr x \<Rightarrow> Inr x)"

lemma or_error_simps [simp]:
  "or_error e (Inl f) = Inl e"
  "or_error e (Inr x) = Inr x"
  by (simp_all add: or_error_def)

lemma or_error_Inr [simp]: "or_error e r = Inr x \<longleftrightarrow> r = Inr x"
  by (cases r) simp_all

subsection \<open>Calls to a service\<close>

text \<open>A call acts on the world outside and returns or raises; calls are made one after the other.\<close>

type_synonym ('w, 'e, 'a) call = "'w \<Rightarrow> ('e + 'a) \<times> 'w"

definition call_return :: "'a \<Rightarrow> ('w, 'e, 'a) call" where
  "call_return x w = (Inr x, w)"

definition call_raise :: "'e \<Rightarrow> ('w, 'e, 'a) call" where
  "call_raise e w = (Inl e, w)"

definition call_bind :: "('w, 'e, 'a) call \<Rightarrow> ('a \<Rightarrow> ('w, 'e, 'b) call) \<Rightarrow> ('w, 'e, 'b) call" where
  "call_bind m f w = (case m w of (Inl e, w') \<Rightarrow> (Inl e, w') | (Inr x, w') \<Rightarrow> f x w')"

definition call_when :: "bool \<Rightarrow> 'e \<Rightarrow> ('w, 'e, 'a) call \<Rightarrow> ('w, 'e, 'a) call" where
  "call_when b e m = (if b then m else call_raise e)"

definition lift_call :: "'e + 'a \<Rightarrow> ('w, 'e, 'a) call" where
  "lift_call r w = (r, w)"

named_theorems call_simps "when a sequence of calls returns"

lemma call_return_Inr [call_simps]: "call_return x w = (Inr y, w') \<longleftrightarrow> x = y \<and> w = w'"
  by (auto simp: call_return_def)

lemma call_raise_Inr [call_simps]: "call_raise e w \<noteq> (Inr y, w')"
  by (simp add: call_raise_def)

lemma call_bind_Inr [call_simps]:
  "call_bind m f w = (Inr y, w') \<longleftrightarrow> (\<exists>x v. m w = (Inr x, v) \<and> f x v = (Inr y, w'))"
  by (auto simp: call_bind_def split: prod.splits sum.splits)

lemma call_when_Inr [call_simps]:
  "call_when b e m w = (Inr y, w') \<longleftrightarrow> b \<and> m w = (Inr y, w')"
  by (simp add: call_when_def call_raise_def)

lemma lift_call_Inr [call_simps]: "lift_call r w = (Inr y, w') \<longleftrightarrow> r = Inr y \<and> w = w'"
  by (auto simp: lift_call_def)

lemma call_bind_step: "m w = (Inr x, v) \<Longrightarrow> call_bind m f w = f x v"
  by (simp add: call_bind_def)

lemma call_result: "fst p = Inr x \<Longrightarrow> p = (Inr x, snd p)"
  by (cases p) simp

text \<open>The ASCII part of the tables, for concrete runs.\<close>

definition sample_unicode :: unicode where
  "sample_unicode = \<lparr>uc_fold = (\<lambda>c. [if 65 \<le> c \<and> c \<le> 90 then c + 32 else c]),
     uc_lower = map (\<lambda>c. if 65 \<le> c \<and> c \<le> 90 then c + 32 else c),
     uc_upper = (\<lambda>c. 65 \<le> c \<and> c \<le> 90),
     uc_alpha = (\<lambda>c. 65 \<le> c \<and> c \<le> 90 \<or> 97 \<le> c \<and> c \<le> 122),
     uc_alnum = (\<lambda>c. 65 \<le> c \<and> c \<le> 90 \<or> 97 \<le> c \<and> c \<le> 122 \<or> 48 \<le> c \<and> c \<le> 57),
     uc_digit = (\<lambda>c. 48 \<le> c \<and> c \<le> 57),
     uc_digit_value = (\<lambda>c. c - 48)\<rparr>"

end
