(* ===== verification/AuthorizedScope.thy ===== *)
theory AuthorizedScope
  imports PyValues "HOL-Library.Product_Lexorder"
begin

text \<open>
  Authorization of chunks by a server-calculated scope, and the two local retrievers that rest on
  it: token overlap over a chunk list (\<^verbatim>\<open>backend/retrieval/fixture.py\<close>) and the SQLite FTS index
  (\<^verbatim>\<open>sqlite_fts.py\<close>, its BM25 query a parameter). Chunks and scopes are JSON objects whose fields
  are checked at run time.
\<close>

subsection \<open>Authorization\<close>

fun nonempty_strings :: "json list \<Rightarrow> pytext list" where
  "nonempty_strings [] = []"
| "nonempty_strings (JStr s # xs) = (if s = [] then [] else [s]) @ nonempty_strings xs"
| "nonempty_strings (x # xs) = nonempty_strings xs"

definition string_set :: "json option \<Rightarrow> pytext set" where
  "string_set v = (case v of Some (JList xs) \<Rightarrow> set (nonempty_strings xs) | _ \<Rightarrow> {})"

definition has_required_chunk_fields :: "jobject \<Rightarrow> bool" where
  "has_required_chunk_fields c \<longleftrightarrow>
     (\<forall>f \<in> set [''chunk_id'', ''document_id'', ''version_id'', ''text'', ''section_path'',
        ''tenant_id'', ''visibility'']. nonempty_str (get c f)) \<and>
     is_int (get c ''page_start'') \<and> is_int (get c ''page_end'') \<and>
     is_list (get c ''library_scope_ids'')"

definition has_required_scope_fields :: "jobject \<Rightarrow> bool" where
  "has_required_scope_fields s \<longleftrightarrow>
     (\<forall>f \<in> set [''user_id'', ''tenant_id'', ''acl_version'']. nonempty_str (get s f)) \<and>
     (\<forall>f \<in> set [''library_ids'', ''folder_ids'', ''document_ids'']. is_list (get s f)) \<and>
     is_bool (get s ''include_public'')"

text \<open>Without a document or library selector the answer is False: folders are expanded before.\<close>

definition matches_selected_scope :: "jobject \<Rightarrow> jobject \<Rightarrow> bool" where
  "matches_selected_scope c s =
     (let document_ids = string_set (get s ''document_ids'');
          library_ids = string_set (get s ''library_ids'');
          selected_by_document = (case get c ''document_id'' of
            Some (JStr d) \<Rightarrow> d \<in> document_ids | _ \<Rightarrow> False);
          selected_by_library =
            (string_set (get c ''library_scope_ids'') \<inter> library_ids \<noteq> {}) in
      if document_ids \<noteq> {} \<or> library_ids \<noteq> {} then selected_by_document \<or> selected_by_library
      else False)"

definition has_selectors :: "jobject \<Rightarrow> bool" where
  "has_selectors s \<longleftrightarrow> string_set (get s ''document_ids'') \<noteq> {} \<or>
     string_set (get s ''library_ids'') \<noteq> {} \<or> string_set (get s ''folder_ids'') \<noteq> {}"

definition is_chunk_authorized :: "jobject \<Rightarrow> jobject \<Rightarrow> bool" where
  "is_chunk_authorized c s =
     (if \<not> has_required_chunk_fields c \<or> \<not> has_required_scope_fields s \<or>
         get c ''is_active'' \<noteq> Some (JBool True) then False
      else
       (let visibility = get c ''visibility'';
            same_tenant = (get c ''tenant_id'' = get s ''tenant_id'');
            selected = matches_selected_scope c s in
        if visibility = Some (JStr (ascii ''public''))
        then get s ''include_public'' = Some (JBool True) \<and> (\<not> has_selectors s \<or> selected)
        else if visibility = Some (JStr (ascii ''tenant''))
        then same_tenant \<and> (\<not> has_selectors s \<or> selected)
        else if visibility = Some (JStr (ascii ''private'')) then same_tenant \<and> selected
        else False))"

definition filter_authorized_chunks :: "jobject list \<Rightarrow> jobject \<Rightarrow> jobject list" where
  "filter_authorized_chunks cs s = filter (\<lambda>c. is_chunk_authorized c s) cs"

subsection \<open>Token overlap\<close>

text \<open>The matches of \<^verbatim>\<open>[^\W_]+\<close>: the maximal runs of letters and digits.\<close>

lemma length_after_run:
  assumes "dropWhile q t = c # cs"
  shows "length (dropWhile p cs) < length t"
proof -
  have "length (dropWhile q t) \<le> length t" by (rule length_dropWhile_le)
  moreover have "length (dropWhile p cs) \<le> length cs" by (rule length_dropWhile_le)
  ultimately show ?thesis using assms by simp
qed

function word_runs :: "(nat \<Rightarrow> bool) \<Rightarrow> pytext \<Rightarrow> pytext list" where
  "word_runs p t = (case dropWhile (\<lambda>c. \<not> p c) t of [] \<Rightarrow> []
     | c # cs \<Rightarrow> (c # takeWhile p cs) # word_runs p (dropWhile p cs))"
  by pat_completeness auto
termination
  by (relation "measure (length \<circ> snd)") (auto simp: length_after_run)

declare word_runs.simps [simp del]

definition stop_words :: "pytext list" where
  "stop_words = map ascii [''a'', ''an'', ''and'', ''are'', ''before'', ''does'', ''for'', ''how'',
     ''in'', ''is'', ''of'', ''the'', ''to'', ''what'']"

definition tokens :: "unicode \<Rightarrow> pytext \<Rightarrow> pytext set" where
  "tokens u t = set (filter (\<lambda>w. w \<notin> set stop_words) (map (uc_lower u) (word_runs (uc_alnum u) t)))"

datatype retrieval_error = RetrievalValueError | IndexNotReadyError

definition overlap :: "unicode \<Rightarrow> pytext \<Rightarrow> jobject \<Rightarrow> nat" where
  "overlap u question c = card (tokens u question \<inter>
     tokens u (text_of (get c ''section_path'') @ ascii '' '' @ text_of (get c ''text'')))"

definition retrieve_chunks ::
  "unicode \<Rightarrow> pytext \<Rightarrow> jobject list \<Rightarrow> jobject \<Rightarrow> int \<Rightarrow> retrieval_error + jobject list" where
  "retrieve_chunks u question chunks s top_k =
     (if blank question then Inl RetrievalValueError
      else if top_k < 1 then Inl RetrievalValueError
      else if tokens u question = {} then Inr []
      else Inr (take (nat top_k)
        (sort_key (\<lambda>c. (- int (overlap u question c), text_of (get c ''chunk_id'')))
          (filter (\<lambda>c. 0 < overlap u question c) (filter_authorized_chunks chunks s)))))"

subsection \<open>The SQLite index\<close>

definition fts_stop_words :: "pytext list" where
  "fts_stop_words = map ascii [''a'', ''an'', ''and'', ''are'', ''before'', ''does'', ''each'',
     ''for'', ''how'', ''in'', ''is'', ''of'', ''or'', ''the'', ''to'', ''what'']"

text \<open>The MATCH expression: the distinct terms, quoted, joined by OR.\<close>

definition query_terms :: "unicode \<Rightarrow> pytext \<Rightarrow> pytext list" where
  "query_terms u question = first_occurrences
     (filter (\<lambda>w. w \<notin> set fts_stop_words) (map (uc_lower u) (word_runs (uc_alnum u) question)))"

definition query_expression :: "unicode \<Rightarrow> pytext \<Rightarrow> pytext option" where
  "query_expression u question =
     (if query_terms u question = [] then None
      else Some (join (ascii '' OR '')
        (map (\<lambda>w. [34] @ w @ [34]) (query_terms u question))))"

text \<open>
  \<open>fts\<close> is the FTS5 query: the stored payloads matching an expression, best first. \<open>verified\<close> is
  what \<open>verify_source\<close> finds when the caller expects certain chunks.
\<close>

fun first_authorized :: "jobject \<Rightarrow> nat \<Rightarrow> json list \<Rightarrow> jobject list" where
  "first_authorized s k [] = []"
| "first_authorized s k (JObj c # rows) =
     (if is_chunk_authorized c s
      then c # (if k = 1 then [] else first_authorized s (k - 1) rows)
      else first_authorized s k rows)"
| "first_authorized s k (_ # rows) = first_authorized s k rows"

definition sqlite_retrieve ::
  "unicode \<Rightarrow> (pytext \<Rightarrow> retrieval_error + json list) \<Rightarrow> bool option \<Rightarrow> pytext \<Rightarrow> jobject \<Rightarrow> int \<Rightarrow>
     retrieval_error + jobject list"
where
  "sqlite_retrieve u fts verified question s top_k =
     (if blank question then Inl RetrievalValueError
      else if top_k < 1 then Inl RetrievalValueError
      else if verified = Some False then Inl IndexNotReadyError
      else case query_expression u question of None \<Rightarrow> Inr []
      | Some e \<Rightarrow> bind_res (fts e) (\<lambda>rows. Inr (first_authorized s (nat top_k) rows)))"

subsection \<open>What a scope lets through\<close>

lemma nonempty_strings_nonempty: "s \<in> set (nonempty_strings xs) \<Longrightarrow> s \<noteq> []"
  by (induction xs rule: nonempty_strings.induct) (auto split: if_splits)

lemma string_set_nonempty: "s \<in> string_set v \<Longrightarrow> s \<noteq> []"
  by (auto simp: string_set_def nonempty_strings_nonempty split: option.splits json.splits)

definition text_field :: "jobject \<Rightarrow> string \<Rightarrow> pytext" where
  "text_field d k = text_of (get d k)"

text \<open>The scope of one route: a single document, no library or folder selector.\<close>

definition narrowed :: "jobject \<Rightarrow> pytext \<Rightarrow> jobject \<Rightarrow> bool" where
  "narrowed s d s' \<longleftrightarrow> d \<noteq> [] \<and> get s' ''document_ids'' = Some (JList [JStr d]) \<and>
     get s' ''library_ids'' = Some (JList []) \<and> get s' ''folder_ids'' = Some (JList []) \<and>
     (\<forall>k. k \<in> {''document_ids'', ''library_ids'', ''folder_ids''} \<or> get s' k = get s k)"

lemma authorizedD:
  assumes "is_chunk_authorized c s"
  shows "get c ''is_active'' = Some (JBool True)" and "has_required_chunk_fields c"
    and "has_required_scope_fields s"
    and "get c ''visibility'' = Some (JStr (ascii ''public'')) \<or> get c ''tenant_id'' = get s ''tenant_id''"
    and "get c ''visibility'' = Some (JStr (ascii ''private'')) \<Longrightarrow> matches_selected_scope c s"
    and "has_selectors s \<Longrightarrow> matches_selected_scope c s"
  using assms by (auto simp: is_chunk_authorized_def Let_def split: if_splits)

lemma selectedD:
  assumes "matches_selected_scope c s" and "string_set (get s ''library_ids'') = {}"
  obtains d where "get c ''document_id'' = Some (JStr d)" and "d \<in> string_set (get s ''document_ids'')"
  using assms by (auto simp: matches_selected_scope_def Let_def split: if_splits option.splits json.splits)

lemma narrowed_document:
  assumes "narrowed s d s'" and "is_chunk_authorized c s'"
  shows "get c ''document_id'' = Some (JStr d)"
proof -
  have sel: "string_set (get s' ''document_ids'') = {d}" "string_set (get s' ''library_ids'') = {}"
    using assms(1) by (simp_all add: narrowed_def string_set_def)
  then have "has_selectors s'" by (simp add: has_selectors_def)
  with authorizedD(6) [OF assms(2)] have "matches_selected_scope c s'" by simp
  with sel show ?thesis by (auto elim: selectedD)
qed

lemma first_authorized_set:
  "c \<in> set (first_authorized s k rows) \<Longrightarrow> is_chunk_authorized c s \<and> JObj c \<in> set rows"
  by (induction s k rows rule: first_authorized.induct) (auto split: if_splits)

text \<open>The loop with its \<^verbatim>\<open>break\<close> is the prefix of the authorized rows.\<close>

fun objects :: "json list \<Rightarrow> jobject list" where
  "objects [] = []"
| "objects (JObj d # xs) = d # objects xs"
| "objects (_ # xs) = objects xs"

lemma first_authorized_eq:
  "1 \<le> k \<Longrightarrow> first_authorized s k rows = take k (filter_authorized_chunks (objects rows) s)"
proof (induction s k rows rule: first_authorized.induct)
  case (2 s k c rows)
  then show ?case
    by (cases k) (auto simp: filter_authorized_chunks_def)
qed (auto simp: filter_authorized_chunks_def)

text \<open>Authorization is a whitelist: a chunk passes only when it is active and well formed and
  either is public under a scope that includes public documents or belongs to the scope's tenant; a
  private chunk only when a document or library selector names it; and once the scope names
  anything at all, no chunk it does not name passes.\<close>

theorem scope_is_whitelist:
  assumes "is_chunk_authorized c s"
  shows "get c ''is_active'' = Some (JBool True) \<and> has_required_chunk_fields c \<and>
    (text_field c ''visibility'' = ascii ''public'' \<and> get s ''include_public'' = Some (JBool True) \<or>
     text_field c ''tenant_id'' = text_field s ''tenant_id'' \<and> text_field s ''tenant_id'' \<noteq> []) \<and>
    (text_field c ''visibility'' \<noteq> ascii ''private'' \<and> \<not> has_selectors s \<or>
     text_field c ''document_id'' \<in> string_set (get s ''document_ids'') \<or>
     string_set (get c ''library_scope_ids'') \<inter> string_set (get s ''library_ids'') \<noteq> {})"
proof -
  note a = authorizedD [OF assms]
  have "nonempty_str (get c ''visibility'')" using a(2) by (simp add: has_required_chunk_fields_def)
  then obtain v where v: "get c ''visibility'' = Some (JStr v)" by (elim nonempty_strE)
  have "nonempty_str (get s ''tenant_id'')" using a(3) by (simp add: has_required_scope_fields_def)
  then obtain t where t: "get s ''tenant_id'' = Some (JStr t)" "t \<noteq> []" by (elim nonempty_strE)
  have sel: "text_field c ''document_id'' \<in> string_set (get s ''document_ids'') \<or>
     string_set (get c ''library_scope_ids'') \<inter> string_set (get s ''library_ids'') \<noteq> {}"
    if "matches_selected_scope c s"
    using that by (auto simp: matches_selected_scope_def Let_def text_field_def
        split: if_splits option.splits json.splits)
  have "v = ascii ''public'' \<and> get s ''include_public'' = Some (JBool True) \<or>
     get c ''tenant_id'' = Some (JStr t)"
    using assms v t by (auto simp: is_chunk_authorized_def Let_def split: if_splits)
  moreover have "v = ascii ''private'' \<or> has_selectors s \<Longrightarrow> matches_selected_scope c s"
    using a(5,6) v by auto
  ultimately show ?thesis using a(1,2) v t sel by (auto simp: text_field_def)
qed

subsection \<open>Samples\<close>

definition sample_authorized_chunk :: jobject where
  "sample_authorized_chunk =
     [(''chunk_id'', JStr (ascii ''c1'')), (''document_id'', JStr (ascii ''doc1'')),
      (''is_active'', JBool True), (''library_scope_ids'', JList []), (''page_end'', JInt 2),
      (''page_start'', JInt 1), (''section_path'', JStr (ascii ''Method'')),
      (''tenant_id'', JStr (ascii ''alice'')), (''text'', JStr (ascii ''attention layers'')),
      (''version_id'', JStr (ascii ''v1'')), (''visibility'', JStr (ascii ''private''))]"

definition sample_scope :: jobject where
  "sample_scope =
     [(''acl_version'', JStr (ascii ''acl1'')), (''document_ids'', JList [JStr (ascii ''doc1'')]),
      (''folder_ids'', JList []), (''include_public'', JBool False), (''library_ids'', JList []),
      (''tenant_id'', JStr (ascii ''alice'')), (''user_id'', JStr (ascii ''alice''))]"

lemma sample_authorized: "is_chunk_authorized sample_authorized_chunk sample_scope"
  by code_simp

theorem scope_is_whitelist_witness:
  "text_field sample_authorized_chunk ''tenant_id'' = text_field sample_scope ''tenant_id''"
proof -
  have "text_field sample_authorized_chunk ''visibility'' \<noteq> ascii ''public''" by code_simp
  with scope_is_whitelist [OF sample_authorized] show ?thesis by blast
qed

end
