(* ===== verification/RankedResults.thy ===== *)
theory RankedResults
  imports Binary64 AuthorizedScope
begin

text \<open>
  Ranked candidates and reciprocal-rank fusion: \<^verbatim>\<open>backend/retrieval/results.py\<close>, the local
  (\<^verbatim>\<open>hybrid.py\<close>) and remote (\<^verbatim>\<open>remote_hybrid.py\<close>) hybrid retrievers, and \<open>_fuse\<close> and
  \<open>_apply_selection\<close> of \<^verbatim>\<open>online.py\<close>. Scores are binary64 numbers, computed with the rounding of
  every operation; a rank so large that its conversion overflows raises. The three dictionaries
  of a fusion share their keys and are one table of entries in insertion order.
\<close>

subsection \<open>Ranked candidates\<close>

record ranked_chunk =
  rk_backend :: string
  rk_rank :: int
  rk_score :: rat
  rk_chunk :: jobject

datatype fusion_error = FusionValueError | BackendsDisagree | FusionOverflow

definition chunk_key :: "jobject \<Rightarrow> pytext" where
  "chunk_key c = text_field c ''chunk_id''"

definition backend_ok :: "string \<Rightarrow> bool" where
  "backend_ok b = (case b of [] \<Rightarrow> False | c # cs \<Rightarrow> id_head_char c \<and> list_all id_tail_char cs)"

text \<open>The checks of \<open>__post_init__\<close>; a score is finite because it is a rational.\<close>

definition ranked_ok :: "ranked_chunk \<Rightarrow> bool" where
  "ranked_ok r \<longleftrightarrow> backend_ok (rk_backend r) \<and> 1 \<le> rk_rank r \<and>
     nonempty_str (get (rk_chunk r) ''chunk_id'') \<and>
     nonempty_str (get (rk_chunk r) ''document_id'')"

definition ranked_chunk_of :: "string \<Rightarrow> int \<Rightarrow> rat \<Rightarrow> jobject \<Rightarrow> fusion_error + ranked_chunk" where
  "ranked_chunk_of b rank score c =
     (let r = \<lparr>rk_backend = b, rk_rank = rank, rk_score = score, rk_chunk = c\<rparr> in
      if ranked_ok r then Inr r else Inl FusionValueError)"

definition validate_ranking :: "ranked_chunk list \<Rightarrow> string \<Rightarrow> bool" where
  "validate_ranking ranking expected_backend =
     (if map rk_rank ranking \<noteq> [1..int (length ranking)] then False
      else if \<not> distinct (map (\<lambda>r. chunk_key (rk_chunk r)) ranking) then False
      else \<not> (\<exists>r \<in> set ranking. rk_backend r \<noteq> expected_backend))"

definition chunks_only :: "ranked_chunk list \<Rightarrow> jobject list" where
  "chunks_only ranking = map rk_chunk ranking"

subsection \<open>Fusion\<close>

record entry =
  en_id :: pytext
  en_chunk :: jobject
  en_score :: rat
  en_best :: int

definition rrf_term :: "int \<Rightarrow> int \<Rightarrow> rat" where
  "rrf_term k rank = binary64 (1 / binary64 (of_int (k + rank)))"

text \<open>One candidate: \<open>check\<close> tells whether a payload that differs from the recorded one raises.\<close>

definition vote :: "int \<Rightarrow> int \<Rightarrow> jobject \<Rightarrow> entry list \<Rightarrow> entry list" where
  "vote k rank c es =
     (let cid = chunk_key c; t = rrf_term k rank in
      if \<exists>e \<in> set es. en_id e = cid
      then map (\<lambda>e. if en_id e = cid then e\<lparr>en_chunk := c, en_score := binary64 (en_score e + t),
             en_best := min (en_best e) rank\<rparr> else e) es
      else es @ [\<lparr>en_id = cid, en_chunk = c, en_score = binary64 (0 + t), en_best = rank\<rparr>])"

fun tally :: "bool \<Rightarrow> fusion_error \<Rightarrow> int \<Rightarrow> (int \<times> jobject) list \<Rightarrow> entry list \<Rightarrow> fusion_error + entry list"
where
  "tally check err k [] es = Inr es"
| "tally check err k ((rank, c) # cs) es =
     (if check \<and> (\<exists>e \<in> set es. en_id e = chunk_key c \<and> en_chunk e \<noteq> c) then Inl err
      else if overflows (of_int (k + rank)) then Inl FusionOverflow
      else tally check err k cs (vote k rank c es))"

definition ordered :: "entry list \<Rightarrow> entry list" where
  "ordered es = sort_key (\<lambda>e. (- en_score e, en_best e, en_id e)) es"

definition ranked_pairs :: "ranked_chunk list \<Rightarrow> (int \<times> jobject) list" where
  "ranked_pairs ranking = map (\<lambda>r. (rk_rank r, rk_chunk r)) ranking"

text \<open>The fused list: ranks from 1, every candidate checked as it is built.\<close>

fun ranked_entries :: "string \<Rightarrow> int \<Rightarrow> entry list \<Rightarrow> fusion_error + ranked_chunk list" where
  "ranked_entries b rank [] = Inr []"
| "ranked_entries b rank (e # es) =
     bind_res (ranked_chunk_of b rank (en_score e) (en_chunk e)) (\<lambda>r.
     bind_res (ranked_entries b (rank + 1) es) (\<lambda>rs. Inr (r # rs)))"

definition validated :: "string \<Rightarrow> ranked_chunk list \<Rightarrow> fusion_error + ranked_chunk list" where
  "validated b ranking = (if validate_ranking ranking b then Inr ranking else Inl FusionValueError)"

definition online_retrieval_backend :: string where
  "online_retrieval_backend = ''online_ready_es_milvus_rrf_v1''"

definition fuse :: "int \<Rightarrow> ranked_chunk list list \<Rightarrow> nat option \<Rightarrow> fusion_error + ranked_chunk list" where
  "fuse rrf_k rankings top_k =
     bind_res (tally True BackendsDisagree rrf_k (concat (map ranked_pairs rankings)) []) (\<lambda>es.
     let order = ordered es;
         order = (case top_k of None \<Rightarrow> order | Some k \<Rightarrow> take k order) in
     bind_res (ranked_entries online_retrieval_backend 1 order)
       (validated online_retrieval_backend))"

definition apply_selection ::
  "ranked_chunk list \<Rightarrow> pytext list \<Rightarrow> int \<Rightarrow> fusion_error + ranked_chunk list" where
  "apply_selection candidates selected_ids top_k =
     (if int (length selected_ids) \<noteq> top_k \<or> \<not> distinct selected_ids then Inl FusionValueError
      else
       (let by_id = map_of (rev (map (\<lambda>r. (chunk_key (rk_chunk r), r)) candidates)) in
        if \<not> (\<forall>i \<in> set selected_ids. by_id i \<noteq> None) then Inl FusionValueError
        else
          bind_res (ranked_entries online_retrieval_backend 1
            (map (\<lambda>i. \<lparr>en_id = i, en_chunk = rk_chunk (the (by_id i)),
               en_score = rk_score (the (by_id i)), en_best = 0\<rparr>) selected_ids))
          (validated online_retrieval_backend)))"

subsection \<open>The hybrid retrievers\<close>

definition hybrid_config_ok :: "int \<Rightarrow> int \<Rightarrow> rat \<Rightarrow> bool" where
  "hybrid_config_ok candidate_k rrf_k vector_min_score \<longleftrightarrow>
     \<not> candidate_k < 1 \<and> \<not> rrf_k < 1 \<and> - 1 \<le> vector_min_score \<and> vector_min_score \<le> 1"

text \<open>Local fusion enumerates two plain chunk lists and lets the last payload win.\<close>

definition enumerate_from_one :: "jobject list \<Rightarrow> (int \<times> jobject) list" where
  "enumerate_from_one cs = zip [1..int (length cs)] cs"

definition local_hybrid_retrieve ::
  "(fusion_error + jobject list) \<Rightarrow> (fusion_error + jobject list) \<Rightarrow> int \<Rightarrow> int \<Rightarrow>
     fusion_error + jobject list"
where
  "local_hybrid_retrieve lexical_result vector_result rrf_k top_k =
     (if top_k < 1 then Inl FusionValueError
      else bind_res lexical_result (\<lambda>lexical. bind_res vector_result (\<lambda>vector.
        bind_res (tally False FusionValueError rrf_k
          (enumerate_from_one lexical @ enumerate_from_one vector) []) (\<lambda>es.
        Inr (map en_chunk (take (nat top_k) (ordered es)))))))"

definition remote_retrieval_backend :: string where
  "remote_retrieval_backend = ''remote_rrf_elasticsearch_milvus_v1''"

definition check_source :: "ranked_chunk list \<Rightarrow> fusion_error + unit" where
  "check_source ranking = (case ranking of [] \<Rightarrow> Inr ()
     | r # _ \<Rightarrow> if validate_ranking ranking (rk_backend r) then Inr () else Inl FusionValueError)"

definition remote_hybrid_search ::
  "(fusion_error + ranked_chunk list) \<Rightarrow> (fusion_error + ranked_chunk list) \<Rightarrow> int \<Rightarrow> int \<Rightarrow>
     fusion_error + ranked_chunk list"
where
  "remote_hybrid_search elasticsearch_result milvus_result rrf_k top_k =
     (if top_k < 1 then Inl FusionValueError
      else bind_res elasticsearch_result (\<lambda>es. bind_res milvus_result (\<lambda>mv.
        bind_res (check_source es) (\<lambda>_. bind_res (check_source mv) (\<lambda>_.
        bind_res (tally True FusionValueError rrf_k (ranked_pairs es @ ranked_pairs mv) []) (\<lambda>entries.
        bind_res (ranked_entries remote_retrieval_backend 1 (take (nat top_k) (ordered entries)))
          (validated remote_retrieval_backend)))))))"

subsection \<open>What a tally holds\<close>

text \<open>The ranks a chunk was given, in the order of the rankings, and the sum they make.\<close>

definition votes :: "(int \<times> jobject) list \<Rightarrow> pytext \<Rightarrow> int list" where
  "votes cs i = map fst (filter (\<lambda>(_, c). chunk_key c = i) cs)"

definition rrf_score :: "int \<Rightarrow> int list \<Rightarrow> rat" where
  "rrf_score k ranks = foldl (\<lambda>s r. binary64 (s + rrf_term k r)) 0 ranks"

definition known_ids :: "(int \<times> jobject) list \<Rightarrow> pytext set" where
  "known_ids cs = chunk_key ` snd ` set cs"

definition entry_ok :: "int \<Rightarrow> (int \<times> jobject) list \<Rightarrow> entry \<Rightarrow> bool" where
  "entry_ok k cs e \<longleftrightarrow> en_score e = rrf_score k (votes cs (en_id e)) \<and>
     en_best e = Min (set (votes cs (en_id e))) \<and> en_id e = chunk_key (en_chunk e) \<and>
     en_chunk e \<in> snd ` set cs"

definition tallied :: "int \<Rightarrow> (int \<times> jobject) list \<Rightarrow> entry list \<Rightarrow> bool" where
  "tallied k cs es \<longleftrightarrow> distinct (map en_id es) \<and> en_id ` set es = known_ids cs \<and>
     (\<forall>e \<in> set es. entry_ok k cs e)"

lemma known_ids_snoc: "known_ids (cs @ [(r, c)]) = insert (chunk_key c) (known_ids cs)"
  by (auto simp: known_ids_def)

lemma votes_snoc:
  "votes (cs @ [(r, c)]) i = votes cs i @ (if chunk_key c = i then [r] else [])"
  by (simp add: votes_def)

lemma votes_append: "votes (cs @ ds) i = votes cs i @ votes ds i"
  by (simp add: votes_def)

lemma votes_Nil_iff: "votes cs i = [] \<longleftrightarrow> i \<notin> known_ids cs"
  by (force simp: votes_def known_ids_def filter_empty_conv)

lemma rrf_score_snoc: "rrf_score k (rs @ [r]) = binary64 (rrf_score k rs + rrf_term k r)"
  by (simp add: rrf_score_def)

lemma rrf_score_Nil [simp]: "rrf_score k [] = 0"
  by (simp add: rrf_score_def)

text \<open>One vote: the entry of the chunk it is for, and the entries of the others.\<close>

definition revote :: "int \<Rightarrow> int \<Rightarrow> jobject \<Rightarrow> entry \<Rightarrow> entry" where
  "revote k rank c e = (if en_id e = chunk_key c then e\<lparr>en_chunk := c,
     en_score := binary64 (en_score e + rrf_term k rank), en_best := min (en_best e) rank\<rparr> else e)"

lemma en_id_revote [simp]: "en_id (revote k rank c e) = en_id e"
  by (simp add: revote_def)

lemma vote_eq:
  "vote k rank c es = (if chunk_key c \<in> en_id ` set es then map (revote k rank c) es
     else es @ [\<lparr>en_id = chunk_key c, en_chunk = c, en_score = binary64 (0 + rrf_term k rank),
       en_best = rank\<rparr>])"
proof -
  have "(\<exists>e \<in> set es. en_id e = chunk_key c) \<longleftrightarrow> chunk_key c \<in> en_id ` set es"
    by (metis image_iff)
  then show ?thesis by (simp add: vote_def Let_def revote_def [abs_def])
qed

lemma entry_ok_revote:
  assumes "entry_ok k cs e" and "en_id e \<in> known_ids cs"
  shows "entry_ok k (cs @ [(rank, c)]) (revote k rank c e)"
proof (cases "en_id e = chunk_key c")
  case True
  have "votes cs (en_id e) \<noteq> []" using assms(2) by (simp add: votes_Nil_iff)
  with True assms(1) show ?thesis
    by (simp add: entry_ok_def revote_def votes_snoc rrf_score_snoc min.commute)
next
  case False
  with assms(1) show ?thesis by (auto simp: entry_ok_def revote_def votes_snoc)
qed

lemma tallied_vote:
  assumes t: "tallied k cs es"
  shows "tallied k (cs @ [(rank, c)]) (vote k rank c es)"
proof (cases "chunk_key c \<in> en_id ` set es")
  case True
  then have "known_ids (cs @ [(rank, c)]) = known_ids cs"
    using t by (simp add: tallied_def known_ids_snoc insert_absorb)
  moreover have "map en_id (map (revote k rank c) es) = map en_id es" by simp
  moreover have "entry_ok k (cs @ [(rank, c)]) (revote k rank c e)" if "e \<in> set es" for e
    using that t by (intro entry_ok_revote) (auto simp: tallied_def)
  ultimately show ?thesis
    using t True by (simp add: tallied_def vote_eq image_image comp_def)
next
  case False
  then have "votes cs (chunk_key c) = []" using t by (simp add: tallied_def votes_Nil_iff)
  then have new: "entry_ok k (cs @ [(rank, c)]) \<lparr>en_id = chunk_key c, en_chunk = c,
      en_score = binary64 (0 + rrf_term k rank), en_best = rank\<rparr>"
    by (simp add: entry_ok_def votes_snoc rrf_score_def)
  have "entry_ok k (cs @ [(rank, c)]) e" if "e \<in> set es" for e
  proof -
    have "en_id e \<noteq> chunk_key c" using that False by (metis image_eqI)
    then have "revote k rank c e = e" by (simp add: revote_def)
    then show ?thesis
      using entry_ok_revote [of k cs e rank c] that t by (auto simp: tallied_def)
  qed
  with new False t show ?thesis by (auto simp: tallied_def vote_eq known_ids_snoc)
qed

lemma tally_tallied:
  assumes "tally check err k ds es = Inr es'" and "tallied k cs es"
  shows "tallied k (cs @ ds) es'"
  using assms
proof (induction check err k ds es arbitrary: cs rule: tally.induct)
  case (2 check err k rank c ds es)
  have "tally check err k ds (vote k rank c es) = Inr es'"
    using "2.prems"(1) by (auto split: if_splits)
  moreover have "\<not> (check \<and> (\<exists>e \<in> set es. en_id e = chunk_key c \<and> en_chunk e \<noteq> c))"
    and "\<not> overflows (of_int (k + rank))"
    using "2.prems"(1) by (auto split: if_splits)
  ultimately have "tallied k ((cs @ [(rank, c)]) @ ds) es'"
    using tallied_vote [OF "2.prems"(2)] "2.IH" by blast
  then show ?case by simp
qed simp

lemma tallied_Nil [simp]: "tallied k [] []"
  by (simp add: tallied_def known_ids_def)

lemmas tally_result = tally_tallied [OF _ tallied_Nil, simplified]

text \<open>With the check, one identity has one payload.\<close>

lemma vote_adds: "\<exists>e \<in> set (vote k rank c es). en_id e = chunk_key c \<and> en_chunk e = c"
proof (cases "chunk_key c \<in> en_id ` set es")
  case True
  then obtain e where "e \<in> set es" "en_id e = chunk_key c" by force
  then have "revote k rank c e \<in> set (vote k rank c es)" "en_chunk (revote k rank c e) = c"
    using True by (simp_all add: vote_eq revote_def)
  with \<open>en_id e = chunk_key c\<close> show ?thesis by (metis en_id_revote)
qed (simp add: vote_eq)

lemma vote_keeps:
  assumes "e \<in> set es" and "en_id e = chunk_key c \<Longrightarrow> en_chunk e = c"
  shows "\<exists>e' \<in> set (vote k rank c es). en_id e' = en_id e \<and> en_chunk e' = en_chunk e"
proof (cases "en_id e = chunk_key c")
  case True
  with assms(2) vote_adds [of k rank c es] show ?thesis by metis
next
  case False
  then have "revote k rank c e = e" by (simp add: revote_def)
  then have "e \<in> set (vote k rank c es)" using assms(1) by (force simp: vote_eq)
  then show ?thesis by blast
qed

lemma tally_payload:
  assumes "tally True err k ds es = Inr es'"
    and "\<forall>c \<in> snd ` set cs. \<exists>e \<in> set es. en_id e = chunk_key c \<and> en_chunk e = c"
  shows "\<forall>c \<in> snd ` set (cs @ ds). \<exists>e \<in> set es'. en_id e = chunk_key c \<and> en_chunk e = c"
  using assms
proof (induction ds arbitrary: cs es)
  case (Cons p ds)
  obtain rank c where p: "p = (rank, c)" by (cases p)
  have rest: "tally True err k ds (vote k rank c es) = Inr es'"
    using Cons.prems(1) unfolding p by (simp split: if_splits)
  have same: "en_chunk e = c" if "e \<in> set es" "en_id e = chunk_key c" for e
    using Cons.prems(1) that unfolding p by (auto split: if_splits)
  have "\<exists>e' \<in> set (vote k rank c es). en_id e' = chunk_key d \<and> en_chunk e' = d"
    if d: "d \<in> snd ` set (cs @ [(rank, c)])" for d
  proof (cases "d = c")
    case True
    then show ?thesis using vote_adds by blast
  next
    case False
    with d obtain e where e: "e \<in> set es" "en_id e = chunk_key d" "en_chunk e = d"
      using Cons.prems(2) by auto
    with same vote_keeps [of e es c k rank] show ?thesis by metis
  qed
  with Cons.IH [OF rest, of "cs @ [(rank, c)]"] show ?case unfolding p by simp
qed simp

subsection \<open>The fused list\<close>

lemma ranked_entries_Inr:
  "ranked_entries b n es = Inr rs \<Longrightarrow>
     map rk_chunk rs = map en_chunk es \<and> map rk_score rs = map en_score es \<and>
     map rk_rank rs = [n..n + int (length es) - 1] \<and> (\<forall>r \<in> set rs. rk_backend r = b \<and> ranked_ok r)"
proof (induction b n es arbitrary: rs rule: ranked_entries.induct)
  case (2 b n e es)
  then obtain r rs' where r: "ranked_chunk_of b n (en_score e) (en_chunk e) = Inr r"
    "ranked_entries b (n + 1) es = Inr rs'" "rs = r # rs'"
    by (auto simp: bind_res_Inr_iff)
  have "[n..n + int (length (e # es)) - 1] = n # [n + 1..n + 1 + int (length es) - 1]"
    by (subst upto_rec1) (simp_all add: algebra_simps)
  with "2.IH" [OF r(2)] r show ?case
    by (auto simp: ranked_chunk_of_def Let_def split: if_splits)
qed simp

text \<open>Entries whose chunks are valid and distinct always make a valid ranking: the checks after a
  fusion never fail.\<close>

lemma ranked_entries_total:
  assumes "backend_ok b" and "1 \<le> n"
    and "\<forall>e \<in> set es. nonempty_str (get (en_chunk e) ''chunk_id'') \<and>
      nonempty_str (get (en_chunk e) ''document_id'')"
  shows "\<exists>rs. ranked_entries b n es = Inr rs"
  using assms
  by (induction b n es rule: ranked_entries.induct)
    (auto simp: ranked_chunk_of_def ranked_ok_def Let_def)

lemma ordered_perm: "set (ordered es) = set es" "distinct (map en_id (ordered es)) = distinct (map en_id es)"
  by (simp_all add: ordered_def distinct_map)

text \<open>The order of a fused list: score descending, then best rank, then identity.\<close>

definition precedes :: "entry \<Rightarrow> entry \<Rightarrow> bool" where
  "precedes d e \<longleftrightarrow> en_score e < en_score d \<or>
     en_score e = en_score d \<and> (en_best d < en_best e \<or> en_best d = en_best e \<and> en_id d \<le> en_id e)"

lemma ordered_precedes: "sorted_wrt precedes (ordered es)"
proof -
  have "sorted (map (\<lambda>e. (- en_score e, en_best e, en_id e)) (ordered es))"
    unfolding ordered_def by (rule sorted_sort_key)
  then have "sorted_wrt (\<lambda>d e. (- en_score d, en_best d, en_id d) \<le> (- en_score e, en_best e, en_id e))
      (ordered es)"
    by (simp add: sorted_map)
  then show ?thesis
    by (rule sorted_wrt_mono_rel [rotated]) (auto simp: precedes_def less_eq_prod_def less_prod_def)
qed

text \<open>Whatever is bound off comes after everything that is kept.\<close>

lemma take_precedes:
  assumes "sorted_wrt R xs" and "x \<in> set (take k xs)" and "y \<in> set xs" and "y \<notin> set (take k xs)"
  shows "R x y"
proof -
  have "y \<in> set (drop k xs)"
    using assms(3,4) by (metis Un_iff append_take_drop_id set_append)
  moreover have "sorted_wrt R (take k xs @ drop k xs)" using assms(1) by simp
  ultimately show ?thesis using assms(2) unfolding sorted_wrt_append by blast
qed

subsection \<open>The order of a fusion\<close>

lemma fuse_parts:
  assumes "fuse k rankings bound = Inr out"
  obtains es where "tally True BackendsDisagree k (concat (map ranked_pairs rankings)) [] = Inr es"
    and "tallied k (concat (map ranked_pairs rankings)) es"
    and "ranked_entries online_retrieval_backend 1
      (case bound of None \<Rightarrow> ordered es | Some n \<Rightarrow> take n (ordered es)) = Inr out"
    and "validate_ranking out online_retrieval_backend"
  using assms tally_result
  by (auto simp: fuse_def Let_def bind_res_Inr_iff validated_def split: if_splits)

text \<open>The kept entries: a prefix of the ordered ones.\<close>

definition kept :: "nat option \<Rightarrow> entry list \<Rightarrow> entry list" where
  "kept bound es = take (case bound of None \<Rightarrow> length es | Some n \<Rightarrow> n) (ordered es)"

lemma kept_eq: "(case bound of None \<Rightarrow> ordered es | Some n \<Rightarrow> take n (ordered es)) = kept bound es"
  by (simp add: kept_def ordered_def split: option.splits)

lemma set_kept: "set (kept bound es) \<subseteq> set es"
  using set_take_subset by (fastforce simp: kept_def ordered_perm)

lemma kept_precedes:
  assumes "d \<in> set (kept bound es)" and "e \<in> set es" and "e \<notin> set (kept bound es)"
  shows "precedes d e"
  using take_precedes [OF ordered_precedes] assms by (auto simp: kept_def ordered_perm)

lemma tallied_card: "tallied k cs es \<Longrightarrow> length es = card (known_ids cs)"
  by (metis card_image distinct_card distinct_map length_map tallied_def)

lemma tallied_entry:
  assumes "tallied k cs es" and "i \<in> known_ids cs"
  obtains e where "e \<in> set es" and "en_id e = i" and "entry_ok k cs e"
  using assms unfolding tallied_def by (metis imageE)

text \<open>The fused list is what its entries say.\<close>

lemma fused_nth:
  assumes "ranked_entries b n es = Inr out" and "j < length es"
  shows "rk_chunk (out ! j) = en_chunk (es ! j) \<and> rk_score (out ! j) = en_score (es ! j) \<and>
    rk_rank (out ! j) = n + int j"
proof -
  note r = ranked_entries_Inr [OF assms(1)]
  have "length out = length es" using r by (metis length_map)
  then show ?thesis
    using r assms(2) by (metis nth_map nth_upto add_less_cancel_left of_nat_less_iff zle_diff1_eq)
qed

lemma fused_length: "ranked_entries b n es = Inr out \<Longrightarrow> length out = length es"
  using ranked_entries_Inr by (metis length_map)

lemma tally_one_payload:
  assumes "tally True BackendsDisagree k cs [] = Inr es" and "tallied k cs es"
  shows "inj_on chunk_key (snd ` set cs)"
proof (rule inj_onI)
  fix c d assume cd: "c \<in> snd ` set cs" "d \<in> snd ` set cs" "chunk_key c = chunk_key d"
  have "\<forall>c \<in> snd ` set cs. \<exists>e \<in> set es. en_id e = chunk_key c \<and> en_chunk e = c"
    using tally_payload [OF assms(1), of "[]"] by simp
  with cd obtain a b where ab: "a \<in> set es" "en_id a = chunk_key c" "en_chunk a = c"
    "b \<in> set es" "en_id b = chunk_key d" "en_chunk b = d" by metis
  then have "a = b" using assms(2) cd(3) by (metis distinct_map inj_on_eq_iff tallied_def)
  with ab show "c = d" by simp
qed

lemma fused_entry:
  assumes "ranked_entries b n (kept bound es) = Inr out" and "tallied k cs es" and "r \<in> set out"
  shows "\<exists>e \<in> set (kept bound es). rk_chunk r = en_chunk e \<and> rk_score r = en_score e \<and> entry_ok k cs e"
proof -
  have len: "length out = length (kept bound es)" by (rule fused_length [OF assms(1)])
  obtain j where j: "j < length out" "out ! j = r" using assms(3) by (metis in_set_conv_nth)
  then have "kept bound es ! j \<in> set (kept bound es)" using len by simp
  moreover have "entry_ok k cs (kept bound es ! j)"
    using calculation set_kept assms(2) unfolding tallied_def by blast
  ultimately show ?thesis using fused_nth [OF assms(1), of j] j len by metis
qed

text \<open>C24. Reciprocal-rank fusion is exact: a fusion that returns gives a valid ranking of chunks that
  some backend ranked, every one with the rounded sum of its reciprocal ranks as score, best score
  first; it keeps as many as asked for, and no chunk it leaves out scores above one it keeps.
  Backends that disagree on a payload never get through.\<close>

theorem fusion_is_exact:
  assumes "fuse k rankings bound = Inr out" and "cs = concat (map ranked_pairs rankings)"
  shows "validate_ranking out online_retrieval_backend \<and>
    (\<forall>r \<in> set out. rk_chunk r \<in> snd ` set cs \<and>
       rk_score r = rrf_score k (votes cs (chunk_key (rk_chunk r)))) \<and>
    sorted_wrt (\<lambda>q r. rk_score r \<le> rk_score q) out \<and>
    length out = (case bound of None \<Rightarrow> card (known_ids cs) | Some n \<Rightarrow> min n (card (known_ids cs))) \<and>
    (\<forall>i \<in> known_ids cs. \<forall>r \<in> set out. i \<in> chunk_key ` rk_chunk ` set out \<or>
       rrf_score k (votes cs i) \<le> rk_score r) \<and>
    inj_on chunk_key (snd ` set cs)"
proof -
  obtain es where es: "tally True BackendsDisagree k cs [] = Inr es" "tallied k cs es"
    "ranked_entries online_retrieval_backend 1 (kept bound es) = Inr out"
    "validate_ranking out online_retrieval_backend"
    using fuse_parts [OF assms(1)] assms(2) unfolding kept_eq by metis
  note out = ranked_entries_Inr [OF es(3)]
  have len: "length out = length (kept bound es)" by (rule fused_length [OF es(3)])
  note entry = fused_entry [OF es(3,2)]
  have "rk_chunk r \<in> snd ` set cs \<and> rk_score r = rrf_score k (votes cs (chunk_key (rk_chunk r)))"
    if "r \<in> set out" for r
    using entry [OF that] unfolding entry_ok_def by metis
  moreover have "sorted_wrt (\<lambda>q r. rk_score r \<le> rk_score q) out"
  proof -
    have "sorted_wrt precedes (kept bound es)" by (simp add: kept_def sorted_wrt_take ordered_precedes)
    then show ?thesis
      unfolding sorted_wrt_iff_nth_less using fused_nth [OF es(3)] len
      by (fastforce simp: precedes_def)
  qed
  moreover have "length out = (case bound of None \<Rightarrow> card (known_ids cs) | Some n \<Rightarrow> min n (card (known_ids cs)))"
    using len tallied_card [OF es(2)] by (simp add: kept_def ordered_def min.commute split: option.splits)
  moreover have "i \<in> chunk_key ` rk_chunk ` set out \<or> rrf_score k (votes cs i) \<le> rk_score r"
    if i: "i \<in> known_ids cs" and r: "r \<in> set out" for i r
  proof -
    obtain e where e: "e \<in> set es" "en_id e = i" "entry_ok k cs e" using tallied_entry [OF es(2) i] .
    obtain d where d: "d \<in> set (kept bound es)" "rk_score r = en_score d" using entry [OF r] by blast
    show ?thesis
    proof (cases "e \<in> set (kept bound es)")
      case True
      then obtain j where "j < length (kept bound es)" "kept bound es ! j = e" by (metis in_set_conv_nth)
      then have "out ! j \<in> set out" "rk_chunk (out ! j) = en_chunk e"
        using fused_nth [OF es(3), of j] len by auto
      then show ?thesis using e(2,3) by (force simp: entry_ok_def)
    next
      case False
      with kept_precedes [OF d(1) e(1)] show ?thesis
        using e(2,3) d(2) by (auto simp: precedes_def entry_ok_def)
    qed
  qed
  moreover have "inj_on chunk_key (snd ` set cs)"
    by (rule tally_one_payload [OF es(1,2)])
  ultimately show ?thesis using es(4) by blast
qed

text \<open>
  A candidate dominates another when every backend that ranks the other ranks it, and no lower.
\<close>

definition dominates :: "ranked_chunk list list \<Rightarrow> pytext \<Rightarrow> pytext \<Rightarrow> bool" where
  "dominates rankings x y \<longleftrightarrow> (\<forall>ranking \<in> set rankings. \<forall>r \<in> set ranking.
     chunk_key (rk_chunk r) = y \<longrightarrow>
     (\<exists>q \<in> set ranking. chunk_key (rk_chunk q) = x \<and> rk_rank q \<le> rk_rank r))"

definition source_ok :: "ranked_chunk list \<Rightarrow> bool" where
  "source_ok ranking \<longleftrightarrow> distinct (map (\<lambda>r. chunk_key (rk_chunk r)) ranking) \<and>
     (\<forall>r \<in> set ranking. 1 \<le> rk_rank r)"

lemma validated_source: "validate_ranking ranking b \<Longrightarrow> source_ok ranking"
proof -
  assume v: "validate_ranking ranking b"
  then have "map rk_rank ranking = [1..int (length ranking)]"
    by (auto simp: validate_ranking_def split: if_splits)
  then have "rk_rank r \<in> set [1..int (length ranking)]" if "r \<in> set ranking" for r
    using that by (metis image_eqI set_map)
  with v show ?thesis by (auto simp: source_ok_def validate_ranking_def split: if_splits)
qed

lemma source_votes:
  assumes "source_ok ranking"
  shows "votes (ranked_pairs ranking) i = [] \<or>
    (\<exists>r \<in> set ranking. chunk_key (rk_chunk r) = i \<and> votes (ranked_pairs ranking) i = [rk_rank r])"
proof -
  have "votes (ranked_pairs ranking) i = map rk_rank (filter (\<lambda>r. chunk_key (rk_chunk r) = i) ranking)"
    by (simp add: votes_def ranked_pairs_def filter_map comp_def split_def)
  moreover have "length (filter (\<lambda>r. chunk_key (rk_chunk r) = i) ranking) \<le> 1"
    using assms
  proof (induction ranking)
    case (Cons a ranking)
    then have "length (filter (\<lambda>r. chunk_key (rk_chunk r) = i) ranking) \<le> 1"
      by (simp add: source_ok_def)
    moreover have "filter (\<lambda>r. chunk_key (rk_chunk r) = i) ranking = []" if "chunk_key (rk_chunk a) = i"
      using Cons.prems that unfolding filter_empty_conv source_ok_def
      by simp (metis image_eqI)
    ultimately show ?case by auto
  qed simp
  ultimately show ?thesis
    by (cases "filter (\<lambda>r. chunk_key (rk_chunk r) = i) ranking")
      (auto simp: filter_eq_Cons_iff)
qed

lemma votes_mem: "r \<in> set ranking \<Longrightarrow> chunk_key (rk_chunk r) = i \<Longrightarrow>
  rk_rank r \<in> set (votes (ranked_pairs ranking) i)"
  by (force simp: votes_def ranked_pairs_def)

context rounding
begin

text \<open>One more backend: sums of floats that were in order stay in order.\<close>

lemma vote_mono:
  assumes "s \<le> s'" and "rnd s' = s'" and "ys = [] \<or> (\<exists>i j. ys = [j] \<and> xs = [i] \<and> i \<le> j \<and> 1 \<le> k + i)"
    and "xs = [] \<or> (\<exists>i. xs = [i] \<and> 1 \<le> k + i)"
  shows "foldl (\<lambda>s r. rnd (s + rnd (1 / rnd (of_int (k + r))))) s ys
    \<le> foldl (\<lambda>s r. rnd (s + rnd (1 / rnd (of_int (k + r))))) s' xs"
proof -
  consider "ys = []" "xs = []" | i where "ys = []" "xs = [i]" "1 \<le> k + i"
    | i j where "ys = [j]" "xs = [i]" "i \<le> j" "1 \<le> k + i"
    using assms(3,4) by auto
  then show ?thesis
  proof cases
    case 1
    with assms(1) show ?thesis by simp
  next
    case (2 i)
    have "s' \<le> rnd (s' + rnd (1 / rnd (of_int (k + i))))"
      using rnd_add_lower [OF assms(2) rnd_reciprocal_nonneg [OF 2(3)]] .
    with assms(1) 2 show ?thesis by simp
  next
    case (3 i j)
    have "rnd (1 / rnd (of_int (k + j))) \<le> rnd (1 / rnd (of_int (k + i)))"
      using 3 by (intro rnd_reciprocal_antimono) simp_all
    from rnd_add_mono [OF assms(1) this] 3 show ?thesis by simp
  qed
qed

end

lemma rrf_fold_float:
  assumes "binary64 s = s"
  shows "binary64 (foldl (\<lambda>s r. binary64 (s + rrf_term k r)) s rs) =
    foldl (\<lambda>s r. binary64 (s + rrf_term k r)) s rs"
  using assms by (induction rs arbitrary: s) (auto simp: binary64_idem)

lemma rrf_score_append:
  "rrf_score k (rs @ ss) = foldl (\<lambda>s r. binary64 (s + rrf_term k r)) (rrf_score k rs) ss"
  by (simp add: rrf_score_def)

lemma dominates_score:
  assumes "dominates rankings x y" and "\<forall>ranking \<in> set rankings. source_ok ranking" and "0 \<le> k"
  shows "rrf_score k (votes (concat (map ranked_pairs rankings)) y)
    \<le> rrf_score k (votes (concat (map ranked_pairs rankings)) x)"
  using assms
proof (induction rankings rule: rev_induct)
  case Nil
  then show ?case by (simp add: votes_def)
next
  case (snoc ranking rankings)
  let ?x = "votes (ranked_pairs ranking) x" and ?y = "votes (ranked_pairs ranking) y"
  have src: "source_ok ranking" using snoc.prems(2) by simp
  have "?y = [] \<or> (\<exists>i j. ?y = [j] \<and> ?x = [i] \<and> i \<le> j \<and> 1 \<le> k + i)"
  proof (cases "?y = []")
    case False
    then obtain r where r: "r \<in> set ranking" "chunk_key (rk_chunk r) = y" "?y = [rk_rank r]"
      using source_votes [OF src] by metis
    then obtain q where q: "q \<in> set ranking" "chunk_key (rk_chunk q) = x" "rk_rank q \<le> rk_rank r"
      using snoc.prems(1) unfolding dominates_def by force
    then have "?x = [rk_rank q]" using source_votes [OF src, of x] votes_mem [OF q(1,2)] by auto
    moreover have "1 \<le> rk_rank q" using src q(1) by (simp add: source_ok_def)
    ultimately show ?thesis using r q snoc.prems(3) by auto
  qed simp
  moreover have "?x = [] \<or> (\<exists>i. ?x = [i] \<and> 1 \<le> k + i)"
    using source_votes [OF src, of x] src snoc.prems(3) by (force simp: source_ok_def)
  moreover have "rrf_score k (votes (concat (map ranked_pairs rankings)) y)
    \<le> rrf_score k (votes (concat (map ranked_pairs rankings)) x)"
    using snoc by (intro snoc.IH) (auto simp: dominates_def)
  moreover have "binary64 (rrf_score k rs) = rrf_score k rs" for rs
    unfolding rrf_score_def by (rule rrf_fold_float) simp
  ultimately show ?case
    using binary64.vote_mono [of "rrf_score k (votes (concat (map ranked_pairs rankings)) y)"
        "rrf_score k (votes (concat (map ranked_pairs rankings)) x)" ?y ?x k]
    by (simp add: votes_append rrf_score_append rrf_term_def)
qed

text \<open>Fusion respects agreement: when every backend that ranks a chunk ranks another one at least
  as high, the other one is in the fused list whenever the first is, and before it, except that two
  chunks with equal score and equal best rank may stand in the order of their identities. The
  rounding of the floating-point sums never reverses them.\<close>

theorem fusion_respects_agreement:
  assumes "fuse k rankings bound = Inr out" and "\<forall>ranking \<in> set rankings. source_ok ranking"
    and "0 \<le> k" and "dominates rankings x y" and "j < length out"
    and "chunk_key (rk_chunk (out ! j)) = y" and "x \<noteq> y"
  shows "(\<exists>i < j. chunk_key (rk_chunk (out ! i)) = x) \<or>
    rrf_score k (votes (concat (map ranked_pairs rankings)) x) = rk_score (out ! j) \<and> y \<le> x"
proof -
  let ?cs = "concat (map ranked_pairs rankings)"
  obtain es where es: "tallied k ?cs es"
    "ranked_entries online_retrieval_backend 1 (kept bound es) = Inr out"
    using fuse_parts [OF assms(1)] unfolding kept_eq by metis
  note len = fused_length [OF es(2)]
  define d where "d = kept bound es ! j"
  have d: "d \<in> set (kept bound es)" "rk_chunk (out ! j) = en_chunk d" "rk_score (out ! j) = en_score d"
    using assms(5) len fused_nth [OF es(2), of j] by (auto simp: d_def)
  have dok: "entry_ok k ?cs d" using es(1) d(1) set_kept unfolding tallied_def by blast
  then have dy: "en_id d = y" using d(2) assms(6) by (simp add: entry_ok_def)
  have "y \<in> known_ids ?cs"
    using dy es(1) d(1) set_kept unfolding tallied_def by (metis image_eqI subsetD)
  then obtain ranking r where r: "ranking \<in> set rankings" "r \<in> set ranking" "chunk_key (rk_chunk r) = y"
    by (auto simp: known_ids_def ranked_pairs_def)
  obtain q where q: "q \<in> set ranking" "chunk_key (rk_chunk q) = x"
    using assms(4) r unfolding dominates_def by blast
  then have "x \<in> known_ids ?cs" using r(1) by (force simp: known_ids_def ranked_pairs_def)
  then obtain e where e: "e \<in> set es" "en_id e = x" "entry_ok k ?cs e" using tallied_entry [OF es(1)] by blast
  have score: "en_score d \<le> en_score e"
    using dominates_score [OF assms(4,2,3)] dok dy e by (simp add: entry_ok_def)
  show ?thesis
  proof (cases "precedes d e")
    case True
    have best: "en_best e \<le> en_best d"
    proof -
      have "finite (set (votes ?cs x))" "set (votes ?cs y) \<noteq> {}"
        using \<open>y \<in> known_ids ?cs\<close> by (simp_all add: votes_Nil_iff)
      moreover have "\<exists>a \<in> set (votes ?cs x). a \<le> b" if "b \<in> set (votes ?cs y)" for b
        using that assms(4) by (fastforce simp: votes_def ranked_pairs_def dominates_def)
      ultimately have "Min (set (votes ?cs x)) \<le> Min (set (votes ?cs y))"
        by (intro Min.boundedI) (simp_all, meson List.finite_set Min_le order_trans)
      then show ?thesis using dok dy e by (simp add: entry_ok_def)
    qed
    with True score have "en_score e = en_score d" "en_id d \<le> en_id e" by (auto simp: precedes_def)
    then show ?thesis using e dok dy d(3) by (simp add: entry_ok_def)
  next
    case False
    then have "e \<in> set (kept bound es)" using kept_precedes [OF d(1) e(1)] by blast
    then obtain i where i: "i < length (kept bound es)" "kept bound es ! i = e" by (metis in_set_conv_nth)
    have "sorted_wrt precedes (kept bound es)" by (simp add: kept_def sorted_wrt_take ordered_precedes)
    moreover have "d \<noteq> e" using dy e(2) assms(7) by blast
    ultimately have "i < j"
      using False i assms(5) len unfolding sorted_wrt_iff_nth_less d_def by (metis nat_neq_iff)
    moreover have "chunk_key (rk_chunk (out ! i)) = x"
      using fused_nth [OF es(2) i(1)] i(2) e(2,3) by (simp add: entry_ok_def)
    ultimately show ?thesis by blast
  qed
qed

subsection \<open>The contract of a backend\<close>

text \<open>What the fusion and the online routes rely on: a search that returns gives a valid ranking of
  chunks its scope authorizes.\<close>

locale authorized_backend =
  fixes search :: "pytext \<Rightarrow> jobject \<Rightarrow> 'e + ranked_chunk list"
  assumes search_valid: "search q s = Inr ranking \<Longrightarrow> \<exists>b. validate_ranking ranking b"
    and search_authorized: "search q s = Inr ranking \<Longrightarrow> r \<in> set ranking \<Longrightarrow> is_chunk_authorized (rk_chunk r) s"
begin

lemma search_source: "search q s = Inr ranking \<Longrightarrow> source_ok ranking"
  using search_valid validated_source by blast

lemma search_document:
  assumes "search q s' = Inr ranking" and "narrowed s d s'" and "r \<in> set ranking"
  shows "get (rk_chunk r) ''document_id'' = Some (JStr d)"
  using narrowed_document [OF assms(2) search_authorized [OF assms(1,3)]] .

end

subsection \<open>Sample\<close>

text \<open>Two chunks of one backend, at ranks whose reciprocals are binary fractions.\<close>

definition sample_candidate :: "string \<Rightarrow> int \<Rightarrow> nat \<Rightarrow> ranked_chunk" where
  "sample_candidate b rank i = \<lparr>rk_backend = b, rk_rank = rank, rk_score = 1,
     rk_chunk = [(''chunk_id'', JStr [i]), (''document_id'', JStr [100])]\<rparr>"

definition sample_rankings :: "ranked_chunk list list" where
  "sample_rankings = [[sample_candidate ''es'' 1 1, sample_candidate ''es'' 3 2]]"

lemma binary64_powers:
  "binary64 (1 / 2) = 1 / 2" "binary64 (1 / 4) = 1 / 4" "binary64 2 = 2" "binary64 4 = 4"
  using binary64_exact [of "1 / 2" 1 "- 1"] binary64_exact [of "1 / 4" 1 "- 2"]
    binary64_exact [of 2 1 1] binary64_exact [of 4 1 2]
  by (simp_all add: power_int_def power2_eq_square)

lemma sample_keys: "chunk_key (rk_chunk (sample_candidate b r i)) = [i]"
  by (simp add: sample_candidate_def chunk_key_def text_field_def get_def)

lemma sample_fused:
  "fuse 1 sample_rankings None = Inr
     [(sample_candidate online_retrieval_backend 1 1)\<lparr>rk_score := 1 / 2\<rparr>,
      (sample_candidate online_retrieval_backend 2 2)\<lparr>rk_score := 1 / 4\<rparr>]"
  by (simp add: fuse_def sample_rankings_def ranked_pairs_def sample_keys vote_def rrf_term_def
    sample_candidate_def chunk_key_def text_field_def get_def overflows_def binary64_powers Let_def
    ordered_def less_prod_def less_eq_prod_def ranked_chunk_of_def ranked_ok_def validated_def
    validate_ranking_def online_retrieval_backend_def backend_ok_def id_head_char_def
    id_tail_char_def upto_rec1)

lemma sample_sources: "\<forall>r\<in>set sample_rankings. source_ok r"
  by (simp add: sample_rankings_def source_ok_def sample_keys) (simp add: sample_candidate_def)

lemma sample_dominates: "dominates sample_rankings [1] [2]"
  by (simp add: sample_rankings_def dominates_def sample_keys) (simp add: sample_candidate_def)

lemma fusion_is_exact_witness:
  "validate_ranking [(sample_candidate online_retrieval_backend 1 1)\<lparr>rk_score := 1 / 2\<rparr>,
      (sample_candidate online_retrieval_backend 2 2)\<lparr>rk_score := 1 / 4\<rparr>] online_retrieval_backend"
  using fusion_is_exact [OF sample_fused refl] by blast

lemma fusion_respects_agreement_witness:
  "\<exists>out. fuse 1 sample_rankings None = Inr out \<and> length out = 2 \<and>
     chunk_key (rk_chunk (out ! 1)) = [2] \<and> (\<exists>i < 1. chunk_key (rk_chunk (out ! i)) = [1])"
proof -
  let ?out = "[(sample_candidate online_retrieval_backend 1 1)\<lparr>rk_score := 1 / 2\<rparr>,
      (sample_candidate online_retrieval_backend 2 2)\<lparr>rk_score := 1 / 4\<rparr>]"
  have "(\<exists>i < 1. chunk_key (rk_chunk (?out ! i)) = [1]) \<or>
      rrf_score 1 (votes (concat (map ranked_pairs sample_rankings)) [1]) = rk_score (?out ! 1) \<and> [2] \<le> [1 :: nat]"
    by (rule fusion_respects_agreement [OF sample_fused sample_sources _ sample_dominates])
      (simp_all add: sample_keys)
  then have "\<exists>i < 1. chunk_key (rk_chunk (?out ! i)) = [1]" by simp
  then show ?thesis using sample_fused by (intro exI [of _ ?out]) (simp add: sample_keys)
qed

end
