(* ===== verification/ElasticsearchIndex.thy ===== *)
theory ElasticsearchIndex
  imports RankedResults
begin

text \<open>
  The Elasticsearch adapter, \<^verbatim>\<open>backend/retrieval/elasticsearch.py\<close>: chunk validation, the
  authorization filter it sends with every query, the build, inspection and search of one index.
  The node is a function from the request (its method, path and body) and the world to a response;
  the fingerprint of chunks and the text of JSON values that are no strings are arguments.
  Latencies are not modelled.
\<close>

subsection \<open>Requests\<close>

text \<open>The part of the query language the adapter writes; \<open>BoolQuery filter should minimum must_not\<close>.\<close>

datatype es_query =
    MatchAll
  | Term string json
  | Terms string "pytext list"
  | BoolQuery "es_query list" "es_query list" nat "es_query list"

datatype es_request =
    PutIndex string "(string \<times> pytext) list" "(string \<times> string) list"
  | Bulk string "(pytext \<times> jobject) list"
  | Refresh string
  | GetMapping string
  | SearchIndex string pytext es_query int

datatype es_error = EsValueError | EsIndexNotReady | EsOverflow | EsTransport

type_synonym 'w es_transport = "es_request \<Rightarrow> ('w, es_error, jobject) call"

record es_env =
  es_fingerprint :: "jobject list \<Rightarrow> pytext"
  es_str :: "json \<Rightarrow> pytext" \<comment> \<open>\<open>str\<close> of a value that is no string\<close>

subsection \<open>Validation\<close>

definition index_name_ok :: "string \<Rightarrow> bool" where
  "index_name_ok s = (case s of [] \<Rightarrow> False
     | c # cs \<Rightarrow> key_head_char c \<and> list_all (\<lambda>c. key_head_char c \<or> c \<in> set ''._-'') cs)"

definition all_nonempty_strings :: "json list \<Rightarrow> bool" where
  "all_nonempty_strings xs \<longleftrightarrow> (\<forall>x \<in> set xs. nonempty_str (Some x))"

definition es_chunk_ok :: "jobject \<Rightarrow> bool" where
  "es_chunk_ok c =
     (if \<not> (\<forall>f \<in> set [''document_id'', ''version_id'', ''text'', ''section_path'', ''tenant_id'',
         ''visibility'', ''parse_version'', ''embedding_version'']. nonempty_str (get c f)) then False
      else if \<not> is_list (get c ''library_scope_ids'') \<or>
        \<not> all_nonempty_strings (items_of (get c ''library_scope_ids'')) then False
      else if \<not> is_bool (get c ''is_active'') then False
      else if \<not> is_int (get c ''page_start'') \<or> \<not> is_int (get c ''page_end'') \<or>
        int_of (get c ''page_start'') < 1 \<or>
        int_of (get c ''page_start'') > int_of (get c ''page_end'') then False
      else True)"

fun es_validate_chunks :: "pytext set \<Rightarrow> jobject list \<Rightarrow> bool" where
  "es_validate_chunks seen [] = True"
| "es_validate_chunks seen (c # cs) =
     (if \<not> nonempty_str (get c ''chunk_id'') then False
      else if chunk_key c \<in> seen then False
      else es_chunk_ok c \<and> es_validate_chunks (insert (chunk_key c) seen) cs)"

subsection \<open>The authorization filter\<close>

definition string_list :: "jobject \<Rightarrow> string \<Rightarrow> pytext list option" where
  "string_list s f = (case get s f of
       Some (JList xs) \<Rightarrow>
         if all_nonempty_strings xs then Some (sorted_list_of_set (set (nonempty_strings xs))) else None
     | _ \<Rightarrow> None)"

definition match_nothing :: es_query where
  "match_nothing = BoolQuery [] [] 0 [MatchAll]"

definition selector_rules :: "pytext list \<Rightarrow> pytext list \<Rightarrow> es_query list" where
  "selector_rules document_ids library_ids =
     (if document_ids \<noteq> [] then [Terms ''document_id'' document_ids] else []) @
     (if library_ids \<noteq> [] then [Terms ''library_scope_ids'' library_ids] else [])"

definition visibility_rules ::
  "pytext \<Rightarrow> bool \<Rightarrow> es_query list \<Rightarrow> bool \<Rightarrow> es_query list"
where
  "visibility_rules tenant_id include_public selectors has_folders =
     (let selection = BoolQuery [] selectors 1 [];
          has_resolvable_selector = (selectors \<noteq> []);
          has_any_selector = (has_resolvable_selector \<or> has_folders) in
      (if include_public \<and> (\<not> has_any_selector \<or> has_resolvable_selector)
       then [BoolQuery (Term ''visibility'' (JStr (ascii ''public'')) #
               (if has_any_selector then [selection] else [])) [] 0 []]
       else []) @
      [BoolQuery ([Term ''visibility'' (JStr (ascii ''tenant'')), Term ''tenant_id'' (JStr tenant_id)] @
         (if has_any_selector then (if has_resolvable_selector then [selection] else [match_nothing])
          else [])) [] 0 []] @
      (if has_resolvable_selector
       then [BoolQuery [Term ''visibility'' (JStr (ascii ''private'')),
               Term ''tenant_id'' (JStr tenant_id), selection] [] 0 []]
       else []))"

definition es_authorization_filter :: "jobject \<Rightarrow> es_query" where
  "es_authorization_filter s =
     (case (string_list s ''document_ids'', string_list s ''library_ids'', string_list s ''folder_ids'') of
        (Some document_ids, Some library_ids, Some folder_ids) \<Rightarrow>
          if \<not> nonempty_str (get s ''user_id'') \<or> \<not> nonempty_str (get s ''tenant_id'') \<or>
             \<not> nonempty_str (get s ''acl_version'') \<or> \<not> is_bool (get s ''include_public'')
          then match_nothing
          else BoolQuery [Term ''is_active'' (JBool True)]
            (visibility_rules (text_field s ''tenant_id'')
               (get s ''include_public'' = Some (JBool True))
               (selector_rules document_ids library_ids) (folder_ids \<noteq> [])) 1 []
      | _ \<Rightarrow> match_nothing)"

subsection \<open>One index\<close>

definition index_configuration :: "(string \<times> pytext) list" where
  "index_configuration =
     [(''schema_version'', ascii ''elasticsearch_bm25_index_v1''),
      (''retrieval_backend'', ascii ''elasticsearch_bm25''), (''text_analyzer'', ascii ''standard''),
      (''query_mode'', ascii ''multi_match_or''), (''section_path_boost'', ascii ''2.0'')]"

definition es_backend :: string where
  "es_backend = ''elasticsearch_bm25''"

definition index_metadata :: "es_env \<Rightarrow> jobject list \<Rightarrow> (string \<times> pytext) list" where
  "index_metadata env chunks = index_configuration @
     [(''source_chunks_sha256'', es_fingerprint env chunks), (''chunk_count'', decimal (length chunks))]"

definition index_properties :: "(string \<times> string) list" where
  "index_properties =
     [(''chunk_id'', ''keyword''), (''document_id'', ''keyword''), (''version_id'', ''keyword''),
      (''text'', ''text''), (''section_path'', ''text''), (''page_start'', ''integer''),
      (''page_end'', ''integer''), (''parent_chunk_id'', ''keyword''),
      (''previous_chunk_id'', ''keyword''), (''next_chunk_id'', ''keyword''),
      (''tenant_id'', ''keyword''), (''visibility'', ''keyword''),
      (''library_scope_ids'', ''keyword''), (''parse_version'', ''keyword''),
      (''embedding_version'', ''keyword''), (''is_active'', ''boolean'')]"

definition normalize_metadata :: "es_env \<Rightarrow> jobject \<Rightarrow> (string \<times> pytext) list" where
  "normalize_metadata env d =
     map (\<lambda>(k, v). (k, case v of JStr s \<Rightarrow> s | _ \<Rightarrow> es_str env v)) d"

definition es_inspect :: "es_env \<Rightarrow> 'w es_transport \<Rightarrow> string \<Rightarrow>
    ('w, es_error, (string \<times> pytext) list) call" where
  "es_inspect env send name =
     call_bind (send (GetMapping name)) (\<lambda>mapping.
     lift_call (case fields_of (get mapping name) of
         None \<Rightarrow> Inl EsIndexNotReady
       | Some index_payload \<Rightarrow>
         (case fields_of (get index_payload ''mappings'') of
            None \<Rightarrow> Inl EsIndexNotReady
          | Some mappings \<Rightarrow>
            (case fields_of (get mappings ''_meta'') of
               None \<Rightarrow> Inl EsIndexNotReady
             | Some meta \<Rightarrow>
               let normalized = normalize_metadata env meta in
               if \<exists>(key, expected) \<in> set index_configuration. map_of normalized key \<noteq> Some expected
               then Inl EsIndexNotReady
               else Inr normalized))))"

definition es_source_matches :: "es_env \<Rightarrow> (string \<times> pytext) list \<Rightarrow> jobject list \<Rightarrow> bool" where
  "es_source_matches env meta chunks =
     (if map_of meta ''source_chunks_sha256'' \<noteq> Some (es_fingerprint env chunks) then False
      else if map_of meta ''chunk_count'' \<noteq> Some (decimal (length chunks)) then False
      else True)"

definition es_verify_source :: "es_env \<Rightarrow> 'w es_transport \<Rightarrow> string \<Rightarrow> jobject list \<Rightarrow>
    ('w, es_error, (string \<times> pytext) list) call" where
  "es_verify_source env send name chunks =
     call_bind (es_inspect env send name) (\<lambda>meta.
     call_when (es_source_matches env meta chunks) EsIndexNotReady (call_return meta))"

definition es_build :: "es_env \<Rightarrow> 'w es_transport \<Rightarrow> string \<Rightarrow> jobject list \<Rightarrow>
    ('w, es_error, (string \<times> pytext) list) call" where
  "es_build env send name chunks =
     (if chunks = [] then call_raise EsValueError
      else if \<not> es_validate_chunks {} chunks then call_raise EsValueError
      else
        call_bind (send (PutIndex name (index_metadata env chunks) index_properties)) (\<lambda>_.
        call_bind (send (Bulk name (map (\<lambda>c. (chunk_key c, c)) chunks))) (\<lambda>bulk.
        if get bulk ''errors'' \<noteq> Some (JBool False) then call_raise EsIndexNotReady
        else
          call_bind (send (Refresh name)) (\<lambda>_.
          es_verify_source env send name chunks))))"

subsection \<open>Search\<close>

text \<open>The score of a hit: \<open>float\<close> of an integer, boolean or float, and finite.\<close>

definition hit_score :: "json option \<Rightarrow> es_error + rat" where
  "hit_score v = (case v of
       Some (JInt i) \<Rightarrow> if overflows (of_int i) then Inl EsOverflow else Inr (binary64 (of_int i))
     | Some (JBool b) \<Rightarrow> Inr (if b then 1 else 0)
     | Some (JFloat (Some x)) \<Rightarrow> Inr x
     | _ \<Rightarrow> Inl EsIndexNotReady)"

fun es_collect :: "jobject \<Rightarrow> json list \<Rightarrow> (rat \<times> jobject) list \<Rightarrow> es_error + (rat \<times> jobject) list" where
  "es_collect s [] scored = Inr scored"
| "es_collect s (hit # hits) scored =
     (case hit of JObj h \<Rightarrow>
       (case get h ''_source'' of
          Some (JObj source) \<Rightarrow>
            bind_res (hit_score (get h ''_score'')) (\<lambda>score.
            es_collect s hits
              (if is_chunk_authorized source s then scored @ [(score, source)] else scored))
        | _ \<Rightarrow> Inl EsIndexNotReady)
      | _ \<Rightarrow> Inl EsIndexNotReady)"

definition score_order :: "(rat \<times> jobject) list \<Rightarrow> (rat \<times> jobject) list" where
  "score_order scored = sort_key (\<lambda>(score, c). (- score, chunk_key c)) scored"

definition rank_scored :: "string \<Rightarrow> int \<Rightarrow> (rat \<times> jobject) list \<Rightarrow> fusion_error + ranked_chunk list" where
  "rank_scored b rank scored = ranked_entries b rank (map (\<lambda>(score, c).
     \<lparr>en_id = chunk_key c, en_chunk = c, en_score = score, en_best = 0\<rparr>) scored)"

definition es_rank :: "int \<Rightarrow> (rat \<times> jobject) list \<Rightarrow> es_error + ranked_chunk list" where
  "es_rank top_k scored =
     or_error EsValueError (bind_res (rank_scored es_backend 1 (take (nat top_k) (score_order scored)))
       (validated es_backend))"

definition es_hits :: "jobject \<Rightarrow> es_error + json list" where
  "es_hits response = (case fields_of (get response ''hits'') of
       None \<Rightarrow> Inl EsIndexNotReady
     | Some hits \<Rightarrow>
       if is_list (get hits ''hits'') then Inr (items_of (get hits ''hits'')) else Inl EsIndexNotReady)"

definition es_check_route :: "es_env \<Rightarrow> 'w es_transport \<Rightarrow> string \<Rightarrow> jobject list option \<Rightarrow>
    (string \<times> pytext) list option \<Rightarrow> ('w, es_error, unit) call" where
  "es_check_route env send name fingerprint_chunks verified =
     (case fingerprint_chunks of
        None \<Rightarrow> call_return ()
      | Some chunks \<Rightarrow>
        (case verified of
           None \<Rightarrow> call_bind (es_verify_source env send name chunks) (\<lambda>_. call_return ())
         | Some meta \<Rightarrow> call_when (es_source_matches env meta chunks) EsIndexNotReady (call_return ())))"

definition es_search :: "es_env \<Rightarrow> 'w es_transport \<Rightarrow> string \<Rightarrow> int \<Rightarrow> jobject list option \<Rightarrow>
    jobject list option \<Rightarrow> (string \<times> pytext) list option \<Rightarrow> pytext \<Rightarrow> jobject \<Rightarrow>
    ('w, es_error, ranked_chunk list) call" where
  "es_search env send name top_k expected source_chunks verified question s =
     (if blank question then call_raise EsValueError
      else if top_k < 1 then call_raise EsValueError
      else
        call_bind (es_check_route env send name
          (case source_chunks of None \<Rightarrow> expected | Some cs \<Rightarrow> Some cs) verified) (\<lambda>_.
        call_bind (send (SearchIndex name question (es_authorization_filter s) top_k)) (\<lambda>response.
        call_bind (lift_call (es_hits response)) (\<lambda>hits.
        call_bind (lift_call (es_collect s hits [])) (\<lambda>scored.
        lift_call (es_rank top_k scored))))))"

definition es_retrieve :: "es_env \<Rightarrow> 'w es_transport \<Rightarrow> string \<Rightarrow> int \<Rightarrow> jobject list option \<Rightarrow>
    jobject list option \<Rightarrow> pytext \<Rightarrow> jobject \<Rightarrow> ('w, es_error, jobject list) call" where
  "es_retrieve env send name top_k expected source_chunks question s =
     call_bind (es_search env send name top_k expected source_chunks None question s)
       (\<lambda>ranking. call_return (chunks_only ranking))"

subsection \<open>The filter and the post-filter\<close>

text \<open>What the service documents of the queries the adapter writes: a term matches a field that has
  the value, or is an array that contains it.\<close>

definition field_has :: "jobject \<Rightarrow> string \<Rightarrow> json \<Rightarrow> bool" where
  "field_has d f v \<longleftrightarrow> get d f = Some v \<or> v \<in> set (items_of (get d f))"

definition es_semantics :: "(es_query \<Rightarrow> jobject \<Rightarrow> bool) \<Rightarrow> bool" where
  "es_semantics m \<longleftrightarrow>
     (\<forall>d. m MatchAll d) \<and>
     (\<forall>f v d. m (Term f v) d = field_has d f v) \<and>
     (\<forall>f vs d. m (Terms f vs) d = (\<exists>v \<in> set vs. field_has d f (JStr v))) \<and>
     (\<forall>fs ss n ns d. m (BoolQuery fs ss n ns) d =
        ((\<forall>q \<in> set fs. m q d) \<and> n \<le> length (filter (\<lambda>q. m q d) ss) \<and> (\<forall>q \<in> set ns. \<not> m q d)))"

lemma es_semanticsD:
  assumes "es_semantics m"
  shows "m MatchAll d" and "m (Term f v) d = field_has d f v"
    and "m (Terms f vs) d = (\<exists>v \<in> set vs. field_has d f (JStr v))"
    and "m (BoolQuery fs ss n ns) d =
        ((\<forall>q \<in> set fs. m q d) \<and> n \<le> length (filter (\<lambda>q. m q d) ss) \<and> (\<forall>q \<in> set ns. \<not> m q d))"
  using assms unfolding es_semantics_def by blast+

lemma any_selected: "Suc 0 \<le> length (filter p xs) \<longleftrightarrow> (\<exists>x \<in> set xs. p x)"
  by (induction xs) auto

lemma semantics_one:
  assumes "es_semantics m"
  shows "m (BoolQuery fs ss (Suc 0) []) d = ((\<forall>q \<in> set fs. m q d) \<and> (\<exists>q \<in> set ss. m q d))"
    and "m (BoolQuery fs [] 0 []) d = (\<forall>q \<in> set fs. m q d)"
    and "\<not> m match_nothing d"
  using es_semanticsD(1,4) [OF assms] by (simp_all add: any_selected match_nothing_def)

text \<open>The lists of a scope, all of them lists of non-empty strings.\<close>

definition scope_lists_ok :: "jobject \<Rightarrow> bool" where
  "scope_lists_ok s \<longleftrightarrow> (\<forall>f \<in> set [''document_ids'', ''library_ids'', ''folder_ids''].
     is_list (get s f) \<and> all_nonempty_strings (items_of (get s f)))"

lemma string_list_Some:
  "string_list s f = Some ids \<Longrightarrow> set ids = string_set (get s f) \<and> is_list (get s f) \<and>
     all_nonempty_strings (items_of (get s f))"
  by (auto simp: string_list_def string_set_def split: option.splits json.splits if_splits)

lemma string_list_None:
  "string_list s f = None \<longleftrightarrow> \<not> (is_list (get s f) \<and> all_nonempty_strings (items_of (get s f)))"
  by (auto simp: string_list_def split: option.splits json.splits)

lemma set_nonempty_strings: "set (nonempty_strings xs) = {t. JStr t \<in> set xs \<and> t \<noteq> []}"
  by (induction xs rule: nonempty_strings.induct) auto

text \<open>A validated chunk has plain values where the filter looks for terms.\<close>

lemma plain_field: "nonempty_str (get c f) \<Longrightarrow> field_has c f v \<longleftrightarrow> get c f = Some v"
  by (auto simp: field_has_def elim!: nonempty_strE)

lemma validated_fields:
  assumes "es_chunk_ok c"
  shows "field_has c ''visibility'' v \<longleftrightarrow> get c ''visibility'' = Some v"
    and "field_has c ''tenant_id'' v \<longleftrightarrow> get c ''tenant_id'' = Some v"
    and "field_has c ''document_id'' v \<longleftrightarrow> get c ''document_id'' = Some v"
    and "field_has c ''is_active'' v \<longleftrightarrow> get c ''is_active'' = Some v"
    and "field_has c ''library_scope_ids'' (JStr t) \<longleftrightarrow> t \<in> string_set (get c ''library_scope_ids'')"
proof -
  have "nonempty_str (get c f)" if "f \<in> {''visibility'', ''tenant_id'', ''document_id''}" for f
    using assms that by (auto simp: es_chunk_ok_def split: if_splits)
  then show "field_has c ''visibility'' v \<longleftrightarrow> get c ''visibility'' = Some v"
    "field_has c ''tenant_id'' v \<longleftrightarrow> get c ''tenant_id'' = Some v"
    "field_has c ''document_id'' v \<longleftrightarrow> get c ''document_id'' = Some v"
    by (simp_all add: plain_field)
  have "is_bool (get c ''is_active'')" using assms by (auto simp: es_chunk_ok_def split: if_splits)
  then show "field_has c ''is_active'' v \<longleftrightarrow> get c ''is_active'' = Some v"
    by (cases "get c ''is_active''" rule: is_bool.cases) (auto simp: field_has_def)
  have "is_list (get c ''library_scope_ids'')"
    "all_nonempty_strings (items_of (get c ''library_scope_ids''))"
    using assms by (auto simp: es_chunk_ok_def split: if_splits)
  then show "field_has c ''library_scope_ids'' (JStr t) \<longleftrightarrow> t \<in> string_set (get c ''library_scope_ids'')"
    by (cases "get c ''library_scope_ids''" rule: is_list.cases)
      (auto simp: field_has_def string_set_def set_nonempty_strings all_nonempty_strings_def)
qed

text \<open>The selection rule of the filter is the selection of the post-filter.\<close>

lemma selector_matches:
  assumes m: "es_semantics m" and c: "es_chunk_ok c"
    and "string_list s ''document_ids'' = Some ds" and "string_list s ''library_ids'' = Some ls"
  shows "(\<exists>q \<in> set (selector_rules ds ls). m q c) = matches_selected_scope c s"
proof -
  have ids: "set ds = string_set (get s ''document_ids'')" "set ls = string_set (get s ''library_ids'')"
    using assms(3,4) string_list_Some by blast+
  have d: "m (Terms ''document_id'' ds) c = (case get c ''document_id'' of
      Some (JStr d) \<Rightarrow> d \<in> string_set (get s ''document_ids'') | _ \<Rightarrow> False)"
    by (simp add: es_semanticsD(3) [OF m] validated_fields(3) [OF c] ids split: option.splits json.splits)
  have l: "m (Terms ''library_scope_ids'' ls) c =
      (string_set (get c ''library_scope_ids'') \<inter> string_set (get s ''library_ids'') \<noteq> {})"
    by (auto simp: es_semanticsD(3) [OF m] validated_fields(5) [OF c] ids)
  have "m (Terms ''document_id'' ds) c \<Longrightarrow> ds \<noteq> []" "m (Terms ''library_scope_ids'' ls) c \<Longrightarrow> ls \<noteq> []"
    by (auto simp: es_semanticsD(3) [OF m])
  then have "(\<exists>q \<in> set (selector_rules ds ls). m q c) \<longleftrightarrow>
      m (Terms ''document_id'' ds) c \<or> m (Terms ''library_scope_ids'' ls) c"
    by (auto simp: selector_rules_def)
  also have "\<dots> = matches_selected_scope c s"
    using ids unfolding d l matches_selected_scope_def Let_def
    by (auto split: option.splits json.splits)
  finally show ?thesis .
qed

lemma visibility_matches:
  assumes m: "es_semantics m" and c: "es_chunk_ok c"
  shows "(\<exists>q \<in> set (visibility_rules t public selectors folders). m q c) \<longleftrightarrow>
    (let selected = \<exists>q \<in> set selectors. m q c; any = selectors \<noteq> [] \<or> folders in
     public \<and> get c ''visibility'' = Some (JStr (ascii ''public'')) \<and> (any \<longrightarrow> selected) \<or>
     get c ''visibility'' = Some (JStr (ascii ''tenant'')) \<and> get c ''tenant_id'' = Some (JStr t) \<and>
       (any \<longrightarrow> selected) \<or>
     get c ''visibility'' = Some (JStr (ascii ''private'')) \<and> get c ''tenant_id'' = Some (JStr t) \<and>
       selected)"
proof -
  note terms = es_semanticsD(2) [OF m] validated_fields [OF c]
  note one = semantics_one [OF m]
  show ?thesis
    by (cases "selectors = []") (auto simp: visibility_rules_def Let_def one terms)
qed

lemma authorized_fields:
  "es_chunk_ok c \<Longrightarrow> nonempty_str (get c ''chunk_id'') \<Longrightarrow> has_required_chunk_fields c"
  by (auto simp: es_chunk_ok_def has_required_chunk_fields_def split: if_splits)

text \<open>C22. The filter the adapter pushes into the query is exact: under the documented meaning of the
  query language, a validated chunk matches it exactly when the chunk is authorized under the scope
  and the scope's lists hold nothing but non-empty strings. Nothing the filter lets through would be
  dropped afterwards, and nothing it withholds was visible.\<close>

theorem es_filter_exact:
  assumes "es_semantics m" and "es_chunk_ok c" and "nonempty_str (get c ''chunk_id'')"
  shows "m (es_authorization_filter s) c \<longleftrightarrow> is_chunk_authorized c s \<and> scope_lists_ok s"
proof (cases "scope_lists_ok s \<and> has_required_scope_fields s")
  case False
  then have "es_authorization_filter s = match_nothing"
    by (auto simp: es_authorization_filter_def scope_lists_ok_def has_required_scope_fields_def
        dest!: string_list_Some split: option.splits)
  then have "\<not> m (es_authorization_filter s) c" using semantics_one(3) [OF assms(1)] by simp
  with False show ?thesis by (auto simp: is_chunk_authorized_def)
next
  case True
  then obtain ds ls fs where lists: "string_list s ''document_ids'' = Some ds"
    "string_list s ''library_ids'' = Some ls" "string_list s ''folder_ids'' = Some fs"
    using string_list_None [of s] unfolding scope_lists_ok_def by (metis list.set_intros option.exhaust)
  note sel = selector_matches [OF assms(1,2) lists(1,2)]
  have any: "has_selectors s \<longleftrightarrow> selector_rules ds ls \<noteq> [] \<or> fs \<noteq> []"
    using string_list_Some [OF lists(1)] string_list_Some [OF lists(2)] string_list_Some [OF lists(3)]
    by (auto simp: has_selectors_def selector_rules_def)
  have t: "get s ''tenant_id'' = Some (JStr (text_field s ''tenant_id''))"
    using True by (auto simp: has_required_scope_fields_def text_field_def elim!: nonempty_strE)
  have "m (es_authorization_filter s) c \<longleftrightarrow> get c ''is_active'' = Some (JBool True) \<and>
      (\<exists>q \<in> set (visibility_rules (text_field s ''tenant_id'') (get s ''include_public'' = Some (JBool True))
        (selector_rules ds ls) (fs \<noteq> [])). m q c)"
    using True by (simp add: es_authorization_filter_def lists has_required_scope_fields_def
        semantics_one [OF assms(1)] es_semanticsD(2) [OF assms(1)] validated_fields(4) [OF assms(2)])
  also have "\<dots> \<longleftrightarrow> is_chunk_authorized c s"
    unfolding visibility_matches [OF assms(1,2)] Let_def sel any [symmetric] is_chunk_authorized_def
    using True authorized_fields [OF assms(2,3)] t by auto
  finally show ?thesis using True by blast
qed

subsection \<open>What a search returns\<close>

lemma es_collect_authorized:
  "es_collect s hits scored = Inr out \<Longrightarrow> \<forall>p \<in> set scored. is_chunk_authorized (snd p) s \<Longrightarrow>
     \<forall>p \<in> set out. is_chunk_authorized (snd p) s"
proof (induction s hits scored rule: es_collect.induct)
  case (2 s hit hits scored)
  from "2.prems"(1) obtain h source score where h: "hit = JObj h" "get h ''_source'' = Some (JObj source)"
    "es_collect s hits (if is_chunk_authorized source s then scored @ [(score, source)] else scored) = Inr out"
    by (auto simp: bind_res_Inr_iff split: json.splits option.splits)
  show ?case
    using "2.prems"(2) by (intro "2.IH" [OF h(1,2) refl h(3)]) auto
qed simp

lemma rank_scored_Inr:
  assumes "rank_scored b 1 scored = Inr ranking"
  shows "map rk_chunk ranking = map snd scored" and "map rk_score ranking = map fst scored"
    and "length ranking = length scored" and "\<forall>r \<in> set ranking. rk_backend r = b"
proof -
  note r = ranked_entries_Inr [OF assms [unfolded rank_scored_def]]
  show "map rk_chunk ranking = map snd scored" "map rk_score ranking = map fst scored"
    "\<forall>r \<in> set ranking. rk_backend r = b" using r by (simp_all add: comp_def split_def)
  then show "length ranking = length scored" by (metis length_map)
qed

lemma score_order_sorted: "sorted_wrt (\<lambda>p q. fst q \<le> fst p) (score_order scored)"
proof -
  have "sorted (map (\<lambda>(score, c). (- score, chunk_key c)) (score_order scored))"
    unfolding score_order_def by (rule sorted_sort_key)
  then have "sorted_wrt (\<lambda>p q. (- fst p, chunk_key (snd p)) \<le> (- fst q, chunk_key (snd q))) (score_order scored)"
    by (simp add: sorted_map split_def)
  then show ?thesis by (rule sorted_wrt_mono_rel [rotated]) (auto simp: less_eq_prod_def)
qed

text \<open>A ranking that a backend returns: valid, authorized, within the bound, best score first.\<close>

definition sound_ranking :: "string \<Rightarrow> jobject \<Rightarrow> int \<Rightarrow> ranked_chunk list \<Rightarrow> bool" where
  "sound_ranking b s top_k ranking \<longleftrightarrow> validate_ranking ranking b \<and>
     (\<forall>r \<in> set ranking. is_chunk_authorized (rk_chunk r) s) \<and> int (length ranking) \<le> top_k \<and>
     sorted_wrt (\<lambda>q r. rk_score r \<le> rk_score q) ranking"

lemma rank_scored_sound:
  assumes ranked: "rank_scored b 1 (take (nat top_k) (score_order scored)) = Inr ranking"
    and "validate_ranking ranking b" and "\<forall>p \<in> set scored. is_chunk_authorized (snd p) s"
    and "1 \<le> top_k"
  shows "sound_ranking b s top_k ranking"
proof -
  note r = rank_scored_Inr [OF ranked]
  have "is_chunk_authorized (rk_chunk q) s" if "q \<in> set ranking" for q
  proof -
    have "rk_chunk q \<in> set (map snd (take (nat top_k) (score_order scored)))"
      using that r(1) by (metis image_eqI set_map)
    then obtain p where "p \<in> set (take (nat top_k) (score_order scored))" "rk_chunk q = snd p" by auto
    then have "p \<in> set scored" by (auto simp: score_order_def dest!: in_set_takeD)
    with assms(3) \<open>rk_chunk q = snd p\<close> show ?thesis by auto
  qed
  moreover have "sorted_wrt (\<lambda>x y. y \<le> x) (map rk_score ranking)"
    unfolding r(2) by (simp add: sorted_wrt_map sorted_wrt_take score_order_sorted)
  ultimately show ?thesis
    using assms(2,4) r(3) by (simp add: sound_ranking_def sorted_wrt_map)
qed

lemma es_search_sound:
  assumes "es_search env send name top_k expected source verified question s w = (Inr ranking, w')"
  shows "sound_ranking es_backend s top_k ranking"
proof -
  from assms obtain scored hits where scored: "es_collect s hits [] = Inr scored"
    "es_rank top_k scored = Inr ranking" "1 \<le> top_k"
    by (auto simp: es_search_def call_simps split: if_splits)
  then show ?thesis
    using es_collect_authorized [OF scored(1)]
    by (intro rank_scored_sound)
      (auto simp: es_rank_def bind_res_Inr_iff validated_def split: if_splits)
qed

lemmas es_result_sound = es_search_sound [OF call_result]

interpretation es_index: authorized_backend
  "\<lambda>question s. fst (es_search env send name top_k expected source verified question s w)"
  for env send name top_k expected source verified w
  by unfold_locales (drule es_result_sound, auto simp: sound_ranking_def)+

text \<open>A build that returns has validated its chunks and read their fingerprint and number back.\<close>

lemma es_build_verified:
  assumes "es_build env send name chunks w = (Inr meta, w')"
  shows "chunks \<noteq> [] \<and> es_validate_chunks {} chunks \<and> es_source_matches env meta chunks"
  using assms
  by (auto simp: es_build_def es_verify_source_def call_simps split: if_splits)

lemma validated_chunks:
  "es_validate_chunks seen cs \<longleftrightarrow> (\<forall>c \<in> set cs. nonempty_str (get c ''chunk_id'') \<and> es_chunk_ok c) \<and>
     distinct (map chunk_key cs) \<and> chunk_key ` set cs \<inter> seen = {}"
  by (induction seen cs rule: es_validate_chunks.induct) auto

subsection \<open>Sample\<close>

fun eval_query :: "es_query \<Rightarrow> jobject \<Rightarrow> bool" where
  "eval_query MatchAll d = True"
| "eval_query (Term f v) d = field_has d f v"
| "eval_query (Terms f vs) d = (\<exists>v \<in> set vs. field_has d f (JStr v))"
| "eval_query (BoolQuery fs ss n ns) d = ((\<forall>q \<in> set fs. eval_query q d) \<and>
     n \<le> length (filter (\<lambda>q. eval_query q d) ss) \<and> (\<forall>q \<in> set ns. \<not> eval_query q d))"

lemma eval_query_semantics: "es_semantics eval_query"
  by (simp add: es_semantics_def)

definition sample_indexed_chunk :: jobject where
  "sample_indexed_chunk = sample_authorized_chunk @
     [(''embedding_version'', JStr [1]), (''parse_version'', JStr [1])]"

lemma sample_indexed:
  "es_chunk_ok sample_indexed_chunk" "nonempty_str (get sample_indexed_chunk ''chunk_id'')"
  "is_chunk_authorized sample_indexed_chunk sample_scope" "scope_lists_ok sample_scope"
  by code_simp+

theorem es_filter_exact_witness:
  "eval_query (es_authorization_filter sample_scope) sample_indexed_chunk"
  using es_filter_exact [OF eval_query_semantics sample_indexed(1,2)] sample_indexed(3,4) by blast

end
