(* ===== verification/MilvusIndex.thy ===== *)
theory MilvusIndex
  imports ElasticsearchIndex
begin

text \<open>
  The Milvus adapter, \<^verbatim>\<open>backend/retrieval/milvus.py\<close>: chunk validation, the textual
  authorization filter, the build, inspection and search of one collection. The service and the
  embedding provider are functions from a request and the world to a response; the fingerprint,
  \<^verbatim>\<open>json.loads\<close>, \<^verbatim>\<open>json.dumps\<close> of the metadata and the correctly rounded square root are arguments.
  \<^verbatim>\<open>int\<close> reads the ASCII digits.
\<close>

subsection \<open>Requests\<close>

datatype milvus_stage = ROUTE_IDENTITY | QUERY_EMBEDDING | ANN_SEARCH | RESPONSE_CONTRACT

datatype milvus_error =
  MilvusValueError | MilvusNotReady | MilvusTransportError | MilvusStage milvus_stage

datatype milvus_request =
    HasCollection string
  | CreateCollection string nat pytext
  | InsertRows string "(jobject \<times> rat list) list"
  | UpsertRows string "jobject list"
  | Flush string
  | LoadCollection string
  | DropCollection string
  | DescribeCollection string
  | CollectionStats string
  | QueryRows string pytext "string list" int
  | SearchVectors string "rat list" pytext int

type_synonym 'w milvus_transport = "milvus_request \<Rightarrow> ('w, milvus_error, json) call"

type_synonym vector = "rat option list"

record model_identity =
  mi_provider :: pytext
  mi_model :: pytext
  mi_digest :: pytext

record 'w embedding_provider =
  ep_identity :: "('w, milvus_error, model_identity) call"
  ep_embed :: "pytext list \<Rightarrow> ('w, milvus_error, vector list) call"

record milvus_env =
  mv_fingerprint :: "jobject list \<Rightarrow> pytext"
  mv_str :: "json \<Rightarrow> pytext"
  mv_loads :: "pytext \<Rightarrow> json option"
  mv_dumps :: "(string \<times> pytext) list \<Rightarrow> pytext"
  mv_sqrt :: "rat \<Rightarrow> rat"

subsection \<open>Vectors\<close>

text \<open>A product that overflows makes the norm infinite; a sum that overflows raises.\<close>

definition normalize_vector :: "(rat \<Rightarrow> rat) \<Rightarrow> vector \<Rightarrow> rat list option" where
  "normalize_vector sqrt_of v =
     (if v = [] \<or> None \<in> set v then None
      else
       (let xs = map the v; total = sum_list (map (\<lambda>x. binary64 (x * x)) xs) in
        if list_ex (\<lambda>x. overflows (x * x)) xs then Some (map (\<lambda>_. 0) xs)
        else if overflows total then None
        else
         (let norm = sqrt_of (binary64 total) in
          if norm \<le> 0 then None else Some (map (\<lambda>x. binary64 (x / norm)) xs))))"

definition passage_text :: "jobject \<Rightarrow> pytext" where
  "passage_text c = text_field c ''section_path'' @ [10] @ text_field c ''text''"

subsection \<open>Chunks and metadata\<close>

definition milvus_chunk_ok :: "jobject \<Rightarrow> bool" where
  "milvus_chunk_ok c =
     (if \<not> (\<forall>f \<in> set [''document_id'', ''tenant_id'', ''visibility'', ''section_path'', ''text''].
         nonempty_str (get c f)) then False
      else if \<not> is_list (get c ''library_scope_ids'') \<or>
        \<not> all_nonempty_strings (items_of (get c ''library_scope_ids'')) then False
      else is_bool (get c ''is_active''))"

fun milvus_check_chunks :: "pytext set \<Rightarrow> jobject list \<Rightarrow> bool" where
  "milvus_check_chunks ids [] = True"
| "milvus_check_chunks ids (c # cs) =
     (if \<not> nonempty_str (get c ''chunk_id'') \<or> chunk_key c \<in> ids then False
      else milvus_chunk_ok c \<and> milvus_check_chunks (insert (chunk_key c) ids) cs)"

definition milvus_validate_chunks :: "jobject list \<Rightarrow> bool" where
  "milvus_validate_chunks cs = (if cs = [] then False else milvus_check_chunks {} cs)"

definition pinned_metadata :: "(string \<times> pytext) list" where
  "pinned_metadata =
     [(''schema_version'', ascii ''milvus_vector_collection_v1''),
      (''retrieval_backend'', ascii ''milvus_dense_bge_m3''),
      (''passage_template'', ascii ''section_path_newline_text_v1''),
      (''query_template'', ascii ''raw_question_v1''),
      (''vector_normalization'', ascii ''l2_float32_v1''), (''metric_type'', ascii ''COSINE''),
      (''index_type'', ascii ''HNSW''), (''hnsw_m'', ascii ''16''),
      (''hnsw_ef_construction'', ascii ''200''), (''hnsw_search_ef'', ascii ''64'')]"

definition milvus_metadata ::
  "milvus_env \<Rightarrow> jobject list \<Rightarrow> model_identity \<Rightarrow> nat \<Rightarrow> (string \<times> pytext) list"
where
  "milvus_metadata env cs identity dimension = pinned_metadata @
     [(''source_chunks_sha256'', mv_fingerprint env cs), (''chunk_count'', decimal (length cs)),
      (''embedding_provider'', mi_provider identity), (''embedding_model'', mi_model identity),
      (''embedding_model_digest'', mi_digest identity), (''embedding_dimension'', decimal dimension),
      (''input_truncation'', ascii ''provider_enabled_v1'')]"

definition description_prefix :: pytext where
  "description_prefix = ascii ''zhiyan-milvus-v1:''"

definition describe_metadata :: "milvus_env \<Rightarrow> (string \<times> pytext) list \<Rightarrow> pytext" where
  "describe_metadata env meta = description_prefix @ mv_dumps env meta"

definition parse_description :: "milvus_env \<Rightarrow> json option \<Rightarrow> milvus_error + (string \<times> pytext) list" where
  "parse_description env v = (case v of
       Some (JStr t) \<Rightarrow>
         if take (length description_prefix) t \<noteq> description_prefix then Inl MilvusNotReady
         else (case mv_loads env (drop (length description_prefix) t) of
             Some (JObj d) \<Rightarrow> Inr (map (\<lambda>(k, x). (k, case x of JStr s \<Rightarrow> s | _ \<Rightarrow> mv_str env x)) d)
           | _ \<Rightarrow> Inl MilvusNotReady)
     | _ \<Rightarrow> Inl MilvusNotReady)"

text \<open>\<^verbatim>\<open>int\<close> of a text: white space, a sign, digits with single underscores between them.\<close>

fun digits_value :: "nat \<Rightarrow> pytext \<Rightarrow> nat option" where
  "digits_value n [] = Some n"
| "digits_value n (c # cs) =
     (if 48 \<le> c \<and> c \<le> 57 then digits_value (10 * n + (c - 48)) cs
      else if c = 95 \<and> cs \<noteq> [] \<and> hd cs \<noteq> 95 then digits_value n cs
      else None)"

definition int_of_text :: "pytext \<Rightarrow> int option" where
  "int_of_text t =
     (let u = trim t; negative = (u \<noteq> [] \<and> hd u = 45);
          body = (if u \<noteq> [] \<and> hd u \<in> {43, 45} then tl u else u) in
      if body = [] \<or> hd body = 95 then None
      else map_option (\<lambda>n. if negative then - int n else int n) (digits_value 0 body))"

definition int_of_json :: "json option \<Rightarrow> int option" where
  "int_of_json v = (case v of
       Some (JInt i) \<Rightarrow> Some i
     | Some (JBool b) \<Rightarrow> Some (if b then 1 else 0)
     | Some (JFloat (Some x)) \<Rightarrow> Some (if x < 0 then - \<lfloor>- x\<rfloor> else \<lfloor>x\<rfloor>)
     | Some (JStr t) \<Rightarrow> int_of_text t
     | _ \<Rightarrow> None)"

subsection \<open>The authorization filter\<close>

definition hex_digit :: "nat \<Rightarrow> nat" where
  "hex_digit n = (if n < 10 then 48 + n else 87 + n)"

definition unicode_escape :: "nat \<Rightarrow> pytext" where
  "unicode_escape n = [92, 117, hex_digit (n div 4096), hex_digit (n div 256 mod 16),
     hex_digit (n div 16 mod 16), hex_digit (n mod 16)]"

text \<open>A character as \<^verbatim>\<open>json.dumps\<close> writes it, in ASCII.\<close>

definition quote_char :: "nat \<Rightarrow> pytext" where
  "quote_char c =
     (if c = 34 then [92, 34] else if c = 92 then [92, 92] else if c = 10 then [92, 110]
      else if c = 13 then [92, 114] else if c = 9 then [92, 116] else if c = 8 then [92, 98]
      else if c = 12 then [92, 102] else if 32 \<le> c \<and> c \<le> 126 then [c]
      else if c < 65536 then unicode_escape c
      else unicode_escape (55296 + (c - 65536) div 1024) @ unicode_escape (56320 + (c - 65536) mod 1024))"

definition json_quote :: "pytext \<Rightarrow> pytext" where
  "json_quote t = [34] @ concat (map quote_char t) @ [34]"

definition quoted_list :: "pytext list \<Rightarrow> pytext" where
  "quoted_list vs = [91] @ join [44] (map json_quote vs) @ [93]"

definition milvus_nothing :: pytext where
  "milvus_nothing = ascii ''is_active == true and is_active == false''"

definition milvus_selectors :: "pytext list \<Rightarrow> pytext list \<Rightarrow> pytext list" where
  "milvus_selectors document_ids library_ids =
     (if document_ids \<noteq> [] then [ascii ''document_id in '' @ quoted_list document_ids] else []) @
     (if library_ids \<noteq> []
      then [ascii ''array_contains_any(library_scope_ids, '' @ quoted_list library_ids @ ascii '')''] else [])"

definition milvus_rules :: "pytext \<Rightarrow> bool \<Rightarrow> pytext list \<Rightarrow> pytext" where
  "milvus_rules tenant_id include_public selectors =
     (let selector = (if selectors \<noteq> [] then ascii ''('' @ join (ascii '' or '') selectors @ ascii '')'' else []);
          also_selector = (if selector \<noteq> [] then ascii '' and '' @ selector else []);
          tenant = json_quote tenant_id;
          visibility =
            (if include_public
             then [ascii ''(visibility == '' @ json_quote (ascii ''public'') @ also_selector @ ascii '')'']
             else []) @
            [ascii ''(visibility == '' @ json_quote (ascii ''tenant'') @ ascii '' and tenant_id == '' @
               tenant @ also_selector @ ascii '')''] @
            (if selector \<noteq> []
             then [ascii ''(visibility == '' @ json_quote (ascii ''private'') @
               ascii '' and tenant_id == '' @ tenant @ ascii '' and '' @ selector @ ascii '')'']
             else []) in
      ascii ''is_active == true and ('' @ join (ascii '' or '') visibility @ ascii '')'')"

definition milvus_authorization_filter :: "jobject \<Rightarrow> pytext" where
  "milvus_authorization_filter s =
     (case (string_list s ''document_ids'', string_list s ''library_ids'', string_list s ''folder_ids'') of
        (Some document_ids, Some library_ids, Some folder_ids) \<Rightarrow>
          if \<not> nonempty_str (get s ''user_id'') \<or> \<not> nonempty_str (get s ''tenant_id'') \<or>
             \<not> nonempty_str (get s ''acl_version'') \<or> \<not> is_bool (get s ''include_public'')
          then milvus_nothing
          else
           (let selectors = milvus_selectors document_ids library_ids in
            if folder_ids \<noteq> [] \<and> selectors = [] then milvus_nothing
            else milvus_rules (text_field s ''tenant_id'')
              (get s ''include_public'' = Some (JBool True)) selectors)
      | _ \<Rightarrow> milvus_nothing)"

subsection \<open>One collection\<close>

definition collection_name_ok :: "string \<Rightarrow> bool" where
  "collection_name_ok s = (case s of [] \<Rightarrow> False
     | c # cs \<Rightarrow> (id_head_char c \<or> c = CHR ''_'') \<and> c \<notin> set ''0123456789'' \<and>
         list_all (\<lambda>c. id_head_char c \<or> c = CHR ''_'') cs \<and> length cs \<le> 254)"

definition milvus_backend :: string where
  "milvus_backend = ''milvus_dense_bge_m3''"

definition expected_fields :: "string list" where
  "expected_fields = [''chunk_id'', ''embedding'', ''document_id'', ''tenant_id'', ''visibility'',
     ''library_scope_ids'', ''is_active'', ''payload'']"

definition description_ok :: "(string \<times> pytext) list \<Rightarrow> jobject \<Rightarrow> bool" where
  "description_ok meta description \<longleftrightarrow>
     \<not> (\<exists>(key, v) \<in> set pinned_metadata. map_of meta key \<noteq> Some v) \<and>
     is_list (get description ''fields'') \<and>
     set (map (\<lambda>d. get d ''name'') (objects (items_of (get description ''fields'')))) =
       set (map (\<lambda>f. Some (JStr (ascii f))) expected_fields)"

text \<open>\<open>_CONTRACT_ID_PATTERN\<close> on Unicode text.\<close>

definition contract_text_ok :: "pytext \<Rightarrow> bool" where
  "contract_text_ok t \<longleftrightarrow> list_all (\<lambda>c. c < 128) t \<and> contract_id_ok (map char_of t)"

definition logical_rows_ok :: "int \<Rightarrow> json \<Rightarrow> bool" where
  "logical_rows_ok expected_count rows =
     (case rows of JList xs \<Rightarrow>
       (let ids = map (\<lambda>x. case x of JObj d \<Rightarrow> get d ''chunk_id'' | _ \<Rightarrow> None) xs in
        int (length ids) = expected_count \<and> list_all nonempty_str ids \<and>
        int (card (set ids)) = expected_count)
      | _ \<Rightarrow> False)"

definition verify_version_logical_rows ::
  "'w milvus_transport \<Rightarrow> string \<Rightarrow> (string \<times> pytext) list \<Rightarrow> int \<Rightarrow> ('w, milvus_error, unit) call"
where
  "verify_version_logical_rows send name meta expected_count =
     (if expected_count > 16000 \<or>
         map_of meta ''online_entrypoint'' \<noteq> Some (ascii ''DETACHED_VERSION_COLLECTION'') \<or>
         list_ex (\<lambda>key. \<not> contract_text_ok (case map_of meta key of None \<Rightarrow> [] | Some t \<Rightarrow> t))
           [''owner_id'', ''document_id'', ''document_version_id'']
      then call_raise MilvusNotReady
      else
       (\<lambda>w. case send (QueryRows name [] [''chunk_id''] (expected_count + 1)) w of
          (Inl _, w') \<Rightarrow> (Inl MilvusNotReady, w')
        | (Inr rows, w') \<Rightarrow>
            (if logical_rows_ok expected_count rows then Inr () else Inl MilvusNotReady, w')))"

definition verify_row_count ::
  "'w milvus_transport \<Rightarrow> string \<Rightarrow> (string \<times> pytext) list \<Rightarrow> int \<Rightarrow> ('w, milvus_error, unit) call"
where
  "verify_row_count send name meta expected_count =
     (case map_of meta ''version_writer_schema'' of
        None \<Rightarrow>
          call_bind (send (CollectionStats name)) (\<lambda>stats.
          lift_call (case fields_of (Some stats) of
              None \<Rightarrow> Inl MilvusNotReady
            | Some d \<Rightarrow>
              (case int_of_json (get d ''row_count'') of
                 None \<Rightarrow> Inl MilvusNotReady
               | Some count \<Rightarrow> if count \<noteq> expected_count then Inl MilvusNotReady else Inr ())))
      | Some schema \<Rightarrow>
          if schema = ascii ''milvus_version_writer_v1''
          then verify_version_logical_rows send name meta expected_count
          else call_raise MilvusNotReady)"

definition milvus_inspect ::
  "milvus_env \<Rightarrow> 'w milvus_transport \<Rightarrow> string \<Rightarrow> ('w, milvus_error, (string \<times> pytext) list) call"
where
  "milvus_inspect env send name =
     call_bind (send (HasCollection name)) (\<lambda>present.
     if present \<noteq> JBool True then call_raise MilvusNotReady
     else
       call_bind (send (DescribeCollection name)) (\<lambda>answer.
       call_bind (lift_call (of_option MilvusTransportError (fields_of (Some answer)))) (\<lambda>description.
       call_bind (lift_call (parse_description env (get description ''description''))) (\<lambda>meta.
       if \<not> description_ok meta description then call_raise MilvusNotReady
       else
         (case (Option.bind (map_of meta ''embedding_dimension'') int_of_text,
                Option.bind (map_of meta ''chunk_count'') int_of_text) of
            (Some dimension, Some expected_count) \<Rightarrow>
              if dimension < 1 \<or> expected_count < 1 then call_raise MilvusNotReady
              else
                call_bind (verify_row_count send name meta expected_count) (\<lambda>_.
                if list_ex (\<lambda>key. map_of meta key \<in> {None, Some []})
                  [''source_chunks_sha256'', ''embedding_provider'', ''embedding_model'',
                   ''embedding_model_digest'']
                then call_raise MilvusNotReady
                else call_return meta)
          | _ \<Rightarrow> call_raise MilvusNotReady)))))"

definition milvus_source_matches :: "milvus_env \<Rightarrow> (string \<times> pytext) list \<Rightarrow> jobject list \<Rightarrow> bool" where
  "milvus_source_matches env meta cs =
     (if map_of meta ''source_chunks_sha256'' \<noteq> Some (mv_fingerprint env cs) then False
      else if map_of meta ''chunk_count'' \<noteq> Some (decimal (length cs)) then False
      else True)"

definition milvus_verify_source ::
  "milvus_env \<Rightarrow> 'w milvus_transport \<Rightarrow> string \<Rightarrow> jobject list \<Rightarrow>
     ('w, milvus_error, (string \<times> pytext) list) call"
where
  "milvus_verify_source env send name cs =
     call_bind (milvus_inspect env send name) (\<lambda>meta.
     call_when (milvus_source_matches env meta cs) MilvusNotReady (call_return meta))"

definition milvus_verify_provider ::
  "milvus_env \<Rightarrow> 'w milvus_transport \<Rightarrow> string \<Rightarrow> 'w embedding_provider \<Rightarrow>
     ('w, milvus_error, (string \<times> pytext) list) call"
where
  "milvus_verify_provider env send name provider =
     call_bind (milvus_inspect env send name) (\<lambda>meta.
     call_bind (ep_identity provider) (\<lambda>identity.
     call_when (Some (mi_provider identity) = map_of meta ''embedding_provider'' \<and>
         Some (mi_model identity) = map_of meta ''embedding_model'' \<and>
         Some (mi_digest identity) = map_of meta ''embedding_model_digest'')
       MilvusNotReady (call_return meta)))"

fun normalize_all :: "(rat \<Rightarrow> rat) \<Rightarrow> vector list \<Rightarrow> rat list list option" where
  "normalize_all sqrt_of [] = Some []"
| "normalize_all sqrt_of (v # vs) = Option.bind (normalize_vector sqrt_of v)
     (\<lambda>n. map_option (Cons n) (normalize_all sqrt_of vs))"

definition milvus_build ::
  "milvus_env \<Rightarrow> 'w milvus_transport \<Rightarrow> string \<Rightarrow> 'w embedding_provider \<Rightarrow> jobject list \<Rightarrow>
     ('w, milvus_error, (string \<times> pytext) list) call"
where
  "milvus_build env send name provider cs =
     (if \<not> milvus_validate_chunks cs then call_raise MilvusValueError
      else
        call_bind (send (HasCollection name)) (\<lambda>present.
        if present = JBool True then call_raise MilvusNotReady
        else
          call_bind (ep_embed provider (map passage_text cs)) (\<lambda>vectors.
          if length vectors \<noteq> length cs then call_raise MilvusValueError
          else
            call_bind (lift_call (of_option MilvusValueError (normalize_all (mv_sqrt env) vectors))) (\<lambda>normalized.
            if card (set (map length normalized)) \<noteq> 1 then call_raise MilvusValueError
            else
              call_bind (ep_identity provider) (\<lambda>identity.
              let dimension = length (hd normalized) in
              call_bind (send (CreateCollection name dimension
                (describe_metadata env (milvus_metadata env cs identity dimension)))) (\<lambda>_.
              call_bind (send (InsertRows name (zip cs normalized))) (\<lambda>answer.
              call_bind (lift_call (of_option MilvusTransportError (fields_of (Some answer)))) (\<lambda>result.
              if get result ''insert_count'' \<notin> {None, Some JNull, Some (JInt (int (length cs)))}
              then call_raise MilvusNotReady
              else
                call_bind (send (Flush name)) (\<lambda>_.
                call_bind (send (LoadCollection name)) (\<lambda>_.
                milvus_verify_source env send name cs))))))))))"

subsection \<open>Search\<close>

text \<open>A \<^verbatim>\<open>try\<close> block whose every exception becomes one stage.\<close>

definition at_stage :: "milvus_stage \<Rightarrow> ('w, milvus_error, 'a) call \<Rightarrow> ('w, milvus_error, 'a) call" where
  "at_stage stage m w = (case m w of (Inl _, w') \<Rightarrow> (Inl (MilvusStage stage), w') | r \<Rightarrow> r)"

lemma at_stage_Inr [call_simps]: "at_stage stage m w = (Inr x, w') \<longleftrightarrow> m w = (Inr x, w')"
  by (auto simp: at_stage_def split: prod.splits sum.splits)

definition milvus_route_identity ::
  "milvus_env \<Rightarrow> 'w milvus_transport \<Rightarrow> string \<Rightarrow> 'w embedding_provider \<Rightarrow> jobject list option \<Rightarrow>
     (string \<times> pytext) list option \<Rightarrow> ('w, milvus_error, (string \<times> pytext) list) call"
where
  "milvus_route_identity env send name provider fingerprint_chunks verified =
     call_bind
       (case verified of
          None \<Rightarrow> milvus_verify_provider env send name provider
        | Some meta \<Rightarrow>
            call_when (list_all (\<lambda>key. map_of meta key \<notin> {None, Some []})
              [''source_chunks_sha256'', ''chunk_count'', ''embedding_dimension''])
              MilvusNotReady (call_return meta)) (\<lambda>meta.
     case fingerprint_chunks of
       None \<Rightarrow> call_return meta
     | Some cs \<Rightarrow> call_when (milvus_source_matches env meta cs) MilvusNotReady (call_return meta))"

definition query_vector ::
  "milvus_env \<Rightarrow> 'w embedding_provider \<Rightarrow> pytext \<Rightarrow> vector option \<Rightarrow> ('w, milvus_error, rat list) call"
where
  "query_vector env provider question given =
     call_bind
       (case given of
          Some v \<Rightarrow> call_return v
        | None \<Rightarrow> call_bind (ep_embed provider [question]) (\<lambda>vectors.
            lift_call (case vectors of [] \<Rightarrow> Inl MilvusValueError | v # _ \<Rightarrow> Inr v)))
       (\<lambda>v. lift_call (of_option MilvusValueError (normalize_vector (mv_sqrt env) v)))"

fun milvus_collect ::
  "jobject \<Rightarrow> rat \<Rightarrow> json list \<Rightarrow> (rat \<times> jobject) list \<Rightarrow> milvus_error + (rat \<times> jobject) list"
where
  "milvus_collect s min_score [] results = Inr results"
| "milvus_collect s min_score (hit # hits) results =
     (case hit of JObj h \<Rightarrow>
       (case fields_of (get h ''entity'') of
          None \<Rightarrow> Inl MilvusNotReady
        | Some entity \<Rightarrow>
          (case fields_of (get entity ''payload'') of
             None \<Rightarrow> Inl MilvusNotReady
           | Some payload \<Rightarrow>
             bind_res (or_error MilvusNotReady (hit_score (get h ''distance''))) (\<lambda>score.
               milvus_collect s min_score hits
                 (if min_score \<le> score \<and> is_chunk_authorized payload s
                  then results @ [(score, payload)] else results))))
      | _ \<Rightarrow> Inl MilvusNotReady)"

definition milvus_ranking ::
  "jobject \<Rightarrow> int \<Rightarrow> rat \<Rightarrow> json \<Rightarrow> milvus_error + ranked_chunk list"
where
  "milvus_ranking s top_k min_score hits =
     (case hits of JList [JList first] \<Rightarrow>
       bind_res (milvus_collect s min_score first []) (\<lambda>results.
       or_error MilvusValueError (bind_res (rank_scored milvus_backend 1
         (take (nat top_k) (score_order results))) (validated milvus_backend)))
      | _ \<Rightarrow> Inl MilvusNotReady)"

definition milvus_search ::
  "milvus_env \<Rightarrow> 'w milvus_transport \<Rightarrow> string \<Rightarrow> 'w embedding_provider \<Rightarrow> int \<Rightarrow> rat \<Rightarrow>
     jobject list option \<Rightarrow> jobject list option \<Rightarrow> vector option \<Rightarrow> (string \<times> pytext) list option \<Rightarrow>
     pytext \<Rightarrow> jobject \<Rightarrow> ('w, milvus_error, ranked_chunk list) call"
where
  "milvus_search env send name provider top_k min_score expected source_chunks given verified question s =
     (if blank question then call_raise MilvusValueError
      else if top_k < 1 \<or> \<not> (- 1 \<le> min_score \<and> min_score \<le> 1) then call_raise MilvusValueError
      else
        call_bind (at_stage ROUTE_IDENTITY (milvus_route_identity env send name provider
          (case source_chunks of None \<Rightarrow> expected | Some cs \<Rightarrow> Some cs) verified)) (\<lambda>meta.
        call_bind (at_stage QUERY_EMBEDDING (query_vector env provider question given)) (\<lambda>v.
        case Option.bind (map_of meta ''embedding_dimension'') int_of_text of
          None \<Rightarrow> call_raise MilvusValueError
        | Some dimension \<Rightarrow>
            if int (length v) \<noteq> dimension then call_raise (MilvusStage QUERY_EMBEDDING)
            else
              call_bind (at_stage ANN_SEARCH
                (send (SearchVectors name v (milvus_authorization_filter s) top_k))) (\<lambda>hits.
              at_stage RESPONSE_CONTRACT (lift_call (milvus_ranking s top_k min_score hits))))))"

definition milvus_retrieve ::
  "milvus_env \<Rightarrow> 'w milvus_transport \<Rightarrow> string \<Rightarrow> 'w embedding_provider \<Rightarrow> int \<Rightarrow> rat \<Rightarrow>
     jobject list option \<Rightarrow> jobject list option \<Rightarrow> pytext \<Rightarrow> jobject \<Rightarrow> ('w, milvus_error, jobject list) call"
where
  "milvus_retrieve env send name provider top_k min_score expected source_chunks question s =
     call_bind (milvus_search env send name provider top_k min_score expected source_chunks None None question s)
       (\<lambda>ranking. call_return (chunks_only ranking))"

lemma milvus_collect_sound:
  "milvus_collect s m hits results = Inr out \<Longrightarrow>
     \<forall>p \<in> set results. is_chunk_authorized (snd p) s \<and> m \<le> fst p \<Longrightarrow>
     \<forall>p \<in> set out. is_chunk_authorized (snd p) s \<and> m \<le> fst p"
proof (induction s m hits results rule: milvus_collect.induct)
  case (2 s m hit hits results)
  from "2.prems"(1) obtain h entity payload score where h: "hit = JObj h"
    "fields_of (get h ''entity'') = Some entity" "fields_of (get entity ''payload'') = Some payload"
    "or_error MilvusNotReady (hit_score (get h ''distance'')) = Inr score" "milvus_collect s m hits
      (if m \<le> score \<and> is_chunk_authorized payload s then results @ [(score, payload)] else results) = Inr out"
    by (auto simp: bind_res_Inr_iff split: json.splits option.splits)
  show ?case
    using "2.prems"(2) by (intro "2.IH" [OF h(1,2,3,5)]) auto
qed simp

lemma milvus_ranking_sound:
  assumes "milvus_ranking s top_k m hits = Inr ranking" and "1 \<le> top_k"
  shows "sound_ranking milvus_backend s top_k ranking"
proof -
  from assms obtain results first where r: "milvus_collect s m first [] = Inr results"
    "bind_res (rank_scored milvus_backend 1 (take (nat top_k) (score_order results)))
      (validated milvus_backend) = Inr ranking"
    by (simp add: milvus_ranking_def bind_res_Inr_iff [of "milvus_collect s m f []" for f]
        split: json.splits list.splits) blast
  then show ?thesis
    using milvus_collect_sound [OF r(1)] assms(2)
    by (intro rank_scored_sound) (auto simp: bind_res_Inr_iff validated_def split: if_splits)
qed

lemma milvus_search_sound:
  assumes "milvus_search env send name provider top_k m expected source given verified question s w = (Inr ranking, w')"
  shows "sound_ranking milvus_backend s top_k ranking"
proof -
  from assms have "1 \<le> top_k" by (auto simp: milvus_search_def call_simps split: if_splits)
  moreover from assms obtain meta v0 v w0 where "(case Option.bind (map_of meta ''embedding_dimension'') int_of_text of
      None \<Rightarrow> call_raise MilvusValueError
    | Some dimension \<Rightarrow>
        if int (length v) \<noteq> dimension then call_raise (MilvusStage QUERY_EMBEDDING)
        else
          call_bind (at_stage ANN_SEARCH
            (send (SearchVectors name v (milvus_authorization_filter s) top_k))) (\<lambda>hits.
          at_stage RESPONSE_CONTRACT (lift_call (milvus_ranking s top_k m hits)))) v0 = (Inr ranking, w0)"
    by (simp add: milvus_search_def call_simps split: if_splits) blast
  then obtain hits where "milvus_ranking s top_k m hits = Inr ranking"
    by (cases "Option.bind (map_of meta ''embedding_dimension'') int_of_text")
      (auto simp: call_simps split: if_splits)
  ultimately show ?thesis using milvus_ranking_sound by blast
qed

lemmas milvus_result_sound = milvus_search_sound [OF call_result]

interpretation milvus_index: authorized_backend
  "\<lambda>question s. fst (milvus_search env send name provider top_k m expected source given verified question s w)"
  for env send name provider top_k m expected source given verified w
  by unfold_locales (drule milvus_result_sound, auto simp: sound_ranking_def)+

subsection \<open>The filter and the post-filter\<close>

text \<open>The expressions the filter text stands for.\<close>

datatype milvus_expr =
    MActive bool
  | MEquals string pytext
  | MIn string "pytext list"
  | MContainsAny string "pytext list"
  | MAnd "milvus_expr list"
  | MOr "milvus_expr list"
  | MParen milvus_expr

fun render_expr :: "milvus_expr \<Rightarrow> pytext" where
  "render_expr (MActive b) = ascii ''is_active == '' @ ascii (if b then ''true'' else ''false'')"
| "render_expr (MEquals f v) = ascii f @ ascii '' == '' @ json_quote v"
| "render_expr (MIn f vs) = ascii f @ ascii '' in '' @ quoted_list vs"
| "render_expr (MContainsAny f vs) = ascii ''array_contains_any('' @ ascii f @ ascii '', '' @ quoted_list vs @ ascii '')''"
| "render_expr (MAnd es) = join (ascii '' and '') (map render_expr es)"
| "render_expr (MOr es) = join (ascii '' or '') (map render_expr es)"
| "render_expr (MParen e) = ascii ''('' @ render_expr e @ ascii '')''"

definition milvus_semantics :: "(milvus_expr \<Rightarrow> jobject \<Rightarrow> bool) \<Rightarrow> bool" where
  "milvus_semantics m \<longleftrightarrow>
     (\<forall>b d. m (MActive b) d = (get d ''is_active'' = Some (JBool b))) \<and>
     (\<forall>f v d. m (MEquals f v) d = (get d f = Some (JStr v))) \<and>
     (\<forall>f vs d. m (MIn f vs) d = (\<exists>v \<in> set vs. get d f = Some (JStr v))) \<and>
     (\<forall>f vs d. m (MContainsAny f vs) d = (\<exists>v \<in> set vs. JStr v \<in> set (items_of (get d f)))) \<and>
     (\<forall>es d. m (MAnd es) d = (\<forall>e \<in> set es. m e d)) \<and>
     (\<forall>es d. m (MOr es) d = (\<exists>e \<in> set es. m e d)) \<and>
     (\<forall>e d. m (MParen e) d = m e d)"

definition selector_exprs :: "pytext list \<Rightarrow> pytext list \<Rightarrow> milvus_expr list" where
  "selector_exprs document_ids library_ids =
     (if document_ids \<noteq> [] then [MIn ''document_id'' document_ids] else []) @
     (if library_ids \<noteq> [] then [MContainsAny ''library_scope_ids'' library_ids] else [])"

definition rules_expr :: "pytext \<Rightarrow> bool \<Rightarrow> milvus_expr list \<Rightarrow> milvus_expr" where
  "rules_expr tenant public selectors =
     (let also_selector = (if selectors \<noteq> [] then [MParen (MOr selectors)] else []) in
      MAnd [MActive True, MParen (MOr (
        (if public then [MParen (MAnd (MEquals ''visibility'' (ascii ''public'') # also_selector))] else []) @
        [MParen (MAnd (MEquals ''visibility'' (ascii ''tenant'') # MEquals ''tenant_id'' tenant # also_selector))] @
        (if selectors \<noteq> []
         then [MParen (MAnd [MEquals ''visibility'' (ascii ''private''), MEquals ''tenant_id'' tenant,
           MParen (MOr selectors)])]
         else [])))])"

definition filter_expr :: "jobject \<Rightarrow> milvus_expr" where
  "filter_expr s =
     (case (string_list s ''document_ids'', string_list s ''library_ids'', string_list s ''folder_ids'') of
        (Some ds, Some ls, Some fs) \<Rightarrow>
          if has_required_scope_fields s \<and> \<not> (fs \<noteq> [] \<and> selector_exprs ds ls = [])
          then rules_expr (text_field s ''tenant_id'') (get s ''include_public'' = Some (JBool True))
            (selector_exprs ds ls)
          else MAnd [MActive True, MActive False]
      | _ \<Rightarrow> MAnd [MActive True, MActive False])"

lemma ascii_append: "ascii (s @ t) = ascii s @ ascii t"
  by (simp add: ascii_def)

lemma render_selectors: "map render_expr (selector_exprs ds ls) = milvus_selectors ds ls"
  by (simp add: selector_exprs_def milvus_selectors_def flip: ascii_append)

lemma render_rules:
  "render_expr (rules_expr t public es) = milvus_rules t public (map render_expr es)"
  by (simp add: rules_expr_def milvus_rules_def Let_def ascii_def)

lemma scope_fields_lists:
  assumes "string_list s ''document_ids'' = Some ds" and "string_list s ''library_ids'' = Some ls"
    and "string_list s ''folder_ids'' = Some fs"
  shows "has_required_scope_fields s \<longleftrightarrow> nonempty_str (get s ''user_id'') \<and>
    nonempty_str (get s ''tenant_id'') \<and> nonempty_str (get s ''acl_version'') \<and> is_bool (get s ''include_public'')"
  using assms [THEN string_list_Some] by (auto simp: has_required_scope_fields_def)

lemma render_nothing: "render_expr (MAnd [MActive True, MActive False]) = milvus_nothing"
  by (simp add: milvus_nothing_def flip: ascii_append)

lemma selectors_Nil_iff: "milvus_selectors ds ls = [] \<longleftrightarrow> selector_exprs ds ls = []"
  by (simp add: milvus_selectors_def selector_exprs_def)

lemma filter_text: "render_expr (filter_expr s) = milvus_authorization_filter s"
proof (cases "string_list s ''document_ids'' = None \<or> string_list s ''library_ids'' = None \<or>
    string_list s ''folder_ids'' = None")
  case True
  then show ?thesis
    unfolding filter_expr_def milvus_authorization_filter_def
    by (auto simp only: render_nothing prod.case option.case split: option.splits)
next
  case False
  then obtain ds ls fs where lists: "string_list s ''document_ids'' = Some ds"
    "string_list s ''library_ids'' = Some ls" "string_list s ''folder_ids'' = Some fs" by auto
  show ?thesis
    unfolding filter_expr_def milvus_authorization_filter_def lists prod.case option.case
      scope_fields_lists [OF lists] Let_def selectors_Nil_iff
    by (auto simp only: render_nothing render_rules render_selectors split: if_splits)
qed

lemma milvus_semanticsD:
  assumes "milvus_semantics m"
  shows "m (MActive b) d = (get d ''is_active'' = Some (JBool b))"
    and "m (MEquals f v) d = (get d f = Some (JStr v))"
    and "m (MIn f vs) d = (\<exists>v \<in> set vs. get d f = Some (JStr v))"
    and "m (MContainsAny f vs) d = (\<exists>v \<in> set vs. JStr v \<in> set (items_of (get d f)))"
    and "m (MAnd es) d = (\<forall>e \<in> set es. m e d)"
    and "m (MOr es) d = (\<exists>e \<in> set es. m e d)"
    and "m (MParen e) d = m e d"
  using assms by (simp_all add: milvus_semantics_def)

lemma selector_exprs_match:
  assumes m: "milvus_semantics m" and c: "milvus_chunk_ok c"
    and "string_list s ''document_ids'' = Some ds" and "string_list s ''library_ids'' = Some ls"
  shows "(\<exists>e \<in> set (selector_exprs ds ls). m e c) = matches_selected_scope c s"
proof -
  have ids: "set ds = string_set (get s ''document_ids'')" "set ls = string_set (get s ''library_ids'')"
    using assms(3,4) string_list_Some by blast+
  have d: "m (MIn ''document_id'' ds) c = (case get c ''document_id'' of
      Some (JStr d) \<Rightarrow> d \<in> string_set (get s ''document_ids'') | _ \<Rightarrow> False)"
    by (simp add: milvus_semanticsD(3) [OF m] ids split: option.splits json.splits)
  have "is_list (get c ''library_scope_ids'')" using c by (auto simp: milvus_chunk_ok_def split: if_splits)
  then have l: "m (MContainsAny ''library_scope_ids'' ls) c =
      (string_set (get c ''library_scope_ids'') \<inter> string_set (get s ''library_ids'') \<noteq> {})"
    using ids(2) string_set_nonempty [of _ "get s ''library_ids''"]
    by (cases "get c ''library_scope_ids''" rule: is_list.cases)
      (fastforce simp: milvus_semanticsD(4) [OF m] string_set_def set_nonempty_strings)+
  have "m (MIn ''document_id'' ds) c \<Longrightarrow> ds \<noteq> []" "m (MContainsAny ''library_scope_ids'' ls) c \<Longrightarrow> ls \<noteq> []"
    by (auto simp: milvus_semanticsD [OF m])
  then have "(\<exists>e \<in> set (selector_exprs ds ls). m e c) \<longleftrightarrow>
      m (MIn ''document_id'' ds) c \<or> m (MContainsAny ''library_scope_ids'' ls) c"
    by (auto simp: selector_exprs_def)
  also have "\<dots> = matches_selected_scope c s"
    using ids unfolding d l matches_selected_scope_def Let_def
    by (auto split: option.splits json.splits)
  finally show ?thesis .
qed

text \<open>C23. The filter text sent to Milvus is exact: it is the text of an expression, and under the
  documented meaning of those expressions a validated chunk satisfies it exactly when the chunk is
  authorized under the scope and the scope's lists hold nothing but non-empty strings.\<close>

theorem milvus_filter_exact:
  assumes "milvus_semantics m" and "milvus_chunk_ok c" and "has_required_chunk_fields c"
  shows "milvus_authorization_filter s = render_expr (filter_expr s) \<and>
    (m (filter_expr s) c \<longleftrightarrow> is_chunk_authorized c s \<and> scope_lists_ok s)"
proof (cases "scope_lists_ok s \<and> has_required_scope_fields s")
  case False
  then have "filter_expr s = MAnd [MActive True, MActive False]"
    by (auto simp: filter_expr_def scope_lists_ok_def dest!: string_list_Some split: option.splits)
  then have "\<not> m (filter_expr s) c" by (simp add: milvus_semanticsD [OF assms(1)])
  with False filter_text show ?thesis by (auto simp: is_chunk_authorized_def)
next
  case True
  then obtain ds ls fs where lists: "string_list s ''document_ids'' = Some ds"
    "string_list s ''library_ids'' = Some ls" "string_list s ''folder_ids'' = Some fs"
    using string_list_None [of s] unfolding scope_lists_ok_def by (metis list.set_intros option.exhaust)
  note sel = selector_exprs_match [OF assms(1,2) lists(1,2)]
  have any: "has_selectors s \<longleftrightarrow> selector_exprs ds ls \<noteq> [] \<or> fs \<noteq> []"
    using string_list_Some [OF lists(1)] string_list_Some [OF lists(2)] string_list_Some [OF lists(3)]
    by (auto simp: has_selectors_def selector_exprs_def)
  have t: "get s ''tenant_id'' = Some (JStr (text_field s ''tenant_id''))"
    using True by (auto simp: has_required_scope_fields_def text_field_def elim!: nonempty_strE)
  have "m (filter_expr s) c \<longleftrightarrow> is_chunk_authorized c s"
    using True assms(3) t any sel
    by (cases "selector_exprs ds ls = []")
      (auto simp: filter_expr_def lists rules_expr_def Let_def milvus_semanticsD [OF assms(1)]
        is_chunk_authorized_def)
  then show ?thesis using True filter_text by metis
qed

fun eval_expr :: "milvus_expr \<Rightarrow> jobject \<Rightarrow> bool" where
  "eval_expr (MActive b) d = (get d ''is_active'' = Some (JBool b))"
| "eval_expr (MEquals f v) d = (get d f = Some (JStr v))"
| "eval_expr (MIn f vs) d = (\<exists>v \<in> set vs. get d f = Some (JStr v))"
| "eval_expr (MContainsAny f vs) d = (\<exists>v \<in> set vs. JStr v \<in> set (items_of (get d f)))"
| "eval_expr (MAnd es) d = (\<forall>e \<in> set es. eval_expr e d)"
| "eval_expr (MOr es) d = (\<exists>e \<in> set es. eval_expr e d)"
| "eval_expr (MParen e) d = eval_expr e d"

theorem milvus_filter_exact_witness:
  "eval_expr (filter_expr sample_scope) sample_indexed_chunk"
proof -
  have "milvus_semantics eval_expr" by (simp add: milvus_semantics_def)
  moreover have "milvus_chunk_ok sample_indexed_chunk" "has_required_chunk_fields sample_indexed_chunk"
    by code_simp+
  ultimately show ?thesis using milvus_filter_exact sample_indexed(3,4) by blast
qed

subsection \<open>Quoting\<close>

text \<open>Reading a string literal up to its closing quote.\<close>

fun after_literal :: "pytext \<Rightarrow> pytext option" where
  "after_literal [] = None"
| "after_literal (c # cs) =
     (if c = 34 then Some cs
      else if c = 92 then (case cs of [] \<Rightarrow> None | _ # ds \<Rightarrow> after_literal ds)
      else after_literal cs)"

lemma quoted_char_stays: "after_literal (quote_char c @ t) = after_literal t"
proof -
  have hex: "hex_digit n \<noteq> 34 \<and> hex_digit n \<noteq> 92" for n by (simp add: hex_digit_def)
  have "after_literal (unicode_escape n @ u) = after_literal u" for n u
    by (simp add: unicode_escape_def hex)
  then show ?thesis by (simp add: quote_char_def)
qed

text \<open>No identity, whatever its characters, ends its literal early: nothing of it can be read as a
  part of the filter.\<close>

lemma quoted_literal_closed: "after_literal (tl (json_quote t) @ rest) = Some rest"
  by (induction t) (simp_all add: json_quote_def quoted_char_stays)

end
