(* ===== verification/RouteCoverage.thy ===== *)
theory RouteCoverage
  imports RankedResults
begin

text \<open>
  Final Top-3 route coverage for bilateral comparisons
  (\<^verbatim>\<open>backend/retrieval/comparison_route_coverage.py\<close>): the configuration file, the switch and the
  selector. The configuration is the parsed JSON value; latencies are not modelled, and the
  observer is an argument that tells whether the call on an observation returns.
\<close>

subsection \<open>Configuration and switch\<close>

record coverage_config =
  cc_eligible_route_count :: int
  cc_final_top_k :: int
  cc_minimum_per_route :: int
  cc_comparison_markers :: "pytext list"

definition config_keys :: "string list" where
  "config_keys = [''schema_version'', ''variable_id'', ''default_enabled'', ''failure_policy'',
     ''eligible_route_count'', ''final_top_k'', ''minimum_per_route'', ''comparison_markers'']"

text \<open>Python compares \<open>True\<close>, \<open>1\<close> and \<open>1.0\<close> as equal.\<close>

definition equals_int :: "json option \<Rightarrow> int \<Rightarrow> bool" where
  "equals_int v n = (case v of Some (JInt i) \<Rightarrow> i = n
     | Some (JBool b) \<Rightarrow> n = (if b then 1 else 0)
     | Some (JFloat (Some x)) \<Rightarrow> x = of_int n | _ \<Rightarrow> False)"

fun marker_texts :: "json list \<Rightarrow> pytext list option" where
  "marker_texts [] = Some []"
| "marker_texts (JStr s # xs) =
     (if blank s then None else map_option (Cons s) (marker_texts xs))"
| "marker_texts (x # xs) = None"

definition load_coverage_config :: "unicode \<Rightarrow> json \<Rightarrow> unit + coverage_config" where
  "load_coverage_config u v =
     (case v of JObj d \<Rightarrow>
       (if set (map fst d) \<noteq> set config_keys then Inl ()
        else if get d ''schema_version'' \<noteq>
          Some (JStr (ascii ''bilateral_comparison_route_coverage_top3_config_v1'')) then Inl ()
        else if get d ''variable_id'' \<noteq>
          Some (JStr (ascii ''BILATERAL_COMPARISON_ROUTE_COVERAGE_TOP3_V1'')) then Inl ()
        else if get d ''default_enabled'' \<noteq> Some (JBool False) then Inl ()
        else if get d ''failure_policy'' \<noteq>
          Some (JStr (ascii ''FALLBACK_TO_ORIGINAL_RRF_TOP3'')) then Inl ()
        else if \<not> equals_int (get d ''eligible_route_count'') 2 \<or>
          \<not> equals_int (get d ''final_top_k'') 3 \<or> \<not> equals_int (get d ''minimum_per_route'') 1
        then Inl ()
        else (case get d ''comparison_markers'' of Some (JList xs) \<Rightarrow>
          (case marker_texts xs of None \<Rightarrow> Inl ()
           | Some markers \<Rightarrow>
             let normalized = map trim markers in
             if xs = [] then Inl ()
             else if card (set (map (casefold u) normalized)) \<noteq> length normalized then Inl ()
             else Inr \<lparr>cc_eligible_route_count = 2, cc_final_top_k = 3,
               cc_minimum_per_route = 1, cc_comparison_markers = normalized\<rparr>)
          | _ \<Rightarrow> Inl ()))
      | _ \<Rightarrow> Inl ())"

definition switch_enabled :: "unicode \<Rightarrow> pytext option \<Rightarrow> bool \<Rightarrow> unit + bool" where
  "switch_enabled u raw default_value =
     (case raw of None \<Rightarrow> Inr default_value
      | Some value \<Rightarrow>
        let n = casefold u (trim value) in
        if n = ascii ''0'' \<or> n = ascii ''false'' then Inr False
        else if n = ascii ''1'' \<or> n = ascii ''true'' then Inr True
        else Inl ())"

subsection \<open>The selector\<close>

datatype coverage_status = Applied | Fallback | Disabled

record coverage_plan =
  cp_status :: coverage_status
  cp_selected :: "pytext list"
  cp_failure :: "string option"

record coverage_observation =
  co_status :: coverage_status
  co_failure :: "string option"
  co_routes :: nat
  co_candidates :: nat
  co_changed :: bool

type_synonym coverage_observer = "(coverage_observation \<Rightarrow> bool) option"

definition finish_plan ::
  "coverage_observer \<Rightarrow> nat \<Rightarrow> nat \<Rightarrow> pytext list \<Rightarrow> pytext list \<Rightarrow> coverage_status \<Rightarrow> string option \<Rightarrow>
     unit + coverage_plan"
where
  "finish_plan obs route_count candidate_count original selected status failure =
     (let returns = (case obs of None \<Rightarrow> True | Some f \<Rightarrow>
        f \<lparr>co_status = status, co_failure = failure, co_routes = route_count,
           co_candidates = candidate_count, co_changed = (selected \<noteq> original)\<rparr>) in
      if returns then Inr \<lparr>cp_status = status, cp_selected = selected, cp_failure = failure\<rparr>
      else Inl ())"

definition fallback_plan ::
  "coverage_observer \<Rightarrow> pytext list \<Rightarrow> ranked_chunk list \<Rightarrow> pytext list \<Rightarrow> string \<Rightarrow> unit + coverage_plan"
where
  "fallback_plan obs route_ids candidates original failure =
     finish_plan obs (length route_ids) (length candidates) original original Fallback (Some failure)"

definition has_comparison_marker :: "unicode \<Rightarrow> coverage_config \<Rightarrow> pytext \<Rightarrow> bool" where
  "has_comparison_marker u cfg question =
     (\<exists>m \<in> set (cc_comparison_markers cfg). contains (casefold u m) (casefold u question))"

definition candidate_id :: "ranked_chunk \<Rightarrow> pytext" where
  "candidate_id r = chunk_key (rk_chunk r)"

definition candidate_document :: "ranked_chunk \<Rightarrow> pytext" where
  "candidate_document r = text_field (rk_chunk r) ''document_id''"

text \<open>\<open>xs[:k]\<close>, where a negative bound counts from the end.\<close>

definition prefix_slice :: "int \<Rightarrow> 'a list \<Rightarrow> 'a list" where
  "prefix_slice k xs = (if 0 \<le> k then take (nat k) xs else take (length xs - nat (- k)) xs)"

definition first_by_route :: "ranked_chunk list \<Rightarrow> (pytext \<times> pytext) list" where
  "first_by_route cs = foldl (\<lambda>m c. if map_of m (candidate_document c) = None
     then m @ [(candidate_document c, candidate_id c)] else m) [] cs"

fun fill_selection :: "int \<Rightarrow> ranked_chunk list \<Rightarrow> pytext set \<Rightarrow> pytext set" where
  "fill_selection top_k [] selected = selected"
| "fill_selection top_k (c # cs) selected =
     (if top_k \<le> int (card selected) then selected
      else fill_selection top_k cs (insert (candidate_id c) selected))"

definition select_routes ::
  "coverage_observer \<Rightarrow> ranked_chunk list \<Rightarrow> pytext list \<Rightarrow> int \<Rightarrow> pytext list \<Rightarrow> unit + coverage_plan"
where
  "select_routes obs candidates route_ids top_k original =
     (let firsts = first_by_route candidates in
      if \<not> candidate_document ` set candidates \<subseteq> set route_ids
      then fallback_plan obs route_ids candidates original ''CANDIDATE_ROUTE_OUTSIDE_SCOPE''
      else if set (map fst firsts) \<noteq> set route_ids
      then fallback_plan obs route_ids candidates original ''ROUTE_CANDIDATE_UNAVAILABLE''
      else
       (let selected = fill_selection top_k candidates (set (map snd firsts));
            selected_ids = filter (\<lambda>i. i \<in> selected) (map candidate_id candidates) in
        if int (length selected_ids) \<noteq> top_k
        then fallback_plan obs route_ids candidates original ''SELECTION_CARDINALITY_INVALID''
        else finish_plan obs (length route_ids) (length candidates) original selected_ids Applied None))"

definition plan_coverage ::
  "unicode \<Rightarrow> coverage_config \<Rightarrow> bool \<Rightarrow> coverage_observer \<Rightarrow> pytext \<Rightarrow> ranked_chunk list \<Rightarrow>
     pytext list \<Rightarrow> int \<Rightarrow> unit + coverage_plan"
where
  "plan_coverage u cfg enabled obs question candidates route_ids top_k =
     (let original = map candidate_id (prefix_slice top_k candidates) in
      if \<not> enabled
      then finish_plan obs (length route_ids) (length candidates) original original Disabled
        (Some ''SWITCH_DISABLED'')
      else if int (length route_ids) \<noteq> cc_eligible_route_count cfg \<or> \<not> distinct route_ids
      then fallback_plan obs route_ids candidates original ''ROUTE_COUNT_NOT_TWO''
      else if top_k \<noteq> cc_final_top_k cfg
      then fallback_plan obs route_ids candidates original ''FINAL_TOP_K_NOT_THREE''
      else if blank question \<or> \<not> has_comparison_marker u cfg question
      then fallback_plan obs route_ids candidates original ''COMPARISON_NOT_PROVEN''
      else if int (length candidates) < top_k
      then fallback_plan obs route_ids candidates original ''CANDIDATE_COUNT_INSUFFICIENT''
      else select_routes obs candidates route_ids top_k original)"

subsection \<open>First candidates\<close>

text \<open>The best-ranked candidate of a route.\<close>

definition best_of :: "ranked_chunk list \<Rightarrow> pytext \<Rightarrow> ranked_chunk option" where
  "best_of cs d = find (\<lambda>c. candidate_document c = d) cs"

definition route_step :: "(pytext \<times> pytext) list \<Rightarrow> ranked_chunk \<Rightarrow> (pytext \<times> pytext) list" where
  "route_step m c = (if map_of m (candidate_document c) = None
     then m @ [(candidate_document c, candidate_id c)] else m)"

lemma first_by_route_eq: "first_by_route cs = foldl route_step [] cs"
  by (simp add: first_by_route_def route_step_def [abs_def])

lemma route_step_lookup:
  "map_of (route_step m c) d = (case map_of m d of Some i \<Rightarrow> Some i
     | None \<Rightarrow> if candidate_document c = d then Some (candidate_id c) else None)"
  by (auto simp: route_step_def map_add_def split: option.splits)

lemma route_fold:
  "map_of (foldl route_step m cs) d =
     (case map_of m d of Some i \<Rightarrow> Some i | None \<Rightarrow> map_option candidate_id (best_of cs d))"
proof (induction cs arbitrary: m)
  case Nil
  then show ?case by (simp add: best_of_def split: option.splits)
next
  case (Cons c cs)
  then show ?case by (simp add: route_step_lookup best_of_def split: option.splits)
qed

lemma route_fold_distinct: "distinct (map fst m) \<Longrightarrow> distinct (map fst (foldl route_step m cs))"
  by (induction cs arbitrary: m) (auto simp: route_step_def map_of_eq_None_iff)

lemma first_by_route_lookup: "map_of (first_by_route cs) d = map_option candidate_id (best_of cs d)"
  by (simp add: first_by_route_eq route_fold)

lemma first_by_route_distinct: "distinct (map fst (first_by_route cs))"
  by (simp add: first_by_route_eq route_fold_distinct)

lemma first_by_route_ids:
  "set (map snd (first_by_route cs)) = {i. \<exists>d. map_option candidate_id (best_of cs d) = Some i}"
  using ran_distinct [OF first_by_route_distinct, of cs]
  by (simp add: ran_def first_by_route_lookup)

lemma best_of_None: "best_of cs d = None \<longleftrightarrow> d \<notin> candidate_document ` set cs"
  by (auto simp: best_of_def find_None_iff)

lemma best_of_Some: "best_of cs d = Some c \<Longrightarrow> c \<in> set cs \<and> candidate_document c = d"
  by (auto simp: best_of_def find_Some_iff)

lemma first_by_route_keys: "set (map fst (first_by_route cs)) = candidate_document ` set cs"
proof -
  have "d \<in> set (map fst (first_by_route cs)) \<longleftrightarrow> map_of (first_by_route cs) d \<noteq> None" for d
    by (simp add: map_of_eq_None_iff)
  then show ?thesis by (auto simp: first_by_route_lookup best_of_None)
qed

subsection \<open>The selection\<close>

lemma filter_one:
  "distinct xs \<Longrightarrow> x \<in> set xs \<Longrightarrow> filter (\<lambda>y. y = x) xs = [x]"
  by (induction xs) (auto simp: filter_empty_conv)

lemma fill_two:
  assumes "i \<noteq> j"
  shows "fill_selection 3 (c # cs) {i, j} =
     (if candidate_id c \<in> {i, j} then fill_selection 3 cs {i, j} else {i, j, candidate_id c})"
proof -
  have full: "fill_selection 3 cs {i, j, k} = {i, j, k}" if "k \<notin> {i, j}" for k
    using that assms by (cases cs) auto
  show ?thesis using assms full [of "candidate_id c"] by (auto simp: insert_absorb insert_commute)
qed

text \<open>The first two candidates, and the third or else the best of the route still missing.\<close>

lemma select_three:
  assumes cs: "cs = c0 # c1 # c2 # rest" and d: "distinct (map candidate_id cs)"
    and docs: "candidate_document ` set cs = {a, b}" and ab: "a \<noteq> b" "candidate_document c0 = a"
  shows "filter (\<lambda>i. i \<in> fill_selection 3 cs (set (map snd (first_by_route cs)))) (map candidate_id cs) =
    [candidate_id c0, candidate_id c1,
     if b \<in> candidate_document ` {c1, c2} then candidate_id c2
     else candidate_id (the (best_of cs b))]"
proof -
  obtain e where e: "best_of cs b = Some e" using docs best_of_None [of cs b] by auto
  have "best_of cs a = Some c0" using cs ab by (simp add: best_of_def)
  moreover have "best_of cs x = None" if "x \<notin> {a, b}" for x
    using that docs by (simp add: best_of_None)
  ultimately have best: "map_option candidate_id (best_of cs x) =
      (if x = a then Some (candidate_id c0) else if x = b then Some (candidate_id e) else None)" for x
    using e by simp
  have ids: "set (map snd (first_by_route cs)) = {candidate_id c0, candidate_id e}"
    unfolding first_by_route_ids best using ab(1) by (auto split: if_splits)
  note ce = best_of_Some [OF e]
  have ne: "candidate_id c0 \<noteq> candidate_id e"
    using ce ab cs d by (auto simp: image_iff)
  have dist: "candidate_id c0 \<noteq> candidate_id c1" "candidate_id c0 \<noteq> candidate_id c2"
    "candidate_id c1 \<noteq> candidate_id c2" "distinct (map candidate_id rest)"
    "candidate_id c0 \<notin> candidate_id ` set rest" "candidate_id c1 \<notin> candidate_id ` set rest"
    "candidate_id c2 \<notin> candidate_id ` set rest"
    using d cs by auto
  have "filter (\<lambda>i. i \<in> {candidate_id c0, candidate_id c1, candidate_id c2}) (map candidate_id rest) = []"
    using dist unfolding filter_empty_conv by (metis empty_iff imageI insert_iff list.set_map imageE)
  then have front: "filter (\<lambda>i. i \<in> {candidate_id c0, candidate_id c1, candidate_id c2})
      (map candidate_id cs) = [candidate_id c0, candidate_id c1, candidate_id c2]"
    unfolding cs by (simp del: filter_map)
  consider "e = c1" "candidate_document c1 = b"
    | "e = c2" "candidate_document c1 \<noteq> b" "candidate_document c2 = b"
    | "e \<in> set rest" "candidate_document c1 \<noteq> b" "candidate_document c2 \<noteq> b"
    using e ab unfolding cs best_of_def by (auto split: if_splits simp: find_Some_iff)
  then show ?thesis
  proof cases
    case 1
    then have "fill_selection 3 cs {candidate_id c0, candidate_id e} =
        {candidate_id c0, candidate_id c1, candidate_id c2}"
      using ne dist by (simp add: cs fill_two insert_commute del: fill_selection.simps)
    then show ?thesis using front ids 1 by simp
  next
    case 2
    then have "fill_selection 3 cs {candidate_id c0, candidate_id e} =
        {candidate_id c0, candidate_id c2, candidate_id c1}"
      using ne dist by (simp add: cs fill_two insert_commute del: fill_selection.simps)
    then show ?thesis using front ids 2 by (simp add: insert_commute)
  next
    case 3
    have er: "candidate_id e \<in> set (map candidate_id rest)" using 3(1) by simp
    then have "candidate_id e \<noteq> candidate_id c1" "candidate_id e \<noteq> candidate_id c2"
      using dist by auto
    then have fill: "fill_selection 3 cs {candidate_id c0, candidate_id e} =
        {candidate_id c0, candidate_id e, candidate_id c1}"
      using ne dist by (simp add: cs fill_two insert_commute del: fill_selection.simps)
    have "filter (\<lambda>i. i \<in> {candidate_id c0, candidate_id e, candidate_id c1}) (map candidate_id rest) =
        filter (\<lambda>i. i = candidate_id e) (map candidate_id rest)"
      using dist(5,6) by (intro filter_cong refl) (simp only: set_map, metis empty_iff insert_iff)
    then have "filter (\<lambda>i. i \<in> {candidate_id c0, candidate_id e, candidate_id c1})
        (map candidate_id cs) = [candidate_id c0, candidate_id c1, candidate_id e]"
      using filter_one [OF dist(4) er] dist \<open>candidate_id e \<noteq> candidate_id c2\<close> by (simp add: cs)
    then show ?thesis using fill ids e 3 by simp
  qed
qed

lemma load_coverage_config_Inr:
  assumes "load_coverage_config u v = Inr cfg"
  shows "cc_eligible_route_count cfg = 2 \<and> cc_final_top_k cfg = 3"
  using assms
  by (auto simp: load_coverage_config_def Let_def split: json.splits if_splits option.splits)

lemma finish_plan_Inr:
  "finish_plan obs n m original selected status failure = Inr p \<Longrightarrow>
     p = \<lparr>cp_status = status, cp_selected = selected, cp_failure = failure\<rparr>"
  by (auto simp: finish_plan_def Let_def split: if_splits option.splits)

lemma fallback_plan_Inr:
  "fallback_plan obs routes cs original failure = Inr p \<Longrightarrow>
     cp_status p = Fallback \<and> cp_selected p = original"
  by (auto simp: fallback_plan_def dest: finish_plan_Inr)

text \<open>The routes, in order, that no candidate of the first three belongs to.\<close>

definition missing_routes :: "pytext list \<Rightarrow> ranked_chunk list \<Rightarrow> pytext list" where
  "missing_routes routes cs =
     filter (\<lambda>d. d \<notin> candidate_document ` set (take 3 cs)) routes"

lemma selected_ids:
  assumes "distinct (map candidate_id cs)" and "3 \<le> length cs"
    and "candidate_document ` set cs = set routes" and "length routes = 2" and "distinct routes"
  shows "filter (\<lambda>i. i \<in> fill_selection 3 cs (set (map snd (first_by_route cs)))) (map candidate_id cs) =
    (case missing_routes routes cs of [] \<Rightarrow> map candidate_id (take 3 cs)
     | d # _ \<Rightarrow> map candidate_id (take 2 cs) @ [candidate_id (the (best_of cs d))])"
proof -
  obtain c0 c1 c2 rest where cs: "cs = c0 # c1 # c2 # rest"
    using assms(2) by (metis Suc_le_length_iff numeral_3_eq_3)
  obtain a b where r: "routes = [a, b]" "a \<noteq> b"
    using assms(4,5) by (auto simp: length_Suc_conv numeral_2_eq_2)
  then consider "candidate_document c0 = a" | "candidate_document c0 = b"
    using assms(3) cs by auto
  then show ?thesis
  proof cases
    case 1
    then show ?thesis
      using select_three [OF cs assms(1), of a b] assms(3) r by (simp add: missing_routes_def cs)
  next
    case 2
    then show ?thesis
      using select_three [OF cs assms(1), of b a] assms(3) r
      by (simp add: missing_routes_def cs insert_commute)
  qed
qed

text \<open>When a comparison is proven: what the code checks before it selects.\<close>

definition coverage_eligible ::
  "unicode \<Rightarrow> coverage_config \<Rightarrow> bool \<Rightarrow> pytext \<Rightarrow> ranked_chunk list \<Rightarrow> pytext list \<Rightarrow> int \<Rightarrow> bool"
where
  "coverage_eligible u cfg enabled question cs routes top_k \<longleftrightarrow>
     enabled \<and> length routes = 2 \<and> distinct routes \<and> top_k = 3 \<and> \<not> blank question \<and>
     has_comparison_marker u cfg question \<and> 3 \<le> length cs \<and>
     candidate_document ` set cs = set routes"

lemma select_routes_exact:
  assumes "select_routes obs cs routes 3 original = Inr p" and "distinct (map candidate_id cs)"
    and "3 \<le> length cs" and "length routes = 2" and "distinct routes"
  shows "(cp_status p = Applied) = (candidate_document ` set cs = set routes) \<and>
    cp_selected p = (if cp_status p = Applied
      then case missing_routes routes cs of [] \<Rightarrow> map candidate_id (take 3 cs)
        | d # _ \<Rightarrow> map candidate_id (take 2 cs) @ [candidate_id (the (best_of cs d))]
      else original)"
proof (cases "candidate_document ` set cs = set routes")
  case True
  note sel = selected_ids [OF assms(2,3) True assms(4,5)]
  have "length (filter (\<lambda>i. i \<in> fill_selection 3 cs (set (map snd (first_by_route cs))))
      (map candidate_id cs)) = 3"
    unfolding sel using assms(3) by (auto split: list.splits)
  then have "p = \<lparr>cp_status = Applied, cp_selected = filter (\<lambda>i. i \<in> fill_selection 3 cs
      (set (map snd (first_by_route cs)))) (map candidate_id cs), cp_failure = None\<rparr>"
    using assms(1) True unfolding select_routes_def Let_def first_by_route_keys
    by (intro finish_plan_Inr) simp
  with True sel show ?thesis by simp
next
  case False
  then have "\<exists>failure. fallback_plan obs routes cs original failure = Inr p"
    using assms(1) unfolding select_routes_def Let_def first_by_route_keys by (auto split: if_splits)
  with False show ?thesis by (auto dest: fallback_plan_Inr)
qed

text \<open>Route coverage is minimal: the selector applies exactly when the switch is on, the question
  proves a comparison and two requested documents make up the candidates of a final Top-3; then the
  selection is the first three candidates when they cover both documents, and otherwise the first
  two and the best candidate of the other document. In every other case it is the original
  prefix.\<close>

theorem route_coverage_exact:
  assumes "load_coverage_config u v = Inr cfg" and "distinct (map candidate_id cs)"
    and "plan_coverage u cfg enabled obs question cs routes top_k = Inr p"
  shows "(cp_status p = Applied) = coverage_eligible u cfg enabled question cs routes top_k \<and>
    cp_selected p = (if cp_status p = Applied
      then case missing_routes routes cs of [] \<Rightarrow> map candidate_id (take 3 cs)
        | d # _ \<Rightarrow> map candidate_id (take 2 cs) @ [candidate_id (the (best_of cs d))]
      else map candidate_id (prefix_slice top_k cs))"
proof -
  note cfg = load_coverage_config_Inr [OF assms(1)]
  let ?original = "map candidate_id (prefix_slice top_k cs)"
  show ?thesis
  proof (cases "enabled \<and> length routes = 2 \<and> distinct routes \<and> top_k = 3 \<and> \<not> blank question \<and>
      has_comparison_marker u cfg question \<and> 3 \<le> length cs")
    case True
    then have "select_routes obs cs routes 3 ?original = Inr p"
      using assms(3) cfg by (simp add: plan_coverage_def Let_def)
    from select_routes_exact [OF this assms(2)] True show ?thesis by (simp add: coverage_eligible_def)
  next
    case False
    then have "(\<exists>failure. fallback_plan obs routes cs ?original failure = Inr p) \<or>
        (\<exists>n m failure. finish_plan obs n m ?original ?original Disabled failure = Inr p)"
      using assms(3) cfg unfolding plan_coverage_def Let_def by (auto split: if_splits)
    then have "cp_status p \<noteq> Applied \<and> cp_selected p = ?original"
      by (auto dest: fallback_plan_Inr finish_plan_Inr)
    with False show ?thesis by (auto simp: coverage_eligible_def)
  qed
qed

subsection \<open>Sample\<close>

definition sample_config_value :: json where
  "sample_config_value = JObj
     [(''comparison_markers'', JList [JStr [118, 115]]),
      (''default_enabled'', JBool False), (''eligible_route_count'', JInt 2),
      (''failure_policy'', JStr (ascii ''FALLBACK_TO_ORIGINAL_RRF_TOP3'')), (''final_top_k'', JInt 3),
      (''minimum_per_route'', JInt 1),
      (''schema_version'', JStr (ascii ''bilateral_comparison_route_coverage_top3_config_v1'')),
      (''variable_id'', JStr (ascii ''BILATERAL_COMPARISON_ROUTE_COVERAGE_TOP3_V1''))]"

definition sample_coverage_config :: coverage_config where
  "sample_coverage_config = \<lparr>cc_eligible_route_count = 2, cc_final_top_k = 3,
     cc_minimum_per_route = 1, cc_comparison_markers = [[118, 115]]\<rparr>"

text \<open>Three candidates of one document before the first of the other.\<close>

definition sample_route_candidates :: "ranked_chunk list" where
  "sample_route_candidates = map (\<lambda>(rank, d). \<lparr>rk_backend = online_retrieval_backend, rk_rank = rank,
     rk_score = 1, rk_chunk = [(''chunk_id'', JStr [nat rank]), (''document_id'', JStr [d])]\<rparr>)
     [(1, 10), (2, 10), (3, 10), (4, 20)]"

lemma sample_config_loads:
  "load_coverage_config sample_unicode sample_config_value = Inr sample_coverage_config"
proof -
  have "\<not> blank [118, 115]" "trim [118, 115] = [118, 115]"
    by (simp_all add: blank_def strip_text_def uspace_def)
  then show ?thesis
    by (simp add: load_coverage_config_def sample_config_value_def sample_coverage_config_def
      config_keys_def get_def equals_int_def insert_commute)
qed

lemma sample_coverage_plan:
  "plan_coverage sample_unicode sample_coverage_config True None [65, 86, 83, 66]
     sample_route_candidates [[10], [20]] 3 =
   Inr \<lparr>cp_status = Applied, cp_selected = [[1], [2], [4]], cp_failure = None\<rparr>"
proof -
  have "\<not> blank [65, 86, 83, 66]"
    "contains (casefold sample_unicode [118, 115]) (casefold sample_unicode [65, 86, 83, 66])"
    by (simp_all add: blank_def uspace_def contains_def text_find_def casefold_def
      sample_unicode_def occurs_at_def slice_def upt_rec)
  then show ?thesis
    by (simp add: plan_coverage_def sample_coverage_config_def has_comparison_marker_def
      prefix_slice_def sample_route_candidates_def select_routes_def first_by_route_def
      candidate_document_def candidate_id_def chunk_key_def text_field_def get_def
      finish_plan_def Let_def)
qed

lemma route_coverage_exact_witness:
  "coverage_eligible sample_unicode sample_coverage_config True [65, 86, 83, 66]
     sample_route_candidates [[10], [20]] 3"
proof -
  have "distinct (map candidate_id sample_route_candidates)" by code_simp
  from route_coverage_exact [OF sample_config_loads this sample_coverage_plan] show ?thesis by simp
qed

end
