(* ===== verification/OnlineRouting.thy ===== *)
theory OnlineRouting
  imports StorageModels MilvusIndex RouteCoverage
begin

text \<open>
  The online retriever, \<^verbatim>\<open>backend/retrieval/online.py\<close>: resolution of physical routes from the
  READY versions, the request's embeddings, the search of every route in both backends, the
  revalidation, and the fused answer. A search makes its external calls at moments it does not
  control, some of them concurrently, so the answer of every call is an argument: the two reads
  of the online versions, the route inspectors, the chunk snapshot, the planner, the selector and
  the ladder observer; each backend search runs in a world of its own. Latencies, and the observer
  that only receives them, are not modelled.
\<close>

subsection \<open>Routes\<close>

datatype online_error =
  OnlineScopeForbidden | OnlineVisibilityUnavailable | OnlineValueError | OnlineOverflow

type_synonym route_metadata = "(string \<times> pytext) list"

record route =
  rt_owner_id :: string
  rt_document_id :: string
  rt_document_version_id :: string
  rt_elasticsearch_index :: string
  rt_milvus_collection :: string
  rt_elasticsearch_metadata :: route_metadata
  rt_milvus_metadata :: route_metadata

text \<open>An inspector answers for owner, document and version with the physical name and what it handed
  to the metadata sink, call by call.\<close>

type_synonym route_inspector =
  "string \<Rightarrow> string \<Rightarrow> string \<Rightarrow> unit + string \<times> route_metadata list"

definition verify_physical_route ::
  "route_inspector \<Rightarrow> string \<Rightarrow> string \<Rightarrow> string \<Rightarrow> unit + string \<times> route_metadata"
where
  "verify_physical_route inspector owner doc vid =
     bind_res (inspector owner doc vid) (\<lambda>(name, holder).
     if length holder > 1 then Inl ()
     else Inr (name, case holder of [] \<Rightarrow> [] | metadata # _ \<Rightarrow> sort metadata))"

text \<open>The loop that fills \<open>by_document\<close>.\<close>

fun group_versions ::
  "string \<Rightarrow> version list \<Rightarrow> (string \<times> version) list \<Rightarrow> online_error + (string \<times> version) list"
where
  "group_versions owner [] by_document = Inr by_document"
| "group_versions owner (v # vs) by_document =
     (if ver_owner_id v \<noteq> owner \<or> ver_lifecycle_status v \<noteq> READY \<or> \<not> is_active v \<or>
         map_of by_document (ver_document_id v) \<noteq> None
      then Inl OnlineVisibilityUnavailable
      else group_versions owner vs (by_document @ [(ver_document_id v, v)]))"

fun physical_routes ::
  "route_inspector \<Rightarrow> route_inspector \<Rightarrow> string \<Rightarrow> (string \<times> version) list \<Rightarrow> unit + route list"
where
  "physical_routes es mv owner [] = Inr []"
| "physical_routes es mv owner ((doc, v) # rest) =
     bind_res (verify_physical_route es owner doc (ver_document_version_id v)) (\<lambda>(index, es_meta).
     bind_res (verify_physical_route mv owner doc (ver_document_version_id v)) (\<lambda>(collection, mv_meta).
     bind_res (physical_routes es mv owner rest) (\<lambda>routes.
     Inr (\<lparr>rt_owner_id = owner, rt_document_id = doc,
       rt_document_version_id = ver_document_version_id v, rt_elasticsearch_index = index,
       rt_milvus_collection = collection, rt_elasticsearch_metadata = es_meta,
       rt_milvus_metadata = mv_meta\<rparr> # routes))))"

text \<open>\<open>hooks\<close> tells whether the two hooks return; the second one sees the ordered versions.\<close>

definition routes_of_versions ::
  "route_inspector \<Rightarrow> route_inspector \<Rightarrow> bool \<times> (version list \<Rightarrow> bool) \<Rightarrow> string \<Rightarrow> string list \<Rightarrow>
     (string \<times> version) list \<Rightarrow> online_error + route list"
where
  "routes_of_versions es mv hooks owner requested by_document =
     (if requested \<noteq> [] \<and> set requested \<noteq> set (map fst by_document) then Inl OnlineScopeForbidden
      else
       (let ordered = sort_key fst by_document in
        if ordered = [] then Inr []
        else if \<not> fst hooks then Inl OnlineVisibilityUnavailable
        else if \<not> snd hooks (map snd ordered) then Inl OnlineVisibilityUnavailable
        else or_error OnlineVisibilityUnavailable (physical_routes es mv owner ordered)))"

definition resolve_routes ::
  "unit + version list \<Rightarrow> route_inspector \<Rightarrow> route_inspector \<Rightarrow> bool \<times> (version list \<Rightarrow> bool) \<Rightarrow>
     string \<Rightarrow> string list \<Rightarrow> online_error + route list"
where
  "resolve_routes read es mv hooks owner requested =
     (if \<not> contract_id_ok owner then Inl OnlineScopeForbidden
      else if \<not> distinct requested \<or> list_ex (\<lambda>d. \<not> contract_id_ok d) requested
      then Inl OnlineScopeForbidden
      else
        bind_res (or_error OnlineVisibilityUnavailable read) (\<lambda>versions.
        bind_res (group_versions owner versions [])
          (routes_of_versions es mv hooks owner requested)))"

definition revalidate ::
  "unit + version list \<Rightarrow> string \<Rightarrow> route list \<Rightarrow> online_error + unit"
where
  "revalidate read owner routes =
     bind_res (or_error OnlineVisibilityUnavailable read) (\<lambda>versions.
     let expected = set (map (\<lambda>r. (rt_document_id r, rt_document_version_id r)) routes);
         current = set (map (\<lambda>v. (ver_document_id v, ver_document_version_id v))
           (filter (\<lambda>v. ver_owner_id v = owner \<and> ver_lifecycle_status v = READY \<and> is_active v) versions)) in
     if current \<noteq> expected \<or> card current \<noteq> length versions then Inl OnlineVisibilityUnavailable
     else Inr ())"

subsection \<open>Chunks and scopes\<close>

definition json_id :: "string option \<Rightarrow> json" where
  "json_id m = (case m of None \<Rightarrow> JNull | Some s \<Rightarrow> JStr (ascii s))"

text \<open>\<open>model_dump(mode="json")\<close> of a chunk record, its keys in order.\<close>

definition chunk_json :: "chunk \<Rightarrow> jobject" where
  "chunk_json c =
     [(''chunk_id'', JStr (ascii (ch_chunk_id c))), (''document_id'', JStr (ascii (ch_document_id c))),
      (''embedding_version'', JStr (ascii (ch_embedding_version c))), (''is_active'', JBool (ch_is_active c)),
      (''library_scope_ids'', JList (map (\<lambda>i. JStr (ascii i)) (ch_library_scope_ids c))),
      (''next_chunk_id'', json_id (ch_next_chunk_id c)), (''page_end'', JInt (ch_page_end c)),
      (''page_start'', JInt (ch_page_start c)), (''parent_chunk_id'', json_id (ch_parent_chunk_id c)),
      (''parse_version'', JStr (ascii (ch_parse_version c))),
      (''previous_chunk_id'', json_id (ch_previous_chunk_id c)),
      (''section_path'', JStr (ch_section_path c)), (''tenant_id'', JStr (ascii (ch_tenant_id c))),
      (''text'', JStr (ch_text c)), (''version_id'', JStr (ascii (ch_version_id c))),
      (''visibility'', JStr (ascii (ch_visibility c)))]"

definition stage_chunk :: "jobject \<Rightarrow> jobject" where
  "stage_chunk c = put_field c ''is_active'' (JBool False)"

definition narrow_scope :: "jobject \<Rightarrow> string \<Rightarrow> jobject" where
  "narrow_scope s doc = put_field (put_field (put_field s
     ''document_ids'' (JList [JStr (ascii doc)])) ''library_ids'' (JList [])) ''folder_ids'' (JList [])"

definition of_route :: "route \<Rightarrow> jobject \<Rightarrow> bool" where
  "of_route r c \<longleftrightarrow> get c ''tenant_id'' = Some (JStr (ascii (rt_owner_id r))) \<and>
     get c ''document_id'' = Some (JStr (ascii (rt_document_id r))) \<and>
     get c ''version_id'' = Some (JStr (ascii (rt_document_version_id r)))"

definition route_chunks :: "route \<Rightarrow> jobject list \<Rightarrow> online_error + jobject list" where
  "route_chunks r cs = (let matched = filter (of_route r) cs in
     if matched = [] then Inl OnlineVisibilityUnavailable else Inr matched)"

definition validate_route_ranking :: "route \<Rightarrow> ranked_chunk list \<Rightarrow> bool" where
  "validate_route_ranking r ranking \<longleftrightarrow>
     (case ranking of [] \<Rightarrow> True | c # _ \<Rightarrow> validate_ranking ranking (rk_backend c)) \<and>
     list_all (\<lambda>c. of_route r (rk_chunk c) \<and> get (rk_chunk c) ''is_active'' = Some (JBool True)) ranking"

text \<open>The snapshot check of a search.\<close>

definition snapshot_matches :: "route list \<Rightarrow> jobject list \<Rightarrow> bool" where
  "snapshot_matches routes cs \<longleftrightarrow>
     \<not> (set (map (\<lambda>c. text_field c ''version_id'') cs) \<noteq>
          set (map (\<lambda>r. ascii (rt_document_version_id r)) routes) \<or>
        card (set (map chunk_key cs)) \<noteq> length cs)"

subsection \<open>The request's embeddings\<close>

type_synonym vector_cache = "(pytext \<times> rat option list) list"

text \<open>The lock-protected cache of one request, in front of the provider.\<close>

definition request_embed ::
  "(pytext list \<Rightarrow> unit + rat option list list) \<Rightarrow> vector_cache \<Rightarrow> pytext list \<Rightarrow>
     (unit + rat option list list) \<times> vector_cache"
where
  "request_embed provider cache texts =
     (if texts = [] then (Inr [], cache)
      else
       (let missing = filter (\<lambda>t. map_of cache t = None) (first_occurrences texts) in
        if missing = [] then (Inr (map (\<lambda>t. the (map_of cache t)) texts), cache)
        else case provider missing of
            Inl e \<Rightarrow> (Inl e, cache)
          | Inr vectors \<Rightarrow>
              if length vectors \<noteq> length missing then (Inl (), cache)
              else
               (let stored = cache @ zip missing (takeWhile (\<lambda>v. v \<noteq> []) vectors) in
                if [] \<in> set vectors then (Inl (), stored)
                else (Inr (map (\<lambda>t. the (map_of stored t)) texts), stored))))"

definition embed_single_query ::
  "(pytext list \<Rightarrow> unit + rat option list list) \<Rightarrow> pytext \<Rightarrow> unit + (pytext \<times> rat option list)"
where
  "embed_single_query provider question =
     bind_res (fst (request_embed provider [] [question])) (\<lambda>vectors.
     case vectors of [v] \<Rightarrow> Inr (question, v) | _ \<Rightarrow> Inl ())"

definition shared_from_prewarm ::
  "unit + (pytext \<times> rat option list) \<Rightarrow> pytext \<Rightarrow> unit + vector_cache"
where
  "shared_from_prewarm prewarmed question =
     bind_res prewarmed (\<lambda>(q, v). if q \<noteq> question then Inl () else Inr [(question, v)])"

definition embed_route_queries ::
  "(pytext list \<Rightarrow> unit + rat option list list) \<Rightarrow> (string \<times> pytext) list \<Rightarrow> unit + vector_cache"
where
  "embed_route_queries provider queries =
     (let unique = first_occurrences (map snd queries) in
      bind_res (fst (request_embed provider [] unique)) (\<lambda>vectors.
      if length vectors \<noteq> length unique then Inl () else Inr (zip unique vectors)))"

subsection \<open>The search\<close>

record route_query_plan =
  qp_applied :: bool
  qp_queries :: "(string \<times> pytext) list"

text \<open>The collaborators of a retriever and what they answer during one search.\<close>

record ('v, 'w) online_env =
  oe_candidate_k :: int
  oe_rrf_k :: int
  oe_min_score :: rat
  oe_inspect_elasticsearch :: route_inspector
  oe_inspect_milvus :: route_inspector
  oe_hooks :: "bool \<times> (version list \<Rightarrow> bool)"
  oe_snapshots :: "string \<Rightarrow> string list \<Rightarrow> unit + chunk list"
  oe_embed :: "pytext list \<Rightarrow> unit + rat option list list"
  oe_es_env :: es_env
  oe_es_send :: "'v es_transport"
  oe_es_world :: "route \<Rightarrow> 'v"
  oe_mv_env :: milvus_env
  oe_mv_send :: "'w milvus_transport"
  oe_mv_world :: "route \<Rightarrow> 'w"
  oe_mv_provider :: "'w embedding_provider"
  oe_planner :: "(pytext \<Rightarrow> string list \<Rightarrow> unit + route_query_plan) option"
  oe_selector :: "(pytext \<Rightarrow> ranked_chunk list \<Rightarrow> pytext list \<Rightarrow> int \<Rightarrow> unit + coverage_plan) option"
  oe_ladder :: "(route list \<Rightarrow> ranked_chunk list list \<Rightarrow> ranked_chunk list \<Rightarrow> ranked_chunk list \<Rightarrow> bool) option"

definition online_env_ok :: "('v, 'w) online_env \<Rightarrow> bool" where
  "online_env_ok E \<longleftrightarrow> \<not> (oe_candidate_k E < 1 \<or> oe_rrf_k E < 1) \<and>
     - 1 \<le> oe_min_score E \<and> oe_min_score E \<le> 1"

text \<open>An applied plan replaces the queries only when it has a query for every route and no other;
  whatever goes wrong keeps the original question.\<close>

definition route_queries :: "('v, 'w) online_env \<Rightarrow> pytext \<Rightarrow> route list \<Rightarrow> (string \<times> pytext) list" where
  "route_queries E question routes =
     (let original = map (\<lambda>r. (rt_document_id r, question)) routes in
      case oe_planner E of
        None \<Rightarrow> original
      | Some plan \<Rightarrow>
          (case plan question (map rt_document_id routes) of
             Inl _ \<Rightarrow> original
           | Inr query_plan \<Rightarrow>
               if qp_applied query_plan \<and>
                  set (map fst (qp_queries query_plan)) = set (map rt_document_id routes) \<and>
                  list_all (\<lambda>(_, q). \<not> blank q) (qp_queries query_plan)
               then qp_queries query_plan else original))"

definition query_vectors ::
  "('v, 'w) online_env \<Rightarrow> pytext \<Rightarrow> (string \<times> pytext) list \<Rightarrow> unit + vector_cache"
where
  "query_vectors E question queries =
     (if oe_planner E = None \<and> list_all (\<lambda>(_, q). q = question) queries
      then shared_from_prewarm (embed_single_query (oe_embed E) question) question
      else embed_route_queries (oe_embed E) queries)"

definition verified_of :: "route_metadata \<Rightarrow> (string \<times> pytext) list option" where
  "verified_of metadata = (if metadata = [] then None else Some metadata)"

definition lexical_route ::
  "('v, 'w) online_env \<Rightarrow> route \<Rightarrow> pytext \<Rightarrow> jobject \<Rightarrow> jobject list \<Rightarrow> es_error + ranked_chunk list"
where
  "lexical_route E r question s expected =
     (if \<not> index_name_ok (rt_elasticsearch_index r) then Inl EsValueError
      else fst (es_search (oe_es_env E) (oe_es_send E) (rt_elasticsearch_index r) (oe_candidate_k E)
        (Some expected) (Some (map stage_chunk expected)) (verified_of (rt_elasticsearch_metadata r))
        question s (oe_es_world E r)))"

definition vector_route ::
  "('v, 'w) online_env \<Rightarrow> route \<Rightarrow> pytext \<Rightarrow> jobject \<Rightarrow> jobject list \<Rightarrow> vector_cache \<Rightarrow>
     milvus_error + ranked_chunk list"
where
  "vector_route E r question s expected vectors =
     (if \<not> collection_name_ok (rt_milvus_collection r) then Inl MilvusValueError
      else case map_of vectors question of
          None \<Rightarrow> Inl MilvusValueError
        | Some v \<Rightarrow> fst (milvus_search (oe_mv_env E) (oe_mv_send E) (rt_milvus_collection r)
            (oe_mv_provider E) (oe_candidate_k E) (oe_min_score E) (Some expected)
            (Some (map stage_chunk expected)) (Some v) (verified_of (rt_milvus_metadata r)) question s
            (oe_mv_world E r)))"

text \<open>One route: its chunks, its narrowed scope, its two rankings.\<close>

definition search_route ::
  "('v, 'w) online_env \<Rightarrow> jobject \<Rightarrow> jobject list \<Rightarrow> (string \<times> pytext) list \<Rightarrow> vector_cache \<Rightarrow> route \<Rightarrow>
     online_error + ranked_chunk list list"
where
  "search_route E s cs queries vectors r =
     bind_res (route_chunks r cs) (\<lambda>expected.
     bind_res (of_option OnlineVisibilityUnavailable (map_of queries (rt_document_id r))) (\<lambda>question.
     let route_scope = narrow_scope s (rt_document_id r) in
     bind_res (or_error OnlineVisibilityUnavailable (lexical_route E r question route_scope expected)) (\<lambda>lexical.
     bind_res (or_error OnlineVisibilityUnavailable
       (vector_route E r question route_scope expected vectors)) (\<lambda>vector.
     if \<not> validate_route_ranking r lexical then Inl OnlineVisibilityUnavailable
     else if \<not> validate_route_ranking r vector then Inl OnlineVisibilityUnavailable
     else Inr [lexical, vector]))))"

fun search_routes ::
  "('v, 'w) online_env \<Rightarrow> jobject \<Rightarrow> jobject list \<Rightarrow> (string \<times> pytext) list \<Rightarrow> vector_cache \<Rightarrow> route list \<Rightarrow>
     online_error + ranked_chunk list list"
where
  "search_routes E s cs queries vectors [] = Inr []"
| "search_routes E s cs queries vectors (r # rs) =
     bind_res (search_route E s cs queries vectors r) (\<lambda>rankings.
     bind_res (search_routes E s cs queries vectors rs) (\<lambda>rest. Inr (rankings @ rest)))"

text \<open>The protected part of a search: the snapshot, the rankings of all routes, the second read.\<close>

definition retrieve_rankings ::
  "('v, 'w) online_env \<Rightarrow> unit + version list \<Rightarrow> pytext \<Rightarrow> jobject \<Rightarrow> string \<Rightarrow> route list \<Rightarrow>
     online_error + ranked_chunk list list"
where
  "retrieve_rankings E second_read question s owner routes =
     bind_res (or_error OnlineVisibilityUnavailable
       (oe_snapshots E owner (map rt_document_version_id routes))) (\<lambda>loaded.
     let cs = map chunk_json loaded; queries = route_queries E question routes in
     if \<not> snapshot_matches routes cs then Inl OnlineVisibilityUnavailable
     else
       bind_res
         (if routes = [] then Inr []
          else bind_res (or_error OnlineVisibilityUnavailable (query_vectors E question queries))
            (\<lambda>vectors. search_routes E s cs queries vectors routes)) (\<lambda>rankings.
       bind_res (revalidate second_read owner routes) (\<lambda>_. Inr rankings)))"

definition online_fusion_error :: "fusion_error \<Rightarrow> online_error" where
  "online_fusion_error e = (case e of BackendsDisagree \<Rightarrow> OnlineVisibilityUnavailable
     | FusionValueError \<Rightarrow> OnlineValueError | FusionOverflow \<Rightarrow> OnlineOverflow)"

definition final_candidates ::
  "('v, 'w) online_env \<Rightarrow> pytext \<Rightarrow> route list \<Rightarrow> ranked_chunk list \<Rightarrow> int \<Rightarrow> ranked_chunk list"
where
  "final_candidates E question routes fused top_k =
     (case oe_selector E of
        None \<Rightarrow> take (nat top_k) fused
      | Some select \<Rightarrow>
          (case select question fused (map (\<lambda>r. ascii (rt_document_id r)) routes) top_k of
             Inl _ \<Rightarrow> take (nat top_k) fused
           | Inr plan \<Rightarrow>
               if cp_status plan = Applied
               then (case apply_selection fused (cp_selected plan) top_k of
                   Inl _ \<Rightarrow> take (nat top_k) fused
                 | Inr selected \<Rightarrow> selected)
               else take (nat top_k) fused))"

definition answer_rankings ::
  "('v, 'w) online_env \<Rightarrow> pytext \<Rightarrow> route list \<Rightarrow> ranked_chunk list list \<Rightarrow> int \<Rightarrow>
     online_error + ranked_chunk list"
where
  "answer_rankings E question routes rankings top_k =
     (case fuse (oe_rrf_k E) rankings
         (if oe_selector E \<noteq> None \<or> oe_ladder E \<noteq> None then None else Some (nat top_k)) of
        Inl e \<Rightarrow> Inl (online_fusion_error e)
      | Inr fused \<Rightarrow>
          let final = final_candidates E question routes fused top_k in
          if (case oe_ladder E of None \<Rightarrow> True | Some observe \<Rightarrow> observe routes rankings fused final)
          then Inr final else Inl OnlineVisibilityUnavailable)"

definition online_search ::
  "('v, 'w) online_env \<Rightarrow> unit + version list \<Rightarrow> unit + version list \<Rightarrow> pytext \<Rightarrow> jobject \<Rightarrow> string \<Rightarrow>
     string list \<Rightarrow> int \<Rightarrow> online_error + ranked_chunk list"
where
  "online_search E first_read second_read question s owner document_ids top_k =
     (if blank question \<or> top_k < 1 then Inl OnlineValueError
      else if get s ''tenant_id'' \<noteq> Some (JStr (ascii owner)) \<or> get s ''user_id'' \<noteq> Some (JStr (ascii owner))
      then Inl OnlineScopeForbidden
      else
        bind_res (resolve_routes first_read (oe_inspect_elasticsearch E) (oe_inspect_milvus E) (oe_hooks E)
          owner document_ids) (\<lambda>routes.
        bind_res (retrieve_rankings E second_read question s owner routes) (\<lambda>rankings.
        answer_rankings E question routes rankings top_k)))"

definition online_retrieve ::
  "('v, 'w) online_env \<Rightarrow> unit + version list \<Rightarrow> unit + version list \<Rightarrow> pytext \<Rightarrow> jobject \<Rightarrow> string \<Rightarrow>
     string list \<Rightarrow> int \<Rightarrow> online_error + jobject list"
where
  "online_retrieve E first_read second_read question s owner document_ids top_k =
     bind_res (online_search E first_read second_read question s owner document_ids top_k)
       (\<lambda>ranking. Inr (chunks_only ranking))"

subsection \<open>Scopes of routes\<close>

lemma narrow_scope_narrowed: "doc \<noteq> [] \<Longrightarrow> narrowed s (ascii doc) (narrow_scope s doc)"
  by (simp add: narrowed_def narrow_scope_def get_put_field)

lemma narrow_scope_tenant: "get (narrow_scope s doc) ''tenant_id'' = get s ''tenant_id''"
  by (simp add: narrow_scope_def get_put_field)

subsection \<open>What the stages establish\<close>

lemma group_versions_Cons:
  assumes "group_versions owner (v # vs) acc = Inr by_document"
  shows "ver_owner_id v = owner" and "ver_lifecycle_status v = READY" and "is_active v"
    and "ver_document_id v \<notin> set (map fst acc)"
    and "group_versions owner vs (acc @ [(ver_document_id v, v)]) = Inr by_document"
proof -
  have "\<not> (ver_owner_id v \<noteq> owner \<or> ver_lifecycle_status v \<noteq> READY \<or> \<not> is_active v \<or>
      map_of acc (ver_document_id v) \<noteq> None)" using assms by (simp split: if_splits)
  then show "ver_owner_id v = owner" "ver_lifecycle_status v = READY" "is_active v"
    "ver_document_id v \<notin> set (map fst acc)"
    "group_versions owner vs (acc @ [(ver_document_id v, v)]) = Inr by_document"
    using assms by (simp_all add: map_of_eq_None_iff)
qed

lemma group_versions_Inr:
  "group_versions owner vs acc = Inr by_document \<Longrightarrow>
     by_document = acc @ map (\<lambda>v. (ver_document_id v, v)) vs \<and>
     (\<forall>v \<in> set vs. ver_owner_id v = owner \<and> ver_lifecycle_status v = READY \<and> is_active v)"
proof (induction vs arbitrary: acc)
  case (Cons v vs)
  note c = group_versions_Cons [OF Cons.prems]
  from Cons.IH [OF c(5)] c(1-3) show ?case by simp
qed simp

lemma group_versions_distinct:
  "group_versions owner vs acc = Inr by_document \<Longrightarrow> distinct (map fst acc) \<Longrightarrow> distinct (map fst by_document)"
proof (induction vs arbitrary: acc)
  case (Cons v vs)
  note c = group_versions_Cons [OF Cons.prems(1)]
  from c(4) Cons.prems(2) show ?case by (intro Cons.IH [OF c(5)]) simp
qed simp

text \<open>The route a READY version was resolved to.\<close>

definition route_of :: "string \<Rightarrow> string \<times> version \<Rightarrow> route \<Rightarrow> bool" where
  "route_of owner p r \<longleftrightarrow> rt_owner_id r = owner \<and> rt_document_id r = fst p \<and>
     rt_document_version_id r = ver_document_version_id (snd p)"

lemma physical_routes_Inr:
  "physical_routes es mv owner ps = Inr routes \<Longrightarrow> list_all2 (route_of owner) ps routes"
proof (induction ps arbitrary: routes)
  case (Cons p ps)
  obtain doc v where p: "p = (doc, v)" by (cases p)
  from Cons.prems obtain r rs where "routes = r # rs" "route_of owner p r"
    "physical_routes es mv owner ps = Inr rs"
    unfolding p by (auto simp only: physical_routes.simps bind_res_Inr_iff split_paired_Ex prod.case
        sum.inject route_of_def fst_conv snd_conv route.simps)
  with Cons.IH show ?case by simp
qed simp

lemma resolve_routes_Inr:
  assumes "resolve_routes read es mv hooks owner requested = Inr routes"
  obtains vs where "read = Inr vs"
    and "\<forall>v \<in> set vs. ver_owner_id v = owner \<and> ver_lifecycle_status v = READY \<and> is_active v"
    and "distinct (map ver_document_id vs)"
    and "(\<lambda>r. (rt_document_id r, rt_document_version_id r)) ` set routes =
      (\<lambda>v. (ver_document_id v, ver_document_version_id v)) ` set vs"
    and "\<forall>r \<in> set routes. rt_owner_id r = owner" and "sorted (map rt_document_id routes)"
    and "distinct (map rt_document_id routes)"
    and "requested \<noteq> [] \<Longrightarrow> set (map rt_document_id routes) = set requested"
    and "contract_id_ok owner" and "list_all contract_id_ok requested"
proof -
  have valid: "contract_id_ok owner" "list_all contract_id_ok requested"
    and rest: "bind_res (or_error OnlineVisibilityUnavailable read) (\<lambda>versions.
        bind_res (group_versions owner versions []) (routes_of_versions es mv hooks owner requested)) = Inr routes"
    using assms
    by (auto simp only: resolve_routes_def list_ex_iff list_all_iff sum.distinct split: if_splits)
  from rest obtain vs by_document where vs: "read = Inr vs"
    "group_versions owner vs [] = Inr by_document"
    and result: "routes_of_versions es mv hooks owner requested by_document = Inr routes"
    unfolding bind_res_Inr_iff or_error_Inr by blast
  have requested: "requested = [] \<or> set requested = set (map fst by_document)"
    using result by (auto simp only: routes_of_versions_def sum.distinct split: if_splits)
  have routes: "sort_key fst by_document = [] \<and> routes = [] \<or>
      physical_routes es mv owner (sort_key fst by_document) = Inr routes"
    using result
    by (auto simp only: routes_of_versions_def Let_def sum.distinct or_error_Inr sum.inject split: if_splits)
  note g = group_versions_Inr [OF vs(2)]
  have all2: "list_all2 (route_of owner) (sort_key fst by_document) routes"
    using routes physical_routes_Inr by auto
  have docs: "map rt_document_id routes = map fst (sort_key fst by_document)"
    using all2 by (induction rule: list_all2_induct) (simp_all add: route_of_def)
  have pairs: "map (\<lambda>r. (rt_document_id r, rt_document_version_id r)) routes =
      map (\<lambda>p. (fst p, ver_document_version_id (snd p))) (sort_key fst by_document)"
    using all2 by (induction rule: list_all2_induct) (simp_all add: route_of_def)
  have "(\<lambda>r. (rt_document_id r, rt_document_version_id r)) ` set routes =
      (\<lambda>p. (fst p, ver_document_version_id (snd p))) ` set by_document"
    using arg_cong [OF pairs, of set] by (simp only: set_map set_sort)
  also have "\<dots> = (\<lambda>v. (ver_document_id v, ver_document_version_id v)) ` set vs"
    using g by (auto simp: image_image)
  finally have ids: "(\<lambda>r. (rt_document_id r, rt_document_version_id r)) ` set routes =
      (\<lambda>v. (ver_document_id v, ver_document_version_id v)) ` set vs" .
  have owners: "\<forall>r \<in> set routes. rt_owner_id r = owner"
    using all2 by (auto simp: list_all2_conv_all_nth route_of_def in_set_conv_nth)
  have dist: "distinct (map fst by_document)" using group_versions_distinct [OF vs(2)] by simp
  then have "distinct (map ver_document_id vs)" using g by (simp add: comp_def)
  moreover have "distinct (map rt_document_id routes)"
    unfolding docs using dist by (simp add: distinct_map)
  moreover have "sorted (map rt_document_id routes)" unfolding docs by (rule sorted_sort_key)
  moreover have "set (map rt_document_id routes) = set requested" if "requested \<noteq> []"
    using requested that unfolding docs by simp
  moreover have "\<forall>v \<in> set vs. ver_owner_id v = owner \<and> ver_lifecycle_status v = READY \<and> is_active v"
    using g by blast
  ultimately show thesis using that [OF vs(1)] valid ids owners by blast
qed

lemma revalidate_Inr:
  assumes "revalidate read owner routes = Inr u"
  obtains vs where "read = Inr vs"
    and "\<forall>v \<in> set vs. ver_owner_id v = owner \<and> ver_lifecycle_status v = READY \<and> is_active v"
    and "(\<lambda>r. (rt_document_id r, rt_document_version_id r)) ` set routes =
      (\<lambda>v. (ver_document_id v, ver_document_version_id v)) ` set vs"
proof -
  let ?id = "\<lambda>v. (ver_document_id v, ver_document_version_id v)"
  let ?ok = "\<lambda>v. ver_owner_id v = owner \<and> ver_lifecycle_status v = READY \<and> is_active v"
  let ?current = "\<lambda>vs. set (map ?id (filter ?ok vs))"
  let ?expected = "set (map (\<lambda>r. (rt_document_id r, rt_document_version_id r)) routes)"
  from assms obtain vs where r: "read = Inr vs"
    and "(if ?current vs \<noteq> ?expected \<or> card (?current vs) \<noteq> length vs
      then Inl OnlineVisibilityUnavailable else Inr ()) = Inr u"
    unfolding revalidate_def Let_def bind_res_Inr_iff or_error_Inr by blast
  then have vs: "read = Inr vs" "?current vs = ?expected" "card (?current vs) = length vs"
    by (auto simp only: sum.distinct de_Morgan_disj not_not split: if_splits)
  have "length vs \<le> length (filter ?ok vs)"
    using vs(3) card_length [of "map ?id (filter ?ok vs)"] by (simp only: length_map)
  then have "length (filter ?ok vs) = length vs" by (simp only: le_antisym length_filter_le)
  have ok: "\<forall>v \<in> set vs. ?ok v"
  proof (rule ballI, rule ccontr)
    fix v assume "v \<in> set vs" "\<not> ?ok v"
    then have "length (filter ?ok vs) < length vs" by (rule length_filter_less)
    with \<open>length (filter ?ok vs) = length vs\<close> show False by simp
  qed
  then have "filter ?ok vs = vs" by (simp only: filter_id_conv)
  then show thesis using that [OF vs(1) ok] vs(2) by (simp only: set_map)
qed

text \<open>A candidate of a route: it has the route's identity, is active, and the route's narrowed scope
  authorizes it.\<close>

definition candidate_ok :: "jobject \<Rightarrow> route \<Rightarrow> ranked_chunk \<Rightarrow> bool" where
  "candidate_ok s r c \<longleftrightarrow> of_route r (rk_chunk c) \<and>
     get (rk_chunk c) ''is_active'' = Some (JBool True) \<and>
     is_chunk_authorized (rk_chunk c) (narrow_scope s (rt_document_id r))"

lemma lexical_route_Inr:
  assumes "lexical_route E r q s expected = Inr ranking"
  shows "source_ok ranking" and "c \<in> set ranking \<Longrightarrow> is_chunk_authorized (rk_chunk c) s"
proof -
  have "fst (es_search (oe_es_env E) (oe_es_send E) (rt_elasticsearch_index r) (oe_candidate_k E)
        (Some expected) (Some (map stage_chunk expected)) (verified_of (rt_elasticsearch_metadata r))
        q s (oe_es_world E r)) = Inr ranking"
    using assms by (simp add: lexical_route_def split: if_splits)
  then show "source_ok ranking" "c \<in> set ranking \<Longrightarrow> is_chunk_authorized (rk_chunk c) s"
    by (rule es_index.search_source, rule es_index.search_authorized)
qed

lemma vector_route_Inr:
  assumes "vector_route E r q s expected vectors = Inr ranking"
  shows "source_ok ranking" and "c \<in> set ranking \<Longrightarrow> is_chunk_authorized (rk_chunk c) s"
proof -
  from assms obtain v where "fst (milvus_search (oe_mv_env E) (oe_mv_send E) (rt_milvus_collection r)
            (oe_mv_provider E) (oe_candidate_k E) (oe_min_score E) (Some expected)
            (Some (map stage_chunk expected)) (Some v) (verified_of (rt_milvus_metadata r)) q s
            (oe_mv_world E r)) = Inr ranking"
    by (auto simp: vector_route_def split: if_splits option.splits)
  then show "source_ok ranking" "c \<in> set ranking \<Longrightarrow> is_chunk_authorized (rk_chunk c) s"
    by (rule milvus_index.search_source, rule milvus_index.search_authorized)
qed

lemma search_route_Inr:
  assumes "search_route E s cs queries vectors r = Inr rankings" and "ranking \<in> set rankings"
  shows "source_ok ranking" and "\<forall>c \<in> set ranking. candidate_ok s r c"
proof -
  from assms(1) obtain expected q lexical vector where
    l: "lexical_route E r q (narrow_scope s (rt_document_id r)) expected = Inr lexical" and
    v: "vector_route E r q (narrow_scope s (rt_document_id r)) expected vectors = Inr vector" and
    ok: "validate_route_ranking r lexical" "validate_route_ranking r vector" "rankings = [lexical, vector]"
    unfolding search_route_def Let_def bind_res_Inr_iff or_error_Inr by (auto split: if_splits)
  show "source_ok ranking"
    using assms(2) ok(3) lexical_route_Inr(1) [OF l] vector_route_Inr(1) [OF v] by auto
  show "\<forall>c \<in> set ranking. candidate_ok s r c"
    using assms(2) ok lexical_route_Inr(2) [OF l] vector_route_Inr(2) [OF v]
    by (auto simp: candidate_ok_def validate_route_ranking_def list_all_iff)
qed

lemma search_routes_Inr:
  "search_routes E s cs queries vectors routes = Inr rankings \<Longrightarrow> ranking \<in> set rankings \<Longrightarrow>
     source_ok ranking \<and> (\<exists>r \<in> set routes. \<forall>c \<in> set ranking. candidate_ok s r c)"
proof (induction routes arbitrary: rankings)
  case (Cons r routes)
  then obtain first rest where parts: "search_route E s cs queries vectors r = Inr first"
    "search_routes E s cs queries vectors routes = Inr rest" "rankings = first @ rest"
    by (auto simp: bind_res_Inr_iff)
  show ?case
  proof (cases "ranking \<in> set first")
    case True
    with search_route_Inr [OF parts(1)] show ?thesis by simp
  next
    case False
    with Cons.IH [OF parts(2)] Cons.prems(2) parts(3) show ?thesis by auto
  qed
qed simp

lemma retrieve_rankings_Inr:
  assumes "retrieve_rankings E second_read question s owner routes = Inr rankings"
  shows "revalidate second_read owner routes = Inr ()"
    and "ranking \<in> set rankings \<Longrightarrow> source_ok ranking \<and> (\<exists>r \<in> set routes. \<forall>c \<in> set ranking. candidate_ok s r c)"
proof -
  from assms obtain vectors cs queries where
    r: "rankings = [] \<or> search_routes E s cs queries vectors routes = Inr rankings"
      "revalidate second_read owner routes = Inr ()"
    unfolding retrieve_rankings_def Let_def bind_res_Inr_iff or_error_Inr
    by (auto simp: bind_res_Inr_iff split: if_splits)
  then show "revalidate second_read owner routes = Inr ()"
    "ranking \<in> set rankings \<Longrightarrow> source_ok ranking \<and> (\<exists>r \<in> set routes. \<forall>c \<in> set ranking. candidate_ok s r c)"
    using search_routes_Inr by fastforce+
qed

subsection \<open>The answer\<close>

lemma fuse_chunk:
  assumes "fuse k rankings bound = Inr out"
  shows "validate_ranking out online_retrieval_backend"
    and "r \<in> set out \<Longrightarrow> \<exists>ranking \<in> set rankings. \<exists>c \<in> set ranking. rk_chunk r = rk_chunk c"
    and "length out \<le> (case bound of None \<Rightarrow> length out | Some n \<Rightarrow> n)"
proof -
  obtain es where es: "tallied k (concat (map ranked_pairs rankings)) es"
    "ranked_entries online_retrieval_backend 1 (kept bound es) = Inr out"
    "validate_ranking out online_retrieval_backend"
    using fuse_parts [OF assms] unfolding kept_eq by metis
  show "validate_ranking out online_retrieval_backend" by (rule es(3))
  show "length out \<le> (case bound of None \<Rightarrow> length out | Some n \<Rightarrow> n)"
    using fused_length [OF es(2)] by (simp add: kept_def split: option.splits)
  assume r: "r \<in> set out"
  have "rk_chunk r \<in> set (map en_chunk (kept bound es))"
    using r ranked_entries_Inr [OF es(2)] by (metis image_eqI set_map)
  then obtain e where "e \<in> set es" "rk_chunk r = en_chunk e" using set_kept [of bound es] by auto
  then have "rk_chunk r \<in> snd ` set (concat (map ranked_pairs rankings))"
    using es(1) by (auto simp: tallied_def entry_ok_def)
  then show "\<exists>ranking \<in> set rankings. \<exists>c \<in> set ranking. rk_chunk r = rk_chunk c"
    unfolding ranked_pairs_def by (auto simp del: set_concat simp: set_concat) blast
qed

lemma apply_selection_Inr:
  assumes "apply_selection cs ids k = Inr out"
  shows "validate_ranking out online_retrieval_backend" and "int (length out) = k"
    and "r \<in> set out \<Longrightarrow> \<exists>c \<in> set cs. rk_chunk r = rk_chunk c"
proof -
  let ?m = "map_of (rev (map (\<lambda>r. (chunk_key (rk_chunk r), r)) cs))"
  let ?es = "map (\<lambda>i. \<lparr>en_id = i, en_chunk = rk_chunk (the (?m i)), en_score = rk_score (the (?m i)),
    en_best = 0\<rparr>) ids"
  have known: "\<forall>i \<in> set ids. ?m i \<noteq> None" and k: "int (length ids) = k"
    and "bind_res (ranked_entries online_retrieval_backend 1 ?es) (validated online_retrieval_backend) = Inr out"
    using assms by (auto simp only: apply_selection_def Let_def sum.distinct split: if_splits)
  then have e: "ranked_entries online_retrieval_backend 1 ?es = Inr out"
    and valid: "validate_ranking out online_retrieval_backend"
    unfolding bind_res_Inr_iff validated_def by (auto simp only: sum.distinct sum.inject split: if_splits)
  show "validate_ranking out online_retrieval_backend" by (rule valid)
  show "int (length out) = k" using k fused_length [OF e] by simp
  assume "r \<in> set out"
  then have "rk_chunk r \<in> set (map rk_chunk out)" by simp
  also have "map rk_chunk out = map en_chunk ?es" by (rule ranked_entries_Inr [OF e, THEN conjunct1])
  finally obtain i where i: "i \<in> set ids" "rk_chunk r = rk_chunk (the (?m i))"
    by (auto simp only: set_map image_iff entry.simps)
  then obtain c where c: "?m i = Some c" using known by blast
  have "c \<in> set cs" using map_of_SomeD [OF c] by auto
  then show "\<exists>c \<in> set cs. rk_chunk r = rk_chunk c" using i(2) unfolding c option.sel by blast
qed

lemma final_candidates_chunk:
  assumes "validate_ranking fused online_retrieval_backend" and "1 \<le> top_k"
  shows "validate_ranking (final_candidates E q routes fused top_k) online_retrieval_backend"
    and "int (length (final_candidates E q routes fused top_k)) \<le> top_k"
    and "c \<in> set (final_candidates E q routes fused top_k) \<Longrightarrow> \<exists>d \<in> set fused. rk_chunk c = rk_chunk d"
proof -
  let ?out = "final_candidates E q routes fused top_k"
  have "?out = take (nat top_k) fused \<or>
      (\<exists>ids. apply_selection fused ids top_k = Inr ?out)"
    by (auto simp: final_candidates_def split: option.splits sum.splits)
  moreover have "validate_ranking (take n fused) online_retrieval_backend" for n
  proof -
    have ranks: "map rk_rank fused = [1..int (length fused)]"
      "distinct (map (\<lambda>r. chunk_key (rk_chunk r)) fused)" "\<forall>r \<in> set fused. rk_backend r = online_retrieval_backend"
      using assms(1) by (auto simp: validate_ranking_def split: if_splits)
    have "map rk_rank (take n fused) = take n [1..int (length fused)]"
      by (simp only: ranks(1) flip: take_map)
    also have "\<dots> = [1..int (length (take n fused))]"
      by (rule nth_equalityI) (auto simp: nth_upto)
    finally show ?thesis
      using ranks(3) distinct_take [OF ranks(2), of n]
      by (auto simp: validate_ranking_def take_map dest: in_set_takeD)
  qed
  ultimately show "validate_ranking ?out online_retrieval_backend" "int (length ?out) \<le> top_k"
    "c \<in> set ?out \<Longrightarrow> \<exists>d \<in> set fused. rk_chunk c = rk_chunk d"
    using assms(2) apply_selection_Inr by (metis, fastforce, metis in_set_takeD)
qed

text \<open>What a search that returns has established: the versions of the second read are the routes, and
  every candidate of the answer comes from one of them.\<close>

lemma online_search_Inr:
  assumes "online_search E first_read second_read q s owner docs top_k = Inr out"
  obtains vs where "second_read = Inr vs"
    and "\<forall>v \<in> set vs. ver_owner_id v = owner \<and> ver_lifecycle_status v = READY \<and> is_active v"
    and "\<forall>c \<in> set out. \<exists>v \<in> set vs. \<exists>r. rt_owner_id r = owner \<and> rt_document_id r = ver_document_id v \<and>
      rt_document_version_id r = ver_document_version_id v \<and> candidate_ok s r c \<and>
      (docs \<noteq> [] \<longrightarrow> ver_document_id v \<in> set docs)"
    and "validate_ranking out online_retrieval_backend" and "int (length out) \<le> top_k"
proof -
  have top: "1 \<le> top_k" using assms by (auto simp only: online_search_def sum.distinct split: if_splits)
  from assms obtain routes rankings where
    routes: "resolve_routes first_read (oe_inspect_elasticsearch E) (oe_inspect_milvus E) (oe_hooks E)
      owner docs = Inr routes" and
    rankings: "retrieve_rankings E second_read q s owner routes = Inr rankings" and
    answer: "answer_rankings E q routes rankings top_k = Inr out"
    by (auto simp only: online_search_def bind_res_Inr_iff sum.distinct split: if_splits)
  from answer obtain fused bound where fused: "fuse (oe_rrf_k E) rankings bound = Inr fused"
    "out = final_candidates E q routes fused top_k"
    by (auto simp only: answer_rankings_def Let_def sum.distinct sum.inject split: sum.splits if_splits)
  note f = fuse_chunk [OF fused(1)]
  note final = final_candidates_chunk [where E = E and q = q and routes = routes, OF f(1) top, folded fused(2)]
  obtain vs where vs: "second_read = Inr vs"
    "\<forall>v \<in> set vs. ver_owner_id v = owner \<and> ver_lifecycle_status v = READY \<and> is_active v"
    "(\<lambda>r. (rt_document_id r, rt_document_version_id r)) ` set routes =
      (\<lambda>v. (ver_document_id v, ver_document_version_id v)) ` set vs"
    by (rule revalidate_Inr [OF retrieve_rankings_Inr(1) [OF rankings]])
  have owners: "\<forall>r \<in> set routes. rt_owner_id r = owner" by (rule resolve_routes_Inr [OF routes])
  have requested: "docs \<noteq> [] \<Longrightarrow> set (map rt_document_id routes) = set docs"
    by (rule resolve_routes_Inr [OF routes], blast)
  have "\<exists>v \<in> set vs. \<exists>r. rt_owner_id r = owner \<and> rt_document_id r = ver_document_id v \<and>
      rt_document_version_id r = ver_document_version_id v \<and> candidate_ok s r c \<and>
      (docs \<noteq> [] \<longrightarrow> ver_document_id v \<in> set docs)" if c: "c \<in> set out" for c
  proof -
    obtain ranking d where d: "ranking \<in> set rankings" "d \<in> set ranking" "rk_chunk c = rk_chunk d"
      using final(3) [OF c] f(2) by metis
    then obtain r where r: "r \<in> set routes" "candidate_ok s r d"
      using retrieve_rankings_Inr(2) [OF rankings d(1)] by blast
    then have "(rt_document_id r, rt_document_version_id r) \<in>
        (\<lambda>v. (ver_document_id v, ver_document_version_id v)) ` set vs"
      unfolding vs(3) [symmetric] by (rule_tac imageI)
    then obtain v where v: "v \<in> set vs" "rt_document_id r = ver_document_id v"
      "rt_document_version_id r = ver_document_version_id v" by auto
    moreover have "candidate_ok s r c" using r(2) d(3) by (simp add: candidate_ok_def)
    moreover have "docs \<noteq> [] \<longrightarrow> ver_document_id v \<in> set docs"
      using requested r(1) v(2) by (metis image_eqI set_map)
    ultimately show ?thesis using owners r(1) by blast
  qed
  then show thesis using that [OF vs(1,2)] final(1,2) by blast
qed

subsection \<open>Sample\<close>

definition sample_online_chunk :: chunk where
  "sample_online_chunk = \<lparr>ch_chunk_id = ''chunk1'', ch_document_id = ''doc1'', ch_version_id = ''v_ready'',
     ch_text = [97, 98], ch_section_path = [97], ch_page_start = 1, ch_page_end = 2,
     ch_parent_chunk_id = None, ch_previous_chunk_id = None, ch_next_chunk_id = None,
     ch_tenant_id = ''alice'', ch_visibility = ''private'', ch_library_scope_ids = [],
     ch_parse_version = ''parse1'', ch_embedding_version = ''embed1'', ch_is_active = True\<rparr>"

definition sample_metadata :: route_metadata where
  "sample_metadata = [(''chunk_count'', [49]), (''embedding_dimension'', [49]), (''source_chunks_sha256'', [1])]"

definition sample_es_send :: "unit es_transport" where
  "sample_es_send request w = (Inr [(''hits'', JObj [(''hits'', JList
     [JObj [(''_score'', JInt 2), (''_source'', JObj (chunk_json sample_online_chunk))]])])], w)"

definition sample_milvus_send :: "unit milvus_transport" where
  "sample_milvus_send request w = (Inr (JList [JList []]), w)"

text \<open>One document, one chunk, found by Elasticsearch only.\<close>

definition sample_online_env :: "(unit, unit) online_env" where
  "sample_online_env = \<lparr>oe_candidate_k = 3, oe_rrf_k = 1, oe_min_score = 0,
     oe_inspect_elasticsearch = (\<lambda>_ _ _. Inr (''index1'', [sample_metadata])),
     oe_inspect_milvus = (\<lambda>_ _ _. Inr (''collection1'', [sample_metadata])),
     oe_hooks = (True, \<lambda>_. True), oe_snapshots = (\<lambda>_ _. Inr [sample_online_chunk]),
     oe_embed = (\<lambda>ts. Inr (map (\<lambda>_. [Some 1]) ts)),
     oe_es_env = \<lparr>es_fingerprint = (\<lambda>_. [1]), es_str = (\<lambda>_. [])\<rparr>, oe_es_send = sample_es_send,
     oe_es_world = (\<lambda>_. ()),
     oe_mv_env = \<lparr>mv_fingerprint = (\<lambda>_. [1]), mv_str = (\<lambda>_. []), mv_loads = (\<lambda>_. None),
       mv_dumps = (\<lambda>_. []), mv_sqrt = (\<lambda>x. x)\<rparr>,
     oe_mv_send = sample_milvus_send, oe_mv_world = (\<lambda>_. ()),
     oe_mv_provider = \<lparr>ep_identity = call_raise MilvusNotReady, ep_embed = (\<lambda>_. call_raise MilvusNotReady)\<rparr>,
     oe_planner = None, oe_selector = None, oe_ladder = None\<rparr>"

definition sample_route :: route where
  "sample_route = \<lparr>rt_owner_id = ''alice'', rt_document_id = ''doc1'', rt_document_version_id = ''v_ready'',
     rt_elasticsearch_index = ''index1'', rt_milvus_collection = ''collection1'',
     rt_elasticsearch_metadata = sample_metadata, rt_milvus_metadata = sample_metadata\<rparr>"

definition sample_online_version :: "version \<Rightarrow> bool" where
  "sample_online_version v \<longleftrightarrow> ver_owner_id v = ''alice'' \<and> ver_document_id v = ''doc1'' \<and>
     ver_document_version_id v = ''v_ready'' \<and> ver_lifecycle_status v = READY \<and> is_active v"

lemma sample_metadata_sorted: "sort sample_metadata = sample_metadata"
  by code_simp

lemma sample_resolved:
  assumes "sample_online_version v"
  shows "resolve_routes (Inr [v]) (oe_inspect_elasticsearch sample_online_env)
    (oe_inspect_milvus sample_online_env) (oe_hooks sample_online_env) ''alice'' [''doc1''] = Inr [sample_route]"
proof -
  have "contract_id_ok ''alice''" "contract_id_ok ''doc1''" by code_simp+
  with assms show ?thesis
    by (simp add: sample_online_version_def resolve_routes_def routes_of_versions_def sample_online_env_def
        verify_physical_route_def sample_metadata_sorted sample_route_def)
qed

lemma sample_chunk_authorized:
  "is_chunk_authorized (chunk_json sample_online_chunk) (narrow_scope sample_scope ''doc1'')"
  "of_route sample_route (chunk_json sample_online_chunk)"
  by code_simp+

definition sample_hit :: ranked_chunk where
  "sample_hit = \<lparr>rk_backend = es_backend, rk_rank = 1, rk_score = 2, rk_chunk = chunk_json sample_online_chunk\<rparr>"

lemma sample_hit_ok: "ranked_ok sample_hit" "validate_ranking [sample_hit] es_backend"
  by code_simp+

lemma sample_env_simps:
  "oe_candidate_k sample_online_env = 3" "oe_rrf_k sample_online_env = 1" "oe_min_score sample_online_env = 0"
  "oe_es_send sample_online_env = sample_es_send" "oe_mv_send sample_online_env = sample_milvus_send"
  "oe_es_world sample_online_env r = ()" "oe_mv_world sample_online_env r = ()"
  "oe_planner sample_online_env = None" "oe_selector sample_online_env = None"
  "oe_ladder sample_online_env = None" "oe_snapshots sample_online_env o1 vs = Inr [sample_online_chunk]"
  "oe_embed sample_online_env ts = Inr (map (\<lambda>_. [Some 1]) ts)"
  "es_fingerprint (oe_es_env sample_online_env) cs = [1]" "mv_fingerprint (oe_mv_env sample_online_env) cs = [1]"
  "mv_sqrt (oe_mv_env sample_online_env) x = x"
  by (simp_all add: sample_online_env_def)

lemma sample_ranked:
  "rank_scored es_backend 1 [(2, chunk_json sample_online_chunk)] = Inr [sample_hit]"
  using sample_hit_ok(1) by (simp add: rank_scored_def ranked_chunk_of_def sample_hit_def)

lemma sample_not_blank: "\<not> blank [65]"
  by (simp add: blank_def uspace_def)

lemma sample_lexical:
  "lexical_route sample_online_env sample_route [65] (narrow_scope sample_scope ''doc1'')
     [chunk_json sample_online_chunk] = Inr [sample_hit]"
proof -
  have name: "index_name_ok ''index1''" by code_simp
  have check: "es_check_route (oe_es_env sample_online_env) sample_es_send ''index1''
      (Some (map stage_chunk [chunk_json sample_online_chunk])) (Some sample_metadata) () = (Inr (), ())"
    by (simp add: es_check_route_def es_source_matches_def sample_metadata_def sample_env_simps
        call_when_def call_return_def decimal.simps)
  have hits: "es_hits [(''hits'', JObj [(''hits'', JList xs)])] = Inr xs" for xs
    by (simp add: es_hits_def get_def)
  have collect: "es_collect (narrow_scope sample_scope ''doc1'')
      [JObj [(''_score'', JInt 2), (''_source'', JObj (chunk_json sample_online_chunk))]] [] =
      Inr [(2, chunk_json sample_online_chunk)]"
    using sample_chunk_authorized(1) by (simp add: get_def hit_score_def overflows_def binary64_powers)
  have rank: "es_rank 3 [(2, chunk_json sample_online_chunk)] = Inr [sample_hit]"
    using sample_hit_ok(2) sample_ranked by (simp add: es_rank_def score_order_def validated_def)
  show ?thesis
    using name sample_not_blank check collect rank
    by (simp add: lexical_route_def es_search_def sample_route_def sample_env_simps verified_of_def
        sample_metadata_def call_bind_step sample_es_send_def hits lift_call_def)
qed

lemma sample_metadata_nonempty: "sample_metadata \<noteq> []"
  by (simp add: sample_metadata_def)

lemma sample_vector:
  "vector_route sample_online_env sample_route [65] (narrow_scope sample_scope ''doc1'')
     [chunk_json sample_online_chunk] [([65], [Some 1])] = Inr []"
proof -
  have name: "collection_name_ok ''collection1''" by code_simp
  have identity: "milvus_route_identity (oe_mv_env sample_online_env) sample_milvus_send ''collection1''
      (oe_mv_provider sample_online_env) (Some [stage_chunk (chunk_json sample_online_chunk)])
      (Some sample_metadata) () = (Inr sample_metadata, ())"
    by (simp add: milvus_route_identity_def milvus_source_matches_def sample_metadata_def sample_env_simps
        call_when_def call_return_def decimal.simps call_bind_def)
  have vector: "query_vector (oe_mv_env sample_online_env) (oe_mv_provider sample_online_env) [65]
      (Some [Some 1]) () = (Inr [1], ())"
    by (simp add: query_vector_def call_return_def call_bind_def lift_call_def normalize_vector_def
        sample_env_simps overflows_def)
  have dimension: "Option.bind (map_of sample_metadata ''embedding_dimension'') int_of_text = Some 1"
    by (simp add: sample_metadata_def int_of_text_def strip_text_def uspace_def)
  have ranking: "milvus_ranking s 3 0 (JList [JList []]) = Inr []" for s
    by (simp add: milvus_ranking_def rank_scored_def score_order_def validated_def validate_ranking_def)
  show ?thesis
    using name sample_not_blank identity vector dimension sample_metadata_nonempty
    by (simp add: vector_route_def milvus_search_def sample_route_def sample_env_simps verified_of_def
        call_bind_step at_stage_def sample_milvus_send_def ranking lift_call_def)
qed

lemma sample_rankings:
  assumes "sample_online_version v"
  shows "retrieve_rankings sample_online_env (Inr [v]) [65] sample_scope ''alice'' [sample_route] =
    Inr [[sample_hit], []]"
proof -
  let ?c = "chunk_json sample_online_chunk"
  have snapshot: "snapshot_matches [sample_route] [?c]"
    by (simp add: snapshot_matches_def chunk_json_def text_field_def get_def sample_online_chunk_def sample_route_def)
  have queries: "route_queries sample_online_env [65] [sample_route] = [(''doc1'', [65])]"
    by (simp add: route_queries_def sample_env_simps sample_route_def)
  have vectors: "query_vectors sample_online_env [65] [(''doc1'', [65])] = Inr [([65], [Some 1])]"
    by (simp add: query_vectors_def sample_env_simps shared_from_prewarm_def embed_single_query_def
        request_embed_def)
  have chunks: "route_chunks sample_route [?c] = Inr [?c]"
    using sample_chunk_authorized(2) by (simp add: route_chunks_def)
  have active: "get ?c ''is_active'' = Some (JBool True)"
    by (simp add: chunk_json_def get_def sample_online_chunk_def)
  have valid: "validate_route_ranking sample_route [sample_hit]" "validate_route_ranking sample_route []"
    using sample_hit_ok(2) sample_chunk_authorized(2) active
    by (simp_all add: validate_route_ranking_def sample_hit_def)
  have doc: "rt_document_id sample_route = ''doc1''" "rt_document_version_id sample_route = ''v_ready''"
    by (simp_all add: sample_route_def)
  have "search_routes sample_online_env sample_scope [?c] [(''doc1'', [65])] [([65], [Some 1])] [sample_route] =
      Inr [[sample_hit], []]"
    by (simp add: search_route_def chunks doc sample_lexical sample_vector valid)
  moreover have "revalidate (Inr [v]) ''alice'' [sample_route] = Inr ()"
    using assms by (auto simp: revalidate_def doc sample_online_version_def)
  ultimately show ?thesis
    by (simp add: retrieve_rankings_def sample_env_simps snapshot queries vectors)
qed

definition sample_answer :: ranked_chunk where
  "sample_answer = \<lparr>rk_backend = online_retrieval_backend, rk_rank = 1, rk_score = 1 / 2,
     rk_chunk = chunk_json sample_online_chunk\<rparr>"

lemma sample_answered:
  "answer_rankings sample_online_env [65] [sample_route] [[sample_hit], []] 3 = Inr [sample_answer]"
proof -
  have valid: "ranked_ok sample_answer" "validate_ranking [sample_answer] online_retrieval_backend"
    by code_simp+
  then have "fuse 1 [[sample_hit], []] (Some 3) = Inr [sample_answer]"
    by (simp add: fuse_def ranked_pairs_def sample_hit_def vote_def rrf_term_def overflows_def
        binary64_powers Let_def ordered_def ranked_chunk_of_def sample_answer_def validated_def)
  then show ?thesis by (simp add: answer_rankings_def sample_env_simps final_candidates_def)
qed

lemma sample_online_answer:
  assumes "sample_online_version v"
  shows "online_search sample_online_env (Inr [v]) (Inr [v]) [65] sample_scope ''alice'' [''doc1''] 3 =
    Inr [sample_answer]"
proof -
  have "get sample_scope ''tenant_id'' = Some (JStr (ascii ''alice''))"
    "get sample_scope ''user_id'' = Some (JStr (ascii ''alice''))"
    by (simp_all add: sample_scope_def get_def)
  then show ?thesis
    using sample_not_blank sample_resolved [OF assms] sample_rankings [OF assms] sample_answered
    by (simp add: online_search_def)
qed

end
