(* ===== verification/OnlineVisibility.thy ===== *)
theory OnlineVisibility
  imports PersistentIngestion OnlineRouting
begin

text \<open>
  The online retriever over the fact source: its second read of the READY versions is
  \<open>resolve_online_versions\<close> on the connection as it is then, whatever happened since the first.
\<close>

subsection \<open>The versions a read returns\<close>

lemma validate_rows_Inr:
  "\<forall>v \<in> set vs. version_ok v \<Longrightarrow> validate_rows vs = Inr ws \<Longrightarrow> ws = vs"
  using validate_rows_ok by fastforce

lemma resolve_online_Inr:
  assumes "resolve_online_versions owner docs c = (Inr vs, c')" and "db_inv (working c)" and "v \<in> set vs"
  shows "v \<in> set (versions (working c)) \<and> online_row owner v \<and> (docs \<noteq> [] \<longrightarrow> ver_document_id v \<in> set docs)"
proof -
  from assms(1) obtain rows ws where rows: "sql_resolve_online_versions owner docs (working c) = Inr (rows, ws)"
    "validate_rows rows = Inr vs"
    by (auto simp: resolve_online_versions_def transaction_Inr io_Inr_simps raise_io_def split: if_splits)
  have set: "set rows = {v \<in> set (versions (working c)). online_row owner v \<and>
      (docs = [] \<or> ver_document_id v \<in> set docs)}"
    using rows(1) by (auto simp: sql_resolve_online_versions_def)
  then have "\<forall>v \<in> set rows. version_ok v" using versions_invD(4) [OF assms(2)] by blast
  with rows(2) have "vs = rows" by (simp add: validate_rows_Inr)
  with set assms(3) show ?thesis by auto
qed

definition read_versions :: "string \<Rightarrow> string list \<Rightarrow> conn \<Rightarrow> unit + version list" where
  "read_versions owner docs c = or_error () (fst (resolve_online_versions owner docs c))"

lemma online_answer_current:
  assumes "online_search E first_read (read_versions owner docs c) q s owner docs top_k = Inr out"
    and "db_inv (working c)"
  shows "validate_ranking out online_retrieval_backend \<and> int (length out) \<le> top_k \<and>
    (\<forall>r \<in> set out. \<exists>v \<in> set (versions (working c)). online_row owner v \<and>
      (docs \<noteq> [] \<longrightarrow> ver_document_id v \<in> set docs) \<and>
      get (rk_chunk r) ''tenant_id'' = Some (JStr (ascii owner)) \<and>
      get (rk_chunk r) ''document_id'' = Some (JStr (ascii (ver_document_id v))) \<and>
      get (rk_chunk r) ''version_id'' = Some (JStr (ascii (ver_document_version_id v))) \<and>
      is_chunk_authorized (rk_chunk r) (narrow_scope s (ver_document_id v)))"
proof (rule online_search_Inr [OF assms(1)])
  fix vs
  assume read: "read_versions owner docs c = Inr vs"
    and cand: "\<forall>c \<in> set out. \<exists>v \<in> set vs. \<exists>r. rt_owner_id r = owner \<and> rt_document_id r = ver_document_id v \<and>
      rt_document_version_id r = ver_document_version_id v \<and> candidate_ok s r c \<and>
      (docs \<noteq> [] \<longrightarrow> ver_document_id v \<in> set docs)"
    and valid: "validate_ranking out online_retrieval_backend" "int (length out) \<le> top_k"
  have "resolve_online_versions owner docs c = (Inr vs, snd (resolve_online_versions owner docs c))"
    using read by (simp add: read_versions_def prod_eq_iff)
  note online = resolve_online_Inr [OF this assms(2)]
  have "\<exists>v \<in> set (versions (working c)). online_row owner v \<and>
      (docs \<noteq> [] \<longrightarrow> ver_document_id v \<in> set docs) \<and>
      get (rk_chunk r) ''tenant_id'' = Some (JStr (ascii owner)) \<and>
      get (rk_chunk r) ''document_id'' = Some (JStr (ascii (ver_document_id v))) \<and>
      get (rk_chunk r) ''version_id'' = Some (JStr (ascii (ver_document_version_id v))) \<and>
      is_chunk_authorized (rk_chunk r) (narrow_scope s (ver_document_id v))" if "r \<in> set out" for r
  proof -
    obtain v rt where v: "v \<in> set vs" "rt_owner_id rt = owner" "rt_document_id rt = ver_document_id v"
      "rt_document_version_id rt = ver_document_version_id v" "candidate_ok s rt r"
      using cand \<open>r \<in> set out\<close> by blast
    show ?thesis
      by (rule bexI [of _ v]) (use online [OF v(1)] v(2-5) in \<open>auto simp: candidate_ok_def of_route_def\<close>)
  qed
  with valid show ?thesis by blast
qed

text \<open>C6. An online answer is current and authorized: whatever the first read saw and however the
  indexes, the planner and the selector answered, every chunk of an answer belongs to a version that
  is READY, indexed in both backends and undeleted in the fact source at the second read, is the
  owner's own and of a requested document, carries exactly that version's identity, and is authorized
  under the caller's scope narrowed to its document. The answer is a valid ranking of at most \<open>top_k\<close>
  chunks.\<close>

theorem online_answer_is_current:
  assumes "online_search E first_read (read_versions owner docs c) q s owner docs top_k = Inr out"
    and "db_inv (working c)"
  shows "validate_ranking out online_retrieval_backend \<and> int (length out) \<le> top_k \<and>
    (\<forall>r \<in> set out. \<exists>v \<in> set (versions (working c)). online_row owner v \<and>
      (docs \<noteq> [] \<longrightarrow> ver_document_id v \<in> set docs) \<and>
      get (rk_chunk r) ''tenant_id'' = Some (JStr (ascii owner)) \<and>
      get (rk_chunk r) ''document_id'' = Some (JStr (ascii (ver_document_id v))) \<and>
      get (rk_chunk r) ''version_id'' = Some (JStr (ascii (ver_document_version_id v))) \<and>
      is_chunk_authorized (rk_chunk r) (narrow_scope s (ver_document_id v)))"
  using assms by (rule online_answer_current)

subsection \<open>Sample\<close>

lemma sample_version_online: "sample_online_version sample_ready"
  by code_simp

lemma sample_read: "read_versions ''alice'' [''doc1''] (SampleFacts.connected sample_db) = Inr [sample_ready]"
  by code_simp

theorem online_answer_is_current_witness:
  "online_search sample_online_env (Inr [sample_ready]) (read_versions ''alice'' [''doc1''] (SampleFacts.connected sample_db))
     [65] sample_scope ''alice'' [''doc1''] 3 = Inr [sample_answer] \<and>
   (\<exists>v \<in> set (versions sample_db). online_row ''alice'' v)"
proof -
  have "online_search sample_online_env (Inr [sample_ready]) (read_versions ''alice'' [''doc1''] (SampleFacts.connected sample_db))
     [65] sample_scope ''alice'' [''doc1''] 3 = Inr [sample_answer]"
    using sample_online_answer [OF sample_version_online] by (simp add: sample_read)
  from online_answer_is_current [OF this] this show ?thesis
    by (simp add: sample_db_inv) blast
qed

end
