(* ===== verification/OnlineCoverage.thy ===== *)
theory OnlineCoverage
  imports OnlineRouting
begin

text \<open>
  Route coverage inside the online retriever: the selector of RouteCoverage installed as the final
  candidate selector of a search.
\<close>

subsection \<open>Coverage of the answer\<close>

lemma selection_lookup:
  assumes "map_of (rev (map (\<lambda>r. (chunk_key (rk_chunk r), r)) cs)) i = Some c"
  shows "c \<in> set cs" and "candidate_id c = i"
  using map_of_SomeD [OF assms] by (auto simp: candidate_id_def)

lemma selection_known:
  "i \<in> candidate_id ` set cs \<Longrightarrow> map_of (rev (map (\<lambda>r. (chunk_key (rk_chunk r), r)) cs)) i \<noteq> None"
  by (auto simp: map_of_eq_None_iff candidate_id_def image_image)

text \<open>A selection of known candidates is always applied.\<close>

lemma apply_selection_total:
  assumes ok: "\<forall>c \<in> set cs. ranked_ok c" and ids: "set ids \<subseteq> candidate_id ` set cs" "distinct ids"
    and k: "int (length ids) = k"
  shows "\<exists>out. apply_selection cs ids k = Inr out \<and> map candidate_id out = ids"
proof -
  let ?m = "map_of (rev (map (\<lambda>r. (chunk_key (rk_chunk r), r)) cs))"
  let ?es = "map (\<lambda>i. \<lparr>en_id = i, en_chunk = rk_chunk (the (?m i)), en_score = rk_score (the (?m i)),
    en_best = 0\<rparr>) ids"
  have known: "?m i \<noteq> None" if "i \<in> set ids" for i
    using that ids(1) by (intro selection_known) blast
  have found: "the (?m i) \<in> set cs \<and> candidate_id (the (?m i)) = i" if "i \<in> set ids" for i
  proof -
    obtain c where "?m i = Some c" using known [OF \<open>i \<in> set ids\<close>] by blast
    from selection_lookup [OF this] show ?thesis unfolding \<open>?m i = Some c\<close> option.sel by blast
  qed
  have "\<exists>out. ranked_entries online_retrieval_backend 1 ?es = Inr out"
  proof (rule ranked_entries_total)
    show "backend_ok online_retrieval_backend" by code_simp
    show "\<forall>e \<in> set ?es. nonempty_str (get (en_chunk e) ''chunk_id'') \<and>
        nonempty_str (get (en_chunk e) ''document_id'')"
    proof
      fix e assume "e \<in> set ?es"
      then obtain i where i: "i \<in> set ids" "en_chunk e = rk_chunk (the (?m i))"
        by (auto simp only: set_map image_iff entry.simps)
      show "nonempty_str (get (en_chunk e) ''chunk_id'') \<and> nonempty_str (get (en_chunk e) ''document_id'')"
        using found [OF i(1)] ok unfolding i(2) ranked_ok_def by blast
    qed
  qed simp
  then obtain out where out: "ranked_entries online_retrieval_backend 1 ?es = Inr out" by blast
  note r = ranked_entries_Inr [OF out]
  have "map candidate_id out = map chunk_key (map rk_chunk out)" by (simp add: candidate_id_def)
  also have "map rk_chunk out = map en_chunk ?es" using r by blast
  also have "map chunk_key (map en_chunk ?es) = map (\<lambda>i. i) ids"
    unfolding map_map using found by (intro map_cong refl) (simp only: comp_def entry.simps flip: candidate_id_def)
  finally have keys: "map candidate_id out = ids" by simp
  then have "distinct (map (\<lambda>r. chunk_key (rk_chunk r)) out)"
    using ids(2) by (simp add: candidate_id_def [abs_def])
  moreover have "map rk_rank out = [1..int (length out)]" using r fused_length [OF out] by simp
  ultimately have "validate_ranking out online_retrieval_backend"
    using r by (auto simp: validate_ranking_def)
  then have "apply_selection cs ids k = Inr out"
    using k ids(2) known unfolding apply_selection_def Let_def out bind_res_simps validated_def by simp
  with keys show ?thesis by blast
qed

text \<open>The documents of a selection are the two routes.\<close>

lemma selection_covers:
  assumes "3 \<le> length cs" and docs: "candidate_document ` set cs = set routes"
    and routes: "length routes = 2" "distinct routes" and "d \<in> set routes"
  shows "\<exists>c \<in> set cs. candidate_document c = d \<and> candidate_id c \<in> set
    (case missing_routes routes cs of [] \<Rightarrow> map candidate_id (take 3 cs)
     | d # _ \<Rightarrow> map candidate_id (take 2 cs) @ [candidate_id (the (best_of cs d))])"
proof (cases "missing_routes routes cs")
  case Nil
  then have "d \<in> candidate_document ` set (take 3 cs)"
    using \<open>d \<in> set routes\<close> by (auto simp: missing_routes_def filter_empty_conv)
  then show ?thesis unfolding Nil by (auto dest: in_set_takeD)
next
  case (Cons m ms)
  then have m: "m \<in> set routes" "m \<notin> candidate_document ` set (take 3 cs)"
    by (auto simp: missing_routes_def dest: filter_eq_ConsD)
  obtain c0 rest where cs: "cs = c0 # rest" using assms(1) by (cases cs) auto
  then have c0: "c0 \<in> set (take 2 cs)" "c0 \<in> set (take 3 cs)" "c0 \<in> set cs" by simp_all
  show ?thesis
  proof (cases "d = m")
    case True
    then obtain c where "best_of cs m = Some c"
      using m(1) docs best_of_None [of cs m] by auto
    with best_of_Some [OF this] True show ?thesis unfolding Cons by auto
  next
    case False
    have "candidate_document c0 \<in> set routes" "candidate_document c0 \<noteq> m"
      using docs c0 m(2) by auto
    moreover obtain a b where "routes = [a, b]" using routes(1) by (auto simp: length_Suc_conv numeral_2_eq_2)
    ultimately have "candidate_document c0 = d" using False m(1) \<open>d \<in> set routes\<close> by auto
    with c0 show ?thesis unfolding Cons by auto
  qed
qed

text \<open>Coverage reaches the answer: with the bilateral selector installed, a proven comparison of
  two requested documents gets a final answer of three chunks that has chunks of both documents and
  of no other, whenever the fused candidates have any; the selection the planner makes is never
  rejected by the retriever.\<close>

theorem coverage_reaches_answer:
  assumes "load_coverage_config u value = Inr cfg"
    and "oe_selector E = Some (plan_coverage u cfg True None)"
    and "fuse k rankings None = Inr fused"
    and "coverage_eligible u cfg True q fused (map (\<lambda>r. ascii (rt_document_id r)) routes) 3"
  shows "length (final_candidates E q routes fused 3) = 3 \<and>
    candidate_document ` set (final_candidates E q routes fused 3) =
      set (map (\<lambda>r. ascii (rt_document_id r)) routes)"
proof -
  let ?docs = "map (\<lambda>r. ascii (rt_document_id r)) routes"
  let ?sel = "case missing_routes ?docs fused of [] \<Rightarrow> map candidate_id (take 3 fused)
     | d # _ \<Rightarrow> map candidate_id (take 2 fused) @ [candidate_id (the (best_of fused d))]"
  have el: "length ?docs = 2" "distinct ?docs" "3 \<le> length fused" "candidate_document ` set fused = set ?docs"
    using assms(4) by (simp_all add: coverage_eligible_def)
  have ids: "distinct (map candidate_id fused)"
    using fuse_chunk(1) [OF assms(3)] by (auto simp: validate_ranking_def candidate_id_def [abs_def] split: if_splits)
  note cfg = load_coverage_config_Inr [OF assms(1)]
  have sel: "?sel = filter (\<lambda>i. i \<in> fill_selection 3 fused (set (map snd (first_by_route fused)))) (map candidate_id fused)"
    using selected_ids [OF ids el(3,4,1,2)] by simp
  have len: "length ?sel = 3" using el(3) by (auto split: list.splits)
  have "plan_coverage u cfg True None q fused ?docs 3 =
      Inr \<lparr>cp_status = Applied, cp_selected = ?sel, cp_failure = None\<rparr>"
    using assms(4) cfg len el unfolding sel
    by (simp add: plan_coverage_def coverage_eligible_def select_routes_def Let_def
        first_by_route_keys [simplified] finish_plan_def del: filter_map)
  moreover have "\<forall>c \<in> set fused. ranked_ok c"
    using assms(3) by (elim fuse_parts) (simp add: ranked_entries_Inr)
  then obtain out where out: "apply_selection fused ?sel 3 = Inr out" "map candidate_id out = ?sel"
    using apply_selection_total [of fused ?sel 3] ids len unfolding sel
    by (metis (no_types, lifting) distinct_filter filter_is_subset of_nat_numeral set_map)
  ultimately have final: "final_candidates E q routes fused 3 = out"
    by (simp add: final_candidates_def assms(2))
  have "length out = 3" using out(2) len by (metis length_map)
  moreover have "candidate_document r \<in> set ?docs" if "r \<in> set out" for r
    using apply_selection_Inr(3) [OF out(1) that] el(4) by (force simp: candidate_document_def)
  moreover have "d \<in> candidate_document ` set out" if d: "d \<in> set ?docs" for d
  proof -
    obtain c where c: "c \<in> set fused" "candidate_document c = d" "candidate_id c \<in> set (map candidate_id out)"
      using selection_covers [OF el(3,4,1,2) d] unfolding out(2) by blast
    then obtain r where r: "r \<in> set out" "candidate_id r = candidate_id c" by auto
    then obtain c' where c': "c' \<in> set fused" "rk_chunk r = rk_chunk c'"
      using apply_selection_Inr(3) [OF out(1)] by blast
    then have "c' = c" using r(2) c(1) ids by (auto simp: candidate_id_def distinct_map inj_on_def)
    then have "candidate_document r = d" using c(2) c'(2) by (simp add: candidate_document_def)
    with r(1) show ?thesis by blast
  qed
  ultimately show ?thesis unfolding final by blast
qed

text \<open>Four rankings of one candidate each, three of one document.\<close>

definition sample_cover_candidate :: "string \<Rightarrow> int \<Rightarrow> rat \<Rightarrow> nat \<Rightarrow> nat \<Rightarrow> ranked_chunk" where
  "sample_cover_candidate b rank score i d = \<lparr>rk_backend = b, rk_rank = rank, rk_score = score,
     rk_chunk = [(''chunk_id'', JStr [i]), (''document_id'', JStr [d])]\<rparr>"

definition sample_cover_rankings :: "ranked_chunk list list" where
  "sample_cover_rankings = map (\<lambda>(i, d). [sample_cover_candidate es_backend 1 1 i d])
     [(1, 97), (2, 97), (3, 97), (4, 98)]"

definition sample_cover_fused :: "ranked_chunk list" where
  "sample_cover_fused = map (\<lambda>(i, d). sample_cover_candidate online_retrieval_backend (int i) (1 / 2) i d)
     [(1, 97), (2, 97), (3, 97), (4, 98)]"

definition sample_cover_routes :: "route list" where
  "sample_cover_routes = [sample_route\<lparr>rt_document_id := ''a''\<rparr>, sample_route\<lparr>rt_document_id := ''b''\<rparr>]"

lemma sample_cover_fusion: "fuse 1 sample_cover_rankings None = Inr sample_cover_fused"
proof -
  have valid: "validate_ranking sample_cover_fused online_retrieval_backend" by code_simp
  have "tally True BackendsDisagree 1 (concat (map ranked_pairs sample_cover_rankings)) [] = Inr
      (map (\<lambda>(i, d). \<lparr>en_id = [i], en_chunk = [(''chunk_id'', JStr [i]), (''document_id'', JStr [d])],
        en_score = 1 / 2, en_best = 1\<rparr>) [(1, 97), (2, 97), (3, 97), (4, 98)])"
    by (simp add: sample_cover_rankings_def sample_cover_candidate_def ranked_pairs_def vote_def
        rrf_term_def chunk_key_def text_field_def get_def overflows_def binary64_powers Let_def)
  moreover have "backend_ok online_retrieval_backend" by code_simp
  ultimately show ?thesis
    using valid
    by (simp add: fuse_def ordered_def less_prod_def less_eq_prod_def ranked_chunk_of_def ranked_ok_def Let_def
        get_def sample_cover_fused_def sample_cover_candidate_def validated_def)
qed

lemma sample_cover_eligible:
  "coverage_eligible sample_unicode sample_coverage_config True [65, 86, 83, 66] sample_cover_fused
     (map (\<lambda>r. ascii (rt_document_id r)) sample_cover_routes) 3"
  by (simp add: coverage_eligible_def sample_coverage_config_def has_comparison_marker_def blank_def uspace_def
      contains_def text_find_def casefold_def sample_unicode_def occurs_at_def slice_def upt_rec
      sample_cover_fused_def sample_cover_routes_def sample_cover_candidate_def candidate_document_def
      text_field_def get_def ascii_def)

theorem coverage_reaches_answer_witness:
  "candidate_document ` set (final_candidates (sample_online_env\<lparr>oe_selector :=
       Some (plan_coverage sample_unicode sample_coverage_config True None)\<rparr>)
     [65, 86, 83, 66] sample_cover_routes sample_cover_fused 3) =
   set (map (\<lambda>r. ascii (rt_document_id r)) sample_cover_routes)"
  by (rule coverage_reaches_answer [OF sample_config_loads _ sample_cover_fusion sample_cover_eligible,
      THEN conjunct2]) simp

end
