(* ===== verification/Regex.thy ===== *)
theory Regex
  imports PyValues
begin

text \<open>
  Python's regular expressions as far as the code uses them: character classes, greedy repetition,
  ordered alternatives, one-character lookbehind and lookahead, word boundaries, the anchors and marks for the
  positions where groups begin or end.
  Matching is backtracking: a pattern has the list of its results in order of preference, and the
  first one counts. A search may end before the text does, and then sees the text end there; what
  stands before its start stays visible.
\<close>

subsection \<open>Patterns\<close>

datatype regex =
    Class "nat \<Rightarrow> bool"
  | Cat regex regex
  | Alt regex regex
  | Many regex
  | Nothing
  | Behind "nat \<Rightarrow> bool"
  | LineStart
  | LineEnd
  | TextEnd
  | NotBehind "nat \<Rightarrow> bool"
  | NotAhead "nat \<Rightarrow> bool"
  | Boundary "nat \<Rightarrow> bool"
  | Mark

text \<open>A position and the marked positions, in the order of the marks.\<close>

type_synonym rx_state = "nat \<times> nat list"

function repeat_greedy :: "nat \<Rightarrow> (rx_state \<Rightarrow> rx_state list) \<Rightarrow> rx_state \<Rightarrow> rx_state list" where
  "repeat_greedy hi f s =
     concat (map (repeat_greedy hi f) (filter (\<lambda>s'. fst s < fst s' \<and> fst s' \<le> hi) (f s))) @ [s]"
  by pat_completeness auto
termination
  by (relation "measure (\<lambda>(hi, f, s). hi - fst s)") auto

declare repeat_greedy.simps [simp del]

primrec rx :: "pytext \<Rightarrow> nat \<Rightarrow> regex \<Rightarrow> rx_state \<Rightarrow> rx_state list" where
  "rx t hi (Class P) s = (if fst s < hi \<and> P (t ! fst s) then [(fst s + 1, snd s)] else [])"
| "rx t hi (Cat a b) s = concat (map (rx t hi b) (rx t hi a s))"
| "rx t hi (Alt a b) s = rx t hi a s @ rx t hi b s"
| "rx t hi (Many a) s = repeat_greedy hi (rx t hi a) s"
| "rx t hi Nothing s = [s]"
| "rx t hi (Behind P) s = (if 0 < fst s \<and> P (t ! (fst s - 1)) then [s] else [])"
| "rx t hi (NotBehind P) s = (if 0 < fst s \<and> P (t ! (fst s - 1)) then [] else [s])"
| "rx t hi (NotAhead P) s = (if fst s < hi \<and> P (t ! fst s) then [] else [s])"
| "rx t hi LineStart s = (if fst s = 0 \<or> t ! (fst s - 1) = 10 then [s] else [])"
| "rx t hi LineEnd s = (if fst s = hi \<or> t ! fst s = 10 then [s] else [])"
| "rx t hi TextEnd s = (if fst s = hi \<or> Suc (fst s) = hi \<and> t ! fst s = 10 then [s] else [])"
| "rx t hi (Boundary P) s =
     (if (0 < fst s \<and> P (t ! (fst s - 1))) \<noteq> (fst s < hi \<and> P (t ! fst s)) then [s] else [])"
| "rx t hi Mark s = [(fst s, snd s @ [fst s])]"

text \<open>Derived forms.\<close>

definition one_char :: "nat \<Rightarrow> regex" where
  "one_char c = Class (\<lambda>x. x = c)"

definition optional :: "regex \<Rightarrow> regex" where
  "optional r = Alt r Nothing"

definition many_one :: "regex \<Rightarrow> regex" where
  "many_one r = Cat r (Many r)"

fun at_most :: "nat \<Rightarrow> regex \<Rightarrow> regex" where
  "at_most 0 r = Nothing"
| "at_most (Suc n) r = optional (Cat r (at_most n r))"

fun exactly :: "nat \<Rightarrow> regex \<Rightarrow> regex" where
  "exactly 0 r = Nothing"
| "exactly (Suc n) r = Cat r (exactly n r)"

fun literal :: "pytext \<Rightarrow> regex" where
  "literal [] = Nothing"
| "literal (c # cs) = Cat (one_char c) (literal cs)"

text \<open>A set of ASCII characters; patterns that ignore case.\<close>

abbreviation in_class :: "string \<Rightarrow> nat \<Rightarrow> bool" where
  "in_class s c \<equiv> c \<in> set (ascii s)"

text \<open>An ASCII letter up to case, with the three other characters that fold to one.\<close>

definition ascii_lower :: "nat \<Rightarrow> nat" where
  "ascii_lower c = (if 65 \<le> c \<and> c \<le> 90 then c + 32 else c)"

definition same_letter :: "nat \<Rightarrow> nat \<Rightarrow> bool" where
  "same_letter c x \<longleftrightarrow> ascii_lower c = ascii_lower x \<or> ascii_lower c = 105 \<and> (x = 304 \<or> x = 305) \<or>
     ascii_lower c = 115 \<and> x = 383 \<or> ascii_lower c = 107 \<and> x = 8490"

definition letters_of :: "string \<Rightarrow> nat \<Rightarrow> bool" where
  "letters_of s x \<longleftrightarrow> (\<exists>c \<in> set (ascii s). same_letter c x)"

fun any_case :: "pytext \<Rightarrow> regex" where
  "any_case [] = Nothing"
| "any_case (c # cs) = Cat (Class (same_letter c)) (any_case cs)"

fun alternatives :: "regex list \<Rightarrow> regex" where
  "alternatives [] = Class (\<lambda>_. False)"
| "alternatives [r] = r"
| "alternatives (r # rs) = Alt r (alternatives rs)"

subsection \<open>Matching\<close>

text \<open>\<open>match\<close> at a position: the end and the marks of the preferred result.\<close>

definition match_at :: "pytext \<Rightarrow> nat \<Rightarrow> regex \<Rightarrow> nat \<Rightarrow> rx_state option" where
  "match_at t hi r p = (case rx t hi r (p, []) of [] \<Rightarrow> None | s # _ \<Rightarrow> Some s)"

definition prefix_matches :: "regex \<Rightarrow> pytext \<Rightarrow> bool" where
  "prefix_matches r t \<longleftrightarrow> match_at t (length t) r 0 \<noteq> None"

text \<open>\<open>fullmatch\<close>: the marks of the first result that reaches the end.\<close>

definition full_match :: "regex \<Rightarrow> pytext \<Rightarrow> nat list option" where
  "full_match r t = map_option snd (find (\<lambda>s. fst s = length t) (rx t (length t) r (0, [])))"

definition first_mark :: "nat \<Rightarrow> nat list \<Rightarrow> nat" where
  "first_mark p ms = (case ms of [] \<Rightarrow> p | m # _ \<Rightarrow> m)"

text \<open>
  \<open>finditer\<close> from a position: start, end and marks of every match. (No pattern of the code that
  is searched for matches the empty text.)
\<close>

type_synonym rx_match = "nat \<times> nat \<times> nat list"

function find_matches :: "pytext \<Rightarrow> nat \<Rightarrow> regex \<Rightarrow> nat \<Rightarrow> rx_match list" where
  "find_matches t hi r p =
     (if hi < p then []
      else case match_at t hi r p of
          None \<Rightarrow> find_matches t hi r (p + 1)
        | Some (e, m) \<Rightarrow> (p, e, m) # find_matches t hi r (if e \<le> p then p + 1 else e))"
  by pat_completeness auto
termination
  by (relation "measure (\<lambda>(t, hi, r, p). Suc hi - p)") auto

declare find_matches.simps [simp del]

definition search_from :: "pytext \<Rightarrow> regex \<Rightarrow> nat \<Rightarrow> (nat \<times> nat) option" where
  "search_from t r p = (case find_matches t (length t) r p of [] \<Rightarrow> None | (s, e, _) # _ \<Rightarrow> Some (s, e))"

text \<open>\<open>split\<close>: the pieces, and with the separators between them when the pattern is one group.\<close>

fun split_at :: "pytext \<Rightarrow> nat \<Rightarrow> rx_match list \<Rightarrow> pytext list" where
  "split_at t p [] = [slice p (length t) t]"
| "split_at t p ((s, e, _) # ms) = slice p s t # split_at t e ms"

fun split_keeping_at :: "pytext \<Rightarrow> nat \<Rightarrow> rx_match list \<Rightarrow> pytext list" where
  "split_keeping_at t p [] = [slice p (length t) t]"
| "split_keeping_at t p ((s, e, _) # ms) = slice p s t # slice s e t # split_keeping_at t e ms"

definition re_split :: "regex \<Rightarrow> pytext \<Rightarrow> pytext list" where
  "re_split r t = split_at t 0 (find_matches t (length t) r 0)"

definition re_split_keeping :: "regex \<Rightarrow> pytext \<Rightarrow> pytext list" where
  "re_split_keeping r t = split_keeping_at t 0 (find_matches t (length t) r 0)"

subsection \<open>Bounds\<close>

lemma repeat_greedy_cases:
  assumes "s' \<in> set (repeat_greedy hi f s)"
  obtains "s' = s"
    | u where "u \<in> set (f s)" and "fst s < fst u" and "fst u \<le> hi" and "s' \<in> set (repeat_greedy hi f u)"
  using assms by (subst (asm) repeat_greedy.simps) auto

text \<open>A reflexive and transitive relation that every step keeps is kept by the repetition.\<close>

lemma repeat_greedy_invariant:
  assumes "\<And>s s'. s' \<in> set (f s) \<Longrightarrow> R s s'" and "\<And>s. R s s"
    and "\<And>s u s'. R s u \<Longrightarrow> R u s' \<Longrightarrow> R s s'"
    and "s' \<in> set (repeat_greedy hi f s)"
  shows "R s s'"
  using assms
proof (induction hi f s rule: repeat_greedy.induct)
  case (1 hi f s)
  from 1(5) show ?case
  proof (cases rule: repeat_greedy_cases)
    case (2 u)
    then have "R u s'" using 1(1) [of u] 1(2-4) by auto
    moreover have "R s u" using 1(2) 2 by blast
    ultimately show ?thesis using 1(4) by blast
  qed (use 1(3) in simp)
qed

definition rx_forward :: "nat \<Rightarrow> rx_state \<Rightarrow> rx_state \<Rightarrow> bool" where
  "rx_forward hi s s' \<longleftrightarrow> fst s \<le> fst s' \<and> (fst s \<le> hi \<longrightarrow> fst s' \<le> hi) \<and>
     (\<exists>ms. snd s' = snd s @ ms \<and> (\<forall>m \<in> set ms. fst s \<le> m \<and> m \<le> fst s'))"

lemma rx_forward_refl: "rx_forward hi s s"
  by (auto simp: rx_forward_def)

lemma rx_forward_trans:
  assumes "rx_forward hi s u" and "rx_forward hi u s'"
  shows "rx_forward hi s s'"
proof -
  obtain ms ns where "snd u = snd s @ ms" "\<forall>m \<in> set ms. fst s \<le> m \<and> m \<le> fst u"
    and "snd s' = snd u @ ns" "\<forall>m \<in> set ns. fst u \<le> m \<and> m \<le> fst s'"
    using assms unfolding rx_forward_def by blast
  moreover have "fst s \<le> fst u" "fst u \<le> fst s'" "fst s \<le> hi \<longrightarrow> fst s' \<le> hi"
    using assms by (auto simp: rx_forward_def)
  ultimately have "snd s' = snd s @ (ms @ ns)" "\<forall>m \<in> set (ms @ ns). fst s \<le> m \<and> m \<le> fst s'"
    by auto
  with \<open>fst s \<le> fst u\<close> \<open>fst u \<le> fst s'\<close> \<open>fst s \<le> hi \<longrightarrow> fst s' \<le> hi\<close> show ?thesis
    unfolding rx_forward_def using le_trans by blast
qed

lemma rx_moves_forward: "s' \<in> set (rx t hi r s) \<Longrightarrow> rx_forward hi s s'"
proof (induction r arbitrary: s s')
  case (Class P)
  then show ?case by (auto simp: rx_forward_def split: if_splits)
next
  case (Cat a b)
  then obtain u where "u \<in> set (rx t hi a s)" "s' \<in> set (rx t hi b u)" by auto
  with Cat.IH show ?case by (meson rx_forward_trans)
next
  case (Many a)
  then have "s' \<in> set (repeat_greedy hi (rx t hi a) s)" by simp
  with Many.IH show ?case
    using repeat_greedy_invariant [of "rx t hi a" "rx_forward hi" s' hi s] rx_forward_refl rx_forward_trans
    by blast
next
  case Mark
  then show ?case by (auto simp: rx_forward_def)
qed (auto simp: rx_forward_refl split: if_splits)

lemma match_at_bounds:
  assumes "match_at t hi r p = Some (e, ms)" and "p \<le> hi"
  shows "p \<le> e" and "e \<le> hi" and "\<forall>m \<in> set ms. p \<le> m \<and> m \<le> e"
proof -
  have "(e, ms) \<in> set (rx t hi r (p, []))" using assms(1) by (auto simp: match_at_def split: list.splits)
  from rx_moves_forward [OF this] show "p \<le> e" "e \<le> hi" "\<forall>m \<in> set ms. p \<le> m \<and> m \<le> e"
    using assms(2) by (auto simp: rx_forward_def)
qed

lemma first_mark_bounds:
  "\<forall>m \<in> set ms. p \<le> m \<and> m \<le> e \<Longrightarrow> p \<le> e \<Longrightarrow> p \<le> first_mark p ms \<and> first_mark p ms \<le> e"
  by (cases ms) (auto simp: first_mark_def)

text \<open>The three cases of the search.\<close>

lemma find_matches_stop: "hi < p \<Longrightarrow> find_matches t hi r p = []"
  by (subst find_matches.simps) simp

lemma find_matches_skip: "p \<le> hi \<Longrightarrow> match_at t hi r p = None \<Longrightarrow> find_matches t hi r p = find_matches t hi r (p + 1)"
  by (subst find_matches.simps) simp

lemma find_matches_take:
  "p \<le> hi \<Longrightarrow> match_at t hi r p = Some (e, ms) \<Longrightarrow>
     find_matches t hi r p = (p, e, ms) # find_matches t hi r (if e \<le> p then p + 1 else e)"
  by (subst find_matches.simps) simp

text \<open>Matches come in order and do not overlap.\<close>

fun ordered_matches :: "nat \<Rightarrow> nat \<Rightarrow> rx_match list \<Rightarrow> bool" where
  "ordered_matches p hi [] = True"
| "ordered_matches p hi ((s, e, ms) # rest) =
     (p \<le> s \<and> s \<le> e \<and> e \<le> hi \<and> (\<forall>m \<in> set ms. s \<le> m \<and> m \<le> e) \<and> ordered_matches e hi rest)"

lemma ordered_matches_mono: "ordered_matches q hi ms \<Longrightarrow> p \<le> q \<Longrightarrow> ordered_matches p hi ms"
  by (cases ms) auto

lemma find_matches_ordered: "ordered_matches p hi (find_matches t hi r p)"
proof (induction t hi r p rule: find_matches.induct)
  case (1 t hi r p)
  show ?case
  proof (cases "hi < p")
    case True
    then show ?thesis by (simp add: find_matches_stop)
  next
    case False
    show ?thesis
    proof (cases "match_at t hi r p")
      case None
      with False 1(1) have "ordered_matches (p + 1) hi (find_matches t hi r (p + 1))" by simp
      then have "ordered_matches p hi (find_matches t hi r (p + 1))" by (rule ordered_matches_mono) simp
      moreover have "find_matches t hi r p = find_matches t hi r (p + 1)"
        using None False by (intro find_matches_skip) simp_all
      ultimately show ?thesis by (simp only:)
    next
      case (Some s)
      obtain e m where s: "s = (e, m)" by (cases s)
      with Some have m: "match_at t hi r p = Some (e, m)" by simp
      have p: "p \<le> hi" using False by simp
      note b = match_at_bounds [OF m p]
      let ?q = "if e \<le> p then p + 1 else e"
      have "ordered_matches ?q hi (find_matches t hi r ?q)" by (rule 1(2) [OF False Some s [symmetric]])
      then have "ordered_matches e hi (find_matches t hi r ?q)" by (rule ordered_matches_mono) (use b in auto)
      moreover have "find_matches t hi r p = (p, e, m) # find_matches t hi r ?q"
        by (rule find_matches_take [OF p m])
      ultimately show ?thesis using b by (simp only: ordered_matches.simps) simp
    qed
  qed
qed

text \<open>Every match found is one the pattern has at its start.\<close>

lemma find_matches_match:
  "(s, e, ms) \<in> set (find_matches t hi r p) \<Longrightarrow> p \<le> s \<and> s \<le> hi \<and> match_at t hi r s = Some (e, ms)"
proof (induction t hi r p rule: find_matches.induct)
  case (1 t hi r p)
  consider "hi < p" | "p \<le> hi" "match_at t hi r p = None"
    | e' m' where "p \<le> hi" "match_at t hi r p = Some (e', m')"
    by (cases "match_at t hi r p") (auto simp: not_less intro: leI)
  then show ?case
  proof cases
    case 1
    with \<open>(s, e, ms) \<in> set (find_matches t hi r p)\<close> show ?thesis by (simp add: find_matches_stop)
  next
    case 2
    from 1(3) have "(s, e, ms) \<in> set (find_matches t hi r (p + 1))"
      by (simp only: find_matches_skip [OF 2])
    with 1(1) 2 show ?thesis by (simp add: not_less)
  next
    case (3 e' m')
    let ?q = "if e' \<le> p then p + 1 else e'"
    from 1(3) have "(s, e, ms) = (p, e', m') \<or> (s, e, ms) \<in> set (find_matches t hi r ?q)"
      unfolding find_matches_take [OF 3] by (simp only: set_simps insert_iff)
    then show ?thesis
    proof
      assume "(s, e, ms) = (p, e', m')"
      with 3 show ?thesis by simp
    next
      assume "(s, e, ms) \<in> set (find_matches t hi r ?q)"
      with 1(2) [of "(e', m')" e' m'] 3 have "?q \<le> s \<and> s \<le> hi \<and> match_at t hi r s = Some (e, ms)"
        by (simp only: not_less)
      then show ?thesis by (cases "e' \<le> p") simp_all
    qed
  qed
qed

end
