(* ===== verification/Splitter.thy ===== *)
theory Splitter
  imports Regex Binary64
begin

text \<open>
  The text splitter (\<^verbatim>\<open>backend/ingestion/splitter.py\<close>): sections from headings, paragraphs and
  sentences as spans of the source text, the structural strategies that group spans into chunks,
  and the fixed-size strategy that splits stripped text and maps its chunks back to the source.
  Offsets are natural numbers. The lemmas show that the structural strategies lose no text and
  that a chunk is bounded; the last part is about the fixed-size strategy.
\<close>

subsection \<open>Data\<close>

datatype splitter_failure = Splitter_Error string | Splitter_Value_Error | Splitter_Stop_Iteration

definition strategies :: "string list" where
  "strategies = [''fixed_boundary_v1'', ''paragraph_sentence_v1'', ''section_parent_child_v1'']"

definition fixed_chunk_size :: nat where "fixed_chunk_size = 1024"
definition fixed_overlap :: nat where "fixed_overlap = 200"

record structural_config =
  sc_target_chars :: nat
  sc_max_chars :: nat
  sc_overlap_target_chars :: nat

definition structural_defaults :: structural_config where
  "structural_defaults = \<lparr>sc_target_chars = 1024, sc_max_chars = 1280, sc_overlap_target_chars = 200\<rparr>"

record span =
  sp_start :: nat
  sp_end :: nat

abbreviation mk_span :: "nat \<Rightarrow> nat \<Rightarrow> span" where
  "mk_span a b \<equiv> \<lparr>sp_start = a, sp_end = b\<rparr>"

definition span_length :: "span \<Rightarrow> int" where
  "span_length s = int (sp_end s) - int (sp_start s)"

record section_span = span +
  ss_section_id :: pytext
  ss_heading :: pytext

record raw_chunk =
  rc_text :: pytext
  rc_source_start :: nat
  rc_source_end :: nat
  rc_section_name :: "pytext option"
  rc_parent_source_id :: "pytext option"

subsection \<open>The patterns\<close>

definition nonzero_digit :: "nat \<Rightarrow> bool" where "nonzero_digit c \<longleftrightarrow> 49 \<le> c \<and> c \<le> 57"
definition capital :: "nat \<Rightarrow> bool" where "capital c \<longleftrightarrow> 65 \<le> c \<and> c \<le> 90"
definition not_break :: "nat \<Rightarrow> bool" where "not_break c \<longleftrightarrow> c \<noteq> 10 \<and> c \<noteq> 13"
definition not_newline :: "nat \<Rightarrow> bool" where "not_newline c \<longleftrightarrow> c \<noteq> 10"

definition blank_or_tab :: "nat \<Rightarrow> bool" where "blank_or_tab c \<longleftrightarrow> c = 32 \<or> c = 9"

abbreviation dot_char :: regex where "dot_char \<equiv> one_char 46"
abbreviation newline :: regex where "newline \<equiv> one_char 10"
abbreviation space :: regex where "space \<equiv> Class uspace"

definition number_part :: "unicode \<Rightarrow> regex" where
  "number_part u = Cat (Class nonzero_digit) (Many (Class (uc_digit u)))"

definition heading_number :: "unicode \<Rightarrow> regex" where
  "heading_number u = Alt
     (Cat (number_part u) (Cat (Many (Cat dot_char (number_part u))) dot_char))
     (Cat (Class capital) dot_char)"

definition acknowledgments :: regex where
  "acknowledgments =
     Cat (literal (ascii ''Acknowledg'')) (Cat (optional (literal (ascii ''e'')))
       (Cat (literal (ascii ''ment'')) (Cat (optional (literal (ascii ''s'')))
         (optional (Cat dot_char (Many (Class not_break)))))))"

definition heading_text :: "unicode \<Rightarrow> regex" where
  "heading_text u = Alt
     (Cat (heading_number u) (Cat (many_one (Class blank_or_tab))
        (Cat (exactly 2 (Class not_break)) (at_most 98 (Class not_break)))))
     (Alt (literal (ascii ''Appendix'')) acknowledgments)"

text \<open>The mark is the end of the group \<^verbatim>\<open>heading\<close>, which begins where the match does.\<close>

definition heading_re :: "unicode \<Rightarrow> regex" where
  "heading_re u = Cat LineStart (Cat (heading_text u) (Cat Mark (Cat (Many space) LineEnd)))"

definition sentence_end_re :: regex where
  "sentence_end_re =
     Cat (Behind (in_class ''.!?'')) (Cat (Many (Class (in_class [CHR 0x22, CHR 0x27, CHR '')'', CHR '']''])))
       (many_one space))"

definition paragraph_break_re :: regex where
  "paragraph_break_re = Cat newline (Cat newline (Many newline))"

definition boundary_re :: regex where
  "boundary_re = Alt (Cat newline (many_one newline)) (Cat (Behind (in_class ''.!?;:'')) (many_one space))"

text \<open>The mark is the start of the group \<^verbatim>\<open>title\<close>, which reaches the end of the match.\<close>

definition roman_major_re :: regex where
  "roman_major_re = Cat (many_one (Class (in_class ''IVXLCDM''))) (Cat dot_char (Cat (many_one space)
     (Cat Mark (Cat (many_one (Class not_newline)) TextEnd))))"

subsection \<open>Sections\<close>

function skip_left :: "pytext \<Rightarrow> nat \<Rightarrow> nat \<Rightarrow> nat" where
  "skip_left t a b = (if a < b \<and> uspace (t ! a) then skip_left t (a + 1) b else a)"
  by pat_completeness auto
termination by (relation "measure (\<lambda>(t, a, b). b - a)") auto

fun skip_right :: "pytext \<Rightarrow> nat \<Rightarrow> nat \<Rightarrow> nat" where
  "skip_right t a b = (if a < b \<and> uspace (t ! (b - 1)) then skip_right t a (b - 1) else b)"

declare skip_left.simps [simp del] skip_right.simps [simp del]

definition trim_span :: "pytext \<Rightarrow> nat \<Rightarrow> nat \<Rightarrow> span" where
  "trim_span t a b = (let a' = skip_left t a b in mk_span a' (skip_right t a' b))"

definition heading_spans :: "unicode \<Rightarrow> pytext \<Rightarrow> span list" where
  "heading_spans u t = map (\<lambda>(s, e, ms). trim_span t s (first_mark s ms))
     (find_matches t (length t) (heading_re u) 0)"

abbreviation span_text :: "pytext \<Rightarrow> span \<Rightarrow> pytext" where
  "span_text t s \<equiv> slice (sp_start s) (sp_end s) t"

definition upper_share_ok :: "unicode \<Rightarrow> pytext \<Rightarrow> bool" where
  "upper_share_ok u title \<longleftrightarrow>
     (let letters = filter (uc_alpha u) title;
          ratio = (if letters \<noteq> [] then binary64 (of_nat (length (filter (uc_upper u) letters)) / of_nat (length letters))
                   else 0)
      in binary64 (7 / 10) \<le> ratio)"

definition is_major_heading :: "unicode \<Rightarrow> pytext \<Rightarrow> bool" where
  "is_major_heading u v =
     (if prefix_matches (Cat (number_part u) (Cat dot_char (many_one space))) v then True
      else case match_at v (length v) roman_major_re 0 of
          Some (e, ms) \<Rightarrow> upper_share_ok u (slice (first_mark 0 ms) e v)
        | None \<Rightarrow> prefix_matches (Alt (literal (ascii ''Appendix'')) (literal (ascii ''Acknowledg''))) v)"

definition is_subsection :: "unicode \<Rightarrow> pytext \<Rightarrow> bool" where
  "is_subsection u v \<longleftrightarrow>
     prefix_matches (Cat (number_part u) (Cat dot_char (Class nonzero_digit))) v"

definition major_headings :: "unicode \<Rightarrow> pytext \<Rightarrow> span list \<Rightarrow> span list" where
  "major_headings u t hs =
     filter (\<lambda>h. is_major_heading u (span_text t h) \<and> \<not> is_subsection u (span_text t h)) hs"

definition unknown_heading :: pytext where "unknown_heading = ascii ''UNKNOWN''"

text \<open>The number in three digits at least.\<close>

definition three_digits :: "nat \<Rightarrow> pytext" where
  "three_digits n = replicate (3 - length (decimal n)) 48 @ decimal n"

definition mk_section :: "nat \<Rightarrow> nat \<Rightarrow> pytext \<Rightarrow> pytext \<Rightarrow> section_span" where
  "mk_section a b i h = \<lparr>sp_start = a, sp_end = b, ss_section_id = i, ss_heading = h\<rparr>"

text \<open>A section reaches from its heading to the next one.\<close>

fun sections_from :: "pytext \<Rightarrow> string \<Rightarrow> nat \<Rightarrow> span list \<Rightarrow> section_span list" where
  "sections_from t prefix i [] = []"
| "sections_from t prefix i (h # hs) =
     mk_section (sp_start h) (case hs of h' # _ \<Rightarrow> sp_start h' | [] \<Rightarrow> length t)
       (ascii prefix @ ascii ''-'' @ three_digits (i + 1)) (span_text t h) # sections_from t prefix (i + 1) hs"

definition section_spans :: "unicode \<Rightarrow> bool \<Rightarrow> pytext \<Rightarrow> section_span list" where
  "section_spans u major_only t =
     (let hs = (if major_only then major_headings u t (heading_spans u t) else heading_spans u t);
          unknown_id = ascii (if major_only then ''parent-unknown-000'' else ''section-unknown-000'')
      in case hs of
          [] \<Rightarrow> [mk_section 0 (length t) unknown_id unknown_heading]
        | h # _ \<Rightarrow>
            (if sp_start h > 0 then [mk_section 0 (sp_start h) unknown_id unknown_heading] else []) @
            sections_from t (if major_only then ''parent'' else ''section'') 0 hs)"

subsection \<open>Units\<close>

definition keep_span :: "pytext \<Rightarrow> nat \<Rightarrow> nat \<Rightarrow> span list" where
  "keep_span t a b = (if trim (slice a b t) \<noteq> [] then [mk_span a b] else [])"

text \<open>The text cut after every match; what is white space only is dropped.\<close>

fun cut_after :: "pytext \<Rightarrow> nat \<Rightarrow> nat \<Rightarrow> rx_match list \<Rightarrow> span list" where
  "cut_after t cursor b [] = keep_span t cursor b"
| "cut_after t cursor b ((_, e, _) # ms) = keep_span t cursor e @ cut_after t e b ms"

definition paragraph_spans :: "pytext \<Rightarrow> nat \<Rightarrow> nat \<Rightarrow> span list" where
  "paragraph_spans t a b = cut_after t a b (find_matches t b paragraph_break_re a)"

definition sentence_spans :: "pytext \<Rightarrow> nat \<Rightarrow> nat \<Rightarrow> span list" where
  "sentence_spans t a b = cut_after t a b (find_matches t b sentence_end_re a)"

text \<open>A limit of 0 would loop; the configurations have 1280.\<close>

function hard_cuts :: "nat \<Rightarrow> nat \<Rightarrow> nat \<Rightarrow> span list" where
  "hard_cuts m cursor b =
     (if cursor < b \<and> 0 < m
      then (let boundary = min (cursor + m) b in mk_span cursor boundary # hard_cuts m boundary b)
      else [])"
  by pat_completeness auto
termination by (relation "measure (\<lambda>(m, c, b). b - c)") auto

declare hard_cuts.simps [simp del]

definition sentence_units :: "nat \<Rightarrow> span \<Rightarrow> span list" where
  "sentence_units m s = (if span_length s \<le> int m then [s] else hard_cuts m (sp_start s) (sp_end s))"

definition paragraph_units :: "pytext \<Rightarrow> nat \<Rightarrow> span \<Rightarrow> span list" where
  "paragraph_units t m p =
     (if span_length p \<le> int m then [p]
      else concat (map (sentence_units m) (sentence_spans t (sp_start p) (sp_end p))))"

text \<open>The first unit begins where the section does, the last one ends there.\<close>

definition stretch :: "nat \<Rightarrow> nat \<Rightarrow> span list \<Rightarrow> span list" where
  "stretch a b us =
     (if us = [] then []
      else (let vs = us[0 := mk_span a (sp_end (us ! 0))]; n = length vs - 1
            in vs[n := mk_span (sp_start (vs ! n)) b]))"

definition atomic_spans :: "pytext \<Rightarrow> 'a section_span_scheme \<Rightarrow> nat \<Rightarrow> span list" where
  "atomic_spans t sec m =
     stretch (sp_start sec) (sp_end sec)
       (concat (map (paragraph_units t m) (paragraph_spans t (sp_start sec) (sp_end sec))))"

subsection \<open>Grouping\<close>

text \<open>The distance from \<open>start\<close> to the end of a unit.\<close>

definition reach :: "span list \<Rightarrow> nat \<Rightarrow> nat \<Rightarrow> int" where
  "reach us start i = int (sp_end (us ! i)) - int start"

function fill :: "span list \<Rightarrow> nat \<Rightarrow> nat \<Rightarrow> nat \<Rightarrow> nat" where
  "fill us start target stop =
     (if stop < length us \<and> reach us start stop \<le> int target then fill us start target (stop + 1) else stop)"
  by pat_completeness auto
termination by (relation "measure (\<lambda>(us, a, g, i). length us - i)") auto

fun back_up :: "span list \<Rightarrow> nat \<Rightarrow> nat \<Rightarrow> nat \<Rightarrow> nat \<Rightarrow> nat" where
  "back_up us index chunk_end overlap i =
     (if index < i \<and> int chunk_end - int (sp_start (us ! i)) < int overlap
      then back_up us index chunk_end overlap (i - 1) else i)"

declare fill.simps [simp del] back_up.simps [simp del]

text \<open>Where the chunk that begins with a unit stops: one unit more when that is as close to the target.\<close>

definition chunk_stop :: "structural_config \<Rightarrow> span list \<Rightarrow> nat \<Rightarrow> nat" where
  "chunk_stop c us index =
     (let start = sp_start (us ! index);
          stop = fill us start (sc_target_chars c) (index + 1)
      in if stop < length us \<and> reach us start stop \<le> int (sc_max_chars c) \<and>
            \<bar>reach us start stop - int (sc_target_chars c)\<bar>
              \<le> \<bar>reach us start (stop - 1) - int (sc_target_chars c)\<bar>
         then stop + 1 else stop)"

text \<open>The unit the next chunk begins with.\<close>

definition next_index :: "structural_config \<Rightarrow> span list \<Rightarrow> nat \<Rightarrow> nat" where
  "next_index c us index =
     (let stop = chunk_stop c us index; chunk_end = sp_end (us ! (stop - 1))
      in if span_length (us ! stop) + int (sc_overlap_target_chars c) > int (sc_max_chars c) then stop
         else max (index + 1) (back_up us index chunk_end (sc_overlap_target_chars c) (stop - 1)))"

lemma fill_ge: "i \<le> fill us a g i"
  by (induction us a g i rule: fill.induct) (subst fill.simps, auto)

lemma fill_le: "i \<le> length us \<Longrightarrow> fill us a g i \<le> length us"
proof (induction us a g i rule: fill.induct)
  case (1 us a g i)
  then show ?case by (subst fill.simps) (auto split: if_splits)
qed

lemma chunk_stop_bounds:
  "index < length us \<Longrightarrow> index < chunk_stop c us index \<and> chunk_stop c us index \<le> length us"
  using fill_ge [of "index + 1" us "sp_start (us ! index)" "sc_target_chars c"]
    fill_le [of "index + 1" us "sp_start (us ! index)" "sc_target_chars c"]
  by (auto simp: chunk_stop_def Let_def)

lemma next_index_greater: "index < length us \<Longrightarrow> index < next_index c us index"
  using chunk_stop_bounds [of index us c] by (auto simp: next_index_def Let_def)

function group_units :: "structural_config \<Rightarrow> span list \<Rightarrow> nat \<Rightarrow> span list" where
  "group_units c us index =
     (if index < length us
      then (let stop = chunk_stop c us index
            in mk_span (sp_start (us ! index)) (sp_end (us ! (stop - 1))) #
               (if length us \<le> stop then [] else group_units c us (next_index c us index)))
      else [])"
  by pat_completeness auto
termination
  by (relation "measure (\<lambda>(c, us, i). length us - i)")
    (auto intro!: diff_less_mono2 next_index_greater)

declare group_units.simps [simp del]

subsection \<open>The structural strategies\<close>

definition section_name :: "pytext \<Rightarrow> pytext option" where
  "section_name h = (if h = unknown_heading then None else Some h)"

definition section_chunks ::
  "structural_config \<Rightarrow> bool \<Rightarrow> pytext \<Rightarrow> section_span \<Rightarrow> raw_chunk list" where
  "section_chunks c parent_ids t sec =
     map (\<lambda>s. \<lparr>rc_text = span_text t s, rc_source_start = sp_start s, rc_source_end = sp_end s,
                rc_section_name = section_name (ss_heading sec),
                rc_parent_source_id = (if parent_ids then Some (ss_section_id sec) else None)\<rparr>)
       (filter (\<lambda>s. trim (span_text t s) \<noteq> [])
         (group_units c (atomic_spans t sec (sc_max_chars c)) 0))"

definition split_structural :: "unicode \<Rightarrow> structural_config \<Rightarrow> bool \<Rightarrow> pytext \<Rightarrow> raw_chunk list" where
  "split_structural u c parent_ids t =
     concat (map (section_chunks c parent_ids t) (section_spans u parent_ids t))"

subsection \<open>The fixed-size strategy\<close>

text \<open>The units closed so far and the text since the last boundary.\<close>

definition add_part :: "pytext list \<times> pytext \<Rightarrow> pytext \<Rightarrow> pytext list \<times> pytext" where
  "add_part st part = (case st of (units, current) \<Rightarrow>
     if part = [] then (units, current)
     else (let current = current @ part
           in if full_match boundary_re part \<noteq> None
              then (if trim current \<noteq> [] then units @ [trim current] else units, [])
              else (units, current)))"

definition split_units :: "pytext \<Rightarrow> pytext list" where
  "split_units t = (case foldl add_part ([], []) (re_split_keeping boundary_re (trim t)) of
     (units, current) \<Rightarrow> if trim current \<noteq> [] then units @ [trim current] else units)"

function long_pieces :: "pytext \<Rightarrow> nat \<Rightarrow> nat \<Rightarrow> nat \<Rightarrow> pytext list" where
  "long_pieces unit chunk_size overlap start =
     (if start < length unit \<and> overlap < chunk_size
      then (let e = min (start + chunk_size) (length unit)
            in trim (slice start e unit) #
               (if length unit \<le> e then [] else long_pieces unit chunk_size overlap (e - overlap)))
      else [])"
  by pat_completeness auto
termination by (relation "measure (\<lambda>(t, s, v, a). length t - a)") auto

declare long_pieces.simps [simp del]

definition join_unit :: "pytext \<Rightarrow> pytext \<Rightarrow> pytext" where
  "join_unit current unit = (if current \<noteq> [] then trim (current @ 32 # unit) else unit)"

definition flush :: "pytext \<Rightarrow> pytext list" where
  "flush current = (if current \<noteq> [] then [trim current] else [])"

definition last_chars :: "nat \<Rightarrow> pytext \<Rightarrow> pytext" where
  "last_chars n t = drop (length t - n) t"

definition add_unit :: "nat \<Rightarrow> nat \<Rightarrow> pytext list \<times> pytext \<Rightarrow> pytext \<Rightarrow> pytext list \<times> pytext" where
  "add_unit chunk_size overlap st unit = (case st of (chunks, current) \<Rightarrow>
     if length unit > chunk_size then (chunks @ flush current @ long_pieces unit chunk_size overlap 0, [])
     else if length (join_unit current unit) \<le> chunk_size then (chunks, join_unit current unit)
     else (let tail = (if overlap \<noteq> 0 \<and> current \<noteq> [] then trim (last_chars overlap current) else [])
           in (chunks @ flush current, join_unit tail unit)))"

definition chunk_text :: "pytext \<Rightarrow> nat \<Rightarrow> nat \<Rightarrow> splitter_failure + pytext list" where
  "chunk_text t chunk_size overlap =
     (if chunk_size \<le> overlap then Inl Splitter_Value_Error
      else case foldl (add_unit chunk_size overlap) ([], []) (split_units t) of
          (chunks, current) \<Rightarrow> Inr (chunks @ flush current))"

text \<open>The words of a chunk with white space of any length between them.\<close>

fun spaced :: "pytext list \<Rightarrow> regex" where
  "spaced [] = Nothing"
| "spaced [w] = literal w"
| "spaced (w # ws) = Cat (literal w) (Cat (many_one space) (spaced ws))"

definition span_invalid :: splitter_failure where
  "span_invalid = Splitter_Error ''SPLITTER_SOURCE_SPAN_INVALID''"

definition locate :: "pytext \<Rightarrow> pytext \<Rightarrow> nat \<Rightarrow> splitter_failure + (nat \<times> nat)" where
  "locate t chunk lower = (case text_find chunk t lower of
     Some p \<Rightarrow> Inr (p, p + length chunk)
   | None \<Rightarrow>
       (let words = filter (\<lambda>w. w \<noteq> []) (re_split (many_one space) (trim chunk))
        in if words = [] then Inl span_invalid
           else of_option span_invalid (search_from t (spaced words) lower)))"

definition section_at :: "section_span list \<Rightarrow> nat \<Rightarrow> splitter_failure + section_span" where
  "section_at secs p = of_option Splitter_Stop_Iteration (find (\<lambda>s. sp_start s \<le> p \<and> p < sp_end s) secs)"

definition joint_heading :: "section_span \<Rightarrow> section_span \<Rightarrow> pytext" where
  "joint_heading opening closing =
     (if ss_section_id opening = ss_section_id closing then ss_heading opening
      else ss_heading opening @ ascii '' -> '' @ ss_heading closing)"

definition next_lower :: "nat \<Rightarrow> pytext \<Rightarrow> nat \<Rightarrow> nat \<Rightarrow> nat" where
  "next_lower overlap chunk start chunk_end =
     (if length chunk \<le> overlap then start else max (start + 1) (chunk_end - overlap))"

fun map_chunks ::
  "pytext \<Rightarrow> section_span list \<Rightarrow> nat \<Rightarrow> nat \<Rightarrow> pytext list \<Rightarrow> splitter_failure + raw_chunk list" where
  "map_chunks t secs overlap lower [] = Inr []"
| "map_chunks t secs overlap lower (chunk # rest) =
     bind_res (locate t chunk lower) (\<lambda>(a, b).
     bind_res (section_at secs a) (\<lambda>opening.
     bind_res (section_at secs (max a (b - 1))) (\<lambda>closing.
     bind_res (map_chunks t secs overlap (next_lower overlap chunk a b) rest) (\<lambda>cs.
       Inr (\<lparr>rc_text = slice a b t, rc_source_start = a, rc_source_end = b,
              rc_section_name = section_name (joint_heading opening closing), rc_parent_source_id = None\<rparr> # cs)))))"

definition split_fixed :: "unicode \<Rightarrow> nat \<Rightarrow> nat \<Rightarrow> pytext \<Rightarrow> splitter_failure + raw_chunk list" where
  "split_fixed u chunk_size overlap t =
     bind_res (chunk_text t chunk_size overlap) (map_chunks t (section_spans u False t) overlap 0)"

subsection \<open>The entry point\<close>

definition exact_chunk :: "pytext \<Rightarrow> raw_chunk \<Rightarrow> bool" where
  "exact_chunk t c \<longleftrightarrow> slice (rc_source_start c) (rc_source_end c) t = rc_text c"

definition split_text :: "unicode \<Rightarrow> pytext \<Rightarrow> string \<Rightarrow> splitter_failure + raw_chunk list" where
  "split_text u t strategy =
     (if strategy \<notin> set strategies then Inl (Splitter_Error ''UNSUPPORTED_SPLITTER_STRATEGY'')
      else if trim t = [] then Inl (Splitter_Error ''EMPTY_SOURCE_TEXT'')
      else bind_res
        (if strategy = ''fixed_boundary_v1'' then split_fixed u fixed_chunk_size fixed_overlap t
         else Inr (split_structural u structural_defaults (strategy = ''section_parent_child_v1'') t)) (\<lambda>chunks.
        if chunks = [] then Inl (Splitter_Error ''SPLITTER_EMPTY_RESULT'')
        else if \<forall>c \<in> set chunks. exact_chunk t c then Inr chunks
        else Inl span_invalid))"

end
