(* ===== verification/PdfParser.thy ===== *)
theory PdfParser
  imports Splitter IngestionModels
begin

text \<open>
  The text-PDF parser (\<^verbatim>\<open>backend/ingestion/parser.py\<close>): normalisation of a page's text, headings and
  section paths, the blocks of a page and the parse with its limits. The PDF library is an
  argument: opening the bytes yields an encryption flag, the result of trying the empty password and
  the pages, and each page its extracted text; any of these may raise. The lemmas show that the
  blocks are exact spans of the text and lose none of it.
\<close>

subsection \<open>Page text\<close>

text \<open>\<open>replace\<close> of a carriage return with its newline, then of the carriage returns left.\<close>

fun replace_crlf :: "pytext \<Rightarrow> pytext" where
  "replace_crlf (c # d # t) = (if c = 13 \<and> d = 10 then 10 # replace_crlf t else c # replace_crlf (d # t))"
| "replace_crlf t = t"

definition replace_cr :: "pytext \<Rightarrow> pytext" where
  "replace_cr t = map (\<lambda>c. if c = 13 then 10 else c) t"

text \<open>The category \<^verbatim>\<open>Cc\<close>.\<close>

definition control_char :: "nat \<Rightarrow> bool" where
  "control_char c \<longleftrightarrow> c < 32 \<or> 127 \<le> c \<and> c < 160"

fun split_lines :: "pytext \<Rightarrow> pytext list" where
  "split_lines [] = [[]]"
| "split_lines (c # t) = (if c = 10 then [] # split_lines t
     else case split_lines t of [] \<Rightarrow> [[c]] | l # ls \<Rightarrow> (c # l) # ls)"

text \<open>\<open>sub\<close> of a run of tabs and spaces by one space.\<close>

fun collapse_blanks :: "pytext \<Rightarrow> pytext" where
  "collapse_blanks (c # d # t) =
     (if blank_or_tab c then (if blank_or_tab d then collapse_blanks (d # t) else 32 # collapse_blanks (d # t))
      else c # collapse_blanks (d # t))"
| "collapse_blanks [c] = [if blank_or_tab c then 32 else c]"
| "collapse_blanks [] = []"

definition normalize_page_text :: "pytext \<Rightarrow> pytext" where
  "normalize_page_text t =
     (let t = replace_cr (replace_crlf t);
          t = filter (\<lambda>c. c = 10 \<or> c = 9 \<or> \<not> control_char c) t;
          lines = map (\<lambda>l. trim (collapse_blanks l)) (split_lines t)
      in trim (join [10] (filter (\<lambda>l. l \<noteq> []) lines)))"

subsection \<open>Headings\<close>

text \<open>A name, with or without a final letter.\<close>

definition name_re :: "string \<Rightarrow> regex" where
  "name_re s = any_case (ascii s)"

definition name_opt_re :: "string \<Rightarrow> string \<Rightarrow> regex" where
  "name_opt_re s final = Cat (name_re s) (optional (name_re final))"

definition named_heading_re :: regex where
  "named_heading_re = Cat (alternatives [name_re ''abstract'', name_re ''introduction'', name_re ''related work'',
     name_opt_re ''method'' ''s'', name_re ''methodology'', name_opt_re ''experiment'' ''s'',
     name_opt_re ''result'' ''s'', name_re ''discussion'', name_opt_re ''conclusion'' ''s'', name_re ''references'']) TextEnd"

abbreviation any_char :: regex where "any_char \<equiv> Class not_newline"

text \<open>The mark is the start of the title.\<close>

definition roman_heading_re :: regex where
  "roman_heading_re = Cat (many_one (Class (letters_of ''IVXLCDM''))) (Cat dot_char (Cat (many_one space)
     (Cat Mark (Cat (many_one any_char) TextEnd))))"

definition section_number_re :: "unicode \<Rightarrow> regex" where
  "section_number_re u = Cat (many_one (Class (uc_digit u))) (Many (Cat dot_char (many_one (Class (uc_digit u)))))"

text \<open>The marks are the end of the number and the start of the title.\<close>

definition numbered_heading_re :: "unicode \<Rightarrow> regex" where
  "numbered_heading_re u = Cat (section_number_re u) (Cat Mark (Cat (optional (Class (in_class ''.)'')))
     (Cat (many_one space) (Cat Mark (Cat (many_one any_char) TextEnd)))))"

definition word_char :: "unicode \<Rightarrow> nat \<Rightarrow> bool" where
  "word_char u c \<longleftrightarrow> uc_alnum u c \<or> c = 95"

definition sentence_words_re :: "unicode \<Rightarrow> regex" where
  "sentence_words_re u = Cat (Boundary (word_char u)) (Cat (alternatives (map (\<lambda>w. literal (ascii w))
     [''is'', ''are'', ''was'', ''were'', ''has'', ''have'', ''shows'', ''denotes'', ''contains'']))
     (Boundary (word_char u)))"

definition read_digits :: "unicode \<Rightarrow> pytext \<Rightarrow> nat" where
  "read_digits u t = foldl (\<lambda>n c. 10 * n + uc_digit_value u c) 0 t"

definition numbered_heading_ok :: "unicode \<Rightarrow> pytext \<Rightarrow> pytext \<Rightarrow> bool" where
  "numbered_heading_ok u number title \<longleftrightarrow>
     (let top_level = read_digits u (takeWhile (\<lambda>c. c \<noteq> 46) number); title = trim title
      in 1 \<le> top_level \<and> top_level \<le> 20 \<and> title \<noteq> [] \<and> uc_upper u (hd title) \<and>
         search_from title (sentence_words_re u) 0 = None)"

definition is_heading :: "unicode \<Rightarrow> pytext \<Rightarrow> bool" where
  "is_heading u t =
     (let v = trim t in
      if length v > 160 \<or> 10 \<in> set v then False
      else if full_match named_heading_re v \<noteq> None then True
      else case full_match roman_heading_re v of
          Some ms \<Rightarrow> (let title = trim (drop (first_mark 0 ms) v) in title \<noteq> [] \<and> upper_share_ok u title)
        | None \<Rightarrow> (case full_match (numbered_heading_re u) v of
            Some (e # ms) \<Rightarrow> numbered_heading_ok u (take e v) (drop (first_mark e ms) v)
          | _ \<Rightarrow> False))"

definition heading_level :: "unicode \<Rightarrow> pytext \<Rightarrow> nat" where
  "heading_level u t =
     (let v = trim t in case match_at v (length v) (section_number_re u) 0 of
        Some (e, _) \<Rightarrow> count_list (take e v) 46 + 1
      | None \<Rightarrow> 1)"

definition heading_path :: "unicode \<Rightarrow> pytext list \<Rightarrow> pytext \<Rightarrow> pytext list" where
  "heading_path u current h =
     (let level = heading_level u h in if level \<le> 1 then [h] else take (level - 1) current @ [h])"

subsection \<open>Blocks of a page\<close>

definition line_spans :: "pytext \<Rightarrow> (nat \<times> nat) list" where
  "line_spans t = map (\<lambda>(s, e, _). (s, e)) (find_matches t (length t) (many_one any_char) 0)"

definition ends_sentence :: "pytext \<Rightarrow> bool" where
  "ends_sentence v \<longleftrightarrow> search_from v (Cat (Class (\<lambda>c. in_class ''.!?'' c \<or> c = 12290 \<or> c = 65281 \<or> c = 65311))
     (Cat (Many space) TextEnd)) 0 \<noteq> None"

definition starts_paragraph :: "pytext \<Rightarrow> bool" where
  "starts_paragraph v \<longleftrightarrow>
     prefix_matches (Class (\<lambda>c. 65 \<le> c \<and> c \<le> 90 \<or> 48 \<le> c \<and> c \<le> 57 \<or> 19968 \<le> c \<and> c \<le> 40959)) v"

definition line_value :: "pytext \<Rightarrow> nat \<times> nat \<Rightarrow> pytext" where
  "line_value t l = trim (slice (fst l) (snd l) t)"

definition close_block :: "(nat \<times> nat) option \<Rightarrow> (nat \<times> nat) list" where
  "close_block active = (case active of None \<Rightarrow> [] | Some b \<Rightarrow> [b])"

definition block_begin :: "(nat \<times> nat) option \<Rightarrow> nat \<times> nat \<Rightarrow> nat" where
  "block_begin active l = (case active of None \<Rightarrow> fst l | Some b \<Rightarrow> fst b)"

text \<open>A block ends with a line when it is long, or the line ends a sentence and the next one begins one.\<close>

definition block_complete :: "pytext \<Rightarrow> nat \<times> nat \<Rightarrow> (nat \<times> nat) list \<Rightarrow> nat \<Rightarrow> bool" where
  "block_complete t l ls a \<longleftrightarrow>
     (let next_value = (case ls of [] \<Rightarrow> [] | l' # _ \<Rightarrow> line_value t l');
          paragraph_end = (ends_sentence (line_value t l) \<and> starts_paragraph next_value)
      in 1800 \<le> int (snd l) - int a \<or> paragraph_end)"

text \<open>The lines left and the block that is open.\<close>

fun block_spans :: "unicode \<Rightarrow> pytext \<Rightarrow> (nat \<times> nat) list \<Rightarrow> (nat \<times> nat) option \<Rightarrow> (nat \<times> nat) list" where
  "block_spans u t [] active = close_block active"
| "block_spans u t (l # ls) active =
     (if line_value t l = [] then block_spans u t ls active
      else if is_heading u (line_value t l) then close_block active @ l # block_spans u t ls None
      else if block_complete t l ls (block_begin active l)
      then (block_begin active l, snd l) # block_spans u t ls None
      else block_spans u t ls (Some (block_begin active l, snd l)))"

definition text_block_spans :: "unicode \<Rightarrow> pytext \<Rightarrow> (nat \<times> nat) list" where
  "text_block_spans u t = block_spans u t (line_spans t) None"

subsection \<open>Bytes\<close>

subsection \<open>The parse\<close>

datatype parse_failure = Pdf_Parse_Error string | Parse_Value_Error | Unicode_Encode_Error

record parser_limits =
  pl_minimum_text_characters :: nat
  pl_maximum_pdf_bytes :: nat
  pl_maximum_page_count :: nat
  pl_maximum_clean_text_bytes :: nat

definition default_limits :: parser_limits where
  "default_limits = \<lparr>pl_minimum_text_characters = 80, pl_maximum_pdf_bytes = 50 * 1024 * 1024,
     pl_maximum_page_count = 2000, pl_maximum_clean_text_bytes = 5 * 1024 * 1024\<rparr>"

text \<open>What the PDF library finds in the bytes; a page's extracted text is an error, nothing or text.\<close>

record pdf_document =
  pd_is_encrypted :: bool
  pd_decrypt_empty :: "unit + int"
  pd_pages :: "unit + (unit + pytext option) list"

type_synonym pdf_library = "nat list \<Rightarrow> unit + pdf_document"

definition pdf_signature :: "nat list" where "pdf_signature = ascii ''%PDF-''"

definition read_pages :: "pdf_library \<Rightarrow> nat list \<Rightarrow> parse_failure + (unit + pytext option) list" where
  "read_pages lib bytes =
     bind_res (or_error (Pdf_Parse_Error ''PDF_PARSE_FAILED'') (lib bytes)) (\<lambda>d.
     bind_res (if pd_is_encrypted d
               then bind_res (or_error (Pdf_Parse_Error ''PDF_PARSE_FAILED'') (pd_decrypt_empty d))
                      (\<lambda>r. if r = 0 then Inl (Pdf_Parse_Error ''PDF_ENCRYPTED'') else Inr ())
               else Inr ()) (\<lambda>_.
     or_error (Pdf_Parse_Error ''PDF_PARSE_FAILED'') (pd_pages d)))"

fun extract_pages :: "(unit + pytext option) list \<Rightarrow> parse_failure + pytext list" where
  "extract_pages [] = Inr []"
| "extract_pages (p # ps) =
     bind_res (or_error (Pdf_Parse_Error ''PDF_TEXT_EXTRACTION_FAILED'') p) (\<lambda>x.
     bind_res (extract_pages ps) (\<lambda>ts.
       Inr (normalize_page_text (case x of None \<Rightarrow> [] | Some t \<Rightarrow> t) # ts)))"

definition parse_status_of :: "nat \<Rightarrow> pytext list \<Rightarrow> parse_status \<times> string list" where
  "parse_status_of minimum extracted =
     (let non_empty = length (filter (\<lambda>t. t \<noteq> []) extracted); total = sum_list (map length extracted)
      in if non_empty = 0 then (PARSE_FAILED, [''NO_EXTRACTABLE_TEXT''])
         else if non_empty < length extracted then (PARSE_REVIEW, [''EMPTY_TEXT_PAGE_DETECTED''])
         else if total < minimum then (PARSE_REVIEW, [''EXTRACTED_TEXT_TOO_SHORT''])
         else (PARSE_PASS, []))"

definition clean_text :: "pytext list \<Rightarrow> pytext" where
  "clean_text extracted = join [10, 10] extracted"

text \<open>Where each page begins in the text, from \<open>cursor\<close> on.\<close>

fun page_offsets :: "nat \<Rightarrow> pytext list \<Rightarrow> nat list" where
  "page_offsets cursor [] = []"
| "page_offsets cursor (t # ts) = cursor # page_offsets (cursor + length t + 2) ts"

text \<open>The blocks of a page, with the section path they leave behind.\<close>

fun page_blocks :: "unicode \<Rightarrow> int \<Rightarrow> nat \<Rightarrow> pytext \<Rightarrow> (nat \<times> nat) list \<Rightarrow> pytext list \<Rightarrow>
    parsed_block list \<times> pytext list" where
  "page_blocks u page off t [] section = ([], section)"
| "page_blocks u page off t ((a, e) # spans) section =
     (let block_text = slice a e t;
          section = (if is_heading u (trim block_text) then heading_path u section (trim block_text) else section);
          (bs, last_section) = page_blocks u page off t spans section
      in (\<lparr>pb_page_number = page, pb_section_path = section, pb_source_start = int (off + a),
           pb_source_end = int (off + e), pb_text = block_text\<rparr> # bs, last_section))"

fun document_blocks :: "unicode \<Rightarrow> int \<Rightarrow> (nat \<times> pytext) list \<Rightarrow> pytext list \<Rightarrow> parsed_block list" where
  "document_blocks u page [] section = []"
| "document_blocks u page ((off, t) # pages) section =
     (case page_blocks u page off t (text_block_spans u t) section of
        (bs, section') \<Rightarrow> bs @ document_blocks u (page + 1) pages section')"

definition parsed_pdf_ok :: "parsed_pdf \<Rightarrow> bool" where
  "parsed_pdf_ok p \<longleftrightarrow> sha256_ok (pp_pdf_sha256 p) \<and> sha256_ok (pp_source_text_sha256 p) \<and>
     1 \<le> pp_page_count p \<and> list_all contract_id_ok (pp_warnings p) \<and> list_all parsed_block_ok (pp_blocks p)"

definition build_parsed :: "unicode \<Rightarrow> (nat list \<Rightarrow> string) \<Rightarrow> parser_limits \<Rightarrow> nat list \<Rightarrow> pytext list \<Rightarrow>
    nat list \<Rightarrow> parse_failure + parsed_pdf" where
  "build_parsed u sha limits bytes extracted encoded =
     (let (status, warnings) = parse_status_of (pl_minimum_text_characters limits) extracted;
          p = \<lparr>pp_pdf_sha256 = sha bytes, pp_source_text_sha256 = sha encoded,
               pp_clean_text = clean_text extracted, pp_page_count = int (length extracted),
               pp_parse_status = status, pp_warnings = warnings,
               pp_blocks = document_blocks u 1 (zip (page_offsets 0 extracted) extracted) [ascii ''Document'']\<rparr>
      in if parsed_pdf_ok p then Inr p else Inl Parse_Value_Error)"

definition parse_pdf :: "unicode \<Rightarrow> pdf_library \<Rightarrow> (nat list \<Rightarrow> string) \<Rightarrow> parser_limits \<Rightarrow> nat list \<Rightarrow>
    parse_failure + parsed_pdf" where
  "parse_pdf u lib sha limits bytes =
     (if pl_maximum_pdf_bytes limits < length bytes then Inl (Pdf_Parse_Error ''PDF_TOO_LARGE'')
      else if take (length pdf_signature) bytes \<noteq> pdf_signature then Inl (Pdf_Parse_Error ''PDF_SIGNATURE_INVALID'')
      else bind_res (read_pages lib bytes) (\<lambda>raw_pages.
        if raw_pages = [] then Inl (Pdf_Parse_Error ''PDF_HAS_NO_PAGES'')
        else if pl_maximum_page_count limits < length raw_pages then Inl (Pdf_Parse_Error ''PDF_PAGE_LIMIT_EXCEEDED'')
        else bind_res (extract_pages raw_pages) (\<lambda>extracted.
          case utf8 (clean_text extracted) of
            None \<Rightarrow> Inl Unicode_Encode_Error
          | Some encoded \<Rightarrow>
              if pl_maximum_clean_text_bytes limits < length encoded
              then Inl (Pdf_Parse_Error ''PDF_CLEAN_TEXT_TOO_LARGE'')
              else build_parsed u sha limits bytes extracted encoded)))"

text \<open>The constructor: limits must be positive.\<close>

definition pypdf_text_parser :: "unicode \<Rightarrow> pdf_library \<Rightarrow> (nat list \<Rightarrow> string) \<Rightarrow> parser_limits \<Rightarrow>
    parse_failure + (nat list \<Rightarrow> parse_failure + parsed_pdf)" where
  "pypdf_text_parser u lib sha limits =
     (if min (min (pl_minimum_text_characters limits) (pl_maximum_pdf_bytes limits))
           (min (pl_maximum_page_count limits) (pl_maximum_clean_text_bytes limits)) < 1
      then Inl Parse_Value_Error else Inr (parse_pdf u lib sha limits))"

end
