(* ===== verification/SplitterSpans.thy ===== *)
theory SplitterSpans
  imports Splitter
begin

text \<open>
  The structural strategies of the splitter lose no text: spans in order (\<open>chained\<close>) that contain
  every character which is not white space (\<open>covering\<close>) are kept by each stage, from paragraphs to
  units, groups and sections; a chunk is at most as long as the limit, up to white space at its
  ends.
\<close>

subsection \<open>Spans in order that cover the text\<close>

fun chained :: "nat \<Rightarrow> span list \<Rightarrow> nat \<Rightarrow> bool" where
  "chained a [] b \<longleftrightarrow> a \<le> b"
| "chained a (s # ss) b \<longleftrightarrow> a \<le> sp_start s \<and> sp_start s < sp_end s \<and> chained (sp_end s) ss b"

definition inside :: "nat \<Rightarrow> span \<Rightarrow> bool" where
  "inside p s \<longleftrightarrow> sp_start s \<le> p \<and> p < sp_end s"

definition covering :: "pytext \<Rightarrow> nat \<Rightarrow> nat \<Rightarrow> span list \<Rightarrow> bool" where
  "covering t a b us \<longleftrightarrow> (\<forall>p. a \<le> p \<and> p < b \<and> \<not> uspace (t ! p) \<longrightarrow> (\<exists>s \<in> set us. inside p s))"

lemma chained_le: "chained a us b \<Longrightarrow> a \<le> b"
  by (induction a us b rule: chained.induct) auto

lemma chained_mono: "chained a us b \<Longrightarrow> a' \<le> a \<Longrightarrow> chained a' us b"
  by (cases us) auto

lemma chained_append: "chained a xs m \<Longrightarrow> chained m ys b \<Longrightarrow> chained a (xs @ ys) b"
  by (induction a xs m rule: chained.induct) (auto intro: chained_mono)

lemma chained_bounds: "chained a us b \<Longrightarrow> s \<in> set us \<Longrightarrow> a \<le> sp_start s \<and> sp_start s < sp_end s \<and> sp_end s \<le> b"
proof (induction a us b rule: chained.induct)
  case (2 a u us b)
  then show ?case using chained_le [of "sp_end u" us b] by fastforce
qed simp

lemma chained_Cons_bounds:
  "chained a (u # us) b \<Longrightarrow> s \<in> set us \<Longrightarrow> sp_end u \<le> sp_start s"
  using chained_bounds [of "sp_end u" us b s] by simp

lemma chained_nth_le:
  "chained a us b \<Longrightarrow> i < j \<Longrightarrow> j < length us \<Longrightarrow> sp_end (us ! i) \<le> sp_start (us ! j)"
proof (induction us arbitrary: a i j)
  case (Cons u us)
  obtain k where j: "j = Suc k" using Cons.prems by (cases j) auto
  show ?case
  proof (cases i)
    case 0
    with Cons.prems j show ?thesis using chained_Cons_bounds [of a u us b "us ! k"] by simp
  next
    case (Suc l)
    with Cons.prems Cons.IH [of "sp_end u" l k] j show ?thesis by simp
  qed
qed simp

lemma covering_append: "covering t a m xs \<Longrightarrow> covering t m b ys \<Longrightarrow> covering t a b (xs @ ys)"
  unfolding covering_def set_append by (meson UnCI not_le)

lemma covering_D: "covering t a b us \<Longrightarrow> a \<le> p \<Longrightarrow> p < b \<Longrightarrow> \<not> uspace (t ! p) \<Longrightarrow> \<exists>s \<in> set us. inside p s"
  by (simp add: covering_def)

lemma blank_slice:
  assumes "b \<le> length t"
  shows "blank (slice a b t) \<longleftrightarrow> (\<forall>p. a \<le> p \<and> p < b \<longrightarrow> uspace (t ! p))"
proof -
  have "blank (slice a b t) \<longleftrightarrow> (\<forall>i < b - a. uspace (t ! (a + i)))"
    using assms by (auto simp: blank_def list_all_length length_slice nth_slice)
  also have "\<dots> \<longleftrightarrow> (\<forall>p. a \<le> p \<and> p < b \<longrightarrow> uspace (t ! p))"
  proof (intro iffI allI impI)
    fix p assume "\<forall>i < b - a. uspace (t ! (a + i))" and "a \<le> p \<and> p < b"
    then show "uspace (t ! p)" by (auto dest!: spec [of _ "p - a"])
  qed auto
  finally show ?thesis .
qed

lemma blank_slice_empty: "b \<le> a \<Longrightarrow> blank (slice a b t)"
  by (simp add: slice_empty)

subsection \<open>Paragraphs, sentences and units\<close>

lemma keep_span_chained: "a \<le> b \<Longrightarrow> chained a (keep_span t a b) b"
  using blank_slice_empty [of b a t] by (auto simp: keep_span_def trim_Nil_iff le_less)

lemma keep_span_covering: "b \<le> length t \<Longrightarrow> covering t a b (keep_span t a b)"
  by (auto simp: keep_span_def trim_Nil_iff covering_def inside_def blank_slice)

lemma cut_after_spans:
  assumes "ordered_matches c b ms" and "c \<le> b" and "b \<le> length t"
  shows "chained c (cut_after t c b ms) b \<and> covering t c b (cut_after t c b ms)"
  using assms
proof (induction t c b ms rule: cut_after.induct)
  case (1 t c b)
  then show ?case by (simp add: keep_span_chained keep_span_covering)
next
  case (2 t c b s e m ms)
  then have e: "c \<le> e" "e \<le> b" by auto
  with 2 have "chained e (cut_after t e b ms) b \<and> covering t e b (cut_after t e b ms)" by auto
  then show ?case
    using e 2(4) chained_append [OF keep_span_chained] covering_append [OF keep_span_covering] by auto
qed

lemma paragraph_spans_spans:
  "a \<le> b \<Longrightarrow> b \<le> length t \<Longrightarrow> chained a (paragraph_spans t a b) b \<and> covering t a b (paragraph_spans t a b)"
  unfolding paragraph_spans_def by (intro cut_after_spans find_matches_ordered)

lemma sentence_spans_spans:
  "a \<le> b \<Longrightarrow> b \<le> length t \<Longrightarrow> chained a (sentence_spans t a b) b \<and> covering t a b (sentence_spans t a b)"
  unfolding sentence_spans_def by (intro cut_after_spans find_matches_ordered)

text \<open>Replacing each span by spans that cover it.\<close>

lemma refine_spans:
  assumes "\<And>s. s \<in> set us \<Longrightarrow> chained (sp_start s) (f s) (sp_end s) \<and> covering t (sp_start s) (sp_end s) (f s)"
    and "chained a us b"
  shows "chained a (concat (map f us)) b"
    and "covering t a b us \<Longrightarrow> covering t a b (concat (map f us))"
proof -
  show "chained a (concat (map f us)) b"
    using assms
  proof (induction us arbitrary: a)
    case (Cons u us)
    then have "chained (sp_start u) (f u) (sp_end u)" and "chained (sp_end u) (concat (map f us)) b"
      and "a \<le> sp_start u" by auto
    then show ?case using chained_append chained_mono by fastforce
  qed simp
  show "covering t a b (concat (map f us))" if "covering t a b us"
    unfolding covering_def
  proof (intro allI impI)
    fix p assume p: "a \<le> p \<and> p < b \<and> \<not> uspace (t ! p)"
    with that obtain s where s: "s \<in> set us" "inside p s" by (auto dest: covering_D)
    with assms(1) [of s] p obtain r where "r \<in> set (f s)" "inside p r"
      unfolding covering_def inside_def by blast
    with s show "\<exists>s \<in> set (concat (map f us)). inside p s" by auto
  qed
qed

lemma hard_cuts_spans:
  "0 < m \<Longrightarrow> c \<le> b \<Longrightarrow> chained c (hard_cuts m c b) b \<and> covering t c b (hard_cuts m c b) \<and>
     (\<forall>s \<in> set (hard_cuts m c b). span_length s \<le> int m)"
proof (induction m c b rule: hard_cuts.induct)
  case (1 m c b)
  show ?case
  proof (cases "c < b")
    case True
    let ?d = "min (c + m) b"
    have IH: "chained ?d (hard_cuts m ?d b) b \<and> covering t ?d b (hard_cuts m ?d b) \<and>
       (\<forall>s \<in> set (hard_cuts m ?d b). span_length s \<le> int m)"
      using 1 True by simp
    have eq: "hard_cuts m c b = [mk_span c ?d] @ hard_cuts m ?d b"
      using True 1(2) by (subst hard_cuts.simps) (simp add: Let_def)
    have "covering t c ?d [mk_span c ?d]" by (simp add: covering_def inside_def)
    with IH have "covering t c b (hard_cuts m c b)" unfolding eq by (intro covering_append) auto
    moreover have "chained c (hard_cuts m c b) b" unfolding eq using IH True 1(2) by simp
    ultimately show ?thesis using IH unfolding eq by (auto simp: span_length_def)
  next
    case False
    with 1 show ?thesis by (subst (1 2 3) hard_cuts.simps) (simp add: covering_def)
  qed
qed

lemma sentence_units_spans:
  assumes "0 < m" and "sp_start s < sp_end s"
  shows "chained (sp_start s) (sentence_units m s) (sp_end s) \<and>
    covering t (sp_start s) (sp_end s) (sentence_units m s) \<and>
    (\<forall>u \<in> set (sentence_units m s). span_length u \<le> int m)"
  using assms hard_cuts_spans [of m "sp_start s" "sp_end s"]
  by (auto simp: sentence_units_def covering_def inside_def)

lemma paragraph_units_spans:
  assumes "0 < m" and "sp_start p < sp_end p" and "sp_end p \<le> length t"
  shows "chained (sp_start p) (paragraph_units t m p) (sp_end p) \<and>
    covering t (sp_start p) (sp_end p) (paragraph_units t m p) \<and>
    (\<forall>u \<in> set (paragraph_units t m p). span_length u \<le> int m)"
proof (cases "span_length p \<le> int m")
  case True
  with assms show ?thesis by (simp add: paragraph_units_def covering_def inside_def)
next
  case False
  let ?ss = "sentence_spans t (sp_start p) (sp_end p)"
  have ss: "chained (sp_start p) ?ss (sp_end p)" "covering t (sp_start p) (sp_end p) ?ss"
    using sentence_spans_spans [of "sp_start p" "sp_end p" t] assms by auto
  have one: "sp_start s < sp_end s" if "s \<in> set ?ss" for s
    using chained_bounds [OF ss(1) that] by simp
  note f = sentence_units_spans [OF assms(1) one]
  have "chained (sp_start p) (concat (map (sentence_units m) ?ss)) (sp_end p)"
    by (rule refine_spans(1) [where t = t]) (use f ss in auto)
  moreover have "covering t (sp_start p) (sp_end p) (concat (map (sentence_units m) ?ss))"
    by (rule refine_spans(2)) (use f ss in auto)
  ultimately show ?thesis using False f by (auto simp: paragraph_units_def)
qed

subsection \<open>Stretching\<close>

lemma chained_snoc:
  "chained a (xs @ [w]) b \<longleftrightarrow> chained a xs (sp_start w) \<and> sp_start w < sp_end w \<and> sp_end w \<le> b"
  by (induction xs arbitrary: a) auto

lemma stretch_one [simp]: "stretch a b [u] = [mk_span a b]"
  by (simp add: stretch_def Let_def)

lemma stretch_more [simp]:
  "stretch a b (u # ws @ [w]) = mk_span a (sp_end u) # ws @ [mk_span (sp_start w) b]"
  by (simp add: stretch_def Let_def nth_append list_update_append)

lemma stretch_none [simp]: "stretch a b [] = []"
  by (simp add: stretch_def)

lemma span_list_cases:
  obtains "us = []" | u where "us = [u]" | u ws w where "us = u # ws @ [w]"
  by (metis neq_Nil_conv rev_exhaust)

lemma stretch_chained: "chained a us b \<Longrightarrow> chained a (stretch a b us) b"
  by (cases us rule: span_list_cases) (auto simp: chained_snoc)

lemma stretch_covering:
  assumes "chained a us b" and "covering t a b us"
  shows "covering t a b (stretch a b us)"
proof (cases us rule: span_list_cases)
  case 3
  with assms show ?thesis unfolding covering_def inside_def by (fastforce simp: chained_snoc)
qed (use assms in \<open>auto simp: covering_def inside_def\<close>)

text \<open>A unit and what stretching makes of it.\<close>

definition core :: "pytext \<Rightarrow> span \<Rightarrow> nat" where
  "core t s = length (trim (span_text t s))"

lemma strip_text_append_le:
  assumes "list_all p zs"
  shows "length (strip_text p (ys @ zs)) \<le> length ys"
proof (cases "list_all p ys")
  case True
  with assms have "strip_text p (ys @ zs) = []" by (simp add: strip_text_Nil_iff)
  then show ?thesis by simp
next
  case False
  then obtain y where y: "y \<in> set ys" "\<not> p y" by (auto simp: list_all_iff)
  then have "dropWhile p (ys @ zs) = dropWhile p ys @ zs" by (rule dropWhile_append1)
  moreover have "dropWhile p (rev zs @ ws) = dropWhile p ws" for ws
    using assms by (intro dropWhile_append2) (auto simp: list_all_iff)
  ultimately have "strip_text p (ys @ zs) = rev (dropWhile p (rev (dropWhile p ys)))"
    by (simp add: strip_text_def)
  also have "length \<dots> \<le> length (dropWhile p ys)" by (metis length_dropWhile_le length_rev)
  also have "\<dots> \<le> length ys" by (rule length_dropWhile_le)
  finally show ?thesis .
qed

lemma strip_text_prepend: "list_all p xs \<Longrightarrow> strip_text p (xs @ ys) = strip_text p ys"
  unfolding strip_text_def by (subst dropWhile_append2) (auto simp: list_all_iff)

lemma core_le:
  assumes "a \<le> sp_start s" and "sp_start s \<le> sp_end s" and "sp_end s \<le> b"
    and "blank (slice a (sp_start s) t)" and "blank (slice (sp_end s) b t)"
  shows "core t (mk_span a b) \<le> sp_end s - sp_start s"
proof -
  have "slice a b t = slice a (sp_start s) t @ slice (sp_start s) (sp_end s) t @ slice (sp_end s) b t"
    using assms(1-3) by (simp add: slice_append)
  then have "core t (mk_span a b) \<le> length (slice (sp_start s) (sp_end s) t)"
    unfolding core_def using assms(4,5) by (simp add: strip_text_prepend strip_text_append_le blank_def)
  then show ?thesis by (simp add: length_slice)
qed

lemma core_le_length: "sp_start s \<le> sp_end s \<Longrightarrow> core t s \<le> sp_end s - sp_start s"
  using core_le [of "sp_start s" s "sp_end s" t] by (simp add: slice_empty core_def)

lemma blank_before:
  assumes "chained a (u # us) b" and "covering t a b (u # us)" and "b \<le> length t"
  shows "blank (slice a (sp_start u) t)"
proof -
  have "uspace (t ! p)" if p: "a \<le> p" "p < sp_start u" for p
  proof (rule ccontr)
    assume np: "\<not> uspace (t ! p)"
    have "p < b" using chained_bounds [OF assms(1), of u] p by simp
    with covering_D [OF assms(2) p(1) _ np] obtain s where s: "s \<in> set (u # us)" "inside p s" by blast
    have "sp_start u \<le> sp_start s"
      using s(1) chained_Cons_bounds [OF assms(1), of s] chained_bounds [OF assms(1), of u] by auto
    with s p show False by (simp add: inside_def)
  qed
  moreover have "sp_start u \<le> length t" using chained_bounds [OF assms(1), of u] assms(3) by simp
  ultimately show ?thesis by (simp add: blank_slice)
qed

lemma blank_after:
  assumes "chained a (us @ [w]) b" and "covering t a b (us @ [w])" and "b \<le> length t"
  shows "blank (slice (sp_end w) b t)"
proof -
  have "uspace (t ! p)" if p: "sp_end w \<le> p" "p < b" for p
  proof (rule ccontr)
    assume np: "\<not> uspace (t ! p)"
    have w: "chained a us (sp_start w)" "sp_start w < sp_end w" using assms(1) by (auto simp: chained_snoc)
    then have "a \<le> p" using p chained_le by fastforce
    with covering_D [OF assms(2) _ p(2) np] obtain s where s: "s \<in> set (us @ [w])" "inside p s" by blast
    have "sp_end s \<le> sp_end w" using s(1) chained_bounds [OF w(1)] w(2) by fastforce
    with s p show False by (simp add: inside_def)
  qed
  with assms(3) show ?thesis by (simp add: blank_slice)
qed

lemma span_length_le: "span_length u \<le> int m \<Longrightarrow> sp_end u - sp_start u \<le> m"
  by (simp add: span_length_def)

lemma stretch_core:
  assumes "chained a us b" and "covering t a b us" and "b \<le> length t"
    and "\<forall>u \<in> set us. span_length u \<le> int m" and "s \<in> set (stretch a b us)"
  shows "core t s \<le> m"
proof (cases us rule: span_list_cases)
  case 1
  with assms(5) show ?thesis by simp
next
  case (2 u)
  have "blank (slice a (sp_start u) t)" "blank (slice (sp_end u) b t)"
    using blank_before [of a u "[]" b t] blank_after [of a "[]" u b t] assms(1-3) 2 by auto
  with assms 2 core_le [of a u b t] show ?thesis by (auto simp: span_length_def)
next
  case (3 u ws w)
  then have pre: "blank (slice a (sp_start u) t)" and suf: "blank (slice (sp_end w) b t)"
    using blank_before [of a u "ws @ [w]" b t] blank_after [of a "u # ws" w b t] assms(1-3) by auto
  have ord: "a \<le> sp_start u" "sp_start u < sp_end u" "sp_start w < sp_end w" "sp_end w \<le> b"
    using assms(1) 3 by (auto simp: chained_snoc)
  from assms(5) 3 consider "s = mk_span a (sp_end u)" | "s \<in> set ws" | "s = mk_span (sp_start w) b" by auto
  then show ?thesis
  proof cases
    case 1
    have "core t s \<le> sp_end u - sp_start u" using core_le [of a u "sp_end u" t] pre ord 1 by (simp add: slice_empty)
    also have "\<dots> \<le> m" using assms(4) 3 by (intro span_length_le) simp
    finally show ?thesis .
  next
    case 2
    then have "core t s \<le> sp_end s - sp_start s"
      using chained_bounds [OF assms(1), of s] 3 by (intro core_le_length) simp
    also have "\<dots> \<le> m" using assms(4) 2 3 by (intro span_length_le) simp
    finally show ?thesis .
  next
    case last: 3
    have "core t s \<le> sp_end w - sp_start w" using core_le [of "sp_start w" w b t] suf ord last by (simp add: slice_empty)
    also have "\<dots> \<le> m" using assms(4) 3 by (intro span_length_le) simp
    finally show ?thesis .
  qed
qed

text \<open>What a section is cut into.\<close>

lemma atomic_spans_spans:
  assumes "0 < m" and "sp_start sec \<le> sp_end sec" and "sp_end sec \<le> length t"
  shows "chained (sp_start sec) (atomic_spans t sec m) (sp_end sec)"
    and "covering t (sp_start sec) (sp_end sec) (atomic_spans t sec m)"
    and "\<And>s. s \<in> set (atomic_spans t sec m) \<Longrightarrow> core t s \<le> m"
proof -
  let ?a = "sp_start sec" and ?b = "sp_end sec"
  let ?ps = "paragraph_spans t ?a ?b" and ?us = "concat (map (paragraph_units t m) (paragraph_spans t ?a ?b))"
  have ps: "chained ?a ?ps ?b" "covering t ?a ?b ?ps" using paragraph_spans_spans assms(2,3) by auto
  have "sp_start p < sp_end p \<and> sp_end p \<le> length t" if "p \<in> set ?ps" for p
    using chained_bounds [OF ps(1) that] assms(3) by simp
  then have f: "chained (sp_start p) (paragraph_units t m p) (sp_end p) \<and>
      covering t (sp_start p) (sp_end p) (paragraph_units t m p) \<and>
      (\<forall>u \<in> set (paragraph_units t m p). span_length u \<le> int m)" if "p \<in> set ?ps" for p
    using paragraph_units_spans [OF assms(1)] that by blast
  have us: "chained ?a ?us ?b" "covering t ?a ?b ?us"
    by (rule refine_spans [where t = t]; use f ps in blast)+
  show "chained ?a (atomic_spans t sec m) ?b" "covering t ?a ?b (atomic_spans t sec m)"
    unfolding atomic_spans_def using us stretch_chained stretch_covering by blast+
  have "\<forall>u \<in> set ?us. span_length u \<le> int m" using f by auto
  then show "core t s \<le> m" if "s \<in> set (atomic_spans t sec m)" for s
    using stretch_core [OF us assms(3)] that unfolding atomic_spans_def by blast
qed

subsection \<open>Grouping\<close>

lemma back_up_le: "back_up us index e v i \<le> i"
proof (induction us index e v i rule: back_up.induct)
  case (1 us index e v i)
  then show ?case by (subst back_up.simps) (auto intro: le_trans)
qed

lemma next_index_le: "index < length us \<Longrightarrow> next_index c us index \<le> chunk_stop c us index"
  using chunk_stop_bounds [of index us c]
    back_up_le [of us index "sp_end (us ! (chunk_stop c us index - 1))" "sc_overlap_target_chars c" "chunk_stop c us index - 1"]
  by (simp add: next_index_def Let_def) (intro impI, linarith)

lemma fill_reach: "i < fill us a g i \<Longrightarrow> reach us a (fill us a g i - 1) \<le> int g"
proof (induction us a g i rule: fill.induct)
  case (1 us a g i)
  show ?case
  proof (cases "i < length us \<and> reach us a i \<le> int g")
    case True
    then have eq: "fill us a g i = fill us a g (i + 1)" by (subst fill.simps) simp
    show ?thesis
    proof (cases "fill us a g (i + 1) = i + 1")
      case False
      then have "i + 1 < fill us a g (i + 1)" using fill_ge [of "i + 1" us a g] by simp
      with 1(1) True show ?thesis unfolding eq by simp
    qed (use True in \<open>simp add: eq\<close>)
  next
    case False
    then have "fill us a g i = i" by (subst fill.simps) auto
    with 1(2) show ?thesis by simp
  qed
qed

lemma chunk_stop_reach:
  assumes "sc_target_chars c \<le> sc_max_chars c"
  shows "chunk_stop c us i = i + 1 \<or> reach us (sp_start (us ! i)) (chunk_stop c us i - 1) \<le> int (sc_max_chars c)"
  using fill_reach [of "i + 1" us "sp_start (us ! i)" "sc_target_chars c"]
    fill_ge [of "i + 1" us "sp_start (us ! i)" "sc_target_chars c"] assms
  by (cases "i + 1 = fill us (sp_start (us ! i)) (sc_target_chars c) (i + 1)")
    (auto simp: chunk_stop_def Let_def)

definition groups :: "structural_config \<Rightarrow> span list \<Rightarrow> nat \<Rightarrow> span \<Rightarrow> bool" where
  "groups c us index g \<longleftrightarrow> (\<exists>i j. index \<le> i \<and> i \<le> j \<and> j < length us \<and>
     g = mk_span (sp_start (us ! i)) (sp_end (us ! j)) \<and> (i = j \<or> span_length g \<le> int (sc_max_chars c)))"

lemma groups_mono: "groups c us i g \<Longrightarrow> j \<le> i \<Longrightarrow> groups c us j g"
  unfolding groups_def using le_trans by blast

lemma group_units_unfold:
  "i < length us \<Longrightarrow> group_units c us i =
     mk_span (sp_start (us ! i)) (sp_end (us ! (chunk_stop c us i - 1))) #
     (if length us \<le> chunk_stop c us i then [] else group_units c us (next_index c us i))"
  by (subst group_units.simps) (simp add: Let_def)

lemma group_units_groups:
  assumes "sc_target_chars c \<le> sc_max_chars c" and "g \<in> set (group_units c us i)"
  shows "groups c us i g"
  using assms
proof (induction c us i rule: group_units.induct)
  case (1 c us i)
  show ?case
  proof (cases "i < length us")
    case True
    let ?j = "chunk_stop c us i - 1"
    let ?g = "mk_span (sp_start (us ! i)) (sp_end (us ! ?j))"
    have "groups c us i ?g"
      unfolding groups_def using chunk_stop_bounds [OF True, of c] chunk_stop_reach [OF 1(2), of us i]
      by (rule_tac exI [of _ i], rule_tac exI [of _ ?j]) (auto simp: reach_def span_length_def)
    moreover have "groups c us i g"
      if "g \<in> set (group_units c us (next_index c us i))" "\<not> length us \<le> chunk_stop c us i"
      using 1(1) [OF True refl that(2) 1(2) that(1)] next_index_greater [OF True, of c] by (auto intro: groups_mono)
    ultimately show ?thesis using 1(3) by (auto simp: group_units_unfold [OF True] split: if_splits)
  next
    case False
    with 1(3) show ?thesis by (simp add: group_units.simps)
  qed
qed

text \<open>No unit is left out.\<close>

lemma group_units_contains:
  assumes "chained a us b" and "i \<le> k" and "k < length us"
  shows "\<exists>g \<in> set (group_units c us i). sp_start g \<le> sp_start (us ! k) \<and> sp_end (us ! k) \<le> sp_end g"
  using assms
proof (induction c us i rule: group_units.induct)
  case (1 c us i)
  then have i: "i < length us" by simp
  have le: "sp_start (us ! x) \<le> sp_start (us ! y) \<and> sp_end (us ! x) \<le> sp_end (us ! y)"
    if "x \<le> y" "y < length us" for x y
    using chained_nth_le [OF 1(2), of x y] chained_bounds [OF 1(2), of "us ! x"] chained_bounds [OF 1(2), of "us ! y"] that
    by (cases "x = y") auto
  show ?case
  proof (cases "k < chunk_stop c us i")
    case True
    then have "sp_end (us ! k) \<le> sp_end (us ! (chunk_stop c us i - 1))"
      using le [of k "chunk_stop c us i - 1"] chunk_stop_bounds [OF i, of c] by auto
    with le [of i k] 1(3,4) show ?thesis by (simp add: group_units_unfold [OF i])
  next
    case False
    then have "\<not> length us \<le> chunk_stop c us i" and "next_index c us i \<le> k"
      using 1(4) next_index_le [OF i, of c] by auto
    with 1(1) [OF i refl _ 1(2) _ 1(4)] show ?thesis by (auto simp: group_units_unfold [OF i])
  qed
qed

lemma group_units_increasing:
  assumes "chained a us b" and "sc_target_chars c \<le> sc_max_chars c"
  shows "sorted_wrt (\<lambda>g h. sp_start g < sp_start h) (group_units c us i)"
  using assms
proof (induction c us i rule: group_units.induct)
  case (1 c us i)
  show ?case
  proof (cases "i < length us \<and> \<not> length us \<le> chunk_stop c us i")
    case True
    then have i: "i < length us" by simp
    have "sp_start (us ! i) < sp_start h" if "h \<in> set (group_units c us (next_index c us i))" for h
    proof -
      from group_units_groups [OF 1(3) that] obtain x y
        where x: "next_index c us i \<le> x" "x < length us" and h: "sp_start h = sp_start (us ! x)"
        unfolding groups_def by fastforce
      with next_index_greater [OF i, of c] have "i < x" by simp
      with chained_nth_le [OF 1(2), of i x] chained_bounds [OF 1(2), of "us ! i"] i x h show ?thesis by simp
    qed
    with 1(1) [OF i refl _ 1(2,3)] True show ?thesis by (simp add: group_units_unfold [OF i])
  next
    case False
    then show ?thesis by (subst group_units.simps) (auto simp: Let_def)
  qed
qed

subsection \<open>Sections\<close>

fun contiguous :: "nat \<Rightarrow> section_span list \<Rightarrow> nat \<Rightarrow> bool" where
  "contiguous a [] b \<longleftrightarrow> a = b"
| "contiguous a (s # ss) b \<longleftrightarrow> sp_start s = a \<and> a \<le> sp_end s \<and> contiguous (sp_end s) ss b"

lemma contiguous_le: "contiguous a ss b \<Longrightarrow> a \<le> b"
  by (induction a ss b rule: contiguous.induct) auto

lemma contiguous_bounds: "contiguous a ss b \<Longrightarrow> s \<in> set ss \<Longrightarrow> a \<le> sp_start s \<and> sp_start s \<le> sp_end s \<and> sp_end s \<le> b"
  by (induction a ss b rule: contiguous.induct) (auto dest: contiguous_le)

lemma contiguous_find: "contiguous a ss b \<Longrightarrow> a \<le> p \<Longrightarrow> p < b \<Longrightarrow> \<exists>s \<in> set ss. sp_start s \<le> p \<and> p < sp_end s"
  by (induction a ss b rule: contiguous.induct) (auto simp: not_less[symmetric])

lemma skip_left_bounds: "a \<le> skip_left t a b \<and> (a \<le> b \<longrightarrow> skip_left t a b \<le> b)"
proof (induction t a b rule: skip_left.induct)
  case (1 t a b)
  then show ?case by (subst (1 2) skip_left.simps) auto
qed

definition starts_ordered :: "nat \<Rightarrow> nat \<Rightarrow> span list \<Rightarrow> bool" where
  "starts_ordered a b hs \<longleftrightarrow> sorted_wrt (\<lambda>h k. sp_start h \<le> sp_start k) hs \<and>
     (\<forall>h \<in> set hs. a \<le> sp_start h \<and> sp_start h \<le> b)"

lemma heading_starts:
  "ordered_matches p b ms \<Longrightarrow>
     starts_ordered p b (map (\<lambda>(s, e, ks). trim_span t s (first_mark s ks)) ms)"
proof (induction p b ms rule: ordered_matches.induct)
  case (2 p b s e ks rest)
  let ?h = "trim_span t s (first_mark s ks)"
  have k: "s \<le> first_mark s ks" "first_mark s ks \<le> e" using 2(2) first_mark_bounds [of ks s e] by auto
  then have h: "s \<le> sp_start ?h" "sp_start ?h \<le> e"
    using skip_left_bounds [of s t "first_mark s ks"] by (auto simp: trim_span_def Let_def)
  with 2 show ?case by (fastforce simp: starts_ordered_def)
qed (simp add: starts_ordered_def)

lemma heading_spans_starts: "starts_ordered 0 (length t) (heading_spans u t)"
  unfolding heading_spans_def by (intro heading_starts find_matches_ordered)

lemma major_headings_starts: "starts_ordered a b hs \<Longrightarrow> starts_ordered a b (major_headings u t hs)"
  by (auto simp: starts_ordered_def major_headings_def sorted_wrt_filter)

lemma sections_from_contiguous:
  "starts_ordered a (length t) (h # hs) \<Longrightarrow>
     contiguous (sp_start h) (sections_from t p i (h # hs)) (length t)"
proof (induction hs arbitrary: h i a)
  case Nil
  then show ?case by (simp add: starts_ordered_def mk_section_def)
next
  case (Cons k hs)
  from Cons.prems have "starts_ordered a (length t) (k # hs)" "sp_start h \<le> sp_start k"
    by (auto simp: starts_ordered_def)
  with Cons.IH [of a k "i + 1"] show ?case by (simp add: mk_section_def)
qed

lemma section_spans_contiguous: "contiguous 0 (section_spans u major t) (length t)"
proof -
  define hs where "hs = (if major then major_headings u t (heading_spans u t) else heading_spans u t)"
  have hs: "starts_ordered 0 (length t) hs"
    using heading_spans_starts major_headings_starts by (simp add: hs_def)
  show ?thesis
  proof (cases hs)
    case Nil
    then show ?thesis by (simp add: section_spans_def hs_def [symmetric] mk_section_def)
  next
    case (Cons h ks)
    with hs have "contiguous (sp_start h) (sections_from t p 0 (h # ks)) (length t)" for p
      using sections_from_contiguous by simp
    with Cons show ?thesis
      unfolding section_spans_def hs_def [symmetric] Let_def
      by (cases "sp_start h = 0") (simp_all del: sections_from.simps add: mk_section_def)
  qed
qed

subsection \<open>Chunks\<close>

definition chunk_in :: "pytext \<Rightarrow> nat \<Rightarrow> nat \<Rightarrow> nat \<Rightarrow> raw_chunk \<Rightarrow> bool" where
  "chunk_in t m a b c \<longleftrightarrow> exact_chunk t c \<and> a \<le> rc_source_start c \<and>
     rc_source_start c < rc_source_end c \<and> rc_source_end c \<le> b \<and> length (trim (rc_text c)) \<le> m"

definition chunks_cover :: "pytext \<Rightarrow> nat \<Rightarrow> nat \<Rightarrow> raw_chunk list \<Rightarrow> bool" where
  "chunks_cover t a b cs \<longleftrightarrow> (\<forall>p. a \<le> p \<and> p < b \<and> \<not> uspace (t ! p) \<longrightarrow>
     (\<exists>c \<in> set cs. rc_source_start c \<le> p \<and> p < rc_source_end c))"

abbreviation starts_before :: "raw_chunk \<Rightarrow> raw_chunk \<Rightarrow> bool" where
  "starts_before c d \<equiv> rc_source_start c < rc_source_start d"

lemma groups_span:
  assumes "chained a us b" and "groups c us i g" and "\<And>s. s \<in> set us \<Longrightarrow> core t s \<le> sc_max_chars c"
  shows "a \<le> sp_start g \<and> sp_start g < sp_end g \<and> sp_end g \<le> b \<and> core t g \<le> sc_max_chars c"
proof -
  from assms(2) obtain x y where xy: "x \<le> y" "y < length us"
    and g: "g = mk_span (sp_start (us ! x)) (sp_end (us ! y))"
    and len: "x = y \<or> span_length g \<le> int (sc_max_chars c)" unfolding groups_def by blast
  have x: "us ! x \<in> set us" and y: "us ! y \<in> set us" using xy by auto
  have ord: "a \<le> sp_start g" "sp_start g < sp_end g" "sp_end g \<le> b"
    using chained_bounds [OF assms(1) x] chained_bounds [OF assms(1) y] chained_nth_le [OF assms(1), of x y] xy g
    by (cases "x = y"; simp)+
  have "core t g \<le> sc_max_chars c"
  proof (cases "x = y")
    case True
    then have "g = us ! x \<or> core t g = core t (us ! x)" using g by (simp add: core_def)
    with assms(3) [OF x] show ?thesis by auto
  next
    case False
    with len have "sp_end g - sp_start g \<le> sc_max_chars c" by (intro span_length_le) simp
    with core_le_length [of g t] ord show ?thesis by simp
  qed
  with ord show ?thesis by simp
qed

lemma section_chunks_ok:
  assumes "sp_start sec \<le> sp_end sec" and "sp_end sec \<le> length t"
    and "0 < sc_max_chars c" and "sc_target_chars c \<le> sc_max_chars c"
  shows "\<forall>d \<in> set (section_chunks c pid t sec). chunk_in t (sc_max_chars c) (sp_start sec) (sp_end sec) d"
    and "chunks_cover t (sp_start sec) (sp_end sec) (section_chunks c pid t sec)"
    and "sorted_wrt starts_before (section_chunks c pid t sec)"
proof -
  let ?us = "atomic_spans t sec (sc_max_chars c)" and ?gs = "group_units c (atomic_spans t sec (sc_max_chars c)) 0"
  note us = atomic_spans_spans [OF assms(3,1,2)]
  have g: "sp_start sec \<le> sp_start g \<and> sp_start g < sp_end g \<and> sp_end g \<le> sp_end sec \<and> core t g \<le> sc_max_chars c"
    if "g \<in> set ?gs" for g
    by (rule groups_span [OF us(1) group_units_groups [OF assms(4) that] us(3)])
  then show "\<forall>d \<in> set (section_chunks c pid t sec). chunk_in t (sc_max_chars c) (sp_start sec) (sp_end sec) d"
    by (auto simp: section_chunks_def chunk_in_def exact_chunk_def core_def)
  show "sorted_wrt starts_before (section_chunks c pid t sec)"
    using group_units_increasing [OF us(1) assms(4)]
    by (simp add: section_chunks_def sorted_wrt_map sorted_wrt_filter)
  show "chunks_cover t (sp_start sec) (sp_end sec) (section_chunks c pid t sec)"
    unfolding chunks_cover_def
  proof (intro allI impI)
    fix p assume p: "sp_start sec \<le> p \<and> p < sp_end sec \<and> \<not> uspace (t ! p)"
    with covering_D [OF us(2)] obtain s where "s \<in> set ?us" "inside p s" by blast
    then obtain k where "k < length ?us" "inside p (?us ! k)" by (metis in_set_conv_nth)
    with group_units_contains [OF us(1), of 0 k c] obtain g where gg: "g \<in> set ?gs" "inside p g"
      unfolding inside_def by (meson le0 le_trans less_le_trans)
    with g have "sp_end g \<le> length t" using assms(2) by fastforce
    with gg p have "\<not> blank (span_text t g)" unfolding blank_slice [OF \<open>sp_end g \<le> length t\<close>] by (auto simp: inside_def)
    with gg show "\<exists>d \<in> set (section_chunks c pid t sec). rc_source_start d \<le> p \<and> p < rc_source_end d"
      by (force simp: section_chunks_def inside_def trim_Nil_iff)
  qed
qed

lemma sections_chunks_ok:
  assumes "contiguous a secs b" and "b \<le> length t"
    and "0 < sc_max_chars c" and "sc_target_chars c \<le> sc_max_chars c"
  shows "(\<forall>d \<in> set (concat (map (section_chunks c pid t) secs)). chunk_in t (sc_max_chars c) a b d) \<and>
    chunks_cover t a b (concat (map (section_chunks c pid t) secs)) \<and>
    sorted_wrt starts_before (concat (map (section_chunks c pid t) secs))"
  using assms
proof (induction a secs b rule: contiguous.induct)
  case (1 a b)
  then show ?case by (simp add: chunks_cover_def)
next
  case (2 a s ss b)
  let ?cs = "section_chunks c pid t s" and ?ds = "concat (map (section_chunks c pid t) ss)"
  have le: "sp_start s = a" "a \<le> sp_end s" "sp_end s \<le> b" "sp_end s \<le> length t"
    using 2(2,3) contiguous_le by force+
  note s = section_chunks_ok [of s t c pid, OF _ le(4) assms(3,4)]
  have IH: "\<forall>d \<in> set ?ds. chunk_in t (sc_max_chars c) (sp_end s) b d" "chunks_cover t (sp_end s) b ?ds"
    "sorted_wrt starts_before ?ds" using 2 by auto
  have "\<forall>d \<in> set (?cs @ ?ds). chunk_in t (sc_max_chars c) a b d"
    using s(1) IH(1) le unfolding chunk_in_def by fastforce
  moreover have "chunks_cover t a b (?cs @ ?ds)"
    using s(2) IH(2) le unfolding chunks_cover_def by (simp add: Bex_def) (meson not_le)
  moreover have "sorted_wrt starts_before (?cs @ ?ds)"
    unfolding sorted_wrt_append
  proof (intro conjI ballI)
    fix d e assume "d \<in> set ?cs" "e \<in> set ?ds"
    with s(1) IH(1) le show "starts_before d e" unfolding chunk_in_def by fastforce
  qed (use s(3) IH(3) le in simp_all)
  ultimately show ?case by simp
qed

lemma split_structural_ok:
  assumes "0 < sc_max_chars c" and "sc_target_chars c \<le> sc_max_chars c"
  shows "(\<forall>d \<in> set (split_structural u c pid t). chunk_in t (sc_max_chars c) 0 (length t) d) \<and>
    chunks_cover t 0 (length t) (split_structural u c pid t) \<and>
    sorted_wrt starts_before (split_structural u c pid t)"
  unfolding split_structural_def
  by (rule sections_chunks_ok [OF section_spans_contiguous order_refl assms])

lemma not_blank_char: "\<not> blank t \<longleftrightarrow> (\<exists>p < length t. \<not> uspace (t ! p))"
  by (auto simp: blank_def list_all_length)

text \<open>C27. A structural strategy splits every text that is not blank, without an error, into chunks that are
  exact slices of the source, in the order of their starts; their stripped text has at most 1280
  characters, and every character of the source that is not white space is in a chunk.\<close>

theorem structural_split_complete:
  assumes "strategy = ''paragraph_sentence_v1'' \<or> strategy = ''section_parent_child_v1''"
    and "trim t \<noteq> []"
  shows "\<exists>cs. split_text u t strategy = Inr cs \<and>
    (\<forall>c \<in> set cs. rc_source_start c < rc_source_end c \<and> rc_source_end c \<le> length t \<and>
       rc_text c = slice (rc_source_start c) (rc_source_end c) t \<and> length (trim (rc_text c)) \<le> 1280) \<and>
    (\<forall>p < length t. \<not> uspace (t ! p) \<longrightarrow> (\<exists>c \<in> set cs. rc_source_start c \<le> p \<and> p < rc_source_end c)) \<and>
    sorted_wrt (\<lambda>c d. rc_source_start c < rc_source_start d) cs"
proof -
  let ?cs = "split_structural u structural_defaults (strategy = ''section_parent_child_v1'') t"
  have ok: "\<forall>d \<in> set ?cs. chunk_in t 1280 0 (length t) d" "chunks_cover t 0 (length t) ?cs"
    "sorted_wrt starts_before ?cs"
    using split_structural_ok [of structural_defaults u "strategy = ''section_parent_child_v1''" t]
    by (simp_all add: structural_defaults_def)
  obtain p where "p < length t" "\<not> uspace (t ! p)" using assms(2) by (auto simp: trim_Nil_iff not_blank_char)
  with ok(2) have ne: "?cs \<noteq> []" by (auto simp: chunks_cover_def)
  have "\<forall>c \<in> set ?cs. exact_chunk t c" using ok(1) by (simp add: chunk_in_def)
  with assms ne have "split_text u t strategy = Inr ?cs"
    by (auto simp: split_text_def strategies_def)
  with ok show ?thesis by (auto simp: chunk_in_def chunks_cover_def exact_chunk_def)
qed

lemma structural_split_complete_witness:
  "\<exists>cs. split_text sample_unicode (ascii ''1. Aim'' @ [10, 10] @ ascii ''Ok.'') ''section_parent_child_v1'' = Inr cs \<and>
    (\<forall>p < length (ascii ''1. Aim'' @ [10, 10] @ ascii ''Ok.'').
       \<not> uspace ((ascii ''1. Aim'' @ [10, 10] @ ascii ''Ok.'') ! p) \<longrightarrow>
       (\<exists>c \<in> set cs. rc_source_start c \<le> p \<and> p < rc_source_end c))"
proof -
  have "trim (ascii ''1. Aim'' @ [10, 10] @ ascii ''Ok.'') \<noteq> []"
    by (simp add: trim_Nil_iff blank_def ascii_def uspace_def)
  from structural_split_complete [of "''section_parent_child_v1''", OF disjI2 [OF refl] this, of sample_unicode]
  show ?thesis by blast
qed

end
