(* ===== verification/PdfBlocks.thy ===== *)
theory PdfBlocks
  imports PdfParser SplitterSpans
begin

text \<open>
  The parser's blocks are exact spans of the text, in order, on the page they name, valid as records,
  and they contain every character that is not white space.
\<close>

subsection \<open>Lines\<close>

text \<open>A position where the pattern matches is reached by the search.\<close>

lemma find_matches_reaches:
  "p \<le> i \<Longrightarrow> i \<le> hi \<Longrightarrow> match_at t hi r i \<noteq> None \<Longrightarrow>
     \<exists>s e ms. (s, e, ms) \<in> set (find_matches t hi r p) \<and> s \<le> i \<and> (i < e \<or> i = s)"
proof (induction t hi r p rule: find_matches.induct)
  case (1 t hi r p)
  have p: "p \<le> hi" using 1(3,4) by simp
  show ?case
  proof (cases "match_at t hi r p")
    case None
    have "p + 1 \<le> i" using None 1(3,5) by (cases "p = i") auto
    then have "\<exists>s e ms. (s, e, ms) \<in> set (find_matches t hi r (p + 1)) \<and> s \<le> i \<and> (i < e \<or> i = s)"
      using 1(1) None 1(4,5) p by simp
    then show ?thesis by (simp only: find_matches_skip [OF p None])
  next
    case (Some x)
    obtain e ms where x: "x = (e, ms)" by (cases x)
    with Some have m: "match_at t hi r p = Some (e, ms)" by simp
    let ?q = "if e \<le> p then p + 1 else e"
    have eq: "find_matches t hi r p = (p, e, ms) # find_matches t hi r ?q" by (rule find_matches_take [OF p m])
    show ?thesis
    proof (cases "i < e \<or> i = p")
      case True
      with 1(3) show ?thesis unfolding eq by auto
    next
      case False
      then have "?q \<le> i" using 1(3) by auto
      moreover have "\<not> hi < p" using p by simp
      ultimately have "\<exists>s e ms. (s, e, ms) \<in> set (find_matches t hi r ?q) \<and> s \<le> i \<and> (i < e \<or> i = s)"
        using 1(2) [OF _ Some x [symmetric]] 1(4,5) by blast
      then show ?thesis unfolding eq list.set insert_iff by blast
    qed
  qed
qed

definition pair_span :: "nat \<times> nat \<Rightarrow> span" where
  "pair_span l = mk_span (fst l) (snd l)"

lemma pair_span_simps [simp]: "sp_start (pair_span l) = fst l" "sp_end (pair_span l) = snd l"
  by (simp_all add: pair_span_def)

lemma run_match_grows:
  assumes "match_at t hi (many_one (Class P)) i = Some (e, ms)"
  shows "i < e"
proof -
  have "(e, ms) \<in> set (rx t hi (many_one (Class P)) (i, []))"
    using assms by (auto simp: match_at_def split: list.splits)
  then have "(e, ms) \<in> set (rx t hi (Many (Class P)) (i + 1, []))"
    by (auto simp: many_one_def split: if_splits)
  from rx_moves_forward [OF this] show ?thesis by (simp add: rx_forward_def)
qed

lemma chained_matches:
  "ordered_matches p hi ms \<Longrightarrow> p \<le> hi \<Longrightarrow> (\<forall>(s, e, k) \<in> set ms. s < e) \<Longrightarrow>
     chained p (map (\<lambda>(s, e, k). mk_span s e) ms) hi"
  by (induction p hi ms rule: ordered_matches.induct) auto

lemma line_spans_chained: "chained 0 (map pair_span (line_spans t)) (length t)"
proof -
  let ?ms = "find_matches t (length t) (many_one any_char) 0"
  have "\<forall>(s, e, k) \<in> set ?ms. s < e"
    using find_matches_match [of _ _ _ t "length t" "many_one any_char" 0] run_match_grows by fast
  then have "chained 0 (map (\<lambda>(s, e, k). mk_span s e) ?ms) (length t)"
    by (intro chained_matches find_matches_ordered) simp_all
  moreover have "map pair_span (line_spans t) = map (\<lambda>(s, e, k). mk_span s e) ?ms"
    by (auto simp: line_spans_def pair_span_def)
  ultimately show ?thesis by simp
qed

lemma line_spans_covering:
  assumes "p < length t" and "\<not> uspace (t ! p)"
  shows "\<exists>l \<in> set (line_spans t). inside p (pair_span l)"
proof -
  have "t ! p \<noteq> 10" using assms(2) by (auto simp: uspace_def)
  then have "rx t (length t) (many_one any_char) (p, []) = repeat_greedy (length t) (rx t (length t) any_char) (p + 1, [])"
    using assms(1) by (simp add: many_one_def not_newline_def)
  moreover have "repeat_greedy (length t) (rx t (length t) any_char) (p + 1, []) \<noteq> []"
    by (subst repeat_greedy.simps) simp
  ultimately have "match_at t (length t) (many_one any_char) p \<noteq> None"
    by (simp add: match_at_def split: list.splits)
  from find_matches_reaches [OF _ _ this, of 0] assms(1)
  obtain s e ms where m: "(s, e, ms) \<in> set (find_matches t (length t) (many_one any_char) 0)"
    and s: "s \<le> p" "p < e \<or> p = s" by auto
  then have "s < e" using find_matches_match [OF m] run_match_grows by blast
  with s m show ?thesis
    by (intro bexI [of _ "(s, e)"]) (force simp: line_spans_def inside_def)+
qed

subsection \<open>Blocks of a page\<close>

lemma close_block_simps [simp]: "close_block None = []" "close_block (Some b) = [b]"
  by (simp_all add: close_block_def)

text \<open>Where the open block begins, or the lines that are left.\<close>

definition open_start :: "nat \<Rightarrow> (nat \<times> nat) option \<Rightarrow> nat" where
  "open_start lo active = (case active of None \<Rightarrow> lo | Some b \<Rightarrow> fst b)"

definition open_ok :: "nat \<Rightarrow> (nat \<times> nat) option \<Rightarrow> bool" where
  "open_ok lo active \<longleftrightarrow> (\<forall>b. active = Some b \<longrightarrow> fst b < snd b \<and> snd b \<le> lo)"

lemma open_simps [simp]: "open_start lo None = lo" "open_start lo (Some b) = fst b" "open_ok lo None"
  "open_ok lo (Some b) \<longleftrightarrow> fst b < snd b \<and> snd b \<le> lo"
  by (simp_all add: open_start_def open_ok_def)

lemma block_begin_bounds:
  assumes "open_ok lo active" and "lo \<le> fst l" and "fst l < snd l"
  shows "open_start lo active \<le> block_begin active l \<and> block_begin active l < snd l"
  using assms by (cases active) (auto simp: block_begin_def)

lemma block_spans_chained:
  assumes "chained lo (map pair_span ls) hi" and "open_ok lo active"
  shows "chained (open_start lo active) (map pair_span (block_spans u t ls active)) hi"
  using assms
proof (induction u t ls active arbitrary: lo rule: block_spans.induct)
  case (1 u t active)
  then show ?case by (cases active) auto
next
  case (2 u t l ls active)
  from 2(5) have l: "lo \<le> fst l" "fst l < snd l" "chained (snd l) (map pair_span ls) hi" by auto
  note a = block_begin_bounds [OF 2(6) l(1,2)]
  consider (blank) "line_value t l = []" | (heading) "line_value t l \<noteq> []" "is_heading u (line_value t l)"
    | (full) "line_value t l \<noteq> []" "\<not> is_heading u (line_value t l)" "block_complete t l ls (block_begin active l)"
    | (more) "line_value t l \<noteq> []" "\<not> is_heading u (line_value t l)" "\<not> block_complete t l ls (block_begin active l)"
    by blast
  then show ?case
  proof cases
    case blank
    have "open_ok (snd l) active" "open_start lo active \<le> open_start (snd l) active"
      using 2(6) l by (cases active; auto)+
    with 2(1) [OF blank l(3)] blank show ?thesis using chained_mono by simp
  next
    case heading
    have "chained (snd l) (map pair_span (block_spans u t ls None)) hi" using 2(2) [OF heading l(3)] by simp
    with heading l 2(6) show ?thesis by (cases active) auto
  next
    case full
    have "chained (snd l) (map pair_span (block_spans u t ls None)) hi" using 2(3) [OF full l(3)] by simp
    with full a show ?thesis by simp
  next
    case more
    have "chained (block_begin active l) (map pair_span (block_spans u t ls (Some (block_begin active l, snd l)))) hi"
      using 2(4) [OF more l(3)] a by simp
    with more a show ?thesis using chained_mono by simp
  qed
qed

text \<open>What is not white space in an open block or in the lines left ends up in a block.\<close>

definition pending :: "nat \<Rightarrow> (nat \<times> nat) list \<Rightarrow> (nat \<times> nat) option \<Rightarrow> bool" where
  "pending p ls active \<longleftrightarrow> (\<exists>l \<in> set ls. inside p (pair_span l)) \<or> (\<exists>b. active = Some b \<and> inside p (pair_span b))"

lemma block_spans_pending:
  assumes "chained lo (map pair_span ls) hi" and "open_ok lo active" and "hi \<le> length t"
    and "pending p ls active" and "\<not> uspace (t ! p)"
  shows "\<exists>b \<in> set (block_spans u t ls active). inside p (pair_span b)"
  using assms
proof (induction u t ls active arbitrary: lo rule: block_spans.induct)
  case (1 u t active)
  then show ?case by (auto simp: pending_def)
next
  case (2 u t l ls active)
  from 2(5) have l: "lo \<le> fst l" "fst l < snd l" "chained (snd l) (map pair_span ls) hi" by auto
  note a = block_begin_bounds [OF 2(6) l(1,2)]
  consider (blank) "line_value t l = []" | (heading) "line_value t l \<noteq> []" "is_heading u (line_value t l)"
    | (full) "line_value t l \<noteq> []" "\<not> is_heading u (line_value t l)" "block_complete t l ls (block_begin active l)"
    | (more) "line_value t l \<noteq> []" "\<not> is_heading u (line_value t l)" "\<not> block_complete t l ls (block_begin active l)"
    by blast
  then show ?case
  proof cases
    case blank
    have "snd l \<le> length t" using chained_le [OF l(3)] 2(7) by simp
    then have "\<not> inside p (pair_span l)"
      using blank 2(9) by (auto simp: line_value_def trim_Nil_iff blank_slice inside_def)
    then have "pending p ls active" using 2(8) by (auto simp: pending_def)
    moreover have "open_ok (snd l) active" using 2(6) l by (cases active) auto
    ultimately show ?thesis using 2(1) [OF blank l(3) _ 2(7) _ 2(9)] blank by simp
  next
    case heading
    show ?thesis
    proof (cases "pending p ls None")
      case True
      with 2(2) [OF heading l(3) _ 2(7) _ 2(9)] heading show ?thesis by auto
    next
      case False
      with 2(8) heading show ?thesis by (auto simp: pending_def)
    qed
  next
    case full
    show ?thesis
    proof (cases "pending p ls None")
      case True
      with 2(3) [OF full l(3) _ 2(7) _ 2(9)] full show ?thesis by auto
    next
      case False
      with 2(8,6) full l show ?thesis by (cases active) (auto simp: pending_def inside_def block_begin_def)
    qed
  next
    case more
    have "pending p ls (Some (block_begin active l, snd l))"
      using 2(8,6) l by (cases active) (auto simp: pending_def inside_def block_begin_def)
    with 2(4) [OF more l(3) _ 2(7) _ 2(9)] more a show ?thesis by simp
  qed
qed

lemma text_block_spans_chained: "chained 0 (map pair_span (text_block_spans u t)) (length t)"
  using block_spans_chained [OF line_spans_chained, of None] by (simp add: text_block_spans_def)

lemma text_block_spans_covering:
  assumes "p < length t" and "\<not> uspace (t ! p)"
  shows "\<exists>b \<in> set (text_block_spans u t). inside p (pair_span b)"
proof -
  have "pending p (line_spans t) None" using line_spans_covering [OF assms] by (auto simp: pending_def)
  then show ?thesis unfolding text_block_spans_def
    using block_spans_pending [OF line_spans_chained, of None t, where p = p and u = u] assms(2) by simp
qed

subsection \<open>Blocks of the document\<close>

definition section_ok :: "pytext list \<Rightarrow> bool" where
  "section_ok sec \<longleftrightarrow> sec \<noteq> [] \<and> [] \<notin> set sec"

lemma heading_path_ok: "section_ok sec \<Longrightarrow> h \<noteq> [] \<Longrightarrow> section_ok (heading_path u sec h)"
  by (auto simp: section_ok_def heading_path_def Let_def dest: in_set_takeD)

text \<open>Nothing is no heading.\<close>

lemma full_match_empty: "rx [] 0 r (0, []) = [] \<Longrightarrow> full_match r [] = None"
  by (simp add: full_match_def)

lemma heading_not_empty: "is_heading u h \<Longrightarrow> h \<noteq> []"
proof
  assume h: "is_heading u h" "h = []"
  have "full_match named_heading_re [] = None"
    by (rule full_match_empty) (simp add: named_heading_re_def name_re_def name_opt_re_def ascii_def)
  moreover have "full_match roman_heading_re [] = None"
    by (rule full_match_empty) (simp add: roman_heading_re_def many_one_def)
  moreover have "full_match (numbered_heading_re u) [] = None"
    by (rule full_match_empty) (simp add: numbered_heading_re_def section_number_re_def many_one_def)
  ultimately show False using h by (simp add: is_heading_def strip_text_def)
qed

definition block_span :: "parsed_block \<Rightarrow> span" where
  "block_span b = mk_span (nat (pb_source_start b)) (nat (pb_source_end b))"

lemma block_span_simps [simp]: "sp_start (block_span b) = nat (pb_source_start b)"
  "sp_end (block_span b) = nat (pb_source_end b)"
  by (simp_all add: block_span_def)

text \<open>A block of a page that begins at an offset.\<close>

definition block_of :: "int \<Rightarrow> nat \<Rightarrow> pytext \<Rightarrow> (nat \<times> nat) list \<Rightarrow> parsed_block \<Rightarrow> bool" where
  "block_of page off t spans b \<longleftrightarrow> pb_page_number b = page \<and> section_ok (pb_section_path b) \<and>
     (\<exists>(a, e) \<in> set spans. pb_source_start b = int (off + a) \<and> pb_source_end b = int (off + e) \<and> pb_text b = slice a e t)"

lemma page_blocks_of:
  assumes "section_ok sec"
  shows "map block_span (fst (page_blocks u page off t spans sec)) = map (\<lambda>(a, e). mk_span (off + a) (off + e)) spans \<and>
    (\<forall>b \<in> set (fst (page_blocks u page off t spans sec)). block_of page off t spans b) \<and>
    section_ok (snd (page_blocks u page off t spans sec))"
  using assms
proof (induction u page off t spans sec rule: page_blocks.induct)
  case (2 u page off t a e spans sec)
  let ?sec = "if is_heading u (trim (slice a e t)) then heading_path u sec (trim (slice a e t)) else sec"
  obtain bs sec' where r: "page_blocks u page off t spans ?sec = (bs, sec')" by (cases "page_blocks u page off t spans ?sec")
  have ok: "section_ok ?sec" using 2(2) heading_not_empty [of u "trim (slice a e t)"] heading_path_ok by auto
  from 2(1) [OF refl refl ok] r have IH: "map block_span bs = map (\<lambda>(a, e). mk_span (off + a) (off + e)) spans"
    "\<forall>b \<in> set bs. block_of page off t spans b" "section_ok sec'" by auto
  have eq: "page_blocks u page off t ((a, e) # spans) sec =
      (\<lparr>pb_page_number = page, pb_section_path = ?sec, pb_source_start = int (off + a),
        pb_source_end = int (off + e), pb_text = slice a e t\<rparr> # bs, sec')"
    unfolding page_blocks.simps Let_def r by simp
  have first: "block_span \<lparr>pb_page_number = page, pb_section_path = ?sec, pb_source_start = int (off + a),
        pb_source_end = int (off + e), pb_text = slice a e t\<rparr> = mk_span (off + a) (off + e)"
    unfolding block_span_def parsed_block.simps nat_int by simp
  have "\<forall>b \<in> set bs. block_of page off t ((a, e) # spans) b" using IH(2) by (auto simp: block_of_def)
  with IH(1,3) ok show ?case unfolding eq by (simp add: first) (simp add: block_of_def split: if_splits)
qed simp

text \<open>What the blocks of a text are worth: \<open>first\<close> is the number of the first page.\<close>

definition blocks_ok :: "pytext \<Rightarrow> int \<Rightarrow> pytext list \<Rightarrow> nat list \<Rightarrow> parsed_block \<Rightarrow> bool" where
  "blocks_ok doc first pages offs b \<longleftrightarrow> section_ok (pb_section_path b) \<and>
     slice (nat (pb_source_start b)) (nat (pb_source_end b)) doc = pb_text b \<and>
     (\<exists>k a e. k < length pages \<and> pb_page_number b = first + int k \<and> pb_text b = slice a e (pages ! k) \<and>
        a < e \<and> e \<le> length (pages ! k) \<and>
        pb_source_start b = int (offs ! k + a) \<and> pb_source_end b = int (offs ! k + e))"

lemma join_Cons: "join s (t # ts) = t @ (if ts = [] then [] else s @ join s ts)"
  by (cases ts) simp_all

lemma slice_middle: "e \<le> length t \<Longrightarrow> slice (length pre + a) (length pre + e) (pre @ t @ post) = slice a e t"
  by (simp add: slice_def)

lemma chained_shift:
  "chained lo (map pair_span ls) hi \<Longrightarrow> chained (off + lo) (map (\<lambda>(a, e). mk_span (off + a) (off + e)) ls) (off + hi)"
  by (induction ls arbitrary: lo) auto

lemma document_blocks_ok:
  assumes "doc = pre @ join [10, 10] ts" and "section_ok sec"
  shows "chained (length pre) (map block_span (document_blocks u page (zip (page_offsets (length pre) ts) ts) sec)) (length doc) \<and>
    covering doc (length pre) (length doc) (map block_span (document_blocks u page (zip (page_offsets (length pre) ts) ts) sec)) \<and>
    (\<forall>b \<in> set (document_blocks u page (zip (page_offsets (length pre) ts) ts) sec).
       blocks_ok doc page ts (page_offsets (length pre) ts) b) \<and>
    sorted (map pb_page_number (document_blocks u page (zip (page_offsets (length pre) ts) ts) sec))"
  using assms
proof (induction ts arbitrary: pre page sec)
  case Nil
  then show ?case by (simp add: covering_def)
next
  case (Cons t ts)
  let ?off = "length pre" and ?spans = "text_block_spans u t"
  let ?pre = "pre @ t @ (if ts = [] then [] else [10, 10])"
  have doc: "doc = ?pre @ join [10, 10] ts" using Cons.prems(1) by (simp add: join_Cons)
  obtain bs sec' where r: "page_blocks u page ?off t ?spans sec = (bs, sec')"
    by (cases "page_blocks u page ?off t ?spans sec")
  from page_blocks_of [OF Cons.prems(2), of u page ?off t ?spans] r
  have bs: "map block_span bs = map (\<lambda>(a, e). mk_span (?off + a) (?off + e)) ?spans"
    "\<forall>b \<in> set bs. block_of page ?off t ?spans b" and sec': "section_ok sec'" by auto
  define ds where "ds = document_blocks u (page + 1) (zip (page_offsets (length ?pre) ts) ts) sec'"
  note IH = Cons.IH [OF doc sec', of "page + 1", folded ds_def]
  have offs: "page_offsets ?off (t # ts) = ?off # page_offsets (?off + length t + 2) ts" by simp
  have next_offs: "page_offsets (?off + length t + 2) ts = page_offsets (length ?pre) ts"
    by (cases "ts = []") (simp_all add: add.assoc)
  have eq: "document_blocks u page (zip (page_offsets ?off (t # ts)) (t # ts)) sec = bs @ ds"
    unfolding offs next_offs by (simp add: r ds_def)
  have len: "?off + length t \<le> length ?pre" "length ?pre \<le> length doc" using doc by auto
  have "chained ?off (map block_span bs) (?off + length t)"
    unfolding bs(1) using chained_shift [OF text_block_spans_chained, of ?off u t] by simp
  then have chain: "chained ?off (map block_span (bs @ ds)) (length doc)"
    using IH len(1) unfolding map_append by (intro chained_append) (auto intro: chained_mono)
  have pieces: "blocks_ok doc page (t # ts) (page_offsets ?off (t # ts)) b" if "b \<in> set bs" for b
  proof -
    from bs(2) that obtain a e where ae: "(a, e) \<in> set ?spans" "pb_source_start b = int (?off + a)"
      "pb_source_end b = int (?off + e)" "pb_text b = slice a e t" "pb_page_number b = page" "section_ok (pb_section_path b)"
      unfolding block_of_def by auto
    have "a < e \<and> e \<le> length t"
      using chained_bounds [OF text_block_spans_chained, of "pair_span (a, e)" u t] ae(1) by force
    moreover from this have "slice (?off + a) (?off + e) doc = slice a e t"
      using slice_middle [of e t pre a] Cons.prems(1) by (simp add: join_Cons)
    moreover have "nat (pb_source_start b) = ?off + a" "nat (pb_source_end b) = ?off + e"
      unfolding ae(2,3) by (rule nat_int)+
    ultimately show ?thesis using ae unfolding blocks_ok_def
      by (intro conjI exI [of _ 0] exI [of _ a] exI [of _ e]) simp_all
  qed
  have later: "blocks_ok doc page (t # ts) (page_offsets ?off (t # ts)) b" if "b \<in> set ds" for b
  proof -
    from IH that have "blocks_ok doc (page + 1) ts (page_offsets (length ?pre) ts) b" by blast
    then obtain k a e where "k < length ts" "pb_page_number b = page + 1 + int k" "pb_text b = slice a e (ts ! k)"
      "a < e" "e \<le> length (ts ! k)" "pb_source_start b = int (page_offsets (length ?pre) ts ! k + a)"
      "pb_source_end b = int (page_offsets (length ?pre) ts ! k + e)"
      and rest: "section_ok (pb_section_path b)"
      "slice (nat (pb_source_start b)) (nat (pb_source_end b)) doc = pb_text b"
      unfolding blocks_ok_def by blast
    then show ?thesis unfolding blocks_ok_def offs next_offs
      by (intro conjI exI [of _ "Suc k"] exI [of _ a] exI [of _ e]) simp_all
  qed
  have cover: "covering doc ?off (length doc) (map block_span (bs @ ds))"
    unfolding covering_def
  proof (intro allI impI)
    fix p assume p: "?off \<le> p \<and> p < length doc \<and> \<not> uspace (doc ! p)"
    consider "p < ?off + length t" | "?off + length t \<le> p" "p < length ?pre" | "length ?pre \<le> p" by linarith
    then show "\<exists>s \<in> set (map block_span (bs @ ds)). inside p s"
    proof cases
      case 1
      then have "doc ! p = t ! (p - ?off)" using p Cons.prems(1) by (auto simp: join_Cons nth_append)
      with 1 p have "p - ?off < length t" "\<not> uspace (t ! (p - ?off))" by auto
      from text_block_spans_covering [OF this, of u] obtain l where
        l: "l \<in> set ?spans" "inside (p - ?off) (pair_span l)" by blast
      then have "(\<lambda>(a, e). mk_span (?off + a) (?off + e)) l \<in> set (map block_span bs)"
        unfolding bs(1) by simp
      moreover have "inside p ((\<lambda>(a, e). mk_span (?off + a) (?off + e)) l)"
        using l(2) p by (cases l) (auto simp: inside_def)
      ultimately show ?thesis by auto
    next
      case 2
      then have "ts \<noteq> []" by (cases "ts = []") auto
      then have "doc ! p = (10 # 10 # join [10, 10] ts) ! (p - (?off + length t))"
        using 2 Cons.prems(1) by (auto simp: join_Cons nth_append)
      moreover have "p - (?off + length t) < 2" using 2 \<open>ts \<noteq> []\<close> by simp
      ultimately have "doc ! p = 10" by (auto simp: nth_Cons' less_2_cases_iff)
      with p show ?thesis by (simp add: uspace_def)
    next
      case 3
      then have "\<exists>s \<in> set (map block_span ds). inside p s"
        using IH p by (intro covering_D [of doc "length ?pre" "length doc"]) blast+
      then show ?thesis unfolding map_append set_append by blast
    qed
  qed
  have "sorted (map pb_page_number (bs @ ds))"
    using IH bs(2) unfolding map_append sorted_append
    by (auto simp: block_of_def blocks_ok_def sorted_iff_nth_mono)
  with chain cover pieces later show ?case unfolding eq by (auto simp del: page_offsets.simps)
qed

subsection \<open>The parse\<close>

lemma blocks_ok_valid:
  assumes "blocks_ok doc 1 pages offs b"
  shows "parsed_block_ok b"
proof -
  from assms obtain k a e where k: "pb_page_number b = 1 + int k" "pb_text b = slice a e (pages ! k)" "a < e"
    "e \<le> length (pages ! k)" "pb_source_start b = int (offs ! k + a)" "pb_source_end b = int (offs ! k + e)"
    and sec: "section_ok (pb_section_path b)" unfolding blocks_ok_def by blast
  then have "length (pb_text b) \<noteq> 0" by (simp add: length_slice)
  then have "pb_text b \<noteq> []" by auto
  with k sec show ?thesis by (auto simp: parsed_block_ok_def section_ok_def)
qed

definition source_blocks :: "pytext \<Rightarrow> pytext list \<Rightarrow> parsed_block list \<Rightarrow> bool" where
  "source_blocks doc pages bs \<longleftrightarrow>
     chained 0 (map block_span bs) (length doc) \<and> covering doc 0 (length doc) (map block_span bs) \<and>
     (\<forall>b \<in> set bs. blocks_ok doc 1 pages (page_offsets 0 pages) b) \<and> sorted (map pb_page_number bs)"

lemma clean_blocks:
  "source_blocks (clean_text ts) ts (document_blocks u 1 (zip (page_offsets 0 ts) ts) [ascii ''Document''])"
proof -
  have "section_ok [ascii ''Document'']" by (simp add: section_ok_def eq_commute [of "[]"])
  from document_blocks_ok [of "clean_text ts" "[]" ts, OF _ this, of u 1] show ?thesis
    by (simp add: source_blocks_def clean_text_def)
qed

lemma status_warnings_ok: "list_all contract_id_ok (snd (parse_status_of n ts))"
  by (auto simp: parse_status_of_def Let_def contract_id_ok_def id_tail_char_def id_head_char_def)

lemma build_parsed_ok:
  assumes "\<forall>x. sha256_ok (sha x)" and "ts \<noteq> []"
  shows "\<exists>p. build_parsed u sha limits bytes ts enc = Inr p \<and> parsed_pdf_ok p \<and>
    pp_pdf_sha256 p = sha bytes \<and> pp_source_text_sha256 p = sha enc \<and> pp_clean_text p = clean_text ts \<and>
    pp_page_count p = int (length ts) \<and> source_blocks (clean_text ts) ts (pp_blocks p) \<and>
    (pp_parse_status p, pp_warnings p) = parse_status_of (pl_minimum_text_characters limits) ts"
proof -
  let ?bs = "document_blocks u 1 (zip (page_offsets 0 ts) ts) [ascii ''Document'']"
  have "list_all parsed_block_ok ?bs"
    using clean_blocks [of ts u] blocks_ok_valid by (auto simp: source_blocks_def list_all_iff)
  moreover have "1 \<le> int (length ts)" using assms(2) by (cases ts) auto
  moreover note status_warnings_ok [of "pl_minimum_text_characters limits" ts]
  ultimately show ?thesis
    using assms(1) clean_blocks [of ts u]
    by (cases "parse_status_of (pl_minimum_text_characters limits) ts")
      (simp add: build_parsed_def parsed_pdf_ok_def)
qed

lemma extract_pages_length: "extract_pages ps = Inr ts \<Longrightarrow> length ts = length ps"
  by (induction ps arbitrary: ts) (auto simp: bind_res_Inr_iff)

text \<open>How a parse can end.\<close>

lemma or_error_Inl: "or_error e r = Inl f \<Longrightarrow> f = e"
  by (cases r) auto

lemma bind_res_Inl: "bind_res m f = Inl e \<longleftrightarrow> m = Inl e \<or> (\<exists>x. m = Inr x \<and> f x = Inl e)"
  by (cases m) auto

lemma read_pages_error: "read_pages lib bytes = Inl e \<Longrightarrow> \<exists>c. e = Pdf_Parse_Error c"
  by (auto simp: read_pages_def bind_res_Inl dest: or_error_Inl split: if_splits)

lemma extract_pages_error: "extract_pages ps = Inl e \<Longrightarrow> \<exists>c. e = Pdf_Parse_Error c"
  by (induction ps) (auto simp: bind_res_Inl dest: or_error_Inl)

lemma parse_pdf_cases:
  obtains (error) c where "parse_pdf u lib sha limits bytes = Inl (Pdf_Parse_Error c)"
  | (encoding) raw ts where "read_pages lib bytes = Inr raw" and "extract_pages raw = Inr ts"
      and "utf8 (clean_text ts) = None" and "parse_pdf u lib sha limits bytes = Inl Unicode_Encode_Error"
  | (pages) raw ts enc where "read_pages lib bytes = Inr raw" and "extract_pages raw = Inr ts" and "ts \<noteq> []"
      and "utf8 (clean_text ts) = Some enc"
      and "parse_pdf u lib sha limits bytes = build_parsed u sha limits bytes ts enc"
proof (cases "read_pages lib bytes")
  case (Inl e)
  then obtain c where "e = Pdf_Parse_Error c" using read_pages_error by blast
  with Inl have "\<exists>c. parse_pdf u lib sha limits bytes = Inl (Pdf_Parse_Error c)" by (simp add: parse_pdf_def)
  then show thesis using error by blast
next
  case raw: (Inr raw)
  show thesis
  proof (cases "extract_pages raw")
    case (Inl e)
    then obtain c where "e = Pdf_Parse_Error c" using extract_pages_error by blast
    with Inl raw have "\<exists>c. parse_pdf u lib sha limits bytes = Inl (Pdf_Parse_Error c)" by (simp add: parse_pdf_def)
    then show thesis using error by blast
  next
    case ts: (Inr ts)
    have ne: "ts \<noteq> []" if "raw \<noteq> []" using that extract_pages_length [OF ts] by auto
    show thesis
    proof (cases "utf8 (clean_text ts)")
      case None
      with raw ts have "(\<exists>c. parse_pdf u lib sha limits bytes = Inl (Pdf_Parse_Error c)) \<or>
          parse_pdf u lib sha limits bytes = Inl Unicode_Encode_Error" by (simp add: parse_pdf_def)
      then show thesis using error encoding [OF raw ts None] by blast
    next
      case (Some enc)
      with raw ts have "(\<exists>c. parse_pdf u lib sha limits bytes = Inl (Pdf_Parse_Error c)) \<or>
          raw \<noteq> [] \<and> parse_pdf u lib sha limits bytes = build_parsed u sha limits bytes ts enc"
        by (simp add: parse_pdf_def)
      then show thesis using error pages [OF raw ts _ Some] ne by blast
    qed
  qed
qed

lemma parse_pdf_Inr:
  assumes "\<forall>x. sha256_ok (sha x)" and "parse_pdf u lib sha limits bytes = Inr p"
  obtains ts enc where "utf8 (clean_text ts) = Some enc" and "ts \<noteq> []"
    and "parsed_pdf_ok p" and "pp_pdf_sha256 p = sha bytes" and "pp_source_text_sha256 p = sha enc"
    and "pp_clean_text p = clean_text ts" and "pp_page_count p = int (length ts)"
    and "source_blocks (clean_text ts) ts (pp_blocks p)"
  using parse_pdf_cases [of u lib sha limits bytes]
proof cases
  case (pages raw ts enc)
  with build_parsed_ok [OF assms(1) pages(3), of u limits bytes enc] assms(2) show thesis
    using that by auto
qed (use assms(2) in auto)

lemma blocks_in_order:
  assumes "chained 0 (map block_span bs) n" and "sorted (map pb_page_number bs)"
    and "\<And>b. b \<in> set bs \<Longrightarrow> 0 \<le> pb_source_start b \<and> 0 \<le> pb_source_end b"
  shows "sorted_wrt (\<lambda>b c. pb_source_end b \<le> pb_source_start c \<and> pb_page_number b \<le> pb_page_number c) bs"
  unfolding sorted_wrt_iff_nth_less
proof (intro allI impI)
  fix i j assume ij: "i < j" "j < length bs"
  have "nat (pb_source_end (bs ! i)) \<le> nat (pb_source_start (bs ! j))"
    using chained_nth_le [OF assms(1), of i j] ij by simp
  then have "pb_source_end (bs ! i) \<le> pb_source_start (bs ! j)"
    using assms(3) [of "bs ! i"] assms(3) [of "bs ! j"] ij by (simp add: nat_le_eq_zle)
  moreover have "pb_page_number (bs ! i) \<le> pb_page_number (bs ! j)"
    using sorted_nth_mono [OF assms(2), of i j] ij by simp
  ultimately show "pb_source_end (bs ! i) \<le> pb_source_start (bs ! j) \<and> pb_page_number (bs ! i) \<le> pb_page_number (bs ! j)" ..
qed

text \<open>C28. The parser never raises a validation error of its own records, and the blocks of a parsed PDF are
  the text: each is the exact slice of the clean text at its offsets and a slice of the page it names, at
  that page's place in the text; blocks do not overlap and come in the order of the text and of the pages,
  and every character that is not white space is in one of them.\<close>

theorem parsed_blocks_are_source:
  assumes "\<forall>x. sha256_ok (sha x)"
  shows "parse_pdf u lib sha limits bytes \<noteq> Inl Parse_Value_Error \<and>
    (\<forall>p. parse_pdf u lib sha limits bytes = Inr p \<longrightarrow> (\<exists>pages.
       pp_clean_text p = join [10, 10] pages \<and> pp_page_count p = int (length pages) \<and>
       (\<forall>b \<in> set (pp_blocks p). parsed_block_ok b \<and>
          slice (nat (pb_source_start b)) (nat (pb_source_end b)) (pp_clean_text p) = pb_text b \<and>
          (\<exists>k a e. k < length pages \<and> pb_page_number b = 1 + int k \<and> pb_text b = slice a e (pages ! k) \<and>
             pb_source_start b = int (page_offsets 0 pages ! k + a))) \<and>
       sorted_wrt (\<lambda>b c. pb_source_end b \<le> pb_source_start c \<and> pb_page_number b \<le> pb_page_number c) (pp_blocks p) \<and>
       (\<forall>i < length (pp_clean_text p). \<not> uspace (pp_clean_text p ! i) \<longrightarrow>
          (\<exists>b \<in> set (pp_blocks p). pb_source_start b \<le> int i \<and> int i < pb_source_end b))))"
proof (intro conjI allI impI)
  show "parse_pdf u lib sha limits bytes \<noteq> Inl Parse_Value_Error"
    using parse_pdf_cases [of u lib sha limits bytes]
  proof cases
    case (pages raw ts enc)
    with build_parsed_ok [OF assms pages(3), of u limits bytes enc] show ?thesis by auto
  qed auto
next
  fix p assume "parse_pdf u lib sha limits bytes = Inr p"
  from parse_pdf_Inr [OF assms this] obtain ts where ts: "pp_clean_text p = clean_text ts"
    "pp_page_count p = int (length ts)" "source_blocks (clean_text ts) ts (pp_blocks p)" by blast
  then have blocks: "chained 0 (map block_span (pp_blocks p)) (length (clean_text ts))"
    "covering (clean_text ts) 0 (length (clean_text ts)) (map block_span (pp_blocks p))"
    "\<forall>b \<in> set (pp_blocks p). blocks_ok (clean_text ts) 1 ts (page_offsets 0 ts) b"
    "sorted (map pb_page_number (pp_blocks p))" by (auto simp: source_blocks_def)
  have each: "\<forall>b \<in> set (pp_blocks p). parsed_block_ok b \<and>
      slice (nat (pb_source_start b)) (nat (pb_source_end b)) (clean_text ts) = pb_text b \<and>
      (\<exists>k a e. k < length ts \<and> pb_page_number b = 1 + int k \<and> pb_text b = slice a e (ts ! k) \<and>
         pb_source_start b = int (page_offsets 0 ts ! k + a))"
  proof
    fix b assume "b \<in> set (pp_blocks p)"
    with blocks(3) have "blocks_ok (clean_text ts) 1 ts (page_offsets 0 ts) b" by blast
    with blocks_ok_valid [OF this] show "parsed_block_ok b \<and>
      slice (nat (pb_source_start b)) (nat (pb_source_end b)) (clean_text ts) = pb_text b \<and>
      (\<exists>k a e. k < length ts \<and> pb_page_number b = 1 + int k \<and> pb_text b = slice a e (ts ! k) \<and>
         pb_source_start b = int (page_offsets 0 ts ! k + a))"
      unfolding blocks_ok_def by blast
  qed
  have pos: "0 \<le> pb_source_start b \<and> 0 \<le> pb_source_end b" if "b \<in> set (pp_blocks p)" for b
    using blocks(3) that unfolding blocks_ok_def by fastforce
  have "sorted_wrt (\<lambda>b c. pb_source_end b \<le> pb_source_start c \<and> pb_page_number b \<le> pb_page_number c) (pp_blocks p)"
    by (rule blocks_in_order [OF blocks(1,4) pos])
  moreover have "\<exists>b \<in> set (pp_blocks p). pb_source_start b \<le> int i \<and> int i < pb_source_end b"
    if "i < length (clean_text ts)" "\<not> uspace (clean_text ts ! i)" for i
  proof -
    from covering_D [OF blocks(2) le0 that]
    obtain b where b: "b \<in> set (pp_blocks p)" "inside i (block_span b)" by auto
    with pos [of b] show ?thesis by (auto simp: inside_def nat_less_iff intro!: bexI [of _ b])
  qed
  ultimately show "\<exists>pages. pp_clean_text p = join [10, 10] pages \<and> pp_page_count p = int (length pages) \<and>
       (\<forall>b \<in> set (pp_blocks p). parsed_block_ok b \<and>
          slice (nat (pb_source_start b)) (nat (pb_source_end b)) (pp_clean_text p) = pb_text b \<and>
          (\<exists>k a e. k < length pages \<and> pb_page_number b = 1 + int k \<and> pb_text b = slice a e (pages ! k) \<and>
             pb_source_start b = int (page_offsets 0 pages ! k + a))) \<and>
       sorted_wrt (\<lambda>b c. pb_source_end b \<le> pb_source_start c \<and> pb_page_number b \<le> pb_page_number c) (pp_blocks p) \<and>
       (\<forall>i < length (pp_clean_text p). \<not> uspace (pp_clean_text p ! i) \<longrightarrow>
          (\<exists>b \<in> set (pp_blocks p). pb_source_start b \<le> int i \<and> int i < pb_source_end b))"
    using each unfolding ts(1,2) by (intro exI [of _ ts] conjI) (simp_all add: clean_text_def)
qed

text \<open>A library that finds one page of two letters in any bytes, and a digest.\<close>

definition sample_library :: pdf_library where
  "sample_library bytes = Inr \<lparr>pd_is_encrypted = False, pd_decrypt_empty = Inr 0,
     pd_pages = Inr [Inr (Some (ascii ''Hi''))]\<rparr>"

definition sample_digest :: "nat list \<Rightarrow> string" where
  "sample_digest x = replicate 64 CHR ''a''"

lemma sample_digest_ok: "\<forall>x. sha256_ok (sample_digest x)"
  by (simp add: sample_digest_def sha256_ok_def hex_char_def list_all_iff)

lemma sample_page: "normalize_page_text (ascii ''Hi'') = ascii ''Hi''"
  by (simp add: normalize_page_text_def ascii_def replace_cr_def control_char_def blank_or_tab_def
      strip_text_def uspace_def)

lemma sample_parse:
  "parse_pdf u sample_library sample_digest default_limits pdf_signature =
     build_parsed u sample_digest default_limits pdf_signature [ascii ''Hi''] (ascii ''Hi'')"
proof -
  have "utf8 (clean_text [ascii ''Hi'']) = Some (ascii ''Hi'')"
    by (simp add: clean_text_def ascii_def utf8_char_def)
  moreover have "length pdf_signature = 5" "length (ascii ''Hi'') = 2" by (simp_all add: pdf_signature_def ascii_def)
  ultimately show ?thesis
    by (simp add: parse_pdf_def read_pages_def sample_library_def sample_page default_limits_def)
qed

lemma parsed_blocks_are_source_witness:
  "\<exists>p. parse_pdf sample_unicode sample_library sample_digest default_limits pdf_signature = Inr p \<and>
    (\<forall>i < length (pp_clean_text p). \<not> uspace (pp_clean_text p ! i) \<longrightarrow>
       (\<exists>b \<in> set (pp_blocks p). pb_source_start b \<le> int i \<and> int i < pb_source_end b))"
proof -
  obtain p where p: "parse_pdf sample_unicode sample_library sample_digest default_limits pdf_signature = Inr p"
    using build_parsed_ok [OF sample_digest_ok, of "[ascii ''Hi'']" sample_unicode default_limits pdf_signature]
    unfolding sample_parse by fastforce
  with parsed_blocks_are_source [OF sample_digest_ok, of sample_unicode sample_library default_limits pdf_signature]
  show ?thesis by blast
qed

end
