(* ===== verification/PdfService.thy ===== *)
theory PdfService
  imports PdfBlocks
begin

text \<open>
  The ingestion of one PDF (\<^verbatim>\<open>backend/ingestion/service.py\<close>): the parse gate, the chunks of the
  splitter traced to the parsed blocks they overlap, and the chunk records with their pages, section
  paths and links. The digest of bytes and of a JSON object are arguments.
\<close>

subsection \<open>Tracing chunks to blocks\<close>

definition source_blocks_for_chunk :: "parsed_block list \<Rightarrow> raw_chunk \<Rightarrow> parsed_block list" where
  "source_blocks_for_chunk bs c =
     filter (\<lambda>b. pb_source_start b < int (rc_source_end c) \<and> pb_source_end b > int (rc_source_start c)) bs"

definition joined_path :: "pytext list \<Rightarrow> pytext" where
  "joined_path path = join (ascii '' > '') path"

definition section_path :: "parsed_block list \<Rightarrow> pytext option \<Rightarrow> pytext" where
  "section_path bs fallback =
     (let paths = first_occurrences (map pb_section_path bs) in
      if paths = [] then (case fallback of Some (c # cs) \<Rightarrow> c # cs | _ \<Rightarrow> ascii ''Document'')
      else if length paths = 1 then joined_path (hd paths)
      else joined_path (hd paths) @ ascii '' -> '' @ joined_path (last paths))"

subsection \<open>Identities\<close>

type_synonym json_digest = "jobject \<Rightarrow> string"

definition jtext :: "string \<Rightarrow> json" where
  "jtext s = JStr (ascii s)"

definition parent_chunk_id :: "json_digest \<Rightarrow> string \<Rightarrow> string \<Rightarrow> string \<Rightarrow> pytext option \<Rightarrow> string option" where
  "parent_chunk_id canonical doc vid strategy parent = (case parent of None \<Rightarrow> None
     | Some p \<Rightarrow> Some (''parent_'' @ take 24 (canonical
         [(''document_id'', jtext doc), (''parent_source_id'', JStr p), (''strategy'', jtext strategy),
          (''version_id'', jtext vid)])))"

definition strategy_config :: "string \<Rightarrow> jobject" where
  "strategy_config strategy =
     (if strategy = ''fixed_boundary_v1''
      then [(''chunk_size'', JInt (int fixed_chunk_size)), (''overlap'', JInt (int fixed_overlap))]
      else [(''max_chars'', JInt (int (sc_max_chars structural_defaults))),
        (''overlap_target_chars'', JInt (int (sc_overlap_target_chars structural_defaults))),
        (''target_chars'', JInt (int (sc_target_chars structural_defaults)))])"

definition chunk_identity :: "string \<Rightarrow> string \<Rightarrow> string \<Rightarrow> string \<Rightarrow> string \<Rightarrow> nat \<Rightarrow> raw_chunk \<Rightarrow> string \<Rightarrow> jobject" where
  "chunk_identity doc vid strategy config_hash source_hash index c content_hash =
     [(''chunk_index'', JInt (int index)), (''config_hash'', jtext config_hash),
      (''content_sha256'', jtext content_hash), (''document_id'', jtext doc),
      (''source_end'', JInt (int (rc_source_end c))), (''source_start'', JInt (int (rc_source_start c))),
      (''source_text_sha256'', jtext source_hash), (''strategy'', jtext strategy), (''version_id'', jtext vid)]"

subsection \<open>The request and its failures\<close>

record pdf_request =
  pr_document_id :: string
  pr_tenant_id :: string
  pr_visibility :: string
  pr_library_scope_ids :: "string list"
  pr_strategy :: string
  pr_expected_sha256 :: "string option"
  pr_allow_parse_review :: bool
  pr_embedding_version :: string
  pr_version_id :: "string option"
  pr_is_active :: bool

definition default_embedding_version :: string where "default_embedding_version = ''not_embedded_v1''"
definition parse_version :: string where "parse_version = ''pypdf_text_v1''"

type_synonym pdf_parser = "nat list \<Rightarrow> parse_failure + parsed_pdf"

fun parser_outcome :: "parse_failure + parsed_pdf \<Rightarrow> service_failure + parsed_pdf" where
  "parser_outcome (Inl (Pdf_Parse_Error code)) = Inl (Pdf_Ingestion_Error code)"
| "parser_outcome (Inl _) = Inl Service_Escaped"
| "parser_outcome (Inr p) = Inr p"

fun splitter_outcome :: "splitter_failure + raw_chunk list \<Rightarrow> service_failure + raw_chunk list" where
  "splitter_outcome (Inl (Splitter_Error code)) = Inl (Pdf_Ingestion_Error code)"
| "splitter_outcome (Inl _) = Inl Service_Escaped"
| "splitter_outcome (Inr cs) = Inr cs"

definition block_exact :: "pytext \<Rightarrow> parsed_block \<Rightarrow> bool" where
  "block_exact t b \<longleftrightarrow> slice (nat (pb_source_start b)) (nat (pb_source_end b)) t = pb_text b"

text \<open>The gates between the parse and the splitter.\<close>

definition parse_gates :: "bool \<Rightarrow> parsed_pdf \<Rightarrow> service_failure + unit" where
  "parse_gates allow_review p =
     (if pp_parse_status p = PARSE_FAILED then Inl (Pdf_Ingestion_Error ''PARSE_QUALITY_GATE_BLOCKED'')
      else if pp_parse_status p = PARSE_REVIEW \<and> \<not> allow_review
      then Inl (Pdf_Ingestion_Error ''PARSE_QUALITY_GATE_BLOCKED'')
      else if pp_blocks p = [] then Inl (Pdf_Ingestion_Error ''PARSED_DOCUMENT_LINEAGE_INVALID'')
      else if \<exists>b \<in> set (pp_blocks p). \<not> block_exact (pp_clean_text p) b
      then Inl (Pdf_Ingestion_Error ''PARSED_DOCUMENT_LINEAGE_INVALID'')
      else Inr ())"

subsection \<open>Chunk records\<close>

text \<open>The blocks and the identifier of every chunk; a chunk no block overlaps is an error.\<close>

fun trace_chunks :: "(nat list \<Rightarrow> string) \<Rightarrow> (nat \<Rightarrow> raw_chunk \<Rightarrow> string \<Rightarrow> string) \<Rightarrow> parsed_block list \<Rightarrow> nat \<Rightarrow>
    raw_chunk list \<Rightarrow> service_failure + (string \<times> parsed_block list) list" where
  "trace_chunks sha chunk_id bs index [] = Inr []"
| "trace_chunks sha chunk_id bs index (c # cs) =
     (if source_blocks_for_chunk bs c = [] then Inl (Pdf_Ingestion_Error ''SPLITTER_OBJECT_LINEAGE_MISSING'')
      else case utf8 (rc_text c) of
          None \<Rightarrow> Inl Service_Escaped
        | Some bytes \<Rightarrow> bind_res (trace_chunks sha chunk_id bs (index + 1) cs) (\<lambda>rest.
            Inr ((chunk_id index c (sha bytes), source_blocks_for_chunk bs c) # rest)))"

definition chunk_record :: "json_digest \<Rightarrow> pdf_request \<Rightarrow> string \<Rightarrow> string list \<Rightarrow> nat \<Rightarrow> raw_chunk \<Rightarrow> parsed_block list \<Rightarrow> chunk" where
  "chunk_record canonical q vid ids index c bs =
     (let pages = map pb_page_number bs in
      \<lparr>ch_chunk_id = ids ! index, ch_document_id = pr_document_id q, ch_version_id = vid, ch_text = rc_text c,
       ch_section_path = section_path bs (rc_section_name c),
       ch_page_start = Min (set pages), ch_page_end = Max (set pages),
       ch_parent_chunk_id = parent_chunk_id canonical (pr_document_id q) vid (pr_strategy q) (rc_parent_source_id c),
       ch_previous_chunk_id = (if index \<noteq> 0 then Some (ids ! (index - 1)) else None),
       ch_next_chunk_id = (if index + 1 < length ids then Some (ids ! (index + 1)) else None),
       ch_tenant_id = pr_tenant_id q, ch_visibility = pr_visibility q,
       ch_library_scope_ids = pr_library_scope_ids q, ch_parse_version = parse_version,
       ch_embedding_version = pr_embedding_version q, ch_is_active = pr_is_active q\<rparr>)"

definition contract_invalid :: service_failure where
  "contract_invalid = Pdf_Ingestion_Error ''CHUNK_RECORD_CONTRACT_INVALID''"

fun build_records :: "(nat \<Rightarrow> raw_chunk \<Rightarrow> parsed_block list \<Rightarrow> chunk) \<Rightarrow> nat \<Rightarrow>
    (raw_chunk \<times> parsed_block list) list \<Rightarrow> service_failure + chunk list" where
  "build_records mk index [] = Inr []"
| "build_records mk index ((c, bs) # rest) =
     bind_res (or_error contract_invalid (validate_chunk (mk index c bs))) (\<lambda>r.
     bind_res (build_records mk (index + 1) rest) (\<lambda>rs. Inr (r # rs)))"

text \<open>The result record validates and strips its own fields.\<close>

definition build_result :: "pdf_request \<Rightarrow> string \<Rightarrow> parsed_pdf \<Rightarrow> chunk list \<Rightarrow> service_failure + ingestion_result" where
  "build_result q vid p records = of_option contract_invalid (do {
     doc \<leftarrow> norm_id (pr_document_id q);
     version \<leftarrow> norm_id vid;
     ensure (sha256_ok (pp_pdf_sha256 p) \<and> sha256_ok (pp_source_text_sha256 p));
     ensure (pp_parse_status p \<noteq> PARSE_FAILED);
     warnings \<leftarrow> norm_ids (pp_warnings p);
     strategy \<leftarrow> norm_id (pr_strategy q);
     ensure (records \<noteq> []);
     Some \<lparr>ir_document_id = doc, ir_version_id = version, ir_pdf_sha256 = pp_pdf_sha256 p,
           ir_source_text_sha256 = pp_source_text_sha256 p, ir_parse_status = pp_parse_status p,
           ir_warnings = warnings, ir_strategy = strategy, ir_chunks = records\<rparr> })"

definition resolved_version_id :: "pdf_request \<Rightarrow> parsed_pdf \<Rightarrow> string" where
  "resolved_version_id q p = (case pr_version_id q of
     Some (c # cs) \<Rightarrow> c # cs | _ \<Rightarrow> ''version_'' @ take 24 (pp_pdf_sha256 p))"

definition chunk_id_for :: "json_digest \<Rightarrow> pdf_request \<Rightarrow> parsed_pdf \<Rightarrow> nat \<Rightarrow> raw_chunk \<Rightarrow> string \<Rightarrow> string" where
  "chunk_id_for canonical q p index c content_hash =
     ''chunk_'' @ take 24 (canonical (chunk_identity (pr_document_id q) (resolved_version_id q p) (pr_strategy q)
       (canonical (strategy_config (pr_strategy q))) (pp_source_text_sha256 p) index c content_hash))"

definition ingest_parsed :: "unicode \<Rightarrow> (nat list \<Rightarrow> string) \<Rightarrow> json_digest \<Rightarrow> pdf_request \<Rightarrow> parsed_pdf \<Rightarrow>
    service_failure + ingestion_result" where
  "ingest_parsed u sha canonical q p =
     bind_res (splitter_outcome (split_text u (pp_clean_text p) (pr_strategy q))) (\<lambda>raw.
     bind_res (trace_chunks sha (chunk_id_for canonical q p) (pp_blocks p) 0 raw) (\<lambda>traced.
     bind_res (build_records (chunk_record canonical q (resolved_version_id q p) (map fst traced)) 0
         (zip raw (map snd traced))) (\<lambda>records.
       build_result q (resolved_version_id q p) p records)))"

definition ingest_pdf_bytes :: "unicode \<Rightarrow> pdf_parser \<Rightarrow> (nat list \<Rightarrow> string) \<Rightarrow> json_digest \<Rightarrow>
    pdf_request \<Rightarrow> nat list \<Rightarrow> service_failure + ingestion_result" where
  "ingest_pdf_bytes u parser sha canonical q bytes =
     (if pr_expected_sha256 q \<noteq> None \<and> Some (sha bytes) \<noteq> pr_expected_sha256 q
      then Inl (Pdf_Ingestion_Error ''PDF_IDENTITY_MISMATCH'')
      else bind_res (parser_outcome (parser bytes)) (\<lambda>p.
        bind_res (parse_gates (pr_allow_parse_review q) p) (\<lambda>_. ingest_parsed u sha canonical q p)))"

end
