(* ===== verification/PdfChunks.thy ===== *)
theory PdfChunks
  imports PdfService
begin

text \<open>
  What the ingestion of a PDF yields: with a structural strategy every valid request over a PDF with
  text succeeds, and its chunk records are exact slices of the text, on the pages of the blocks they
  overlap, linked in their order, with every character that is not white space in a chunk.
\<close>

subsection \<open>Identifiers\<close>

lemma hex_id_tail: "hex_char c \<Longrightarrow> id_tail_char c"
  by (auto simp: hex_char_def id_tail_char_def id_head_char_def)

lemma digest_id_ok:
  assumes "sha256_ok h" and "id_head_char c" and "list_all id_tail_char cs" and "length cs \<le> 100"
  shows "contract_id_ok ((c # cs) @ take 24 h)"
proof -
  have "list_all id_tail_char (take 24 h)"
    using assms(1) hex_id_tail in_set_takeD [of _ 24 h] by (auto simp: sha256_ok_def list_all_iff)
  with assms(2-4) show ?thesis by (simp add: contract_id_ok_def)
qed

lemma digest_ids_ok:
  assumes "sha256_ok h"
  shows "contract_id_ok (''chunk_'' @ take 24 h)" "contract_id_ok (''parent_'' @ take 24 h)"
    "contract_id_ok (''version_'' @ take 24 h)"
  using assms digest_id_ok [of h "CHR ''c''" "''hunk_''"] digest_id_ok [of h "CHR ''p''" "''arent_''"]
    digest_id_ok [of h "CHR ''v''" "''ersion_''"]
  by (simp_all add: id_head_char_def id_tail_char_def)

subsection \<open>Section paths\<close>

lemma joined_path_not_empty: "section_ok p \<Longrightarrow> joined_path p \<noteq> []"
  by (cases p; cases "tl p") (auto simp: joined_path_def section_ok_def)

lemma section_path_not_empty:
  assumes "bs \<noteq> []" and "\<forall>b \<in> set bs. section_ok (pb_section_path b)"
  shows "section_path bs f \<noteq> []"
proof -
  let ?ps = "first_occurrences (map pb_section_path bs)"
  have ps: "?ps \<noteq> []" using assms(1) by (cases bs) auto
  from hd_in_set [OF ps] have "hd ?ps \<in> pb_section_path ` set bs" by simp
  with assms(2) have "section_ok (hd ?ps)" by auto
  then have "joined_path (hd ?ps) \<noteq> []" by (rule joined_path_not_empty)
  with ps show ?thesis by (simp add: section_path_def Let_def)
qed

subsection \<open>Encoding\<close>

lemma utf8_some_iff: "utf8 t \<noteq> None \<longleftrightarrow> (\<forall>c \<in> set t. utf8_char c \<noteq> None)"
  by (induction t) (auto split: option.splits)

lemma utf8_slice: "utf8 t \<noteq> None \<Longrightarrow> utf8 (slice a b t) \<noteq> None"
  unfolding utf8_some_iff slice_def by (meson in_set_dropD in_set_takeD)

subsection \<open>Tracing\<close>

lemma trace_chunks_ok:
  assumes "\<forall>c \<in> set cs. source_blocks_for_chunk bs c \<noteq> [] \<and> utf8 (rc_text c) \<noteq> None"
  shows "\<exists>traced. trace_chunks sha f bs i cs = Inr traced \<and> map snd traced = map (source_blocks_for_chunk bs) cs \<and>
    (\<forall>x \<in> fst ` set traced. \<exists>k c h. x = f k c h)"
  using assms
proof (induction cs arbitrary: i)
  case (Cons c cs)
  then obtain rest where rest: "trace_chunks sha f bs (i + 1) cs = Inr rest"
    "map snd rest = map (source_blocks_for_chunk bs) cs" "\<forall>x \<in> fst ` set rest. \<exists>k c h. x = f k c h" by force
  from Cons.prems obtain bytes where "utf8 (rc_text c) = Some bytes" "source_blocks_for_chunk bs c \<noteq> []" by auto
  with rest show ?case by auto
qed simp

lemma build_records_ok:
  assumes "\<forall>k < length xs. chunk_ok (mk (i + k) (fst (xs ! k)) (snd (xs ! k)))"
  shows "\<exists>rs. build_records mk i xs = Inr rs \<and> length rs = length xs \<and>
    (\<forall>k < length xs. rs ! k = mk (i + k) (fst (xs ! k)) (snd (xs ! k)))"
  using assms
proof (induction xs arbitrary: i)
  case (Cons x xs)
  from Cons.prems have x: "chunk_ok (mk i (fst x) (snd x))" by auto
  have "\<forall>k < length xs. chunk_ok (mk (i + 1 + k) (fst (xs ! k)) (snd (xs ! k)))"
    using Cons.prems by fastforce
  from Cons.IH [OF this] obtain rs where rs: "build_records mk (i + 1) xs = Inr rs" "length rs = length xs"
    "\<forall>k < length xs. rs ! k = mk (i + 1 + k) (fst (xs ! k)) (snd (xs ! k))" by blast
  with x have "build_records mk i (x # xs) = Inr (mk i (fst x) (snd x) # rs)"
    by (cases x) (simp add: validate_chunk_ok)
  moreover have "(mk i (fst x) (snd x) # rs) ! k = mk (i + k) (fst ((x # xs) ! k)) (snd ((x # xs) ! k))"
    if "k < length (x # xs)" for k
    using that rs(3) by (cases k) auto
  ultimately show ?case using rs(2) by auto
qed simp

text \<open>A chunk that is not blank overlaps a block.\<close>

lemma chunk_has_blocks:
  assumes "source_blocks doc pages bs" and "chunk_in doc m 0 (length doc) c" and "trim (rc_text c) \<noteq> []"
  shows "source_blocks_for_chunk bs c \<noteq> []"
proof -
  let ?a = "rc_source_start c" and ?b = "rc_source_end c"
  have c: "rc_text c = slice ?a ?b doc" "?b \<le> length doc" using assms(2) by (auto simp: chunk_in_def exact_chunk_def)
  then obtain p where p: "?a \<le> p" "p < ?b" "\<not> uspace (doc ! p)"
    using assms(3) by (auto simp: trim_Nil_iff blank_slice)
  from assms(1) have "covering doc 0 (length doc) (map block_span bs)" by (simp add: source_blocks_def)
  from covering_D [OF this le0 _ p(3)] p(2) c(2)
  obtain b where b: "b \<in> set bs" "inside p (block_span b)" by auto
  from assms(1) b(1) have "blocks_ok doc 1 pages (page_offsets 0 pages) b" by (simp add: source_blocks_def)
  then have "0 \<le> pb_source_start b" "0 \<le> pb_source_end b" unfolding blocks_ok_def by fastforce+
  with b p have "b \<in> set (source_blocks_for_chunk bs c)"
    by (auto simp: source_blocks_for_chunk_def inside_def)
  then show ?thesis by auto
qed

subsection \<open>Pages with text\<close>

lemma trim_not_blank: "trim x \<noteq> [] \<Longrightarrow> \<not> blank (trim x)"
proof -
  assume ne: "trim x \<noteq> []"
  have "\<not> uspace (last (trim x))"
    using ne hd_dropWhile [of uspace "rev (dropWhile uspace x)"] by (auto simp: strip_text_def last_rev)
  then show "\<not> blank (trim x)" using ne last_in_set by (auto simp: blank_def list_all_iff)
qed

lemma extract_pages_trimmed: "extract_pages ps = Inr ts \<Longrightarrow> t \<in> set ts \<Longrightarrow> \<exists>x. t = trim x"
  by (induction ps arbitrary: ts) (auto simp: bind_res_Inr_iff normalize_page_text_def Let_def)

lemma blank_append [simp]: "blank (xs @ ys) \<longleftrightarrow> blank xs \<and> blank ys"
  by (simp add: blank_def)

lemma blank_Cons [simp]: "blank (c # t) \<longleftrightarrow> uspace c \<and> blank t"
  by (simp add: blank_def)

lemma blank_join: "blank (join [10, 10] ts) \<Longrightarrow> t \<in> set ts \<Longrightarrow> blank t"
  by (induction ts) (auto simp: join_Cons split: if_splits)

lemma extracted_text_not_blank:
  assumes "extract_pages ps = Inr ts" and "fst (parse_status_of n ts) \<noteq> PARSE_FAILED"
  shows "\<not> blank (clean_text ts)"
proof -
  obtain t where t: "t \<in> set ts" "t \<noteq> []"
    using assms(2) by (auto simp: parse_status_of_def Let_def filter_empty_conv split: if_splits)
  then obtain x where "t = trim x" using extract_pages_trimmed [OF assms(1)] by blast
  with t have "\<not> blank t" using trim_not_blank by simp
  with t show ?thesis using blank_join by (auto simp: clean_text_def)
qed

text \<open>What a parse that passes the gate provides.\<close>

definition usable :: "parsed_pdf \<Rightarrow> pytext list \<Rightarrow> bool" where
  "usable p pages \<longleftrightarrow> parsed_pdf_ok p \<and> pp_page_count p = int (length pages) \<and>
     source_blocks (pp_clean_text p) pages (pp_blocks p) \<and> utf8 (pp_clean_text p) \<noteq> None \<and> \<not> blank (pp_clean_text p)"

lemma parse_pdf_usable:
  assumes "\<forall>x. sha256_ok (sha x)" and "parse_pdf u lib sha limits bytes = Inr p" and "pp_parse_status p \<noteq> PARSE_FAILED"
  shows "\<exists>pages. usable p pages"
  using parse_pdf_cases [of u lib sha limits bytes]
proof cases
  case (pages raw ts enc)
  with build_parsed_ok [OF assms(1) pages(3), of u limits bytes enc] assms(2)
  have p: "parsed_pdf_ok p" "pp_clean_text p = clean_text ts" "pp_page_count p = int (length ts)"
    "source_blocks (clean_text ts) ts (pp_blocks p)"
    "(pp_parse_status p, pp_warnings p) = parse_status_of (pl_minimum_text_characters limits) ts" by auto
  have "fst (parse_status_of (pl_minimum_text_characters limits) ts) \<noteq> PARSE_FAILED"
    unfolding p(5) [symmetric] using assms(3) by simp
  from extracted_text_not_blank [OF pages(2) this] p pages(4) show ?thesis
    by (auto simp: usable_def)
qed (use assms(2) in auto)

lemma usable_gates:
  assumes "usable p pages" and "pp_parse_status p = PARSE_PASS \<or> pp_parse_status p = PARSE_REVIEW \<and> allow"
  shows "parse_gates allow p = Inr ()"
proof -
  obtain i where i: "i < length (pp_clean_text p)" "\<not> uspace (pp_clean_text p ! i)"
    using assms(1) by (auto simp: usable_def not_blank_char)
  from assms(1) have b: "covering (pp_clean_text p) 0 (length (pp_clean_text p)) (map block_span (pp_blocks p))"
    "\<forall>b \<in> set (pp_blocks p). block_exact (pp_clean_text p) b"
    by (auto simp: usable_def source_blocks_def blocks_ok_def block_exact_def)
  from covering_D [OF b(1) le0 i] have "pp_blocks p \<noteq> []" by auto
  with b(2) assms(2) show ?thesis by (auto simp: parse_gates_def)
qed

subsection \<open>Chunk records\<close>

text \<open>The request's own fields.\<close>

definition request_ok :: "pdf_request \<Rightarrow> bool" where
  "request_ok q \<longleftrightarrow> contract_id_ok (pr_document_id q) \<and> contract_id_ok (pr_tenant_id q) \<and>
     visibility_ok (pr_visibility q) \<and> list_all contract_id_ok (pr_library_scope_ids q) \<and>
     distinct (pr_library_scope_ids q) \<and> contract_id_ok (pr_embedding_version q) \<and>
     (\<forall>v. pr_version_id q = Some v \<longrightarrow> contract_id_ok v)"

lemma resolved_version_ok:
  "request_ok q \<Longrightarrow> sha256_ok (pp_pdf_sha256 p) \<Longrightarrow> contract_id_ok (resolved_version_id q p)"
  using digest_ids_ok(3) [of "pp_pdf_sha256 p"]
  by (auto simp: resolved_version_id_def request_ok_def split: option.splits list.splits)

lemma page_range:
  assumes "bs \<noteq> []" and "\<forall>b \<in> set bs. 1 \<le> pb_page_number b \<and> pb_page_number b \<le> n"
  shows "1 \<le> Min (set (map pb_page_number bs)) \<and> Min (set (map pb_page_number bs)) \<le> Max (set (map pb_page_number bs)) \<and>
    Max (set (map pb_page_number bs)) \<le> n"
proof -
  let ?S = "set (map pb_page_number bs)"
  have S: "finite ?S" "?S \<noteq> {}" using assms(1) by auto
  have "Min ?S \<in> ?S" "Max ?S \<in> ?S" using S by (rule Min_in, rule Max_in)
  with assms(2) S show ?thesis by (auto simp: Min_le_iff)
qed

lemma record_ok:
  assumes "request_ok q" and "contract_id_ok vid" and "\<forall>x. sha256_ok (canonical x)"
    and "\<forall>x \<in> set ids. contract_id_ok x" and "k < length ids"
    and "rc_text c \<noteq> []" and "bs \<noteq> []"
    and "\<forall>b \<in> set bs. 1 \<le> pb_page_number b \<and> section_ok (pb_section_path b)"
  shows "chunk_ok (chunk_record canonical q vid ids k c bs)"
proof -
  have "\<forall>b \<in> set bs. 1 \<le> pb_page_number b \<and> pb_page_number b \<le> Max (set (map pb_page_number bs))"
    using assms(8) by simp
  from page_range [OF assms(7) this] have pages: "1 \<le> Min (set (map pb_page_number bs))"
    "Min (set (map pb_page_number bs)) \<le> Max (set (map pb_page_number bs))" by auto
  then obtain lo hi where lo: "Min (set (map pb_page_number bs)) = lo" "Max (set (map pb_page_number bs)) = hi"
    and ord: "1 \<le> lo" "lo \<le> hi" "1 \<le> hi" by simp
  moreover have "opt_id_ok (parent_chunk_id canonical (pr_document_id q) vid (pr_strategy q) (rc_parent_source_id c))"
    using digest_ids_ok(2) assms(3) by (auto simp: parent_chunk_id_def opt_id_ok_def split: option.splits)
  moreover have "section_path bs (rc_section_name c) \<noteq> []"
    using section_path_not_empty assms(7,8) by blast
  moreover have "contract_id_ok parse_version"
    by (simp add: parse_version_def contract_id_ok_def id_tail_char_def id_head_char_def)
  ultimately show ?thesis
    using assms(1,2,4-6) unfolding chunk_ok_def chunk_scalars_ok_def ranges_and_scopes_are_valid_def
      chunk_record_def Let_def lo
    by (simp add: request_ok_def opt_id_ok_def)
qed

lemma split_structural_not_blank:
  "c \<in> set (split_structural u cfg pid t) \<Longrightarrow> trim (rc_text c) \<noteq> []"
  by (auto simp: split_structural_def section_chunks_def)

text \<open>The splitter on a usable text: every chunk has text that encodes, and blocks.\<close>

lemma structural_chunks:
  assumes "usable p pages" and "strategy = ''paragraph_sentence_v1'' \<or> strategy = ''section_parent_child_v1''"
  shows "\<exists>raw. split_text u (pp_clean_text p) strategy = Inr raw \<and> raw \<noteq> [] \<and>
    (\<forall>c \<in> set raw. chunk_in (pp_clean_text p) 1280 0 (length (pp_clean_text p)) c \<and> rc_text c \<noteq> [] \<and>
       utf8 (rc_text c) \<noteq> None \<and> source_blocks_for_chunk (pp_blocks p) c \<noteq> []) \<and>
    chunks_cover (pp_clean_text p) 0 (length (pp_clean_text p)) raw"
proof -
  let ?t = "pp_clean_text p"
  let ?raw = "split_structural u structural_defaults (strategy = ''section_parent_child_v1'') ?t"
  have ok: "\<forall>d \<in> set ?raw. chunk_in ?t 1280 0 (length ?t) d" "chunks_cover ?t 0 (length ?t) ?raw"
    using split_structural_ok [of structural_defaults u "strategy = ''section_parent_child_v1''" ?t]
    by (simp_all add: structural_defaults_def)
  have p: "source_blocks ?t pages (pp_blocks p)" "utf8 ?t \<noteq> None" "\<not> blank ?t" using assms(1) by (auto simp: usable_def)
  obtain i where "i < length ?t" "\<not> uspace (?t ! i)" using p(3) not_blank_char by blast
  with ok(2) have ne: "?raw \<noteq> []" by (auto simp: chunks_cover_def)
  have each: "rc_text c \<noteq> [] \<and> utf8 (rc_text c) \<noteq> None \<and> source_blocks_for_chunk (pp_blocks p) c \<noteq> []"
    if "c \<in> set ?raw" for c
  proof -
    have c: "trim (rc_text c) \<noteq> []" using split_structural_not_blank [OF that] .
    then have "rc_text c \<noteq> []" by (auto simp: strip_text_def)
    moreover have "rc_text c = slice (rc_source_start c) (rc_source_end c) ?t"
      using ok(1) that by (simp add: chunk_in_def exact_chunk_def)
    then have "utf8 (rc_text c) \<noteq> None" using utf8_slice [OF p(2)] by simp
    moreover have "source_blocks_for_chunk (pp_blocks p) c \<noteq> []"
      using chunk_has_blocks [OF p(1) bspec [OF ok(1) that] c] .
    ultimately show ?thesis by simp
  qed
  have "\<forall>c \<in> set ?raw. exact_chunk ?t c" using ok(1) by (simp add: chunk_in_def)
  with assms(2) ne p(3) have "split_text u ?t strategy = Inr ?raw"
    by (auto simp: split_text_def strategies_def trim_Nil_iff)
  with ne ok each show ?thesis by blast
qed

text \<open>A chunk's record, from the chunk and the blocks it overlaps.\<close>

definition traced_to :: "parsed_pdf \<Rightarrow> raw_chunk \<Rightarrow> chunk \<Rightarrow> bool" where
  "traced_to p c r \<longleftrightarrow>
     ch_text r = slice (rc_source_start c) (rc_source_end c) (pp_clean_text p) \<and> ch_text r \<noteq> [] \<and>
     (let pages = pb_page_number ` set (source_blocks_for_chunk (pp_blocks p) c)
      in pages \<noteq> {} \<and> ch_page_start r = Min pages \<and> ch_page_end r = Max pages) \<and>
     1 \<le> ch_page_start r \<and> ch_page_start r \<le> ch_page_end r \<and> ch_page_end r \<le> pp_page_count p"

definition linked :: "chunk list \<Rightarrow> bool" where
  "linked cs \<longleftrightarrow> (\<forall>k < length cs.
     ch_previous_chunk_id (cs ! k) = (if k = 0 then None else Some (ch_chunk_id (cs ! (k - 1)))) \<and>
     ch_next_chunk_id (cs ! k) = (if Suc k = length cs then None else Some (ch_chunk_id (cs ! Suc k))))"

lemma usable_block_pages:
  assumes "usable p pages" and "b \<in> set (pp_blocks p)"
  shows "1 \<le> pb_page_number b \<and> pb_page_number b \<le> pp_page_count p \<and> section_ok (pb_section_path b)"
proof -
  from assms have "blocks_ok (pp_clean_text p) 1 pages (page_offsets 0 pages) b" "pp_page_count p = int (length pages)"
    by (auto simp: usable_def source_blocks_def)
  then show ?thesis by (auto simp: blocks_ok_def)
qed

text \<open>The records of a usable text.\<close>

lemma ingest_parsed_ok:
  assumes p: "usable p pages" and q: "request_ok q" and strategy:
      "pr_strategy q = ''paragraph_sentence_v1'' \<or> pr_strategy q = ''section_parent_child_v1''"
    and canonical: "\<forall>x. sha256_ok (canonical x)" and status: "pp_parse_status p \<noteq> PARSE_FAILED"
  shows "\<exists>raw r. split_text u (pp_clean_text p) (pr_strategy q) = Inr raw \<and> ingest_parsed u sha canonical q p = Inr r \<and>
    length (ir_chunks r) = length raw \<and> linked (ir_chunks r) \<and> (\<forall>k < length raw. traced_to p (raw ! k) (ir_chunks r ! k)) \<and>
    chunks_cover (pp_clean_text p) 0 (length (pp_clean_text p)) raw"
proof -
  from structural_chunks [OF p strategy] obtain raw where split: "split_text u (pp_clean_text p) (pr_strategy q) = Inr raw"
    and raw: "raw \<noteq> []" "chunks_cover (pp_clean_text p) 0 (length (pp_clean_text p)) raw"
    and each: "\<forall>c \<in> set raw. chunk_in (pp_clean_text p) 1280 0 (length (pp_clean_text p)) c \<and> rc_text c \<noteq> [] \<and>
       utf8 (rc_text c) \<noteq> None \<and> source_blocks_for_chunk (pp_blocks p) c \<noteq> []" by metis
  have "\<forall>c \<in> set raw. source_blocks_for_chunk (pp_blocks p) c \<noteq> [] \<and> utf8 (rc_text c) \<noteq> None"
    using each by blast
  from trace_chunks_ok [OF this, of sha "chunk_id_for canonical q p" 0] obtain traced where
    traced: "trace_chunks sha (chunk_id_for canonical q p) (pp_blocks p) 0 raw = Inr traced"
      "map snd traced = map (source_blocks_for_chunk (pp_blocks p)) raw"
    and ids: "\<forall>x \<in> fst ` set traced. \<exists>k c h. x = chunk_id_for canonical q p k c h" by blast
  let ?ids = "map fst traced" and ?xs = "zip raw (map snd traced)" and ?vid = "resolved_version_id q p"
  let ?mk = "chunk_record canonical q ?vid ?ids"
  have len: "length traced = length raw" using traced(2) by (metis length_map)
  have vid: "contract_id_ok ?vid" using resolved_version_ok [OF q] p by (simp add: usable_def parsed_pdf_ok_def)
  have ids_ok: "\<forall>x \<in> set ?ids. contract_id_ok x"
    using ids digest_ids_ok(1) canonical unfolding chunk_id_for_def by fastforce
  have nth: "fst (?xs ! k) = raw ! k" "snd (?xs ! k) = source_blocks_for_chunk (pp_blocks p) (raw ! k)"
    if "k < length raw" for k using that traced(2) len by simp_all
  have pages_ok: "\<forall>b \<in> set (source_blocks_for_chunk (pp_blocks p) c).
      1 \<le> pb_page_number b \<and> pb_page_number b \<le> pp_page_count p \<and> section_ok (pb_section_path b)" for c
    using usable_block_pages [OF p] by (auto simp: source_blocks_for_chunk_def)
  have rec: "chunk_ok (?mk k (raw ! k) (source_blocks_for_chunk (pp_blocks p) (raw ! k)))" if k: "k < length raw" for k
    using record_ok [OF q vid canonical ids_ok, of k "raw ! k" "source_blocks_for_chunk (pp_blocks p) (raw ! k)"]
      each pages_ok nth_mem [OF k] k len by simp
  have "\<forall>k < length ?xs. chunk_ok (?mk (0 + k) (fst (?xs ! k)) (snd (?xs ! k)))"
    using rec nth len by simp
  from build_records_ok [OF this] obtain rs where rs: "build_records ?mk 0 ?xs = Inr rs" "length rs = length raw"
    "\<forall>k < length raw. rs ! k = ?mk k (raw ! k) (source_blocks_for_chunk (pp_blocks p) (raw ! k))"
    using nth len by auto
  have result: "\<exists>r. build_result q ?vid p rs = Inr r \<and> ir_chunks r = rs"
  proof -
    have "norm_id (pr_strategy q) = Some (pr_strategy q)"
      using strategy by (auto simp: contract_id_ok_def id_head_char_def id_tail_char_def intro!: norm_id_ok)
    moreover have "rs \<noteq> []" using rs(2) raw(1) by auto
    ultimately show ?thesis
      using p q vid status unfolding build_result_def
      by (simp add: usable_def parsed_pdf_ok_def request_ok_def)
  qed
  then obtain r where r: "build_result q ?vid p rs = Inr r" "ir_chunks r = rs" by blast
  have ingest: "ingest_parsed u sha canonical q p = Inr r"
    by (simp add: ingest_parsed_def split traced(1) rs(1) r(1))
  have "linked rs"
    unfolding linked_def using rs(2,3) len by (auto simp: chunk_record_def Let_def)
  moreover have "traced_to p (raw ! k) (rs ! k)" if k: "k < length raw" for k
  proof -
    let ?bs = "source_blocks_for_chunk (pp_blocks p) (raw ! k)"
    have c: "raw ! k \<in> set raw" using k by simp
    then have bs: "?bs \<noteq> []" using each by blast
    have "\<forall>b \<in> set ?bs. 1 \<le> pb_page_number b \<and> pb_page_number b \<le> pp_page_count p" using pages_ok by blast
    from page_range [OF bs this] have range: "1 \<le> Min (pb_page_number ` set ?bs)"
      "Min (pb_page_number ` set ?bs) \<le> Max (pb_page_number ` set ?bs)"
      "Max (pb_page_number ` set ?bs) \<le> pp_page_count p" unfolding set_map by blast+
    have fields: "ch_text (rs ! k) = rc_text (raw ! k)" "ch_page_start (rs ! k) = Min (pb_page_number ` set ?bs)"
      "ch_page_end (rs ! k) = Max (pb_page_number ` set ?bs)"
      using rs(3) k by (simp_all add: chunk_record_def Let_def)
    have "rc_text (raw ! k) = slice (rc_source_start (raw ! k)) (rc_source_end (raw ! k)) (pp_clean_text p)" "rc_text (raw ! k) \<noteq> []"
      using each c by (auto simp: chunk_in_def exact_chunk_def)
    with bs range fields show ?thesis unfolding traced_to_def Let_def by simp
  qed
  ultimately show ?thesis using split ingest r(2) rs(2) raw(2) by blast
qed

text \<open>C25. With a structural strategy, every valid request over a PDF that parses with text (reviewed or not in
  need of it) is ingested: the records correspond to the splitter's chunks, each with exactly the slice of
  the text, the range of the pages of the blocks it overlaps within the document's pages, and links to its
  neighbours; and every character of the text that is not white space is in a chunk.\<close>

theorem valid_pdf_is_ingested:
  assumes "\<forall>x. sha256_ok (sha x)" and "\<forall>x. sha256_ok (canonical x)" and "request_ok q"
    and "pr_strategy q = ''paragraph_sentence_v1'' \<or> pr_strategy q = ''section_parent_child_v1''"
    and "pr_expected_sha256 q = None \<or> pr_expected_sha256 q = Some (sha bytes)"
    and "parse_pdf u lib sha limits bytes = Inr p"
    and "pp_parse_status p = PARSE_PASS \<or> pp_parse_status p = PARSE_REVIEW \<and> pr_allow_parse_review q"
  shows "\<exists>raw r. ingest_pdf_bytes u (parse_pdf u lib sha limits) sha canonical q bytes = Inr r \<and>
    split_text u (pp_clean_text p) (pr_strategy q) = Inr raw \<and> length (ir_chunks r) = length raw \<and>
    (\<forall>k < length raw.
       ch_text (ir_chunks r ! k) = slice (rc_source_start (raw ! k)) (rc_source_end (raw ! k)) (pp_clean_text p) \<and>
       ch_page_start (ir_chunks r ! k) = Min (pb_page_number ` set (source_blocks_for_chunk (pp_blocks p) (raw ! k))) \<and>
       ch_page_end (ir_chunks r ! k) = Max (pb_page_number ` set (source_blocks_for_chunk (pp_blocks p) (raw ! k))) \<and>
       1 \<le> ch_page_start (ir_chunks r ! k) \<and> ch_page_end (ir_chunks r ! k) \<le> pp_page_count p \<and>
       ch_previous_chunk_id (ir_chunks r ! k) = (if k = 0 then None else Some (ch_chunk_id (ir_chunks r ! (k - 1)))) \<and>
       ch_next_chunk_id (ir_chunks r ! k) =
         (if Suc k = length raw then None else Some (ch_chunk_id (ir_chunks r ! Suc k)))) \<and>
    (\<forall>i < length (pp_clean_text p). \<not> uspace (pp_clean_text p ! i) \<longrightarrow>
       (\<exists>k < length raw. rc_source_start (raw ! k) \<le> i \<and> i < rc_source_end (raw ! k)))"
proof -
  have status: "pp_parse_status p \<noteq> PARSE_FAILED" using assms(7) by auto
  obtain pages where p: "usable p pages" using parse_pdf_usable [OF assms(1,6) status] by blast
  from ingest_parsed_ok [OF p assms(3,4,2) status, of u sha] obtain raw r where
    r: "split_text u (pp_clean_text p) (pr_strategy q) = Inr raw" "ingest_parsed u sha canonical q p = Inr r"
      "length (ir_chunks r) = length raw" "linked (ir_chunks r)"
      "\<forall>k < length raw. traced_to p (raw ! k) (ir_chunks r ! k)"
      "chunks_cover (pp_clean_text p) 0 (length (pp_clean_text p)) raw" by blast
  have "ingest_pdf_bytes u (parse_pdf u lib sha limits) sha canonical q bytes = Inr r"
    using assms(5,6) usable_gates [OF p assms(7)] r(2) by (auto simp: ingest_pdf_bytes_def)
  moreover have "\<forall>i < length (pp_clean_text p). \<not> uspace (pp_clean_text p ! i) \<longrightarrow>
       (\<exists>k < length raw. rc_source_start (raw ! k) \<le> i \<and> i < rc_source_end (raw ! k))"
    using r(6) unfolding chunks_cover_def by (metis in_set_conv_nth le0)
  moreover have "ch_text (ir_chunks r ! k) = slice (rc_source_start (raw ! k)) (rc_source_end (raw ! k)) (pp_clean_text p) \<and>
       ch_page_start (ir_chunks r ! k) = Min (pb_page_number ` set (source_blocks_for_chunk (pp_blocks p) (raw ! k))) \<and>
       ch_page_end (ir_chunks r ! k) = Max (pb_page_number ` set (source_blocks_for_chunk (pp_blocks p) (raw ! k))) \<and>
       1 \<le> ch_page_start (ir_chunks r ! k) \<and> ch_page_end (ir_chunks r ! k) \<le> pp_page_count p \<and>
       ch_previous_chunk_id (ir_chunks r ! k) = (if k = 0 then None else Some (ch_chunk_id (ir_chunks r ! (k - 1)))) \<and>
       ch_next_chunk_id (ir_chunks r ! k) =
         (if Suc k = length raw then None else Some (ch_chunk_id (ir_chunks r ! Suc k)))"
    if "k < length raw" for k
    using r(4,5) that unfolding linked_def traced_to_def Let_def r(3) by blast
  ultimately show ?thesis using r(1,3) by blast
qed

definition sample_pdf_request :: pdf_request where
  "sample_pdf_request = \<lparr>pr_document_id = ''doc1'', pr_tenant_id = ''alice'', pr_visibility = ''private'',
     pr_library_scope_ids = [], pr_strategy = ''paragraph_sentence_v1'', pr_expected_sha256 = None,
     pr_allow_parse_review = True, pr_embedding_version = default_embedding_version, pr_version_id = None,
     pr_is_active = False\<rparr>"

definition sample_canonical :: json_digest where
  "sample_canonical d = replicate 64 CHR ''b''"

lemma valid_pdf_is_ingested_witness:
  "\<exists>r. ingest_pdf_bytes sample_unicode (parse_pdf sample_unicode sample_library sample_digest default_limits)
     sample_digest sample_canonical sample_pdf_request pdf_signature = Inr r"
proof -
  obtain p where p: "parse_pdf sample_unicode sample_library sample_digest default_limits pdf_signature = Inr p"
    and st: "(pp_parse_status p, pp_warnings p) = parse_status_of 80 [ascii ''Hi'']"
    using build_parsed_ok [OF sample_digest_ok, of "[ascii ''Hi'']" sample_unicode default_limits pdf_signature]
    unfolding sample_parse by (fastforce simp: default_limits_def)
  have status: "pp_parse_status p = PARSE_REVIEW \<and> pr_allow_parse_review sample_pdf_request"
    using st by (simp add: parse_status_of_def sample_pdf_request_def ascii_def)
  have canonical: "\<forall>x. sha256_ok (sample_canonical x)"
    by (simp add: sample_canonical_def sha256_ok_def hex_char_def list_all_iff)
  have ok: "request_ok sample_pdf_request"
    by (simp add: request_ok_def sample_pdf_request_def contract_id_ok_def id_head_char_def id_tail_char_def
        visibility_ok_def default_embedding_version_def)
  have st: "pr_strategy sample_pdf_request = ''paragraph_sentence_v1'' \<or>
      pr_strategy sample_pdf_request = ''section_parent_child_v1''"
    and ex: "pr_expected_sha256 sample_pdf_request = None \<or>
      pr_expected_sha256 sample_pdf_request = Some (sample_digest pdf_signature)"
    by (simp_all add: sample_pdf_request_def)
  from valid_pdf_is_ingested [OF sample_digest_ok canonical ok st ex p disjI2 [OF status]] show ?thesis by blast
qed

subsection \<open>Whatever is ingested\<close>

lemma trace_chunks_blocks:
  "trace_chunks sha f bs i cs = Inr traced \<Longrightarrow> map snd traced = map (source_blocks_for_chunk bs) cs \<and>
     (\<forall>c \<in> set cs. source_blocks_for_chunk bs c \<noteq> [])"
  by (induction cs arbitrary: i traced) (auto simp: bind_res_Inr_iff split: if_splits option.splits)

lemma validate_chunk_keeps:
  assumes "validate_chunk c = Inr c'"
  shows "ch_text c' = ch_text c \<and> ch_page_start c' = ch_page_start c \<and> ch_page_end c' = ch_page_end c \<and>
    ch_section_path c' = ch_section_path c \<and> ch_visibility c' = ch_visibility c \<and> ch_is_active c' = ch_is_active c"
  using assms unfolding validate_chunk_def Let_def
  by (auto split: bind_splits if_splits)

lemma build_records_keeps:
  assumes "build_records mk i xs = Inr rs"
  shows "length rs = length xs \<and> (\<forall>k < length xs. validate_chunk (mk (i + k) (fst (xs ! k)) (snd (xs ! k))) = Inr (rs ! k))"
  using assms
proof (induction xs arbitrary: i rs)
  case (Cons x xs)
  then obtain r rs' where r: "validate_chunk (mk i (fst x) (snd x)) = Inr r" "build_records mk (i + 1) xs = Inr rs'"
    "rs = r # rs'" by (cases x) (auto simp: bind_res_Inr_iff)
  from Cons.IH [OF r(2)] r(1) show ?case unfolding r(3) by (auto simp: nth_Cons split: nat.splits)
qed simp

text \<open>For every parser, strategy and request: the chunks of a result are slices of the parsed text.\<close>

lemma ingested_is_traced:
  assumes "ingest_pdf_bytes u parser sha canonical q bytes = Inr r"
  shows "\<exists>p raw. parser bytes = Inr p \<and> split_text u (pp_clean_text p) (pr_strategy q) = Inr raw \<and>
    length (ir_chunks r) = length raw \<and> ir_parse_status r = pp_parse_status p \<and>
    (\<forall>k < length raw. exact_chunk (pp_clean_text p) (raw ! k) \<and> ch_text (ir_chunks r ! k) = rc_text (raw ! k) \<and>
       source_blocks_for_chunk (pp_blocks p) (raw ! k) \<noteq> [] \<and>
       ch_page_start (ir_chunks r ! k) = Min (pb_page_number ` set (source_blocks_for_chunk (pp_blocks p) (raw ! k))) \<and>
       ch_page_end (ir_chunks r ! k) = Max (pb_page_number ` set (source_blocks_for_chunk (pp_blocks p) (raw ! k))) \<and>
       ch_visibility (ir_chunks r ! k) = pr_visibility q \<and> ch_is_active (ir_chunks r ! k) = pr_is_active q)"
proof -
  from assms obtain p where p: "parser_outcome (parser bytes) = Inr p" and run: "ingest_parsed u sha canonical q p = Inr r"
    by (auto simp: ingest_pdf_bytes_def bind_res_Inr_iff split: if_splits)
  then have parsed: "parser bytes = Inr p" by (cases "parser bytes" rule: parser_outcome.cases) auto
  from run obtain raw traced rs where split: "splitter_outcome (split_text u (pp_clean_text p) (pr_strategy q)) = Inr raw"
    and traced: "trace_chunks sha (chunk_id_for canonical q p) (pp_blocks p) 0 raw = Inr traced"
    and rs: "build_records (chunk_record canonical q (resolved_version_id q p) (map fst traced)) 0 (zip raw (map snd traced)) = Inr rs"
    and result: "build_result q (resolved_version_id q p) p rs = Inr r"
    by (auto simp: ingest_parsed_def bind_res_Inr_iff)
  from split have split': "split_text u (pp_clean_text p) (pr_strategy q) = Inr raw"
    by (cases "split_text u (pp_clean_text p) (pr_strategy q)" rule: splitter_outcome.cases) auto
  then have exact: "\<forall>c \<in> set raw. exact_chunk (pp_clean_text p) c"
    by (auto simp: split_text_def bind_res_Inr_iff split: if_splits)
  from result have r: "ir_chunks r = rs" "ir_parse_status r = pp_parse_status p"
    by (auto simp: build_result_def split: bind_splits)
  note t = trace_chunks_blocks [OF traced]
  then have len: "length traced = length raw" by (metis length_map)
  note b = build_records_keeps [OF rs]
  have "exact_chunk (pp_clean_text p) (raw ! k) \<and> ch_text (rs ! k) = rc_text (raw ! k) \<and>
       source_blocks_for_chunk (pp_blocks p) (raw ! k) \<noteq> [] \<and>
       ch_page_start (rs ! k) = Min (pb_page_number ` set (source_blocks_for_chunk (pp_blocks p) (raw ! k))) \<and>
       ch_page_end (rs ! k) = Max (pb_page_number ` set (source_blocks_for_chunk (pp_blocks p) (raw ! k))) \<and>
       ch_visibility (rs ! k) = pr_visibility q \<and> ch_is_active (rs ! k) = pr_is_active q" if k: "k < length raw" for k
  proof -
    have "snd (zip raw (map snd traced) ! k) = source_blocks_for_chunk (pp_blocks p) (raw ! k)"
      "fst (zip raw (map snd traced) ! k) = raw ! k" using k t len by simp_all
    with b k len have "validate_chunk (chunk_record canonical q (resolved_version_id q p) (map fst traced) k (raw ! k)
        (source_blocks_for_chunk (pp_blocks p) (raw ! k))) = Inr (rs ! k)" by auto
    from validate_chunk_keeps [OF this] show ?thesis
      using exact t nth_mem [OF k] by (simp add: chunk_record_def Let_def)
  qed
  with parsed split' r b len show ?thesis by (intro exI [of _ p] exI [of _ raw]) simp
qed

end
