(* ===== verification/SplitterFixed.thy ===== *)
theory SplitterFixed
  imports Splitter
begin

text \<open>
  The fixed-size strategy of the splitter. Two of its results are not what its patterns and its
  messages announce: the ends of sentences never cut a unit, and a chunk that repeats a blank line
  of the chunk before it cannot be found in the source again.
\<close>

subsection \<open>Stripping\<close>

lemma strip_text_idem [simp]: "strip_text p (strip_text p t) = strip_text p t"
  by (rule strip_text_id) (use strip_text_ends in blast)

subsection \<open>Boundaries\<close>

text \<open>At the start of a text only a blank line matches: a lookbehind finds nothing there.\<close>

lemma boundary_full_match:
  assumes "full_match boundary_re part \<noteq> None"
  shows "\<exists>rest. part = 10 # 10 # rest"
proof -
  have "rx part (length part) boundary_re (0, []) \<noteq> []"
    using assms by (auto simp: full_match_def find_None_iff)
  then have "0 < length part" "part ! 0 = 10" "1 < length part" "part ! 1 = 10"
    by (auto simp: boundary_re_def one_char_def many_one_def split: if_splits)
  then show ?thesis by (cases part; cases "tl part") auto
qed

definition has_blank_line :: "pytext \<Rightarrow> bool" where
  "has_blank_line t \<longleftrightarrow> (\<exists>i. Suc i < length t \<and> t ! i = 10 \<and> t ! Suc i = 10)"

lemma split_keeping_slices:
  "ordered_matches p (length t) ms \<Longrightarrow> part \<in> set (split_keeping_at t p ms) \<Longrightarrow> \<exists>a b. part = slice a b t"
  by (induction t p ms rule: split_keeping_at.induct) auto

lemma split_keeping_concat:
  "ordered_matches p (length t) ms \<Longrightarrow> p \<le> length t \<Longrightarrow> concat (split_keeping_at t p ms) = slice p (length t) t"
  by (induction t p ms rule: split_keeping_at.induct) (auto simp: slice_append)

lemma slice_blank_line:
  assumes "slice a b t = 10 # 10 # rest"
  shows "has_blank_line t"
proof -
  have "2 \<le> length (slice a b t)" using assms by simp
  then have "a + 2 \<le> length t" "2 \<le> b - a" by (auto simp: length_slice)
  moreover from this have "slice a b t ! 0 = t ! a" "slice a b t ! 1 = t ! (a + 1)"
    by (auto simp: slice_def nth_append)
  ultimately show ?thesis using assms by (auto simp: has_blank_line_def intro!: exI [of _ a])
qed

lemma add_part_joins:
  "\<forall>part \<in> set parts. full_match boundary_re part = None \<Longrightarrow>
     foldl add_part (us, current) parts = (us, current @ concat parts)"
  by (induction parts arbitrary: current) (auto simp: add_part_def)

text \<open>C30. Sentence ends never cut a unit of the fixed-size strategy: a text without a blank line is one
  unit, whatever ends of sentences \<open>boundary_re\<close> finds in it.\<close>

theorem sentences_stay_one_unit:
  assumes "\<not> has_blank_line (trim t)" and "trim t \<noteq> []"
  shows "split_units t = [trim t]"
proof -
  let ?t = "trim t"
  let ?ms = "find_matches ?t (length ?t) boundary_re 0"
  have ord: "ordered_matches 0 (length ?t) ?ms" by (rule find_matches_ordered)
  have "full_match boundary_re part = None" if "part \<in> set (re_split_keeping boundary_re ?t)" for part
  proof (rule ccontr)
    assume "full_match boundary_re part \<noteq> None"
    then obtain rest where "part = 10 # 10 # rest" using boundary_full_match by blast
    moreover from split_keeping_slices [OF ord, of part] that
    obtain a b where "part = slice a b ?t" unfolding re_split_keeping_def by blast
    ultimately have "slice a b ?t = 10 # 10 # rest" by simp
    then have "has_blank_line ?t" by (rule slice_blank_line)
    with assms(1) show False by simp
  qed
  moreover have "concat (re_split_keeping boundary_re ?t) = ?t"
    using split_keeping_concat [OF ord] by (simp add: re_split_keeping_def slice_full)
  ultimately show ?thesis using assms(2) by (simp add: split_units_def add_part_joins)
qed

text \<open>A text of two sentences, with a match of the pattern between them.\<close>

lemma sentences_stay_one_unit_witness:
  "match_at (ascii ''No. Yes.'') 8 boundary_re 3 = Some (4, []) \<and>
   split_units (ascii ''No. Yes.'') = [ascii ''No. Yes.'']"
proof -
  have t: "trim (ascii ''No. Yes.'') = ascii ''No. Yes.''"
    by (rule strip_text_id) (simp add: ascii_def uspace_def)
  have "\<not> has_blank_line (trim (ascii ''No. Yes.''))"
    unfolding t by (auto simp: has_blank_line_def ascii_def less_Suc_eq numeral_eq_Suc nth_Cons')
  from sentences_stay_one_unit [OF this] have "split_units (ascii ''No. Yes.'') = [ascii ''No. Yes.'']"
    unfolding t by simp
  moreover have "match_at (ascii ''No. Yes.'') 8 boundary_re 3 = Some (4, [])"
    by (simp add: match_at_def boundary_re_def many_one_def one_char_def ascii_def uspace_def repeat_greedy.simps)
  ultimately show ?thesis by simp
qed

subsection \<open>Searching plain words\<close>

lemma find_matches_skip_to:
  "p \<le> q \<Longrightarrow> q \<le> Suc hi \<Longrightarrow> (\<And>i. p \<le> i \<Longrightarrow> i < q \<Longrightarrow> match_at t hi r i = None) \<Longrightarrow>
     find_matches t hi r p = find_matches t hi r q"
proof (induction "q - p" arbitrary: p)
  case (Suc n)
  then have "find_matches t hi r p = find_matches t hi r (p + 1)" by (intro find_matches_skip) auto
  moreover have "find_matches t hi r (p + 1) = find_matches t hi r q" using Suc by (intro Suc(1)) auto
  ultimately show ?case by (rule trans)
qed simp

lemma find_matches_none:
  assumes "\<And>i. p \<le> i \<Longrightarrow> i \<le> hi \<Longrightarrow> match_at t hi r i = None"
  shows "find_matches t hi r p = []"
proof (cases "p \<le> Suc hi")
  case True
  then have "find_matches t hi r p = find_matches t hi r (Suc hi)"
    using assms by (intro find_matches_skip_to) auto
  then show ?thesis by (simp add: find_matches_stop)
qed (simp add: find_matches_stop)

lemma rx_literal:
  assumes "hi \<le> length t"
  shows "rx t hi (literal w) s =
    (if fst s + length w \<le> max (fst s) hi \<and> slice (fst s) (fst s + length w) t = w
     then [(fst s + length w, snd s)] else [])"
proof (induction w arbitrary: s)
  case Nil
  then show ?case by (simp add: slice_empty)
next
  case (Cons c cs)
  show ?case
  proof (cases "fst s < hi")
    case True
    then have "slice (fst s) (fst s + length (c # cs)) t
        = t ! fst s # slice (fst s + 1) (fst s + 1 + length cs) t"
      using assms by (simp add: slice_def Cons_nth_drop_Suc [symmetric])
    with True Cons show ?thesis by (auto simp: one_char_def)
  qed (simp add: one_char_def)
qed

lemma rx_literal_slice:
  assumes "s' \<in> set (rx t (length t) (literal w) s)"
  shows "w = [] \<or> slice (fst s) (fst s + length w) t = w \<and> fst s + length w \<le> length t"
  using assms unfolding rx_literal [OF order_refl]
  by (cases "w = []") (auto simp: le_max_iff_disj split: if_splits)

lemma text_find_chars: "text_find sub t i = Some j \<Longrightarrow> set sub \<subseteq> set t"
  by (drule text_find_Some) (metis set_drop_subset set_take_subset slice_def subset_trans)

text \<open>A word is not empty and has no white space.\<close>

definition word_text :: "pytext \<Rightarrow> bool" where
  "word_text w \<longleftrightarrow> w \<noteq> [] \<and> (\<forall>c \<in> set w. \<not> uspace c)"

lemma trim_word: "word_text w \<Longrightarrow> trim w = w"
  by (rule strip_text_id) (auto simp: word_text_def)

lemma trim_between_words: "word_text v \<Longrightarrow> word_text w \<Longrightarrow> trim (v @ m @ w) = v @ m @ w"
  by (rule strip_text_id) (auto simp: word_text_def)

lemma trim_word_breaks:
  assumes "word_text w"
  shows "trim (w @ [10, 10]) = w"
proof -
  have "w \<noteq> []" "\<not> uspace (hd w)" "\<not> uspace (hd (rev w))"
    using assms by (auto simp: word_text_def hd_rev)
  then have "dropWhile uspace (w @ [10, 10]) = w @ [10, 10]" "dropWhile uspace (rev w) = rev w"
    by (intro dropWhile_id; simp)+
  then show ?thesis by (simp add: strip_text_def uspace_def)
qed

subsection \<open>Three pages\<close>

text \<open>The text of three pages of one word each: long, short, long.\<close>

definition page_a :: pytext where "page_a = replicate 800 97"
definition page_b :: pytext where "page_b = replicate 100 98"
definition page_c :: pytext where "page_c = replicate 900 99"

definition three_pages :: pytext where
  "three_pages = page_a @ [10, 10] @ page_b @ [10, 10] @ page_c"

lemma length_pages [simp]: "length page_a = 800" "length page_b = 100" "length page_c = 900"
  by (simp_all add: page_a_def page_b_def page_c_def)

lemma length_three_pages [simp]: "length three_pages = 1804"
  by (simp add: three_pages_def)

lemma word_pages [simp]: "word_text page_a" "word_text page_b" "word_text page_c"
  by (auto simp: word_text_def page_a_def page_b_def page_c_def uspace_def)

lemma nth_three_pages:
  "i < 1804 \<Longrightarrow> three_pages ! i =
     (if i < 800 then 97 else if i < 802 then 10 else if i < 902 then 98 else if i < 904 then 10 else 99)"
  unfolding three_pages_def page_a_def page_b_def page_c_def
  by (auto simp: nth_append nth_Cons')

lemma slices_three_pages:
  "slice 0 800 three_pages = page_a" "slice 800 802 three_pages = [10, 10]"
  "slice 802 902 three_pages = page_b" "slice 902 904 three_pages = [10, 10]"
  "slice 904 1804 three_pages = page_c"
  by (simp_all add: slice_def three_pages_def)

lemma trim_three_pages: "trim three_pages = three_pages"
  unfolding three_pages_def using trim_between_words [of page_a page_c "[10, 10] @ page_b @ [10, 10]"] by simp

text \<open>The boundaries.\<close>

lemma repeat_greedy_end: "f s = [] \<Longrightarrow> repeat_greedy hi f s = [s]"
  by (subst repeat_greedy.simps) simp

lemma blank_line_match:
  assumes "i + 2 \<le> hi" and "t ! i = 10" and "t ! (i + 1) = 10" and "i + 2 = hi \<or> t ! (i + 2) \<noteq> 10"
  shows "rx t hi boundary_re (i, []) = (i + 2, []) # rx t hi (Cat (Behind (in_class ''.!?;:'')) (many_one space)) (i, [])"
proof -
  have "rx t hi newline (i + 2, []) = []" using assms(4) by (auto simp: one_char_def)
  then have "repeat_greedy hi (rx t hi newline) (i + 2, []) = [(i + 2, [])]" by (rule repeat_greedy_end)
  moreover have "rx t hi newline (i, []) = [(i + 1, [])]" "rx t hi newline (i + 1, []) = [(i + 2, [])]"
    using assms by (simp_all add: one_char_def)
  ultimately have "rx t hi (Cat newline (many_one newline)) (i, []) = [(i + 2, [])]"
    by (simp add: many_one_def)
  then show ?thesis by (simp add: boundary_re_def)
qed

lemma no_boundary:
  assumes "\<not> (i + 1 < hi \<and> t ! i = 10 \<and> t ! (i + 1) = 10)" and "0 < i \<Longrightarrow> \<not> in_class ''.!?;:'' (t ! (i - 1))"
  shows "match_at t hi boundary_re i = None"
proof -
  have "rx t hi (Cat newline (many_one newline)) (i, []) = []"
    using assms(1) by (auto simp: one_char_def many_one_def)
  moreover have "rx t hi (Behind (in_class ''.!?;:'')) (i, []) = []"
    using assms(2) by (cases i) simp_all
  ultimately have "rx t hi boundary_re (i, []) = []"
    unfolding boundary_re_def rx.simps(3) rx.simps(2) [of _ _ "Behind P" for P] by simp
  then show ?thesis by (simp add: match_at_def)
qed

lemma boundary_at_break:
  assumes "i = 800 \<or> i = 902"
  shows "match_at three_pages 1804 boundary_re i = Some (i + 2, [])"
proof -
  have "rx three_pages 1804 boundary_re (i, []) = (i + 2, []) #
      rx three_pages 1804 (Cat (Behind (in_class ''.!?;:'')) (many_one space)) (i, [])"
    by (rule blank_line_match) (use assms in \<open>auto simp: nth_three_pages\<close>)
  then show ?thesis by (simp only: match_at_def list.case)
qed

lemma boundary_elsewhere:
  assumes "i \<le> 1804" and "i \<noteq> 800" and "i \<noteq> 902"
  shows "match_at three_pages 1804 boundary_re i = None"
proof (rule no_boundary)
  show "\<not> (i + 1 < 1804 \<and> three_pages ! i = 10 \<and> three_pages ! (i + 1) = 10)"
    using assms by (auto simp: nth_three_pages split: if_splits)
  show "\<not> in_class ''.!?;:'' (three_pages ! (i - 1))" if "0 < i"
    using that assms by (simp add: nth_three_pages ascii_def)
qed

lemma boundaries_three_pages:
  "find_matches three_pages 1804 boundary_re 0 = [(800, 802, []), (902, 904, [])]"
proof -
  have "find_matches three_pages 1804 boundary_re 0 = find_matches three_pages 1804 boundary_re 800"
    by (rule find_matches_skip_to) (auto intro: boundary_elsewhere)
  also have "\<dots> = (800, 802, []) # find_matches three_pages 1804 boundary_re 802"
    using find_matches_take [OF _ boundary_at_break [of 800]] by simp
  also have "find_matches three_pages 1804 boundary_re 802 = find_matches three_pages 1804 boundary_re 902"
    by (rule find_matches_skip_to) (auto intro: boundary_elsewhere)
  also have "\<dots> = (902, 904, []) # find_matches three_pages 1804 boundary_re 904"
    using find_matches_take [OF _ boundary_at_break [of 902]] by simp
  also have "find_matches three_pages 1804 boundary_re 904 = []"
    by (rule find_matches_none) (auto intro: boundary_elsewhere)
  finally show ?thesis .
qed

lemma break_is_boundary: "full_match boundary_re [10, 10] = Some []"
  using blank_line_match [of 0 2 "[10, 10]"] by (simp add: full_match_def numeral_2_eq_2)

lemma word_is_no_boundary: "word_text w \<Longrightarrow> full_match boundary_re w = None"
proof (rule ccontr)
  assume "word_text w" and "full_match boundary_re w \<noteq> None"
  then obtain rest where "w = 10 # 10 # rest" using boundary_full_match by blast
  with \<open>word_text w\<close> show False by (simp add: word_text_def uspace_def)
qed

lemma units_three_pages: "split_units three_pages = [page_a, page_b, page_c]"
proof -
  have ne: "page_a \<noteq> []" "page_b \<noteq> []" "page_c \<noteq> []" using word_pages by (auto simp: word_text_def)
  have "re_split_keeping boundary_re three_pages = [page_a, [10, 10], page_b, [10, 10], page_c]"
    using boundaries_three_pages slices_three_pages by (simp add: re_split_keeping_def)
  then show ?thesis
    using ne by (simp add: split_units_def trim_three_pages add_part_def break_is_boundary word_is_no_boundary
        trim_word_breaks trim_word)
qed

text \<open>The chunks: the second one repeats the end of the first, a blank line of two characters as one space.\<close>

definition overlap_tail :: pytext where
  "overlap_tail = replicate 99 97 @ 32 # page_b"

lemma chunks_three_pages:
  "chunk_text three_pages fixed_chunk_size fixed_overlap = Inr [page_a @ 32 # page_b, overlap_tail @ 32 # page_c]"
proof -
  have ne: "page_a \<noteq> []" using word_pages by (auto simp: word_text_def)
  have w: "word_text (replicate 99 97)" by (simp add: word_text_def uspace_def)
  have ab: "trim (page_a @ 32 # page_b) = page_a @ 32 # page_b"
    using trim_between_words [of page_a page_b "[32]"] by simp
  have abc: "trim (page_a @ 32 # page_b @ 32 # page_c) = page_a @ 32 # page_b @ 32 # page_c"
    using trim_between_words [of page_a page_c "32 # page_b @ [32]"] by simp
  have last: "last_chars 200 (page_a @ 32 # page_b) = overlap_tail"
    by (simp add: last_chars_def overlap_tail_def page_a_def)
  have tail: "trim overlap_tail = overlap_tail"
    using trim_between_words [OF w word_pages(2), of "[32]"] by (simp add: overlap_tail_def)
  have tc: "trim (overlap_tail @ 32 # page_c) = overlap_tail @ 32 # page_c"
    using trim_between_words [OF w word_pages(3), of "32 # page_b @ [32]"] by (simp add: overlap_tail_def)
  have tne: "overlap_tail \<noteq> []" by (simp add: overlap_tail_def)
  show ?thesis
    by (simp add: chunk_text_def units_three_pages fixed_chunk_size_def fixed_overlap_def add_unit_def join_unit_def
        flush_def ne ab abc last tail tc tne)
qed

text \<open>The words of a chunk.\<close>

lemma no_space_match:
  "i \<le> length t \<Longrightarrow> i < length t \<longrightarrow> \<not> uspace (t ! i) \<Longrightarrow> match_at t (length t) (many_one space) i = None"
  by (auto simp: match_at_def many_one_def)

lemma one_space_match:
  assumes "i + 1 < length t" and "uspace (t ! i)" and "\<not> uspace (t ! (i + 1))"
  shows "match_at t (length t) (many_one space) i = Some (i + 1, [])"
proof -
  have "rx t (length t) space (i + 1, []) = []" using assms(3) by simp
  then have "repeat_greedy (length t) (rx t (length t) space) (i + 1, []) = [(i + 1, [])]" by (rule repeat_greedy_end)
  with assms show ?thesis by (simp add: match_at_def many_one_def)
qed

text \<open>The first word of a text, and the only other one.\<close>

lemma first_word:
  assumes "word_text v" and "w \<noteq> []" and "\<not> uspace (hd w)"
  shows "re_split (many_one space) (v @ 32 # w) =
    v # split_at (v @ 32 # w) (length v + 1)
      (find_matches (v @ 32 # w) (length (v @ 32 # w)) (many_one space) (length v + 1))"
proof -
  let ?t = "v @ 32 # w"
  have sp: "?t ! (length v + 1) = hd w" using assms(2) by (simp add: nth_append hd_conv_nth)
  have "find_matches ?t (length ?t) (many_one space) 0 = find_matches ?t (length ?t) (many_one space) (length v)"
  proof (rule find_matches_skip_to)
    fix i assume "i < length v"
    with assms(1) show "match_at ?t (length ?t) (many_one space) i = None"
      by (intro no_space_match) (auto simp: word_text_def nth_append)
  qed auto
  also have "\<dots> = (length v, length v + 1, []) #
      find_matches ?t (length ?t) (many_one space) (if length v + 1 \<le> length v then length v + 1 else length v + 1)"
    by (intro find_matches_take one_space_match) (use assms sp in \<open>simp_all add: uspace_def\<close>)
  finally show ?thesis by (simp add: re_split_def slice_def)
qed

lemma last_word:
  assumes "word_text w"
  shows "split_at (v @ w) (length v) (find_matches (v @ w) (length (v @ w)) (many_one space) (length v)) = [w]"
proof -
  have "find_matches (v @ w) (length (v @ w)) (many_one space) (length v) = []"
  proof (rule find_matches_none)
    fix i assume "length v \<le> i" "i \<le> length (v @ w)"
    with assms show "match_at (v @ w) (length (v @ w)) (many_one space) i = None"
      by (intro no_space_match) (auto simp: word_text_def nth_append)
  qed
  then show ?thesis by (simp add: slice_def)
qed

lemma two_words:
  assumes "word_text v" and "word_text w"
  shows "re_split (many_one space) (v @ 32 # w) = [v, w]"
  using first_word [OF assms(1), of w] last_word [OF assms(2), of "v @ [32]"] assms(2)
  by (simp add: word_text_def)

lemma spaced_first:
  assumes "s' \<in> set (rx t (length t) (spaced (w # ws)) s)" and "w \<noteq> []"
  shows "slice (fst s) (fst s + length w) t = w \<and> fst s + length w \<le> length t"
  using assms by (cases ws) (auto dest: rx_literal_slice)

text \<open>The first chunk is found where it is, the second one is not.\<close>

lemma first_chunk_match:
  "match_at three_pages 1804 (spaced [page_a, page_b]) 0 = Some (902, [])"
proof -
  let ?rx = "rx three_pages 1804"
  have lit: "?rx (literal page_a) (0, []) = [(800, [])]" "?rx (literal page_b) (802, []) = [(902, [])]"
    using rx_literal [of 1804 three_pages] slices_three_pages by simp_all
  have sp: "?rx space (800, []) = [(801, [])]" "?rx space (801, []) = [(802, [])]" "?rx space (802, []) = []"
    by (simp_all add: nth_three_pages uspace_def)
  have "repeat_greedy 1804 (?rx space) (802, []) = [(802, [])]" by (rule repeat_greedy_end) (rule sp)
  then have "repeat_greedy 1804 (?rx space) (801, []) = [(802, []), (801, [])]"
    using sp by (subst repeat_greedy.simps) simp
  then have "?rx (many_one space) (800, []) = [(802, []), (801, [])]" using sp by (simp add: many_one_def)
  with lit show ?thesis by (simp add: match_at_def del: literal.simps)
qed

lemma first_chunk_located:
  "locate three_pages (page_a @ 32 # page_b) 0 = Inr (0, 902)"
proof -
  have "text_find (page_a @ 32 # page_b) three_pages 0 = None"
    using text_find_chars [of "page_a @ 32 # page_b" three_pages 0]
    by (cases "text_find (page_a @ 32 # page_b) three_pages 0")
      (auto simp: three_pages_def page_a_def page_b_def page_c_def)
  moreover have "trim (page_a @ 32 # page_b) = page_a @ 32 # page_b"
    using trim_between_words [of page_a page_b "[32]"] by simp
  moreover have "re_split (many_one space) (page_a @ 32 # page_b) = [page_a, page_b]"
    by (rule two_words) simp_all
  moreover have "page_a \<noteq> []" "page_b \<noteq> []" using word_pages by (auto simp: word_text_def)
  moreover have "search_from three_pages (spaced [page_a, page_b]) 0 = Some (0, 902)"
    using find_matches_take [OF _ first_chunk_match] by (simp add: search_from_def)
  ultimately show ?thesis by (simp add: locate_def)
qed

lemma second_chunk_lost:
  "locate three_pages (overlap_tail @ 32 # page_c) 702 = Inl span_invalid"
proof -
  let ?chunk = "overlap_tail @ 32 # page_c" and ?w = "replicate 99 97 :: pytext"
  have w: "word_text ?w" by (simp add: word_text_def uspace_def)
  have chunk: "?chunk = ?w @ 32 # (page_b @ 32 # page_c)" by (simp add: overlap_tail_def)
  have "text_find ?chunk three_pages 702 = None"
    using text_find_chars [of ?chunk three_pages 702]
    by (cases "text_find ?chunk three_pages 702") (auto simp: three_pages_def page_a_def page_b_def page_c_def)
  moreover have "trim ?chunk = ?chunk"
    unfolding chunk using trim_between_words [OF w word_pages(3), of "32 # page_b @ [32]"] by simp
  moreover obtain ws where "filter (\<lambda>w. w \<noteq> []) (re_split (many_one space) ?chunk) = ?w # ws"
  proof -
    have "page_b \<noteq> []" "\<not> uspace (hd page_b)" by (auto simp: page_b_def uspace_def)
    then show ?thesis
      using that unfolding chunk by (subst (asm) first_word [OF w]) simp_all
  qed
  moreover have "search_from three_pages (spaced (?w # ws)) 702 = None" for ws
  proof (rule ccontr)
    assume "search_from three_pages (spaced (?w # ws)) 702 \<noteq> None"
    then obtain s e ms where "(s, e, ms) \<in> set (find_matches three_pages 1804 (spaced (?w # ws)) 702)"
      unfolding search_from_def by (cases "find_matches three_pages 1804 (spaced (?w # ws)) 702") auto
    from find_matches_match [OF this] have s: "702 \<le> s" "match_at three_pages 1804 (spaced (?w # ws)) s = Some (e, ms)"
      by auto
    then have "(e, ms) \<in> set (rx three_pages 1804 (spaced (?w # ws)) (s, []))"
      by (auto simp: match_at_def split: list.splits)
    from spaced_first [of "(e, ms)" three_pages ?w ws "(s, [])"] this
    have sl: "slice s (s + 99) three_pages = ?w" "s + 99 \<le> 1804" by auto
    then have "three_pages ! (s + 98) = ?w ! 98" using nth_slice [of s 98 "s + 99" three_pages] by simp
    with s(1) sl(2) show False by (simp add: nth_three_pages split: if_splits)
  qed
  ultimately show ?thesis by (simp add: locate_def)
qed

lemma heading_text_none:
  assumes "i < hi \<longrightarrow> \<not> nonzero_digit (t ! i) \<and> \<not> capital (t ! i)"
  shows "rx t hi (heading_text u) (i, ms) = []"
proof -
  have a: "\<not> (i < hi \<and> t ! i = 65)" using assms by (auto simp: capital_def)
  have "rx t hi (heading_number u) (i, ms) = []"
    using assms by (auto simp: heading_number_def number_part_def)
  moreover have "rx t hi (literal (ascii ''Appendix'')) (i, ms) = []" "rx t hi (literal (ascii ''Acknowledg'')) (i, ms) = []"
    using a by (auto simp: ascii_def one_char_def)
  ultimately show ?thesis by (simp add: heading_text_def acknowledgments_def)
qed

lemma no_headings:
  assumes "\<And>i. i < length t \<Longrightarrow> \<not> nonzero_digit (t ! i) \<and> \<not> capital (t ! i)"
  shows "heading_spans u t = []"
proof -
  have "match_at t (length t) (heading_re u) i = None" for i
    using heading_text_none [of i "length t" t u] assms by (simp add: match_at_def heading_re_def)
  then have "find_matches t (length t) (heading_re u) 0 = []" by (intro find_matches_none) simp
  then show ?thesis by (simp add: heading_spans_def)
qed

text \<open>C29. The fixed-size strategy rejects the text of three pages of 800, 100 and 900 characters, with the
  configured size and overlap: its own second chunk is not found in the source, because the search begins
  an overlap of 200 characters before the end of the first chunk, and the 200 characters that the second
  chunk repeats contain a blank line, which is one character longer in the source than in the chunk.\<close>

theorem fixed_split_rejects_short_page:
  "split_text u three_pages ''fixed_boundary_v1'' = Inl (Splitter_Error ''SPLITTER_SOURCE_SPAN_INVALID'')"
proof -
  have "heading_spans u three_pages = []"
    by (rule no_headings) (simp add: nth_three_pages nonzero_digit_def capital_def)
  then obtain sec where sec: "section_spans u False three_pages = [sec]" "sp_start sec = 0" "sp_end sec = 1804"
    by (simp add: section_spans_def mk_section_def)
  then have at: "section_at (section_spans u False three_pages) p = Inr sec" if "p < 1804" for p
    using that by (simp add: section_at_def)
  have ne: "trim three_pages \<noteq> []" unfolding trim_three_pages by (simp add: three_pages_def)
  have lower: "next_lower fixed_overlap (page_a @ 32 # page_b) 0 902 = 702"
    by (simp add: next_lower_def fixed_overlap_def)
  have "split_fixed u fixed_chunk_size fixed_overlap three_pages = Inl span_invalid"
    by (simp add: split_fixed_def chunks_three_pages first_chunk_located at lower second_chunk_lost)
  with ne show ?thesis by (simp add: split_text_def strategies_def span_invalid_def)
qed

end
