(* ===== verification/PdfPipeline.thy ===== *)
theory PdfPipeline
  imports PersistentIngestion PdfChunks SplitterFixed
begin

text \<open>
  The persistent ingestion over the ingestion service itself: the call that
  \<^verbatim>\<open>backend/ingestion/persistent.py\<close> makes of \<open>ingest_pdf_bytes\<close>, and what the stored chunks are
  in terms of the bytes of the request.
\<close>

definition service_request ::
  "string \<Rightarrow> string \<Rightarrow> string list \<Rightarrow> string \<Rightarrow> string \<Rightarrow> bool \<Rightarrow> string \<Rightarrow> pdf_request" where
  "service_request doc owner scopes strategy actual allow_review vid =
     \<lparr>pr_document_id = doc, pr_tenant_id = owner, pr_visibility = ''private'', pr_library_scope_ids = scopes,
      pr_strategy = strategy, pr_expected_sha256 = Some actual, pr_allow_parse_review = allow_review,
      pr_embedding_version = default_embedding_version, pr_version_id = Some vid, pr_is_active = False\<rparr>"

definition service_ingest :: "unicode \<Rightarrow> pdf_parser \<Rightarrow> (nat list \<Rightarrow> string) \<Rightarrow> json_digest \<Rightarrow> nat list ingest" where
  "service_ingest u parser sha canonical bytes doc owner scopes strategy actual allow_review vid =
     ingest_pdf_bytes u parser sha canonical (service_request doc owner scopes strategy actual allow_review vid) bytes"

text \<open>C26. Whatever the persistent ingestion stores is the text of the PDF: when it returns, the bytes of the
  request parse with status PASS, and the rows committed for the version read back as one chunk per chunk of
  the splitter, each an exact slice of the parsed text, on the pages of the blocks it overlaps, private and
  not active.\<close>

theorem stored_chunks_are_source:
  assumes "prepare_and_persist_pdf_ingestion sha (service_ingest u parser sha canonical)
      (postgres_facts fp clock ids) put t q s = (Inr r, s')"
  shows "\<exists>p raw cs. parser (rq_pdf_bytes q) = Inr p \<and> pp_parse_status p = PARSE_PASS \<and>
    split_text u (pp_clean_text p) (rq_strategy q) = Inr raw \<and>
    chunks_from_rows False (snapshot_rows (po_owner_id (ri_pdf_object r))
      (po_document_version_id (ri_pdf_object r)) (committed (fst s'))) = Inr cs \<and> length cs = length raw \<and>
    (\<forall>k < length raw.
       ch_text (cs ! k) = slice (rc_source_start (raw ! k)) (rc_source_end (raw ! k)) (pp_clean_text p) \<and>
       ch_page_start (cs ! k) = Min (pb_page_number ` set (source_blocks_for_chunk (pp_blocks p) (raw ! k))) \<and>
       ch_page_end (cs ! k) = Max (pb_page_number ` set (source_blocks_for_chunk (pp_blocks p) (raw ! k))) \<and>
       ch_visibility (cs ! k) = ''private'' \<and> \<not> ch_is_active (cs ! k))"
proof -
  from persisted_ingestion [OF assms] obtain s1 s2 where
    prep: "prepare_persistent_pdf_ingestion sha (service_ingest u parser sha canonical) (postgres_facts fp clock ids) t q s
        = (Inr (ri_preparation r), s1)"
    and pass: "ir_parse_status (pr_ingestion (ri_preparation r)) = PARSE_PASS"
    and run: "persist_runtime_snapshot fp (ri_pdf_object r) (ir_chunks (pr_ingestion (ri_preparation r))) (fst s2)
        = (Inr (ri_snapshot r), fst s')" by blast
  from prepared_ingestion [OF prep] obtain doc vid where
    "ingest_pdf_bytes u parser sha canonical (service_request doc (rq_owner_id q) (rq_library_scope_ids q) (rq_strategy q)
        (sha (rq_pdf_bytes q)) (rq_allow_parse_review q) vid) (rq_pdf_bytes q) = Inr (pr_ingestion (ri_preparation r))"
    unfolding service_ingest_def by blast
  from ingested_is_traced [OF this] persisted_rows [OF run] pass show ?thesis
    by (auto simp: service_request_def exact_chunk_def)
qed

subsection \<open>A run\<close>

text \<open>A service that succeeds wherever another one does gives the same results.\<close>

lemma prepare_more:
  assumes "prepare_persistent_pdf_ingestion sha f R t q s = (Inr prep, s')"
    and "\<And>doc vid r. f (rq_pdf_bytes q) doc (rq_owner_id q) (rq_library_scope_ids q) (rq_strategy q)
      (sha (rq_pdf_bytes q)) (rq_allow_parse_review q) vid = Inr r \<Longrightarrow>
      g (rq_pdf_bytes q) doc (rq_owner_id q) (rq_library_scope_ids q) (rq_strategy q)
      (sha (rq_pdf_bytes q)) (rq_allow_parse_review q) vid = Inr r"
  shows "prepare_persistent_pdf_ingestion sha g R t q s = (Inr prep, s')"
proof -
  have step: "(case f (rq_pdf_bytes q) doc (rq_owner_id q) (rq_library_scope_ids q) (rq_strategy q)
      (sha (rq_pdf_bytes q)) (rq_allow_parse_review q) vid of
        Inl e \<Rightarrow> ingestion_raised R v j e u | Inr x \<Rightarrow> conclude_preparation R t q i v j x u) = (Inr prep, s') \<Longrightarrow>
    (case g (rq_pdf_bytes q) doc (rq_owner_id q) (rq_library_scope_ids q) (rq_strategy q)
      (sha (rq_pdf_bytes q)) (rq_allow_parse_review q) vid of
        Inl e \<Rightarrow> ingestion_raised R v j e u | Inr x \<Rightarrow> conclude_preparation R t q i v j x u) = (Inr prep, s')"
    for doc vid v j u i
    using assms(2) by (auto simp: ingestion_raised_def then_do_Inr split: sum.splits service_failure.splits)
  from assms(1) show ?thesis
    unfolding prepare_persistent_pdf_ingestion_def Let_def
    by (simp add: then_do_Inr escaping_Inr split: if_splits prod.splits) (use step in blast)
qed

text \<open>A parser that finds one word on one page.\<close>

definition word_pdf :: parsed_pdf where
  "word_pdf = \<lparr>pp_pdf_sha256 = sample_digest [], pp_source_text_sha256 = sample_digest [],
     pp_clean_text = [104, 105], pp_page_count = 1, pp_parse_status = PARSE_PASS, pp_warnings = [],
     pp_blocks = [\<lparr>pb_page_number = 1, pb_section_path = [[68]], pb_source_start = 0, pb_source_end = 2,
       pb_text = [104, 105]\<rparr>]\<rparr>"

lemma word_split:
  "split_text u [104, 105] ''paragraph_sentence_v1'' =
     Inr [\<lparr>rc_text = [104, 105], rc_source_start = 0, rc_source_end = 2, rc_section_name = None, rc_parent_source_id = None\<rparr>]"
proof -
  let ?t = "[104, 105] :: pytext"
  have "heading_spans u ?t = []"
    by (rule no_headings) (auto simp: less_Suc_eq numeral_2_eq_2 nonzero_digit_def capital_def)
  then have sec: "section_spans u False ?t = [mk_section 0 2 (ascii ''section-unknown-000'') unknown_heading]"
    by (simp add: section_spans_def numeral_2_eq_2)
  have tr: "trim ?t = ?t" by (rule strip_text_id) (simp add: uspace_def)
  have "match_at ?t 2 paragraph_break_re i = None" for i
    by (simp add: match_at_def paragraph_break_re_def one_char_def numeral_2_eq_2 less_Suc_eq)
  then have "find_matches ?t 2 paragraph_break_re 0 = []" by (intro find_matches_none) simp
  then have "paragraph_spans ?t 0 2 = [mk_span 0 2]"
    using tr by (simp add: paragraph_spans_def keep_span_def slice_def numeral_2_eq_2)
  then have "atomic_spans ?t (mk_section 0 2 i h) 1280 = [mk_span 0 2]" for i h
    by (simp add: atomic_spans_def mk_section_def paragraph_units_def span_length_def numeral_2_eq_2)
  moreover have "group_units structural_defaults [mk_span 0 2] 0 = [mk_span 0 2]"
    by (subst group_units.simps) (simp add: chunk_stop_def fill.simps numeral_2_eq_2)
  ultimately have "split_structural u structural_defaults False ?t =
     [\<lparr>rc_text = ?t, rc_source_start = 0, rc_source_end = 2, rc_section_name = None, rc_parent_source_id = None\<rparr>]"
    using tr by (simp add: split_structural_def sec section_chunks_def structural_defaults_def mk_section_def
        section_name_def slice_def numeral_2_eq_2)
  with tr show ?thesis by (simp add: split_text_def strategies_def exact_chunk_def slice_def numeral_2_eq_2)
qed

text \<open>What the service makes of it.\<close>

definition word_chunk :: "string \<Rightarrow> string \<Rightarrow> string \<Rightarrow> chunk" where
  "word_chunk doc owner vid = \<lparr>ch_chunk_id = ''chunk_'' @ replicate 24 CHR ''b'', ch_document_id = doc, ch_version_id = vid,
     ch_text = [104, 105], ch_section_path = [68], ch_page_start = 1, ch_page_end = 1, ch_parent_chunk_id = None,
     ch_previous_chunk_id = None, ch_next_chunk_id = None, ch_tenant_id = owner, ch_visibility = ''private'',
     ch_library_scope_ids = [], ch_parse_version = parse_version, ch_embedding_version = default_embedding_version,
     ch_is_active = False\<rparr>"

definition word_result :: "string \<Rightarrow> string \<Rightarrow> string \<Rightarrow> ingestion_result" where
  "word_result doc owner vid = \<lparr>ir_document_id = doc, ir_version_id = vid, ir_pdf_sha256 = sample_digest [],
     ir_source_text_sha256 = sample_digest [], ir_parse_status = PARSE_PASS, ir_warnings = [],
     ir_strategy = ''paragraph_sentence_v1'', ir_chunks = [word_chunk doc owner vid]\<rparr>"

definition word_ingest :: "nat list ingest" where
  "word_ingest bytes doc owner scopes strategy actual allow_review vid =
     (if contract_id_ok doc \<and> contract_id_ok owner \<and> contract_id_ok vid \<and> scopes = [] \<and>
         strategy = ''paragraph_sentence_v1'' \<and> actual = sample_digest []
      then Inr (word_result doc owner vid) else Inl Service_Escaped)"

lemma parse_version_id: "contract_id_ok parse_version" "contract_id_ok default_embedding_version"
  by (simp_all add: parse_version_def default_embedding_version_def contract_id_ok_def id_tail_char_def id_head_char_def)

lemma word_service:
  assumes "word_ingest bytes doc owner scopes strategy actual allow_review vid = Inr r"
  shows "service_ingest u (\<lambda>_. Inr word_pdf) sample_digest sample_canonical bytes doc owner scopes strategy actual
    allow_review vid = Inr r"
proof -
  from assms have ids: "contract_id_ok doc" "contract_id_ok owner" "contract_id_ok vid" "scopes = []"
    "strategy = ''paragraph_sentence_v1''" "actual = sample_digest []" and r: "r = word_result doc owner vid"
    by (auto simp: word_ingest_def split: if_splits)
  let ?q = "service_request doc owner scopes strategy actual allow_review vid"
  let ?c = "\<lparr>rc_text = [104, 105], rc_source_start = 0, rc_source_end = 2, rc_section_name = None, rc_parent_source_id = None\<rparr> :: raw_chunk"
  have dig: "sample_digest bytes = sample_digest []" "sha256_ok (sample_digest [])"
    using sample_digest_ok by (simp_all add: sample_digest_def)
  have vid: "resolved_version_id ?q word_pdf = vid"
    using contract_id_nonempty [OF ids(3)] by (simp add: resolved_version_id_def service_request_def split: list.splits)
  have gates: "parse_gates allow_review word_pdf = Inr ()"
    by (simp add: parse_gates_def word_pdf_def block_exact_def slice_def)
  have blocks: "source_blocks_for_chunk (pp_blocks word_pdf) ?c = pp_blocks word_pdf"
    by (simp add: source_blocks_for_chunk_def word_pdf_def)
  have cid: "chunk_id_for sample_canonical ?q word_pdf 0 ?c h = ''chunk_'' @ replicate 24 CHR ''b''" for h
    by (simp add: chunk_id_for_def sample_canonical_def)
  have traced: "trace_chunks sample_digest (chunk_id_for sample_canonical ?q word_pdf) (pp_blocks word_pdf) 0 [?c] =
      Inr [(''chunk_'' @ replicate 24 CHR ''b'', pp_blocks word_pdf)]"
    by (simp only: trace_chunks.simps blocks cid) (simp add: utf8_char_def word_pdf_def)
  have rec: "chunk_record sample_canonical ?q vid [''chunk_'' @ replicate 24 CHR ''b''] 0 ?c (pp_blocks word_pdf) = word_chunk doc owner vid"
    by (simp add: chunk_record_def word_chunk_def word_pdf_def section_path_def joined_path_def Let_def
        service_request_def parent_chunk_id_def ids(4))
  have "contract_id_ok (''chunk_'' @ replicate 24 CHR ''b'')"
    by (simp add: contract_id_ok_def id_tail_char_def id_head_char_def list_all_iff)
  then have ok: "validate_chunk (word_chunk doc owner vid) = Inr (word_chunk doc owner vid)"
    using ids(1-3) parse_version_id
    by (intro validate_chunk_ok) (simp add: chunk_ok_def word_chunk_def chunk_scalars_ok_def visibility_ok_def
        ranges_and_scopes_are_valid_def opt_id_ok_def)
  have "contract_id_ok ''paragraph_sentence_v1''"
    by (simp add: contract_id_ok_def id_tail_char_def id_head_char_def)
  then have result: "build_result ?q vid word_pdf [word_chunk doc owner vid] = Inr r"
    using ids dig(2) unfolding r by (simp add: build_result_def service_request_def word_pdf_def word_result_def)
  have strategy: "pr_strategy ?q = ''paragraph_sentence_v1''" "pp_clean_text word_pdf = [104, 105]"
    by (simp_all add: service_request_def ids(5) word_pdf_def)
  have "ingest_parsed u sample_digest sample_canonical ?q word_pdf = Inr r"
    unfolding ingest_parsed_def strategy word_split vid by (simp add: traced rec [unfolded append.simps] ok result del: trace_chunks.simps)
  moreover have "pr_expected_sha256 ?q = Some (sample_digest bytes)" "pr_allow_parse_review ?q = allow_review"
    by (simp_all add: service_request_def ids(6) dig(1))
  ultimately show ?thesis using gates by (simp add: service_ingest_def ingest_pdf_bytes_def)
qed

definition word_request :: "nat list ingestion_request" where
  "word_request =
     \<lparr>rq_pdf_bytes = [37], rq_owner_id = ''alice'', rq_paper_id = ''paper3'',
      rq_source_type = ''uploaded'', rq_source_created_time = Aware 1,
      rq_source_updated_time = Aware 2, rq_idempotency_key = ''key9'', rq_strategy = ''paragraph_sentence_v1'',
      rq_library_scope_ids = [], rq_expected_sha256 = None, rq_source_snapshot_sha256 = None,
      rq_allow_parse_review = False, rq_mapping_version = ''map1''\<rparr>"

definition word_put :: "nat list \<Rightarrow> string \<Rightarrow> string \<Rightarrow> string \<Rightarrow> string \<Rightarrow> nat \<Rightarrow> (unit + pdf_object) \<times> nat" where
  "word_put b = sample_put ()"

definition word_run :: "nat list ingest \<Rightarrow> (ingestion_failure + runtime_ingestion) \<times> (conn \<times> nat)" where
  "word_run ingest = prepare_and_persist_pdf_ingestion sample_digest ingest
     (postgres_facts (\<lambda>_. sample_hash CHR ''f'') (\<lambda>c n. 30) (\<lambda>c n. if n = 0 then ''new0'' else ''new1''))
     (\<lambda>b w d v h. on_world (word_put b w d v h)) (Aware 29) word_request (SampleFacts.connected sample_db, 0)"

lemma word_run_returns: "case fst (word_run word_ingest) of Inl _ \<Rightarrow> False | Inr _ \<Rightarrow> True"
  by code_simp

lemma stored_chunks_are_source_witness:
  "\<exists>r (p :: parsed_pdf) raw (cs :: chunk list). fst (word_run (service_ingest sample_unicode (\<lambda>_. Inr word_pdf) sample_digest sample_canonical)) = Inr r \<and>
    split_text sample_unicode (pp_clean_text p) ''paragraph_sentence_v1'' = Inr raw \<and> length cs = length raw \<and>
    (\<forall>k < length raw. ch_text (cs ! k) = slice (rc_source_start (raw ! k)) (rc_source_end (raw ! k)) (pp_clean_text p))"
proof -
  obtain r where "fst (word_run word_ingest) = Inr r" using word_run_returns by (cases "fst (word_run word_ingest)") auto
  then have "word_run word_ingest = (Inr r, snd (word_run word_ingest))" by (metis prod.collapse)
  then obtain prep s1 where prep: "prepare_persistent_pdf_ingestion sample_digest word_ingest
       (postgres_facts (\<lambda>_. sample_hash CHR ''f'') (\<lambda>c n. 30) (\<lambda>c n. if n = 0 then ''new0'' else ''new1'')) (Aware 29) word_request
       (SampleFacts.connected sample_db, 0 :: nat) = (Inr prep, s1)"
    unfolding word_run_def prepare_and_persist_pdf_ingestion_def by (simp only: then_do_Inr) blast
  have "prepare_persistent_pdf_ingestion sample_digest
       (service_ingest sample_unicode (\<lambda>_. Inr word_pdf) sample_digest sample_canonical)
       (postgres_facts (\<lambda>_. sample_hash CHR ''f'') (\<lambda>c n. 30) (\<lambda>c n. if n = 0 then ''new0'' else ''new1'')) (Aware 29) word_request
       (SampleFacts.connected sample_db, 0 :: nat) = (Inr prep, s1)"
    by (rule prepare_more [OF prep]) (rule word_service)
  with prep have "word_run (service_ingest sample_unicode (\<lambda>_. Inr word_pdf) sample_digest sample_canonical) =
      word_run word_ingest"
    unfolding word_run_def prepare_and_persist_pdf_ingestion_def by (simp only:)
  with \<open>word_run word_ingest = (Inr r, snd (word_run word_ingest))\<close>
  have run: "word_run (service_ingest sample_unicode (\<lambda>_. Inr word_pdf) sample_digest sample_canonical) =
      (Inr r, snd (word_run word_ingest))" by (simp only:)
  have st: "rq_strategy word_request = ''paragraph_sentence_v1''" by (simp add: word_request_def)
  have "fst (word_run (service_ingest sample_unicode (\<lambda>_. Inr word_pdf) sample_digest sample_canonical)) = Inr r"
    unfolding run by simp
  moreover obtain p :: parsed_pdf and raw and cs :: "chunk list" where
    "split_text sample_unicode (pp_clean_text p) ''paragraph_sentence_v1'' = Inr raw" and "length cs = length raw"
    and "\<forall>k < length raw. ch_text (cs ! k) = slice (rc_source_start (raw ! k)) (rc_source_end (raw ! k)) (pp_clean_text p)"
    using stored_chunks_are_source [OF run [unfolded word_run_def], unfolded st] by fast
  ultimately show ?thesis by blast
qed

end
