(* ===== verification/Reranker.thy ===== *)
theory Reranker
  imports OnlineRouting Regex
begin

text \<open>
  The optional reranker of authorized candidates, \<^verbatim>\<open>backend/retrieval/online_reranker.py\<close>: its
  configuration, the title mapping and \<open>rerank\<close> with its fallbacks. The title provider and the
  scorer are arguments, a score is a JSON value; latencies are not modelled.
\<close>

subsection \<open>Configuration\<close>

record reranker_config =
  rr_candidate_top_k :: int
  rr_model :: jobject

definition reranker_config_keys :: "string list" where
  "reranker_config_keys = [''schema_version'', ''candidate_top_k'', ''failure_policy'', ''model'']"

definition reranker_model_keys :: "string list" where
  "reranker_model_keys = [''provider'', ''model_id'', ''revision'', ''snapshot_sha256'', ''max_length'',
     ''batch_size'', ''device'', ''trust_remote_code'', ''input_template'']"

definition online_config_batch_sizes :: "(pytext \<times> int) list" where
  "online_config_batch_sizes = [(ascii ''online_fixed_cross_encoder_config_v1'', 16),
     (ascii ''online_fixed_cross_encoder_config_v2'', 20)]"

definition lower_hex :: "pytext \<Rightarrow> bool" where
  "lower_hex t \<longleftrightarrow> (\<forall>c \<in> set t. in_class ''0123456789abcdef'' c)"

definition reranker_model_ok :: "int \<Rightarrow> jobject \<Rightarrow> bool" where
  "reranker_model_ok batch_size m =
     (if set (map fst m) \<noteq> set reranker_model_keys then False
      else if get m ''provider'' \<noteq> Some (JStr (ascii ''sentence_transformers_cross_encoder'')) then False
      else if get m ''input_template'' \<noteq> Some (JStr (ascii ''question_title_section_text_v1'')) then False
      else if get m ''trust_remote_code'' \<noteq> Some (JBool False) then False
      else if \<exists>f \<in> set [''model_id'', ''revision'', ''snapshot_sha256'', ''device'']. \<not> nonempty_str (get m f)
      then False
      else if length (text_field m ''revision'') \<noteq> 40 \<or> \<not> lower_hex (text_field m ''revision'') then False
      else if length (text_field m ''snapshot_sha256'') \<noteq> 64 \<or> \<not> lower_hex (text_field m ''snapshot_sha256'')
      then False
      else if \<not> is_int (get m ''max_length'') \<or> int_of (get m ''max_length'') \<noteq> 512 then False
      else if \<not> is_int (get m ''batch_size'') \<or> int_of (get m ''batch_size'') \<noteq> batch_size then False
      else True)"

definition load_online_reranker_config :: "json \<Rightarrow> unit + reranker_config" where
  "load_online_reranker_config v =
     (case v of JObj d \<Rightarrow>
       (if set (map fst d) \<noteq> set reranker_config_keys then Inl ()
        else case (get d ''schema_version'', get d ''model'') of
          (Some (JStr schema), Some model) \<Rightarrow>
            (case map_of online_config_batch_sizes schema of None \<Rightarrow> Inl ()
             | Some batch_size \<Rightarrow>
                 if get d ''failure_policy'' \<noteq> Some (JStr (ascii ''FALLBACK_TO_AUTHORIZED_RRF'')) then Inl ()
                 else if \<not> is_int (get d ''candidate_top_k'') \<or> int_of (get d ''candidate_top_k'') < 3 \<or>
                   50 < int_of (get d ''candidate_top_k'') then Inl ()
                 else (case model of JObj m \<Rightarrow>
                     if reranker_model_ok batch_size m
                     then Inr \<lparr>rr_candidate_top_k = int_of (get d ''candidate_top_k''), rr_model = m\<rparr>
                     else Inl ()
                   | _ \<Rightarrow> Inl ()))
        | _ \<Rightarrow> Inl ())
      | _ \<Rightarrow> Inl ())"

subsection \<open>Titles\<close>

type_synonym title_provider = "string \<Rightarrow> pytext list \<Rightarrow> unit + (pytext \<times> pytext) list"

definition static_titles :: "(json \<times> json) list \<Rightarrow> unit + (pytext \<times> pytext) list" where
  "static_titles titles =
     (if titles = [] \<or> \<not> (\<forall>(d, t) \<in> set titles. nonempty_str (Some d) \<and>
          (case t of JStr s \<Rightarrow> \<not> blank s | _ \<Rightarrow> False)) then Inl ()
      else Inr (map (\<lambda>(d, t). (text_of (Some d), trim (text_of (Some t)))) titles))"

definition resolve_titles :: "(pytext \<times> pytext) list \<Rightarrow> title_provider" where
  "resolve_titles titles owner_id document_ids =
     (if owner_id = [] then Inl ()
      else if \<not> distinct document_ids then Inl ()
      else Inr (concat (map (\<lambda>d. case map_of titles d of None \<Rightarrow> [] | Some t \<Rightarrow> [(d, t)]) document_ids)))"

definition passage :: "jobject \<Rightarrow> (pytext \<times> pytext) list \<Rightarrow> unit + pytext" where
  "passage c titles =
     (case get c ''document_id'' of
        Some (JStr d) \<Rightarrow>
          (case map_of titles d of None \<Rightarrow> Inl ()
           | Some t \<Rightarrow>
               if \<not> nonempty_str (get c ''section_path'') then Inl ()
               else if \<not> nonempty_str (get c ''text'') then Inl ()
               else Inr (ascii ''Title: '' @ t @ [10] @ ascii ''Section: '' @ text_field c ''section_path'' @
                 [10] @ text_field c ''text''))
      | _ \<Rightarrow> Inl ())"

fun passages :: "(pytext \<times> pytext) list \<Rightarrow> jobject list \<Rightarrow> unit + pytext list" where
  "passages titles [] = Inr []"
| "passages titles (c # cs) = bind_res (passage c titles) (\<lambda>p.
     bind_res (passages titles cs) (\<lambda>ps. Inr (p # ps)))"

subsection \<open>Reranking\<close>

datatype rerank_error = RerankValueError | RerankVisibilityUnavailable | RerankOverflow

datatype rerank_status = RERANK_APPLIED | RERANK_FALLBACK | RERANK_NO_EVIDENCE

record rerank_outcome =
  ro_chunks :: "jobject list"
  ro_status :: rerank_status
  ro_failure_code :: "string option"
  ro_candidate_count :: nat
  ro_output_count :: nat

text \<open>The loop over the candidates; a chunk identifier may occur once.\<close>

fun candidates_authorized :: "string \<Rightarrow> pytext set \<Rightarrow> pytext set \<Rightarrow> jobject list \<Rightarrow> bool" where
  "candidates_authorized owner requested seen [] = True"
| "candidates_authorized owner requested seen (c # cs) =
     (if \<not> nonempty_str (get c ''chunk_id'') \<or> chunk_key c \<in> seen \<or>
         get c ''tenant_id'' \<noteq> Some (JStr (ascii owner)) \<or>
         (case get c ''document_id'' of Some (JStr d) \<Rightarrow> requested \<noteq> {} \<and> d \<notin> requested | _ \<Rightarrow> True) \<or>
         \<not> nonempty_str (get c ''version_id'') \<or> get c ''is_active'' \<noteq> Some (JBool True)
      then False
      else candidates_authorized owner requested (insert (chunk_key c) seen) cs)"

definition validate_candidates ::
  "reranker_config \<Rightarrow> string \<Rightarrow> string list \<Rightarrow> int \<Rightarrow> jobject list \<Rightarrow> rerank_error + unit" where
  "validate_candidates cfg owner document_ids top_k cs =
     (if top_k < 1 \<or> rr_candidate_top_k cfg < top_k \<or> rr_candidate_top_k cfg < int (length cs)
      then Inl RerankValueError
      else if \<not> candidates_authorized owner (set (map ascii document_ids)) {} cs
      then Inl RerankVisibilityUnavailable
      else Inr ())"

text \<open>\<open>float\<close> of a score; an integer too large raises.\<close>

fun score_value :: "json \<Rightarrow> rat" where
  "score_value (JInt i) = binary64 (of_int i)"
| "score_value (JFloat (Some x)) = x"
| "score_value _ = 0"

fun scores_finite :: "json list \<Rightarrow> rerank_error + bool" where
  "scores_finite [] = Inr True"
| "scores_finite (JInt i # xs) = (if overflows (of_int i) then Inl RerankOverflow else scores_finite xs)"
| "scores_finite (JFloat (Some x) # xs) = scores_finite xs"
| "scores_finite (x # xs) = Inr False"

definition rerank_fallback :: "jobject list \<Rightarrow> int \<Rightarrow> string \<Rightarrow> rerank_outcome" where
  "rerank_fallback cs top_k code =
     \<lparr>ro_chunks = take (nat top_k) cs, ro_status = RERANK_FALLBACK, ro_failure_code = Some code,
      ro_candidate_count = length cs, ro_output_count = length (take (nat top_k) cs)\<rparr>"

definition by_score :: "json list \<Rightarrow> jobject list \<Rightarrow> jobject list" where
  "by_score scores cs =
     map (\<lambda>i. cs ! i) (sort_key (\<lambda>i. - score_value (scores ! i)) [0..<length cs])"

definition apply_scores :: "json list \<Rightarrow> jobject list \<Rightarrow> int \<Rightarrow> rerank_error + rerank_outcome" where
  "apply_scores scores cs top_k =
     (let fallback = Inr (rerank_fallback cs top_k ''MODEL_SCORE_INVALID'') in
      if length scores \<noteq> length cs then fallback
      else bind_res (scores_finite scores) (\<lambda>finite.
        if \<not> finite then fallback
        else let selected = take (nat top_k) (by_score scores cs) in
          if \<not> chunk_key ` set selected \<subseteq> chunk_key ` set cs then Inl RerankVisibilityUnavailable
          else Inr \<lparr>ro_chunks = selected, ro_status = RERANK_APPLIED, ro_failure_code = None,
            ro_candidate_count = length cs, ro_output_count = length selected\<rparr>))"

definition rerank ::
  "reranker_config \<Rightarrow> title_provider \<Rightarrow> ((pytext \<times> pytext) list \<Rightarrow> unit + json list) \<Rightarrow> pytext \<Rightarrow>
     jobject list \<Rightarrow> string \<Rightarrow> string list \<Rightarrow> int \<Rightarrow> rerank_error + rerank_outcome"
where
  "rerank cfg resolve score question cs owner document_ids top_k =
     (if blank question then Inl RerankValueError
      else bind_res (validate_candidates cfg owner document_ids top_k cs) (\<lambda>_.
        if cs = [] then Inr \<lparr>ro_chunks = [], ro_status = RERANK_NO_EVIDENCE, ro_failure_code = None,
            ro_candidate_count = 0, ro_output_count = 0\<rparr>
        else case bind_res (resolve owner (first_occurrences (map (\<lambda>c. text_field c ''document_id'') cs)))
              (\<lambda>titles. passages titles cs) of
            Inl _ \<Rightarrow> Inr (rerank_fallback cs top_k ''TITLE_OR_TEMPLATE_UNAVAILABLE'')
          | Inr ps \<Rightarrow>
              (case score (map (\<lambda>p. (question, p)) ps) of
                Inl _ \<Rightarrow> Inr (rerank_fallback cs top_k ''MODEL_SCORING_UNAVAILABLE'')
              | Inr scores \<Rightarrow> apply_scores scores cs top_k)))"

subsection \<open>What reranking keeps\<close>

lemma set_by_score: "set (by_score scores cs) = set cs"
  by (auto simp: by_score_def in_set_conv_nth)

lemma length_by_score [simp]: "length (by_score scores cs) = length cs"
  by (simp add: by_score_def)

lemma by_score_keys:
  assumes "distinct (map f cs)"
  shows "distinct (map f (by_score scores cs))"
proof -
  have "inj_on (\<lambda>i. f (cs ! i)) {..<length cs}"
    using assms by (auto simp: inj_on_def distinct_conv_nth)
  then show ?thesis by (simp add: by_score_def distinct_map comp_def inj_on_def)
qed

text \<open>The candidates in the order of the outcome, and their scores.\<close>

lemma by_score_sorted: "sorted (map (\<lambda>i. - score_value (scores ! i)) (sort_key (\<lambda>i. - score_value (scores ! i)) is))"
  by simp

lemma apply_scores_cases:
  assumes "apply_scores scores cs top_k = Inr out"
  obtains "out = rerank_fallback cs top_k ''MODEL_SCORE_INVALID''"
    | "ro_chunks out = take (nat top_k) (by_score scores cs)" and "ro_status out = RERANK_APPLIED"
      and "length scores = length cs"
  using assms by (auto simp: apply_scores_def bind_res_Inr_iff Let_def split: if_splits)

lemma candidates_authorized_keys:
  "candidates_authorized owner requested seen cs \<Longrightarrow>
     distinct (map chunk_key cs) \<and> chunk_key ` set cs \<inter> seen = {}"
  by (induction cs arbitrary: seen) (auto split: if_splits)

lemma rerank_Inr:
  assumes "rerank cfg resolve score question cs owner docs top_k = Inr out"
  obtains "validate_candidates cfg owner docs top_k cs = Inr ()"
    and "cs = []" and "ro_chunks out = []" and "ro_status out = RERANK_NO_EVIDENCE"
  | code where "validate_candidates cfg owner docs top_k cs = Inr ()"
    and "cs \<noteq> []" and "out = rerank_fallback cs top_k code"
  | scores where "validate_candidates cfg owner docs top_k cs = Inr ()" and "cs \<noteq> []"
    and "ro_chunks out = take (nat top_k) (by_score scores cs)" and "ro_status out = RERANK_APPLIED"
proof -
  from assms have v: "validate_candidates cfg owner docs top_k cs = Inr ()"
    by (auto simp: rerank_def bind_res_Inr_iff split: if_splits)
  show thesis
  proof (cases "cs = []")
    case True
    with assms v show thesis by (intro that(1)) (auto simp: rerank_def split: if_splits)
  next
    case False
    then consider code where "out = rerank_fallback cs top_k code"
      | scores where "apply_scores scores cs top_k = Inr out"
      using assms v by (auto simp: rerank_def split: if_splits sum.splits)
    then show thesis
    proof cases
      case 1
      with v False show thesis by (intro that(2))
    next
      case 2
      then show thesis by (cases rule: apply_scores_cases) (use v False that in blast)+
    qed
  qed
qed

end
