(* ===== verification/Answers.thy ===== *)
theory Answers
  imports Reranker Splitter
begin

text \<open>
  Answers assembled from retrieved chunks, \<^verbatim>\<open>backend/rag/answer_builder.py\<close>, and the consumers that
  retrieve and answer (\<^verbatim>\<open>backend/rag/*_consumer.py\<close>). An answer is a JSON object with its keys in
  order. SHA-256, \<^verbatim>\<open>json.dumps\<close> of a scope and \<open>str\<close> of a value that is no string are arguments; the
  observation sink, which receives latencies, is not modelled.
\<close>

subsection \<open>Building an answer\<close>

datatype answer_error = Key_Error | Encode_Error

record answer_env =
  ae_sha256 :: "nat list \<Rightarrow> pytext"
  ae_dumps :: "jobject \<Rightarrow> pytext"
  ae_str :: "json \<Rightarrow> pytext"

definition request_identity ::
  "answer_env \<Rightarrow> pytext \<Rightarrow> jobject \<Rightarrow> pytext \<Rightarrow> answer_error + pytext \<times> pytext" where
  "request_identity E question s boundary =
     (case utf8 (boundary @ [10] @ trim question @ [10] @ ae_dumps E s) of
        None \<Rightarrow> Inl Encode_Error
      | Some bytes \<Rightarrow> (let digest = take 20 (ae_sha256 E bytes) in
          Inr (ascii ''request_'' @ digest, ascii ''trace_'' @ digest)))"

definition evidence_fields :: "string list" where
  "evidence_fields = [''chunk_id'', ''document_id'', ''version_id'', ''section_path'', ''page_start'',
     ''page_end'', ''text'']"

definition field :: "jobject \<Rightarrow> string \<Rightarrow> json" where
  "field d k = (case get d k of None \<Rightarrow> JNull | Some v \<Rightarrow> v)"

definition evidence_name :: "nat \<Rightarrow> json" where
  "evidence_name position = JStr (ascii ''evidence_'' @ three_digits position)"

definition evidence_item :: "nat \<Rightarrow> jobject \<Rightarrow> jobject" where
  "evidence_item position c =
     [(''chunk_id'', field c ''chunk_id''), (''document_id'', field c ''document_id''),
      (''evidence_id'', evidence_name position), (''page_end'', field c ''page_end''),
      (''page_start'', field c ''page_start''), (''quote'', field c ''text''),
      (''section_path'', field c ''section_path''), (''version_id'', field c ''version_id'')]"

definition citation_item :: "nat \<Rightarrow> jobject \<Rightarrow> jobject" where
  "citation_item position c =
     [(''citation_id'', JStr (ascii ''citation_'' @ three_digits position)),
      (''document_id'', field c ''document_id''), (''evidence_id'', evidence_name position),
      (''page_end'', field c ''page_end''), (''page_start'', field c ''page_start'')]"

definition text_form :: "(json \<Rightarrow> pytext) \<Rightarrow> json \<Rightarrow> pytext" where
  "text_form str_of v = (case v of JStr t \<Rightarrow> t | x \<Rightarrow> str_of x)"

definition answer_part :: "answer_env \<Rightarrow> nat \<Rightarrow> jobject \<Rightarrow> pytext" where
  "answer_part E position c = text_form (ae_str E) (field c ''text'') @ ascii '' ['' @ decimal position @ ascii '']''"

definition numbered :: "'a list \<Rightarrow> (nat \<times> 'a) list" where
  "numbered xs = zip [1..<Suc (length xs)] xs"

record answer_profile =
  ap_boundary :: pytext
  ap_completed :: pytext
  ap_no_evidence :: pytext
  ap_prefix :: pytext

definition answer_object ::
  "pytext \<Rightarrow> json list \<Rightarrow> json list \<Rightarrow> pytext \<times> pytext \<Rightarrow> string \<Rightarrow> pytext \<Rightarrow> jobject" where
  "answer_object answer evidence citations identity status warning =
     [(''answer'', JStr answer), (''citations'', JList citations), (''evidence'', JList evidence),
      (''request_id'', JStr (fst identity)), (''status'', JStr (ascii status)),
      (''trace_id'', JStr (snd identity)), (''warnings'', JList [JStr warning])]"

definition no_evidence_text :: pytext where
  "no_evidence_text = [24403, 21069, 25480, 26435, 25991, 29486, 33539, 22260, 20869, 27809, 26377, 36275,
     22815, 35777, 25454, 22238, 31572, 35813, 38382, 39064, 12290]"

definition build_answer ::
  "answer_env \<Rightarrow> answer_profile \<Rightarrow> pytext \<Rightarrow> jobject \<Rightarrow> jobject list \<Rightarrow> answer_error + jobject" where
  "build_answer E P question s chunks =
     bind_res (request_identity E question s (ap_boundary P)) (\<lambda>identity.
     if chunks = [] then
       Inr (answer_object no_evidence_text [] [] identity ''NO_EVIDENCE'' (ap_no_evidence P))
     else if \<exists>c \<in> set chunks. \<exists>k \<in> set evidence_fields. get c k = None then Inl Key_Error
     else Inr (answer_object
       (ap_prefix P @ join [32] (map (\<lambda>(i, c). answer_part E i c) (numbered chunks)))
       (map (\<lambda>(i, c). JObj (evidence_item i c)) (numbered chunks))
       (map (\<lambda>(i, c). JObj (citation_item i c)) (numbered chunks))
       identity ''COMPLETED'' (ap_completed P)))"

subsection \<open>Consumers\<close>

text \<open>A consumer retrieves, then answers under its profile.\<close>

definition answered ::
  "answer_env \<Rightarrow> answer_profile \<Rightarrow> pytext \<Rightarrow> jobject \<Rightarrow> 'e + jobject list \<Rightarrow> ('e + answer_error) + jobject" where
  "answered E P question s retrieved =
     (case retrieved of Inl e \<Rightarrow> Inl (Inl e)
      | Inr chunks \<Rightarrow>
          (case build_answer E P question s chunks of Inl a \<Rightarrow> Inl (Inr a) | Inr answer \<Rightarrow> Inr answer))"

definition fixture_profile :: answer_profile where
  "fixture_profile = \<lparr>ap_boundary = ascii ''LOCAL_API_FAKE_LLM'',
     ap_completed = ascii ''FIXTURE_ONLY_FAKE_LLM'',
     ap_no_evidence = ascii ''FIXTURE_ONLY'',
     ap_prefix = [20381, 25454, 24403, 21069, 25480, 26435] @ ascii '' Fixture '' @ [35777, 25454, 65306]\<rparr>"

definition sqlite_fts_profile :: answer_profile where
  "sqlite_fts_profile = \<lparr>ap_boundary = ascii ''LOCAL_API_SQLITE_FTS5_FAKE_LLM'',
     ap_completed = ascii ''LOCAL_SQLITE_FTS5_FAKE_LLM'',
     ap_no_evidence = ascii ''LOCAL_SQLITE_FTS5_ONLY'',
     ap_prefix = [20381, 25454, 24403, 21069, 25480, 26435] @ ascii '' SQLite FTS5 '' @ [35777, 25454,
      65306]\<rparr>"

definition vector_profile :: answer_profile where
  "vector_profile = \<lparr>ap_boundary = ascii ''LOCAL_API_REAL_VECTOR_FAKE_LLM'',
     ap_completed = ascii ''LOCAL_REAL_VECTOR_FAKE_LLM'',
     ap_no_evidence = ascii ''LOCAL_REAL_VECTOR_ONLY'',
     ap_prefix = [20381, 25454, 24403, 21069, 25480, 26435, 26412, 22320, 30495, 23454, 21521, 37327,
      35777, 25454, 65306]\<rparr>"

definition rrf_profile :: answer_profile where
  "rrf_profile = \<lparr>ap_boundary = ascii ''LOCAL_API_RRF_HYBRID_FAKE_LLM'',
     ap_completed = ascii ''LOCAL_RRF_HYBRID_FAKE_LLM'',
     ap_no_evidence = ascii ''LOCAL_RRF_HYBRID_ONLY'',
     ap_prefix = [20381, 25454, 24403, 21069, 25480, 26435, 26412, 22320] @ ascii '' RRF '' @ [28151,
      21512, 26816, 32034, 35777, 25454, 65306]\<rparr>"

definition elasticsearch_profile :: answer_profile where
  "elasticsearch_profile = \<lparr>ap_boundary = ascii ''REMOTE_API_ELASTICSEARCH_BM25_FAKE_LLM'',
     ap_completed = ascii ''REMOTE_ELASTICSEARCH_BM25_FAKE_LLM'',
     ap_no_evidence = ascii ''REMOTE_ELASTICSEARCH_BM25_ONLY'',
     ap_prefix = [20381, 25454, 24403, 21069, 25480, 26435] @ ascii '' Elasticsearch BM25 '' @ [35777,
      25454, 65306]\<rparr>"

definition milvus_profile :: answer_profile where
  "milvus_profile = \<lparr>ap_boundary = ascii ''REMOTE_API_MILVUS_BGE_M3_FAKE_LLM'',
     ap_completed = ascii ''REMOTE_MILVUS_BGE_M3_FAKE_LLM'',
     ap_no_evidence = ascii ''REMOTE_MILVUS_BGE_M3_ONLY'',
     ap_prefix = [20381, 25454, 24403, 21069, 25480, 26435] @ ascii '' Milvus/BGE-M3 '' @ [21521, 37327,
      35777, 25454, 65306]\<rparr>"

definition remote_rrf_profile :: answer_profile where
  "remote_rrf_profile = \<lparr>ap_boundary = ascii ''REMOTE_API_ES_MILVUS_RRF_BGE_M3_FAKE_LLM'',
     ap_completed = ascii ''REMOTE_ES_MILVUS_RRF_BGE_M3_FAKE_LLM'',
     ap_no_evidence = ascii ''REMOTE_ES_MILVUS_RRF_BGE_M3_ONLY'',
     ap_prefix = [20381, 25454, 24403, 21069, 25480, 26435] @ ascii '' Elasticsearch + Milvus RRF '' @
      [35777, 25454, 65306]\<rparr>"

definition online_profile :: answer_profile where
  "online_profile = \<lparr>ap_boundary = ascii ''ONLINE_POSTGRES_READY_ES_MILVUS_RRF_FAKE_LLM'',
     ap_completed = ascii ''ONLINE_POSTGRES_READY_ES_MILVUS_RRF_FAKE_LLM'',
     ap_no_evidence = ascii ''ONLINE_POSTGRES_READY_NO_EVIDENCE'',
     ap_prefix = [20381, 25454] @ ascii '' PostgreSQL READY '' @ [38376, 31105, 19979, 30340] @
      ascii '' ES/Milvus '' @ [35777, 25454, 65306]\<rparr>"

definition answer_fixture_question ::
  "unicode \<Rightarrow> answer_env \<Rightarrow> pytext \<Rightarrow> jobject \<Rightarrow> jobject list \<Rightarrow> int \<Rightarrow>
     (retrieval_error + answer_error) + jobject" where
  "answer_fixture_question u E question s chunks top_k =
     answered E fixture_profile question s (retrieve_chunks u question chunks s top_k)"

definition answer_sqlite_fts_question ::
  "unicode \<Rightarrow> answer_env \<Rightarrow> (pytext \<Rightarrow> retrieval_error + json list) \<Rightarrow> bool \<Rightarrow> pytext \<Rightarrow> jobject \<Rightarrow> int \<Rightarrow>
     (retrieval_error + answer_error) + jobject" where
  "answer_sqlite_fts_question u E fts verified question s top_k =
     answered E sqlite_fts_profile question s (sqlite_retrieve u fts (Some verified) question s top_k)"

text \<open>The vector index and the hybrid retrievers answer a search; the argument is what they return.\<close>

definition answer_vector_question ::
  "answer_env \<Rightarrow> 'e + jobject list \<Rightarrow> pytext \<Rightarrow> jobject \<Rightarrow> ('e + answer_error) + jobject" where
  "answer_vector_question E retrieved question s = answered E vector_profile question s retrieved"

definition answer_rrf_question ::
  "answer_env \<Rightarrow> (fusion_error + jobject list) \<Rightarrow> (fusion_error + jobject list) \<Rightarrow> int \<Rightarrow> pytext \<Rightarrow> jobject \<Rightarrow>
     int \<Rightarrow> (fusion_error + answer_error) + jobject" where
  "answer_rrf_question E lexical vector rrf_k question s top_k =
     answered E rrf_profile question s (local_hybrid_retrieve lexical vector rrf_k top_k)"

definition answer_elasticsearch_question ::
  "es_env \<Rightarrow> 'w es_transport \<Rightarrow> string \<Rightarrow> jobject list option \<Rightarrow> answer_env \<Rightarrow> pytext \<Rightarrow> jobject \<Rightarrow>
     jobject list \<Rightarrow> int \<Rightarrow> 'w \<Rightarrow> ((es_error + answer_error) + jobject) \<times> 'w" where
  "answer_elasticsearch_question env send name source_chunks E question s chunks top_k w =
     (let (r, w') = es_retrieve env send name top_k (Some chunks) source_chunks question s w in
      (answered E elasticsearch_profile question s r, w'))"

definition answer_milvus_question ::
  "milvus_env \<Rightarrow> 'w milvus_transport \<Rightarrow> string \<Rightarrow> 'w embedding_provider \<Rightarrow> jobject list option \<Rightarrow>
     answer_env \<Rightarrow> pytext \<Rightarrow> jobject \<Rightarrow> jobject list \<Rightarrow> int \<Rightarrow> rat \<Rightarrow> 'w \<Rightarrow>
     ((milvus_error + answer_error) + jobject) \<times> 'w" where
  "answer_milvus_question env send name provider source_chunks E question s chunks top_k min_score w =
     (let (r, w') = milvus_retrieve env send name provider top_k min_score (Some chunks) source_chunks question s w in
      (answered E milvus_profile question s r, w'))"

definition answer_remote_rrf_question ::
  "answer_env \<Rightarrow> (fusion_error + ranked_chunk list) \<Rightarrow> (fusion_error + ranked_chunk list) \<Rightarrow> int \<Rightarrow>
     pytext \<Rightarrow> jobject \<Rightarrow> int \<Rightarrow> (fusion_error + answer_error) + jobject" where
  "answer_remote_rrf_question E elasticsearch_result milvus_result rrf_k question s top_k =
     answered E remote_rrf_profile question s
       (bind_res (remote_hybrid_search elasticsearch_result milvus_result rrf_k top_k)
         (\<lambda>ranking. Inr (chunks_only ranking)))"

text \<open>The online consumer: an installed reranker sees more candidates than it returns.\<close>

record online_reranker =
  or_config :: reranker_config
  or_titles :: title_provider
  or_scorer :: "(pytext \<times> pytext) list \<Rightarrow> unit + json list"

datatype online_answer_error = Search_Failed online_error | Rerank_Failed rerank_error
  | Answer_Failed answer_error

definition reranked_profile :: "rerank_status \<Rightarrow> answer_profile" where
  "reranked_profile status = (case status of
       RERANK_APPLIED \<Rightarrow> online_profile
         \<lparr>ap_boundary := ascii ''ONLINE_POSTGRES_READY_ES_MILVUS_RRF_BGE_RERANKER_V2_M3_FAKE_LLM'',
          ap_completed := ascii ''ONLINE_POSTGRES_READY_ES_MILVUS_RRF_BGE_RERANKER_V2_M3_FAKE_LLM''\<rparr>
     | RERANK_FALLBACK \<Rightarrow> online_profile
         \<lparr>ap_boundary := ascii ''ONLINE_POSTGRES_READY_ES_MILVUS_RRF_RERANKER_FALLBACK_FAKE_LLM'',
          ap_completed := ascii ''ONLINE_POSTGRES_READY_ES_MILVUS_RRF_RERANKER_FALLBACK_FAKE_LLM''\<rparr>
     | RERANK_NO_EVIDENCE \<Rightarrow> online_profile)"

definition online_chunks ::
  "('v, 'w) online_env \<Rightarrow> online_reranker option \<Rightarrow> unit + version list \<Rightarrow> unit + version list \<Rightarrow> pytext \<Rightarrow>
     jobject \<Rightarrow> string \<Rightarrow> string list \<Rightarrow> int \<Rightarrow> online_answer_error + jobject list \<times> answer_profile"
where
  "online_chunks env reranker first_read second_read question s owner document_ids top_k =
     (case online_retrieve env first_read second_read question s owner document_ids
           (case reranker of None \<Rightarrow> top_k | Some R \<Rightarrow> rr_candidate_top_k (or_config R)) of
        Inl e \<Rightarrow> Inl (Search_Failed e)
      | Inr retrieved \<Rightarrow>
          (case reranker of None \<Rightarrow> Inr (retrieved, online_profile)
           | Some R \<Rightarrow>
               (case rerank (or_config R) (or_titles R) (or_scorer R) question retrieved owner document_ids top_k of
                  Inl e \<Rightarrow> Inl (Rerank_Failed e)
                | Inr outcome \<Rightarrow> Inr (ro_chunks outcome, reranked_profile (ro_status outcome)))))"

definition answer_online_ready_question ::
  "('v, 'w) online_env \<Rightarrow> online_reranker option \<Rightarrow> answer_env \<Rightarrow> unit + version list \<Rightarrow>
     unit + version list \<Rightarrow> pytext \<Rightarrow> jobject \<Rightarrow> string \<Rightarrow> string list \<Rightarrow> int \<Rightarrow>
     online_answer_error + jobject"
where
  "answer_online_ready_question env reranker E first_read second_read question s owner document_ids top_k =
     bind_res (online_chunks env reranker first_read second_read question s owner document_ids top_k)
       (\<lambda>(chunks, profile). case build_answer E profile question s chunks of
          Inl a \<Rightarrow> Inl (Answer_Failed a) | Inr answer \<Rightarrow> Inr answer)"

end
