(* ===== verification/ClaimText.thy ===== *)
theory ClaimText
  imports Regex Binary64
begin

text \<open>
  The text checks of \<^verbatim>\<open>backend/rag/claim_evidence.py\<close>: its patterns and marker lists, numbers and
  their units, lexical overlap, and the deterministic support check of a claim against evidence.
  A dictionary from units to sets of numbers is the list of its pairs. Case folding, digits and
  their values are the Unicode tables of PyValues.
\<close>

subsection \<open>Patterns\<close>

definition latin_letter :: "nat \<Rightarrow> bool" where
  "latin_letter c \<longleftrightarrow> 65 \<le> c \<and> c \<le> 90 \<or> 97 \<le> c \<and> c \<le> 122"

text \<open>The class \<^verbatim>\<open>[A-Za-z]\<close> when case is ignored.\<close>

definition any_latin :: "nat \<Rightarrow> bool" where
  "any_latin c \<longleftrightarrow> latin_letter c \<or> c = 304 \<or> c = 305 \<or> c = 383 \<or> c = 8490"

definition greek_letter :: "nat \<Rightarrow> bool" where
  "greek_letter c \<longleftrightarrow> 913 \<le> c \<and> c \<le> 937 \<or> 945 \<le> c \<and> c \<le> 969"

definition sign_re :: regex where
  "sign_re = optional (Class (in_class ''-+''))"

definition digits_re :: "unicode \<Rightarrow> regex" where
  "digits_re u = many_one (Class (uc_digit u))"

definition fraction_re :: "unicode \<Rightarrow> regex" where
  "fraction_re u = optional (Cat (one_char 46) (digits_re u))"

definition number_re :: "unicode \<Rightarrow> regex" where
  "number_re u =
     Cat (NotBehind (\<lambda>c. any_latin c \<or> c = 95)) (Cat sign_re (Cat (digits_re u) (Cat (fraction_re u)
       (Cat (optional (Cat (Class (same_letter 101)) (Cat sign_re (digits_re u))))
         (optional (one_char 37))))))"

definition unit_word :: "string \<Rightarrow> regex" where
  "unit_word s = Cat (any_case (ascii s)) (optional (any_case (ascii ''s'')))"

definition unit_re :: regex where
  "unit_re = alternatives [one_char 37, one_char 65285, one_char 21608, literal [26143, 26399],
     one_char 22825, one_char 26085, one_char 26376, one_char 24180, literal [23567, 26102],
     literal [20998, 38047], one_char 31186, unit_word ''week'', unit_word ''day'', unit_word ''month'',
     unit_word ''year'', unit_word ''hour'', unit_word ''minute'', unit_word ''second'']"

text \<open>The marks are the end of the group \<^verbatim>\<open>value\<close>, which begins where the match does, and the
  start of the group \<^verbatim>\<open>unit\<close>, which reaches its end.\<close>

definition number_with_unit_re :: "unicode \<Rightarrow> regex" where
  "number_with_unit_re u =
     Cat (NotBehind (\<lambda>c. any_latin c \<or> c = 95)) (Cat sign_re (Cat (digits_re u) (Cat (fraction_re u)
       (Cat Mark (Cat (Many (Class uspace)) (Cat (optional (one_char 45)) (Cat (Many (Class uspace))
         (Cat Mark (Cat unit_re (NotAhead any_latin))))))))))"

definition latin_token_re :: regex where
  "latin_token_re = Cat (Class (\<lambda>c. latin_letter c \<or> greek_letter c))
     (Many (Class (\<lambda>c. latin_letter c \<or> greek_letter c \<or> 48 \<le> c \<and> c \<le> 57 \<or> in_class ''_+./-'' c)))"

definition chinese :: "nat \<Rightarrow> bool" where
  "chinese c \<longleftrightarrow> 19968 \<le> c \<and> c \<le> 40959"

definition clause_split_re :: "unicode \<Rightarrow> regex" where
  "clause_split_re u = Alt
     (Cat (Class (\<lambda>c. c \<in> set [12290, 65281, 65311, 33, 63, 65307, 59, 65292, 44])) (Many (Class uspace)))
     (Cat (one_char 46) (Cat (NotAhead (uc_digit u)) (many_one (Class uspace))))"

text \<open>\<open>findall\<close> of a pattern without groups.\<close>

definition find_all :: "regex \<Rightarrow> pytext \<Rightarrow> pytext list" where
  "find_all r t = map (\<lambda>(s, e, _). slice s e t) (find_matches t (length t) r 0)"

subsection \<open>Markers\<close>

definition english_stopwords :: "pytext list" where
  "english_stopwords = [
     ascii ''a'', ascii ''an'', ascii ''and'', ascii ''are'', ascii ''as'', ascii ''at'',
     ascii ''be'', ascii ''by'', ascii ''for'', ascii ''from'', ascii ''in'', ascii ''is'',
     ascii ''it'', ascii ''evidence'', ascii ''of'', ascii ''on'', ascii ''or'', ascii ''paper'',
     ascii ''report'', ascii ''reported'', ascii ''reports'', ascii ''result'',
     ascii ''results'', ascii ''study'', ascii ''that'', ascii ''the'', ascii ''this'',
     ascii ''to'', ascii ''was'', ascii ''were'', ascii ''with'']"

definition conflict_markers :: "pytext list" where
  "conflict_markers = [
     [23384, 22312, 24046, 24322], [19981, 19968, 33268], [20914, 31361], [20998, 21035, 20026],
     ascii ''different'', ascii ''differ'', ascii ''conflict'', ascii ''inconsistent'',
     ascii ''whereas'', ascii ''but'']"

definition insufficient_markers :: "pytext list" where
  "insufficient_markers = [
     [35777, 25454, 19981, 36275], [26080, 27861, 30830, 23450], [26410, 25552, 20379],
     [26410, 25552, 21450], [27809, 26377, 35828, 26126], [19981, 33021, 21028, 26029],
     ascii ''insufficient evidence'', ascii ''cannot determine'', ascii ''does not identify'',
     ascii ''does not report'', ascii ''not reported'', ascii ''not provided'']"

definition causal_markers :: "pytext list" where
  "causal_markers = [
     [23548, 33268], [35777, 26126], [22240, 27492, 24517, 28982], [22240, 32780, 24517, 28982],
     [24517, 28982, 24102, 26469], ascii ''causes'', ascii ''caused by'', ascii ''proves'',
     ascii ''must result'']"

definition causal_evidence_markers :: "pytext list" where
  "causal_evidence_markers = causal_markers @ [
     [28040, 34701], [23545, 29031], [25511, 21046, 21464, 37327], [24178, 39044],
     ascii ''ablation'', ascii ''controlled'', ascii ''control group'', ascii ''intervention'']"

definition universal_markers :: "pytext list" where
  "universal_markers = [
     [25152, 26377, 20219, 21153], [25152, 26377, 27169, 22411], [26222, 36941, 26377, 25928],
     [22987, 32456], ascii ''all tasks'', ascii ''all models'', ascii ''universally'',
     ascii ''always'']"

definition comparative_markers :: "pytext list" where
  "comparative_markers = [
     [20248, 20110], [26356, 20248], [26368, 20339], [32988, 36807], [25552, 39640],
     [25552, 21319], [38477, 20302], [19979, 38477], [39640, 20110], [20302, 20110],
     ascii ''outperform'', ascii ''superior'', ascii ''better than'', ascii ''best'',
     ascii ''improve'', ascii ''increase'', ascii ''decrease'', ascii ''higher'',
     ascii ''lower'']"

definition novelty_markers :: "pytext list" where
  "novelty_markers = [
     [39318, 27425], [39318, 20010], [39318, 21019], [21807, 19968], [26368, 20840, 38754],
     ascii ''first-ever'', ascii ''the first'', ascii ''the only'', ascii ''most comprehensive'',
     ascii ''state-of-the-art'', ascii ''state of the art'']"

definition qualifier_marker_groups :: "pytext list list" where
  "qualifier_marker_groups = [
     [[33267, 23569], ascii ''at least''],
     [[33267, 22810], [26368, 22810], [19981, 36229, 36807], ascii ''at most'', ascii ''no more than''],
     [[20165], [21482, 22312], ascii ''only''],
     [[20998, 21035], ascii ''respectively''],
     [[26465, 20214, 19979], ascii ''under'']]"

definition has_any :: "pytext \<Rightarrow> pytext list \<Rightarrow> bool" where
  "has_any t markers \<longleftrightarrow> (\<exists>m \<in> set markers. contains m t)"

subsection \<open>Numbers\<close>

text \<open>A float that may be negative zero or infinite: its sign and its magnitude.\<close>

type_synonym py_number = "bool \<times> rat option"

definition numeral_value :: "unicode \<Rightarrow> pytext \<Rightarrow> nat" where
  "numeral_value u ds = foldl (\<lambda>n c. 10 * n + uc_digit_value u c) 0 ds"

definition take_sign :: "pytext \<Rightarrow> bool \<times> pytext" where
  "take_sign t = (case t of [] \<Rightarrow> (False, [])
     | c # r \<Rightarrow> if c = 45 then (True, r) else if c = 43 then (False, r) else (False, t))"

definition take_digits :: "unicode \<Rightarrow> pytext \<Rightarrow> pytext \<times> pytext" where
  "take_digits u t = (takeWhile (uc_digit u) t, dropWhile (uc_digit u) t)"

text \<open>\<open>float\<close> of a numeral: sign, digits, a fraction and an exponent.\<close>

definition read_exponent :: "unicode \<Rightarrow> pytext \<Rightarrow> int option" where
  "read_exponent u t = (case t of [] \<Rightarrow> Some 0
     | c # r \<Rightarrow> if c \<noteq> 101 then None
         else let (neg, r) = take_sign r; (ds, r) = take_digits u r
           in if ds = [] \<or> r \<noteq> [] then None
              else Some (if neg then - int (numeral_value u ds) else int (numeral_value u ds)))"

definition read_float :: "unicode \<Rightarrow> pytext \<Rightarrow> py_number option" where
  "read_float u t =
     (let (neg, r) = take_sign t; (whole, r) = take_digits u r;
          (part, r) = (if r \<noteq> [] \<and> hd r = 46 then take_digits u (tl r) else ([], r))
      in if whole = [] then None
         else case read_exponent u r of None \<Rightarrow> None
           | Some e \<Rightarrow>
               (let x = of_nat (numeral_value u (whole @ part)) * 10 powi (e - int (length part))
                in Some (neg, if overflows x then None else Some (binary64 x))))"

text \<open>\<open>format\<close> with \<^verbatim>\<open>g\<close>: six significant digits, trailing zeros dropped.\<close>

definition decimal_exponent :: "rat \<Rightarrow> int" where
  "decimal_exponent x = (if 1 \<le> x then int (length (decimal (nat \<lfloor>x\<rfloor>))) - 1
     else - int (length (decimal (nat (\<lceil>1 / x\<rceil> - 1)))))"

definition six_digits :: "rat \<Rightarrow> nat \<times> int" where
  "six_digits x = (let e = decimal_exponent x; d = nat (half_even (x * 10 powi (5 - e)))
     in if d = 1000000 then (100000, e + 1) else (d, e))"

definition drop_zeros :: "pytext \<Rightarrow> pytext" where
  "drop_zeros t = rev (dropWhile (\<lambda>c. c = 48) (rev t))"

definition with_point :: "pytext \<Rightarrow> pytext \<Rightarrow> pytext" where
  "with_point whole part = (if drop_zeros part = [] then whole else whole @ [46] @ drop_zeros part)"

definition exponent_text :: "int \<Rightarrow> pytext" where
  "exponent_text e = (let ds = decimal (nat \<bar>e\<bar>) in
     [101, if e < 0 then 45 else 43] @ (if length ds < 2 then 48 # ds else ds))"

definition format_magnitude :: "rat \<Rightarrow> pytext" where
  "format_magnitude x =
     (if x = 0 then [48]
      else let (d, e) = six_digits x; ds = decimal d
        in if e < - 4 \<or> 6 \<le> e then with_point (take 1 ds) (drop 1 ds) @ exponent_text e
           else if e < 0 then with_point [48] (replicate (nat (- e) - 1) 48 @ ds)
           else with_point (take (nat e + 1) ds) (drop (nat e + 1) ds))"

definition format_number :: "py_number \<Rightarrow> pytext" where
  "format_number n = (if fst n then [45] else []) @
     (case snd n of None \<Rightarrow> ascii ''inf'' | Some x \<Rightarrow> format_magnitude x)"

definition normalize_number :: "unicode \<Rightarrow> pytext \<Rightarrow> pytext" where
  "normalize_number u v =
     (let n = dropWhile (\<lambda>c. c = 43) (casefold u v);
          n = (if n \<noteq> [] \<and> last n = 37 then butlast n else n)
      in case read_float u n of None \<Rightarrow> n | Some x \<Rightarrow> format_number x)"

definition numbers :: "unicode \<Rightarrow> pytext \<Rightarrow> pytext set" where
  "numbers u t = set (map (normalize_number u) (find_all (number_re u) t))"

definition unit_aliases :: "(pytext \<times> pytext) list" where
  "unit_aliases = [([65285], [37]), (ascii ''week'', ascii ''weeks''), (ascii ''day'', ascii ''days''),
     (ascii ''month'', ascii ''months''), (ascii ''year'', ascii ''years''), (ascii ''hour'', ascii ''hours''),
     (ascii ''minute'', ascii ''minutes''), (ascii ''second'', ascii ''seconds'')]"

definition normalize_unit :: "unicode \<Rightarrow> pytext \<Rightarrow> pytext" where
  "normalize_unit u v = (let unit = casefold u v in
     case map_of unit_aliases unit of None \<Rightarrow> unit | Some a \<Rightarrow> a)"

type_synonym unit_facts = "(pytext \<times> pytext) list"

definition number_unit_facts :: "unicode \<Rightarrow> pytext \<Rightarrow> unit_facts" where
  "number_unit_facts u t = map (\<lambda>(s, e, ms).
       (normalize_unit u (slice (ms ! 1) e t), normalize_number u (slice s (ms ! 0) t)))
     (find_matches t (length t) (number_with_unit_re u) 0)"

definition unit_values :: "unit_facts \<Rightarrow> pytext \<Rightarrow> pytext list" where
  "unit_values fs unit = remdups (map snd (filter (\<lambda>f. fst f = unit) fs))"

definition has_unit :: "pytext \<Rightarrow> unit_facts \<Rightarrow> bool" where
  "has_unit unit fs \<longleftrightarrow> (\<exists>f \<in> set fs. fst f = unit)"

definition numeric_unit_conflicts :: "unicode \<Rightarrow> pytext list \<Rightarrow> (pytext \<times> pytext list) list" where
  "numeric_unit_conflicts u quotes =
     (let facts = map (number_unit_facts u) quotes; all = concat facts
      in map (\<lambda>unit. (unit, unit_values all unit))
           (filter (\<lambda>unit. 2 \<le> length (filter (has_unit unit) facts) \<and> 2 \<le> length (unit_values all unit))
             (first_occurrences (map fst all))))"

subsection \<open>Lexical overlap\<close>

abbreviation strip_token :: "pytext \<Rightarrow> pytext" where
  "strip_token \<equiv> strip_text (in_class ''.+/-'')"

definition claim_latin :: "unicode \<Rightarrow> pytext \<Rightarrow> pytext set" where
  "claim_latin u t = set (map (\<lambda>k. strip_token (casefold u k))
     (filter (\<lambda>k. 1 < length (strip_token k) \<and> strip_token (casefold u k) \<notin> set english_stopwords)
       (find_all latin_token_re t)))"

definition evidence_latin :: "unicode \<Rightarrow> pytext \<Rightarrow> pytext set" where
  "evidence_latin u t = set (map (\<lambda>k. strip_token (casefold u k))
     (filter (\<lambda>k. strip_token k \<noteq> []) (find_all latin_token_re t)))"

definition bigrams :: "pytext \<Rightarrow> pytext set" where
  "bigrams t = set (map (\<lambda>i. slice i (i + 2) t) [0..<length t - 1])"

definition chinese_bigrams :: "pytext \<Rightarrow> pytext set" where
  "chinese_bigrams t = bigrams (filter chinese t)"

definition core_overlap :: "unicode \<Rightarrow> pytext \<Rightarrow> pytext \<Rightarrow> bool" where
  "core_overlap u claim ev \<longleftrightarrow>
     (if claim_latin u claim \<inter> evidence_latin u ev \<noteq> {} then True
      else if 4 \<le> length (filter chinese claim)
      then binary64 (12 / 100) \<le>
        binary64 (of_nat (card (chinese_bigrams claim \<inter> chinese_bigrams ev))
          / of_nat (max 1 (card (chinese_bigrams claim))))
      else False)"

definition claim_fragments :: "unicode \<Rightarrow> pytext \<Rightarrow> pytext list" where
  "claim_fragments u t = filter (\<lambda>f. f \<noteq> [])
     (map (strip_text (\<lambda>c. c \<in> set [32, 9, 10, 58, 65306])) (re_split (clause_split_re u) t))"

definition all_claim_clauses_overlap :: "unicode \<Rightarrow> pytext \<Rightarrow> pytext \<Rightarrow> bool" where
  "all_claim_clauses_overlap u claim ev \<longleftrightarrow> claim_fragments u claim \<noteq> [] \<and>
     (\<forall>f \<in> set (claim_fragments u claim). core_overlap u f ev)"

definition comparison_objects_overlap :: "unicode \<Rightarrow> pytext \<Rightarrow> pytext \<Rightarrow> bool" where
  "comparison_objects_overlap u claim ev \<longleftrightarrow>
     (if 2 \<le> card (claim_latin u claim \<inter> evidence_latin u ev) then True
      else 2 \<le> card (chinese_bigrams claim \<inter> chinese_bigrams ev))"

subsection \<open>Support\<close>

text \<open>The reason why a claim is not supported, if there is one. The evidence is folded already.\<close>

definition support_failure :: "unicode \<Rightarrow> pytext \<Rightarrow> pytext \<Rightarrow> string option" where
  "support_failure u claim ev =
     (let folded = casefold u claim; facts = number_unit_facts u claim; known = number_unit_facts u ev
      in if \<not> numbers u claim \<subseteq> numbers u ev then Some ''NUMERIC_ANCHOR_MISSING_FROM_EVIDENCE''
         else if \<not> set facts \<subseteq> set known then Some ''NUMERIC_UNIT_NOT_ESTABLISHED''
         else if has_any folded causal_markers \<and> \<not> has_any ev causal_evidence_markers
         then Some ''CAUSAL_RELATION_NOT_ESTABLISHED''
         else if has_any folded universal_markers \<and> \<not> has_any ev universal_markers
         then Some ''UNIVERSAL_SCOPE_NOT_ESTABLISHED''
         else if has_any folded comparative_markers \<and> \<not> has_any ev comparative_markers
         then Some ''COMPARISON_NOT_ESTABLISHED''
         else if has_any folded comparative_markers \<and> \<not> comparison_objects_overlap u claim ev
         then Some ''COMPARISON_OBJECTS_NOT_ESTABLISHED''
         else if has_any folded novelty_markers \<and> \<not> has_any ev novelty_markers
         then Some ''NOVELTY_OR_SUPERLATIVE_NOT_ESTABLISHED''
         else if \<exists>g \<in> set qualifier_marker_groups. has_any folded g \<and> \<not> has_any ev g
         then Some ''QUALIFYING_CONDITION_NOT_ESTABLISHED''
         else if \<not> all_claim_clauses_overlap u claim ev
         then Some ''CORE_LEXICAL_OVERLAP_NOT_ESTABLISHED''
         else None)"

definition safe_limitation :: "unicode \<Rightarrow> pytext \<Rightarrow> bool" where
  "safe_limitation u t \<longleftrightarrow>
     find_matches t (length t) (number_re u) 0 = [] \<and>
     (let fragments = filter (\<lambda>f. f \<noteq> []) (map trim (re_split (clause_split_re u) (casefold u t)))
      in fragments \<noteq> [] \<and> (\<forall>f \<in> set fragments. has_any f insufficient_markers))"

end
