(* ===== verification/ClaimEvidence.thy ===== *)
theory ClaimEvidence
  imports ClaimText
begin

text \<open>
  Verification of generated claims, \<^verbatim>\<open>backend/rag/claim_evidence.py\<close>: each claim against the
  evidence it cites, and the audit of evidence sets with adjacent chunks. An evidence item is a JSON
  object; citations count from one. \<open>str_of\<close> is \<open>str\<close> of a JSON value.
\<close>

subsection \<open>Claims and reports\<close>

datatype claim_status = SUPPORTED | CONFLICTING | INSUFFICIENT | UNSUPPORTED

record generated_claim =
  gc_text :: pytext
  gc_citation_ids :: "int list"

record claim_record =
  cl_claim :: generated_claim
  cl_status :: claim_status
  cl_reasons :: "string list"

definition retained :: "claim_record \<Rightarrow> bool" where
  "retained r \<longleftrightarrow> cl_status r \<noteq> UNSUPPORTED"

definition retained_claims :: "claim_record list \<Rightarrow> generated_claim list" where
  "retained_claims rs = map cl_claim (filter retained rs)"

definition share :: "nat \<Rightarrow> nat \<Rightarrow> rat" where
  "share n d = (if d = 0 then 0 else binary64 (of_nat n / of_nat d))"

definition citation_completeness :: "claim_record list \<Rightarrow> rat" where
  "citation_completeness rs =
     share (length (filter (\<lambda>r. gc_citation_ids (cl_claim r) \<noteq> []) rs)) (length rs)"

definition unsupported_claim_rate :: "claim_record list \<Rightarrow> rat" where
  "unsupported_claim_rate rs = share (length (filter (\<lambda>r. cl_status r = UNSUPPORTED) rs)) (length rs)"

definition is_partial_answer :: "claim_record list \<Rightarrow> bool" where
  "is_partial_answer rs \<longleftrightarrow> retained_claims rs \<noteq> [] \<and> (\<exists>r \<in> set rs. cl_status r = UNSUPPORTED)"

subsection \<open>One claim\<close>

definition item_at :: "jobject list \<Rightarrow> int \<Rightarrow> jobject" where
  "item_at evidence p = evidence ! nat (p - 1)"

definition citations_in_order :: "int list \<Rightarrow> bool" where
  "citations_in_order ids \<longleftrightarrow> sort (remdups ids) = ids"

definition citation_failure :: "generated_claim \<Rightarrow> 'i list \<Rightarrow> string option" where
  "citation_failure c evidence =
     (if blank (gc_text c) then Some ''CLAIM_TEXT_EMPTY''
      else if gc_citation_ids c = [] then Some ''CLAIM_CITATION_MISSING''
      else if \<not> citations_in_order (gc_citation_ids c) then Some ''CLAIM_CITATION_SET_INVALID''
      else if \<exists>p \<in> set (gc_citation_ids c). p < 1 \<or> int (length evidence) < p
      then Some ''CLAIM_CITATION_OUT_OF_RANGE''
      else None)"

definition unsupported :: "generated_claim \<Rightarrow> string \<Rightarrow> claim_record" where
  "unsupported c code = \<lparr>cl_claim = c, cl_status = UNSUPPORTED, cl_reasons = [code]\<rparr>"

definition quote_of :: "jobject \<Rightarrow> pytext" where
  "quote_of item = trim (text_of (get item ''quote''))"

definition evidence_folded :: "unicode \<Rightarrow> pytext list \<Rightarrow> pytext" where
  "evidence_folded u quotes = casefold u (join [10] quotes)"

text \<open>The values a claim gives for a unit on which the quotes disagree.\<close>

definition discloses_values :: "unit_facts \<Rightarrow> pytext \<times> pytext list \<Rightarrow> bool" where
  "discloses_values facts conflict \<longleftrightarrow>
     2 \<le> card (set (snd conflict) \<inter> set (unit_values facts (fst conflict)))"

definition verify_quotes :: "unicode \<Rightarrow> generated_claim \<Rightarrow> pytext list \<Rightarrow> claim_record" where
  "verify_quotes u c quotes =
     (let ev = evidence_folded u quotes; conflicts = numeric_unit_conflicts u quotes;
          disclosed = has_any (casefold u (gc_text c)) conflict_markers
      in if conflicts \<noteq> [] then
           (if \<not> disclosed then unsupported c ''BOUND_NUMERIC_CONFLICT_NOT_DISCLOSED''
            else if \<not> (\<exists>k \<in> set conflicts. discloses_values (number_unit_facts u (gc_text c)) k)
            then unsupported c ''BOUND_NUMERIC_CONFLICT_VALUES_INCOMPLETE''
            else case support_failure u (gc_text c) ev of Some code \<Rightarrow> unsupported c code
              | None \<Rightarrow> \<lparr>cl_claim = c, cl_status = CONFLICTING,
                  cl_reasons = [''BOUND_NUMERIC_CONFLICT_DISCLOSED'']\<rparr>)
         else if disclosed then unsupported c ''CONFLICT_NOT_DETERMINISTICALLY_PROVEN''
         else if safe_limitation u (gc_text c)
         then \<lparr>cl_claim = c, cl_status = INSUFFICIENT,
           cl_reasons = [''SAFE_LIMITATION_WITH_BOUND_EVIDENCE'']\<rparr>
         else case support_failure u (gc_text c) ev of Some code \<Rightarrow> unsupported c code
           | None \<Rightarrow> \<lparr>cl_claim = c, cl_status = SUPPORTED,
               cl_reasons = [''DETERMINISTIC_ANCHORS_AND_CORE_OVERLAP_PASS'']\<rparr>)"

definition verify_claim :: "unicode \<Rightarrow> generated_claim \<Rightarrow> jobject list \<Rightarrow> claim_record" where
  "verify_claim u c evidence =
     (case citation_failure c evidence of Some code \<Rightarrow> unsupported c code
      | None \<Rightarrow>
          (let quotes = map (\<lambda>p. quote_of (item_at evidence p)) (gc_citation_ids c) in
           if [] \<in> set quotes then unsupported c ''BOUND_EVIDENCE_TEXT_EMPTY''
           else verify_quotes u c quotes))"

definition verify_claim_evidence ::
  "unicode \<Rightarrow> generated_claim list \<Rightarrow> jobject list \<Rightarrow> claim_record list" where
  "verify_claim_evidence u claims evidence = map (\<lambda>c. verify_claim u c evidence) claims"

subsection \<open>Evidence sets\<close>

datatype set_status = SET_SUPPORTED | SET_PARTIALLY_SUPPORTED | SET_CONFLICTING | SET_INSUFFICIENT

record evidence_set =
  es_citation_ids :: "int list"
  es_chunk_ids :: "pytext list"
  es_adjacent_chunk_added :: bool

record set_record =
  sr_claim :: generated_claim
  sr_set :: evidence_set
  sr_status :: set_status
  sr_reasons :: "string list"

definition has_conflict :: "set_record list \<Rightarrow> bool" where
  "has_conflict rs \<longleftrightarrow> SET_CONFLICTING \<in> sr_status ` set rs"

definition set_is_partial_answer :: "set_record list \<Rightarrow> bool" where
  "set_is_partial_answer rs \<longleftrightarrow>
     (let statuses = sr_status ` set rs in
      SET_PARTIALLY_SUPPORTED \<in> statuses \<or> SET_SUPPORTED \<in> statuses \<and> SET_INSUFFICIENT \<in> statuses)"

record audit_scope =
  as_owner_id :: pytext
  as_document_versions :: "(pytext \<times> pytext) list"
  as_chunk_identities :: "(pytext \<times> pytext \<times> pytext) list"

definition contract_text :: "pytext \<Rightarrow> bool" where
  "contract_text t \<longleftrightarrow> list_all (\<lambda>c. c < 128) t \<and> contract_id_ok (map char_of t)"

fun valid_contract_id :: "json option \<Rightarrow> bool" where
  "valid_contract_id (Some (JStr t)) = contract_text t"
| "valid_contract_id _ = False"

definition some_value :: "json option \<Rightarrow> json option" where
  "some_value v = (if v = Some JNull then None else v)"

definition evidence_owner_id :: "jobject \<Rightarrow> json option" where
  "evidence_owner_id item =
     (let owner_id = some_value (get item ''owner_id''); tenant_id = some_value (get item ''tenant_id'') in
      if owner_id \<noteq> None \<and> tenant_id \<noteq> None \<and> owner_id \<noteq> tenant_id then None
      else if owner_id \<noteq> None then owner_id else tenant_id)"

definition evidence_text :: "jobject \<Rightarrow> pytext" where
  "evidence_text item = trim (text_of
     (case some_value (get item ''quote'') of None \<Rightarrow> get item ''text'' | Some v \<Rightarrow> Some v))"

text \<open>The loop over the cited items: the chunks seen so far and the version of each document.\<close>

fun identity_failure ::
  "audit_scope \<Rightarrow> jobject list \<Rightarrow> pytext set \<Rightarrow> (pytext \<rightharpoonup> pytext) \<Rightarrow> int list \<Rightarrow> string option"
where
  "identity_failure a evidence seen by_document [] = None"
| "identity_failure a evidence seen by_document (p # ps) =
     (let item = item_at evidence p;
          chunk = get item ''chunk_id''; document = get item ''document_id'';
          version = get item ''version_id''; owner = evidence_owner_id item;
          k = text_of chunk; d = text_of document; v = text_of version
      in if \<not> (\<forall>x \<in> set [chunk, document, version, owner]. valid_contract_id x)
         then Some ''EVIDENCE_IDENTITY_INVALID''
         else if text_of owner \<noteq> as_owner_id a then Some ''EVIDENCE_OWNER_MISMATCH''
         else if get item ''is_active'' \<noteq> Some (JBool True) then Some ''EVIDENCE_VERSION_NOT_ACTIVE''
         else if k \<in> seen then Some ''EVIDENCE_CHUNK_ID_DUPLICATE''
         else if (case by_document d of None \<Rightarrow> False | Some w \<Rightarrow> w \<noteq> v)
         then Some ''EVIDENCE_SET_CROSS_VERSION''
         else if map_of (as_document_versions a) d \<noteq> Some v then Some ''EVIDENCE_VERSION_NOT_CURRENT''
         else if map_of (as_chunk_identities a) k \<noteq> Some (d, v)
         then Some ''EVIDENCE_CHUNK_IDENTITY_NOT_CURRENT''
         else if evidence_text item = [] then Some ''BOUND_EVIDENCE_TEXT_EMPTY''
         else identity_failure a evidence (insert k seen)
           (if by_document d = None then by_document(d \<mapsto> v) else by_document) ps)"

definition evidence_identity_failure :: "audit_scope \<Rightarrow> jobject list \<Rightarrow> int list \<Rightarrow> string option" where
  "evidence_identity_failure a evidence ids = identity_failure a evidence {} Map.empty ids"

definition reciprocal_neighbors :: "jobject \<Rightarrow> jobject \<Rightarrow> bool" where
  "reciprocal_neighbors left right \<longleftrightarrow>
     get left ''next_chunk_id'' = get right ''chunk_id'' \<and>
       get right ''previous_chunk_id'' = get left ''chunk_id'' \<or>
     get left ''previous_chunk_id'' = get right ''chunk_id'' \<and>
       get right ''next_chunk_id'' = get left ''chunk_id''"

definition valid_adjacent_positions :: "audit_scope \<Rightarrow> int list \<Rightarrow> jobject list \<Rightarrow> int list" where
  "valid_adjacent_positions a ids evidence =
     filter (\<lambda>p. p \<notin> set ids \<and> evidence_identity_failure a evidence [p] = None \<and>
         (\<exists>b \<in> set ids. let candidate = item_at evidence p; bound = item_at evidence b in
            get candidate ''document_id'' = get bound ''document_id'' \<and>
            get candidate ''version_id'' = get bound ''version_id'' \<and>
            reciprocal_neighbors bound candidate))
       (map int [1..<Suc (length evidence)])"

definition shown :: "(json \<Rightarrow> pytext) \<Rightarrow> json option \<Rightarrow> pytext" where
  "shown str_of v = (case v of None \<Rightarrow> [] | Some (JStr s) \<Rightarrow> s | Some x \<Rightarrow> str_of x)"

definition make_evidence_set :: "(json \<Rightarrow> pytext) \<Rightarrow> int list \<Rightarrow> jobject list \<Rightarrow> evidence_set" where
  "make_evidence_set str_of ids evidence =
     \<lparr>es_citation_ids = ids,
      es_chunk_ids = map (\<lambda>p. shown str_of (get (item_at evidence p) ''chunk_id'')) ids,
      es_adjacent_chunk_added = False\<rparr>"

definition set_record_of ::
  "generated_claim \<Rightarrow> evidence_set \<Rightarrow> set_status \<Rightarrow> string list \<Rightarrow> set_record" where
  "set_record_of c s status reasons = \<lparr>sr_claim = c, sr_set = s, sr_status = status, sr_reasons = reasons\<rparr>"

definition insufficient_evidence_set ::
  "(json \<Rightarrow> pytext) \<Rightarrow> generated_claim \<Rightarrow> int list \<Rightarrow> jobject list \<Rightarrow> string \<Rightarrow> set_record" where
  "insufficient_evidence_set str_of c ids evidence reason =
     set_record_of c
       (make_evidence_set str_of (filter (\<lambda>p. 1 \<le> p \<and> p \<le> int (length evidence)) ids) evidence)
       SET_INSUFFICIENT [reason]"

definition fragment_status :: "unicode \<Rightarrow> pytext \<Rightarrow> pytext \<Rightarrow> set_status" where
  "fragment_status u claim ev =
     (let fragments = claim_fragments u claim;
          n = length (filter (\<lambda>f. support_failure u f ev = None) fragments)
      in if 0 < n \<and> n < length fragments then SET_PARTIALLY_SUPPORTED else SET_INSUFFICIENT)"

definition classify_evidence_set ::
  "unicode \<Rightarrow> (json \<Rightarrow> pytext) \<Rightarrow> generated_claim \<Rightarrow> int list \<Rightarrow> jobject list \<Rightarrow> set_record" where
  "classify_evidence_set u str_of c ids evidence =
     (let quotes = map (\<lambda>p. evidence_text (item_at evidence p)) ids; ev = evidence_folded u quotes;
          s = make_evidence_set str_of ids evidence;
          disclosed = has_any (casefold u (gc_text c)) conflict_markers
      in if numeric_unit_conflicts u quotes \<noteq> [] then
           set_record_of c s SET_CONFLICTING
             [if disclosed then ''BOUND_NUMERIC_CONFLICT_DISCLOSED'' else ''BOUND_NUMERIC_CONFLICT_NOT_DISCLOSED'']
         else if disclosed
         then set_record_of c s SET_INSUFFICIENT [''CONFLICT_NOT_DETERMINISTICALLY_PROVEN'']
         else if safe_limitation u (gc_text c)
         then set_record_of c s SET_INSUFFICIENT [''SAFE_LIMITATION_WITH_BOUND_EVIDENCE'']
         else case support_failure u (gc_text c) ev of
             None \<Rightarrow> set_record_of c s SET_SUPPORTED [''DETERMINISTIC_EVIDENCE_SET_PASS'']
           | Some reason \<Rightarrow> set_record_of c s (fragment_status u (gc_text c) ev) [reason])"

definition decided :: "set_record \<Rightarrow> bool" where
  "decided r \<longleftrightarrow> sr_status r = SET_SUPPORTED \<or> sr_status r = SET_CONFLICTING"

definition with_adjacent :: "set_record \<Rightarrow> set_record" where
  "with_adjacent r = r\<lparr>sr_set := (sr_set r)\<lparr>es_adjacent_chunk_added := True\<rparr>,
     sr_reasons := sr_reasons r @
       [''SAME_DOCUMENT_VERSION_ADJACENT_EVIDENCE_ADDED'', ''RETRIEVAL_SCORE_UNCHANGED'']\<rparr>"

definition verify_claim_evidence_set ::
  "unicode \<Rightarrow> (json \<Rightarrow> pytext) \<Rightarrow> audit_scope \<Rightarrow> bool \<Rightarrow> jobject list \<Rightarrow> generated_claim \<Rightarrow> set_record"
where
  "verify_claim_evidence_set u str_of a allow_adjacent evidence c =
     (case citation_failure c evidence of Some code \<Rightarrow> insufficient_evidence_set str_of c [] evidence code
      | None \<Rightarrow> (case evidence_identity_failure a evidence (gc_citation_ids c) of
          Some code \<Rightarrow> insufficient_evidence_set str_of c (gc_citation_ids c) evidence code
        | None \<Rightarrow>
            (let base = classify_evidence_set u str_of c (gc_citation_ids c) evidence in
             if \<not> allow_adjacent \<or> decided base then base
             else case find decided (map (\<lambda>p. classify_evidence_set u str_of c
                   (sort (gc_citation_ids c @ [p])) evidence)
                   (valid_adjacent_positions a (gc_citation_ids c) evidence)) of
                 None \<Rightarrow> base
               | Some expanded \<Rightarrow> with_adjacent expanded)))"

definition audit_scope_ok :: "audit_scope \<Rightarrow> bool" where
  "audit_scope_ok a \<longleftrightarrow> contract_text (as_owner_id a) \<and>
     as_document_versions a \<noteq> [] \<and>
     (\<forall>(d, v) \<in> set (as_document_versions a). contract_text d \<and> contract_text v) \<and>
     as_chunk_identities a \<noteq> [] \<and>
     (\<forall>(k, d, v) \<in> set (as_chunk_identities a). contract_text k \<and> contract_text d \<and> contract_text v)"

text \<open>\<open>Inl ()\<close> is the \<open>ValueError\<close> about the scope.\<close>

definition verify_claim_evidence_sets ::
  "unicode \<Rightarrow> (json \<Rightarrow> pytext) \<Rightarrow> audit_scope \<Rightarrow> bool \<Rightarrow> generated_claim list \<Rightarrow> jobject list \<Rightarrow>
     unit + set_record list" where
  "verify_claim_evidence_sets u str_of a allow_adjacent claims evidence =
     (if \<not> audit_scope_ok a then Inl ()
      else Inr (map (verify_claim_evidence_set u str_of a allow_adjacent evidence) claims))"

end
