(* ===== verification/RegexLines.thy ===== *)
theory RegexLines
  imports Regex
begin

text \<open>
  Patterns that stay on their side of a separator: they do not consume it and look beyond their ends
  only for other characters. Such a pattern finds in two parts what it finds in each.
\<close>

primrec ahead_safe :: "nat \<Rightarrow> regex \<Rightarrow> bool" where
  "ahead_safe z (Class P) \<longleftrightarrow> \<not> P z"
| "ahead_safe z (Cat a b) \<longleftrightarrow> ahead_safe z a \<and> ahead_safe z b"
| "ahead_safe z (Alt a b) \<longleftrightarrow> ahead_safe z a \<and> ahead_safe z b"
| "ahead_safe z (Many a) \<longleftrightarrow> ahead_safe z a"
| "ahead_safe z Nothing \<longleftrightarrow> True"
| "ahead_safe z (Behind P) \<longleftrightarrow> True"
| "ahead_safe z (NotBehind P) \<longleftrightarrow> True"
| "ahead_safe z (NotAhead P) \<longleftrightarrow> \<not> P z"
| "ahead_safe z LineStart \<longleftrightarrow> True"
| "ahead_safe z LineEnd \<longleftrightarrow> z = 10"
| "ahead_safe z TextEnd \<longleftrightarrow> False"
| "ahead_safe z (Boundary P) \<longleftrightarrow> False"
| "ahead_safe z Mark \<longleftrightarrow> True"

primrec behind_safe :: "nat \<Rightarrow> regex \<Rightarrow> bool" where
  "behind_safe z (Class P) \<longleftrightarrow> True"
| "behind_safe z (Cat a b) \<longleftrightarrow> behind_safe z a \<and> behind_safe z b"
| "behind_safe z (Alt a b) \<longleftrightarrow> behind_safe z a \<and> behind_safe z b"
| "behind_safe z (Many a) \<longleftrightarrow> behind_safe z a"
| "behind_safe z Nothing \<longleftrightarrow> True"
| "behind_safe z (Behind P) \<longleftrightarrow> \<not> P z"
| "behind_safe z (NotBehind P) \<longleftrightarrow> \<not> P z"
| "behind_safe z (NotAhead P) \<longleftrightarrow> True"
| "behind_safe z LineStart \<longleftrightarrow> z = 10"
| "behind_safe z LineEnd \<longleftrightarrow> True"
| "behind_safe z TextEnd \<longleftrightarrow> True"
| "behind_safe z (Boundary P) \<longleftrightarrow> False"
| "behind_safe z Mark \<longleftrightarrow> True"

text \<open>Patterns whose matches are never empty.\<close>

primrec consuming :: "regex \<Rightarrow> bool" where
  "consuming (Class P) \<longleftrightarrow> True"
| "consuming (Cat a b) \<longleftrightarrow> consuming a \<or> consuming b"
| "consuming (Alt a b) \<longleftrightarrow> consuming a \<and> consuming b"
| "consuming (Many a) \<longleftrightarrow> False"
| "consuming Nothing \<longleftrightarrow> False"
| "consuming (Behind P) \<longleftrightarrow> False"
| "consuming (NotBehind P) \<longleftrightarrow> False"
| "consuming (NotAhead P) \<longleftrightarrow> False"
| "consuming LineStart \<longleftrightarrow> False"
| "consuming LineEnd \<longleftrightarrow> False"
| "consuming TextEnd \<longleftrightarrow> False"
| "consuming (Boundary P) \<longleftrightarrow> False"
| "consuming Mark \<longleftrightarrow> False"

lemma rx_le: "s' \<in> set (rx t hi r s) \<Longrightarrow> fst s \<le> fst s'"
  using rx_moves_forward [of s' t hi r s] by (simp add: rx_forward_def)

lemma rx_bounded: "s' \<in> set (rx t hi r s) \<Longrightarrow> fst s \<le> hi \<Longrightarrow> fst s' \<le> hi"
  using rx_moves_forward [of s' t hi r s] by (simp add: rx_forward_def)

lemma rx_consuming: "consuming r \<Longrightarrow> s' \<in> set (rx t hi r s) \<Longrightarrow> fst s < fst s'"
proof (induction r arbitrary: s s')
  case (Cat a b)
  then obtain m where "m \<in> set (rx t hi a s)" "s' \<in> set (rx t hi b m)" by auto
  with Cat show ?case using rx_le [of m t hi a s] rx_le [of s' t hi b m] by fastforce
qed (auto split: if_splits)

lemma match_at_consuming: "consuming r \<Longrightarrow> match_at t hi r p = Some (e, ms) \<Longrightarrow> p < e"
  using rx_consuming [of r "(e, ms)" t hi "(p, [])"] by (auto simp: match_at_def split: list.splits)

subsection \<open>The first of two parts\<close>

lemma repeat_greedy_local:
  assumes "\<forall>s. fst s \<le> n \<longrightarrow> f s = g s \<and> (\<forall>s' \<in> set (g s). fst s' \<le> n)" and "n \<le> hi" and "fst s \<le> n"
  shows "repeat_greedy hi f s = repeat_greedy n g s"
  using assms
proof (induction n g s rule: repeat_greedy.induct)
  case (1 n g s)
  have g: "f s = g s" "\<forall>s' \<in> set (g s). fst s' \<le> n" using 1(2,4) by blast+
  then have "filter (\<lambda>s'. fst s < fst s' \<and> fst s' \<le> hi) (f s) = filter (\<lambda>s'. fst s < fst s' \<and> fst s' \<le> n) (g s)"
    using 1(3) by (auto intro!: filter_cong)
  moreover have "map (repeat_greedy hi f) (filter (\<lambda>s'. fst s < fst s' \<and> fst s' \<le> n) (g s))
      = map (repeat_greedy n g) (filter (\<lambda>s'. fst s < fst s' \<and> fst s' \<le> n) (g s))"
    using 1(1) [OF _ 1(2,3)] by (intro map_cong refl) simp
  ultimately show ?case
    unfolding repeat_greedy.simps [of hi f s] repeat_greedy.simps [of n g s] by (simp only:)
qed

lemma rx_first_part:
  assumes "ahead_safe z r" and "fst s \<le> length a"
  shows "rx (a @ z # b) (length (a @ z # b)) r s = rx a (length a) r s"
  using assms
proof (induction r arbitrary: s)
  case (Cat p q)
  then have "\<forall>m \<in> set (rx a (length a) p s). fst m \<le> length a" using rx_bounded by blast
  with Cat have "map (rx (a @ z # b) (length (a @ z # b)) q) (rx a (length a) p s)
      = map (rx a (length a) q) (rx a (length a) p s)"
    by (intro map_cong refl) simp
  moreover have "rx (a @ z # b) (length (a @ z # b)) p s = rx a (length a) p s"
    using Cat by simp
  ultimately show ?case by (simp only: rx.simps)
next
  case (Many p)
  have "\<forall>s. fst s \<le> length a \<longrightarrow> rx (a @ z # b) (length (a @ z # b)) p s = rx a (length a) p s \<and>
      (\<forall>s' \<in> set (rx a (length a) p s). fst s' \<le> length a)"
    using Many.IH Many.prems(1) rx_bounded by (metis ahead_safe.simps(4))
  then have "repeat_greedy (length (a @ z # b)) (rx (a @ z # b) (length (a @ z # b)) p) s
      = repeat_greedy (length a) (rx a (length a) p) s"
    by (rule repeat_greedy_local) (use Many.prems in simp_all)
  then show ?case by simp
qed (auto simp: nth_append less_Suc_eq)

subsection \<open>The second of two parts\<close>

definition shift :: "nat \<Rightarrow> rx_state \<Rightarrow> rx_state" where
  "shift k s = (fst s + k, map (\<lambda>m. m + k) (snd s))"

lemma repeat_greedy_shift:
  assumes "\<forall>s. g (shift k s) = map (shift k) (f s)"
  shows "repeat_greedy (hi + k) g (shift k s) = map (shift k) (repeat_greedy hi f s)"
  using assms
proof (induction hi f s rule: repeat_greedy.induct)
  case (1 hi f s)
  have "filter (\<lambda>s'. fst (shift k s) < fst s' \<and> fst s' \<le> hi + k) (g (shift k s))
      = map (shift k) (filter (\<lambda>s'. fst s < fst s' \<and> fst s' \<le> hi) (f s))"
    unfolding 1(2) [rule_format] filter_map by (simp add: shift_def comp_def)
  moreover have "map (repeat_greedy (hi + k) g \<circ> shift k) (filter (\<lambda>s'. fst s < fst s' \<and> fst s' \<le> hi) (f s))
      = map (map (shift k) \<circ> repeat_greedy hi f) (filter (\<lambda>s'. fst s < fst s' \<and> fst s' \<le> hi) (f s))"
    using 1(1) [OF _ 1(2)] by (intro map_cong refl) simp
  ultimately show ?case
    unfolding repeat_greedy.simps [of "hi + k" g "shift k s"] repeat_greedy.simps [of hi f s]
    by (simp only: map_concat map_append map_map list.map)
qed

lemma nth_after: "length a \<le> i \<Longrightarrow> (a @ b) ! i = b ! (i - length a)"
  by (simp add: nth_append)

lemma before_part:
  assumes "a \<noteq> []"
  shows "(a @ b) ! (n + length a - 1) = (if n = 0 then last a else b ! (n - 1))"
  using assms by (cases n) (simp_all add: nth_append last_conv_nth)

lemma rx_second_part:
  assumes "behind_safe (last a) r" and "a \<noteq> []"
  shows "rx (a @ b) (length (a @ b)) r (shift (length a) s) = map (shift (length a)) (rx b (length b) r s)"
  using assms
proof (induction r arbitrary: s)
  case (Cat p q)
  then show ?case by (simp add: map_concat comp_def)
next
  case (Many p)
  have "\<forall>s. rx (a @ b) (length (a @ b)) p (shift (length a) s) = map (shift (length a)) (rx b (length b) p s)"
    using Many by simp
  from repeat_greedy_shift [OF this, of "length b" s] show ?case by (simp add: add.commute)
next
  case (Class P)
  then show ?case by (simp add: shift_def nth_after)
next
  case (Behind P)
  then show ?case using before_part [of a b "fst s"] by (cases "fst s") (simp_all add: shift_def)
next
  case (NotBehind P)
  then show ?case using before_part [of a b "fst s"] by (cases "fst s") (simp_all add: shift_def)
next
  case (NotAhead P)
  then show ?case by (simp add: shift_def nth_after)
next
  case LineStart
  then show ?case using before_part [of a b "fst s"] by (cases "fst s") (simp_all add: shift_def)
next
  case LineEnd
  then show ?case by (simp add: shift_def nth_after)
next
  case TextEnd
  then show ?case by (auto simp: shift_def nth_after)
qed (simp_all add: shift_def)

subsection \<open>Searching two parts\<close>

lemma match_at_first_part:
  "ahead_safe z r \<Longrightarrow> p \<le> length a \<Longrightarrow>
     match_at (a @ z # b) (length (a @ z # b)) r p = match_at a (length a) r p"
  by (simp only: match_at_def rx_first_part fst_conv)

lemma match_at_second_part:
  assumes "behind_safe (last a) r" and "a \<noteq> []"
  shows "match_at (a @ b) (length (a @ b)) r (p + length a)
     = map_option (shift (length a)) (match_at b (length b) r p)"
  using rx_second_part [OF assms, of b "(p, [])"]
  by (simp add: match_at_def shift_def split: list.splits)

definition shift_match :: "nat \<Rightarrow> rx_match \<Rightarrow> rx_match" where
  "shift_match k m = (fst m + k, fst (snd m) + k, map (\<lambda>i. i + k) (snd (snd m)))"

lemma find_matches_second_part:
  assumes "behind_safe (last a) r" and "a \<noteq> []" and "t = a @ b"
  shows "find_matches t (length t) r (p + length a)
     = map (shift_match (length a)) (find_matches b (length b) r p)"
  using assms
proof (induction b "length b" r p rule: find_matches.induct)
  case (1 b r p)
  let ?k = "length a"
  consider "length b < p" | "p \<le> length b" "match_at b (length b) r p = None"
    | e ms where "p \<le> length b" "match_at b (length b) r p = Some (e, ms)"
    by (cases "match_at b (length b) r p") (auto simp: not_less intro: leI)
  then show ?case
  proof cases
    case past: 1
    then show ?thesis using 1(5) by (simp add: find_matches_stop)
  next
    case 2
    then have "match_at t (length t) r (p + ?k) = None"
      using match_at_second_part [OF 1(3,4), of b p] 1(5) by simp
    then have "find_matches t (length t) r (p + ?k) = find_matches t (length t) r (p + 1 + ?k)"
      using 2 1(5) by (subst find_matches_skip) simp_all
    with 1(1) [OF _ _ 1(3-5)] 2 show ?thesis by (simp add: find_matches_skip)
  next
    case (3 e ms)
    then have m: "match_at t (length t) r (p + ?k) = Some (e + ?k, map (\<lambda>i. i + ?k) ms)"
      using match_at_second_part [OF 1(3,4), of b p] 1(5) by (simp add: shift_def)
    have "find_matches t (length t) r (p + ?k)
        = (p + ?k, e + ?k, map (\<lambda>i. i + ?k) ms) # find_matches t (length t) r ((if e \<le> p then p + 1 else e) + ?k)"
      using 3 1(5) by (subst find_matches_take [OF _ m]) simp_all
    moreover have "find_matches t (length t) r ((if e \<le> p then p + 1 else e) + ?k)
        = map (shift_match ?k) (find_matches b (length b) r (if e \<le> p then p + 1 else e))"
      by (rule 1(2) [of "(e, ms)"]) (use 3 1(3-5) in simp_all)
    moreover have "find_matches b (length b) r p
        = (p, e, ms) # find_matches b (length b) r (if e \<le> p then p + 1 else e)"
      by (rule find_matches_take [OF 3])
    ultimately show ?thesis by (simp only: list.map shift_match_def fst_conv snd_conv)
  qed
qed

lemma find_matches_first_part:
  assumes "ahead_safe z r" and "consuming r" and "t = a @ z # b" and "p \<le> length a"
  shows "find_matches t (length t) r p
     = find_matches a (length a) r p @ find_matches t (length t) r (Suc (length a))"
  using assms
proof (induction a "length a" r p rule: find_matches.induct)
  case (1 a r p)
  have same: "match_at t (length t) r p = match_at a (length a) r p"
    using match_at_first_part [of z r p a b] 1 by simp
  have p: "p \<le> length t" using 1 by simp
  show ?case
  proof (cases "match_at a (length a) r p")
    case None
    then have skip: "find_matches t (length t) r p = find_matches t (length t) r (p + 1)"
      "find_matches a (length a) r p = find_matches a (length a) r (p + 1)"
      using find_matches_skip [of p "length t" t r] find_matches_skip [of p "length a" a r] p same 1(6) by simp_all
    show ?thesis
    proof (cases "p = length a")
      case True
      then show ?thesis unfolding skip by (simp add: find_matches_stop)
    next
      case False
      then show ?thesis unfolding skip using 1(1) None 1(3-6) by simp
    qed
  next
    case (Some m)
    obtain e ms where m: "match_at a (length a) r p = Some (e, ms)" using Some by (cases m) simp
    have e: "p < e" "e \<le> length a"
      using match_at_consuming [OF 1(4) m] match_at_bounds [OF m] 1(6) by auto
    have "find_matches a (length a) r p = (p, e, ms) # find_matches a (length a) r e"
      using find_matches_take [OF _ m] 1(6) e by simp
    moreover have "find_matches t (length t) r p = (p, e, ms) # find_matches t (length t) r e"
      using find_matches_take [of p "length t" t r e ms] p same m e by simp
    moreover have "find_matches t (length t) r e
        = find_matches a (length a) r e @ find_matches t (length t) r (Suc (length a))"
      using 1(2) [of "(e, ms)" e ms] m 1(3-6) e by simp
    ultimately show ?thesis by simp
  qed
qed

lemma find_matches_parts:
  assumes "ahead_safe z r" and "behind_safe z r" and "consuming r"
  shows "find_matches (a @ z # b) (length (a @ z # b)) r 0
     = find_matches a (length a) r 0 @ map (shift_match (Suc (length a))) (find_matches b (length b) r 0)"
  using find_matches_first_part [OF assms(1,3) refl, of 0 a b]
    find_matches_second_part [of "a @ [z]" r "(a @ [z]) @ b" b 0] assms(2) by simp

end
