(* ===== verification/ClaimSupport.thy ===== *)
theory ClaimSupport
  imports ClaimEvidence RegexLines
begin

text \<open>
  What the verification of a claim guarantees: every number of a supported claim stands in one of
  the quotes it cites, in the same normal form; and what it does not: normal forms keep six digits,
  and a marker word inside a longer word counts as a marker.
\<close>

subsection \<open>Numbers of several quotes\<close>

text \<open>The ASCII part of the Unicode tables.\<close>

definition ascii_digits :: "unicode \<Rightarrow> bool" where
  "ascii_digits u \<longleftrightarrow> (\<forall>c. 48 \<le> c \<and> c \<le> 57 \<longrightarrow>
     uc_digit u c \<and> uc_digit_value u c = c - 48 \<and> uc_fold u c = [c])"

definition newline_plain :: "unicode \<Rightarrow> bool" where
  "newline_plain u \<longleftrightarrow> uc_fold u 10 = [10] \<and> \<not> uc_digit u 10"

lemma sample_unicode_plain: "ascii_digits sample_unicode" "newline_plain sample_unicode"
  by (auto simp: ascii_digits_def newline_plain_def sample_unicode_def)

lemmas number_defs = number_re_def digits_re_def fraction_re_def sign_re_def many_one_def
  optional_def one_char_def any_latin_def latin_letter_def

lemma number_re_line_bound: "newline_plain u \<Longrightarrow> ahead_safe 10 (number_re u)" "behind_safe 10 (number_re u)"
  by (simp_all add: newline_plain_def number_defs ascii_def same_letter_def ascii_lower_def)

lemma number_re_consuming: "consuming (number_re u)"
  by (simp add: number_defs)

lemma slice_first_line: "e \<le> length a \<Longrightarrow> slice s e (a @ x # b) = slice s e a"
  by (cases "s \<le> e") (simp_all add: slice_def)

lemma slice_second_line: "slice (s + Suc (length a)) (e + Suc (length a)) (a @ x # b) = slice s e b"
  by (simp add: slice_def)

lemma find_all_parts:
  assumes "ahead_safe z r" and "behind_safe z r" and "consuming r"
  shows "find_all r (a @ z # b) = find_all r a @ find_all r b"
proof -
  have "(case m of (s, e, _) \<Rightarrow> slice s e (a @ z # b)) = (case m of (s, e, _) \<Rightarrow> slice s e a)"
    if m: "m \<in> set (find_matches a (length a) r 0)" for m
  proof -
    obtain s e ms where "m = (s, e, ms)" by (cases m)
    with m have "match_at a (length a) r s = Some (e, ms)" "s \<le> length a"
      using find_matches_match [of s e ms a "length a" r 0] by auto
    then have "e \<le> length a" using match_at_bounds by blast
    with \<open>m = _\<close> show ?thesis by (simp add: slice_first_line)
  qed
  then show ?thesis
    unfolding find_all_def find_matches_parts [OF assms]
    by (auto simp: shift_match_def slice_second_line [simplified])
qed

lemma find_all_Nil:
  assumes "consuming r"
  shows "find_all r [] = []"
proof -
  have "match_at [] 0 r 0 = None"
    using match_at_consuming [OF assms, of "[]" 0 0] match_at_bounds [of "[]" 0 r 0]
    by (cases "match_at [] 0 r 0") auto
  then show ?thesis by (simp add: find_all_def find_matches_skip find_matches_stop)
qed

lemma numbers_join:
  assumes "newline_plain u"
  shows "numbers u (join [10] qs) = (\<Union>q \<in> set qs. numbers u q)"
proof (induction qs rule: induct_list012)
  case 1
  then show ?case by (simp add: numbers_def find_all_Nil number_re_consuming)
next
  case (3 a b qs)
  then show ?case
    using find_all_parts [OF number_re_line_bound(1) [OF assms] number_re_line_bound(2) number_re_consuming, of a "join [10] (b # qs)"]
    by (simp add: numbers_def image_Un)
qed simp

lemma casefold_join: "newline_plain u \<Longrightarrow> casefold u (join [10] qs) = join [10] (map (casefold u) qs)"
  by (induction qs rule: induct_list012) (simp_all add: casefold_def newline_plain_def)

lemma numbers_evidence:
  "newline_plain u \<Longrightarrow> numbers u (evidence_folded u qs) = (\<Union>q \<in> set qs. numbers u (casefold u q))"
  by (simp add: evidence_folded_def casefold_join numbers_join)

subsection \<open>Supported claims\<close>

lemma support_failure_None:
  assumes "support_failure u t ev = None"
  shows "numbers u t \<subseteq> numbers u ev" and "set (number_unit_facts u t) \<subseteq> set (number_unit_facts u ev)"
    and "has_any (casefold u t) causal_markers \<Longrightarrow> has_any ev causal_evidence_markers"
    and "has_any (casefold u t) novelty_markers \<Longrightarrow> has_any ev novelty_markers"
    and "claim_fragments u t \<noteq> []" and "f \<in> set (claim_fragments u t) \<Longrightarrow> core_overlap u f ev"
  using assms by (auto simp: support_failure_def Let_def all_claim_clauses_overlap_def split: if_splits)

lemma citation_failure_None:
  assumes "citation_failure c evidence = None"
  shows "\<not> blank (gc_text c)" and "gc_citation_ids c \<noteq> []"
    and "sorted (gc_citation_ids c)" and "distinct (gc_citation_ids c)"
    and "p \<in> set (gc_citation_ids c) \<Longrightarrow> 1 \<le> p \<and> p \<le> int (length evidence)"
proof -
  have o: "citations_in_order (gc_citation_ids c)"
    and "\<not> blank (gc_text c)" "gc_citation_ids c \<noteq> []"
    and "p \<in> set (gc_citation_ids c) \<longrightarrow> 1 \<le> p \<and> p \<le> int (length evidence)"
    using assms by (auto simp: citation_failure_def split: if_splits)
  then show "\<not> blank (gc_text c)" "gc_citation_ids c \<noteq> []"
    and "p \<in> set (gc_citation_ids c) \<Longrightarrow> 1 \<le> p \<and> p \<le> int (length evidence)" by auto
  from o have "sort (remdups (gc_citation_ids c)) = gc_citation_ids c" by (simp add: citations_in_order_def)
  then show "sorted (gc_citation_ids c)" "distinct (gc_citation_ids c)"
    using sorted_sort [of "remdups (gc_citation_ids c)"] distinct_remdups [of "gc_citation_ids c"]
    by (metis, metis distinct_sort)
qed

lemma verify_claim_claim [simp]: "cl_claim (verify_claim u c evidence) = c"
  by (simp add: verify_claim_def verify_quotes_def unsupported_def Let_def split: option.splits)

lemma verify_claim_kept:
  assumes "retained (verify_claim u c evidence)"
  shows "citation_failure c evidence = None"
    and "p \<in> set (gc_citation_ids c) \<Longrightarrow> quote_of (item_at evidence p) \<noteq> []"
    and "verify_claim u c evidence
      = verify_quotes u c (map (\<lambda>p. quote_of (item_at evidence p)) (gc_citation_ids c))"
proof -
  from assms show "citation_failure c evidence = None"
    by (cases "citation_failure c evidence") (auto simp: verify_claim_def retained_def unsupported_def)
  with assms have "[] \<notin> (\<lambda>p. quote_of (item_at evidence p)) ` set (gc_citation_ids c)"
    by (auto simp: verify_claim_def retained_def unsupported_def)
  with \<open>citation_failure c evidence = None\<close>
  show "p \<in> set (gc_citation_ids c) \<Longrightarrow> quote_of (item_at evidence p) \<noteq> []"
    and "verify_claim u c evidence
      = verify_quotes u c (map (\<lambda>p. quote_of (item_at evidence p)) (gc_citation_ids c))"
    by (force simp: verify_claim_def image_iff)+
qed

lemma verify_quotes_status:
  "retained (verify_quotes u c quotes) \<Longrightarrow>
     cl_status (verify_quotes u c quotes) = INSUFFICIENT \<and> safe_limitation u (gc_text c) \<or>
     cl_status (verify_quotes u c quotes) \<noteq> INSUFFICIENT \<and>
       support_failure u (gc_text c) (evidence_folded u quotes) = None"
  by (auto simp: verify_quotes_def retained_def unsupported_def Let_def split: option.splits if_splits)

text \<open>Every number of a claim that is kept stands in one of the quotes it cites.\<close>

definition anchored :: "unicode \<Rightarrow> jobject list \<Rightarrow> generated_claim \<Rightarrow> bool" where
  "anchored u evidence c \<longleftrightarrow>
     (\<forall>n \<in> numbers u (gc_text c). \<exists>p \<in> set (gc_citation_ids c).
        n \<in> numbers u (casefold u (quote_of (item_at evidence p))))"

lemma safe_limitation_numbers: "safe_limitation u t \<Longrightarrow> numbers u t = {}"
  by (simp add: safe_limitation_def numbers_def find_all_def)

lemma kept_claim_anchored:
  assumes "newline_plain u" and "retained (verify_claim u c evidence)"
  shows "anchored u evidence c"
proof -
  let ?qs = "map (\<lambda>p. quote_of (item_at evidence p)) (gc_citation_ids c)"
  have "retained (verify_quotes u c ?qs)" using assms(2) verify_claim_kept(3) by simp
  from verify_quotes_status [OF this] have "numbers u (gc_text c) \<subseteq> numbers u (evidence_folded u ?qs)"
    using safe_limitation_numbers support_failure_None(1) by blast
  then show ?thesis unfolding numbers_evidence [OF assms(1)] anchored_def by auto
qed

subsection \<open>Six digits\<close>

lemma decimal_digits: "c \<in> set (decimal n) \<Longrightarrow> 48 \<le> c \<and> c \<le> 57"
proof (induction n rule: decimal.induct)
  case (1 n)
  show ?case
  proof (cases "n < 10")
    case True
    with 1(2) show ?thesis by (simp add: decimal.simps [of n])
  next
    case False
    with 1 show ?thesis using mod_less_divisor [of 10 n] by (auto simp: decimal.simps [of n])
  qed
qed

lemma decimal_not_Nil [simp]: "decimal n \<noteq> []"
  by (subst decimal.simps) simp

lemma numeral_value_snoc: "numeral_value u (ds @ [c]) = 10 * numeral_value u ds + uc_digit_value u c"
  by (simp add: numeral_value_def)

lemma numeral_value_decimal: "ascii_digits u \<Longrightarrow> numeral_value u (decimal n) = n"
proof (induction n rule: decimal.induct)
  case (1 n)
  show ?case
  proof (cases "n < 10")
    case True
    with 1(2) show ?thesis by (simp add: decimal.simps [of n] numeral_value_def ascii_digits_def)
  next
    case False
    have "n mod 10 < 10" by simp
    then have v: "uc_digit_value u (48 + n mod 10) = n mod 10" using 1(2) by (simp add: ascii_digits_def)
    have "numeral_value u (decimal n) = numeral_value u (decimal (n div 10) @ [48 + n mod 10])"
      using False by (simp add: decimal.simps [of n])
    also have "\<dots> = 10 * (n div 10) + n mod 10" using 1 False v by (simp add: numeral_value_snoc)
    finally show ?thesis by simp
  qed
qed

lemma casefold_decimal: "ascii_digits u \<Longrightarrow> casefold u (decimal n) = decimal n"
proof -
  assume u: "ascii_digits u"
  have "concat (map (uc_fold u) t) = t" if "\<forall>c \<in> set t. 48 \<le> c \<and> c \<le> 57" for t
    using that u by (induction t) (simp_all add: ascii_digits_def)
  then show ?thesis using decimal_digits by (auto simp: casefold_def)
qed

lemma read_float_decimal:
  assumes "ascii_digits u" and "0 < n" and "n \<le> 2 ^ 53"
  shows "read_float u (decimal n) = Some (False, Some (of_nat n))"
proof -
  have all: "\<forall>c \<in> set (decimal n). uc_digit u c" using assms(1) decimal_digits by (auto simp: ascii_digits_def)
  then have taken: "take_digits u (decimal n) = (decimal n, [])"
    by (simp add: take_digits_def takeWhile_eq_all_conv dropWhile_eq_Nil_conv)
  obtain c r where d: "decimal n = c # r" by (cases "decimal n") simp_all
  then have "48 \<le> c" using decimal_digits [of c n] by simp
  then have sign: "take_sign (decimal n) = (False, decimal n)" by (simp add: take_sign_def d)
  have "int n \<le> int (2 ^ 53)" using assms(3) by (simp only: of_nat_le_iff)
  then have exact: "binary64 (of_nat n) = (of_nat n :: rat)"
    using assms(2) by (intro binary64_exact [of _ "int n" 0]) simp_all
  have "(of_nat n :: rat) \<le> of_nat (2 ^ 53)" using assms(3) by (simp only: of_nat_le_iff)
  also have "\<dots> = 2 ^ 53" by simp
  also have "\<dots> < 2 ^ 1024" by (rule power_strict_increasing) simp_all
  finally have "(of_nat n :: rat) < 2 ^ 1024" .
  then have fits: "\<not> overflows (of_nat n)" by (simp add: overflows_def exact)
  have "numeral_value u (decimal n) = n" by (rule numeral_value_decimal [OF assms(1)])
  with sign taken fits exact show ?thesis
    by (simp add: read_float_def read_exponent_def)
qed

lemma normalize_decimal:
  assumes "ascii_digits u" and "0 < n" and "n \<le> 2 ^ 53"
  shows "normalize_number u (decimal n) = format_magnitude (of_nat n)"
proof -
  have "last (decimal n) \<noteq> 37" using decimal_digits [OF last_in_set [OF decimal_not_Nil], of n] by simp
  moreover have "hd (decimal n) \<noteq> 43" using decimal_digits [OF hd_in_set [OF decimal_not_Nil], of n] by simp
  then have "dropWhile (\<lambda>c. c = 43) (decimal n) = decimal n" by (cases "decimal n") simp_all
  ultimately show ?thesis
    by (simp add: normalize_number_def casefold_decimal [OF assms(1)] read_float_decimal [OF assms] format_number_def)
qed

lemma length_decimal: "10 ^ k \<le> n \<Longrightarrow> n < 10 ^ Suc k \<Longrightarrow> length (decimal n) = Suc k"
proof (induction k arbitrary: n)
  case 0
  then show ?case by (simp add: decimal.simps [of n])
next
  case (Suc k)
  then have "10 ^ k \<le> n div 10" "n div 10 < 10 ^ Suc k" by (simp_all add: less_eq_div_iff_mult_less_eq div_less_iff_less_mult mult.commute)
  from Suc.IH [OF this] have "length (decimal (n div 10)) = Suc k" .
  moreover have "\<not> n < 10" using Suc.prems(1) by (auto simp: not_less intro: order_trans [rotated])
  ultimately show ?case by (subst decimal.simps) simp
qed

lemma format_seven_digits:
  assumes "100000 \<le> a" and "a < 1000000" and "d < 5"
  shows "six_digits (of_nat (10 * a + d)) = (a, 6)"
proof -
  have "length (decimal (10 * a + d)) = 7"
    using length_decimal [of 6 "10 * a + d"] assms by simp
  then have e: "decimal_exponent (of_nat (10 * a + d)) = 6"
    using assms(1) by (simp add: decimal_exponent_def del: of_nat_add of_nat_mult)
  have x: "of_nat (10 * a + d) * 10 powi (5 - 6) = (of_nat a + of_nat d / 10 :: rat)"
    by (simp add: power_int_minus field_simps)
  have f: "\<lfloor>of_nat a + of_nat d / 10 :: rat\<rfloor> = int a"
    using assms(3) by (intro floor_unique) simp_all
  have "half_even (of_nat a + of_nat d / 10) = int a"
    using assms(3) by (simp add: half_even_def f Let_def)
  then show ?thesis using assms(2) by (simp only: six_digits_def e x Let_def) simp
qed

lemma seventh_digit_dropped:
  assumes "ascii_digits u" and "100000 \<le> a" and "a < 1000000" and "d < 5"
  shows "normalize_number u (decimal (10 * a + d))
    = with_point (take 1 (decimal a)) (drop 1 (decimal a)) @ exponent_text 6"
proof -
  have "normalize_number u (decimal (10 * a + d)) = format_magnitude (of_nat (10 * a + d))"
    using assms by (intro normalize_decimal) simp_all
  then show ?thesis
    using format_seven_digits [OF assms(2-4)] assms(2)
    by (simp add: format_magnitude_def Let_def del: of_nat_add of_nat_mult)
qed

lemma numbers_anchored_reason:
  assumes "numbers u t \<subseteq> numbers u ev"
  shows "support_failure u t ev \<noteq> Some ''NUMERIC_ANCHOR_MISSING_FROM_EVIDENCE''"
  using assms by (simp add: support_failure_def Let_def)

lemma verify_quotes_anchored:
  assumes "support_failure u (gc_text c) (evidence_folded u qs) \<noteq> Some ''NUMERIC_ANCHOR_MISSING_FROM_EVIDENCE''"
  shows "''NUMERIC_ANCHOR_MISSING_FROM_EVIDENCE'' \<notin> set (cl_reasons (verify_quotes u c qs))"
  using assms by (auto simp: verify_quotes_def unsupported_def Let_def split: option.splits)

text \<open>C10. The seventh digit of a number is ignored when a claim is checked against the evidence it
  cites. Let the only numeral of a claim have seven digits, the last one below five, and let one of
  the quotes it cites hold a numeral that differs from it in the last digit, also below five. Then
  the number of the claim counts as anchored: it is among the numbers of the evidence, the check of
  support does not fail for a missing number, and the record of the claim never gives that reason,
  although the number it states may stand nowhere in the evidence.
\<close>

theorem seventh_digit_is_ignored:
  assumes "ascii_digits u" and "newline_plain u"
    and "100000 \<le> a" and "a < 1000000" and "d < 5" and "d' < 5"
    and "find_all (number_re u) (gc_text c) = [decimal (10 * a + d)]"
    and "p \<in> set (gc_citation_ids c)"
    and "decimal (10 * a + d') \<in> set (find_all (number_re u) (casefold u (quote_of (item_at evidence p))))"
  shows "let quotes = map (\<lambda>p. quote_of (item_at evidence p)) (gc_citation_ids c);
      missing = ''NUMERIC_ANCHOR_MISSING_FROM_EVIDENCE''
    in numbers u (gc_text c) \<subseteq> numbers u (evidence_folded u quotes) \<and>
       support_failure u (gc_text c) (evidence_folded u quotes) \<noteq> Some missing \<and>
       missing \<notin> set (cl_reasons (verify_claim u c evidence))"
proof -
  let ?qs = "map (\<lambda>p. quote_of (item_at evidence p)) (gc_citation_ids c)"
  have same: "normalize_number u (decimal (10 * a + d)) = normalize_number u (decimal (10 * a + d'))"
    using seventh_digit_dropped [OF assms(1,3,4)] assms(5,6) by simp
  have "normalize_number u (decimal (10 * a + d')) \<in> numbers u (casefold u (quote_of (item_at evidence p)))"
    using assms(9) by (simp add: numbers_def)
  then have n: "numbers u (gc_text c) \<subseteq> numbers u (evidence_folded u ?qs)"
    using assms(7,8) same unfolding numbers_evidence [OF assms(2)] by (auto simp: numbers_def)
  note f = numbers_anchored_reason [OF n]
  from verify_quotes_anchored [OF f]
  have "''NUMERIC_ANCHOR_MISSING_FROM_EVIDENCE'' \<notin> set (cl_reasons (verify_claim u c evidence))"
    by (auto simp: verify_claim_def citation_failure_def unsupported_def Let_def split: option.splits)
  with n f show ?thesis by (simp only: Let_def) blast
qed

subsection \<open>Markers inside words\<close>

lemma claim_slice_middle: "slice (length a) (length a + length b) (a @ b @ c) = b"
  by (simp add: slice_def)

lemma contains_iff: "contains s t \<longleftrightarrow> (\<exists>a b. t = a @ s @ b)"
proof
  assume "contains s t"
  then obtain i where "i + length s \<le> length t" "slice i (i + length s) t = s"
    using text_find_Some [of s t 0] by (auto simp: contains_def)
  then have "t = take i t @ s @ drop (i + length s) t"
    by (metis add_diff_cancel_left' append_take_drop_id drop_drop add.commute slice_def)
  then show "\<exists>a b. t = a @ s @ b" by blast
next
  assume "\<exists>a b. t = a @ s @ b"
  then obtain a b where t: "t = a @ s @ b" by blast
  then have "occurs_at s t (length a)" by (simp add: occurs_at_def claim_slice_middle)
  moreover have "length a \<in> set [0..<Suc (length t)]" using t by simp
  ultimately have "find (occurs_at s t) [0..<Suc (length t)] \<noteq> None" by (metis find_None_iff)
  then show "contains s t" unfolding contains_def text_find_def .
qed

lemma contains_trans: "contains s t \<Longrightarrow> contains t w \<Longrightarrow> contains s w"
  by (metis contains_iff append.assoc)

lemma single_quote_no_conflict: "numeric_unit_conflicts u [q] = []"
  by (simp add: numeric_unit_conflicts_def Let_def filter_empty_conv)

text \<open>C11. The conflict marker \<^verbatim>\<open>but\<close> is found inside longer words: a claim whose text contains the
  word distribution and that cites one piece of evidence is always UNSUPPORTED, whatever the
  evidence says, even when the claim repeats it word for word.
\<close>

theorem distribution_claims_rejected:
  assumes "contains (ascii ''distribution'') (casefold u (gc_text c))" and "gc_citation_ids c = [p]"
  shows "cl_status (verify_claim u c evidence) = UNSUPPORTED"
proof -
  have "ascii ''distribution'' = ascii ''distri'' @ ascii ''but'' @ ascii ''ion''"
    by (simp add: ascii_def)
  then have "contains (ascii ''but'') (ascii ''distribution'')" unfolding contains_iff by blast
  then have "has_any (casefold u (gc_text c)) conflict_markers"
    using assms(1) contains_trans by (auto simp: has_any_def conflict_markers_def)
  then have "cl_status (verify_quotes u c [q]) = UNSUPPORTED" for q
    by (simp add: verify_quotes_def single_quote_no_conflict unsupported_def)
  then show ?thesis
    using assms(2) by (simp add: verify_claim_def unsupported_def Let_def split: option.splits)
qed

theorem distribution_claims_rejected_witness:
  "(let t = ascii ''The distribution is skewed'' in
    cl_status (verify_claim sample_unicode \<lparr>gc_text = t, gc_citation_ids = [1]\<rparr> [[(''quote'', JStr t)]]))
   = UNSUPPORTED"
proof -
  let ?t = "ascii ''The distribution is skewed''"
  have "casefold sample_unicode ?t = ascii ''the '' @ ascii ''distribution'' @ ascii '' is skewed''"
    by (simp add: casefold_def sample_unicode_def ascii_def)
  then have "contains (ascii ''distribution'') (casefold sample_unicode ?t)" unfolding contains_iff by blast
  then show ?thesis
    using distribution_claims_rejected [of sample_unicode "\<lparr>gc_text = ?t, gc_citation_ids = [1]\<rparr>" 1] by simp
qed

subsection \<open>A supported claim\<close>

text \<open>A one-word claim and evidence that consists of the same word, for the instances below.\<close>

lemma rx_Class_none: "\<forall>c \<in> set t. \<not> P c \<Longrightarrow> rx t (length t) (Class P) s = []"
  using nth_mem [of "fst s" t] by auto

lemma no_digits_no_numbers:
  assumes "\<forall>c \<in> set t. \<not> uc_digit u c"
  shows "find_matches t (length t) (number_re u) p = []"
    and "find_matches t (length t) (number_with_unit_re u) p = []"
proof -
  have d: "rx t (length t) (digits_re u) s = []" for s
    using rx_Class_none [OF assms] by (simp add: digits_re_def many_one_def del: rx.simps(1))
  have n: "find_matches t (length t) r p = []" if "\<forall>s. rx t (length t) r s = []" for r p
    using that
  proof (induction t "length t" r p rule: find_matches.induct)
    case (1 t r p)
    then show ?case by (cases "length t < p") (simp_all add: find_matches_stop find_matches_skip match_at_def)
  qed
  show "find_matches t (length t) (number_re u) p = []"
    by (rule n) (simp add: number_re_def d)
  show "find_matches t (length t) (number_with_unit_re u) p = []"
    by (rule n) (simp add: number_with_unit_re_def d)
qed

lemma contains_letters: "contains s t \<Longrightarrow> set s \<subseteq> set t"
  by (auto simp: contains_iff)

lemma has_any_letters: "\<forall>m \<in> set ms. \<not> set m \<subseteq> set t \<Longrightarrow> \<not> has_any t ms"
  using contains_letters by (auto simp: has_any_def)

definition sample_word :: pytext where
  "sample_word = ascii ''graph''"

lemma sample_word_code: "sample_word = [103, 114, 97, 112, 104]"
  by (simp add: sample_word_def ascii_def)

lemma sample_word_tokens: "find_all latin_token_re sample_word = [sample_word]"
proof -
  let ?P = "\<lambda>c. latin_letter c \<or> greek_letter c \<or> 48 \<le> c \<and> c \<le> 57 \<or> in_class ''_+./-'' c"
  note eval = match_at_def latin_token_re_def repeat_greedy.simps latin_letter_def sample_word_code
    numeral_2_eq_2 numeral_3_eq_3 eval_nat_numeral
  have "match_at sample_word 5 latin_token_re 0 = Some (5, [])" by (simp add: eval)
  moreover have "match_at sample_word 5 latin_token_re 5 = None" by (simp add: eval)
  ultimately have "find_matches sample_word 5 latin_token_re 0 = [(0, 5, [])]"
    by (simp add: find_matches_take find_matches_skip find_matches_stop)
  moreover have "length sample_word = 5" "slice 0 5 sample_word = sample_word"
    by (simp_all add: sample_word_code slice_def)
  ultimately show ?thesis by (simp only: find_all_def) simp
qed

lemma sample_word_fold: "casefold sample_unicode sample_word = sample_word"
  by (simp add: casefold_def sample_unicode_def sample_word_code)

lemma sample_word_marks:
  "\<not> has_any sample_word conflict_markers" "\<not> has_any sample_word insufficient_markers"
  "\<not> has_any sample_word causal_markers" "\<not> has_any sample_word universal_markers"
  "\<not> has_any sample_word comparative_markers" "\<not> has_any sample_word novelty_markers"
  "g \<in> set qualifier_marker_groups \<Longrightarrow> \<not> has_any sample_word g"
  by (intro has_any_letters;
      auto simp: sample_word_code ascii_def conflict_markers_def insufficient_markers_def causal_markers_def
        universal_markers_def comparative_markers_def novelty_markers_def qualifier_marker_groups_def)+

lemma no_matches: "\<forall>i \<le> length t. rx t (length t) r (i, []) = [] \<Longrightarrow> find_matches t (length t) r p = []"
proof (induction t "length t" r p rule: find_matches.induct)
  case (1 t r p)
  then show ?case
    by (cases "length t < p") (simp_all add: find_matches_stop find_matches_skip match_at_def)
qed

lemma no_separators:
  assumes "\<forall>c \<in> set t. c \<notin> set [12290, 65281, 65311, 33, 63, 65307, 59, 65292, 44, 46]"
  shows "re_split (clause_split_re u) t = [t]"
proof -
  have "rx t (length t) (Class (\<lambda>c. c \<in> set [12290, 65281, 65311, 33, 63, 65307, 59, 65292, 44])) s = []"
    "rx t (length t) (Class (\<lambda>c. c = 46)) s = []" for s
    by (rule rx_Class_none, use assms in auto)+
  then have "rx t (length t) (clause_split_re u) (i, []) = []" for i
    by (simp add: clause_split_re_def one_char_def del: rx.simps(1) list.set)
  then have n: "find_matches t (length t) (clause_split_re u) 0 = []" by (intro no_matches) simp
  show ?thesis unfolding re_split_def n by (simp add: slice_full)
qed

lemma sample_word_fragments:
  "re_split (clause_split_re sample_unicode) sample_word = [sample_word]"
  "claim_fragments sample_unicode sample_word = [sample_word]"
proof -
  show s: "re_split (clause_split_re sample_unicode) sample_word = [sample_word]"
    by (rule no_separators) (simp add: sample_word_code)
  show "claim_fragments sample_unicode sample_word = [sample_word]"
    unfolding claim_fragments_def s by (simp add: strip_text_def sample_word_code)
qed

lemma sample_word_numbers:
  "numbers sample_unicode sample_word = {}" "number_unit_facts sample_unicode sample_word = []"
proof -
  have "\<forall>c \<in> set sample_word. \<not> uc_digit sample_unicode c"
    by (simp add: sample_word_code sample_unicode_def)
  then show "numbers sample_unicode sample_word = {}" "number_unit_facts sample_unicode sample_word = []"
    by (simp_all add: numbers_def find_all_def number_unit_facts_def no_digits_no_numbers)
qed

lemma sample_word_overlap: "core_overlap sample_unicode sample_word sample_word"
proof -
  have "strip_token sample_word = sample_word"
    by (simp add: strip_text_def sample_word_code ascii_def)
  moreover have "sample_word \<notin> set english_stopwords" "1 < length sample_word" "sample_word \<noteq> []"
    by (simp_all add: english_stopwords_def sample_word_code ascii_def)
  ultimately have "sample_word \<in> claim_latin sample_unicode sample_word"
    "sample_word \<in> evidence_latin sample_unicode sample_word"
    by (simp_all add: claim_latin_def evidence_latin_def sample_word_tokens sample_word_fold)
  then show ?thesis by (auto simp: core_overlap_def)
qed

lemma sample_word_supported: "support_failure sample_unicode sample_word sample_word = None"
  using sample_word_marks sample_word_overlap
  by (simp add: support_failure_def sample_word_fold sample_word_numbers all_claim_clauses_overlap_def
      sample_word_fragments)

lemma sample_word_no_limitation: "\<not> safe_limitation sample_unicode sample_word"
proof -
  have "trim sample_word = sample_word" "sample_word \<noteq> []"
    by (simp_all add: strip_text_def sample_word_code uspace_def)
  then show ?thesis
    using sample_word_marks(2)
    by (simp add: safe_limitation_def sample_word_fold sample_word_fragments)
qed

subsection \<open>A supported claim with another number\<close>

definition sample_count :: "nat \<Rightarrow> pytext" where
  "sample_count d = ascii ''graph 123456'' @ [48 + d]"

lemma sample_count_code: "sample_count d = [103, 114, 97, 112, 104, 32, 49, 50, 51, 52, 53, 54, 48 + d]"
  by (simp add: sample_count_def ascii_def)

lemma sample_count_length: "length (sample_count d) = 13"
  by (simp add: sample_count_def ascii_def)

lemma decimal_steps:
  "n < 10 \<Longrightarrow> decimal n = [48 + n]" "\<not> n < 10 \<Longrightarrow> decimal n = decimal (n div 10) @ [48 + n mod 10]"
  by (simp_all add: decimal.simps [of n])

lemma decimal_snoc: "0 < a \<Longrightarrow> d < 10 \<Longrightarrow> decimal (10 * a + d) = decimal a @ [48 + d]"
  using decimal_steps(2) [of "10 * a + d"] by simp

lemma sample_count_numbers:
  assumes "d < 5"
  shows "find_all (number_re sample_unicode) (sample_count d) = [decimal (10 * 123456 + d)]"
    and "find_matches (sample_count d) 13 (number_with_unit_re sample_unicode) 0 = []"
    and "find_matches (sample_count d) 13 (number_re sample_unicode) 0 = [(6, 13, [])]"
proof -
  note eval = match_at_def number_re_def number_with_unit_re_def digits_re_def fraction_re_def sign_re_def many_one_def
    optional_def one_char_def sample_unicode_def any_latin_def latin_letter_def ascii_def same_letter_def ascii_lower_def
    repeat_greedy.simps sample_count_code
  have none:
    "match_at (sample_count d) 13 (number_re sample_unicode) 0 = None"
    "match_at (sample_count d) 13 (number_re sample_unicode) 1 = None"
    "match_at (sample_count d) 13 (number_re sample_unicode) 2 = None"
    "match_at (sample_count d) 13 (number_re sample_unicode) 3 = None"
    "match_at (sample_count d) 13 (number_re sample_unicode) 4 = None"
    "match_at (sample_count d) 13 (number_re sample_unicode) 5 = None"
    "match_at (sample_count d) 13 (number_re sample_unicode) 13 = None"
    by (simp_all add: eval)
  have some: "match_at (sample_count d) 13 (number_re sample_unicode) 6 = Some (13, [])"
    using assms by (simp add: eval)
  show n: "find_matches (sample_count d) 13 (number_re sample_unicode) 0 = [(6, 13, [])]"
    using none some by (simp add: find_matches_skip find_matches_take find_matches_stop flip: numeral_2_eq_2)
  have "decimal (10 * 123456 + d) = slice 6 13 (sample_count d)" 
    using decimal_snoc [of 123456 d] assms by (simp add: decimal_steps slice_def sample_count_code)
  with n show "find_all (number_re sample_unicode) (sample_count d) = [decimal (10 * 123456 + d)]"
    by (simp add: find_all_def sample_count_length)
  have unit: 
    "rx (sample_count d) 13 (number_with_unit_re sample_unicode) (0, []) = []"
    "rx (sample_count d) 13 (number_with_unit_re sample_unicode) (1, []) = []"
    "rx (sample_count d) 13 (number_with_unit_re sample_unicode) (2, []) = []"
    "rx (sample_count d) 13 (number_with_unit_re sample_unicode) (3, []) = []"
    "rx (sample_count d) 13 (number_with_unit_re sample_unicode) (4, []) = []"
    "rx (sample_count d) 13 (number_with_unit_re sample_unicode) (5, []) = []"
    "rx (sample_count d) 13 (number_with_unit_re sample_unicode) (6, []) = []"
    "rx (sample_count d) 13 (number_with_unit_re sample_unicode) (7, []) = []"
    "rx (sample_count d) 13 (number_with_unit_re sample_unicode) (8, []) = []"
    "rx (sample_count d) 13 (number_with_unit_re sample_unicode) (9, []) = []"
    "rx (sample_count d) 13 (number_with_unit_re sample_unicode) (10, []) = []"
    "rx (sample_count d) 13 (number_with_unit_re sample_unicode) (11, []) = []"
    "rx (sample_count d) 13 (number_with_unit_re sample_unicode) (12, []) = []"
    "rx (sample_count d) 13 (number_with_unit_re sample_unicode) (13, []) = []"
    using assms by (simp_all add: eval unit_re_def unit_word_def uspace_def)
  have "i = 0 \<or> i = 1 \<or> i = 2 \<or> i = 3 \<or> i = 4 \<or> i = 5 \<or> i = 6 \<or> i = 7 \<or> i = 8 \<or> i = 9 \<or> i = 10 \<or> i = 11 \<or> i = 12 \<or> i = 13" if "i \<le> 13" for i :: nat
    using that by arith
  then have "\<forall>i \<le> 13. rx (sample_count d) 13 (number_with_unit_re sample_unicode) (i, []) = []"
    using unit by blast
  then show "find_matches (sample_count d) 13 (number_with_unit_re sample_unicode) 0 = []"
    using no_matches [of "sample_count d"] by (simp add: sample_count_length)
qed


lemma sample_count_fold: "casefold sample_unicode (sample_count d) = sample_count d" if "d < 5"
  using that by (simp add: casefold_def sample_unicode_def sample_count_code)
lemma sample_count_trim: "trim (sample_count d) = sample_count d" if "d < 5"
  using that by (simp add: strip_text_def sample_count_code uspace_def)

lemma sample_count_tokens: 
  assumes "d < 5" shows "find_all latin_token_re (sample_count d) = [sample_word]"
proof -
  note eval = match_at_def latin_token_re_def repeat_greedy.simps latin_letter_def greek_letter_def sample_count_code ascii_def
  have "match_at (sample_count d) 13 latin_token_re 0 = Some (5, [])"
    using assms by (simp add: eval)
  moreover have none: 
    "match_at (sample_count d) 13 latin_token_re 5 = None"
    "match_at (sample_count d) 13 latin_token_re 6 = None"
    "match_at (sample_count d) 13 latin_token_re 7 = None"
    "match_at (sample_count d) 13 latin_token_re 8 = None"
    "match_at (sample_count d) 13 latin_token_re 9 = None"
    "match_at (sample_count d) 13 latin_token_re 10 = None"
    "match_at (sample_count d) 13 latin_token_re 11 = None"
    "match_at (sample_count d) 13 latin_token_re 12 = None"
    "match_at (sample_count d) 13 latin_token_re 13 = None"
    using assms by (simp_all add: eval)
  ultimately have "find_matches (sample_count d) 13 latin_token_re 0 = [(0, 5, [])]"
    by (simp add: find_matches_take find_matches_skip find_matches_stop)
  moreover have "slice 0 5 (sample_count d) = sample_word"
    by (simp add: sample_count_code sample_word_code slice_def)
  ultimately show ?thesis by (simp add: find_all_def sample_count_length)
qed

lemma sample_count_overlap: 
  assumes "d < 5" "d' < 5"
  shows "core_overlap sample_unicode (sample_count d) (sample_count d')"
proof -
  have "strip_token sample_word = sample_word"
    by (simp add: strip_text_def sample_word_code ascii_def)
  moreover have "sample_word \<notin> set english_stopwords" "1 < length sample_word" "sample_word \<noteq> []"
    by (simp_all add: english_stopwords_def sample_word_code ascii_def)
  ultimately have "sample_word \<in> claim_latin sample_unicode (sample_count d)"
    "sample_word \<in> evidence_latin sample_unicode (sample_count d')"
    using assms by (simp_all add: claim_latin_def evidence_latin_def sample_count_tokens sample_word_fold)
  then show ?thesis by (auto simp: core_overlap_def)
qed
lemma sample_count_marks:
  "\<not> has_any (sample_count d) conflict_markers" "\<not> has_any (sample_count d) insufficient_markers"
  "\<not> has_any (sample_count d) causal_markers" "\<not> has_any (sample_count d) universal_markers"
  "\<not> has_any (sample_count d) comparative_markers" "\<not> has_any (sample_count d) novelty_markers"
  "g \<in> set qualifier_marker_groups \<Longrightarrow> \<not> has_any (sample_count d) g" if "d < 5"
using that
  by (intro has_any_letters;
      auto simp: sample_count_code ascii_def conflict_markers_def insufficient_markers_def causal_markers_def
        universal_markers_def comparative_markers_def novelty_markers_def qualifier_marker_groups_def)+

lemma verify_quotes_single:
  assumes "\<not> has_any (casefold u (gc_text c)) conflict_markers" and "\<not> safe_limitation u (gc_text c)"
    and "support_failure u (gc_text c) (evidence_folded u [q]) = None"
  shows "cl_status (verify_quotes u c [q]) = SUPPORTED"
  using assms by (simp add: verify_quotes_def single_quote_no_conflict)

lemma sample_count_checks:
  assumes "d < 5" and "d' < 5"
    and "numbers sample_unicode (sample_count d) \<subseteq> numbers sample_unicode (sample_count d')"
  shows "support_failure sample_unicode (sample_count d) (sample_count d') = None"
proof -
  have "claim_fragments sample_unicode (sample_count d) = [sample_count d]"
    using no_separators [of "sample_count d" sample_unicode] assms(1)
    by (simp add: claim_fragments_def strip_text_def sample_count_code)
  then have "all_claim_clauses_overlap sample_unicode (sample_count d) (sample_count d')"
    using sample_count_overlap [OF assms(1,2)] by (simp add: all_claim_clauses_overlap_def)
  moreover have "number_unit_facts sample_unicode (sample_count d) = []"
    by (simp add: number_unit_facts_def sample_count_length sample_count_numbers(2) [OF assms(1)])
  ultimately show ?thesis
    using assms sample_count_fold [OF assms(1)] sample_count_marks [OF assms(1)] by (simp add: support_failure_def Let_def)
qed

theorem seventh_digit_is_ignored_witness:
  "let c = \<lparr>gc_text = ascii ''graph 1234561'', gc_citation_ids = [1]\<rparr>;
       evidence = [[(''quote'', JStr (ascii ''graph 1234564''))]]
   in ''NUMERIC_ANCHOR_MISSING_FROM_EVIDENCE'' \<notin> set (cl_reasons (verify_claim sample_unicode c evidence)) \<and>
      cl_status (verify_claim sample_unicode c evidence) = SUPPORTED"
proof -
  let ?c = "\<lparr>gc_text = sample_count 1, gc_citation_ids = [1]\<rparr>"
    and ?e = "[[(''quote'', JStr (sample_count 4))]]"
  have q: "quote_of (item_at ?e 1) = sample_count 4" by (simp add: quote_of_def item_at_def get_def sample_count_trim)
  have f: "casefold sample_unicode (sample_count 4) = sample_count 4" by (simp add: sample_count_fold)
  have "numbers sample_unicode (sample_count 1) \<subseteq> numbers sample_unicode (sample_count 4) \<and>
      ''NUMERIC_ANCHOR_MISSING_FROM_EVIDENCE'' \<notin> set (cl_reasons (verify_claim sample_unicode ?c ?e))"
    using seventh_digit_is_ignored [OF sample_unicode_plain, of 123456 1 4 ?c 1 ?e]
      sample_count_numbers(1) [of 1] sample_count_numbers(1) [of 4]
    by (simp add: Let_def q f evidence_folded_def)
  moreover from this have "cl_status (verify_quotes sample_unicode ?c [sample_count 4]) = SUPPORTED"
    using sample_count_checks [of 1 4] sample_count_marks(1) [of 1] sample_count_fold [of 1] sample_count_numbers(3) [of 1]
    by (intro verify_quotes_single) (simp_all add: evidence_folded_def f safe_limitation_def sample_count_length)
  moreover have "\<not> blank (sample_count 1)" "sample_count 4 \<noteq> []"
    by (simp_all add: blank_def sample_count_code uspace_def)
  then have "verify_claim sample_unicode ?c ?e = verify_quotes sample_unicode ?c [sample_count 4]"
    by (simp add: verify_claim_def citation_failure_def q citations_in_order_def)
  moreover have "sample_count 1 = ascii ''graph 1234561''" "sample_count 4 = ascii ''graph 1234564''"
    by (simp_all add: sample_count_code ascii_def)
  ultimately show ?thesis by (simp add: Let_def)
qed

end
