(* ===== verification/ClaimSets.thy ===== *)
theory ClaimSets
  imports ClaimSupport
begin

text \<open>
  The evidence sets of an audit consist of current evidence: of the expected owner, active, of the
  current version of its document, and under the current identity of its chunk; at most one
  adjacent chunk is added to the cited ones.
\<close>

subsection \<open>Current evidence\<close>

definition current_item :: "audit_scope \<Rightarrow> jobject \<Rightarrow> bool" where
  "current_item a item \<longleftrightarrow>
     evidence_owner_id item = Some (JStr (as_owner_id a)) \<and>
     get item ''is_active'' = Some (JBool True) \<and> evidence_text item \<noteq> [] \<and>
     (\<exists>k d v. get item ''chunk_id'' = Some (JStr k) \<and> get item ''document_id'' = Some (JStr d) \<and>
        get item ''version_id'' = Some (JStr v) \<and> map_of (as_document_versions a) d = Some v \<and>
        map_of (as_chunk_identities a) k = Some (d, v))"

lemma valid_contract_idE:
  assumes "valid_contract_id x"
  obtains t where "x = Some (JStr t)" and "contract_text t"
  using assms by (cases x rule: valid_contract_id.cases) auto

lemma identity_failure_None:
  "identity_failure a evidence seen by_document ps = None \<Longrightarrow> p \<in> set ps \<Longrightarrow>
     current_item a (item_at evidence p)"
proof (induction ps arbitrary: seen by_document)
  case (Cons q ps)
  let ?i = "item_at evidence q"
  have valid: "valid_contract_id (get ?i ''chunk_id'')" "valid_contract_id (get ?i ''document_id'')"
    "valid_contract_id (get ?i ''version_id'')" "valid_contract_id (evidence_owner_id ?i)"
    and rest: "text_of (evidence_owner_id ?i) = as_owner_id a" "get ?i ''is_active'' = Some (JBool True)"
    "map_of (as_document_versions a) (text_of (get ?i ''document_id'')) = Some (text_of (get ?i ''version_id''))"
    "map_of (as_chunk_identities a) (text_of (get ?i ''chunk_id''))
       = Some (text_of (get ?i ''document_id''), text_of (get ?i ''version_id''))"
    "evidence_text ?i \<noteq> []"
    and tail: "\<exists>seen by_document. identity_failure a evidence seen by_document ps = None"
    using Cons.prems(1) by (auto simp: Let_def split: if_splits)
  show ?case
  proof (cases "p = q")
    case True
    with valid rest show ?thesis by (auto simp: current_item_def elim!: valid_contract_idE)
  next
    case False
    with Cons tail show ?thesis by auto
  qed
qed simp

lemma evidence_identity_failure_None:
  "evidence_identity_failure a evidence ps = None \<Longrightarrow> p \<in> set ps \<Longrightarrow> current_item a (item_at evidence p)"
  by (auto simp: evidence_identity_failure_def intro: identity_failure_None)

lemma adjacent_current:
  assumes "p \<in> set (valid_adjacent_positions a ids evidence)"
  shows "p \<notin> set ids" and "1 \<le> p" and "p \<le> int (length evidence)" and "current_item a (item_at evidence p)"
  using assms evidence_identity_failure_None [of a evidence "[p]" p]
  by (auto simp: valid_adjacent_positions_def)

subsection \<open>Records\<close>

lemma classify_fields [simp]:
  "sr_claim (classify_evidence_set u str_of c ids evidence) = c"
  "es_citation_ids (sr_set (classify_evidence_set u str_of c ids evidence)) = ids"
  by (simp_all add: classify_evidence_set_def set_record_of_def make_evidence_set_def Let_def
      split: option.splits)

lemma classify_supported:
  "sr_status (classify_evidence_set u str_of c ids evidence) = SET_SUPPORTED \<Longrightarrow>
     support_failure u (gc_text c)
       (evidence_folded u (map (\<lambda>p. evidence_text (item_at evidence p)) ids)) = None"
  by (auto simp: classify_evidence_set_def set_record_of_def fragment_status_def Let_def
      split: option.splits if_splits)

lemma with_adjacent_fields [simp]:
  "sr_claim (with_adjacent r) = sr_claim r" "sr_status (with_adjacent r) = sr_status r"
  "es_citation_ids (sr_set (with_adjacent r)) = es_citation_ids (sr_set r)"
  by (simp_all add: with_adjacent_def)

lemma insufficient_status [simp]:
  "sr_status (insufficient_evidence_set str_of c ids evidence reason) = SET_INSUFFICIENT"
  by (simp add: insufficient_evidence_set_def set_record_of_def)

text \<open>A record that says more than INSUFFICIENT classifies the cited items, or these and one more.\<close>

lemma evidence_set_cases:
  assumes "sr_status (verify_claim_evidence_set u str_of a adj evidence c) \<noteq> SET_INSUFFICIENT"
  obtains extra where "citation_failure c evidence = None"
    and "evidence_identity_failure a evidence (gc_citation_ids c) = None"
    and "length extra \<le> 1" and "set extra \<subseteq> set (valid_adjacent_positions a (gc_citation_ids c) evidence)"
    and "\<exists>r. sr_status (verify_claim_evidence_set u str_of a adj evidence c) = sr_status r \<and>
      sr_claim (verify_claim_evidence_set u str_of a adj evidence c) = c \<and>
      es_citation_ids (sr_set (verify_claim_evidence_set u str_of a adj evidence c))
        = sort (gc_citation_ids c @ extra) \<and>
      r = classify_evidence_set u str_of c (sort (gc_citation_ids c @ extra)) evidence"
proof -
  let ?ids = "gc_citation_ids c"
  let ?adj = "valid_adjacent_positions a ?ids evidence"
  let ?expand = "map (\<lambda>p. classify_evidence_set u str_of c (sort (?ids @ [p])) evidence) ?adj"
  have ok: "citation_failure c evidence = None" "evidence_identity_failure a evidence ?ids = None"
    using assms by (auto simp: verify_claim_evidence_set_def split: option.splits)
  have sorted: "sort ?ids = ?ids" using citation_failure_None(3) [OF ok(1)] by (simp add: sorted_sort_id)
  define base where "base = classify_evidence_set u str_of c ?ids evidence"
  have v: "verify_claim_evidence_set u str_of a adj evidence c =
      (if \<not> adj \<or> decided base then base
       else case find decided ?expand of None \<Rightarrow> base | Some expanded \<Rightarrow> with_adjacent expanded)"
    unfolding verify_claim_evidence_set_def base_def using ok by (simp add: Let_def)
  show thesis
  proof (cases "verify_claim_evidence_set u str_of a adj evidence c = base")
    case True
    with ok sorted show thesis by (intro that [of "[]"]) (auto simp: base_def)
  next
    case False
    with v obtain r where r: "find decided ?expand = Some r"
      "verify_claim_evidence_set u str_of a adj evidence c = with_adjacent r"
      by (auto split: if_splits option.splits)
    have "r \<in> set ?expand" using find_SomeD [OF r(1)] by simp
    then obtain p where "p \<in> set ?adj" "r = classify_evidence_set u str_of c (sort (?ids @ [p])) evidence"
      by auto
    with ok r(2) show thesis by (intro that [of "[p]"]) auto
  qed
qed

text \<open>C8. An evidence set that supports a claim, in part or in full, or shows it to be in conflict,
  holds current evidence only: every member is active, belongs to the expected owner, to the current
  version of its document and to a current chunk identity, and has text. The set is the claim's
  citations and at most one more item, and every number of a claim it supports stands in one of its
  members.
\<close>

theorem evidence_sets_are_current:
  assumes "newline_plain u"
    and "verify_claim_evidence_sets u str_of a adj claims evidence = Inr rs" and "r \<in> set rs"
    and "sr_status r \<noteq> SET_INSUFFICIENT"
  shows "sr_claim r \<in> set claims
    \<and> distinct (es_citation_ids (sr_set r)) \<and> sorted (es_citation_ids (sr_set r))
    \<and> set (gc_citation_ids (sr_claim r)) \<subseteq> set (es_citation_ids (sr_set r))
    \<and> length (es_citation_ids (sr_set r)) \<le> length (gc_citation_ids (sr_claim r)) + 1
    \<and> (\<forall>p \<in> set (es_citation_ids (sr_set r)).
         1 \<le> p \<and> p \<le> int (length evidence) \<and> current_item a (item_at evidence p))
    \<and> (sr_status r = SET_SUPPORTED \<longrightarrow> (\<forall>n \<in> numbers u (gc_text (sr_claim r)).
         \<exists>p \<in> set (es_citation_ids (sr_set r)). n \<in> numbers u (casefold u (evidence_text (item_at evidence p)))))"
proof -
  obtain c where c: "c \<in> set claims" "r = verify_claim_evidence_set u str_of a adj evidence c"
    using assms(2,3) by (auto simp: verify_claim_evidence_sets_def split: if_splits)
  let ?ids = "gc_citation_ids c"
  from assms(4) obtain extra where ok: "citation_failure c evidence = None"
    "evidence_identity_failure a evidence ?ids = None"
    and extra: "length extra \<le> 1" "set extra \<subseteq> set (valid_adjacent_positions a ?ids evidence)"
    and r: "sr_claim r = c" "es_citation_ids (sr_set r) = sort (?ids @ extra)"
    "sr_status r = sr_status (classify_evidence_set u str_of c (sort (?ids @ extra)) evidence)"
    unfolding c(2) by (rule evidence_set_cases) auto
  have adjacent: "p \<notin> set ?ids \<and> 1 \<le> p \<and> p \<le> int (length evidence) \<and> current_item a (item_at evidence p)"
    if "p \<in> set extra" for p
    using that extra(2) adjacent_current by blast
  have cited: "1 \<le> p \<and> p \<le> int (length evidence) \<and> current_item a (item_at evidence p)"
    if "p \<in> set ?ids" for p
    using citation_failure_None(5) [OF ok(1) that] evidence_identity_failure_None [OF ok(2) that] by blast
  have "distinct extra" using extra(1) by (cases extra) auto
  then have "distinct (?ids @ extra)" using citation_failure_None(4) [OF ok(1)] adjacent by auto
  moreover have "\<exists>p \<in> set (?ids @ extra). n \<in> numbers u (casefold u (evidence_text (item_at evidence p)))"
    if "sr_status r = SET_SUPPORTED" and n: "n \<in> numbers u (gc_text c)" for n
  proof -
    let ?texts = "map (\<lambda>p. evidence_text (item_at evidence p)) (sort (?ids @ extra))"
    have "support_failure u (gc_text c) (evidence_folded u ?texts) = None"
      using that(1) r(3) by (intro classify_supported) simp
    with n have "n \<in> numbers u (evidence_folded u ?texts)" using support_failure_None(1) by blast
    then show ?thesis unfolding numbers_evidence [OF assms(1)] by auto
  qed
  ultimately show ?thesis using c(1) r extra(1) adjacent cited by auto
qed

subsection \<open>Instance\<close>

definition sample_evidence :: jobject where
  "sample_evidence = [(''chunk_id'', JStr (ascii ''k1'')), (''document_id'', JStr (ascii ''d1'')),
     (''is_active'', JBool True), (''quote'', JStr sample_word), (''tenant_id'', JStr (ascii ''alice'')),
     (''version_id'', JStr (ascii ''v1''))]"

definition sample_audit_scope :: audit_scope where
  "sample_audit_scope = \<lparr>as_owner_id = ascii ''alice'', as_document_versions = [(ascii ''d1'', ascii ''v1'')],
     as_chunk_identities = [(ascii ''k1'', ascii ''d1'', ascii ''v1'')]\<rparr>"

definition sample_claim :: generated_claim where
  "sample_claim = \<lparr>gc_text = sample_word, gc_citation_ids = [1]\<rparr>"

lemma contract_text_ascii: "contract_id_ok s \<Longrightarrow> \<forall>c \<in> set s. of_char c < (128 :: nat) \<Longrightarrow> contract_text (ascii s)"
  by (simp add: contract_text_def ascii_def list_all_iff comp_def)

lemma sample_ids: "contract_text (ascii ''alice'')" "contract_text (ascii ''d1'')"
  "contract_text (ascii ''v1'')" "contract_text (ascii ''k1'')"
  by (rule contract_text_ascii; simp add: contract_id_ok_def id_head_char_def id_tail_char_def)+

lemma sample_quote: "trim sample_word = sample_word" "sample_word \<noteq> []" "\<not> blank sample_word"
  by (simp_all add: strip_text_def sample_word_code uspace_def blank_def)

lemma sample_citation: "citation_failure sample_claim [sample_evidence] = None"
  by (simp add: citation_failure_def sample_claim_def sample_quote citations_in_order_def)

lemma sample_fields:
  "get sample_evidence ''chunk_id'' = Some (JStr (ascii ''k1''))"
  "get sample_evidence ''document_id'' = Some (JStr (ascii ''d1''))"
  "get sample_evidence ''version_id'' = Some (JStr (ascii ''v1''))"
  "get sample_evidence ''is_active'' = Some (JBool True)"
  "evidence_owner_id sample_evidence = Some (JStr (ascii ''alice''))"
  "evidence_text sample_evidence = sample_word" "quote_of sample_evidence = sample_word"
  by (simp_all add: sample_evidence_def get_def evidence_owner_id_def some_value_def evidence_text_def
      quote_of_def sample_quote)

lemma sample_identity: "evidence_identity_failure sample_audit_scope [sample_evidence] [1] = None"
  by (simp add: evidence_identity_failure_def item_at_def sample_fields sample_ids sample_audit_scope_def sample_quote)

lemma sample_set_supported:
  "sr_status (verify_claim_evidence_set sample_unicode f sample_audit_scope True [sample_evidence] sample_claim)
     = SET_SUPPORTED"
proof -
  have "numeric_unit_conflicts sample_unicode [sample_word] = []" by (rule single_quote_no_conflict)
  moreover have "evidence_folded sample_unicode [sample_word] = sample_word"
    by (simp add: evidence_folded_def sample_word_fold)
  ultimately have "sr_status (classify_evidence_set sample_unicode f sample_claim [1] [sample_evidence]) = SET_SUPPORTED"
    using sample_word_marks(1) sample_word_no_limitation
    by (simp add: classify_evidence_set_def item_at_def sample_fields sample_claim_def sample_word_fold
        sample_word_supported set_record_of_def)
  moreover have "gc_citation_ids sample_claim = [1]" by (simp add: sample_claim_def)
  ultimately show ?thesis
    by (simp add: verify_claim_evidence_set_def sample_citation sample_identity decided_def Let_def)
qed

theorem evidence_sets_are_current_witness:
  "(let r = verify_claim_evidence_set sample_unicode (\<lambda>_. []) sample_audit_scope True [sample_evidence] sample_claim in
    (\<forall>p \<in> set (es_citation_ids (sr_set r)). current_item sample_audit_scope (item_at [sample_evidence] p)))"
proof -
  let ?r = "verify_claim_evidence_set sample_unicode (\<lambda>_. []) sample_audit_scope True [sample_evidence] sample_claim"
  have "verify_claim_evidence_sets sample_unicode (\<lambda>_. []) sample_audit_scope True [sample_claim] [sample_evidence]
      = Inr [?r]"
    by (simp add: verify_claim_evidence_sets_def audit_scope_ok_def sample_audit_scope_def sample_ids)
  from evidence_sets_are_current [OF sample_unicode_plain(2) this, of ?r] show ?thesis
    by (simp add: sample_set_supported)
qed

end
