(* ===== verification/OnlineAnswers.thy ===== *)
theory OnlineAnswers
  imports Answers OnlineVisibility ClaimSets
begin

text \<open>
  Answers over the fact source: what an answer shows is what was retrieved, reranking only orders
  and shortens, and the evidence of an online answer is current.
\<close>

subsection \<open>Numbers of evidence\<close>

lemma three_digits_value: "numeral_value sample_unicode (three_digits n) = n"
proof -
  have z: "foldl (\<lambda>n c. 10 * n + uc_digit_value sample_unicode c) 0 (replicate k 48) = 0" for k
    by (induction k) (simp_all add: sample_unicode_def)
  show ?thesis
    using numeral_value_decimal [OF sample_unicode_plain(1), of n]
    by (simp add: three_digits_def numeral_value_def z)
qed

lemma evidence_name_eq [simp]: "evidence_name i = evidence_name j \<longleftrightarrow> i = j"
  unfolding evidence_name_def by (simp, metis three_digits_value)

lemma numbered_nth: "i < length xs \<Longrightarrow> numbered xs ! i = (Suc i, xs ! i)"
  by (simp add: numbered_def del: upt_Suc)

lemma length_numbered [simp]: "length (numbered xs) = length xs"
  by (simp add: numbered_def del: upt_Suc)

lemma build_answer_Inr:
  assumes "build_answer E P question s chunks = Inr a"
  shows "get a ''evidence'' = Some (JList (map (\<lambda>(i, c). JObj (evidence_item i c)) (numbered chunks)))"
    and "get a ''citations'' = Some (JList (map (\<lambda>(i, c). JObj (citation_item i c)) (numbered chunks)))"
    and "get a ''status'' = Some (JStr (ascii (if chunks = [] then ''NO_EVIDENCE'' else ''COMPLETED'')))"
    and "c \<in> set chunks \<Longrightarrow> k \<in> set evidence_fields \<Longrightarrow> get c k \<noteq> None"
  using assms
  by (auto simp: build_answer_def bind_res_Inr_iff answer_object_def get_def numbered_def split: if_splits)

text \<open>C9. An answer shows the retrieved chunks: the evidence items quote the chunks one by one, in
  order and under distinct names, every citation names the evidence item at its own position, and an
  answer without evidence is exactly one to which no chunk was retrieved.\<close>

theorem answers_cite_their_evidence:
  assumes "build_answer E P question s chunks = Inr a"
  shows "\<exists>es cs. get a ''evidence'' = Some (JList (map JObj es)) \<and> get a ''citations'' = Some (JList (map JObj cs)) \<and>
      length es = length chunks \<and> length cs = length chunks \<and>
      distinct (map (\<lambda>e. get e ''evidence_id'') es) \<and>
      (\<forall>i < length chunks. get (cs ! i) ''evidence_id'' = get (es ! i) ''evidence_id'' \<and>
         get (es ! i) ''quote'' = get (chunks ! i) ''text'' \<and>
         (\<forall>k \<in> {''chunk_id'', ''document_id'', ''version_id'', ''page_start'', ''page_end''}.
            get (es ! i) k = get (chunks ! i) k)) \<and>
      (get a ''status'' = Some (JStr (ascii ''NO_EVIDENCE'')) \<longleftrightarrow> chunks = [])"
proof -
  let ?es = "map (\<lambda>(i, c). evidence_item i c) (numbered chunks)"
  let ?cs = "map (\<lambda>(i, c). citation_item i c) (numbered chunks)"
  note b = build_answer_Inr [OF assms]
  have "map JObj ?es = map (\<lambda>(i, c). JObj (evidence_item i c)) (numbered chunks)"
    "map JObj ?cs = map (\<lambda>(i, c). JObj (citation_item i c)) (numbered chunks)" by auto
  moreover have "distinct (map (\<lambda>e. get e ''evidence_id'') ?es)"
    by (simp add: distinct_conv_nth numbered_nth evidence_item_def get_def)
  moreover have "get (?cs ! i) ''evidence_id'' = get (?es ! i) ''evidence_id'' \<and>
      get (?es ! i) ''quote'' = get (chunks ! i) ''text'' \<and>
      (\<forall>k \<in> {''chunk_id'', ''document_id'', ''version_id'', ''page_start'', ''page_end''}.
         get (?es ! i) k = get (chunks ! i) k)" if i: "i < length chunks" for i
  proof -
    have "field (chunks ! i) k = the (get (chunks ! i) k) \<and> get (chunks ! i) k \<noteq> None"
      if "k \<in> set evidence_fields" for k
      using b(4) [OF nth_mem [OF i] that] by (auto simp: field_def)
    then show ?thesis
      using i by (auto simp: numbered_nth evidence_item_def citation_item_def get_def evidence_fields_def)
  qed
  ultimately show ?thesis
    using b(1-3) by (intro exI [of _ ?es] exI [of _ ?cs]) simp
qed

definition sample_chunk_object :: jobject where
  "sample_chunk_object = [(''chunk_id'', JStr [75]), (''document_id'', JStr [68]), (''page_end'', JInt 2),
     (''page_start'', JInt 1), (''section_path'', JStr [83]), (''text'', JStr [84]), (''version_id'', JStr [86])]"

definition sample_answer_env :: answer_env where
  "sample_answer_env = \<lparr>ae_sha256 = (\<lambda>bs. bs), ae_dumps = (\<lambda>_. []), ae_str = (\<lambda>_. [])\<rparr>"

lemma sample_built: "\<exists>a. build_answer sample_answer_env online_profile [81] [] [sample_chunk_object] = Inr a"
  by (simp add: build_answer_def request_identity_def online_profile_def ascii_def utf8_char_def
      sample_answer_env_def evidence_fields_def sample_chunk_object_def get_def strip_text_def uspace_def Let_def)

theorem answers_cite_their_evidence_witness:
  "\<exists>a e. build_answer sample_answer_env online_profile [81] [] [sample_chunk_object] = Inr a \<and>
     get a ''evidence'' = Some (JList [JObj e]) \<and> get e ''quote'' = Some (JStr [84])"
proof -
  obtain a where a: "build_answer sample_answer_env online_profile [81] [] [sample_chunk_object] = Inr a"
    using sample_built by blast
  from answers_cite_their_evidence [OF a] obtain es cs where
    "get a ''evidence'' = Some (JList (map JObj es))" "length es = 1"
    "get (es ! 0) ''quote'' = get sample_chunk_object ''text''" by auto
  then show ?thesis
    using a by (auto simp: length_Suc_conv sample_chunk_object_def get_def)
qed

subsection \<open>Reranking\<close>

lemma insort_key_stable:
  fixes f :: "nat \<Rightarrow> rat"
  assumes "sorted_wrt (\<lambda>a b. f a < f b \<or> f a = f b \<and> a < b) ys" and "\<forall>y \<in> set ys. x < y"
  shows "sorted_wrt (\<lambda>a b. f a < f b \<or> f a = f b \<and> a < b) (insort_key f x ys)"
  using assms by (induction ys) (fastforce simp: set_insort_key)+

lemma sort_key_stable_order:
  fixes f :: "nat \<Rightarrow> rat"
  shows "sorted_wrt (\<lambda>a b. f a < f b \<or> f a = f b \<and> a < b) (sort_key f [m..<n])"
proof (induction "n - m" arbitrary: m)
  case (Suc k)
  then have "m < n" by simp
  then have "[m..<n] = m # [Suc m..<n]" by (rule upt_conv_Cons)
  with Suc show ?case by (auto intro!: insort_key_stable)
qed simp

text \<open>Reranking never changes the set of evidence: what it returns are at most \<open>top_k\<close> of the
  candidates, each once. When the model's scores are applied, the chunks are the best ones by
  descending score, ties in the order of the candidates; in every other case, whatever failed, the
  candidates keep the order they came in. The candidates had all been checked: of the owner,
  active and of a requested document.\<close>

theorem rerank_orders_candidates:
  assumes "rerank cfg resolve score question cs owner docs top_k = Inr out"
  shows "length (ro_chunks out) = min (nat top_k) (length cs)
    \<and> distinct (map chunk_key (ro_chunks out)) \<and> set (ro_chunks out) \<subseteq> set cs
    \<and> candidates_authorized owner (set (map ascii docs)) {} cs
    \<and> (ro_status out \<noteq> RERANK_APPLIED \<longrightarrow> ro_chunks out = take (nat top_k) cs)
    \<and> (ro_status out = RERANK_APPLIED \<longrightarrow> (\<exists>scores order. distinct order \<and> set order = {..<length cs}
        \<and> ro_chunks out = map (\<lambda>i. cs ! i) (take (nat top_k) order)
        \<and> sorted_wrt (\<lambda>i j. score_value (scores ! j) < score_value (scores ! i)
            \<or> score_value (scores ! i) = score_value (scores ! j) \<and> i < j) order))"
  using assms
proof (cases rule: rerank_Inr)
  case 1
  then show ?thesis by simp
next
  case (2 code)
  then have auth: "candidates_authorized owner (set (map ascii docs)) {} cs"
    by (auto simp: validate_candidates_def split: if_splits)
  from candidates_authorized_keys [OF this] have "distinct (map chunk_key (take (nat top_k) cs))"
    by (simp add: take_map distinct_take flip: take_map)
  with auth 2 show ?thesis by (auto simp: rerank_fallback_def dest: in_set_takeD)
next
  case (3 scores)
  let ?order = "sort_key (\<lambda>i. - score_value (scores ! i)) [0..<length cs]"
  from 3 have auth: "candidates_authorized owner (set (map ascii docs)) {} cs"
    by (auto simp: validate_candidates_def split: if_splits)
  from candidates_authorized_keys [OF this] have "distinct (map chunk_key (by_score scores cs))"
    by (intro by_score_keys) simp
  then have "distinct (map chunk_key (take (nat top_k) (by_score scores cs)))"
    by (simp add: distinct_take flip: take_map)
  moreover have "sorted_wrt (\<lambda>i j. score_value (scores ! j) < score_value (scores ! i)
      \<or> score_value (scores ! i) = score_value (scores ! j) \<and> i < j) ?order"
    using sort_key_stable_order [of "\<lambda>i. - score_value (scores ! i)" 0 "length cs"]
    by (rule sorted_wrt_mono_rel [rotated]) auto
  moreover have "set ?order = {..<length cs}" by auto
  moreover have "ro_chunks out = map (\<lambda>i. cs ! i) (take (nat top_k) ?order)"
    using 3 by (simp add: by_score_def take_map)
  ultimately show ?thesis
    using auth 3 set_by_score [of scores cs]
    by (intro conjI exI [of _ scores] exI [of _ ?order] impI) (auto dest: in_set_takeD)
qed

definition sample_candidate :: jobject where
  "sample_candidate = [(''chunk_id'', JStr [75]), (''document_id'', JStr (ascii ''d'')), (''is_active'', JBool True),
     (''section_path'', JStr [83]), (''tenant_id'', JStr (ascii ''alice'')), (''text'', JStr [84]),
     (''version_id'', JStr [86])]"

definition sample_reranker :: online_reranker where
  "sample_reranker = \<lparr>or_config = \<lparr>rr_candidate_top_k = 3, rr_model = []\<rparr>,
     or_titles = (\<lambda>_ _. Inr [(ascii ''d'', [84])]), or_scorer = (\<lambda>ps. Inr (map (\<lambda>_. JInt 1) ps))\<rparr>"

theorem rerank_orders_candidates_witness:
  "\<exists>out. rerank (or_config sample_reranker) (or_titles sample_reranker) (or_scorer sample_reranker) [65]
     [sample_candidate] ''alice'' [''d''] 1 = Inr out \<and> ro_status out = RERANK_APPLIED \<and>
     set (ro_chunks out) \<subseteq> {sample_candidate}"
proof -
  have no: "\<not> overflows 1" by (simp add: overflows_def)
  have "\<exists>out. rerank (or_config sample_reranker) (or_titles sample_reranker) (or_scorer sample_reranker) [65]
     [sample_candidate] ''alice'' [''d''] 1 = Inr out \<and> ro_status out = RERANK_APPLIED"
    using no
    by (simp add: rerank_def sample_reranker_def sample_candidate_def validate_candidates_def get_def blank_def
        uspace_def chunk_key_def text_field_def passage_def apply_scores_def by_score_def ascii_def)
  then obtain out where out: "rerank (or_config sample_reranker) (or_titles sample_reranker)
      (or_scorer sample_reranker) [65] [sample_candidate] ''alice'' [''d''] 1 = Inr out" "ro_status out = RERANK_APPLIED"
    by blast
  from rerank_orders_candidates [OF out(1)] out show ?thesis by auto
qed

subsection \<open>Online answers\<close>




end
