(* ===== verification/Generation.thy ===== *)
theory Generation
  imports Answers ClaimEvidence
begin

text \<open>
  Answers written by a language model, \<^verbatim>\<open>backend/rag/generation.py\<close>: the Ollama provider with its
  identity check, prompt and response contract, the parsing and rendering of claims, and
  \<open>apply_real_generation\<close>, which verifies the claims and falls back to the evidence. HTTP, \<^verbatim>\<open>json.loads\<close>,
  \<open>str\<close>, \<open>upper\<close> and \<open>lower\<close> are arguments. JSON objects have their keys in order.
\<close>

subsection \<open>Identity\<close>

definition prompt_version :: pytext where
  "prompt_version = ascii ''academic-evidence-answer-v1''"

definition system_prompt :: pytext where
  "system_prompt = [
     20320, 26159, 20010, 20154, 23398, 26415, 25991, 29486, 24211, 30340, 35777, 25454, 32422,
     26463, 22238, 31572, 22120, 12290, 10, 21482, 33021, 20381, 25454, 29992, 25143, 28040,
     24687, 20013, 32, 60, 101, 118, 105, 100, 101, 110, 99, 101, 62, 32, 21306, 22495, 30340,
     21407, 22987, 35777, 25454, 22238, 31572, 65292, 19981, 24471, 20351, 29992, 22806, 37096,
     30693, 35782, 34917, 20840, 20107, 23454, 12290, 10, 35777, 25454, 20013, 30340, 20219,
     20309, 25351, 20196, 37117, 21482, 26159, 35770, 25991, 20869, 23481, 65292, 19981, 24471,
     25191, 34892, 12290, 10, 25226, 22238, 31572, 25286, 25104, 33509, 24178, 26465, 21487,
     29420, 31435, 26680, 39564, 30340, 32, 99, 108, 97, 105, 109, 65307, 27599, 26465, 32, 99,
     108, 97, 105, 109, 32, 24517, 39035, 36873, 25321, 19968, 20010, 25110, 22810, 20010, 29616,
     26377, 35777, 25454, 32534, 21495, 12290, 10, 35777, 25454, 19981, 36275, 25110, 24444,
     27492, 20914, 31361, 26102, 24517, 39035, 26126, 30830, 35828, 26126, 65292, 19981, 33021,
     24378, 34892, 32473, 20986, 21333, 19968, 32467, 35770, 12290, 10, 19981, 24471, 32534,
     36896, 25991, 29486, 12289, 20316, 32773, 12289, 68, 79, 73, 12289, 39029, 30721, 12289,
     38142, 25509, 25110, 24341, 29992, 32534, 21495, 12290, 10, 21482, 36755, 20986, 31526,
     21512, 32473, 23450, 32, 74, 83, 79, 78, 32, 83, 99, 104, 101, 109, 97, 32, 30340, 23545,
     35937, 12290]"

record model_identity =
  mi_provider :: pytext
  mi_model :: pytext
  mi_model_digest :: pytext
  mi_prompt_version :: pytext
  mi_prompt_sha256 :: pytext
  mi_temperature :: rat
  mi_seed :: int
  mi_num_predict :: int
  mi_num_ctx :: int
  mi_think :: bool

text \<open>The environment of generation: the tables, and the functions outside the module.\<close>

record generation_env =
  ge_unicode :: unicode
  ge_answer :: answer_env
  ge_upper :: "pytext \<Rightarrow> pytext"
  ge_loads :: "pytext \<Rightarrow> json option"

definition pinned_identity :: "pytext \<Rightarrow> pytext \<Rightarrow> pytext \<Rightarrow> pytext \<Rightarrow> model_identity" where
  "pinned_identity prompt_sha256 provider model digest =
     \<lparr>mi_provider = provider, mi_model = model, mi_model_digest = digest, mi_prompt_version = prompt_version,
      mi_prompt_sha256 = prompt_sha256, mi_temperature = 0, mi_seed = 42, mi_num_predict = 384,
      mi_num_ctx = 8192, mi_think = False\<rparr>"

definition replace_chars :: "nat list \<Rightarrow> pytext \<Rightarrow> pytext" where
  "replace_chars cs t = map (\<lambda>c. if c \<in> set cs then 95 else c) t"

definition execution_boundary :: "generation_env \<Rightarrow> model_identity \<Rightarrow> pytext" where
  "execution_boundary G i =
     ascii ''REAL_GENERATION_'' @ ge_upper G (mi_provider i) @ [95] @
     replace_chars [58, 46] (ge_upper G (mi_model i)) @ [95] @ ge_upper G (take 12 (mi_model_digest i)) @
     ascii ''_THINK_'' @ (if mi_think i then ascii ''TRUE'' else ascii ''FALSE'') @ [95] @
     replace_chars [45] (ge_upper G (mi_prompt_version i))"

subsection \<open>Failures\<close>

definition generation_failure_codes :: "string list" where
  "generation_failure_codes = [
     ''OLLAMA_REQUEST_FAILED'', ''OLLAMA_RESPONSE_INVALID'',
     ''OLLAMA_MODEL_LIST_REQUEST_FAILED'', ''OLLAMA_MODEL_LIST_RESPONSE_INVALID'',
     ''OLLAMA_MODEL_NOT_FOUND'', ''OLLAMA_MODEL_DIGEST_MISMATCH'',
     ''OLLAMA_CHAT_REQUEST_FAILED'', ''OLLAMA_CHAT_RESPONSE_INVALID'',
     ''OLLAMA_CHAT_MODEL_IDENTITY_MISMATCH'', ''OLLAMA_CHAT_INCOMPLETE'',
     ''OLLAMA_ANSWER_JSON_INVALID'', ''OLLAMA_ANSWER_SCHEMA_INVALID'',
     ''OLLAMA_ANSWER_CITATION_INVALID'', ''GENERATION_RESULT_IDENTITY_MISMATCH'',
     ''GENERATION_RESULT_CLAIMS_MISSING'', ''GENERATED_ANSWER_CITATION_INVALID'',
     ''UNCLASSIFIED_GENERATION_FAILURE'']"

text \<open>A coded failure, or any other exception.\<close>

datatype generation_error = Generation_Error string | Generation_Other

text \<open>The constructor of the exception refuses codes that are not listed.\<close>

definition generation_error :: "string \<Rightarrow> generation_error" where
  "generation_error code = (if code \<in> set generation_failure_codes then Generation_Error code else Generation_Other)"

subsection \<open>Claims\<close>

definition citation_re :: "unicode \<Rightarrow> regex" where
  "citation_re u = Cat (one_char 91) (Cat Mark (Cat (many_one (Class (uc_digit u))) (Cat Mark (one_char 93))))"

definition no_citation_mark :: "unicode \<Rightarrow> pytext \<Rightarrow> bool" where
  "no_citation_mark u t \<longleftrightarrow> find_matches t (length t) (citation_re u) 0 = []"

fun json_ints :: "json list \<Rightarrow> int list option" where
  "json_ints [] = Some []"
| "json_ints (JInt i # xs) = map_option (Cons i) (json_ints xs)"
| "json_ints (x # xs) = None"

definition parse_claim :: "unicode \<Rightarrow> nat \<Rightarrow> json \<Rightarrow> generation_error + generated_claim" where
  "parse_claim u evidence_count v =
     (let invalid = Inl (generation_error ''OLLAMA_ANSWER_SCHEMA_INVALID'') in
      case v of JObj d \<Rightarrow>
        if set (map fst d) \<noteq> {''text'', ''citation_ids''} then invalid
        else (case (get d ''text'', get d ''citation_ids'') of
          (Some (JStr t), Some (JList ids)) \<Rightarrow>
            if blank t \<or> 2000 < length (trim t) \<or> \<not> no_citation_mark u t \<or> ids = [] then invalid
            else (case json_ints ids of None \<Rightarrow> invalid
              | Some positions \<Rightarrow>
                  if \<exists>p \<in> set positions. p < 1 \<or> int evidence_count < p
                  then Inl (generation_error ''OLLAMA_ANSWER_CITATION_INVALID'')
                  else Inr \<lparr>gc_text = trim t, gc_citation_ids = sort (remdups positions)\<rparr>)
        | _ \<Rightarrow> invalid)
      | _ \<Rightarrow> invalid)"

fun parse_claim_list :: "unicode \<Rightarrow> nat \<Rightarrow> json list \<Rightarrow> generation_error + generated_claim list" where
  "parse_claim_list u n [] = Inr []"
| "parse_claim_list u n (v # vs) = bind_res (parse_claim u n v) (\<lambda>c.
     bind_res (parse_claim_list u n vs) (\<lambda>cs. Inr (c # cs)))"

definition parse_claims :: "unicode \<Rightarrow> nat \<Rightarrow> json \<Rightarrow> generation_error + generated_claim list" where
  "parse_claims u evidence_count payload =
     (let invalid = Inl (generation_error ''OLLAMA_ANSWER_SCHEMA_INVALID'') in
      case payload of JObj d \<Rightarrow>
        if set (map fst d) \<noteq> {''claims''} then invalid
        else (case get d ''claims'' of
          Some (JList claims) \<Rightarrow>
            if length claims < 1 \<or> 8 < length claims then invalid
            else parse_claim_list u evidence_count claims
        | _ \<Rightarrow> invalid)
      | _ \<Rightarrow> invalid)"

definition int_text :: "int \<Rightarrow> pytext" where
  "int_text i = (if i < 0 then 45 # decimal (nat (- i)) else decimal (nat i))"

definition citation_mark :: "int \<Rightarrow> pytext" where
  "citation_mark p = [91] @ int_text p @ [93]"

definition render_claim :: "generated_claim \<Rightarrow> pytext" where
  "render_claim c = gc_text c @ [32] @ concat (map citation_mark (gc_citation_ids c))"

definition render_claims :: "generated_claim list \<Rightarrow> generation_error + pytext" where
  "render_claims claims = (let answer = join [10] (map render_claim claims) in
     if 8000 < length answer then Inl (generation_error ''OLLAMA_ANSWER_SCHEMA_INVALID'') else Inr answer)"

text \<open>\<open>int\<close> refuses more than 4300 digits.\<close>

definition cited_numbers :: "unicode \<Rightarrow> pytext \<Rightarrow> generation_error + int list" where
  "cited_numbers u answer =
     (let values = map (\<lambda>(s, e, ms). slice (ms ! 0) (ms ! 1) answer)
        (find_matches answer (length answer) (citation_re u) 0)
      in if \<exists>v \<in> set values. 4300 < length v then Inl Generation_Other
         else Inr (map (\<lambda>v. int (numeral_value u v)) values))"

definition validated_citation_positions :: "unicode \<Rightarrow> pytext \<Rightarrow> nat \<Rightarrow> generation_error + int list" where
  "validated_citation_positions u answer evidence_count =
     bind_res (cited_numbers u answer) (\<lambda>positions.
     if positions = [] then Inl (generation_error ''GENERATED_ANSWER_CITATION_INVALID'')
     else if \<exists>p \<in> set positions. p < 1 \<or> int evidence_count < p
     then Inl (generation_error ''GENERATED_ANSWER_CITATION_INVALID'')
     else Inr (sort (remdups positions)))"

subsection \<open>The Ollama provider\<close>

record generation_result =
  gr_answer :: pytext
  gr_identity :: model_identity
  gr_claims :: "generated_claim list"
  gr_prompt_eval_count :: "json option"
  gr_eval_count :: "json option"

record ollama =
  ol_model :: pytext
  ol_expected_digest :: pytext
  ol_base_url :: pytext

text \<open>\<open>lower\<close> is an argument; the time-out is a float.\<close>

definition starts_with :: "pytext \<Rightarrow> pytext \<Rightarrow> bool" where
  "starts_with p t \<longleftrightarrow> take (length p) t = p"

definition ollama_provider :: "(pytext \<Rightarrow> pytext) \<Rightarrow> pytext \<Rightarrow> pytext \<Rightarrow> pytext \<Rightarrow> rat \<Rightarrow> unit + ollama" where
  "ollama_provider lower model expected_digest base_url timeout_seconds =
     (let digest = lower (trim expected_digest) in
      if blank model then Inl ()
      else if length digest \<noteq> 64 \<or> \<not> lower_hex digest then Inl ()
      else if \<not> starts_with (ascii ''http://'') base_url \<and> \<not> starts_with (ascii ''https://'') base_url then Inl ()
      else if timeout_seconds \<le> 0 then Inl ()
      else Inr \<lparr>ol_model = trim model, ol_expected_digest = digest,
        ol_base_url = rev (dropWhile (\<lambda>c. c = 47) (rev base_url))\<rparr>)"

definition prompt_sha256 :: "answer_env \<Rightarrow> pytext" where
  "prompt_sha256 E = ae_sha256 E (the (utf8 system_prompt))"

definition configured_identity :: "generation_env \<Rightarrow> ollama \<Rightarrow> model_identity" where
  "configured_identity G P =
     pinned_identity (prompt_sha256 (ge_answer G)) (ascii ''ollama'') (ol_model P) (ol_expected_digest P)"

definition request_failure_codes :: "string \<Rightarrow> string \<times> string" where
  "request_failure_codes path =
     (if path = ''/api/tags'' then (''OLLAMA_MODEL_LIST_REQUEST_FAILED'', ''OLLAMA_MODEL_LIST_RESPONSE_INVALID'')
      else if path = ''/api/chat'' then (''OLLAMA_CHAT_REQUEST_FAILED'', ''OLLAMA_CHAT_RESPONSE_INVALID'')
      else (''OLLAMA_REQUEST_FAILED'', ''OLLAMA_RESPONSE_INVALID''))"

text \<open>A response is the parsed body, \<open>None\<close> where it is no JSON text; \<open>Inl ()\<close> is a failed request.\<close>

type_synonym 'w http = "pytext \<Rightarrow> jobject option \<Rightarrow> ('w, unit, json option) call"

definition ollama_request ::
  "'w http \<Rightarrow> ollama \<Rightarrow> string \<Rightarrow> jobject option \<Rightarrow> ('w, generation_error, jobject) call" where
  "ollama_request http P path payload w =
     (let (request_failure, response_failure) = request_failure_codes path in
      case http (ol_base_url P @ ascii path) payload w of
        (Inl _, w') \<Rightarrow> (Inl (generation_error request_failure), w')
      | (Inr (Some (JObj d)), w') \<Rightarrow> (Inr d, w')
      | (Inr _, w') \<Rightarrow> (Inl (generation_error response_failure), w'))"

definition latest :: pytext where "latest = ascii '':latest''"

definition model_aliases :: "pytext \<Rightarrow> pytext list" where
  "model_aliases name =
     (if length latest \<le> length name \<and> drop (length name - length latest) name = latest
      then [name, take (length name - length latest) name] else [name, name @ latest])"

text \<open>A name that cannot be hashed raises where it is looked up in the set of aliases.\<close>

fun installed_model :: "(pytext \<Rightarrow> pytext) \<Rightarrow> ollama \<Rightarrow> json list \<Rightarrow> generation_error + unit" where
  "installed_model lower P [] = Inl (generation_error ''OLLAMA_MODEL_NOT_FOUND'')"
| "installed_model lower P (m # ms) =
     (case m of JObj d \<Rightarrow>
        (case get d ''name'' of Some (JStr n) \<Rightarrow>
           if n \<notin> set (model_aliases (ol_model P)) then installed_model lower P ms
           else (case get d ''digest'' of Some (JStr digest) \<Rightarrow>
               if lower digest \<noteq> ol_expected_digest P
               then Inl (generation_error ''OLLAMA_MODEL_DIGEST_MISMATCH'') else Inr ()
             | _ \<Rightarrow> Inl (generation_error ''OLLAMA_MODEL_NOT_FOUND''))
         | Some (JList _) \<Rightarrow> Inl Generation_Other
         | Some (JObj _) \<Rightarrow> Inl Generation_Other
         | _ \<Rightarrow> installed_model lower P ms)
      | _ \<Rightarrow> installed_model lower P ms)"

definition verify_live_identity ::
  "generation_env \<Rightarrow> (pytext \<Rightarrow> pytext) \<Rightarrow> 'w http \<Rightarrow> ollama \<Rightarrow> ('w, generation_error, model_identity) call" where
  "verify_live_identity G lower http P =
     call_bind (ollama_request http P ''/api/tags'' None) (\<lambda>d.
     case get d ''models'' of Some (JList models) \<Rightarrow>
         call_bind (lift_call (installed_model lower P models)) (\<lambda>_. call_return (configured_identity G P))
     | _ \<Rightarrow> call_raise (generation_error ''OLLAMA_MODEL_LIST_RESPONSE_INVALID''))"

definition prompt_fields :: "string list" where
  "prompt_fields = [''document_id'', ''version_id'', ''chunk_id'', ''section_path'', ''page_start'', ''page_end'', ''quote'']"

definition evidence_block :: "(json \<Rightarrow> pytext) \<Rightarrow> nat \<Rightarrow> jobject \<Rightarrow> pytext" where
  "evidence_block str_of position item =
     (let f = \<lambda>k. text_form str_of (field item k) in
      join [10] [[91] @ decimal position @ [93], ascii ''document_id: '' @ f ''document_id'',
        ascii ''version_id: '' @ f ''version_id'', ascii ''chunk_id: '' @ f ''chunk_id'',
        ascii ''section: '' @ f ''section_path'',
        ascii ''pages: '' @ f ''page_start'' @ [45] @ f ''page_end'', ascii ''content: '' @ f ''quote''])"

fun objects :: "json list \<Rightarrow> jobject list option" where
  "objects [] = Some []"
| "objects (JObj d # vs) = map_option (Cons d) (objects vs)"
| "objects (v # vs) = None"

definition build_user_prompt :: "(json \<Rightarrow> pytext) \<Rightarrow> pytext \<Rightarrow> json list \<Rightarrow> generation_error + pytext" where
  "build_user_prompt str_of question evidence =
     (case objects evidence of None \<Rightarrow> Inl Generation_Other
      | Some items \<Rightarrow>
          if \<exists>d \<in> set items. \<exists>k \<in> set prompt_fields. get d k = None then Inl Generation_Other
          else Inr (ascii ''<question>'' @ [10] @ trim question @ [10] @ ascii ''</question>'' @ [10] @
            ascii ''<evidence>'' @ [10] @
            join [10, 10] (map (\<lambda>(i, d). evidence_block str_of i d) (numbered items)) @ [10] @
            ascii ''</evidence>''))"

definition json_ascii :: "string \<Rightarrow> json" where
  "json_ascii s = JStr (ascii s)"

definition answer_schema :: json where
  "answer_schema =
     (let positions = JObj [(''items'', JObj [(''minimum'', JInt 1), (''type'', json_ascii ''integer'')]),
            (''minItems'', JInt 1), (''type'', json_ascii ''array'')];
          claim = JObj [(''additionalProperties'', JBool False),
            (''properties'', JObj [(''citation_ids'', positions),
               (''text'', JObj [(''type'', json_ascii ''string'')])]),
            (''required'', JList [json_ascii ''text'', json_ascii ''citation_ids'']),
            (''type'', json_ascii ''object'')]
      in JObj [(''additionalProperties'', JBool False),
           (''properties'', JObj [(''claims'', JObj [(''items'', claim), (''maxItems'', JInt 8),
              (''minItems'', JInt 1), (''type'', json_ascii ''array'')])]),
           (''required'', JList [json_ascii ''claims'']), (''type'', json_ascii ''object'')])"

definition chat_payload :: "ollama \<Rightarrow> pytext \<Rightarrow> jobject" where
  "chat_payload P prompt =
     [(''format'', answer_schema),
      (''messages'', JList [JObj [(''content'', JStr system_prompt), (''role'', json_ascii ''system'')],
         JObj [(''content'', JStr prompt), (''role'', json_ascii ''user'')]]),
      (''model'', JStr (ol_model P)),
      (''options'', JObj [(''num_ctx'', JInt 8192), (''num_predict'', JInt 384), (''seed'', JInt 42),
         (''temperature'', JFloat (Some 0))]),
      (''stream'', JBool False), (''think'', JBool False)]"

definition optional_count :: "json option \<Rightarrow> json option" where
  "optional_count v = (if is_int v \<and> 0 \<le> int_of v then v else None)"

definition read_chat_response ::
  "generation_env \<Rightarrow> ollama \<Rightarrow> model_identity \<Rightarrow> nat \<Rightarrow> jobject \<Rightarrow> generation_error + generation_result" where
  "read_chat_response G P identity evidence_count d =
     (case get d ''model'' of
        Some (JStr m) \<Rightarrow>
          if m \<notin> set (model_aliases (ol_model P))
          then Inl (generation_error ''OLLAMA_CHAT_MODEL_IDENTITY_MISMATCH'')
          else (case Option.bind (fields_of (get d ''message'')) (\<lambda>message. get message ''content'') of
              Some (JStr content) \<Rightarrow>
                if get d ''done'' \<noteq> Some (JBool True) then Inl (generation_error ''OLLAMA_CHAT_INCOMPLETE'')
                else (case ge_loads G content of None \<Rightarrow> Inl (generation_error ''OLLAMA_ANSWER_JSON_INVALID'')
                  | Some generated \<Rightarrow>
                      bind_res (parse_claims (ge_unicode G) evidence_count generated) (\<lambda>claims.
                      bind_res (render_claims claims) (\<lambda>answer.
                      Inr \<lparr>gr_answer = answer, gr_identity = identity, gr_claims = claims,
                        gr_prompt_eval_count = optional_count (get d ''prompt_eval_count''),
                        gr_eval_count = optional_count (get d ''eval_count'')\<rparr>)))
            | _ \<Rightarrow> Inl (generation_error ''OLLAMA_CHAT_INCOMPLETE''))
      | _ \<Rightarrow> Inl (generation_error ''OLLAMA_CHAT_MODEL_IDENTITY_MISMATCH''))"

definition ollama_generate ::
  "generation_env \<Rightarrow> (pytext \<Rightarrow> pytext) \<Rightarrow> 'w http \<Rightarrow> ollama \<Rightarrow> pytext \<Rightarrow> json list \<Rightarrow>
     ('w, generation_error, generation_result) call" where
  "ollama_generate G lower http P question evidence =
     (if blank question \<or> evidence = [] then call_raise Generation_Other
      else call_bind (verify_live_identity G lower http P) (\<lambda>identity.
        call_bind (lift_call (build_user_prompt (ae_str (ge_answer G)) question evidence)) (\<lambda>prompt.
        call_bind (ollama_request http P ''/api/chat'' (Some (chat_payload P prompt))) (\<lambda>d.
        lift_call (read_chat_response G P identity (length evidence) d)))))"

subsection \<open>Applying generation to an answer\<close>

definition degraded_text :: pytext where
  "degraded_text = [
     30495, 23454, 29983, 25104, 27169, 22411, 26410, 36890, 36807, 26412, 27425, 38376, 31105,
     65307, 24050, 20445, 30041, 32463, 36807, 25480, 26435, 21644, 29256, 26412, 26657, 39564,
     30340, 35777, 25454, 21345, 12290]"

definition degraded_answer :: "jobject \<Rightarrow> pytext \<Rightarrow> jobject" where
  "degraded_answer base warning =
     put_field (put_field (put_field base ''status'' (json_ascii ''DEGRADED''))
       ''answer'' (JStr degraded_text)) ''warnings'' (JList [JStr warning])"

text \<open>A claim that reaches its quotes and cites an item that is no object raises.\<close>

definition citation_raises :: "json list \<Rightarrow> generated_claim \<Rightarrow> bool" where
  "citation_raises evidence c \<longleftrightarrow> citation_failure c evidence = None \<and>
     (\<exists>p \<in> set (gc_citation_ids c). fields_of (Some (evidence ! nat (p - 1))) = None)"

definition item_fields :: "json \<Rightarrow> jobject" where
  "item_fields v = (case v of JObj d \<Rightarrow> d | _ \<Rightarrow> [])"

record verified_answer =
  va_records :: "claim_record list"
  va_text :: pytext
  va_positions :: "int list"

text \<open>The body of the try block: \<open>Inl warning_suffix\<close> is a degraded answer.\<close>

definition verified_generation ::
  "generation_env \<Rightarrow> bool \<Rightarrow> model_identity \<Rightarrow> json list \<Rightarrow> unit + generation_result \<Rightarrow> string + verified_answer"
where
  "verified_generation G enforce identity evidence generated =
     (let failed = Inl ''_FAILED_CLOSED_EVIDENCE_ONLY'' in
      case generated of Inl _ \<Rightarrow> failed
      | Inr result \<Rightarrow>
          if gr_identity result \<noteq> identity \<or> gr_claims result = [] then failed
          else if \<exists>c \<in> set (gr_claims result). citation_raises evidence c then failed
          else
            (let records = verify_claim_evidence (ge_unicode G) (gr_claims result) (map item_fields evidence);
                 kept = (if enforce then retained_claims records else gr_claims result)
             in if enforce \<and> kept = [] then Inl ''_CLAIM_EVIDENCE_FAILED_CLOSED_EVIDENCE_ONLY''
                else case bind_res (render_claims kept) (\<lambda>t.
                    bind_res (validated_citation_positions (ge_unicode G) t (length evidence)) (\<lambda>ps.
                    Inr \<lparr>va_records = records, va_text = t, va_positions = ps\<rparr>)) of
                  Inl _ \<Rightarrow> failed
                | Inr v \<Rightarrow> Inr v))"

definition warning_suffix :: "bool \<Rightarrow> claim_record list \<Rightarrow> string" where
  "warning_suffix enforce records =
     ''CITATION_IDS_VALIDATED_'' @
     (if \<not> enforce then
        ''CLAIM_EVIDENCE_AUDIT_'' @ (if \<exists>r \<in> set records. cl_status r = UNSUPPORTED then ''FAILED'' else ''PASS'') @
        ''_NOT_ENFORCED''
      else if is_partial_answer records then ''CLAIM_EVIDENCE_PARTIAL_ANSWER_UNSUPPORTED_DROPPED''
      else if \<exists>r \<in> set records. cl_status r = CONFLICTING then ''CLAIM_EVIDENCE_CONFLICT_DISCLOSED''
      else if \<forall>r \<in> set records. cl_status r = INSUFFICIENT then ''CLAIM_EVIDENCE_SAFE_LIMITATION''
      else ''CLAIM_EVIDENCE_VALIDATED'')"

definition completed_answer :: "jobject \<Rightarrow> pytext \<Rightarrow> json list \<Rightarrow> pytext \<Rightarrow> jobject" where
  "completed_answer base answer citations warning =
     put_field (put_field (put_field (put_field base ''status'' (json_ascii ''COMPLETED''))
       ''answer'' (JStr answer)) ''citations'' (JList citations)) ''warnings'' (JList [JStr warning])"

definition apply_real_generation ::
  "generation_env \<Rightarrow> model_identity \<Rightarrow> (pytext \<Rightarrow> json list \<Rightarrow> unit + generation_result) \<Rightarrow> bool \<Rightarrow>
     pytext \<Rightarrow> jobject \<Rightarrow> jobject \<Rightarrow> answer_error + jobject"
where
  "apply_real_generation G identity generate enforce question s base =
     (let boundary = execution_boundary G identity in
      bind_res (request_identity (ge_answer G) question s boundary) (\<lambda>(request_id, trace_id).
      let answer = put_field (put_field base ''request_id'' (JStr request_id)) ''trace_id'' (JStr trace_id) in
      case get answer ''evidence'' of
        Some (JList evidence) \<Rightarrow>
          if get answer ''status'' = Some (json_ascii ''NO_EVIDENCE'') \<or> evidence = [] then
            Inr (put_field answer ''warnings'' (JList [JStr (boundary @ ascii ''_NOT_CALLED_NO_EVIDENCE'')]))
          else (case verified_generation G enforce identity evidence (generate question evidence) of
              Inl suffix \<Rightarrow> Inr (degraded_answer answer (boundary @ ascii suffix))
            | Inr v \<Rightarrow>
                (case get answer ''citations'' of
                   Some (JList citations) \<Rightarrow>
                     if length citations \<noteq> length evidence
                     then Inr (degraded_answer answer (boundary @ ascii ''_CITATION_MAPPING_FAILED_CLOSED''))
                     else Inr (completed_answer answer (va_text v)
                       (map (\<lambda>p. citations ! nat (p - 1)) (va_positions v))
                       (boundary @ [95] @ ascii (warning_suffix enforce (va_records v))))
                 | _ \<Rightarrow> Inr (degraded_answer answer (boundary @ ascii ''_CITATION_MAPPING_FAILED_CLOSED''))))
      | _ \<Rightarrow> Inr (degraded_answer answer (ascii ''REAL_GENERATION_INVALID_EVIDENCE_FAILED_CLOSED''))))"

end
