(* ===== verification/GenerationCitations.thy ===== *)
theory GenerationCitations
  imports Generation ClaimSupport
begin

text \<open>
  The citations of a rendered answer: reading them back from the text gives the positions of the
  claims it was rendered from, because a claim's own text holds no citation mark and a mark cannot
  begin in one part of the answer and end in another.
\<close>

subsection \<open>Matches of the citation pattern\<close>

definition citation_tables :: "unicode \<Rightarrow> bool" where
  "citation_tables u \<longleftrightarrow> ascii_digits u \<and> newline_plain u \<and> \<not> uc_digit u 32 \<and> \<not> uc_digit u 91 \<and> \<not> uc_digit u 93"

lemma sample_citation_tables: "citation_tables sample_unicode"
  using sample_unicode_plain by (simp add: citation_tables_def sample_unicode_def)

lemma repeat_class_run:
  assumes "p \<le> q" and "q \<le> hi" and "\<forall>i. p \<le> i \<and> i < q \<longrightarrow> P (t ! i)" and "\<not> (q < hi \<and> P (t ! q))"
  shows "repeat_greedy hi (rx t hi (Class P)) (p, ms) = map (\<lambda>i. (i, ms)) (rev [p..<Suc q])"
  using assms
proof (induction "q - p" arbitrary: p)
  case 0
  then show ?case by (subst repeat_greedy.simps) auto
next
  case (Suc k)
  then have p: "p < q" "P (t ! p)" "p < hi" by auto
  have "repeat_greedy hi (rx t hi (Class P)) (Suc p, ms) = map (\<lambda>i. (i, ms)) (rev [Suc p..<Suc q])"
    by (rule Suc.hyps(1)) (use Suc in auto)
  moreover have "repeat_greedy hi (rx t hi (Class P)) (p, ms)
      = repeat_greedy hi (rx t hi (Class P)) (Suc p, ms) @ [(p, ms)]"
    using p by (subst repeat_greedy.simps) simp
  moreover have "[p..<Suc q] = p # [Suc p..<Suc q]" using p(1) by (intro upt_conv_Cons) simp
  ultimately show ?case by simp
qed

lemma citation_match:
  assumes "citation_tables u" and "ds \<noteq> []" and "\<forall>d \<in> set ds. uc_digit u d" and "t = 91 # ds @ 93 # b"
  shows "match_at t (length t) (citation_re u) 0 = Some (length ds + 2, [1, length ds + 1])"
proof -
  let ?n = "length ds" and ?hi = "length t"
  have close: "t ! (?n + 1) = 93" and hi: "?n + 1 < ?hi" using assms(4) by (simp_all add: nth_append)
  have digit: "uc_digit u (t ! i)" if "1 \<le> i" "i < ?n + 1" for i
    using that assms(3,4) nth_mem [of "i - 1" ds] by (cases i) (auto simp: nth_append)
  have first: "rx t ?hi (Class (uc_digit u)) (1, [1]) = [(2, [1])]"
    using digit [of 1] assms(2) hi by (cases ds) (simp_all add: numeral_2_eq_2)
  have "repeat_greedy ?hi (rx t ?hi (Class (uc_digit u))) (2, [1]) = map (\<lambda>i. (i, [1])) (rev [2..<Suc (?n + 1)])"
    by (rule repeat_class_run) (use digit assms(1,2) close hi in \<open>auto simp: citation_tables_def Suc_leI\<close>)
  also have "[2..<Suc (?n + 1)] = [2..<?n + 1] @ [?n + 1]"
    using assms(2) by (cases ds) simp_all
  finally have run: "rx t ?hi (many_one (Class (uc_digit u))) (1, [1])
      = map (\<lambda>i. (i, [1])) ((?n + 1) # rev [2..<?n + 1])"
    using first by (simp add: many_one_def del: rx.simps(1))
  have tail: "rx t ?hi (Cat Mark (one_char 93)) (i, [1]) = (if i = ?n + 1 then [(?n + 2, [1, ?n + 1])] else [])"
    if "2 \<le> i" "i \<le> ?n + 1" for i
  proof (cases "i = ?n + 1")
    case True
    then show ?thesis using close hi by (simp add: one_char_def)
  next
    case False
    then have "uc_digit u (t ! i)" using that by (intro digit) simp_all
    then have "t ! i \<noteq> 93" using assms(1) by (auto simp: citation_tables_def)
    with False show ?thesis by (simp add: one_char_def)
  qed
  have "concat (map (rx t ?hi (Cat Mark (one_char 93))) (map (\<lambda>i. (i, [1])) ((?n + 1) # rev [2..<?n + 1])))
      = [(?n + 2, [1, ?n + 1])]"
    using tail [of "?n + 1"] tail assms(2) by (cases ds) (auto simp: concat_eq_Nil_conv)
  with run have "rx t ?hi (citation_re u) (0, []) = [(?n + 2, [1, ?n + 1])]"
    using assms(4) by (simp add: citation_re_def one_char_def del: map_append)
  then show ?thesis by (simp add: match_at_def)
qed

lemma citation_match_form:
  assumes "match_at t hi (citation_re u) p = Some (e, ms)"
  shows "\<exists>q. Suc p < q \<and> q < hi \<and> e = Suc q \<and> ms = [Suc p, q] \<and> t ! p = 91 \<and> t ! q = 93 \<and>
    (\<forall>i. p < i \<and> i < q \<longrightarrow> uc_digit u (t ! i))"
proof -
  let ?D = "\<lambda>s. if fst s < hi \<and> uc_digit u (t ! fst s) then [(fst s + 1, snd s)] else []"
  have "(e, ms) \<in> set (rx t hi (citation_re u) (p, []))"
    using assms by (auto simp: match_at_def split: list.splits)
  then obtain q ms' where q: "(q, ms') \<in> set (repeat_greedy hi ?D (Suc (Suc p), [Suc p]))"
    and p: "t ! p = 91" "uc_digit u (t ! Suc p)"
    and e: "q < hi" "t ! q = 93" "e = Suc q" "ms = ms' @ [q]"
    by (auto simp: citation_re_def one_char_def many_one_def split: if_splits)
  let ?R = "\<lambda>a b :: rx_state. fst a \<le> fst b \<and> snd b = snd a \<and>
    (\<forall>i. fst a \<le> i \<and> i < fst b \<longrightarrow> uc_digit u (t ! i))"
  have "?R (Suc (Suc p), [Suc p]) (q, ms')"
  proof (rule repeat_greedy_invariant [OF _ _ _ q])
    show "?R a b" if "b \<in> set (?D a)" for a b
      using that by (auto simp: less_Suc_eq split: if_splits)
    show "?R a a" for a by auto
    show "?R a c" if "?R a b" "?R b c" for a b c
      using that le_trans not_le_imp_less by metis
  qed
  with p e show ?thesis by (intro exI [of _ q]) (auto simp: Suc_le_eq; metis Suc_lessI)
qed

subsection \<open>Marks of a text\<close>

definition marks :: "unicode \<Rightarrow> pytext \<Rightarrow> pytext list" where
  "marks u t = map (\<lambda>(s, e, ms). slice (ms ! 0) (ms ! 1) t) (find_matches t (length t) (citation_re u) 0)"

lemma citation_re_consuming: "consuming (citation_re u)"
  by (simp add: citation_re_def one_char_def)

lemma citation_re_behind: "behind_safe z (citation_re u)"
  by (simp add: citation_re_def one_char_def many_one_def)

lemma citation_re_ahead: "citation_tables u \<Longrightarrow> z = 10 \<or> z = 32 \<Longrightarrow> ahead_safe z (citation_re u)"
  by (auto simp: citation_re_def one_char_def many_one_def citation_tables_def newline_plain_def)

lemma found_citation_form:
  assumes "(s, e, ms) \<in> set (find_matches t (length t) (citation_re u) 0)"
  obtains q where "ms = [Suc s, q]" and "q < length t" and "e = Suc q"
  using find_matches_match [OF assms] citation_match_form [of t "length t" u s e ms] by blast

lemma marks_shifted:
  "map (\<lambda>(s, e, ms). slice (ms ! 0) (ms ! 1) (a @ b))
     (map (shift_match (length a)) (find_matches b (length b) (citation_re u) 0)) = marks u b"
proof -
  have "slice (map (\<lambda>i. i + length a) ms ! 0) (map (\<lambda>i. i + length a) ms ! 1) (a @ b) = slice (ms ! 0) (ms ! 1) b"
    if "(s, e, ms) \<in> set (find_matches b (length b) (citation_re u) 0)" for s e ms
    by (rule found_citation_form [OF that]) (simp add: slice_def)
  then have "\<forall>m \<in> set (find_matches b (length b) (citation_re u) 0).
      (case shift_match (length a) m of (s, e, ms) \<Rightarrow> slice (ms ! 0) (ms ! 1) (a @ b))
      = (case m of (s, e, ms) \<Rightarrow> slice (ms ! 0) (ms ! 1) b)"
    by (simp add: shift_match_def split_paired_all split: prod.split)
  then show ?thesis by (simp add: marks_def)
qed

lemma marks_parts:
  assumes "citation_tables u" and "z = 10 \<or> z = 32"
  shows "marks u (a @ z # b) = marks u a @ marks u b"
proof -
  have "slice (ms ! 0) (ms ! 1) (a @ z # b) = slice (ms ! 0) (ms ! 1) a"
    if "(s, e, ms) \<in> set (find_matches a (length a) (citation_re u) 0)" for s e ms
    by (rule found_citation_form [OF that]) (simp add: slice_first_line)
  then have "map (\<lambda>(s, e, ms). slice (ms ! 0) (ms ! 1) (a @ z # b)) (find_matches a (length a) (citation_re u) 0)
      = marks u a" by (auto simp: marks_def)
  moreover have "map (\<lambda>(s, e, ms). slice (ms ! 0) (ms ! 1) (a @ z # b))
      (map (shift_match (Suc (length a))) (find_matches b (length b) (citation_re u) 0)) = marks u b"
    using marks_shifted [of "a @ [z]" b u] by simp
  ultimately show ?thesis
    by (simp only: marks_def [of u "a @ z # b"] map_append
        find_matches_parts [OF citation_re_ahead [OF assms] citation_re_behind citation_re_consuming])
qed

lemma marks_Nil: "marks u [] = []"
  using find_all_Nil [OF citation_re_consuming] by (simp add: marks_def find_all_def)

lemma marks_join: "citation_tables u \<Longrightarrow> marks u (join [10] ts) = concat (map (marks u) ts)"
  by (induction ts rule: induct_list012) (simp_all add: marks_Nil marks_parts)

lemma marks_step:
  assumes "citation_tables u" and "ds \<noteq> []" and "\<forall>d \<in> set ds. uc_digit u d"
  shows "marks u ((91 # ds @ [93]) @ b) = ds # marks u b"
proof -
  let ?a = "91 # ds @ [93]"
  let ?t = "?a @ b"
  have m: "match_at ?t (length ?t) (citation_re u) 0 = Some (length ds + 2, [1, length ds + 1])"
    by (rule citation_match [OF assms]) simp
  have "find_matches ?t (length ?t) (citation_re u) 0
      = (0, length ds + 2, [1, length ds + 1]) # find_matches ?t (length ?t) (citation_re u) (0 + length ?a)"
    using find_matches_take [OF _ m] by simp
  also have "find_matches ?t (length ?t) (citation_re u) (0 + length ?a)
      = map (shift_match (length ?a)) (find_matches b (length b) (citation_re u) 0)"
    by (rule find_matches_second_part [OF citation_re_behind]) simp_all
  finally have f: "find_matches ?t (length ?t) (citation_re u) 0
      = (0, length ds + 2, [1, length ds + 1]) #
        map (shift_match (length ?a)) (find_matches b (length b) (citation_re u) 0)" .
  show ?thesis
    unfolding marks_def f list.map(2) marks_shifted by (simp add: slice_def flip: marks_def)
qed

lemma marks_of_citations:
  assumes "citation_tables u" and "\<forall>p \<in> set ids. 0 \<le> p"
  shows "marks u (concat (map citation_mark ids)) = map (\<lambda>p. decimal (nat p)) ids"
  using assms(2)
proof (induction ids)
  case (Cons p ids)
  have "\<forall>d \<in> set (decimal (nat p)). uc_digit u d"
    using assms(1) decimal_digits by (auto simp: citation_tables_def ascii_digits_def)
  moreover have "citation_mark p = 91 # decimal (nat p) @ [93]"
    using Cons.prems by (simp add: citation_mark_def int_text_def)
  ultimately show ?case
    using Cons marks_step [OF assms(1), of "decimal (nat p)" "concat (map citation_mark ids)"] by simp
qed (simp add: marks_Nil)

lemma marks_render:
  assumes "citation_tables u" and "\<forall>p \<in> set (gc_citation_ids c). 0 \<le> p"
  shows "marks u (render_claim c) = marks u (gc_text c) @ map (\<lambda>p. decimal (nat p)) (gc_citation_ids c)"
  using marks_parts [OF assms(1), of 32 "gc_text c" "concat (map citation_mark (gc_citation_ids c))"]
    marks_of_citations [OF assms] by (simp add: render_claim_def)

subsection \<open>Texts without marks\<close>

lemma no_match_anywhere:
  "find_matches t hi r p = [] \<Longrightarrow> p \<le> i \<Longrightarrow> i \<le> hi \<Longrightarrow> match_at t hi r i = None"
proof (induction t hi r p rule: find_matches.induct)
  case (1 t hi r p)
  then have p: "p \<le> hi" by simp
  have none: "match_at t hi r p = None"
    using 1(3) find_matches_take [OF p] by (cases "match_at t hi r p") (auto simp: split_paired_all)
  then have "find_matches t hi r (p + 1) = []" using 1(3) find_matches_skip [OF p] by simp
  with 1(1) none p 1(4,5) show ?case by (cases "i = p") auto
qed

lemma no_mark_inside:
  assumes "citation_tables u" and "no_citation_mark u (a @ t @ b)"
  shows "no_citation_mark u t"
proof (rule ccontr)
  assume "\<not> no_citation_mark u t"
  then obtain s e ms where "(s, e, ms) \<in> set (find_matches t (length t) (citation_re u) 0)"
    unfolding no_citation_mark_def by (metis list.set_intros(1) neq_Nil_conv prod_cases3)
  then have "match_at t (length t) (citation_re u) s = Some (e, ms)" by (simp add: find_matches_match)
  from citation_match_form [OF this] obtain q where q: "Suc s < q" "q < length t" "t ! s = 91" "t ! q = 93"
    "\<forall>i. s < i \<and> i < q \<longrightarrow> uc_digit u (t ! i)" by blast
  let ?ds = "slice (Suc s) q t"
  have "t = take s t @ 91 # ?ds @ 93 # drop (Suc q) t"
  proof -
    have "drop s t = 91 # drop (Suc s) t" using q(1-3) by (metis Cons_nth_drop_Suc less_trans Suc_lessD)
    moreover have "drop (Suc s) t = ?ds @ drop q t"
      using append_take_drop_id [of "q - Suc s" "drop (Suc s) t"] q(1) by (simp add: slice_def)
    moreover have "drop q t = 93 # drop (Suc q) t" using q(2,4) by (metis Cons_nth_drop_Suc)
    ultimately show ?thesis using append_take_drop_id [of s t] by simp
  qed
  then have t: "a @ t @ b = (a @ take s t) @ 91 # ?ds @ 93 # drop (Suc q) t @ b" by simp
  have ds: "?ds \<noteq> []" "\<forall>d \<in> set ?ds. uc_digit u d"
    using q by (auto simp: slice_def in_set_conv_nth)
  let ?x = "a @ take s t" and ?y = "91 # ?ds @ 93 # drop (Suc q) t @ b"
  have y: "match_at ?y (length ?y) (citation_re u) 0 \<noteq> None"
    using citation_match [OF assms(1) ds, of ?y "drop (Suc q) t @ b"] by (simp only: option.distinct not_False_eq_True)
  have "match_at (?x @ ?y) (length (?x @ ?y)) (citation_re u) (0 + length ?x) \<noteq> None"
  proof (cases "?x = []")
    case False
    then show ?thesis using match_at_second_part [OF citation_re_behind False, of ?y u 0] y by simp
  next
    case True
    then show ?thesis using y unfolding True append_Nil list.size(3) add_0_left by blast
  qed
  moreover have "find_matches (?x @ ?y) (length (?x @ ?y)) (citation_re u) 0 = []"
    using assms(2) unfolding no_citation_mark_def t .
  ultimately show False using no_match_anywhere [of "?x @ ?y" _ _ 0 "length ?x"] by simp
qed

lemma trim_inside: "\<exists>a b. t = a @ strip_text p t @ b"
proof -
  obtain a where a: "t = a @ dropWhile p t" by (metis takeWhile_dropWhile_id)
  have "rev (dropWhile p t) = takeWhile p (rev (dropWhile p t)) @ dropWhile p (rev (dropWhile p t))"
    by simp
  then have "dropWhile p t = strip_text p t @ rev (takeWhile p (rev (dropWhile p t)))"
    by (metis rev_append rev_rev_ident strip_text_def)
  with a have "t = a @ strip_text p t @ rev (takeWhile p (rev (dropWhile p t)))" by metis
  then show ?thesis by blast
qed

lemma no_mark_trim: "citation_tables u \<Longrightarrow> no_citation_mark u t \<Longrightarrow> no_citation_mark u (trim t)"
  using no_mark_inside trim_inside by metis

lemma no_mark_marks: "no_citation_mark u t \<Longrightarrow> marks u t = []"
  by (simp add: no_citation_mark_def marks_def)

end
