(* ===== verification/GenerationSafety.thy ===== *)
theory GenerationSafety
  imports GenerationCitations ClaimSets
begin

text \<open>
  What generation can put into an answer: the evidence and nothing else when anything fails, and
  otherwise claims that were verified, with citations that name the evidence they rest on.
\<close>

subsection \<open>Positions read back\<close>

lemma decimal_length_mono: "m \<le> n \<Longrightarrow> length (decimal m) \<le> length (decimal n)"
proof (induction n arbitrary: m rule: decimal.induct)
  case (1 n)
  show ?case
  proof (cases "n < 10")
    case True
    with 1(2) show ?thesis by (simp add: decimal.simps [of m] decimal.simps [of n])
  next
    case False
    have "length (decimal (m div 10)) \<le> length (decimal (n div 10))"
      by (rule 1(1)) (use False 1(2) in \<open>simp_all add: div_le_mono\<close>)
    with False show ?thesis by (simp add: decimal.simps [of m] decimal.simps [of n])
  qed
qed

definition claim_positions :: "generated_claim list \<Rightarrow> int list" where
  "claim_positions cs = concat (map gc_citation_ids cs)"

lemma marks_rendered:
  assumes "citation_tables u" and "\<forall>c \<in> set cs. \<forall>p \<in> set (gc_citation_ids c). 0 \<le> p"
  shows "marks u (join [10] (map render_claim cs))
     = concat (map (\<lambda>c. marks u (gc_text c) @ map (\<lambda>p. decimal (nat p)) (gc_citation_ids c)) cs)"
proof -
  have "map (marks u) (map render_claim cs)
      = map (\<lambda>c. marks u (gc_text c) @ map (\<lambda>p. decimal (nat p)) (gc_citation_ids c)) cs"
    using assms by (auto simp: marks_render)
  then show ?thesis by (simp only: marks_join [OF assms(1)])
qed

lemma cited_numbers_marks:
  "cited_numbers u t = (if \<exists>v \<in> set (marks u t). 4300 < length v then Inl Generation_Other
     else Inr (map (\<lambda>v. int (numeral_value u v)) (marks u t)))"
  by (simp add: cited_numbers_def marks_def Let_def)

lemma positions_read_back:
  assumes u: "citation_tables u" and n: "length (decimal n) \<le> 4300" and "cs \<noteq> []"
    and ok: "\<forall>c \<in> set cs. no_citation_mark u (gc_text c) \<and> gc_citation_ids c \<noteq> [] \<and>
      (\<forall>p \<in> set (gc_citation_ids c). 1 \<le> p \<and> p \<le> int n)"
  shows "validated_citation_positions u (join [10] (map render_claim cs)) n = Inr (sort (remdups (claim_positions cs)))"
proof -
  have range: "\<forall>p \<in> set (claim_positions cs). 1 \<le> p \<and> p \<le> int n" using ok by (auto simp: claim_positions_def)
  have "marks u (join [10] (map render_claim cs))
      = concat (map (\<lambda>c. marks u (gc_text c) @ map (\<lambda>p. decimal (nat p)) (gc_citation_ids c)) cs)"
    by (rule marks_rendered [OF u]) (use ok in force)
  also have "\<dots> = concat (map (\<lambda>c. map (\<lambda>p. decimal (nat p)) (gc_citation_ids c)) cs)"
    using ok no_mark_marks by (intro arg_cong [where f = concat] map_cong refl) simp
  also have "\<dots> = map (\<lambda>p. decimal (nat p)) (claim_positions cs)"
    by (simp add: claim_positions_def map_concat comp_def)
  finally have marks: "marks u (join [10] (map render_claim cs)) = map (\<lambda>p. decimal (nat p)) (claim_positions cs)" .
  have short: "length (decimal (nat p)) \<le> 4300" if "p \<in> set (claim_positions cs)" for p
    using decimal_length_mono [of "nat p" n] range that n by fastforce
  have "map (\<lambda>p. int (numeral_value u (decimal (nat p)))) (claim_positions cs) = map (\<lambda>p. p) (claim_positions cs)"
    by (rule map_cong) (use range u in \<open>auto simp: numeral_value_decimal citation_tables_def\<close>)
  then have numbers: "cited_numbers u (join [10] (map render_claim cs)) = Inr (claim_positions cs)"
    using short by (force simp: cited_numbers_marks marks comp_def)
  have "claim_positions cs \<noteq> []" using assms(3) ok by (cases cs) (simp_all add: claim_positions_def)
  then show ?thesis using range by (auto simp: validated_citation_positions_def numbers not_less)
qed

subsection \<open>Parsed claims\<close>

lemma json_ints_set: "json_ints vs = Some ps \<Longrightarrow> length ps = length vs"
  by (induction vs arbitrary: ps rule: json_ints.induct) auto

lemma parse_claim_Inr:
  assumes "parse_claim u n v = Inr c" and "citation_tables u"
  shows "no_citation_mark u (gc_text c) \<and> gc_citation_ids c \<noteq> [] \<and> \<not> blank (gc_text c) \<and>
    length (gc_text c) \<le> 2000 \<and> sorted (gc_citation_ids c) \<and> distinct (gc_citation_ids c) \<and>
    (\<forall>p \<in> set (gc_citation_ids c). 1 \<le> p \<and> p \<le> int n)"
proof -
  obtain t ids positions where t: "\<not> blank t" "length (trim t) \<le> 2000" "no_citation_mark u t"
    and ids: "ids \<noteq> []" "json_ints ids = Some positions" "\<forall>p \<in> set positions. 1 \<le> p \<and> p \<le> int n"
    and c: "c = \<lparr>gc_text = trim t, gc_citation_ids = sort (remdups positions)\<rparr>"
    using assms(1)
    by (auto simp: parse_claim_def Let_def not_less split: json.splits option.splits if_splits)
  have "positions \<noteq> []" using ids(1) json_ints_set [OF ids(2)] by auto
  then have "sort (remdups positions) \<noteq> []" by (metis set_empty set_remdups set_sort)
  moreover have "\<not> blank (trim t)"
  proof
    assume "blank (trim t)"
    moreover have "trim t \<noteq> []" using t(1) by (simp add: trim_Nil_iff)
    moreover have "\<not> uspace (hd (trim t))" using strip_text_ends [OF calculation(2)] by simp
    ultimately show False by (cases "trim t") (simp_all add: blank_def)
  qed
  ultimately show ?thesis
    using t ids(3) no_mark_trim [OF assms(2)] unfolding c by auto
qed

lemma parse_claim_list_Inr:
  "parse_claim_list u n vs = Inr cs \<Longrightarrow> length cs = length vs \<and> (\<forall>c \<in> set cs. \<exists>v. parse_claim u n v = Inr c)"
  by (induction vs arbitrary: cs) (auto simp: bind_res_Inr_iff)

lemma parse_claims_Inr:
  assumes "parse_claims u n payload = Inr cs"
  shows "cs \<noteq> []" and "length cs \<le> 8" and "c \<in> set cs \<Longrightarrow> \<exists>v. parse_claim u n v = Inr c"
proof -
  obtain claims where c: "parse_claim_list u n claims = Inr cs" "1 \<le> length claims" "length claims \<le> 8"
  proof -
    obtain d where d: "payload = JObj d" using assms by (cases payload) (simp_all add: parse_claims_def Let_def)
    have keys: "set (map fst d) = {''claims''}"
      using assms by (rule contrapos_pp) (simp add: parse_claims_def Let_def d del: set_map)
    let ?invalid = "Inl (generation_error ''OLLAMA_ANSWER_SCHEMA_INVALID'')"
    have r: "(case get d ''claims'' of Some (JList claims) \<Rightarrow>
        if length claims < 1 \<or> 8 < length claims then ?invalid else parse_claim_list u n claims
      | _ \<Rightarrow> ?invalid) = Inr cs"
      using assms by (simp only: parse_claims_def Let_def d json.case keys simp_thms if_False)
    then obtain claims where "get d ''claims'' = Some (JList claims)"
      by (cases "get d ''claims''" rule: is_list.cases) simp_all
    with r show thesis by (intro that [of claims]) (simp_all add: Suc_le_eq split: if_splits)
  qed
  from parse_claim_list_Inr [OF c(1)] c(2,3)
  show "cs \<noteq> []" "length cs \<le> 8" "c \<in> set cs \<Longrightarrow> \<exists>v. parse_claim u n v = Inr c" by auto
qed

text \<open>C7. Citations survive the text: the claims parsed from a model's response, rendered as an answer
  and read back from its text with the citation pattern, give exactly the positions the claims cite,
  sorted and without repetitions, all of them positions of the evidence.\<close>

theorem citations_round_trip:
  assumes "citation_tables u" and "parse_claims u n payload = Inr claims"
    and "render_claims claims = Inr answer" and "length (decimal n) \<le> 4300"
  shows "validated_citation_positions u answer n = Inr (sort (remdups (concat (map gc_citation_ids claims))))
    \<and> (\<forall>c \<in> set claims. gc_citation_ids c \<noteq> [] \<and> (\<forall>p \<in> set (gc_citation_ids c). 1 \<le> p \<and> p \<le> int n))"
proof -
  have ok: "no_citation_mark u (gc_text c) \<and> gc_citation_ids c \<noteq> [] \<and>
      (\<forall>p \<in> set (gc_citation_ids c). 1 \<le> p \<and> p \<le> int n)" if "c \<in> set claims" for c
    using parse_claims_Inr(3) [OF assms(2) that] parse_claim_Inr [OF _ assms(1)] by blast
  moreover have "answer = join [10] (map render_claim claims)"
    using assms(3) by (simp add: render_claims_def Let_def split: if_splits)
  ultimately show ?thesis
    using positions_read_back [OF assms(1,4) parse_claims_Inr(1) [OF assms(2)]]
    by (simp add: claim_positions_def)
qed

definition sample_payload :: json where
  "sample_payload = JObj [(''claims'', JList [JObj [(''citation_ids'', JList [JInt 2, JInt 1, JInt 2]),
     (''text'', JStr sample_word)]])]"

lemma sample_word_unmarked: "no_citation_mark sample_unicode sample_word"
proof -
  have "rx sample_word (length sample_word) (Class (\<lambda>c. c = 91)) s = []" for s
    by (rule rx_Class_none) (simp add: sample_word_code)
  then have "rx sample_word (length sample_word) (citation_re sample_unicode) (i, []) = []" for i
    by (simp add: citation_re_def one_char_def del: rx.simps(1))
  then show ?thesis unfolding no_citation_mark_def by (intro no_matches) simp
qed

lemma sample_word_trim: "trim sample_word = sample_word" "\<not> blank sample_word" "length sample_word = 5"
  by (simp_all add: strip_text_def sample_word_code uspace_def blank_def)

lemma sample_parsed:
  "parse_claims sample_unicode 2 sample_payload = Inr [\<lparr>gc_text = sample_word, gc_citation_ids = [1, 2]\<rparr>]"
  using sample_word_unmarked sample_word_trim
  by (simp add: parse_claims_def sample_payload_def parse_claim_def get_def insert_commute)

theorem citations_round_trip_witness:
  "\<exists>answer. render_claims [\<lparr>gc_text = sample_word, gc_citation_ids = [1, 2]\<rparr>] = Inr answer \<and>
     validated_citation_positions sample_unicode answer 2 = Inr [1, 2]"
proof -
  have "\<exists>answer. render_claims [\<lparr>gc_text = sample_word, gc_citation_ids = [1, 2]\<rparr>] = Inr answer"
    by (simp add: render_claims_def render_claim_def citation_mark_def int_text_def decimal.simps sample_word_trim(3))
  then obtain answer where a: "render_claims [\<lparr>gc_text = sample_word, gc_citation_ids = [1, 2]\<rparr>] = Inr answer" ..
  have "length (decimal 2) \<le> 4300" by (simp add: decimal.simps)
  from citations_round_trip [OF sample_citation_tables sample_parsed a this] a show ?thesis by simp
qed

subsection \<open>Generated answers\<close>

text \<open>Every mark of a claim's citations is read back, whatever its text is.\<close>

lemma positions_contain_citations:
  assumes u: "citation_tables u" and ok: "\<forall>c \<in> set cs. \<forall>p \<in> set (gc_citation_ids c). 1 \<le> p"
    and v: "validated_citation_positions u (join [10] (map render_claim cs)) n = Inr ps"
  shows "set (claim_positions cs) \<subseteq> set ps" and "\<forall>p \<in> set ps. 1 \<le> p \<and> p \<le> int n"
proof -
  let ?m = "marks u (join [10] (map render_claim cs))"
  have ps: "set ps = (\<lambda>v. int (numeral_value u v)) ` set ?m" "\<forall>p \<in> set ps. 1 \<le> p \<and> p \<le> int n"
    using v by (auto simp: validated_citation_positions_def cited_numbers_marks bind_res_Inr_iff not_less Suc_le_eq split: if_splits)
  have m: "?m = concat (map (\<lambda>c. marks u (gc_text c) @ map (\<lambda>p. decimal (nat p)) (gc_citation_ids c)) cs)"
    by (rule marks_rendered [OF u]) (use ok in force)
  have "p \<in> set ps" if "p \<in> set (claim_positions cs)" for p
  proof -
    from that have "decimal (nat p) \<in> set ?m" unfolding m by (auto simp: claim_positions_def)
    moreover have "int (numeral_value u (decimal (nat p))) = p"
      using that ok u by (force simp: claim_positions_def numeral_value_decimal citation_tables_def)
    ultimately show ?thesis unfolding ps(1) by (metis imageI)
  qed
  with ps(2) show "set (claim_positions cs) \<subseteq> set ps" "\<forall>p \<in> set ps. 1 \<le> p \<and> p \<le> int n" by auto
qed

lemma verified_generation_Inr:
  assumes "verified_generation G True identity evidence generated = Inr v"
  obtains result where "generated = Inr result" and "gr_identity result = identity"
    and "va_records v = verify_claim_evidence (ge_unicode G) (gr_claims result) (map item_fields evidence)"
    and "retained_claims (va_records v) \<noteq> []"
    and "va_text v = join [10] (map render_claim (retained_claims (va_records v)))"
    and "validated_citation_positions (ge_unicode G) (va_text v) (length evidence) = Inr (va_positions v)"
proof -
  obtain result where r: "generated = Inr result"
    using assms by (cases generated) (simp_all add: verified_generation_def Let_def)
  let ?rs = "verify_claim_evidence (ge_unicode G) (gr_claims result) (map item_fields evidence)"
  from assms r have id: "gr_identity result = identity" and kept: "retained_claims ?rs \<noteq> []"
    and rest: "bind_res (render_claims (retained_claims ?rs)) (\<lambda>t.
        bind_res (validated_citation_positions (ge_unicode G) t (length evidence)) (\<lambda>ps.
        Inr \<lparr>va_records = ?rs, va_text = t, va_positions = ps\<rparr>)) = Inr v"
    by (auto simp: verified_generation_def Let_def split: if_splits sum.splits)
  from rest obtain t ps where "render_claims (retained_claims ?rs) = Inr t"
    "validated_citation_positions (ge_unicode G) t (length evidence) = Inr ps"
    "v = \<lparr>va_records = ?rs, va_text = t, va_positions = ps\<rparr>"
    by (auto simp: bind_res_Inr_iff)
  with r id kept show thesis
    by (intro that [of result]) (auto simp: render_claims_def Let_def split: if_splits)
qed

lemma retained_claim_of:
  assumes "c \<in> set (retained_claims (verify_claim_evidence u claims evidence))"
  shows "c \<in> set claims" and "retained (verify_claim u c evidence)"
  using assms by (auto simp: retained_claims_def verify_claim_evidence_def)

text \<open>What a claim that is shown has passed: its citations are positions of the evidence, the cited
  quotes have text, and its numbers stand in them.\<close>

definition grounded_claim :: "unicode \<Rightarrow> jobject list \<Rightarrow> generated_claim \<Rightarrow> bool" where
  "grounded_claim u evidence c \<longleftrightarrow> \<not> blank (gc_text c) \<and> gc_citation_ids c \<noteq> [] \<and>
     (\<forall>p \<in> set (gc_citation_ids c). 1 \<le> p \<and> p \<le> int (length evidence) \<and> quote_of (item_at evidence p) \<noteq> []) \<and>
     anchored u evidence c"

lemma kept_claim_grounded:
  assumes "newline_plain u" and "retained (verify_claim u c evidence)"
  shows "grounded_claim u evidence c"
proof -
  note ok = verify_claim_kept(1) [OF assms(2)]
  show ?thesis
    unfolding grounded_claim_def
    using citation_failure_None(1,2,5) [OF ok] verify_claim_kept(2) [OF assms(2)] kept_claim_anchored [OF assms]
    by blast
qed

lemma degraded_fields:
  "get (degraded_answer a w) ''status'' = Some (json_ascii ''DEGRADED'')"
  "get (degraded_answer a w) ''answer'' = Some (JStr degraded_text)"
  "k \<notin> {''status'', ''answer'', ''warnings''} \<Longrightarrow> get (degraded_answer a w) k = get a k"
  by (simp_all add: degraded_answer_def get_put_field)

text \<open>C3. With claim verification enforced, a generated answer is grounded or shows no generated text: the
  evidence is always that of the retrieval, and the answer is either the fixed degraded text with
  all citations kept, or consists of claims of the pinned model, each of them verified against the
  evidence it cites (cited quotes with text, every number in one of them). Its citations are those
  of the retrieval at valid positions, and include the position of every piece of evidence a claim
  of the answer cites.
\<close>

theorem generated_answer_is_grounded:
  assumes "citation_tables (ge_unicode G)"
    and "apply_real_generation G identity generate True question s base = Inr a"
    and "get base ''evidence'' = Some (JList evidence)" and "evidence \<noteq> []"
    and "get base ''status'' \<noteq> Some (json_ascii ''NO_EVIDENCE'')"
  shows "get a ''evidence'' = get base ''evidence'' \<and>
    (get a ''status'' = Some (json_ascii ''DEGRADED'') \<and> get a ''answer'' = Some (JStr degraded_text) \<and>
       get a ''citations'' = get base ''citations'' \<or>
     (\<exists>result claims cs ps. generate question evidence = Inr result \<and> gr_identity result = identity \<and>
        claims \<noteq> [] \<and> set claims \<subseteq> set (gr_claims result) \<and>
        (\<forall>c \<in> set claims. grounded_claim (ge_unicode G) (map item_fields evidence) c) \<and>
        get a ''status'' = Some (json_ascii ''COMPLETED'') \<and>
        get a ''answer'' = Some (JStr (join [10] (map render_claim claims))) \<and>
        get base ''citations'' = Some (JList cs) \<and> length cs = length evidence \<and>
        get a ''citations'' = Some (JList (map (\<lambda>p. cs ! nat (p - 1)) ps)) \<and>
        (\<forall>p \<in> set ps. 1 \<le> p \<and> p \<le> int (length evidence)) \<and> set (claim_positions claims) \<subseteq> set ps))"
proof -
  have plain: "newline_plain (ge_unicode G)" using assms(1) by (simp add: citation_tables_def)
  obtain r t where ids: "request_identity (ge_answer G) question s (execution_boundary G identity) = Inr (r, t)"
    using assms(2) by (auto simp: apply_real_generation_def bind_res_Inr_iff Let_def)
  define answer where "answer = put_field (put_field base ''request_id'' (JStr r)) ''trace_id'' (JStr t)"
  have same: "get answer ''evidence'' = get base ''evidence''" "get answer ''citations'' = get base ''citations''"
    "get answer ''status'' = get base ''status''"
    by (simp_all add: answer_def get_put_field)
  show ?thesis
  proof (cases "\<exists>w. a = degraded_answer answer w")
    case True
    then show ?thesis using same degraded_fields by auto
  next
    case False
    then obtain v cs w where v: "verified_generation G True identity evidence (generate question evidence) = Inr v"
      and cs: "get base ''citations'' = Some (JList cs)" "length cs = length evidence"
      and a: "a = completed_answer answer (va_text v) (map (\<lambda>p. cs ! nat (p - 1)) (va_positions v)) w"
      using assms(2-5) ids same
      by (auto simp: apply_real_generation_def Let_def answer_def [symmetric]
          split: sum.splits option.splits json.splits if_splits)
    from v obtain result where result: "generate question evidence = Inr result" "gr_identity result = identity"
      "va_records v = verify_claim_evidence (ge_unicode G) (gr_claims result) (map item_fields evidence)"
      "retained_claims (va_records v) \<noteq> []"
      "va_text v = join [10] (map render_claim (retained_claims (va_records v)))"
      "validated_citation_positions (ge_unicode G) (va_text v) (length evidence) = Inr (va_positions v)"
      by (rule verified_generation_Inr)
    let ?claims = "retained_claims (va_records v)"
    have claims: "c \<in> set (gr_claims result) \<and> grounded_claim (ge_unicode G) (map item_fields evidence) c"
      if "c \<in> set ?claims" for c
      using retained_claim_of [of c] that kept_claim_grounded [OF plain] unfolding result(3) by blast
    then have "\<forall>c \<in> set ?claims. \<forall>p \<in> set (gc_citation_ids c). 1 \<le> p" by (auto simp: grounded_claim_def)
    note ps = positions_contain_citations [OF assms(1) this result(6) [unfolded result(5)]]
    have "get a ''evidence'' = get base ''evidence''" "get a ''status'' = Some (json_ascii ''COMPLETED'')"
      "get a ''answer'' = Some (JStr (join [10] (map render_claim ?claims)))"
      "get a ''citations'' = Some (JList (map (\<lambda>p. cs ! nat (p - 1)) (va_positions v)))"
      unfolding a by (simp_all add: completed_answer_def get_put_field same result(5))
    moreover have "set ?claims \<subseteq> set (gr_claims result)" "\<forall>c \<in> set ?claims.
        grounded_claim (ge_unicode G) (map item_fields evidence) c" using claims by auto
    ultimately show ?thesis
      using result(1,2,4) cs ps
      by (intro conjI disjI2 exI [of _ result] exI [of _ ?claims] exI [of _ cs] exI [of _ "va_positions v"]) assumption+
  qed
qed

definition sample_generation_env :: generation_env where
  "sample_generation_env = \<lparr>ge_unicode = sample_unicode,
     ge_answer = \<lparr>ae_sha256 = (\<lambda>bs. bs), ae_dumps = (\<lambda>_. []), ae_str = (\<lambda>_. [])\<rparr>,
     ge_upper = (\<lambda>t. t), ge_loads = (\<lambda>_. None)\<rparr>"

definition sample_identity :: model_identity where
  "sample_identity = pinned_identity [] (ascii ''ollama'') [109] [100]"

definition sample_base :: jobject where
  "sample_base = [(''answer'', JStr []), (''citations'', JList [JInt 7]), (''evidence'', JList [JObj sample_evidence]),
     (''status'', json_ascii ''COMPLETED''), (''warnings'', JList [])]"

definition sample_generate :: "pytext \<Rightarrow> json list \<Rightarrow> unit + generation_result" where
  "sample_generate q evidence = Inr \<lparr>gr_answer = [], gr_identity = sample_identity, gr_claims = [sample_claim],
     gr_prompt_eval_count = None, gr_eval_count = None\<rparr>"

lemma sample_claim_verified: "cl_status (verify_claim sample_unicode sample_claim [sample_evidence]) = SUPPORTED"
proof -
  have "gc_citation_ids sample_claim = [1]" "gc_text sample_claim = sample_word" by (simp_all add: sample_claim_def)
  moreover have "cl_status (verify_quotes sample_unicode sample_claim [sample_word]) = SUPPORTED"
    using sample_word_marks(1) sample_word_no_limitation
    by (simp add: verify_quotes_def single_quote_no_conflict sample_claim_def sample_word_fold
        evidence_folded_def sample_word_supported)
  ultimately show ?thesis
    using sample_quote by (simp add: verify_claim_def sample_citation item_at_def sample_fields)
qed

lemma sample_rendered:
  "length (render_claim sample_claim) \<le> 8000"
  "validated_citation_positions sample_unicode (render_claim sample_claim) 1 = Inr [1]"
proof -
  show "length (render_claim sample_claim) \<le> 8000"
    by (simp add: render_claim_def sample_claim_def sample_word_trim(3) citation_mark_def int_text_def decimal.simps)
  have "length (decimal 1) \<le> 4300" by (simp add: decimal.simps)
  then have "validated_citation_positions sample_unicode (join [10] (map render_claim [sample_claim])) 1
      = Inr (sort (remdups (claim_positions [sample_claim])))"
    by (rule positions_read_back [OF sample_citation_tables])
      (simp_all add: sample_claim_def sample_word_unmarked)
  then show "validated_citation_positions sample_unicode (render_claim sample_claim) 1 = Inr [1]"
    by (simp add: claim_positions_def sample_claim_def)
qed

lemma sample_generated: "\<exists>a. apply_real_generation sample_generation_env sample_identity sample_generate True [65] []
    sample_base = Inr a \<and> get a ''status'' = Some (json_ascii ''COMPLETED'')"
proof -
  let ?ev = "[JObj sample_evidence]"
  let ?r = "verify_claim sample_unicode sample_claim [sample_evidence]"
  have rec: "verify_claim_evidence sample_unicode [sample_claim] [sample_evidence] = [?r]"
    by (simp add: verify_claim_evidence_def)
  have kept: "retained_claims [?r] = [sample_claim]"
    by (simp add: retained_claims_def retained_def sample_claim_verified)
  have raises: "\<not> citation_raises ?ev sample_claim"
    by (simp add: citation_raises_def sample_claim_def)
  have "render_claims [sample_claim] = Inr (render_claim sample_claim)"
    using sample_rendered(1) by (simp add: render_claims_def)
  then have v: "verified_generation sample_generation_env True sample_identity ?ev (sample_generate [65] ?ev)
      = Inr \<lparr>va_records = [?r], va_text = render_claim sample_claim, va_positions = [1]\<rparr>"
    using raises kept sample_rendered(2)
    by (simp add: verified_generation_def sample_generate_def sample_generation_env_def item_fields_def rec Let_def)
  have "\<exists>r t. request_identity (ge_answer sample_generation_env) [65] []
      (execution_boundary sample_generation_env sample_identity) = Inr (r, t)"
    by (simp add: request_identity_def sample_generation_env_def execution_boundary_def sample_identity_def
        pinned_identity_def replace_chars_def prompt_version_def ascii_def utf8_char_def strip_text_def uspace_def
        Let_def)
  then obtain r t where "request_identity (ge_answer sample_generation_env) [65] []
      (execution_boundary sample_generation_env sample_identity) = Inr (r, t)" by blast
  moreover have "get (put_field (put_field sample_base ''request_id'' x) ''trace_id'' y) ''evidence'' = Some (JList ?ev)"
    "get (put_field (put_field sample_base ''request_id'' x) ''trace_id'' y) ''citations'' = Some (JList [JInt 7])"
    "get (put_field (put_field sample_base ''request_id'' x) ''trace_id'' y) ''status'' = Some (json_ascii ''COMPLETED'')"
    for x y
    unfolding get_put_field by (simp_all add: sample_base_def get_def)
  ultimately show ?thesis
    by (simp add: apply_real_generation_def v Let_def completed_answer_def get_put_field json_ascii_def)
qed

theorem generated_answer_is_grounded_witness:
  "\<exists>a. apply_real_generation sample_generation_env sample_identity sample_generate True [65] [] sample_base = Inr a \<and>
     get a ''evidence'' = Some (JList [JObj sample_evidence]) \<and>
     (\<exists>claims. claims \<noteq> [] \<and> get a ''answer'' = Some (JStr (join [10] (map render_claim claims))))"
proof -
  obtain a where a: "apply_real_generation sample_generation_env sample_identity sample_generate True [65] []
    sample_base = Inr a" "get a ''status'' = Some (json_ascii ''COMPLETED'')"
    using sample_generated by blast
  have base: "get sample_base ''evidence'' = Some (JList [JObj sample_evidence])"
    "get sample_base ''status'' \<noteq> Some (json_ascii ''NO_EVIDENCE'')"
    by (simp_all add: sample_base_def get_def json_ascii_def)
  have "citation_tables (ge_unicode sample_generation_env)"
    using sample_citation_tables by (simp add: sample_generation_env_def)
  from generated_answer_is_grounded [OF this a(1) base(1) _ base(2)] a(2)
  have "get a ''evidence'' = get sample_base ''evidence''"
    "\<exists>claims. claims \<noteq> [] \<and> get a ''answer'' = Some (JStr (join [10] (map render_claim claims)))"
    by (auto simp: json_ascii_def)
  with a(1) base(1) show ?thesis by (intro exI [of _ a]) simp
qed

end
