(* ===== verification/QueryPlanning.thy ===== *)
theory QueryPlanning
  imports OnlineRouting Regex "HOL-Library.Sublist"
begin

text \<open>
  Query planning for two-document comparisons, \<^verbatim>\<open>backend/retrieval/comparison_decomposition.py\<close>: the
  configuration, the switch, the runtime identities, and the decomposition of a question into one
  query per document. A dictionary filled by appending to its lists is the log of what is appended.
  Clocks and the observer are not modelled.
\<close>

subsection \<open>Configuration\<close>

record query_identity =
  qi_document_id :: pytext
  qi_aliases :: "pytext list"

record comparison_config =
  cg_default_enabled :: bool
  cg_comparison_markers :: "pytext list"
  cg_transition_markers :: "pytext list"
  cg_identities :: "query_identity list"

definition comparison_config_keys :: "string list" where
  "comparison_config_keys = [''schema_version'', ''variable_id'', ''default_enabled'', ''failure_policy'',
     ''comparison_markers'', ''transition_markers'', ''document_identities'']"

definition validated_markers :: "unicode \<Rightarrow> json option \<Rightarrow> unit + pytext list" where
  "validated_markers u v =
     (let items = items_of v in
      if \<not> is_list v \<or> items = [] \<or> (\<exists>x \<in> set items. case x of JStr s \<Rightarrow> blank s | _ \<Rightarrow> True) then Inl ()
      else let normalized = map (\<lambda>x. trim (text_of (Some x))) items in
        if \<not> distinct (map (casefold u) normalized) then Inl () else Inr normalized)"

type_synonym alias_owners = "(pytext \<times> pytext) list"

text \<open>The loop that gives every folded alias one owner.\<close>

fun claim_aliases :: "unicode \<Rightarrow> pytext \<Rightarrow> pytext list \<Rightarrow> alias_owners \<Rightarrow> unit + alias_owners" where
  "claim_aliases u doc [] owners = Inr owners"
| "claim_aliases u doc (a # as) owners =
     (case map_of owners (casefold u a) of
        Some d \<Rightarrow> if d \<noteq> doc then Inl () else claim_aliases u doc as ((casefold u a, doc) # owners)
      | None \<Rightarrow> claim_aliases u doc as ((casefold u a, doc) # owners))"

fun load_identities ::
  "unicode \<Rightarrow> pytext list \<Rightarrow> alias_owners \<Rightarrow> json list \<Rightarrow> unit + query_identity list"
where
  "load_identities u seen owners [] = Inr []"
| "load_identities u seen owners (x # xs) =
     (case fields_of (Some x) of None \<Rightarrow> Inl ()
      | Some d \<Rightarrow>
          let doc = text_of (get d ''document_id'') in
          if set (map fst d) \<noteq> {''document_id'', ''aliases''} then Inl ()
          else if \<not> nonempty_str (get d ''document_id'') \<or> doc \<in> set seen \<or>
            items_of (get d ''aliases'') = [] then Inl ()
          else bind_res (validated_markers u (get d ''aliases'')) (\<lambda>aliases.
            let all_aliases = first_occurrences (doc # aliases) in
            bind_res (claim_aliases u doc all_aliases owners) (\<lambda>owners'.
            bind_res (load_identities u (doc # seen) owners' xs) (\<lambda>rest.
            Inr (\<lparr>qi_document_id = doc, qi_aliases = all_aliases\<rparr> # rest)))))"

definition load_bilateral_comparison_config :: "unicode \<Rightarrow> json \<Rightarrow> unit + comparison_config" where
  "load_bilateral_comparison_config u v =
     (case fields_of (Some v) of None \<Rightarrow> Inl ()
      | Some d \<Rightarrow>
          if set (map fst d) \<noteq> set comparison_config_keys then Inl ()
          else if get d ''schema_version'' \<noteq>
            Some (JStr (ascii ''bilateral_comparison_query_decomposition_config_v1'')) then Inl ()
          else if get d ''variable_id'' \<noteq>
            Some (JStr (ascii ''BILATERAL_COMPARISON_QUERY_DECOMPOSITION_V1'')) then Inl ()
          else if get d ''default_enabled'' \<noteq> Some (JBool False) then Inl ()
          else if get d ''failure_policy'' \<noteq> Some (JStr (ascii ''FALLBACK_TO_ORIGINAL_QUERY'')) then Inl ()
          else bind_res (validated_markers u (get d ''comparison_markers'')) (\<lambda>comparison.
            bind_res (validated_markers u (get d ''transition_markers'')) (\<lambda>transition.
            if length (items_of (get d ''document_identities'')) < 2 then Inl ()
            else bind_res (load_identities u [] [] (items_of (get d ''document_identities''))) (\<lambda>identities.
              Inr \<lparr>cg_default_enabled = False, cg_comparison_markers = comparison,
                cg_transition_markers = transition, cg_identities = identities\<rparr>))))"

definition switch_enabled :: "unicode \<Rightarrow> pytext option \<Rightarrow> bool \<Rightarrow> unit + bool" where
  "switch_enabled u raw_value default_enabled =
     (case raw_value of None \<Rightarrow> Inr default_enabled
      | Some v \<Rightarrow> (case map_of [(ascii ''0'', False), (ascii ''1'', True), (ascii ''false'', False),
            (ascii ''true'', True)] (casefold u (trim v)) of
          None \<Rightarrow> Inl () | Some b \<Rightarrow> Inr b))"

text \<open>The map from configured to runtime identities has distinct keys, as a dictionary.\<close>

fun claim_all_aliases :: "unicode \<Rightarrow> query_identity list \<Rightarrow> alias_owners \<Rightarrow> unit + alias_owners" where
  "claim_all_aliases u [] owners = Inr owners"
| "claim_all_aliases u (i # is) owners =
     bind_res (claim_aliases u (qi_document_id i) (qi_aliases i) owners) (claim_all_aliases u is)"

definition remap_identity :: "(pytext \<times> json) list \<Rightarrow> query_identity \<Rightarrow> query_identity" where
  "remap_identity ids i = (let doc = text_of (map_of ids (qi_document_id i)) in
     \<lparr>qi_document_id = doc, qi_aliases = first_occurrences (doc # qi_aliases i)\<rparr>)"

definition remap_document_identities ::
  "unicode \<Rightarrow> comparison_config \<Rightarrow> (pytext \<times> json) list \<Rightarrow> unit + comparison_config" where
  "remap_document_identities u cfg ids =
     (if set (map fst ids) \<noteq> set (map qi_document_id (cg_identities cfg)) \<or>
         (\<exists>v \<in> set (map snd ids). \<not> nonempty_str (Some v)) \<or> \<not> distinct (map snd ids) then Inl ()
      else let remapped = map (remap_identity ids) (cg_identities cfg) in
        bind_res (claim_all_aliases u remapped []) (\<lambda>_. Inr (cfg\<lparr>cg_identities := remapped\<rparr>)))"

subsection \<open>Text\<close>

definition separator :: "nat \<Rightarrow> bool" where
  "separator c \<longleftrightarrow> c = 32 \<or> c = 65292 \<or> c = 44"

definition clause_boundary_re :: regex where
  "clause_boundary_re = many_one (Class (\<lambda>c. c \<in> set [12290, 65281, 65311, 33, 63, 65307, 59]))"

definition space_re :: regex where
  "space_re = many_one (Class uspace)"

definition re_sub :: "regex \<Rightarrow> pytext \<Rightarrow> pytext \<Rightarrow> pytext" where
  "re_sub r replacement t = join replacement (re_split r t)"

definition normalize_query :: "pytext \<Rightarrow> pytext" where
  "normalize_query t = strip_text separator (re_sub space_re [32] t)"

definition clauses :: "pytext \<Rightarrow> pytext list" where
  "clauses t = filter (\<lambda>c. c \<noteq> []) (map (strip_text separator) (re_split clause_boundary_re t))"

definition contains_marker :: "unicode \<Rightarrow> pytext \<Rightarrow> pytext list \<Rightarrow> bool" where
  "contains_marker u t markers \<longleftrightarrow> (\<exists>m \<in> set markers. contains (casefold u m) (casefold u t))"

fun least :: "nat list \<Rightarrow> nat option" where
  "least [] = None"
| "least (n # ns) = Some (fold min ns n)"

definition first_marker_anchor :: "unicode \<Rightarrow> pytext \<Rightarrow> pytext list \<Rightarrow> nat option" where
  "first_marker_anchor u t markers =
     least (concat (map (\<lambda>m. case text_find (casefold u m) (casefold u t) 0 of None \<Rightarrow> [] | Some i \<Rightarrow> [i]) markers))"

definition earlier_span :: "nat \<times> nat \<Rightarrow> nat \<times> nat \<Rightarrow> nat \<times> nat" where
  "earlier_span a b = (if fst a < fst b \<or> fst a = fst b \<and> snd a \<le> snd b then a else b)"

definition alias_spans :: "unicode \<Rightarrow> pytext \<Rightarrow> pytext list \<Rightarrow> (nat \<times> nat) list" where
  "alias_spans u t aliases = concat (map (\<lambda>a. case text_find (casefold u a) (casefold u t) 0 of
     None \<Rightarrow> [] | Some i \<Rightarrow> [(i, i + length a)]) aliases)"

definition first_alias_span :: "unicode \<Rightarrow> pytext \<Rightarrow> pytext list \<Rightarrow> (nat \<times> nat) option" where
  "first_alias_span u t aliases =
     (case alias_spans u t aliases of [] \<Rightarrow> None | s # ss \<Rightarrow> Some (fold earlier_span ss s))"

definition first_document_anchor :: "unicode \<Rightarrow> pytext \<Rightarrow> pytext list \<Rightarrow> nat" where
  "first_document_anchor u t aliases =
     (case first_alias_span u t aliases of None \<Rightarrow> length t | Some s \<Rightarrow> fst s)"

subsection \<open>A clause about both documents\<close>

definition connector_re :: regex where
  "connector_re = alternatives [one_char 19982, one_char 21644, literal [20197, 21450], one_char 21450,
     Cat (any_case (ascii ''vs'')) (optional (one_char 46)), any_case (ascii ''versus'')]"

definition last_connector_span :: "pytext \<Rightarrow> (nat \<times> nat) option" where
  "last_connector_span t = (case rev (find_matches t (length t) connector_re 0) of
     [] \<Rightarrow> None | (s, e, _) # _ \<Rightarrow> Some (s, e))"

definition tail_markers :: "pytext list" where
  "tail_markers = [[22312], [26377, 20309], [22914, 20309], [20998, 21035], [20043, 38388]]"

definition shared_tail_start :: "pytext \<Rightarrow> nat \<Rightarrow> nat option" where
  "shared_tail_start t after =
     (let tail = drop after t in
      map_option (\<lambda>i. after + i) (least (concat (map (\<lambda>p. case search_from tail (literal p) 0 of
        None \<Rightarrow> [] | Some (s, _) \<Rightarrow> [s]) tail_markers))))"

definition side :: "nat \<Rightarrow> nat \<Rightarrow> pytext \<Rightarrow> pytext" where
  "side a b t = strip_text separator (slice a b t)"

definition split_bilateral_clause ::
  "unicode \<Rightarrow> pytext \<Rightarrow> query_identity \<Rightarrow> query_identity \<Rightarrow> (pytext \<times> pytext) list option" where
  "split_bilateral_clause u t i j =
     (case (first_alias_span u t (qi_aliases i), first_alias_span u t (qi_aliases j)) of
        (Some si, Some sj) \<Rightarrow>
          (let (l, left, r, right) = (if fst si \<le> fst sj then (i, si, j, sj) else (j, sj, i, si)) in
           case last_connector_span (slice (snd left) (fst right) t) of None \<Rightarrow> None
           | Some (connector, _) \<Rightarrow>
               (case shared_tail_start t (snd right) of None \<Rightarrow> None
                | Some tail \<Rightarrow>
                    let common_prefix = side 0 (fst left) t; common_tail = side tail (length t) t;
                        left_side = side (fst left) (snd left + connector) t;
                        right_side = side (fst right) tail t;
                        common = join [32] (filter (\<lambda>p. p \<noteq> []) [common_prefix, common_tail])
                    in if left_side = [] \<or> right_side = [] \<or> common_tail = [] then None
                       else Some [(qi_document_id l, normalize_query (left_side @ [32] @ common)),
                                  (qi_document_id r, normalize_query (right_side @ [32] @ common))]))
      | _ \<Rightarrow> None)"

subsection \<open>Decomposition\<close>

text \<open>What the loop over the clauses collects: the pieces of every document, the clauses that
  mention none, and the indexes of the clauses that mention a document.\<close>

record collected =
  cq_pieces :: "(pytext \<times> pytext) list"
  cq_unanchored :: "(nat \<times> pytext) list"
  cq_anchors :: "(pytext \<times> nat) list"

definition mentioned :: "unicode \<Rightarrow> pytext \<Rightarrow> query_identity list \<Rightarrow> query_identity list" where
  "mentioned u t ids = filter (\<lambda>i. first_alias_span u t (qi_aliases i) \<noteq> None) ids"

definition add_clause ::
  "unicode \<Rightarrow> query_identity \<times> query_identity \<Rightarrow> nat \<times> pytext \<Rightarrow> collected \<Rightarrow> collected option" where
  "add_clause u ij nt s =
     (let (i, j) = ij; (n, t) = nt in
      case mentioned u t [i, j] of
        [] \<Rightarrow> Some (s\<lparr>cq_unanchored := cq_unanchored s @ [(n, t)]\<rparr>)
      | [k] \<Rightarrow> Some (s\<lparr>cq_pieces := cq_pieces s @ [(qi_document_id k, t)],
          cq_anchors := cq_anchors s @ [(qi_document_id k, n)]\<rparr>)
      | _ \<Rightarrow> (case split_bilateral_clause u t i j of None \<Rightarrow> None
          | Some ps \<Rightarrow> Some (s\<lparr>cq_pieces := cq_pieces s @ ps,
              cq_anchors := cq_anchors s @ map (\<lambda>(d, _). (d, n)) ps\<rparr>)))"

fun add_clauses ::
  "unicode \<Rightarrow> query_identity \<times> query_identity \<Rightarrow> (nat \<times> pytext) list \<Rightarrow> collected \<Rightarrow> collected option" where
  "add_clauses u ij [] s = Some s"
| "add_clauses u ij (nt # nts) s = (case add_clause u ij nt s of None \<Rightarrow> None | Some s' \<Rightarrow> add_clauses u ij nts s')"

definition anchored :: "pytext \<Rightarrow> collected \<Rightarrow> bool" where
  "anchored doc s \<longleftrightarrow> doc \<in> set (map fst (cq_anchors s))"

text \<open>One document alone is mentioned: the clauses before it belong to the other one, when a
  transition comes first.\<close>

definition assign_leading ::
  "unicode \<Rightarrow> pytext list \<Rightarrow> pytext \<Rightarrow> query_identity \<Rightarrow> query_identity \<Rightarrow> collected \<Rightarrow> collected option" where
  "assign_leading u transitions question known other s =
     (let first_anchor = the (least (map snd (filter (\<lambda>(d, _). d = qi_document_id known) (cq_anchors s))));
          leading = map snd (filter (\<lambda>(n, _). n < first_anchor) (cq_unanchored s))
      in case first_marker_anchor u question transitions of None \<Rightarrow> None
         | Some transition \<Rightarrow>
             if leading = [] \<or> first_document_anchor u question (qi_aliases known) \<le> transition then None
             else Some (s\<lparr>cq_pieces := cq_pieces s @ map (\<lambda>c. (qi_document_id other, c)) leading,
               cq_unanchored := filter (\<lambda>(n, _). first_anchor \<le> n) (cq_unanchored s)\<rparr>))"

definition query_of :: "collected \<Rightarrow> pytext \<Rightarrow> pytext" where
  "query_of s doc = normalize_query (join [32]
     (map snd (filter (\<lambda>(d, _). d = doc) (cq_pieces s)) @ map snd (cq_unanchored s)))"

definition decompose ::
  "unicode \<Rightarrow> pytext list \<Rightarrow> pytext \<Rightarrow> query_identity \<Rightarrow> query_identity \<Rightarrow> (pytext \<times> pytext) list option" where
  "decompose u transitions question i j =
     (let cs = clauses question in
      if cs = [] then None
      else case add_clauses u (i, j) (zip [0..<length cs] cs)
            \<lparr>cq_pieces = [], cq_unanchored = [], cq_anchors = []\<rparr> of
          None \<Rightarrow> None
        | Some s \<Rightarrow>
            (case (if anchored (qi_document_id i) s \<and> anchored (qi_document_id j) s then Some s
                   else if anchored (qi_document_id i) s then assign_leading u transitions question i j s
                   else if anchored (qi_document_id j) s then assign_leading u transitions question j i s
                   else None) of
               None \<Rightarrow> None
             | Some s' \<Rightarrow>
                 let queries = map (\<lambda>k. (qi_document_id k, query_of s' (qi_document_id k))) [i, j]
                 in if \<exists>(_, q) \<in> set queries. q = [] then None else Some queries))"

subsection \<open>The plan\<close>

datatype plan_status = PLAN_APPLIED | PLAN_FALLBACK | PLAN_DISABLED

record query_plan =
  pl_status :: plan_status
  pl_queries :: "(pytext \<times> pytext) list"
  pl_failure_code :: "string option"

definition original_queries :: "pytext \<Rightarrow> pytext list \<Rightarrow> (pytext \<times> pytext) list" where
  "original_queries question route_ids = map (\<lambda>d. (d, question)) (first_occurrences route_ids)"

definition plan_fallback :: "pytext \<Rightarrow> pytext list \<Rightarrow> string \<Rightarrow> query_plan" where
  "plan_fallback question route_ids code =
     \<lparr>pl_status = PLAN_FALLBACK, pl_queries = original_queries question route_ids, pl_failure_code = Some code\<rparr>"

definition identity_by_id :: "comparison_config \<Rightarrow> pytext \<Rightarrow> query_identity option" where
  "identity_by_id cfg = map_of (rev (map (\<lambda>i. (qi_document_id i, i)) (cg_identities cfg)))"

definition plan_queries ::
  "unicode \<Rightarrow> comparison_config \<Rightarrow> bool \<Rightarrow> pytext \<Rightarrow> pytext list \<Rightarrow> query_plan" where
  "plan_queries u cfg enabled question route_ids =
     (let fallback = plan_fallback question route_ids in
      if \<not> enabled then \<lparr>pl_status = PLAN_DISABLED, pl_queries = original_queries question route_ids,
        pl_failure_code = Some ''SWITCH_DISABLED''\<rparr>
      else case route_ids of
        [d, e] \<Rightarrow>
          if d = e then fallback ''ROUTE_COUNT_NOT_TWO''
          else if blank question then fallback ''QUESTION_BLANK''
          else (case (identity_by_id cfg d, identity_by_id cfg e) of
            (Some i, Some j) \<Rightarrow>
              if \<not> contains_marker u question (cg_comparison_markers cfg) then fallback ''COMPARISON_NOT_PROVEN''
              else (case decompose u (cg_transition_markers cfg) question i j of
                None \<Rightarrow> fallback ''BILATERAL_DECOMPOSITION_UNPROVEN''
              | Some queries \<Rightarrow>
                  if set (map fst queries) \<noteq> set route_ids \<or> (\<exists>(_, q) \<in> set queries. blank q)
                  then fallback ''BILATERAL_DECOMPOSITION_UNPROVEN''
                  else \<lparr>pl_status = PLAN_APPLIED, pl_queries = queries, pl_failure_code = None\<rparr>)
          | _ \<Rightarrow> fallback ''DOCUMENT_IDENTITY_UNAVAILABLE'')
      | _ \<Rightarrow> fallback ''ROUTE_COUNT_NOT_TWO'')"

text \<open>The decomposer as the planner of an online retriever.\<close>

definition installed_planner ::
  "unicode \<Rightarrow> comparison_config \<Rightarrow> bool \<Rightarrow> pytext \<Rightarrow> string list \<Rightarrow> unit + route_query_plan" where
  "installed_planner u cfg enabled question document_ids =
     (let p = plan_queries u cfg enabled question (map ascii document_ids) in
      Inr \<lparr>qp_applied = (pl_status p = PLAN_APPLIED),
        qp_queries = map (\<lambda>(d, q). (map char_of d, q)) (pl_queries p)\<rparr>)"

end
