(* ===== verification/QueryPlans.thy ===== *)
theory QueryPlans
  imports QueryPlanning "HOL-Library.Code_Target_Nat"
begin

text \<open>
  Properties of the query planning: normalisation and splitting keep every letter that is no space
  or comma, so an applied plan asks for nothing but the question and loses none of its one-sided
  clauses; aliases have one owner; and the spans of aliases, which mix folded and original text.
\<close>

subsection \<open>Letters\<close>

definition content :: "pytext \<Rightarrow> pytext" where
  "content t = filter (\<lambda>c. \<not> uspace c \<and> \<not> separator c) t"

lemma content_append [simp]: "content (a @ b) = content a @ content b"
  by (simp add: content_def)

lemma content_Nil [simp]: "content [] = []"
  by (simp add: content_def)

lemma content_space [simp]: "content (32 # t) = content t"
  by (simp add: content_def separator_def)

lemma set_content: "set (content t) \<subseteq> set t"
  by (auto simp: content_def)

lemma filter_strip_text: "(\<And>c. p c \<Longrightarrow> \<not> q c) \<Longrightarrow> filter q (strip_text p t) = filter q t"
proof -
  assume pq: "\<And>c. p c \<Longrightarrow> \<not> q c"
  have drop: "filter q (dropWhile p s) = filter q s" for s by (induction s) (auto simp: pq)
  show ?thesis
    using drop [of "rev (dropWhile p t)"] drop [of t] by (simp add: strip_text_def rev_filter [symmetric])
qed

lemma content_strip [simp]: "content (strip_text separator t) = content t"
  unfolding content_def by (rule filter_strip_text) simp

lemma content_join [simp]: "content (join [32] ts) = concat (map content ts)"
  by (induction "[32::nat]" ts rule: join.induct) simp_all

lemma content_side [simp]: "content (side a b t) = content (slice a b t)"
  by (simp add: side_def)

subsection \<open>Splitting at runs of a class\<close>

lemma set_slice: "set (slice a b t) \<subseteq> set t"
  by (auto simp: slice_def dest: in_set_takeD in_set_dropD)

lemma set_split_at: "x \<in> set (split_at t p ms) \<Longrightarrow> set x \<subseteq> set t"
  by (induction t p ms rule: split_at.induct) (use set_slice in fastforce)+

lemma set_re_split: "x \<in> set (re_split r t) \<Longrightarrow> set x \<subseteq> set t"
  by (simp add: re_split_def set_split_at)

definition class_run :: "(nat \<Rightarrow> bool) \<Rightarrow> pytext \<Rightarrow> rx_state \<Rightarrow> rx_state \<Rightarrow> bool" where
  "class_run P t s s' \<longleftrightarrow> fst s \<le> fst s' \<and> (\<forall>i. fst s \<le> i \<and> i < fst s' \<longrightarrow> P (t ! i))"

lemma class_run_refl: "class_run P t s s"
  by (auto simp: class_run_def)

lemma class_run_trans:
  assumes "class_run P t s m" and "class_run P t m s'"
  shows "class_run P t s s'"
proof -
  have "P (t ! i)" if "fst s \<le> i" "i < fst s'" for i
    using assms that by (cases "i < fst m") (simp_all add: class_run_def)
  then show ?thesis using assms by (simp add: class_run_def)
qed

lemma class_run_step: "s' \<in> set (rx t hi (Class P) s) \<Longrightarrow> class_run P t s s'"
  by (auto simp: class_run_def less_Suc_eq split: if_splits)

lemma runs_of_class:
  assumes "match_at t hi (many_one (Class P)) p = Some (e, ms)" and "e \<le> length t"
  shows "\<forall>c \<in> set (slice p e t). P c"
proof -
  have "(e, ms) \<in> set (rx t hi (many_one (Class P)) (p, []))"
    using assms(1) by (auto simp: match_at_def split: list.splits)
  then obtain m where m: "m \<in> set (rx t hi (Class P) (p, []))"
    "(e, ms) \<in> set (repeat_greedy hi (rx t hi (Class P)) m)"
    by (auto simp: many_one_def simp del: rx.simps(1))
  have "class_run P t m (e, ms)"
    by (rule repeat_greedy_invariant [OF class_run_step class_run_refl class_run_trans m(2)])
  then have run: "class_run P t (p, []) (e, ms)" using class_run_step [OF m(1)] class_run_trans by blast
  show ?thesis
  proof
    fix c assume "c \<in> set (slice p e t)"
    then obtain i where "i < e - p" "c = t ! (p + i)" using assms(2) by (auto simp: slice_def in_set_conv_nth)
    with run show "P c" by (simp add: class_run_def)
  qed
qed

lemma slice_to_end: "a \<le> b \<Longrightarrow> drop a t = slice a b t @ drop b t"
  by (simp add: slice_def) (metis append_take_drop_id drop_drop le_add_diff_inverse2)

lemma filter_split_at:
  assumes "ordered_matches p (length t) ms" and "\<forall>(s, e, m) \<in> set ms. \<forall>c \<in> set (slice s e t). \<not> q c"
    and "p \<le> length t"
  shows "concat (map (filter q) (split_at t p ms)) = filter q (drop p t)"
  using assms
proof (induction t p ms rule: split_at.induct)
  case (1 t p)
  then show ?case by (simp add: slice_def)
next
  case (2 t p s e m ms)
  then have o: "p \<le> s" "s \<le> e" "e \<le> length t" "ordered_matches e (length t) ms" by simp_all
  have "drop p t = slice p s t @ slice s e t @ drop e t"
    using slice_to_end [of p s t] slice_to_end [of s e t] o by simp
  moreover have "filter q (slice s e t) = []" using "2.prems"(2) by (simp add: filter_empty_conv)
  ultimately show ?case using 2 o by simp
qed

lemma filter_re_split:
  assumes "\<And>c. P c \<Longrightarrow> \<not> q c"
  shows "concat (map (filter q) (re_split (many_one (Class P)) t)) = filter q t"
proof -
  have "\<forall>(s, e, m) \<in> set (find_matches t (length t) (many_one (Class P)) 0). \<forall>c \<in> set (slice s e t). \<not> q c"
    using find_matches_match match_at_bounds(2) runs_of_class [of t "length t" P] assms by fast
  then show ?thesis
    using filter_split_at [of 0 t "find_matches t (length t) (many_one (Class P)) 0" q]
    by (simp add: re_split_def find_matches_ordered)
qed

lemma content_normalize [simp]: "content (normalize_query t) = content t"
proof -
  have "concat (map content (re_split space_re t)) = content t"
    unfolding content_def space_re_def by (rule filter_re_split) simp
  then show ?thesis by (simp add: normalize_query_def re_sub_def)
qed

lemma clause_letters: "c \<in> set (clauses t) \<Longrightarrow> set (content c) \<subseteq> set (content t)"
proof -
  assume "c \<in> set (clauses t)"
  then obtain x where x: "x \<in> set (re_split clause_boundary_re t)" "content c = content x"
    by (auto simp: clauses_def)
  show ?thesis using set_re_split [OF x(1)] unfolding x(2) by (auto simp: content_def)
qed

subsection \<open>What is collected\<close>

text \<open>Everything collected is made of the letters \<open>S\<close>.\<close>

definition letters_within :: "nat set \<Rightarrow> collected \<Rightarrow> bool" where
  "letters_within S s \<longleftrightarrow>
     (\<forall>x \<in> snd ` set (cq_pieces s) \<union> snd ` set (cq_unanchored s). set (content x) \<subseteq> S)"

text \<open>The clause is a piece of one of the documents, or goes to both.\<close>

definition kept_clause :: "pytext \<Rightarrow> collected \<Rightarrow> bool" where
  "kept_clause c s \<longleftrightarrow> c \<in> set (map snd (cq_pieces s)) \<or> c \<in> set (map snd (cq_unanchored s))"

definition pieces_of :: "pytext set \<Rightarrow> collected \<Rightarrow> bool" where
  "pieces_of D s \<longleftrightarrow> fst ` set (cq_pieces s) \<subseteq> D"

lemma content_common:
  "content (join [32] (filter (\<lambda>p. p \<noteq> []) [a, b])) = content a @ content b"
  by (cases "a = []"; cases "b = []") simp_all

lemma split_bilateral_clause_Some:
  assumes "split_bilateral_clause u t i j = Some ps"
  obtains l left r right connector tail where
    "l = i \<and> r = j \<or> l = j \<and> r = i"
    and "first_alias_span u t (qi_aliases l) = Some left" and "first_alias_span u t (qi_aliases r) = Some right"
    and "shared_tail_start t (snd right) = Some tail"
    and "map fst ps = [qi_document_id l, qi_document_id r]"
    and "map (content \<circ> snd) ps =
      [content (slice (fst left) (snd left + connector) t) @ content (slice 0 (fst left) t) @ content (drop tail t),
       content (slice (fst right) tail t) @ content (slice 0 (fst left) t) @ content (drop tail t)]"
proof -
  obtain si sj where s: "first_alias_span u t (qi_aliases i) = Some si" "first_alias_span u t (qi_aliases j) = Some sj"
    using assms by (auto simp: split_bilateral_clause_def split: option.splits)
  obtain l left r right where e: "(l, left, r, right) = (if fst si \<le> fst sj then (i, si, j, sj) else (j, sj, i, si))"
    by (metis prod_cases4)
  obtain connector e' where c: "last_connector_span (slice (snd left) (fst right) t) = Some (connector, e')"
    using assms s by (auto simp: split_bilateral_clause_def e [symmetric] split: option.splits)
  obtain tail where tail: "shared_tail_start t (snd right) = Some tail"
    using assms s c by (auto simp: split_bilateral_clause_def e [symmetric] split: option.splits)
  have d: "slice tail (length t) t = drop tail t" by (simp add: slice_def)
  from assms s c tail have "ps = [(qi_document_id l, normalize_query (side (fst left) (snd left + connector) t @ [32] @
        join [32] (filter (\<lambda>p. p \<noteq> []) [side 0 (fst left) t, side tail (length t) t]))),
      (qi_document_id r, normalize_query (side (fst right) tail t @ [32] @
        join [32] (filter (\<lambda>p. p \<noteq> []) [side 0 (fst left) t, side tail (length t) t])))]"
    by (simp add: split_bilateral_clause_def e [symmetric] Let_def split: if_splits)
  moreover have "content [32] = []" by (simp add: content_def separator_def)
  ultimately have ps: "map fst ps = [qi_document_id l, qi_document_id r]"
    "map (content \<circ> snd) ps =
      [content (slice (fst left) (snd left + connector) t) @ content (slice 0 (fst left) t) @ content (drop tail t),
       content (slice (fst right) tail t) @ content (slice 0 (fst left) t) @ content (drop tail t)]"
    by (simp_all only: list.map comp_def fst_conv snd_conv content_normalize content_append content_common
      content_side d append_Nil)
  show ?thesis
    by (rule that [OF _ _ _ tail ps]) (use e s in \<open>auto split: if_splits\<close>)
qed

lemma split_bilateral_letters:
  assumes "split_bilateral_clause u t i j = Some ps"
  shows "set (map fst ps) = {qi_document_id i, qi_document_id j}"
    and "\<forall>x \<in> snd ` set ps. set (content x) \<subseteq> set (content t)"
proof -
  have sub: "set (content (slice a b t)) \<subseteq> set (content t)" for a b
    using set_slice [of a b t] by (auto simp: content_def)
  have sub': "set (content (drop a t)) \<subseteq> set (content t)" for a
    by (auto simp: content_def dest: in_set_dropD)
  from assms have "set (map fst ps) = {qi_document_id i, qi_document_id j} \<and>
      \<Union> (set ` set (map (content \<circ> snd) ps)) \<subseteq> set (content t)"
    by (rule split_bilateral_clause_Some) (use sub sub' in auto)
  then show "set (map fst ps) = {qi_document_id i, qi_document_id j}"
    "\<forall>x \<in> snd ` set ps. set (content x) \<subseteq> set (content t)" by auto
qed

lemma mentioned_cases:
  obtains "mentioned u t [i, j] = []" | k where "mentioned u t [i, j] = [k]" "k = i \<or> k = j"
    | "mentioned u t [i, j] = [i, j]"
  by (cases "first_alias_span u t (qi_aliases i)"; cases "first_alias_span u t (qi_aliases j)")
    (auto simp: mentioned_def)

lemma add_clause_keeps:
  assumes "add_clause u (i, j) (n, t) s = Some s'" and "letters_within S s" and "set (content t) \<subseteq> S"
    and "pieces_of {qi_document_id i, qi_document_id j} s"
  shows "letters_within S s' \<and> pieces_of {qi_document_id i, qi_document_id j} s'
    \<and> (kept_clause c s \<longrightarrow> kept_clause c s')
    \<and> (kept_clause t s' \<or> length (mentioned u t [i, j]) = 2)"
proof (cases rule: mentioned_cases [of u t i j])
  case 1
  then have "s' = s\<lparr>cq_unanchored := cq_unanchored s @ [(n, t)]\<rparr>" using assms(1) by (simp add: add_clause_def)
  then show ?thesis using assms(2-4) by (auto simp: letters_within_def pieces_of_def kept_clause_def)
next
  case (2 k)
  then have "cq_pieces s' = cq_pieces s @ [(qi_document_id k, t)]" "cq_unanchored s' = cq_unanchored s"
    using assms(1) by (auto simp: add_clause_def)
  then show ?thesis using assms(2-4) 2 by (auto simp: letters_within_def pieces_of_def kept_clause_def)
next
  case 3
  then obtain ps where ps: "split_bilateral_clause u t i j = Some ps" "cq_pieces s' = cq_pieces s @ ps"
    "cq_unanchored s' = cq_unanchored s"
    using assms(1) by (auto simp: add_clause_def split: option.splits)
  have "fst ` set ps = {qi_document_id i, qi_document_id j}" "\<forall>x \<in> snd ` set ps. set (content x) \<subseteq> S"
    using split_bilateral_letters [OF ps(1)] assms(3) by auto
  then show ?thesis using ps(2,3) 3 assms(2,4)
    unfolding letters_within_def pieces_of_def kept_clause_def by (simp add: image_Un ball_Un)
qed

lemma add_clauses_keep:
  assumes "add_clauses u (i, j) nts s = Some s'" and "letters_within S s"
    and "\<forall>(_, t) \<in> set nts. set (content t) \<subseteq> S" and "pieces_of {qi_document_id i, qi_document_id j} s"
  shows "letters_within S s' \<and> pieces_of {qi_document_id i, qi_document_id j} s'
    \<and> (kept_clause c s \<longrightarrow> kept_clause c s')
    \<and> (c \<in> snd ` set nts \<longrightarrow> kept_clause c s' \<or> length (mentioned u c [i, j]) = 2)"
  using assms
proof (induction nts arbitrary: s)
  case (Cons nt nts)
  obtain n t where nt: "nt = (n, t)" by (cases nt)
  from Cons.prems(1) obtain m where m: "add_clause u (i, j) (n, t) s = Some m" "add_clauses u (i, j) nts m = Some s'"
    by (auto simp: nt split: option.splits)
  have t: "set (content t) \<subseteq> S" "\<forall>(_, t) \<in> set nts. set (content t) \<subseteq> S" using Cons.prems(3) by (auto simp: nt)
  note k = add_clause_keeps [OF m(1) Cons.prems(2) t(1) Cons.prems(4)]
  note r = Cons.IH [OF m(2) _ t(2)]
  show ?case using k [of c] k [of t] r by (auto simp: nt)
qed simp

subsection \<open>What is asked\<close>

lemma assign_leading_Some:
  assumes "assign_leading u ts question k k' s = Some s'"
  obtains leading where "cq_pieces s' = cq_pieces s @ map (Pair (qi_document_id k')) leading"
    and "set leading \<union> snd ` set (cq_unanchored s') = snd ` set (cq_unanchored s)"
    and "\<exists>n. first_marker_anchor u question ts = Some n \<and> n < first_document_anchor u question (qi_aliases k)"
proof -
  define n where "n = the (least (map snd (filter (\<lambda>(d, _). d = qi_document_id k) (cq_anchors s))))"
  define leading where "leading = map snd (filter (\<lambda>(i, _). i < n) (cq_unanchored s))"
  have "cq_pieces s' = cq_pieces s @ map (Pair (qi_document_id k')) leading"
    "cq_unanchored s' = filter (\<lambda>(i, _). n \<le> i) (cq_unanchored s)"
    "\<exists>n. first_marker_anchor u question ts = Some n \<and> n < first_document_anchor u question (qi_aliases k)"
    using assms by (auto simp: assign_leading_def leading_def n_def Let_def comp_def not_le split: option.splits if_splits)
  moreover have "set leading \<union> snd ` set (filter (\<lambda>(i, _). n \<le> i) (cq_unanchored s)) = snd ` set (cq_unanchored s)"
    unfolding leading_def using le_less_linear by (force simp: image_iff)
  ultimately show thesis using that by simp
qed

lemma assign_leading_keeps:
  assumes "assign_leading u ts question k k' s = Some s'"
  shows "letters_within S s \<Longrightarrow> letters_within S s'" and "kept_clause c s \<Longrightarrow> kept_clause c s'"
    and "pieces_of D s \<Longrightarrow> qi_document_id k' \<in> D \<Longrightarrow> pieces_of D s'"
proof -
  obtain leading where l: "cq_pieces s' = cq_pieces s @ map (Pair (qi_document_id k')) leading"
    "set leading \<union> snd ` set (cq_unanchored s') = snd ` set (cq_unanchored s)"
    by (rule assign_leading_Some [OF assms])
  have parts: "snd ` set (cq_pieces s') \<union> snd ` set (cq_unanchored s') = snd ` set (cq_pieces s) \<union> snd ` set (cq_unanchored s)"
    using l by (simp add: image_Un image_image Un_assoc)
  then show "letters_within S s \<Longrightarrow> letters_within S s'" by (simp only: letters_within_def)
  show "kept_clause c s \<Longrightarrow> kept_clause c s'" using parts by (auto simp only: kept_clause_def set_map Un_iff [symmetric])
  show "pieces_of D s \<Longrightarrow> qi_document_id k' \<in> D \<Longrightarrow> pieces_of D s'"
    using l(1) by (auto simp: pieces_of_def)
qed

lemma content_query_of:
  "content (query_of s d) =
     concat (map content (map snd (filter (\<lambda>p. fst p = d) (cq_pieces s)) @ map snd (cq_unanchored s)))"
  by (simp only: query_of_def content_normalize content_join case_prod_beta')

lemma sublist_part: "x \<in> set xs \<Longrightarrow> sublist (f x) (concat (map f xs))"
  by (force dest: split_list)

lemma kept_clause_asked:
  assumes "kept_clause c s" and "pieces_of {d, e} s"
  obtains k where "k = d \<or> k = e" and "sublist (content c) (content (query_of s k))"
proof -
  obtain k where k: "k = d \<or> k = e"
    "c \<in> set (map snd (filter (\<lambda>p. fst p = k) (cq_pieces s)) @ map snd (cq_unanchored s))"
  proof (cases "c \<in> snd ` set (cq_unanchored s)")
    case True
    then show ?thesis by (intro that [of d]) auto
  next
    case False
    then obtain k where "(k, c) \<in> set (cq_pieces s)" using assms(1) by (auto simp: kept_clause_def)
    moreover from this have "k \<in> {d, e}" using assms(2) by (force simp: pieces_of_def)
    ultimately show ?thesis by (intro that [of k]) force+
  qed
  show thesis by (rule that [OF k(1)]) (unfold content_query_of, rule sublist_part [OF k(2)])
qed

lemma query_of_letters:
  assumes "letters_within S s"
  shows "set (content (query_of s d)) \<subseteq> S"
proof
  fix c assume "c \<in> set (content (query_of s d))"
  then obtain x where "x \<in> set (map snd (filter (\<lambda>p. fst p = d) (cq_pieces s)) @ map snd (cq_unanchored s))"
    "c \<in> set (content x)"
    unfolding content_query_of set_concat set_map by blast
  then have "x \<in> snd ` set (cq_pieces s) \<union> snd ` set (cq_unanchored s)" "c \<in> set (content x)"
    by (auto simp only: set_append set_map set_filter)
  then show "c \<in> S" using assms by (auto simp: letters_within_def)
qed

text \<open>The state the queries are made of.\<close>

lemma decompose_Some:
  assumes "decompose u ts question i j = Some queries"
  obtains s where "letters_within (set (content question)) s"
    and "pieces_of {qi_document_id i, qi_document_id j} s"
    and "\<forall>c \<in> set (clauses question). kept_clause c s \<or> length (mentioned u c [i, j]) = 2"
    and "queries = [(qi_document_id i, query_of s (qi_document_id i)), (qi_document_id j, query_of s (qi_document_id j))]"
proof -
  let ?cs = "clauses question"
  let ?s0 = "\<lparr>cq_pieces = [], cq_unanchored = [], cq_anchors = []\<rparr>"
  obtain m s where m: "add_clauses u (i, j) (zip [0..<length ?cs] ?cs) ?s0 = Some m"
    and s: "s = m \<or> assign_leading u ts question i j m = Some s \<or> assign_leading u ts question j i m = Some s"
    and q: "queries = [(qi_document_id i, query_of s (qi_document_id i)), (qi_document_id j, query_of s (qi_document_id j))]"
    using assms by (auto simp: decompose_def Let_def split: option.splits if_splits)
  have "\<forall>(_, t) \<in> set (zip [0..<length ?cs] ?cs). set (content t) \<subseteq> set (content question)"
    using clause_letters by (auto dest!: set_zip_rightD)
  moreover have "letters_within (set (content question)) ?s0" "pieces_of {qi_document_id i, qi_document_id j} ?s0"
    by (simp_all add: letters_within_def pieces_of_def)
  ultimately have k: "letters_within (set (content question)) m" "pieces_of {qi_document_id i, qi_document_id j} m"
    "c \<in> set ?cs \<Longrightarrow> kept_clause c m \<or> length (mentioned u c [i, j]) = 2" for c
    using add_clauses_keep [OF m, of _ c] by (auto simp flip: set_map)
  show ?thesis
  proof (rule that [OF _ _ _ q])
    show "letters_within (set (content question)) s" using s k(1) assign_leading_keeps(1) by blast
    show "pieces_of {qi_document_id i, qi_document_id j} s" using s k(2) assign_leading_keeps(3) by blast
    show "\<forall>c \<in> set ?cs. kept_clause c s \<or> length (mentioned u c [i, j]) = 2"
      using s k(3) assign_leading_keeps(2) by blast
  qed
qed

lemma plan_applied:
  assumes "pl_status (plan_queries u cfg enabled question route_ids) = PLAN_APPLIED"
  obtains d e i j queries where "route_ids = [d, e]" and "d \<noteq> e" and "identity_by_id cfg d = Some i"
    and "identity_by_id cfg e = Some j" and "decompose u (cg_transition_markers cfg) question i j = Some queries"
    and "pl_queries (plan_queries u cfg enabled question route_ids) = queries"
    and "\<forall>x \<in> set queries. \<not> blank (snd x)"
  using assms
  by (auto simp: plan_queries_def plan_fallback_def Let_def case_prod_beta' split: list.splits option.splits if_splits)

lemma identity_by_id_id: "identity_by_id cfg d = Some i \<Longrightarrow> qi_document_id i = d"
  by (auto simp: identity_by_id_def dest!: map_of_SomeD)

lemma plan_keeps_question:
  assumes "p = plan_queries u cfg enabled question route_ids"
  shows "set (map fst (pl_queries p)) = set route_ids \<and> distinct (map fst (pl_queries p))
    \<and> (pl_status p \<noteq> PLAN_APPLIED \<longrightarrow> snd ` set (pl_queries p) \<subseteq> {question})
    \<and> (\<forall>x \<in> set (pl_queries p). set (content (snd x)) \<subseteq> set (content question))
    \<and> (pl_status p = PLAN_APPLIED \<longrightarrow> (\<forall>x \<in> set (pl_queries p). \<not> blank (snd x))
        \<and> (\<forall>c \<in> set (clauses question).
              length (mentioned u c (map (the \<circ> identity_by_id cfg) route_ids)) = 2
              \<or> (\<exists>x \<in> set (pl_queries p). sublist (content c) (content (snd x)))))"
proof (cases "pl_status p = PLAN_APPLIED")
  case True
  then obtain d e i j queries where a: "route_ids = [d, e]" "d \<noteq> e" "identity_by_id cfg d = Some i"
    "identity_by_id cfg e = Some j" "decompose u (cg_transition_markers cfg) question i j = Some queries"
    "pl_queries p = queries" "\<forall>x \<in> set queries. \<not> blank (snd x)"
    unfolding assms by (rule plan_applied)
  have ids: "qi_document_id i = d" "qi_document_id j = e" using a(3,4) identity_by_id_id by blast+
  obtain s where s: "letters_within (set (content question)) s" "pieces_of {d, e} s"
    "\<forall>c \<in> set (clauses question). kept_clause c s \<or> length (mentioned u c [i, j]) = 2"
    "queries = [(d, query_of s d), (e, query_of s e)]"
    by (rule decompose_Some [OF a(5)]) (simp add: ids)
  have "length (mentioned u c [i, j]) = 2 \<or> (\<exists>x \<in> set queries. sublist (content c) (content (snd x)))"
    if "c \<in> set (clauses question)" for c
  proof (cases "kept_clause c s")
    case True
    from kept_clause_asked [OF this s(2)] show ?thesis by (auto simp: s(4))
  qed (use s(3) that in blast)
  moreover have "\<forall>x \<in> set queries. set (content (snd x)) \<subseteq> set (content question)"
    using query_of_letters [OF s(1)] by (simp add: s(4))
  moreover have "set (map fst queries) = {d, e}" "distinct (map fst queries)" using a(2) by (simp_all add: s(4))
  moreover have "map (the \<circ> identity_by_id cfg) route_ids = [i, j]" using a(1,3,4) by simp
  ultimately show ?thesis using True a(1,6,7) by simp
next
  case False
  then have "pl_queries p = original_queries question route_ids"
    by (auto simp: assms plan_queries_def plan_fallback_def Let_def split: list.splits option.splits if_splits)
  with False show ?thesis by (auto simp: original_queries_def comp_def)
qed

subsection \<open>Aliases\<close>

text \<open>Where every letter folds to one letter, positions in folded text are positions in the text.\<close>

definition single_fold :: "unicode \<Rightarrow> bool" where
  "single_fold u \<longleftrightarrow> (\<forall>c. length (uc_fold u c) = 1)"

lemma casefold_single:
  assumes "single_fold u"
  shows "casefold u t = map (\<lambda>c. hd (uc_fold u c)) t"
proof -
  have "uc_fold u c = [hd (uc_fold u c)]" for c
    using assms by (metis single_fold_def One_nat_def length_0_conv length_Suc_conv list.sel(1))
  then show ?thesis by (induction t) (simp_all add: casefold_def)
qed

lemma casefold_slice: "single_fold u \<Longrightarrow> casefold u (slice a b t) = slice a b (casefold u t)"
  by (simp add: casefold_single slice_def take_map drop_map)

lemma fold_earlier_span: "fold earlier_span ss s \<in> set (s # ss)"
proof (induction ss arbitrary: s)
  case (Cons a ss)
  then have "fold earlier_span ss (earlier_span a s) \<in> set (earlier_span a s # ss)" by blast
  moreover have "earlier_span a s = a \<or> earlier_span a s = s" by (simp add: earlier_span_def)
  ultimately show ?case by auto
qed simp

text \<open>The text has a word that is an alias of the document, up to case.\<close>

definition names_document :: "unicode \<Rightarrow> query_identity \<Rightarrow> pytext \<Rightarrow> bool" where
  "names_document u i t \<longleftrightarrow> (\<exists>a \<in> set (qi_aliases i). \<exists>w. casefold u w = casefold u a \<and>
     sublist (content w) (content t))"

lemma names_document_mono: "names_document u i s \<Longrightarrow> sublist (content s) (content t) \<Longrightarrow> names_document u i t"
  unfolding names_document_def using sublist_order.order_trans by blast

lemma first_alias_span_names:
  assumes "single_fold u" and "first_alias_span u t (qi_aliases i) = Some (a, b)"
  shows "a \<le> b" and "names_document u i (slice a b t)"
proof -
  have "(a, b) \<in> set (alias_spans u t (qi_aliases i))"
    using assms(2) fold_earlier_span
    by (cases "alias_spans u t (qi_aliases i)") (simp add: first_alias_span_def, metis first_alias_span_def list.case(2) option.inject)
  then obtain al where al: "al \<in> set (qi_aliases i)" "text_find (casefold u al) (casefold u t) 0 = Some a"
    "b = a + length al"
    by (auto simp: alias_spans_def split: option.splits)
  have "casefold u (slice a b t) = casefold u al"
    using text_find_Some [OF al(2)] al(3) by (simp add: casefold_slice assms(1)) (simp add: casefold_single assms(1))
  then show "a \<le> b" "names_document u i (slice a b t)" using al by (auto simp: names_document_def)
qed

text \<open>Every document with an anchor has a piece that names it.\<close>

definition anchors_named :: "unicode \<Rightarrow> query_identity list \<Rightarrow> collected \<Rightarrow> bool" where
  "anchors_named u ids s \<longleftrightarrow> (\<forall>k \<in> set ids. anchored (qi_document_id k) s \<longrightarrow>
     (\<exists>x. (qi_document_id k, x) \<in> set (cq_pieces s) \<and> names_document u k x))"

lemma sublist_content_slice:
  assumes "a' \<le> a" and "b \<le> b'"
  shows "sublist (content (slice a b t)) (content (slice a' b' t))"
proof (cases "a \<le> b")
  case True
  then have "slice a' b' t = slice a' a t @ slice a b t @ slice b b' t"
    using slice_append [of a' a b t] slice_append [of a' b b' t] assms True
    by (metis append_assoc order_trans)
  then show ?thesis by simp
qed (simp add: slice_empty)

lemma split_bilateral_names:
  assumes "single_fold u" and "split_bilateral_clause u t i j = Some ps" and "k = i \<or> k = j"
    and "qi_document_id i \<noteq> qi_document_id j"
  shows "\<exists>x. (qi_document_id k, x) \<in> set ps \<and> names_document u k x"
proof -
  obtain l left r right connector tail where o: "l = i \<and> r = j \<or> l = j \<and> r = i"
    and left: "first_alias_span u t (qi_aliases l) = Some left" and right: "first_alias_span u t (qi_aliases r) = Some right"
    and tail: "shared_tail_start t (snd right) = Some tail" and ids: "map fst ps = [qi_document_id l, qi_document_id r]"
    and texts: "map (content \<circ> snd) ps =
      [content (slice (fst left) (snd left + connector) t) @ content (slice 0 (fst left) t) @ content (drop tail t),
       content (slice (fst right) tail t) @ content (slice 0 (fst left) t) @ content (drop tail t)]"
    by (rule split_bilateral_clause_Some [OF assms(2)])
  obtain p q where ps: "ps = [(qi_document_id l, p), (qi_document_id r, q)]"
    using ids by (auto simp: map_eq_Cons_conv)
  have "snd right \<le> tail" using tail by (auto simp: shared_tail_start_def Let_def)
  moreover have "sublist (x :: nat list) y \<Longrightarrow> sublist x (y @ z)" for x y z
    by (metis append_assoc sublist_def)
  ultimately have "sublist (content (slice (fst left) (snd left) t)) (content p)"
    "sublist (content (slice (fst right) (snd right) t)) (content q)"
    using texts sublist_content_slice [of "fst left" "fst left" "snd left" "snd left + connector" t]
      sublist_content_slice [of "fst right" "fst right" "snd right" tail t] by (simp_all add: ps)
  with first_alias_span_names(2) [OF assms(1), of t l "fst left" "snd left"]
    first_alias_span_names(2) [OF assms(1), of t r "fst right" "snd right"] left right
  have "names_document u l p" "names_document u r q" by (auto intro: names_document_mono)
  moreover have "k = l \<or> k = r" using o assms(3) by auto
  ultimately show ?thesis by (auto simp: ps)
qed

lemma mentioned_names:
  assumes "single_fold u" and "k \<in> set (mentioned u t ids)"
  shows "names_document u k t"
proof -
  obtain a b where s: "first_alias_span u t (qi_aliases k) = Some (a, b)" using assms(2) by (auto simp: mentioned_def)
  have "sublist (content (slice a b t)) (content (slice 0 (max b (length t)) t))" by (rule sublist_content_slice) simp_all
  moreover have "slice 0 (max b (length t)) t = t" by (simp add: slice_def)
  ultimately show ?thesis using first_alias_span_names(2) [OF assms(1) s] names_document_mono by simp
qed

lemma add_clause_names:
  assumes "single_fold u" and "add_clause u (i, j) (n, t) s = Some s'" and "anchors_named u [i, j] s"
    and "qi_document_id i \<noteq> qi_document_id j"
  shows "anchors_named u [i, j] s'"
proof (cases rule: mentioned_cases [of u t i j])
  case 1
  then have "s' = s\<lparr>cq_unanchored := cq_unanchored s @ [(n, t)]\<rparr>" using assms(2) by (simp add: add_clause_def)
  then show ?thesis using assms(3) by (simp add: anchors_named_def anchored_def)
next
  case (2 k)
  then have "cq_pieces s' = cq_pieces s @ [(qi_document_id k, t)]"
    "cq_anchors s' = cq_anchors s @ [(qi_document_id k, n)]" using assms(2) by (auto simp: add_clause_def)
  moreover have "names_document u k t" using mentioned_names [OF assms(1), of k t "[i, j]"] 2(1) by simp
  ultimately show ?thesis using assms(3,4) 2(2) by (auto simp: anchors_named_def anchored_def)
next
  case 3
  then obtain ps where ps: "split_bilateral_clause u t i j = Some ps" "cq_pieces s' = cq_pieces s @ ps"
    using assms(2) by (auto simp: add_clause_def split: option.splits)
  show ?thesis using split_bilateral_names [OF assms(1) ps(1) _ assms(4)]
    unfolding anchors_named_def ps(2) by simp blast
qed

lemma add_clauses_names:
  "single_fold u \<Longrightarrow> qi_document_id i \<noteq> qi_document_id j \<Longrightarrow> add_clauses u (i, j) nts s = Some s' \<Longrightarrow>
     anchors_named u [i, j] s \<Longrightarrow> anchors_named u [i, j] s'"
  by (induction nts arbitrary: s) (auto split: option.splits dest: add_clause_names)

lemma query_of_piece: "(d, x) \<in> set (cq_pieces s) \<Longrightarrow> sublist (content x) (content (query_of s d))"
  unfolding content_query_of by (rule sublist_part) force

text \<open>A document is named in its query, or a transition comes before the other one.\<close>

definition after_transition :: "unicode \<Rightarrow> pytext list \<Rightarrow> pytext \<Rightarrow> query_identity \<Rightarrow> bool" where
  "after_transition u transitions question k \<longleftrightarrow> (\<exists>n. first_marker_anchor u question transitions = Some n \<and>
     n < first_document_anchor u question (qi_aliases k))"

lemma decompose_names:
  assumes "single_fold u" and "decompose u ts question i j = Some queries"
    and "qi_document_id i \<noteq> qi_document_id j" and "(k, other) = (i, j) \<or> (k, other) = (j, i)"
    and "(qi_document_id k, q) \<in> set queries"
  shows "names_document u k q \<or> after_transition u ts question other"
proof -
  let ?cs = "clauses question"
  obtain m s where m: "add_clauses u (i, j) (zip [0..<length ?cs] ?cs) \<lparr>cq_pieces = [], cq_unanchored = [], cq_anchors = []\<rparr> = Some m"
    and s: "if anchored (qi_document_id i) m \<and> anchored (qi_document_id j) m then s = m
      else if anchored (qi_document_id i) m then assign_leading u ts question i j m = Some s
      else anchored (qi_document_id j) m \<and> assign_leading u ts question j i m = Some s"
    and q: "queries = [(qi_document_id i, query_of s (qi_document_id i)), (qi_document_id j, query_of s (qi_document_id j))]"
    using assms(2) by (auto simp: decompose_def Let_def split: option.splits if_splits)
  have named: "anchors_named u [i, j] m"
    by (rule add_clauses_names [OF assms(1,3) m]) (simp add: anchors_named_def anchored_def)
  have pieces: "set (cq_pieces m) \<subseteq> set (cq_pieces s)"
    using s by (auto split: if_splits elim!: assign_leading_Some)
  have query: "q = query_of s (qi_document_id k)" using assms(3,4,5) by (auto simp: q)
  show ?thesis
  proof (cases "anchored (qi_document_id k) m")
    case True
    then obtain x where x: "(qi_document_id k, x) \<in> set (cq_pieces m)" "names_document u k x"
      using named assms(4) by (auto simp: anchors_named_def)
    with pieces query_of_piece [of "qi_document_id k" x s] show ?thesis
      by (auto simp: query intro: names_document_mono)
  next
    case False
    with s assms(4) have "assign_leading u ts question other k m = Some s" by (auto split: if_splits)
    then have "after_transition u ts question other"
      by (rule assign_leading_Some) (simp add: after_transition_def)
    then show ?thesis by simp
  qed
qed

subsection \<open>A comparison\<close>

definition sample_comparison :: comparison_config where
  "sample_comparison = \<lparr>cg_default_enabled = False, cg_comparison_markers = [ascii ''compare''],
     cg_transition_markers = [ascii ''while''],
     cg_identities = [\<lparr>qi_document_id = ascii ''a1'', qi_aliases = [ascii ''a1'', ascii ''Alpha'']\<rparr>,
       \<lparr>qi_document_id = ascii ''b1'', qi_aliases = [ascii ''b1'', ascii ''Beta'']\<rparr>]\<rparr>"

text \<open>Two clauses: one about both documents and what they share, one about the second alone.\<close>

definition sample_comparison_question :: pytext where
  "sample_comparison_question = ascii ''Compare Alpha vs Beta '' @ [22312] @ ascii '' recall; BETA is small''"

lemma sample_plan: "plan_queries sample_unicode sample_comparison True sample_comparison_question [ascii ''a1'', ascii ''b1''] =
  \<lparr>pl_status = PLAN_APPLIED, pl_queries = [(ascii ''a1'', ascii ''Alpha Compare '' @ [22312] @ ascii '' recall''),
     (ascii ''b1'', ascii ''Beta Compare '' @ [22312] @ ascii '' recall BETA is small'')], pl_failure_code = None\<rparr>"
  by code_simp

text \<open>C19. With the decomposer installed, an online search asks for the question and nothing else. There is one
  query for every route and no other, and no query has a letter the question has not. If the plan is not
  applied, every query is the question; if it is, no query is blank, and every clause of the question that
  does not mention both documents is part of one of them, word for word up to spaces and commas.\<close>

theorem planned_queries_keep_question:
  assumes "oe_planner env = Some (installed_planner u cfg enabled)"
    and "p = plan_queries u cfg enabled question (map (\<lambda>r. ascii (rt_document_id r)) routes)"
    and "queries = route_queries env question routes"
  shows "set (map fst queries) = set (map rt_document_id routes)
    \<and> (\<forall>x \<in> set queries. set (content (snd x)) \<subseteq> set (content question))
    \<and> (pl_status p \<noteq> PLAN_APPLIED \<longrightarrow> snd ` set queries \<subseteq> {question})
    \<and> (pl_status p = PLAN_APPLIED \<longrightarrow> (\<forall>x \<in> set queries. \<not> blank (snd x))
        \<and> (\<forall>c \<in> set (clauses question).
              length (mentioned u c (map (\<lambda>r. the (identity_by_id cfg (ascii (rt_document_id r)))) routes)) = 2
              \<or> (\<exists>x \<in> set queries. sublist (content c) (content (snd x)))))"
proof -
  let ?ids = "map (\<lambda>r. ascii (rt_document_id r)) routes"
  let ?decoded = "map (\<lambda>(d, q). (map char_of d, q)) (pl_queries p) :: (string \<times> pytext) list"
  note k = plan_keeps_question [of p, OF assms(2)]
  have "installed_planner u cfg enabled question (map rt_document_id routes) =
      Inr \<lparr>qp_applied = (pl_status p = PLAN_APPLIED), qp_queries = ?decoded\<rparr>"
    by (simp add: installed_planner_def assms(2) comp_def Let_def)
  then have queries: "queries = (if pl_status p = PLAN_APPLIED \<and> set (map fst ?decoded) = set (map rt_document_id routes)
      \<and> list_all (\<lambda>(_, q). \<not> blank q) ?decoded then ?decoded else map (\<lambda>r. (rt_document_id r, question)) routes)"
    by (simp add: assms(3) route_queries_def assms(1))
  have "map fst ?decoded = map (map char_of) (map fst (pl_queries p))" by (simp add: case_prod_beta')
  then have "set (map fst ?decoded) = map char_of ` set ?ids" using k by (metis list.set_map)
  then have docs: "set (map fst ?decoded) = set (map rt_document_id routes)"
    by (simp add: image_image ascii_def comp_def)
  have texts: "snd ` set ?decoded = snd ` set (pl_queries p)" by (force simp: image_iff)
  show ?thesis
  proof (cases "pl_status p = PLAN_APPLIED")
    case True
    then have "\<forall>x \<in> snd ` set (pl_queries p). \<not> blank x" using k by simp
    then have "list_all (\<lambda>(_, q). \<not> blank q) ?decoded" unfolding list_all_iff texts [symmetric] by auto
    with True docs have q: "queries = ?decoded" by (simp add: queries)
    have mem: "snd x \<in> snd ` set (pl_queries p)" if "x \<in> set queries" for x
      using that unfolding q texts [symmetric] by (rule imageI)
    have "\<forall>x \<in> snd ` set (pl_queries p). set (content x) \<subseteq> set (content question) \<and> \<not> blank x"
      using k True by simp
    then have "\<forall>x \<in> set queries. set (content (snd x)) \<subseteq> set (content question)"
      "\<forall>x \<in> set queries. \<not> blank (snd x)" using mem by blast+
    moreover have "\<exists>x \<in> set queries. sublist (content c) (content (snd x))"
      if ex: "\<exists>x \<in> set (pl_queries p). sublist (content c) (content (snd x))" for c
    proof -
      obtain x where x: "x \<in> set (pl_queries p)" "sublist (content c) (content (snd x))" using ex by blast
      then have "snd x \<in> snd ` set queries" unfolding q texts by blast
      then obtain y where "y \<in> set queries" "snd x = snd y" by (rule imageE)
      with x(2) show ?thesis by auto
    qed
    moreover have "\<forall>c \<in> set (clauses question).
        length (mentioned u c (map (\<lambda>r. the (identity_by_id cfg (ascii (rt_document_id r)))) routes)) = 2
        \<or> (\<exists>x \<in> set (pl_queries p). sublist (content c) (content (snd x)))"
      using k True by (simp add: comp_def)
    ultimately have "\<forall>c \<in> set (clauses question).
        length (mentioned u c (map (\<lambda>r. the (identity_by_id cfg (ascii (rt_document_id r)))) routes)) = 2
        \<or> (\<exists>x \<in> set queries. sublist (content c) (content (snd x)))"
      "\<forall>x \<in> set queries. set (content (snd x)) \<subseteq> set (content question)"
      "\<forall>x \<in> set queries. \<not> blank (snd x)" by blast+
    moreover have "set (map fst queries) = set (map rt_document_id routes)" using docs by (simp only: q)
    ultimately show ?thesis using True by simp
  next
    case False
    then show ?thesis by (auto simp: queries)
  qed
qed

text \<open>What the theorem says of the sample question, its second clause included.\<close>

definition sample_comparison_routes :: "route list" where
  "sample_comparison_routes = [sample_route\<lparr>rt_document_id := ''a1''\<rparr>, sample_route\<lparr>rt_document_id := ''b1''\<rparr>]"

theorem planned_queries_keep_question_witness:
  "\<exists>x \<in> set (route_queries (sample_online_env\<lparr>oe_planner := Some (installed_planner sample_unicode sample_comparison True)\<rparr>)
      sample_comparison_question sample_comparison_routes). sublist (ascii ''BETAissmall'') (content (snd x))"
proof -
  let ?env = "sample_online_env\<lparr>oe_planner := Some (installed_planner sample_unicode sample_comparison True)\<rparr>"
  have "ascii ''BETA is small'' \<in> set (clauses sample_comparison_question)"
    "length (mentioned sample_unicode (ascii ''BETA is small'')
      (map (\<lambda>r. the (identity_by_id sample_comparison (ascii (rt_document_id r)))) sample_comparison_routes)) \<noteq> 2"
    "content (ascii ''BETA is small'') = ascii ''BETAissmall''"
    "map (\<lambda>r. ascii (rt_document_id r)) sample_comparison_routes = [ascii ''a1'', ascii ''b1'']"
    by code_simp+
  moreover have "pl_status (plan_queries sample_unicode sample_comparison True sample_comparison_question
      (map (\<lambda>r. ascii (rt_document_id r)) sample_comparison_routes)) = PLAN_APPLIED"
    using sample_plan calculation(4) by simp
  moreover note planned_queries_keep_question [of ?env sample_unicode sample_comparison True, OF _ refl refl,
      of sample_comparison_question sample_comparison_routes]
  moreover have "oe_planner ?env = Some (installed_planner sample_unicode sample_comparison True)" by simp
  ultimately show ?thesis by metis
qed

text \<open>Where every letter folds to one letter, the query of a document in an applied plan names this
  document (a word of it is one of the document's aliases, up to case), or a transition marker comes
  before the first mention of the other document in the question.\<close>

theorem planned_query_names_document:
  assumes "single_fold u" and "p = plan_queries u cfg enabled question [d, e]" and "pl_status p = PLAN_APPLIED"
    and "(k, q) \<in> set (pl_queries p)" and "identity_by_id cfg k = Some i"
  shows "names_document u i q \<or> (\<exists>o' \<in> {d, e} - {k}. \<exists>j. identity_by_id cfg o' = Some j \<and>
    after_transition u (cg_transition_markers cfg) question j)"
proof -
  obtain a b queries where ids: "identity_by_id cfg d = Some a" "identity_by_id cfg e = Some b" "d \<noteq> e"
    and q: "decompose u (cg_transition_markers cfg) question a b = Some queries" "pl_queries p = queries"
    using assms(3) unfolding assms(2) by (rule plan_applied) auto
  have docs: "qi_document_id a = d" "qi_document_id b = e" using ids identity_by_id_id by blast+
  have "k = d \<or> k = e" by (rule decompose_Some [OF q(1)]) (use assms(4) q(2) docs in auto)
  moreover have "names_document u i q \<or> after_transition u (cg_transition_markers cfg) question b" if "k = d"
    using decompose_names [OF assms(1) q(1), of a b q] docs ids(1,3) assms(4,5) that q(2) by auto
  moreover have "names_document u i q \<or> after_transition u (cg_transition_markers cfg) question a" if "k = e"
    using decompose_names [OF assms(1) q(1), of b a q] docs ids(2,3) assms(4,5) that q(2) by auto
  ultimately show ?thesis using ids by auto
qed

theorem planned_query_names_document_witness:
  "names_document sample_unicode \<lparr>qi_document_id = ascii ''b1'', qi_aliases = [ascii ''b1'', ascii ''Beta'']\<rparr>
     (ascii ''Beta Compare '' @ [22312] @ ascii '' recall BETA is small'')"
proof -
  have "single_fold sample_unicode" by (simp add: single_fold_def sample_unicode_def)
  moreover have "identity_by_id sample_comparison (ascii ''b1'') =
      Some \<lparr>qi_document_id = ascii ''b1'', qi_aliases = [ascii ''b1'', ascii ''Beta'']\<rparr>"
    "first_marker_anchor sample_unicode sample_comparison_question (cg_transition_markers sample_comparison) = None"
    by code_simp+
  ultimately show ?thesis
    using planned_query_names_document [of sample_unicode _ sample_comparison True sample_comparison_question
        "ascii ''a1''" "ascii ''b1''", OF _ refl, of "ascii ''b1''"
        "ascii ''Beta Compare '' @ [22312] @ ascii '' recall BETA is small''"]
    by (auto simp: sample_plan after_transition_def)
qed

lemma text_find_first:
  assumes "occurs_at a t k" and "\<And>i. i < k \<Longrightarrow> \<not> occurs_at a t i"
  shows "text_find a t 0 = Some k"
proof -
  have "k < Suc (length t)" using assms(1) by (simp add: occurs_at_def)
  then show ?thesis unfolding text_find_def find_Some_iff
    using assms by (intro exI [of _ k]) (simp del: upt_Suc)
qed

lemma length_casefold:
  "\<forall>c \<in> set p. uc_fold u c \<noteq> [] \<Longrightarrow>
     length (casefold u p) = length p + (\<Sum>c\<leftarrow>p. length (uc_fold u c) - 1)"
  unfolding casefold_def
proof (induction p)
  case (Cons c p)
  have "0 < length (uc_fold u c)" using Cons.prems by simp
  then have "length (uc_fold u c) = 1 + (length (uc_fold u c) - 1)" by simp
  with Cons show ?case by simp
qed simp

text \<open>When one alias of a document occurs in the text, first at some position of the folded text, the
  span has that position.\<close>

lemma fold_earlier_same: "\<forall>x \<in> set ss. x = s \<Longrightarrow> fold earlier_span ss s = s"
  by (induction ss) (simp_all add: earlier_span_def)

lemma first_alias_span_single:
  assumes "a \<in> set aliases" and "text_find (casefold u a) (casefold u t) 0 = Some k"
    and "\<forall>b \<in> set aliases. b \<noteq> a \<longrightarrow> \<not> contains (casefold u b) (casefold u t)"
  shows "first_alias_span u t aliases = Some (k, k + length a)"
proof -
  have "set (alias_spans u t aliases) = {(k, k + length a)}"
    using assms by (auto simp: alias_spans_def contains_def split: option.splits)
  then obtain s ss where "alias_spans u t aliases = s # ss" "s = (k, k + length a)" "\<forall>x \<in> set ss. x = s"
    by (cases "alias_spans u t aliases") auto
  then show ?thesis by (simp add: first_alias_span_def fold_earlier_same)
qed

text \<open>C21. Positions in the folded text are used in the text itself. Let one alias of a document stand
  behind some text \<open>p\<close>, its folded form occurring no earlier, and let no other alias of the document
  occur. Every letter of \<open>p\<close> that folds to two (the ligature \<open>fi\<close>, the German sharp s) or more moves the
  span of the alias by the letters it gains, \<open>n\<close> in all: the alias begins behind \<open>p\<close>, its span \<open>n\<close>
  letters further right, and the text at the span is the rest of the text without its first \<open>n\<close>
  letters, cut to the length of the alias.\<close>

theorem alias_span_is_shifted:
  assumes "t = p @ alias @ rest" and "alias \<in> set aliases" and "\<forall>c \<in> set p. uc_fold u c \<noteq> []"
    and "n = (\<Sum>c\<leftarrow>p. length (uc_fold u c) - 1)" and "0 < n"
    and "\<forall>i < length (casefold u p). \<not> occurs_at (casefold u alias) (casefold u t) i"
    and "\<forall>b \<in> set aliases. b \<noteq> alias \<longrightarrow> \<not> contains (casefold u b) (casefold u t)"
  shows "first_alias_span u t aliases = Some (length p + n, length p + n + length alias)
    \<and> slice (length p) (length p + length alias) t = alias
    \<and> slice (length p + n) (length p + n + length alias) t = take (length alias) (drop n (alias @ rest))"
proof -
  have fold: "casefold u t = casefold u p @ casefold u alias @ casefold u rest"
    unfolding assms(1) by (simp add: casefold_def)
  have len: "length (casefold u p) = length p + n" using length_casefold assms(3,4) by simp
  have "occurs_at (casefold u alias) (casefold u t) (length p + n)"
    by (simp add: occurs_at_def slice_def fold len)
  then have "text_find (casefold u alias) (casefold u t) 0 = Some (length p + n)"
    using assms(6) len by (intro text_find_first) simp_all
  from first_alias_span_single [OF assms(2) this assms(7)] show ?thesis
    by (simp add: assms(1) slice_def)
qed

text \<open>A ligature stands before the alias \<open>Alpha\<close>; its span begins at the second letter.\<close>

theorem alias_span_is_shifted_witness:
  "let u = sample_unicode\<lparr>uc_fold := (\<lambda>c. if c = 64257 then [102, 105] else [if 65 \<le> c \<and> c \<le> 90 then c + 32 else c])\<rparr>;
       t = 64257 # ascii ''nd Alpha here''
   in first_alias_span u t [ascii ''a1'', ascii ''Alpha''] = Some (5, 10) \<and> slice 5 10 t = ascii ''lpha ''"
proof -
  let ?u = "sample_unicode\<lparr>uc_fold := (\<lambda>c. if c = 64257 then [102, 105] else [if 65 \<le> c \<and> c \<le> 90 then c + 32 else c])\<rparr>"
    and ?p = "64257 # ascii ''nd ''" and ?t = "64257 # ascii ''nd Alpha here''"
  have "casefold ?u ?t = ascii ''find alpha here''" "casefold ?u (ascii ''Alpha'') = ascii ''alpha''"
    "casefold ?u (ascii ''a1'') = ascii ''a1''" "casefold ?u ?p = ascii ''find ''"
    by (simp_all add: casefold_def ascii_def)
  moreover have "\<not> contains (ascii ''a1'') (ascii ''find alpha here'')"
    "\<forall>i < length (ascii ''find ''). \<not> occurs_at (ascii ''alpha'') (ascii ''find alpha here'') i"
    by code_simp+
  ultimately show ?thesis
    using alias_span_is_shifted [of ?t ?p "ascii ''Alpha''" "ascii '' here''" "[ascii ''a1'', ascii ''Alpha'']" ?u 1]
    by (simp add: ascii_def slice_def)
qed

subsection \<open>Owners of aliases\<close>

lemma claim_aliases_Inr:
  assumes "claim_aliases u doc as owners = Inr owners'"
  shows "\<forall>a \<in> set as. map_of owners' (casefold u a) = Some doc"
    and "map_of owners k = Some d \<Longrightarrow> map_of owners' k = Some d"
proof -
  have "(\<forall>a \<in> set as. map_of owners' (casefold u a) = Some doc) \<and>
      (\<forall>k d. map_of owners k = Some d \<longrightarrow> map_of owners' k = Some d)"
    using assms
  proof (induction u doc as owners rule: claim_aliases.induct)
    case (2 u doc a as owners)
    have free: "map_of owners (casefold u a) = None \<or> map_of owners (casefold u a) = Some doc"
      and rest: "claim_aliases u doc as ((casefold u a, doc) # owners) = Inr owners'"
      using "2.prems" by (auto split: option.splits if_splits)
    have "(\<forall>a \<in> set as. map_of owners' (casefold u a) = Some doc) \<and>
        (\<forall>k d. map_of ((casefold u a, doc) # owners) k = Some d \<longrightarrow> map_of owners' k = Some d)"
      using 2 free rest by auto
    moreover from this have "map_of owners' (casefold u a) = Some doc" by simp
    moreover have "map_of owners' k = Some d" if "map_of owners k = Some d" for k d
      using calculation that free by (cases "k = casefold u a") auto
    ultimately show ?case by simp
  qed simp
  then show "\<forall>a \<in> set as. map_of owners' (casefold u a) = Some doc"
    "map_of owners k = Some d \<Longrightarrow> map_of owners' k = Some d" by blast+
qed

text \<open>All aliases of the identities are owned by their documents.\<close>

definition owned_by :: "unicode \<Rightarrow> alias_owners \<Rightarrow> query_identity list \<Rightarrow> bool" where
  "owned_by u owners ids \<longleftrightarrow>
     (\<forall>i \<in> set ids. \<forall>a \<in> set (qi_aliases i). map_of owners (casefold u a) = Some (qi_document_id i))"

lemma load_identities_Inr:
  assumes "load_identities u seen owners xs = Inr ids"
  shows "(\<exists>owners'. (\<forall>k d. map_of owners k = Some d \<longrightarrow> map_of owners' k = Some d) \<and> owned_by u owners' ids)
    \<and> distinct (map qi_document_id ids) \<and> set (map qi_document_id ids) \<inter> set seen = {}
    \<and> (\<forall>i \<in> set ids. qi_document_id i \<noteq> [] \<and> qi_document_id i \<in> set (qi_aliases i))"
  using assms
proof (induction u seen owners xs arbitrary: ids rule: load_identities.induct)
  case (1 u seen owners)
  then show ?case by (auto simp: owned_by_def)
next
  case (2 u seen owners x xs)
  from "2.prems" obtain d where d: "fields_of (Some x) = Some d" by (cases "fields_of (Some x)") simp_all
  let ?doc = "text_of (get d ''document_id'')"
  have conditions: "set (map fst d) = {''document_id'', ''aliases''}" "nonempty_str (get d ''document_id'')"
    "?doc \<notin> set seen" "items_of (get d ''aliases'') \<noteq> []"
    using "2.prems" unfolding load_identities.simps d option.case Let_def by (simp_all split: if_splits)
  with "2.prems" obtain aliases where aliases: "validated_markers u (get d ''aliases'') = Inr aliases"
    unfolding load_identities.simps d option.case Let_def
    by (cases "validated_markers u (get d ''aliases'')") (simp_all split: if_splits)
  obtain owners1 rest where claimed: "claim_aliases u ?doc (first_occurrences (?doc # aliases)) owners = Inr owners1"
    "load_identities u (?doc # seen) owners1 xs = Inr rest"
    "ids = \<lparr>qi_document_id = ?doc, qi_aliases = first_occurrences (?doc # aliases)\<rparr> # rest"
    using "2.prems" conditions aliases unfolding load_identities.simps d option.case Let_def bind_res_Inr_iff
    by (auto simp del: first_occurrences.simps simp: bind_res_Inr_iff split: if_splits)
  obtain owners2 where o: "\<forall>k d. map_of owners1 k = Some d \<longrightarrow> map_of owners2 k = Some d" "owned_by u owners2 rest"
    and rest: "distinct (map qi_document_id rest)" "set (map qi_document_id rest) \<inter> set (?doc # seen) = {}"
      "\<forall>i \<in> set rest. qi_document_id i \<noteq> [] \<and> qi_document_id i \<in> set (qi_aliases i)"
    using "2.IH" [OF d refl _ _ refl claimed(2)] conditions by blast
  have "?doc \<noteq> []" using conditions(2) by (auto elim: nonempty_strE)
  moreover have "owned_by u owners2 ids"
    using claim_aliases_Inr(1) [OF claimed(1)] o by (simp add: owned_by_def claimed(3))
  moreover have "\<forall>k d. map_of owners k = Some d \<longrightarrow> map_of owners2 k = Some d"
    using claim_aliases_Inr(2) [OF claimed(1)] o(1) by blast
  ultimately show ?case using rest conditions(3) by (auto simp: claimed(3))
qed

lemma claim_all_aliases_Inr:
  "claim_all_aliases u ids owners = Inr owners' \<Longrightarrow>
     owned_by u owners' ids \<and> (\<forall>k d. map_of owners k = Some d \<longrightarrow> map_of owners' k = Some d)"
proof (induction ids arbitrary: owners)
  case (Cons i ids)
  then obtain m where m: "claim_aliases u (qi_document_id i) (qi_aliases i) owners = Inr m"
    "claim_all_aliases u ids m = Inr owners'" by (auto simp: bind_res_Inr_iff)
  from Cons.IH [OF m(2)] claim_aliases_Inr [OF m(1)] show ?case by (auto simp: owned_by_def)
qed (simp add: owned_by_def)

lemma load_config_identities:
  assumes "load_bilateral_comparison_config u v = Inr cfg"
  shows "\<exists>owners. owned_by u owners (cg_identities cfg)" and "distinct (map qi_document_id (cg_identities cfg))"
    and "\<forall>i \<in> set (cg_identities cfg). qi_document_id i \<noteq> [] \<and> qi_document_id i \<in> set (qi_aliases i)"
proof -
  obtain xs where "load_identities u [] [] xs = Inr (cg_identities cfg)"
    using assms by (auto simp: load_bilateral_comparison_config_def bind_res_Inr_iff split: option.splits if_splits)
  from load_identities_Inr [OF this] show "\<exists>owners. owned_by u owners (cg_identities cfg)"
    "distinct (map qi_document_id (cg_identities cfg))"
    "\<forall>i \<in> set (cg_identities cfg). qi_document_id i \<noteq> [] \<and> qi_document_id i \<in> set (qi_aliases i)" by blast+
qed

lemma remap_identities:
  assumes "remap_document_identities u cfg ids = Inr cfg'" and "distinct (map fst ids)"
    and "distinct (map qi_document_id (cg_identities cfg))"
  shows "\<exists>owners. owned_by u owners (cg_identities cfg')" and "distinct (map qi_document_id (cg_identities cfg'))"
    and "\<forall>i \<in> set (cg_identities cfg'). qi_document_id i \<noteq> [] \<and> qi_document_id i \<in> set (qi_aliases i)"
proof -
  have keys: "set (map fst ids) = set (map qi_document_id (cg_identities cfg))"
    and texts: "\<forall>v \<in> set (map snd ids). nonempty_str (Some v)" and once: "distinct (map snd ids)"
    and new: "cg_identities cfg' = map (remap_identity ids) (cg_identities cfg)"
    and "\<exists>owners. claim_all_aliases u (map (remap_identity ids) (cg_identities cfg)) [] = Inr owners"
    using assms(1) by (auto simp: remap_document_identities_def bind_res_Inr_iff Let_def split: if_splits)
  then show "\<exists>owners. owned_by u owners (cg_identities cfg')" using claim_all_aliases_Inr by fastforce
  have bound: "\<exists>t. t \<noteq> [] \<and> (qi_document_id i, JStr t) \<in> set ids \<and> qi_document_id (remap_identity ids i) = t"
    if "i \<in> set (cg_identities cfg)" for i
  proof -
    have "qi_document_id i \<in> set (map fst ids)" using keys that by simp
    then obtain v where v: "map_of ids (qi_document_id i) = Some v" by (metis map_of_eq_None_iff not_None_eq set_map)
    then have mem: "(qi_document_id i, v) \<in> set ids" by (rule map_of_SomeD)
    then have "nonempty_str (Some v)" using texts by force
    then obtain t where "v = JStr t" "t \<noteq> []" by (auto elim: nonempty_strE)
    with v mem show ?thesis by (auto simp: remap_identity_def Let_def)
  qed
  have "inj_on (qi_document_id \<circ> remap_identity ids) (set (cg_identities cfg))"
  proof (rule inj_onI)
    fix i j assume i: "i \<in> set (cg_identities cfg)" and j: "j \<in> set (cg_identities cfg)"
      and eq: "(qi_document_id \<circ> remap_identity ids) i = (qi_document_id \<circ> remap_identity ids) j"
    from bound [OF i] bound [OF j] eq obtain t where t: "(qi_document_id i, JStr t) \<in> set ids"
      "(qi_document_id j, JStr t) \<in> set ids" by auto
    then have "qi_document_id i = qi_document_id j"
      using once by (metis distinct_map inj_onD old.prod.inject snd_conv)
    then show "i = j" using assms(3) i j by (auto simp: distinct_map inj_on_def)
  qed
  then show "distinct (map qi_document_id (cg_identities cfg'))"
    using assms(3) by (simp add: new distinct_map comp_inj_on_iff inj_on_imageI)
  show "\<forall>i \<in> set (cg_identities cfg'). qi_document_id i \<noteq> [] \<and> qi_document_id i \<in> set (qi_aliases i)"
    using bound by (fastforce simp: new remap_identity_def Let_def)
qed

text \<open>C20. In a configuration that was loaded, or bound to runtime documents afterwards, the documents are
  distinct and not empty, every document is an alias of itself, and an alias, whatever its case, belongs
  to one document only.\<close>

theorem comparison_aliases_have_one_owner:
  assumes "load_bilateral_comparison_config u v = Inr loaded"
    and "cfg = loaded \<or> distinct (map fst ids) \<and> remap_document_identities u loaded ids = Inr cfg"
  shows "distinct (map qi_document_id (cg_identities cfg))
    \<and> (\<forall>i \<in> set (cg_identities cfg). qi_document_id i \<noteq> [] \<and> qi_document_id i \<in> set (qi_aliases i))
    \<and> (\<forall>i \<in> set (cg_identities cfg). \<forall>j \<in> set (cg_identities cfg). \<forall>a \<in> set (qi_aliases i). \<forall>b \<in> set (qi_aliases j).
         casefold u a = casefold u b \<longrightarrow> i = j)"
proof -
  have facts: "\<exists>owners. owned_by u owners (cg_identities cfg)" "distinct (map qi_document_id (cg_identities cfg))"
    "\<forall>i \<in> set (cg_identities cfg). qi_document_id i \<noteq> [] \<and> qi_document_id i \<in> set (qi_aliases i)"
    using assms(2) load_config_identities [OF assms(1)] remap_identities [OF _ _ load_config_identities(2) [OF assms(1)]]
    by blast+
  then obtain owners where o: "owned_by u owners (cg_identities cfg)" by blast
  have "i = j" if "i \<in> set (cg_identities cfg)" "j \<in> set (cg_identities cfg)" "a \<in> set (qi_aliases i)"
    "b \<in> set (qi_aliases j)" "casefold u a = casefold u b" for i j a b
  proof -
    have "Some (qi_document_id i) = Some (qi_document_id j)" using o that by (metis owned_by_def)
    then show ?thesis using facts(2) that(1,2) by (auto simp: distinct_map inj_on_def)
  qed
  with facts show ?thesis by blast
qed

definition sample_comparison_json :: json where
  "sample_comparison_json = JObj [
     (''schema_version'', JStr (ascii ''bilateral_comparison_query_decomposition_config_v1'')),
     (''variable_id'', JStr (ascii ''BILATERAL_COMPARISON_QUERY_DECOMPOSITION_V1'')),
     (''default_enabled'', JBool False), (''failure_policy'', JStr (ascii ''FALLBACK_TO_ORIGINAL_QUERY'')),
     (''comparison_markers'', JList [JStr (ascii ''compare'')]),
     (''transition_markers'', JList [JStr (ascii '' while '')]),
     (''document_identities'', JList [
       JObj [(''document_id'', JStr (ascii ''a1'')), (''aliases'', JList [JStr (ascii ''Alpha'')])],
       JObj [(''document_id'', JStr (ascii ''b1'')), (''aliases'', JList [JStr (ascii '' Beta'')])]])]"

theorem comparison_aliases_have_one_owner_witness:
  "distinct (map qi_document_id (cg_identities sample_comparison)) \<and>
   map qi_document_id (filter (\<lambda>i. \<exists>a \<in> set (qi_aliases i). casefold sample_unicode a = ascii ''beta'')
     (cg_identities sample_comparison)) = [ascii ''b1'']"
proof
  have run: "load_bilateral_comparison_config sample_unicode sample_comparison_json = Inr sample_comparison"
    by code_simp
  from comparison_aliases_have_one_owner [OF this, of sample_comparison]
  show "distinct (map qi_document_id (cg_identities sample_comparison))" by simp
  show "map qi_document_id (filter (\<lambda>i. \<exists>a \<in> set (qi_aliases i). casefold sample_unicode a = ascii ''beta'')
     (cg_identities sample_comparison)) = [ascii ''b1'']"
    by code_simp
qed

end
