(* ===== verification/ElasticsearchWriter.thy ===== *)
theory ElasticsearchWriter
  imports OnlineRouting IndexLifecycle ClaimText
begin

text \<open>
  The version writer of Elasticsearch, \<^verbatim>\<open>backend/ingestion/elasticsearch_writer.py\<close>: one hidden physical
  index per owner and version, its staging, activation, verification and deletion. The node answers
  requests and existence checks; a request names the index it is about. SHA-256, the fingerprint of
  chunks and \<open>str\<close> are arguments.
\<close>

subsection \<open>Requests\<close>

datatype version_request =
    CreateHidden string "(string \<times> pytext) list" "(string \<times> string) list"
  | ReadIndex string
  | UpdateActive string es_query bool
  | CountAll string
  | CountWhere string es_query
  | OnlineCounts string es_query es_query
  | BulkChunks string "(pytext \<times> jobject) list"
  | RefreshIndex string
  | MultiGet string "pytext list"
  | DeleteIndex string

record 'w version_transport =
  vt_exists :: "string \<Rightarrow> ('w, es_error, bool) call"
  vt_request :: "version_request \<Rightarrow> ('w, es_error, jobject) call"

record writer_env =
  we_es :: es_env
  we_unicode :: unicode
  we_sha256 :: "nat list \<Rightarrow> string"

record 'w es_version_writer =
  ew_index_prefix :: string
  ew_env :: writer_env
  ew_transport :: "'w version_transport"

definition expected_property_types :: "(string \<times> string) list" where
  "expected_property_types = [(''chunk_id'', ''keyword''), (''document_id'', ''keyword''),
     (''version_id'', ''keyword''), (''text'', ''text''), (''section_path'', ''text''),
     (''tenant_id'', ''keyword''), (''visibility'', ''keyword''), (''library_scope_ids'', ''keyword''),
     (''is_active'', ''boolean'')]"

text \<open>\<open>int\<close> of a text: white space around it, a sign, digits with single underscores between them.\<close>

fun int_digits :: "unicode \<Rightarrow> bool \<Rightarrow> pytext \<Rightarrow> pytext option" where
  "int_digits u after_digit [] = (if after_digit then Some [] else None)"
| "int_digits u after_digit (c # cs) =
     (if uc_digit u c then map_option (Cons c) (int_digits u True cs)
      else if c = 95 \<and> after_digit then int_digits u False cs
      else None)"

definition py_int :: "unicode \<Rightarrow> pytext \<Rightarrow> int option" where
  "py_int u t =
     (let (neg, r) = take_sign (trim t) in
      case int_digits u False r of None \<Rightarrow> None
      | Some ds \<Rightarrow> if 4300 < length ds then None
          else Some (if neg then - int (numeral_value u ds) else int (numeral_value u ds)))"

subsection \<open>Names\<close>

definition identity_digest :: "writer_env \<Rightarrow> string \<Rightarrow> string \<Rightarrow> string" where
  "identity_digest E owner vid = take 24 (we_sha256 E (ascii owner @ [0] @ ascii vid))"

definition new_es_version_writer ::
  "string \<Rightarrow> writer_env \<Rightarrow> 'w version_transport \<Rightarrow> es_error + 'w es_version_writer" where
  "new_es_version_writer prefix E T =
     (if \<not> index_name_ok prefix then Inl EsValueError
      else if 255 < length (prefix @ ''--v-'' @ replicate 24 CHR ''0'') then Inl EsValueError
      else Inr \<lparr>ew_index_prefix = prefix, ew_env = E, ew_transport = T\<rparr>)"

definition physical_name :: "'w es_version_writer \<Rightarrow> string \<Rightarrow> string \<Rightarrow> string" where
  "physical_name W owner vid = ew_index_prefix W @ ''--v-'' @ identity_digest (ew_env W) owner vid"

definition physical_index_name :: "'w es_version_writer \<Rightarrow> string \<Rightarrow> string \<Rightarrow> es_error + string" where
  "physical_index_name W owner vid =
     (if \<not> contract_id_ok owner \<or> \<not> contract_id_ok vid then Inl EsValueError
      else Inr (physical_name W owner vid))"

definition term_text :: "string \<Rightarrow> string \<Rightarrow> es_query" where
  "term_text f v = Term f (JStr (ascii v))"

definition identity_query :: "string \<Rightarrow> string \<Rightarrow> es_query" where
  "identity_query owner vid = BoolQuery [term_text ''tenant_id'' owner, term_text ''version_id'' vid] [] 0 []"

definition owned_terms :: "string \<Rightarrow> string \<Rightarrow> string \<Rightarrow> es_query list" where
  "owned_terms owner doc vid =
     [term_text ''tenant_id'' owner, term_text ''document_id'' doc, term_text ''version_id'' vid]"

definition owned_query :: "string \<Rightarrow> string \<Rightarrow> string \<Rightarrow> es_query" where
  "owned_query owner doc vid = BoolQuery (owned_terms owner doc vid) [] 0 []"

definition active_query :: "string \<Rightarrow> string \<Rightarrow> string \<Rightarrow> es_query" where
  "active_query owner doc vid = BoolQuery (owned_terms owner doc vid @ [Term ''is_active'' (JBool True)]) [] 0 []"

subsection \<open>Reading the index\<close>

text \<open>\<open>hidden in (True, "true")\<close>; an integer or float that equals one is \<open>True\<close>.\<close>

definition hidden_setting :: "json option \<Rightarrow> bool" where
  "hidden_setting v \<longleftrightarrow> v \<in> {Some (JBool True), Some (JInt 1), Some (JFloat (Some 1)), Some (JStr (ascii ''true''))}"

definition expected_identity ::
  "string \<Rightarrow> string \<Rightarrow> string option \<Rightarrow> pytext option \<Rightarrow> nat option \<Rightarrow> (string \<times> pytext) list" where
  "expected_identity owner vid doc source_sha256 expected_count =
     index_configuration @
     [(''version_writer_schema'', ascii ''elasticsearch_version_writer_v1''), (''owner_id'', ascii owner),
      (''document_version_id'', ascii vid), (''online_entrypoint'', ascii ''HIDDEN_PHYSICAL_INDEX'')] @
     (case doc of None \<Rightarrow> [] | Some d \<Rightarrow> [(''document_id'', ascii d)]) @
     (case source_sha256 of None \<Rightarrow> [] | Some h \<Rightarrow> [(''source_chunks_sha256'', h)]) @
     (case expected_count of None \<Rightarrow> [] | Some n \<Rightarrow> [(''chunk_count'', decimal n)])"

definition sha256_text :: "pytext \<Rightarrow> bool" where
  "sha256_text t \<longleftrightarrow> length t = 64 \<and> (\<forall>c \<in> set t. in_class ''abcdef0123456789'' c)"

definition properties_ok :: "jobject \<Rightarrow> bool" where
  "properties_ok mappings \<longleftrightarrow>
     get mappings ''dynamic'' = Some (JStr (ascii ''strict'')) \<and>
     (case fields_of (get mappings ''properties'') of None \<Rightarrow> False
      | Some properties \<Rightarrow> \<forall>(f, type) \<in> set expected_property_types.
          (case fields_of (get properties f) of None \<Rightarrow> False
           | Some d \<Rightarrow> get d ''type'' = Some (JStr (ascii type))))"

definition read_identity ::
  "writer_env \<Rightarrow> string \<Rightarrow> (string \<times> pytext) list \<Rightarrow> jobject \<Rightarrow> es_error + (string \<times> pytext) list" where
  "read_identity E name expected response =
     (case fields_of (get response name) of None \<Rightarrow> Inl EsIndexNotReady
      | Some payload \<Rightarrow>
     (case fields_of (get payload ''mappings'') of None \<Rightarrow> Inl EsIndexNotReady
      | Some mappings \<Rightarrow>
     (case fields_of (get mappings ''_meta'') of None \<Rightarrow> Inl EsIndexNotReady
      | Some metadata \<Rightarrow>
         let hidden = Option.bind (Option.bind (fields_of (get payload ''settings''))
               (\<lambda>settings. fields_of (get settings ''index''))) (\<lambda>index. get index ''hidden'');
             normalized = normalize_metadata (we_es E) metadata
         in if \<not> hidden_setting hidden then Inl EsIndexNotReady
            else if \<exists>(k, v) \<in> set expected. map_of normalized k \<noteq> Some v then Inl EsIndexNotReady
            else if \<not> properties_ok mappings then Inl EsIndexNotReady
            else (case Option.bind (map_of normalized ''chunk_count'') (py_int (we_unicode E)) of
                None \<Rightarrow> Inl EsIndexNotReady
              | Some n \<Rightarrow>
                  if n < 1 \<or> \<not> sha256_text (case map_of normalized ''source_chunks_sha256'' of
                       None \<Rightarrow> [] | Some h \<Rightarrow> h)
                  then Inl EsIndexNotReady else Inr normalized))))"

definition inspect_identity ::
  "'w es_version_writer \<Rightarrow> string \<Rightarrow> (string \<times> pytext) list \<Rightarrow> ('w, es_error, (string \<times> pytext) list) call" where
  "inspect_identity W name expected =
     call_bind (vt_request (ew_transport W) (ReadIndex name)) (\<lambda>response.
     lift_call (read_identity (ew_env W) name expected response))"

definition metadata_count :: "writer_env \<Rightarrow> (string \<times> pytext) list \<Rightarrow> int" where
  "metadata_count E metadata = the (Option.bind (map_of metadata ''chunk_count'') (py_int (we_unicode E)))"

text \<open>A count in a response: an integer (a boolean is one) that is not negative.\<close>

definition count_of :: "json option \<Rightarrow> es_error + int" where
  "count_of v = (if \<not> is_int v \<or> int_of v < 0 then Inl EsIndexNotReady else Inr (int_of v))"

definition es_count :: "'w es_version_writer \<Rightarrow> string \<Rightarrow> es_query option \<Rightarrow> ('w, es_error, int) call" where
  "es_count W name query =
     call_bind (vt_request (ew_transport W)
       (case query of None \<Rightarrow> CountAll name | Some q \<Rightarrow> CountWhere name q)) (\<lambda>response.
     lift_call (count_of (get response ''count'')))"

definition verify_owned_count ::
  "'w es_version_writer \<Rightarrow> string \<Rightarrow> string \<Rightarrow> string \<Rightarrow> string \<Rightarrow> int \<Rightarrow> bool \<Rightarrow> ('w, es_error, int) call"
where
  "verify_owned_count W name owner doc vid expected_count allow_incomplete =
     call_bind (es_count W name None) (\<lambda>total.
     call_bind (es_count W name (Some (owned_query owner doc vid))) (\<lambda>owned.
     if total \<noteq> owned \<or> expected_count < total then call_raise EsIndexNotReady
     else if \<not> allow_incomplete \<and> total \<noteq> expected_count then call_raise EsIndexNotReady
     else call_return total))"

definition total_hits :: "jobject \<Rightarrow> es_error + json option" where
  "total_hits response =
     (let total = Option.bind (fields_of (get response ''hits'')) (\<lambda>hits. get hits ''total'') in
      case fields_of total of None \<Rightarrow> Inr total
      | Some d \<Rightarrow> if get d ''relation'' \<noteq> Some (JStr (ascii ''eq'')) then Inl EsIndexNotReady
          else Inr (get d ''value''))"

definition doc_count :: "jobject \<Rightarrow> string \<Rightarrow> json option" where
  "doc_count response aggregation =
     Option.bind (Option.bind (fields_of (get response ''aggregations''))
       (\<lambda>aggregations. fields_of (get aggregations aggregation))) (\<lambda>d. get d ''doc_count'')"

definition read_online_counts :: "int \<Rightarrow> jobject \<Rightarrow> es_error + int \<times> int \<times> int" where
  "read_online_counts expected_count response =
     bind_res (total_hits response) (\<lambda>total.
     bind_res (count_of total) (\<lambda>total_count.
     bind_res (count_of (doc_count response ''owned'')) (\<lambda>owned_count.
     bind_res (count_of (doc_count response ''active'')) (\<lambda>active_count.
     if expected_count < total_count \<or> expected_count < owned_count then Inl EsIndexNotReady
     else Inr (total_count, owned_count, active_count)))))"

subsection \<open>Chunks on the node\<close>

text \<open>Equality of Python values: a boolean or a whole float equals the integer. (A chunk has no floats;
  of those that are not finite only these two facts matter, that they equal no integer and no text.)\<close>

fun plain_value :: "json \<Rightarrow> json" where
  "plain_value (JBool b) = JInt (if b then 1 else 0)"
| "plain_value (JFloat (Some x)) = (if of_int \<lfloor>x\<rfloor> = x then JInt \<lfloor>x\<rfloor> else JFloat (Some x))"
| "plain_value (JList xs) = JList (map plain_value xs)"
| "plain_value (JObj d) = JObj (map (\<lambda>(k, v). (k, plain_value v)) d)"
| "plain_value v = v"

definition same_value :: "jobject \<Rightarrow> jobject \<Rightarrow> bool" where
  "same_value a b \<longleftrightarrow> plain_value (JObj a) = plain_value (JObj b)"

fun verify_documents ::
  "jobject list \<Rightarrow> bool \<Rightarrow> pytext list \<Rightarrow> json list \<Rightarrow> bool" where
  "verify_documents chunks allow_missing seen [] = True"
| "verify_documents chunks allow_missing seen (v # vs) =
     (case fields_of (Some v) of None \<Rightarrow> False
      | Some d \<Rightarrow>
          (case get d ''_id'' of Some (JStr chunk_id) \<Rightarrow>
             if chunk_id \<in> set seen \<or> chunk_id \<notin> set (map chunk_key chunks) then False
             else if get d ''found'' = Some (JBool False) \<and> allow_missing
             then verify_documents chunks allow_missing (chunk_id # seen) vs
             else if get d ''found'' \<noteq> Some (JBool True) then False
             else (case fields_of (get d ''_source'') of None \<Rightarrow> False
               | Some source \<Rightarrow>
                   if \<not> is_bool (get source ''is_active'') then False
                   else if \<not> same_value (put_field source ''is_active'' (JBool False))
                     (the (map_of (map (\<lambda>c. (chunk_key c, c)) chunks) chunk_id)) then False
                   else verify_documents chunks allow_missing (chunk_id # seen) vs)
           | _ \<Rightarrow> False))"

definition verify_source_payloads ::
  "'w es_version_writer \<Rightarrow> string \<Rightarrow> jobject list \<Rightarrow> bool \<Rightarrow> ('w, es_error, unit) call" where
  "verify_source_payloads W name chunks allow_missing =
     call_bind (vt_request (ew_transport W) (MultiGet name (map chunk_key chunks))) (\<lambda>response.
     let documents = items_of (get response ''docs'') in
     if \<not> is_list (get response ''docs'') \<or> length documents \<noteq> length chunks then call_raise EsIndexNotReady
     else if \<not> verify_documents chunks allow_missing [] documents then call_raise EsIndexNotReady
     else call_return ())"

definition bulk_index :: "'w es_version_writer \<Rightarrow> string \<Rightarrow> jobject list \<Rightarrow> ('w, es_error, unit) call" where
  "bulk_index W name chunks =
     call_bind (vt_request (ew_transport W) (BulkChunks name (map (\<lambda>c. (chunk_key c, c)) chunks))) (\<lambda>response.
     if get response ''errors'' \<noteq> Some (JBool False) then call_raise EsIndexNotReady
     else call_bind (vt_request (ew_transport W) (RefreshIndex name)) (\<lambda>_. call_return ()))"

subsection \<open>Staging\<close>

text \<open>A request that is not valid raises; \<open>EsValueError\<close> also stands for the \<^verbatim>\<open>KeyError\<close> of a chunk without
  \<^verbatim>\<open>version_id\<close>.\<close>

definition stage_ok :: "string \<Rightarrow> string \<Rightarrow> string \<Rightarrow> jobject list \<Rightarrow> bool" where
  "stage_ok owner doc vid chunks \<longleftrightarrow>
     contract_id_ok owner \<and> contract_id_ok vid \<and> contract_id_ok doc \<and> chunks \<noteq> [] \<and>
     es_validate_chunks {} chunks \<and>
     (\<forall>c \<in> set chunks. get c ''tenant_id'' = Some (JStr (ascii owner)) \<and>
        get c ''document_id'' = Some (JStr (ascii doc)) \<and> get c ''version_id'' = Some (JStr (ascii vid)) \<and>
        get c ''is_active'' = Some (JBool False))"

definition version_metadata ::
  "writer_env \<Rightarrow> string \<Rightarrow> string \<Rightarrow> string \<Rightarrow> jobject list \<Rightarrow> (string \<times> pytext) list" where
  "version_metadata E owner doc vid chunks =
     index_metadata (we_es E) chunks @
     [(''version_writer_schema'', ascii ''elasticsearch_version_writer_v1''), (''owner_id'', ascii owner),
      (''document_id'', ascii doc), (''document_version_id'', ascii vid),
      (''online_entrypoint'', ascii ''HIDDEN_PHYSICAL_INDEX'')]"

text \<open>An index that another writer created meanwhile is accepted.\<close>

definition create_index ::
  "'w es_version_writer \<Rightarrow> string \<Rightarrow> (string \<times> pytext) list \<Rightarrow> ('w, es_error, unit) call" where
  "create_index W name metadata w =
     (case vt_request (ew_transport W) (CreateHidden name metadata index_properties) w of
        (Inr _, w') \<Rightarrow> (Inr (), w')
      | (Inl EsIndexNotReady, w') \<Rightarrow>
          call_bind (vt_exists (ew_transport W) name)
            (\<lambda>there. if there then call_return () else call_raise EsIndexNotReady) w'
      | (Inl e, w') \<Rightarrow> (Inl e, w'))"

text \<open>An index that lacks chunks is filled.\<close>

definition complete_index ::
  "'w es_version_writer \<Rightarrow> string \<Rightarrow> string \<Rightarrow> string \<Rightarrow> string \<Rightarrow> jobject list \<Rightarrow> int \<Rightarrow> ('w, es_error, unit) call"
where
  "complete_index W name owner doc vid chunks current_count =
     (if current_count < int (length chunks) then
        call_bind (verify_source_payloads W name chunks True) (\<lambda>_.
        call_bind (bulk_index W name chunks) (\<lambda>_.
        call_bind (verify_owned_count W name owner doc vid (int (length chunks)) False) (\<lambda>_. call_return ())))
      else call_return ())"

definition ensure_staged ::
  "'w es_version_writer \<Rightarrow> string \<Rightarrow> string \<Rightarrow> string \<Rightarrow> jobject list \<Rightarrow> ('w, es_error, index_write_receipt) call"
where
  "ensure_staged W owner doc vid chunks =
     (if \<not> stage_ok owner doc vid chunks then call_raise EsValueError
      else
       let E = ew_env W; name = physical_name W owner vid; source_sha256 = es_fingerprint (we_es E) chunks;
           n = length chunks in
       call_bind (vt_exists (ew_transport W) name) (\<lambda>there.
       call_bind (if there then call_return () else create_index W name (version_metadata E owner doc vid chunks)) (\<lambda>_.
       call_bind (inspect_identity W name
         (expected_identity owner vid (Some doc) (Some source_sha256) (Some n))) (\<lambda>metadata.
       call_bind (verify_owned_count W name owner doc vid (int n) True) (\<lambda>current_count.
       call_bind (complete_index W name owner doc vid chunks current_count) (\<lambda>_.
       call_bind (verify_source_payloads W name chunks False) (\<lambda>_.
       call_return \<lparr>rc_backend = ELASTICSEARCH, rc_owner_id = owner, rc_document_version_id = vid,
         rc_chunk_count = metadata_count E metadata,
         rc_source_chunks_sha256 = map char_of (the (map_of metadata ''source_chunks_sha256''))\<rparr>)))))))"

subsection \<open>Activation, verification, deletion\<close>

definition set_active :: "'w es_version_writer \<Rightarrow> string \<Rightarrow> string \<Rightarrow> bool \<Rightarrow> ('w, es_error, unit) call" where
  "set_active W owner vid active =
     call_bind (lift_call (physical_index_name W owner vid)) (\<lambda>name.
     call_bind (vt_exists (ew_transport W) name) (\<lambda>there.
     if \<not> there then call_raise EsIndexNotReady
     else
       call_bind (inspect_identity W name (expected_identity owner vid None None None)) (\<lambda>metadata.
       call_bind (vt_request (ew_transport W) (UpdateActive name (identity_query owner vid) active)) (\<lambda>response.
       if get response ''failures'' \<notin> {None, Some JNull, Some (JList [])} then call_raise EsIndexNotReady
       else
         call_bind (es_count W name (Some (BoolQuery [identity_query owner vid, Term ''is_active'' (JBool active)] [] 0 [])))
           (\<lambda>matching.
         if matching \<noteq> metadata_count (ew_env W) metadata then call_raise EsIndexNotReady
         else call_return ())))))"

definition activate_version :: "'w es_version_writer \<Rightarrow> string \<Rightarrow> string \<Rightarrow> ('w, es_error, unit) call" where
  "activate_version W owner vid = set_active W owner vid True"

definition deactivate_version :: "'w es_version_writer \<Rightarrow> string \<Rightarrow> string \<Rightarrow> ('w, es_error, unit) call" where
  "deactivate_version W owner vid =
     call_bind (lift_call (physical_index_name W owner vid)) (\<lambda>name.
     call_bind (vt_exists (ew_transport W) name) (\<lambda>there.
     if \<not> there then call_return () else set_active W owner vid False))"

text \<open>The name of the index and the metadata the sink receives.\<close>

definition verify_online_version ::
  "'w es_version_writer \<Rightarrow> string \<Rightarrow> string \<Rightarrow> string \<Rightarrow> ('w, es_error, string \<times> (string \<times> pytext) list) call"
where
  "verify_online_version W owner doc vid =
     call_bind (lift_call (physical_index_name W owner vid)) (\<lambda>name.
     call_bind (inspect_identity W name (expected_identity owner vid (Some doc) None None)) (\<lambda>metadata.
     let expected_count = metadata_count (ew_env W) metadata in
     call_bind (vt_request (ew_transport W)
       (OnlineCounts name (owned_query owner doc vid) (active_query owner doc vid))) (\<lambda>response.
     call_bind (lift_call (read_online_counts expected_count response)) (\<lambda>(total, owned, active).
     if total \<noteq> owned \<or> total \<noteq> expected_count then call_raise EsIndexNotReady
     else if active \<noteq> expected_count then call_raise EsIndexNotReady
     else call_return (name, metadata)))))"

definition delete_version :: "'w es_version_writer \<Rightarrow> string \<Rightarrow> string \<Rightarrow> ('w, es_error, bool) call" where
  "delete_version W owner vid =
     call_bind (lift_call (physical_index_name W owner vid)) (\<lambda>name.
     call_bind (vt_exists (ew_transport W) name) (\<lambda>there.
     if \<not> there then call_return False
     else
       call_bind (inspect_identity W name (expected_identity owner vid None None None)) (\<lambda>_.
       call_bind (vt_request (ew_transport W) (DeleteIndex name)) (\<lambda>result.
       if get result ''acknowledged'' \<noteq> Some (JBool True) then call_raise EsIndexNotReady
       else call_bind (vt_exists (ew_transport W) name) (\<lambda>still.
         if still then call_raise EsIndexNotReady else call_return True)))))"

text \<open>The writer as the publication uses it; which exception it raised, nobody reads.\<close>

definition any_error :: "('w, 'e, 'a) call \<Rightarrow> 'w \<Rightarrow> (unit + 'a) \<times> 'w" where
  "any_error m w = (case m w of (Inl _, w') \<Rightarrow> (Inl (), w') | (Inr x, w') \<Rightarrow> (Inr x, w'))"

definition es_index_writer :: "'w es_version_writer \<Rightarrow> 'w index_writer" where
  "es_index_writer W =
     \<lparr>iw_backend = ELASTICSEARCH,
      iw_ensure_staged = (\<lambda>owner doc vid chunks. any_error (ensure_staged W owner doc vid (map chunk_json chunks))),
      iw_activate = (\<lambda>owner vid. any_error (activate_version W owner vid)),
      iw_deactivate = (\<lambda>owner vid. any_error (deactivate_version W owner vid))\<rparr>"

end
