(* ===== verification/MilvusWriter.thy ===== *)
theory MilvusWriter
  imports MilvusIndex ElasticsearchWriter
begin

text \<open>
  The version writer of Milvus, \<^verbatim>\<open>backend/ingestion/milvus_writer.py\<close>: one collection per owner and
  version, which no online alias names; its staging with the repair of an incomplete collection, its
  activation, verification and deletion. SHA-256 of bytes and of the JSON text of the embeddings are
  arguments. Rows are JSON objects, in the order of their keys; a negative zero is zero.
\<close>

record milvus_writer_env =
  mw_milvus :: milvus_env
  mw_unicode :: unicode
  mw_sha256 :: "nat list \<Rightarrow> string"
  mw_embeddings_sha256 :: "(pytext \<times> rat list) list \<Rightarrow> pytext"

record 'w milvus_version_writer =
  mw_collection_prefix :: string
  mw_env :: milvus_writer_env
  mw_transport :: "'w milvus_transport"
  mw_provider :: "'w embedding_provider"

definition max_version_rows :: int where
  "max_version_rows = 16000"

subsection \<open>Names\<close>

definition collection_digest :: "milvus_writer_env \<Rightarrow> string \<Rightarrow> string \<Rightarrow> string" where
  "collection_digest E owner vid = take 24 (mw_sha256 E (ascii owner @ [0] @ ascii vid))"

definition new_milvus_version_writer ::
  "string \<Rightarrow> milvus_writer_env \<Rightarrow> 'w milvus_transport \<Rightarrow> 'w embedding_provider \<Rightarrow>
     milvus_error + 'w milvus_version_writer"
where
  "new_milvus_version_writer prefix E T P =
     (if \<not> collection_name_ok prefix then Inl MilvusValueError
      else if 255 < length (prefix @ ''_v_'' @ replicate 24 CHR ''0'') then Inl MilvusValueError
      else Inr \<lparr>mw_collection_prefix = prefix, mw_env = E, mw_transport = T, mw_provider = P\<rparr>)"

definition collection_name :: "'w milvus_version_writer \<Rightarrow> string \<Rightarrow> string \<Rightarrow> string" where
  "collection_name W owner vid = mw_collection_prefix W @ ''_v_'' @ collection_digest (mw_env W) owner vid"

definition physical_collection_name ::
  "'w milvus_version_writer \<Rightarrow> string \<Rightarrow> string \<Rightarrow> milvus_error + string" where
  "physical_collection_name W owner vid =
     (if \<not> contract_id_ok owner \<or> \<not> contract_id_ok vid then Inl MilvusValueError
      else Inr (collection_name W owner vid))"

subsection \<open>Embeddings\<close>

text \<open>Packing into the four bytes of a float and back: rounding to 24 bits; too large a value raises.\<close>

definition binary32 :: "rat \<Rightarrow> rat" where
  "binary32 x =
     (if x = 0 then 0
      else
       let m = \<bar>x\<bar>; e = max (binary_exponent m - 23) (- 149); r = of_int (half_even (m / 2 powi e)) * 2 powi e
       in if x < 0 then - r else r)"

definition float32_vector :: "(rat \<Rightarrow> rat) \<Rightarrow> vector \<Rightarrow> rat list option" where
  "float32_vector sqrt_of v =
     Option.bind (normalize_vector sqrt_of v) (\<lambda>xs.
       if list_ex (\<lambda>x. 2 ^ 128 \<le> \<bar>binary32 x\<bar>) xs then None else Some (map binary32 xs))"

fun float32_all :: "(rat \<Rightarrow> rat) \<Rightarrow> vector list \<Rightarrow> rat list list option" where
  "float32_all sqrt_of [] = Some []"
| "float32_all sqrt_of (v # vs) = Option.bind (float32_vector sqrt_of v)
     (\<lambda>n. map_option (Cons n) (float32_all sqrt_of vs))"

definition embeddings_fingerprint ::
  "milvus_writer_env \<Rightarrow> (pytext \<times> rat list) list \<Rightarrow> milvus_error + pytext" where
  "embeddings_fingerprint E vectors =
     (if \<exists>(i, v) \<in> set vectors. v = [] then Inl MilvusNotReady
      else Inr (mw_embeddings_sha256 E (sort_key fst vectors)))"

definition embed_chunks ::
  "'w milvus_version_writer \<Rightarrow> jobject list \<Rightarrow> ('w, milvus_error, (pytext \<times> rat list) list) call" where
  "embed_chunks W chunks =
     call_bind (ep_embed (mw_provider W) (map passage_text chunks)) (\<lambda>vectors.
     if length vectors \<noteq> length chunks then call_raise MilvusValueError
     else
       call_bind (lift_call (of_option MilvusValueError (float32_all (mv_sqrt (mw_milvus (mw_env W))) vectors))) (\<lambda>normalized.
       if card (set (map length normalized)) \<noteq> 1 then call_raise MilvusValueError
       else call_return (zip (map chunk_key chunks) normalized)))"

subsection \<open>The identity of a collection\<close>

definition meta_text :: "(string \<times> pytext) list \<Rightarrow> string \<Rightarrow> pytext" where
  "meta_text meta k = (case map_of meta k of None \<Rightarrow> [] | Some t \<Rightarrow> t)"

definition meta_int :: "milvus_writer_env \<Rightarrow> (string \<times> pytext) list \<Rightarrow> string \<Rightarrow> int option" where
  "meta_int E meta k = Option.bind (map_of meta k) (py_int (mw_unicode E))"

definition version_row_count :: "milvus_writer_env \<Rightarrow> (string \<times> pytext) list \<Rightarrow> int" where
  "version_row_count E meta = the (meta_int E meta ''chunk_count'')"

definition expected_collection ::
  "string \<Rightarrow> string \<Rightarrow> string option \<Rightarrow> pytext option \<Rightarrow> nat option \<Rightarrow> model_identity option \<Rightarrow> (string \<times> pytext) list"
where
  "expected_collection owner vid doc source_sha256 expected_count identity =
     pinned_metadata @
     [(''input_truncation'', ascii ''provider_enabled_v1''),
      (''version_writer_schema'', ascii ''milvus_version_writer_v1''), (''owner_id'', ascii owner),
      (''document_version_id'', ascii vid), (''online_entrypoint'', ascii ''DETACHED_VERSION_COLLECTION'')] @
     (case doc of None \<Rightarrow> [] | Some d \<Rightarrow> [(''document_id'', ascii d)]) @
     (case source_sha256 of None \<Rightarrow> [] | Some h \<Rightarrow> [(''source_chunks_sha256'', h)]) @
     (case expected_count of None \<Rightarrow> [] | Some n \<Rightarrow> [(''chunk_count'', decimal n)]) @
     (case identity of None \<Rightarrow> []
      | Some i \<Rightarrow> [(''embedding_provider'', mi_provider i), (''embedding_model'', mi_model i),
          (''embedding_model_digest'', mi_digest i)])"

definition fields_exact :: "jobject \<Rightarrow> bool" where
  "fields_exact description \<longleftrightarrow>
     is_list (get description ''fields'') \<and>
     set (map (\<lambda>d. get d ''name'') (objects (items_of (get description ''fields'')))) =
       set (map (\<lambda>f. Some (JStr (ascii f))) expected_fields)"

definition collection_ok ::
  "milvus_writer_env \<Rightarrow> (string \<times> pytext) list \<Rightarrow> (string \<times> pytext) list \<Rightarrow> jobject \<Rightarrow> bool" where
  "collection_ok E expected meta description =
     (if \<exists>(k, v) \<in> set expected. map_of meta k \<noteq> Some v then False
      else if \<not> fields_exact description then False
      else (case (meta_int E meta ''chunk_count'', meta_int E meta ''embedding_dimension'') of
          (Some n, Some dimension) \<Rightarrow>
            if n < 1 \<or> max_version_rows < n \<or> dimension < 1 then False
            else if \<not> contract_text_ok (meta_text meta ''document_id'') then False
            else if list_ex (\<lambda>key. meta_text meta key = [])
              [''embedding_provider'', ''embedding_model'', ''embedding_model_digest''] then False
            else list_all (\<lambda>key. sha256_text (meta_text meta key)) [''source_chunks_sha256'', ''embeddings_sha256'']
        | _ \<Rightarrow> False))"

definition describe_collection :: "'w milvus_version_writer \<Rightarrow> string \<Rightarrow> ('w, milvus_error, jobject) call" where
  "describe_collection W name =
     call_bind (mw_transport W (DescribeCollection name)) (\<lambda>answer.
     lift_call (of_option MilvusTransportError (fields_of (Some answer))))"

text \<open>The description and the provider's identity are those given, or asked for.\<close>

definition inspect_collection ::
  "'w milvus_version_writer \<Rightarrow> string \<Rightarrow> (model_identity option \<Rightarrow> (string \<times> pytext) list) \<Rightarrow> bool \<Rightarrow>
     jobject option \<Rightarrow> model_identity option \<Rightarrow> ('w, milvus_error, (string \<times> pytext) list) call"
where
  "inspect_collection W name expected verify_provider given_description given_identity =
     call_bind (case given_description of Some d \<Rightarrow> call_return d | None \<Rightarrow> describe_collection W name) (\<lambda>description.
     call_bind (lift_call (parse_description (mw_milvus (mw_env W)) (get description ''description''))) (\<lambda>meta.
     call_bind
       (if \<not> verify_provider then call_return None
        else (case given_identity of Some i \<Rightarrow> call_return (Some i)
            | None \<Rightarrow> call_bind (ep_identity (mw_provider W)) (\<lambda>i. call_return (Some i)))) (\<lambda>identity.
     call_when (collection_ok (mw_env W) (expected identity) meta description) MilvusNotReady (call_return meta))))"

subsection \<open>Rows\<close>

text \<open>\<open>dict.get\<close> of a value that is compared with \<open>==\<close>: an absent key is \<open>None\<close>.\<close>

definition py_get :: "jobject \<Rightarrow> string \<Rightarrow> json" where
  "py_get d k = (case get d k of None \<Rightarrow> JNull | Some v \<Rightarrow> plain_value v)"

text \<open>A number that is finite; an integer too large for a float raises.\<close>

fun row_number :: "json \<Rightarrow> milvus_error + rat" where
  "row_number (JBool b) = Inr (if b then 1 else 0)"
| "row_number (JInt i) = (if overflows (of_int i) then Inl MilvusValueError else Inr (binary64 (of_int i)))"
| "row_number (JFloat (Some x)) = Inr x"
| "row_number v = Inl MilvusNotReady"

fun row_vector :: "json list \<Rightarrow> milvus_error + rat list" where
  "row_vector [] = Inr []"
| "row_vector (v # vs) = bind_res (row_number v) (\<lambda>x. bind_res (row_vector vs) (\<lambda>xs. Inr (x # xs)))"

definition row_identity_ok :: "(string \<times> pytext) list \<Rightarrow> jobject \<Rightarrow> jobject \<Rightarrow> pytext \<Rightarrow> bool" where
  "row_identity_ok meta row payload chunk_id \<longleftrightarrow>
     get payload ''chunk_id'' = Some (JStr chunk_id) \<and>
     get payload ''tenant_id'' = Some (JStr (meta_text meta ''owner_id'')) \<and>
     get payload ''document_id'' = Some (JStr (meta_text meta ''document_id'')) \<and>
     get payload ''version_id'' = Some (JStr (meta_text meta ''document_version_id'')) \<and>
     list_all (\<lambda>k. py_get row k = py_get payload k)
       [''document_id'', ''tenant_id'', ''visibility'', ''library_scope_ids''] \<and>
     is_bool (get row ''is_active'') \<and> get row ''is_active'' = get payload ''is_active''"

definition validated_row ::
  "milvus_writer_env \<Rightarrow> (string \<times> pytext) list \<Rightarrow> jobject \<Rightarrow> milvus_error + pytext \<times> rat list \<times> jobject" where
  "validated_row E meta row =
     (if set (map fst row) \<noteq> set expected_fields then Inl MilvusNotReady
      else (case (get row ''chunk_id'', fields_of (get row ''payload''), get row ''embedding'') of
          (Some (JStr chunk_id), Some payload, Some (JList vector)) \<Rightarrow>
            if meta_int E meta ''embedding_dimension'' \<noteq> Some (int (length vector)) then Inl MilvusNotReady
            else bind_res (row_vector vector) (\<lambda>v.
              if \<not> row_identity_ok meta row payload chunk_id then Inl MilvusNotReady
              else Inr (chunk_id, v, payload))
        | _ \<Rightarrow> Inl MilvusNotReady))"

text \<open>The rows against the chunks; the embeddings of the rows by chunk.\<close>

fun expected_rows ::
  "milvus_writer_env \<Rightarrow> (string \<times> pytext) list \<Rightarrow> jobject list \<Rightarrow> (pytext \<times> rat list) list option \<Rightarrow>
     (pytext \<times> rat list) list \<Rightarrow> jobject list \<Rightarrow> milvus_error + (pytext \<times> rat list) list"
where
  "expected_rows E meta chunks expected_vectors actual [] = Inr actual"
| "expected_rows E meta chunks expected_vectors actual (row # rows) =
     bind_res (validated_row E meta row) (\<lambda>(chunk_id, vector, payload).
     if chunk_id \<in> set (map fst actual) \<or> chunk_id \<notin> set (map chunk_key chunks) then Inl MilvusNotReady
     else if \<not> same_value (put_field payload ''is_active'' (JBool False))
       (the (map_of (map (\<lambda>c. (chunk_key c, c)) chunks) chunk_id)) then Inl MilvusNotReady
     else if (case expected_vectors of None \<Rightarrow> False | Some vs \<Rightarrow> map_of vs chunk_id \<noteq> Some vector)
     then Inl MilvusNotReady
     else expected_rows E meta chunks expected_vectors (actual @ [(chunk_id, vector)]) rows)"

definition embeddings_match ::
  "milvus_writer_env \<Rightarrow> (string \<times> pytext) list \<Rightarrow> (pytext \<times> rat list) list \<Rightarrow> milvus_error + bool" where
  "embeddings_match E meta vectors = bind_res (embeddings_fingerprint E vectors) (\<lambda>fingerprint.
     Inr (map_of meta ''embeddings_sha256'' = Some fingerprint))"

definition verify_expected_rows ::
  "milvus_writer_env \<Rightarrow> jobject list \<Rightarrow> jobject list \<Rightarrow> (string \<times> pytext) list \<Rightarrow> bool \<Rightarrow>
     (pytext \<times> rat list) list option \<Rightarrow> milvus_error + pytext list"
where
  "verify_expected_rows E rows chunks meta allow_missing expected_vectors =
     bind_res (expected_rows E meta chunks expected_vectors [] rows) (\<lambda>actual.
     let seen = map fst actual in
     if length chunks < length rows \<or> (\<not> allow_missing \<and> set seen \<noteq> set (map chunk_key chunks))
     then Inl MilvusNotReady
     else if allow_missing then Inr seen
     else bind_res (embeddings_match E meta actual) (\<lambda>ok. if ok then Inr seen else Inl MilvusNotReady))"

fun lifecycle_rows ::
  "milvus_writer_env \<Rightarrow> (string \<times> pytext) list \<Rightarrow> bool option \<Rightarrow> (pytext \<times> rat list) list \<Rightarrow> jobject list \<Rightarrow>
     milvus_error + (pytext \<times> rat list) list"
where
  "lifecycle_rows E meta expected_active vectors [] = Inr vectors"
| "lifecycle_rows E meta expected_active vectors (row # rows) =
     bind_res (validated_row E meta row) (\<lambda>(chunk_id, vector, payload).
     if chunk_id \<in> set (map fst vectors) then Inl MilvusNotReady
     else if (case expected_active of None \<Rightarrow> False | Some b \<Rightarrow> get payload ''is_active'' \<noteq> Some (JBool b))
     then Inl MilvusNotReady
     else lifecycle_rows E meta expected_active (vectors @ [(chunk_id, vector)]) rows)"

definition verify_lifecycle_rows ::
  "milvus_writer_env \<Rightarrow> jobject list \<Rightarrow> (string \<times> pytext) list \<Rightarrow> bool \<Rightarrow> bool option \<Rightarrow> milvus_error + unit" where
  "verify_lifecycle_rows E rows meta allow_incomplete expected_active =
     (let expected_count = version_row_count E meta; n = int (length rows) in
      if expected_count < n \<or> (\<not> allow_incomplete \<and> n \<noteq> expected_count) then Inl MilvusNotReady
      else
        bind_res (lifecycle_rows E meta expected_active [] rows) (\<lambda>vectors.
        bind_res (embeddings_match E meta vectors) (\<lambda>ok.
        if \<not> allow_incomplete \<and> \<not> ok then Inl MilvusNotReady else Inr ())))"

definition milvus_row :: "jobject \<Rightarrow> rat list \<Rightarrow> jobject" where
  "milvus_row c vector =
     [(''chunk_id'', the (get c ''chunk_id'')), (''document_id'', the (get c ''document_id'')),
      (''embedding'', JList (map (\<lambda>x. JFloat (Some x)) vector)), (''is_active'', the (get c ''is_active'')),
      (''library_scope_ids'', JList (items_of (get c ''library_scope_ids''))), (''payload'', JObj c),
      (''tenant_id'', the (get c ''tenant_id'')), (''visibility'', the (get c ''visibility''))]"

definition flush_and_load :: "'w milvus_version_writer \<Rightarrow> string \<Rightarrow> ('w, milvus_error, unit) call" where
  "flush_and_load W name =
     call_bind (mw_transport W (Flush name)) (\<lambda>_.
     call_bind (mw_transport W (LoadCollection name)) (\<lambda>_. call_return ()))"

text \<open>An upsert whose count, if it reports one, is the number of rows.\<close>

definition upsert_checked :: "'w milvus_version_writer \<Rightarrow> string \<Rightarrow> jobject list \<Rightarrow> ('w, milvus_error, unit) call" where
  "upsert_checked W name rows =
     call_bind (mw_transport W (UpsertRows name rows)) (\<lambda>answer.
     call_bind (lift_call (of_option MilvusTransportError (fields_of (Some answer)))) (\<lambda>result.
     if py_get result ''upsert_count'' \<notin> {JNull, JInt (int (length rows))} then call_raise MilvusNotReady
     else flush_and_load W name))"

definition upsert_rows ::
  "'w milvus_version_writer \<Rightarrow> string \<Rightarrow> jobject list \<Rightarrow> (pytext \<times> rat list) list \<Rightarrow> ('w, milvus_error, unit) call"
where
  "upsert_rows W name chunks vectors =
     upsert_checked W name (map (\<lambda>c. milvus_row c (the (map_of vectors (chunk_key c)))) chunks)"

definition sorted_fields :: "string list" where
  "sorted_fields = [''chunk_id'', ''document_id'', ''embedding'', ''is_active'', ''library_scope_ids'',
     ''payload'', ''tenant_id'', ''visibility'']"

definition query_rows :: "'w milvus_version_writer \<Rightarrow> string \<Rightarrow> int \<Rightarrow> ('w, milvus_error, jobject list) call" where
  "query_rows W name limit =
     (if limit < 1 \<or> max_version_rows + 1 < limit then call_raise MilvusValueError
      else
        call_bind (mw_transport W (QueryRows name [] sorted_fields limit)) (\<lambda>answer.
        case answer of
          JList rows \<Rightarrow>
            if list_all (\<lambda>r. fields_of (Some r) \<noteq> None) rows
            then call_return (map (\<lambda>r. the (fields_of (Some r))) rows) else call_raise MilvusNotReady
        | _ \<Rightarrow> call_raise MilvusNotReady))"

subsection \<open>Staging\<close>

definition version_stage_ok :: "string \<Rightarrow> string \<Rightarrow> string \<Rightarrow> jobject list \<Rightarrow> bool" where
  "version_stage_ok owner doc vid chunks \<longleftrightarrow>
     contract_id_ok owner \<and> contract_id_ok vid \<and> contract_id_ok doc \<and> chunks \<noteq> [] \<and>
     int (length chunks) \<le> max_version_rows \<and> milvus_validate_chunks chunks \<and>
     (\<forall>c \<in> set chunks. contract_text_ok (chunk_key c) \<and> get c ''tenant_id'' = Some (JStr (ascii owner)) \<and>
        get c ''document_id'' = Some (JStr (ascii doc)) \<and> get c ''version_id'' = Some (JStr (ascii vid)) \<and>
        get c ''is_active'' = Some (JBool False))"

definition collection_metadata ::
  "milvus_writer_env \<Rightarrow> string \<Rightarrow> string \<Rightarrow> string \<Rightarrow> jobject list \<Rightarrow> model_identity \<Rightarrow> nat \<Rightarrow> pytext \<Rightarrow> (string \<times> pytext) list"
where
  "collection_metadata E owner doc vid chunks identity dimension fingerprint =
     milvus_metadata (mw_milvus E) chunks identity dimension @
     [(''version_writer_schema'', ascii ''milvus_version_writer_v1''), (''owner_id'', ascii owner),
      (''document_id'', ascii doc), (''document_version_id'', ascii vid),
      (''online_entrypoint'', ascii ''DETACHED_VERSION_COLLECTION''), (''embeddings_sha256'', fingerprint)]"

definition create_collection ::
  "'w milvus_version_writer \<Rightarrow> string \<Rightarrow> string \<Rightarrow> string \<Rightarrow> string \<Rightarrow> jobject list \<Rightarrow> ('w, milvus_error, unit) call"
where
  "create_collection W name owner doc vid chunks =
     call_bind (embed_chunks W chunks) (\<lambda>vectors.
     let dimension = length (snd (hd vectors)) in
     call_bind (ep_identity (mw_provider W)) (\<lambda>identity.
     call_bind (lift_call (embeddings_fingerprint (mw_env W) vectors)) (\<lambda>fingerprint.
     call_bind (mw_transport W (CreateCollection name dimension (describe_metadata (mw_milvus (mw_env W))
       (collection_metadata (mw_env W) owner doc vid chunks identity dimension fingerprint)))) (\<lambda>_.
     upsert_rows W name chunks vectors))))"

text \<open>The rows of a collection that lacks some are completed, if the provider embeds as it did.\<close>

definition complete_rows ::
  "'w milvus_version_writer \<Rightarrow> string \<Rightarrow> jobject list \<Rightarrow> (string \<times> pytext) list \<Rightarrow> jobject list \<Rightarrow> pytext list \<Rightarrow>
     ('w, milvus_error, jobject list) call"
where
  "complete_rows W name chunks meta rows seen =
     (let missing = filter (\<lambda>c. chunk_key c \<notin> set seen) chunks in
      if missing = [] then call_return rows
      else
        call_bind (embed_chunks W chunks) (\<lambda>vectors.
        call_bind (lift_call (embeddings_match (mw_env W) meta vectors)) (\<lambda>ok.
        if \<not> ok then call_raise MilvusNotReady
        else
          call_bind (lift_call (verify_expected_rows (mw_env W) rows chunks meta True (Some vectors))) (\<lambda>_.
          call_bind (upsert_rows W name missing vectors) (\<lambda>_.
          query_rows W name max_version_rows)))))"

definition stage_version ::
  "'w milvus_version_writer \<Rightarrow> string \<Rightarrow> string \<Rightarrow> string \<Rightarrow> jobject list \<Rightarrow> ('w, milvus_error, index_write_receipt) call"
where
  "stage_version W owner doc vid chunks =
     (if \<not> version_stage_ok owner doc vid chunks then call_raise MilvusValueError
      else
       let E = mw_env W; name = collection_name W owner vid;
           source_sha256 = mv_fingerprint (mw_milvus E) chunks in
       call_bind (mw_transport W (HasCollection name)) (\<lambda>present.
       call_bind (if present = JBool True then call_return () else create_collection W name owner doc vid chunks) (\<lambda>_.
       call_bind (inspect_collection W name (expected_collection owner vid (Some doc) (Some source_sha256)
         (Some (length chunks))) True None None) (\<lambda>meta.
       call_bind (query_rows W name max_version_rows) (\<lambda>rows.
       call_bind (lift_call (verify_expected_rows E rows chunks meta True None)) (\<lambda>seen.
       call_bind (complete_rows W name chunks meta rows seen) (\<lambda>staged.
       call_bind (lift_call (verify_expected_rows E staged chunks meta False None)) (\<lambda>_.
       call_return \<lparr>rc_backend = MILVUS, rc_owner_id = owner, rc_document_version_id = vid,
         rc_chunk_count = version_row_count E meta,
         rc_source_chunks_sha256 = map char_of (meta_text meta ''source_chunks_sha256'')\<rparr>))))))))"

subsection \<open>Activation, verification, deletion\<close>

definition with_active :: "bool \<Rightarrow> jobject \<Rightarrow> jobject" where
  "with_active active row =
     put_field (put_field row ''is_active'' (JBool active)) ''payload''
       (JObj (put_field (the (fields_of (get row ''payload''))) ''is_active'' (JBool active)))"

definition set_version_active ::
  "'w milvus_version_writer \<Rightarrow> string \<Rightarrow> string \<Rightarrow> bool \<Rightarrow> bool \<Rightarrow> ('w, milvus_error, unit) call" where
  "set_version_active W owner vid active allow_incomplete =
     call_bind (lift_call (physical_collection_name W owner vid)) (\<lambda>name.
     call_bind (mw_transport W (HasCollection name)) (\<lambda>present.
     if present \<noteq> JBool True then call_raise MilvusNotReady
     else
       call_bind (inspect_collection W name (expected_collection owner vid None None None) False None None) (\<lambda>meta.
       call_bind (query_rows W name max_version_rows) (\<lambda>rows.
       call_bind (lift_call (verify_lifecycle_rows (mw_env W) rows meta allow_incomplete None)) (\<lambda>_.
       call_bind (if rows = [] then call_return () else upsert_checked W name (map (with_active active) rows)) (\<lambda>_.
       call_bind (query_rows W name max_version_rows) (\<lambda>verified.
       lift_call (verify_lifecycle_rows (mw_env W) verified meta allow_incomplete (Some active)))))))))"

definition activate_collection :: "'w milvus_version_writer \<Rightarrow> string \<Rightarrow> string \<Rightarrow> ('w, milvus_error, unit) call" where
  "activate_collection W owner vid = set_version_active W owner vid True False"

definition deactivate_collection :: "'w milvus_version_writer \<Rightarrow> string \<Rightarrow> string \<Rightarrow> ('w, milvus_error, unit) call" where
  "deactivate_collection W owner vid =
     call_bind (lift_call (physical_collection_name W owner vid)) (\<lambda>name.
     call_bind (mw_transport W (HasCollection name)) (\<lambda>present.
     if present \<noteq> JBool True then call_return () else set_version_active W owner vid False True))"

text \<open>Two calls that are submitted together: both are made, the first one's exception is raised.\<close>

definition both_calls :: "('w, 'e, 'a) call \<Rightarrow> ('w, 'e, 'b) call \<Rightarrow> ('w, 'e, 'a \<times> 'b) call" where
  "both_calls m m' w =
     (let (r, w1) = m w; (r', w2) = m' w1 in
      (bind_res r (\<lambda>a. bind_res r' (\<lambda>b. Inr (a, b))), w2))"

text \<open>Every exception of a \<open>try\<close> block becomes that the collection is not ready.\<close>

definition not_ready :: "('w, milvus_error, 'a) call \<Rightarrow> ('w, milvus_error, 'a) call" where
  "not_ready m w = (case m w of (Inl _, w') \<Rightarrow> (Inl MilvusNotReady, w') | (Inr x, w') \<Rightarrow> (Inr x, w'))"

definition verify_online_collection ::
  "'w milvus_version_writer \<Rightarrow> string \<Rightarrow> string \<Rightarrow> string \<Rightarrow> ('w, milvus_error, string \<times> (string \<times> pytext) list) call"
where
  "verify_online_collection W owner doc vid =
     call_bind (lift_call (physical_collection_name W owner vid)) (\<lambda>name.
     not_ready (
       call_bind (both_calls (describe_collection W name) (ep_identity (mw_provider W))) (\<lambda>(description, identity).
       call_bind (inspect_collection W name (expected_collection owner vid (Some doc) None None) True
         (Some description) (Some identity)) (\<lambda>meta.
       call_bind (query_rows W name (version_row_count (mw_env W) meta + 1)) (\<lambda>rows.
       call_bind (lift_call (verify_lifecycle_rows (mw_env W) rows meta False (Some True))) (\<lambda>_.
       call_return (name, meta)))))))"

definition delete_collection :: "'w milvus_version_writer \<Rightarrow> string \<Rightarrow> string \<Rightarrow> ('w, milvus_error, bool) call" where
  "delete_collection W owner vid =
     call_bind (lift_call (physical_collection_name W owner vid)) (\<lambda>name.
     call_bind (mw_transport W (HasCollection name)) (\<lambda>present.
     if present \<noteq> JBool True then call_return False
     else
       call_bind (inspect_collection W name (expected_collection owner vid None None None) False None None) (\<lambda>_.
       call_bind (mw_transport W (DropCollection name)) (\<lambda>_.
       call_bind (mw_transport W (HasCollection name)) (\<lambda>still.
       if still = JBool True then call_raise MilvusNotReady else call_return True)))))"

text \<open>The writer as the publication uses it.\<close>

definition milvus_index_writer :: "'w milvus_version_writer \<Rightarrow> 'w index_writer" where
  "milvus_index_writer W =
     \<lparr>iw_backend = MILVUS,
      iw_ensure_staged = (\<lambda>owner doc vid chunks. any_error (stage_version W owner doc vid (map chunk_json chunks))),
      iw_activate = (\<lambda>owner vid. any_error (activate_collection W owner vid)),
      iw_deactivate = (\<lambda>owner vid. any_error (deactivate_collection W owner vid))\<rparr>"

end
