(* ===== verification/ElasticsearchVersions.thy ===== *)
theory ElasticsearchVersions
  imports ElasticsearchWriter ClaimSupport "HOL-Library.AList" "HOL-Library.Code_Target_Nat"
begin

text \<open>
  Properties of the version writer. Elasticsearch searches in near real time: a document that was
  stored is searched and counted only after the next refresh of its index, but read by \<^verbatim>\<open>_mget\<close> at
  once. So the state has two views: \<open>sto\<close>, the stored documents of each index, and \<open>vis\<close>, its searchable
  ones. \<open>node_reads\<close> states what the node documents of its read requests, \<open>node_refreshes\<close> that a refresh
  makes the stored documents searchable, \<open>node_updates\<close> what an update by query does. A receipt then
  means that every chunk is stored, and, wherever the staging refreshed or nothing was waiting for a
  refresh, that the index holds nothing else; a verified route that everything searchable in it is owned
  and active; and no operation touches another index. \<open>sample_node\<close> is a node that satisfies the
  hypotheses.
\<close>

subsection \<open>The node\<close>

type_synonym es_documents = "(pytext \<times> jobject) list"

type_synonym 'w es_view = "'w \<Rightarrow> string \<Rightarrow> es_documents option"

definition matching :: "(es_query \<Rightarrow> jobject \<Rightarrow> bool) \<Rightarrow> es_query \<Rightarrow> es_documents \<Rightarrow> es_documents" where
  "matching m q ds = filter (\<lambda>d. m q (snd d)) ds"

definition json_count :: "'a list \<Rightarrow> json" where
  "json_count xs = JInt (int (length xs))"

text \<open>An entry of \<^verbatim>\<open>_mget\<close> that is found gives a stored document, its identifier and its source, beside
  whatever other keys; other entries (documents that are missing, or could not be read) say anything.\<close>

definition found_documents :: "es_documents \<Rightarrow> jobject \<Rightarrow> bool" where
  "found_documents ss r \<longleftrightarrow>
     (\<forall>e. JObj e \<in> set (items_of (get r ''docs'')) \<longrightarrow> get e ''found'' = Some (JBool True) \<longrightarrow>
        (\<exists>i source. get e ''_id'' = Some (JStr i) \<and> map_of ss i = Some source \<and>
           get e ''_source'' = Some (JObj source)))"

text \<open>The answer to a read request about an index with these searchable and these stored documents (all
  shards answering): counts and searches see the searchable ones, \<^verbatim>\<open>_mget\<close> the stored ones.\<close>

fun answers ::
  "(es_query \<Rightarrow> jobject \<Rightarrow> bool) \<Rightarrow> es_documents option \<Rightarrow> es_documents option \<Rightarrow> version_request \<Rightarrow> jobject \<Rightarrow> bool"
where
  "answers m v s (ReadIndex n) r = (s \<noteq> None)"
| "answers m v s (CountAll n) r = (\<exists>ds. v = Some ds \<and> get r ''count'' = Some (json_count ds))"
| "answers m v s (CountWhere n q) r = (\<exists>ds. v = Some ds \<and> get r ''count'' = Some (json_count (matching m q ds)))"
| "answers m v s (MultiGet n ids) r = found_documents (case s of None \<Rightarrow> [] | Some ss \<Rightarrow> ss) r"
| "answers m v s (OnlineCounts n owned active) r =
     (\<exists>ds. v = Some ds \<and> total_hits r \<in> {Inl EsIndexNotReady, Inr (Some (json_count ds))} \<and>
        doc_count r ''owned'' = Some (json_count (matching m owned ds)) \<and>
        doc_count r ''active'' = Some (json_count (matching m active ds)))"
| "answers m v s _ r = True"

fun reads :: "version_request \<Rightarrow> bool" where
  "reads (ReadIndex n) = True"
| "reads (CountAll n) = True"
| "reads (CountWhere n q) = True"
| "reads (OnlineCounts n p q) = True"
| "reads (MultiGet n ids) = True"
| "reads _ = False"

fun request_index :: "version_request \<Rightarrow> string" where
  "request_index (CreateHidden n _ _) = n"
| "request_index (ReadIndex n) = n"
| "request_index (UpdateActive n _ _) = n"
| "request_index (CountAll n) = n"
| "request_index (CountWhere n _) = n"
| "request_index (OnlineCounts n _ _) = n"
| "request_index (BulkChunks n _) = n"
| "request_index (RefreshIndex n) = n"
| "request_index (MultiGet n _) = n"
| "request_index (DeleteIndex n) = n"

text \<open>Nothing is stored, but an index may be refreshed, which the node does by itself from time to
  time.\<close>

definition refreshes :: "'w es_view \<Rightarrow> 'w es_view \<Rightarrow> 'w \<Rightarrow> 'w \<Rightarrow> bool" where
  "refreshes vis sto w w' \<longleftrightarrow> (\<forall>n. sto w' n = sto w n \<and> (vis w' n = vis w n \<or> vis w' n = sto w n))"

definition node_reads ::
  "(es_query \<Rightarrow> jobject \<Rightarrow> bool) \<Rightarrow> 'w version_transport \<Rightarrow> 'w es_view \<Rightarrow> 'w es_view \<Rightarrow> bool"
where
  "node_reads m T vis sto \<longleftrightarrow> es_semantics m \<and>
     (\<forall>w n ds. sto w n = Some ds \<longrightarrow> distinct (map fst ds)) \<and>
     (\<forall>req w r w'. reads req \<longrightarrow> vt_request T req w = (Inr r, w') \<longrightarrow> refreshes vis sto w w' \<and>
        answers m (vis w' (request_index req)) (sto w' (request_index req)) req r) \<and>
     (\<forall>n w b w'. vt_exists T n w = (Inr b, w') \<longrightarrow> refreshes vis sto w w' \<and> b = (sto w' n \<noteq> None))"

text \<open>A refresh makes all stored documents searchable. In an index that did not exist nothing waits for a
  refresh once its creation was asked for, whatever the answer.\<close>

definition node_refreshes :: "'w version_transport \<Rightarrow> 'w es_view \<Rightarrow> 'w es_view \<Rightarrow> bool" where
  "node_refreshes T vis sto \<longleftrightarrow>
     (\<forall>n w r w'. vt_request T (RefreshIndex n) w = (Inr r, w') \<longrightarrow> vis w' n = sto w' n) \<and>
     (\<forall>n metadata ps w. sto w n = None \<longrightarrow>
        (let w' = snd (vt_request T (CreateHidden n metadata ps) w) in vis w' n = sto w' n))"

text \<open>Between the requests of one operation nothing is refreshed either.\<close>

definition node_quiet :: "'w version_transport \<Rightarrow> bool" where
  "node_quiet T \<longleftrightarrow>
     (\<forall>req w r w'. reads req \<longrightarrow> vt_request T req w = (Inr r, w') \<longrightarrow> w' = w) \<and>
     (\<forall>n w b w'. vt_exists T n w = (Inr b, w') \<longrightarrow> w' = w)"

lemma node_quietD:
  assumes "node_quiet T" and "reads req" and "vt_request T req w = (Inr r, w')"
  shows "w' = w"
  using assms unfolding node_quiet_def by blast

lemma node_readsD:
  assumes "node_reads m T vis sto"
  shows "es_semantics m" and "sto w n = Some ds \<Longrightarrow> distinct (map fst ds)"
    and "reads req \<Longrightarrow> vt_request T req w = (Inr r, w') \<Longrightarrow> refreshes vis sto w w' \<and>
      answers m (vis w' (request_index req)) (sto w' (request_index req)) req r"
    and "vt_exists T n w = (Inr b, w') \<Longrightarrow> refreshes vis sto w w' \<and> b = (sto w' n \<noteq> None)"
  using assms unfolding node_reads_def by blast+

lemma refreshes_refl: "refreshes vis sto w w"
  by (simp add: refreshes_def)

lemma refreshes_trans: "refreshes vis sto w v \<Longrightarrow> refreshes vis sto v w' \<Longrightarrow> refreshes vis sto w w'"
  unfolding refreshes_def by metis

lemma refreshesD:
  assumes "refreshes vis sto w w'"
  shows "sto w' n = sto w n" and "vis w n = sto w n \<Longrightarrow> vis w' n = sto w' n"
    and "vis w' n \<noteq> sto w' n \<Longrightarrow> vis w' n = vis w n"
  using assms unfolding refreshes_def by metis+

subsection \<open>Numbers\<close>

lemma int_digits_decimal:
  assumes "\<forall>c \<in> set ds. uc_digit u c" and "ds \<noteq> [] \<or> b"
  shows "int_digits u b ds = Some ds"
  using assms by (induction u b ds rule: int_digits.induct) auto

lemma py_int_decimal:
  assumes "ascii_digits u" and "py_int u (decimal n) = Some i"
  shows "i = int n"
proof -
  have d: "48 \<le> c \<and> c \<le> 57" if "c \<in> set (decimal n)" for c using that decimal_digits by blast
  then have space: "\<not> uspace c" and digit: "uc_digit u c" if "c \<in> set (decimal n)" for c
    using that assms(1) by (fastforce simp: uspace_def ascii_digits_def)+
  have "trim (decimal n) = decimal n" by (rule strip_text_id) (simp add: space hd_in_set)
  moreover have "take_sign (decimal n) = (False, decimal n)"
    using d [of "hd (decimal n)"] by (cases "decimal n") (auto simp: take_sign_def)
  moreover have "int_digits u False (decimal n) = Some (decimal n)" by (rule int_digits_decimal) (auto simp: digit)
  ultimately show ?thesis using assms(2) numeral_value_decimal [OF assms(1), of n]
    by (simp add: py_int_def split: if_splits)
qed

subsection \<open>Reads\<close>

lemma matching_all: "length (matching m q ds) = length ds \<Longrightarrow> d \<in> set ds \<Longrightarrow> m q (snd d)"
  by (metis filter_id_conv length_filter_less less_irrefl matching_def)

lemma es_count_Inr:
  assumes "node_reads m (ew_transport W) vis sto" and "es_count W name q w = (Inr n, w')"
  obtains vs where "refreshes vis sto w w'" and "vis w' name = Some vs"
    and "n = int (length (case q of None \<Rightarrow> vs | Some p \<Rightarrow> matching m p vs))"
proof -
  let ?req = "case q of None \<Rightarrow> CountAll name | Some q \<Rightarrow> CountWhere name q"
  obtain r where r: "vt_request (ew_transport W) ?req w = (Inr r, w')" "count_of (get r ''count'') = Inr n"
    using assms(2) by (auto simp: es_count_def call_simps)
  have req: "reads ?req" "request_index ?req = name" by (simp_all split: option.splits)
  have a: "refreshes vis sto w w'" "answers m (vis w' name) (sto w' name) ?req r"
    using node_readsD(3) [OF assms(1) req(1) r(1)] req(2) by auto
  then obtain vs where vs: "vis w' name = Some vs"
    "get r ''count'' = Some (json_count (case q of None \<Rightarrow> vs | Some p \<Rightarrow> matching m p vs))"
    by (cases q) auto
  then have "n = int (length (case q of None \<Rightarrow> vs | Some p \<Rightarrow> matching m p vs))"
    using r(2) by (simp add: count_of_def json_count_def)
  with a(1) vs(1) show thesis using that by blast
qed

lemma read_identity_Inr:
  assumes "inspect_identity W name expected w = (Inr metadata, w')"
  shows "\<forall>(k, v) \<in> set expected. map_of metadata k = Some v"
    and "\<exists>n \<ge> 1. Option.bind (map_of metadata ''chunk_count'') (py_int (we_unicode (ew_env W))) = Some n"
proof -
  obtain r where "read_identity (ew_env W) name expected r = Inr metadata"
    using assms by (auto simp: inspect_identity_def call_simps)
  then show "\<forall>(k, v) \<in> set expected. map_of metadata k = Some v"
    "\<exists>n \<ge> 1. Option.bind (map_of metadata ''chunk_count'') (py_int (we_unicode (ew_env W))) = Some n"
    by (auto simp: read_identity_def Let_def not_less split: option.splits if_splits)
qed

lemma inspect_identity_Inr:
  assumes "node_reads m (ew_transport W) vis sto" and "inspect_identity W name expected w = (Inr metadata, w')"
  shows "refreshes vis sto w w'" and "sto w' name \<noteq> None"
proof -
  obtain r where "vt_request (ew_transport W) (ReadIndex name) w = (Inr r, w')"
    using assms(2) by (auto simp: inspect_identity_def call_simps)
  from node_readsD(3) [OF assms(1) _ this] show "refreshes vis sto w w'" "sto w' name \<noteq> None" by simp_all
qed

lemma inspect_identity_quiet:
  assumes "node_quiet (ew_transport W)" and "inspect_identity W name expected w = (Inr metadata, w')"
  shows "w' = w"
proof -
  obtain r where "vt_request (ew_transport W) (ReadIndex name) w = (Inr r, w')"
    using assms(2) by (auto simp: inspect_identity_def call_simps)
  from node_quietD [OF assms(1) _ this] show ?thesis by simp
qed

text \<open>The two counts of the owned documents. The documents counted are those searchable at the start, or the
  stored ones, searchable since; the ones searchable at the end are owned if they are the ones counted.\<close>

lemma verify_owned_count_Inr:
  assumes "node_reads m (ew_transport W) vis sto"
    and "verify_owned_count W name owner doc vid n incomplete w = (Inr k, w')"
  obtains vs where "refreshes vis sto w w'" and "k = int (length vs)" and "k \<le> n" and "\<not> incomplete \<longrightarrow> k = n"
    and "vis w name = Some vs \<or> vis w' name = Some vs \<and> sto w' name = Some vs"
    and "vis w' name = Some vs \<longrightarrow> (\<forall>d \<in> set vs. m (owned_query owner doc vid) (snd d))"
proof -
  obtain owned w1 where c: "es_count W name None w = (Inr k, w1)"
    "es_count W name (Some (owned_query owner doc vid)) w1 = (Inr owned, w')"
    "k = owned" "k \<le> n" "\<not> incomplete \<longrightarrow> k = n"
    using assms(2) by (auto simp: verify_owned_count_def call_simps split: if_splits)
  obtain vs where vs: "refreshes vis sto w w1" "vis w1 name = Some vs" "k = int (length vs)"
    using es_count_Inr [OF assms(1) c(1)] by auto
  obtain vs' where vs': "refreshes vis sto w1 w'" "vis w' name = Some vs'"
    "owned = int (length (matching m (owned_query owner doc vid) vs'))"
    using es_count_Inr [OF assms(1) c(2)] by auto
  have "\<forall>d \<in> set vs. m (owned_query owner doc vid) (snd d)" if "vis w' name = Some vs"
  proof -
    have "length (matching m (owned_query owner doc vid) vs) = length vs" using vs vs' c(3) that by simp
    then show ?thesis using matching_all by blast
  qed
  moreover have "vis w name = Some vs \<or> vis w' name = Some vs \<and> sto w' name = Some vs"
  proof (cases "vis w1 name = vis w name")
    case False
    then have fresh: "vis w1 name = sto w1 name" using refreshesD(3) [OF vs(1), of name] by blast
    then have "vis w' name = sto w' name" "sto w' name = sto w1 name"
      using refreshesD(1,2) [OF vs'(1), of name] by simp_all
    with fresh vs(2) show ?thesis by simp
  qed (use vs(2) in simp)
  ultimately show thesis using that refreshes_trans [OF vs(1) vs'(1)] vs(3) c(4,5) by blast
qed

text \<open>Every entry is found, under an identifier of its own that belongs to a chunk.\<close>

lemma verify_documents_found:
  assumes "verify_documents chunks False seen vs"
  shows "\<exists>ids. length ids = length vs \<and> distinct ids \<and> set ids \<inter> set seen = {} \<and>
    set ids \<subseteq> chunk_key ` set chunks \<and>
    (\<forall>i \<in> set ids. \<exists>e source. JObj e \<in> set vs \<and> get e ''_id'' = Some (JStr i) \<and>
       get e ''found'' = Some (JBool True) \<and> get e ''_source'' = Some (JObj source) \<and>
       same_value (put_field source ''is_active'' (JBool False)) (the (map_of (map (\<lambda>c. (chunk_key c, c)) chunks) i)))"
  using assms
proof (induction vs arbitrary: seen)
  case (Cons v vs)
  obtain e where v: "v = JObj e" using Cons.prems by (cases v) auto
  obtain i where i: "get e ''_id'' = Some (JStr i)"
  proof (cases "get e ''_id''")
    case (Some x)
    then show ?thesis using Cons.prems v that by (cases x) (auto split: if_splits)
  qed (use Cons.prems v in simp)
  have new: "i \<notin> set seen" "i \<in> chunk_key ` set chunks" and found: "get e ''found'' = Some (JBool True)"
    using Cons.prems by (auto simp: v i split: if_splits)
  obtain source where src: "get e ''_source'' = Some (JObj source)"
  proof (cases "get e ''_source''")
    case (Some x)
    then show ?thesis using Cons.prems new that by (cases x) (auto simp: v i found split: if_splits)
  qed (use Cons.prems new in \<open>simp add: v i found\<close>)
  have same: "same_value (put_field source ''is_active'' (JBool False))
      (the (map_of (map (\<lambda>c. (chunk_key c, c)) chunks) i))"
    and rest: "verify_documents chunks False (i # seen) vs"
    using Cons.prems new by (auto simp: v i found src split: if_splits)
  obtain ids where ids: "length ids = length vs" "distinct ids" "set ids \<inter> set (i # seen) = {}"
    "set ids \<subseteq> chunk_key ` set chunks"
    "\<forall>j \<in> set ids. \<exists>e source. JObj e \<in> set vs \<and> get e ''_id'' = Some (JStr j) \<and>
       get e ''found'' = Some (JBool True) \<and> get e ''_source'' = Some (JObj source) \<and>
       same_value (put_field source ''is_active'' (JBool False)) (the (map_of (map (\<lambda>c. (chunk_key c, c)) chunks) j))"
    using Cons.IH [OF rest] by blast
  show ?case
  proof (intro exI [of _ "i # ids"] conjI ballI)
    fix j assume "j \<in> set (i # ids)"
    then consider "j = i" | "j \<in> set ids" by auto
    then show "\<exists>e source. JObj e \<in> set (v # vs) \<and> get e ''_id'' = Some (JStr j) \<and>
       get e ''found'' = Some (JBool True) \<and> get e ''_source'' = Some (JObj source) \<and>
       same_value (put_field source ''is_active'' (JBool False)) (the (map_of (map (\<lambda>c. (chunk_key c, c)) chunks) j))"
    proof cases
      case 1
      with v i found src same show ?thesis by (intro exI [of _ e] exI [of _ source]) simp
    next
      case 2
      show ?thesis using bspec [OF ids(5) 2] by (elim exE conjE) (intro exI conjI, rule list.set_intros(2))
    qed
  qed (use ids(1-4) new in auto)
qed simp

definition stored_chunk :: "es_documents \<Rightarrow> jobject \<Rightarrow> bool" where
  "stored_chunk ss c \<longleftrightarrow> (\<exists>source. map_of ss (chunk_key c) = Some source \<and>
     same_value (put_field source ''is_active'' (JBool False)) c)"

lemma verify_source_payloads_Inr:
  assumes "node_reads m (ew_transport W) vis sto" and "verify_source_payloads W name chunks False w = (Inr (), w')"
    and "distinct (map chunk_key chunks)" and "sto w name = Some ss"
  shows "refreshes vis sto w w'" and "\<forall>c \<in> set chunks. stored_chunk ss c"
proof -
  obtain r where r: "vt_request (ew_transport W) (MultiGet name (map chunk_key chunks)) w = (Inr r, w')"
    "verify_documents chunks False [] (items_of (get r ''docs''))" "length (items_of (get r ''docs'')) = length chunks"
    using assms(2) by (auto simp: verify_source_payloads_def call_simps Let_def split: if_splits)
  have read: "refreshes vis sto w w'"
    "found_documents (case sto w' name of None \<Rightarrow> [] | Some ss \<Rightarrow> ss) r"
    using node_readsD(3) [OF assms(1) _ r(1)] by simp_all
  then have a: "refreshes vis sto w w' \<and> found_documents ss r" using refreshesD(1) [OF read(1)] assms(4) by simp
  then show "refreshes vis sto w w'" by simp
  obtain ids where ids: "length ids = length chunks" "distinct ids" "set ids \<subseteq> chunk_key ` set chunks"
    "\<forall>i \<in> set ids. \<exists>e source. JObj e \<in> set (items_of (get r ''docs'')) \<and> get e ''_id'' = Some (JStr i) \<and>
       get e ''found'' = Some (JBool True) \<and> get e ''_source'' = Some (JObj source) \<and>
       same_value (put_field source ''is_active'' (JBool False)) (the (map_of (map (\<lambda>c. (chunk_key c, c)) chunks) i))"
    using verify_documents_found [OF r(2)] r(3) by auto
  have "card (set ids) = card (chunk_key ` set chunks)"
    using distinct_card [OF ids(2)] distinct_card [OF assms(3)] ids(1) by simp
  then have keys: "set ids = chunk_key ` set chunks"
    using ids(3) by (metis List.finite_set card_subset_eq finite_imageI)
  show "\<forall>c \<in> set chunks. stored_chunk ss c"
  proof
    fix c assume c: "c \<in> set chunks"
    then have chunk: "map_of (map (\<lambda>c. (chunk_key c, c)) chunks) (chunk_key c) = Some c"
      using assms(3) by (intro map_of_is_SomeI) (simp_all add: comp_def)
    from c keys have "chunk_key c \<in> set ids" by simp
    then obtain e source where e: "JObj e \<in> set (items_of (get r ''docs''))" "get e ''_id'' = Some (JStr (chunk_key c))"
       "get e ''found'' = Some (JBool True)" "get e ''_source'' = Some (JObj source)"
       "same_value (put_field source ''is_active'' (JBool False)) c"
      using ids(4) chunk by fastforce
    have "map_of ss (chunk_key c) = Some source"
      using conjunct2 [OF a, unfolded found_documents_def, rule_format, OF e(1,3)] e(2,4) by auto
    with e(5) show "stored_chunk ss c" by (auto simp: stored_chunk_def)
  qed
qed

subsection \<open>Staging\<close>

lemma stage_ok_keys: "stage_ok owner doc vid chunks \<Longrightarrow> distinct (map chunk_key chunks)"
  by (simp add: stage_ok_def validated_chunks)

lemma create_index_fresh:
  assumes "node_reads m (ew_transport W) vis sto" and "node_refreshes (ew_transport W) vis sto"
    and "sto w name = None" and "create_index W name metadata w = (Inr (), w')"
  shows "vis w' name = sto w' name"
proof -
  obtain r v where c: "vt_request (ew_transport W) (CreateHidden name metadata index_properties) w = (r, v)"
    by (cases "vt_request (ew_transport W) (CreateHidden name metadata index_properties) w")
  have "let v = snd (vt_request (ew_transport W) (CreateHidden name metadata index_properties) w)
      in vis v name = sto v name"
    using assms(2,3) unfolding node_refreshes_def by blast
  then have fresh: "vis v name = sto v name" by (simp add: c)
  show ?thesis
  proof (cases r)
    case (Inr x)
    with assms(4) c fresh show ?thesis by (simp add: create_index_def)
  next
    case (Inl e)
    with assms(4) c have "e = EsIndexNotReady" by (cases e) (simp_all add: create_index_def)
    then obtain b where "vt_exists (ew_transport W) name v = (Inr b, w')"
      using assms(4) c Inl by (auto simp: create_index_def call_simps split: if_splits)
    from node_readsD(4) [OF assms(1) this] have "refreshes vis sto v w'" by simp
    from refreshesD(2) [OF this fresh] show ?thesis .
  qed
qed

text \<open>The last steps of a staging that returns. Before the last read either the stored documents are the
  searchable ones and as many as the chunks, or nothing was refreshed since the start, where as many
  documents as chunks were searchable.\<close>

lemma ensure_staged_Inr:
  assumes "node_reads m (ew_transport W) vis sto" and "node_refreshes (ew_transport W) vis sto"
    and "ensure_staged W owner doc vid chunks w = (Inr rc, w')"
  obtains metadata u v x vs where "stage_ok owner doc vid chunks"
    and "inspect_identity W (physical_name W owner vid) (expected_identity owner vid (Some doc)
      (Some (es_fingerprint (we_es (ew_env W)) chunks)) (Some (length chunks))) u = (Inr metadata, v)"
    and "verify_source_payloads W (physical_name W owner vid) chunks False x = (Inr (), w')"
    and "rc = \<lparr>rc_backend = ELASTICSEARCH, rc_owner_id = owner, rc_document_version_id = vid,
      rc_chunk_count = metadata_count (ew_env W) metadata,
      rc_source_chunks_sha256 = map char_of (the (map_of metadata ''source_chunks_sha256''))\<rparr>"
    and "length vs = length chunks"
    and "vis x (physical_name W owner vid) = Some vs \<and> sto x (physical_name W owner vid) = Some vs \<or>
      vis w (physical_name W owner vid) = Some vs \<and> sto w (physical_name W owner vid) \<noteq> None \<and>
      vis w (physical_name W owner vid) \<noteq> sto w (physical_name W owner vid) \<and> refreshes vis sto w x \<and>
      (vis x (physical_name W owner vid) = Some vs \<longrightarrow> (\<forall>d \<in> set vs. m (owned_query owner doc vid) (snd d)))"
proof -
  let ?name = "physical_name W owner vid" and ?n = "int (length chunks)"
  have ok: "stage_ok owner doc vid chunks" using assms(3) by (auto simp: ensure_staged_def call_simps split: if_splits)
  then obtain there v1 v2 metadata v3 current v4 v5 where
    exist: "vt_exists (ew_transport W) ?name w = (Inr there, v1)"
    and create: "(if there then call_return ()
      else create_index W ?name (version_metadata (ew_env W) owner doc vid chunks)) v1 = (Inr (), v2)"
    and inspect: "inspect_identity W ?name (expected_identity owner vid (Some doc)
        (Some (es_fingerprint (we_es (ew_env W)) chunks)) (Some (length chunks))) v2 = (Inr metadata, v3)"
    and count: "verify_owned_count W ?name owner doc vid ?n True v3 = (Inr current, v4)"
    and repair: "complete_index W ?name owner doc vid chunks current v4 = (Inr (), v5)"
    and last: "verify_source_payloads W ?name chunks False v5 = (Inr (), w')"
    and rc: "rc = \<lparr>rc_backend = ELASTICSEARCH, rc_owner_id = owner, rc_document_version_id = vid,
      rc_chunk_count = metadata_count (ew_env W) metadata,
      rc_source_chunks_sha256 = map char_of (the (map_of metadata ''source_chunks_sha256''))\<rparr>"
    using assms(3) by (auto simp: ensure_staged_def Let_def call_bind_Inr call_return_Inr)
  note e = node_readsD(4) [OF assms(1) exist]
  note i = inspect_identity_Inr [OF assms(1) inspect]
  have start: "vis v3 ?name = sto v3 ?name \<or> refreshes vis sto w v3"
  proof (cases there)
    case True
    with create have "v2 = v1" by (simp add: call_return_Inr)
    with e i(1) have "refreshes vis sto w v1" "refreshes vis sto v1 v3" by simp_all
    from refreshes_trans [OF this] show ?thesis ..
  next
    case False
    then have "vis v2 ?name = sto v2 ?name" using create e create_index_fresh [OF assms(1,2)] by simp
    then show ?thesis using refreshesD(2) [OF i(1)] by simp
  qed
  obtain vs where vs: "refreshes vis sto v3 v4" "current = int (length vs)" "current \<le> ?n"
    "vis v3 ?name = Some vs \<or> vis v4 ?name = Some vs \<and> sto v4 ?name = Some vs"
    "vis v4 ?name = Some vs \<longrightarrow> (\<forall>d \<in> set vs. m (owned_query owner doc vid) (snd d))"
    by (rule verify_owned_count_Inr [OF assms(1) count])
  note finish = that [OF ok inspect last rc]
  show thesis
  proof (cases "current < ?n")
    case True
    then obtain k y z r where y: "vt_request (ew_transport W) (RefreshIndex ?name) y = (Inr r, z)"
      and c: "verify_owned_count W ?name owner doc vid ?n False z = (Inr k, v5)"
      using repair by (auto simp: complete_index_def bulk_index_def call_simps split: if_splits)
    have fresh: "vis z ?name = sto z ?name" using assms(2) y unfolding node_refreshes_def by blast
    obtain us where us: "refreshes vis sto z v5" "k = int (length us)" "\<not> False \<longrightarrow> k = ?n"
      "vis z ?name = Some us \<or> vis v5 ?name = Some us \<and> sto v5 ?name = Some us"
      by (rule verify_owned_count_Inr [OF assms(1) c])
    have "vis v5 ?name = Some us \<and> sto v5 ?name = Some us"
      using us(4) fresh refreshesD(1,2) [OF us(1), of ?name] by auto
    then show thesis using us(2,3) by (intro finish [of us]) simp_all
  next
    case False
    then have len: "length vs = length chunks" using vs(2,3) by simp
    have v5: "v5 = v4" using False repair by (simp add: complete_index_def call_return_Inr)
    show thesis
    proof (cases "vis v4 ?name = Some vs \<and> sto v4 ?name = Some vs")
      case True
      then show thesis using len by (intro finish [of vs]) (simp_all add: v5)
    next
      case stale: False
      then have three: "vis v3 ?name = Some vs" using vs(4) by blast
      then have "vis v3 ?name \<noteq> sto v3 ?name" using stale refreshesD(1,2) [OF vs(1), of ?name] by auto
      moreover from this have w: "refreshes vis sto w v3" using start by blast
      ultimately have "vis w ?name = Some vs" "vis w ?name \<noteq> sto w ?name" "sto w ?name \<noteq> None"
        using three refreshesD [OF w, of ?name] i(2) by auto
      then show thesis using len vs(5) refreshes_trans [OF w vs(1)] by (intro finish [of vs]) (simp_all add: v5)
    qed
  qed
qed

text \<open>As many documents as chunks, every chunk among them: no other document.\<close>

lemma stored_chunks_exact:
  assumes "distinct (map chunk_key chunks)" and "\<forall>c \<in> set chunks. stored_chunk ss c"
    and "distinct (map fst ss)" and "length ss = length chunks"
  shows "fst ` set ss = chunk_key ` set chunks"
proof -
  have "chunk_key ` set chunks \<subseteq> fst ` set ss" using assms(2) by (force simp: stored_chunk_def dest: map_of_SomeD)
  moreover have "card (fst ` set ss) = card (chunk_key ` set chunks)"
    using distinct_card [OF assms(3)] distinct_card [OF assms(1)] assms(4) by simp
  ultimately show ?thesis by (metis List.finite_set card_subset_eq finite_imageI)
qed

text \<open>What can be searched at the end: the stored documents, or those that could be searched all along.\<close>

lemma final_views:
  assumes "refreshes vis sto x w'" and "sto x name = Some ss" and "length vs = n"
    and "vis x name = Some vs \<and> sto x name = Some vs \<or>
      vis w name = Some vs \<and> sto w name \<noteq> None \<and> vis w name \<noteq> sto w name \<and> refreshes vis sto w x \<and>
      (vis x name = Some vs \<longrightarrow> owned)"
  shows "\<exists>us. vis w' name = Some us \<and> (us = ss \<or> length us = n \<and> us = vs \<and> owned) \<and>
    (sto w name = None \<or> vis w name = sto w name \<or> (\<exists>old. vis w name = Some old \<and> length old < n)
      \<longrightarrow> us = ss \<and> length ss = n)"
proof -
  have sto: "sto w' name = Some ss" using refreshesD(1) [OF assms(1)] assms(2) by simp
  show ?thesis
  proof (cases "vis x name = Some vs \<and> sto x name = Some vs")
    case True
    then show ?thesis using assms(2,3) sto refreshesD(2) [OF assms(1), of name] by auto
  next
    case False
    with assms(4) have w: "vis w name = Some vs" "sto w name \<noteq> None" "vis w name \<noteq> sto w name"
      "refreshes vis sto w x" "vis x name = Some vs \<longrightarrow> owned"
      by blast+
    show ?thesis
    proof (cases "vis w' name = sto w' name")
      case True
      with w(1-3) assms(3) sto show ?thesis by auto
    next
      case stale: False
      then have "vis w' name = vis x name" using refreshesD(3) [OF assms(1)] by blast
      moreover have "vis x name \<noteq> sto x name" using stale refreshesD(2) [OF assms(1), of name] by blast
      then have "vis x name = vis w name" using refreshesD(3) [OF w(4)] by blast
      ultimately show ?thesis using w assms(3) by auto
    qed
  qed
qed

text \<open>C12. A receipt is true. When staging returns, whatever the index held before and whatever failed in
  between, the physical index of the version stores every chunk: a document under the chunk's identifier,
  equal to the chunk up to its activity; the searchable documents are the stored ones, or are as many as
  the chunks and belong to the owner, the document and the version. If at the start the index did not
  exist, or fewer documents than chunks could be searched, or nothing in it was waiting for a refresh,
  then the index holds one document per chunk and no other, and all of them can be searched. (Only when
  the count is right at the start is nothing refreshed: a document of the version that nobody asked for
  and that is not yet searchable then goes unnoticed.) The receipt names the writer's backend, the owner,
  the version, the number of chunks and their fingerprint, so that the coordinator's check accepts
  it.\<close>

theorem staged_index_is_exact:
  assumes "node_reads m (ew_transport W) vis sto" and "node_refreshes (ew_transport W) vis sto"
    and "ascii_digits (we_unicode (ew_env W))"
    and "ensure_staged W owner doc vid chunks w = (Inr rc, w')"
  shows "let name = physical_name W owner vid; n = length chunks in
    rc = \<lparr>rc_backend = ELASTICSEARCH, rc_owner_id = owner, rc_document_version_id = vid,
      rc_chunk_count = int n, rc_source_chunks_sha256 = map char_of (es_fingerprint (we_es (ew_env W)) chunks)\<rparr>
    \<and> (\<exists>ss vs. sto w' name = Some ss \<and> vis w' name = Some vs
      \<and> (\<forall>c \<in> set chunks. \<exists>source. map_of ss (chunk_key c) = Some source
            \<and> same_value (put_field source ''is_active'' (JBool False)) c)
      \<and> (vs = ss \<or> length vs = n \<and> (\<forall>d \<in> set vs. m (owned_query owner doc vid) (snd d)))
      \<and> (sto w name = None \<or> vis w name = sto w name \<or> (\<exists>old. vis w name = Some old \<and> length old < n)
          \<longrightarrow> vs = ss \<and> length ss = n \<and> fst ` set ss = chunk_key ` set chunks))"
proof -
  let ?name = "physical_name W owner vid" and ?n = "length chunks"
  obtain metadata u v x vs where s: "stage_ok owner doc vid chunks"
    "inspect_identity W ?name (expected_identity owner vid (Some doc)
      (Some (es_fingerprint (we_es (ew_env W)) chunks)) (Some ?n)) u = (Inr metadata, v)"
    "verify_source_payloads W ?name chunks False x = (Inr (), w')"
    "rc = \<lparr>rc_backend = ELASTICSEARCH, rc_owner_id = owner, rc_document_version_id = vid,
      rc_chunk_count = metadata_count (ew_env W) metadata,
      rc_source_chunks_sha256 = map char_of (the (map_of metadata ''source_chunks_sha256''))\<rparr>"
    "length vs = ?n"
    "vis x ?name = Some vs \<and> sto x ?name = Some vs \<or>
      vis w ?name = Some vs \<and> sto w ?name \<noteq> None \<and> vis w ?name \<noteq> sto w ?name \<and> refreshes vis sto w x \<and>
      (vis x ?name = Some vs \<longrightarrow> (\<forall>d \<in> set vs. m (owned_query owner doc vid) (snd d)))"
    by (rule ensure_staged_Inr [OF assms(1,2,4)])
  note keys = stage_ok_keys [OF s(1)]
  have meta: "map_of metadata ''source_chunks_sha256'' = Some (es_fingerprint (we_es (ew_env W)) chunks)"
    "map_of metadata ''chunk_count'' = Some (decimal ?n)"
    using read_identity_Inr(1) [OF s(2)] by (simp_all add: expected_identity_def)
  then have "metadata_count (ew_env W) metadata = int ?n"
    using read_identity_Inr(2) [OF s(2)] py_int_decimal [OF assms(3), of ?n] by (auto simp: metadata_count_def)
  with s(4) meta(1) have rc: "rc = \<lparr>rc_backend = ELASTICSEARCH, rc_owner_id = owner, rc_document_version_id = vid,
      rc_chunk_count = int ?n, rc_source_chunks_sha256 = map char_of (es_fingerprint (we_es (ew_env W)) chunks)\<rparr>"
    by simp
  have "\<exists>ss. sto x ?name = Some ss"
    using s(6) refreshesD(1) [of vis sto w x ?name] by auto
  then obtain ss where ss: "sto x ?name = Some ss" by blast
  note last = verify_source_payloads_Inr [OF assms(1) s(3) keys ss]
  have sto: "sto w' ?name = Some ss" using refreshesD(1) [OF last(1)] ss by simp
  note exact = stored_chunks_exact [OF keys last(2) node_readsD(2) [OF assms(1) ss]]
  have "\<exists>us. vis w' ?name = Some us \<and>
      (us = ss \<or> length us = ?n \<and> (\<forall>d \<in> set us. m (owned_query owner doc vid) (snd d))) \<and>
      (sto w ?name = None \<or> vis w ?name = sto w ?name \<or> (\<exists>old. vis w ?name = Some old \<and> length old < ?n)
        \<longrightarrow> us = ss \<and> length ss = ?n \<and> fst ` set ss = chunk_key ` set chunks)"
    using final_views [OF last(1) ss s(5,6)] exact by metis
  with rc sto last(2) show ?thesis unfolding Let_def stored_chunk_def by blast
qed

subsection \<open>The online route\<close>

definition owned_active :: "string \<Rightarrow> string \<Rightarrow> string \<Rightarrow> jobject \<Rightarrow> bool" where
  "owned_active owner doc vid source \<longleftrightarrow>
     field_has source ''tenant_id'' (JStr (ascii owner)) \<and> field_has source ''document_id'' (JStr (ascii doc)) \<and>
     field_has source ''version_id'' (JStr (ascii vid)) \<and> field_has source ''is_active'' (JBool True)"

lemma active_query_owned:
  assumes "es_semantics m"
  shows "m (active_query owner doc vid) source = owned_active owner doc vid source"
  using es_semanticsD(2,4) [OF assms]
  by (auto simp: active_query_def owned_terms_def term_text_def owned_active_def)

lemma count_of_json_count: "count_of (Some (json_count xs)) = Inr (int (length xs))"
  by (simp add: count_of_def json_count_def)

text \<open>C13. A verified route is online as a whole. When the verification returns, while nobody else changes or
  refreshes the index between its two requests, it names the physical index of the version, its metadata
  names the owner, the version and the document, as many documents can be searched in the index as the
  metadata says and at least one, and each of them belongs to the owner, the document and the version and
  is active.\<close>

theorem online_route_is_verified:
  assumes "node_reads m (ew_transport W) vis sto" and "node_quiet (ew_transport W)"
    and "verify_online_version W owner doc vid w = (Inr (name, metadata), w')"
  shows "contract_id_ok owner \<and> contract_id_ok vid \<and> name = physical_name W owner vid \<and> w' = w
    \<and> (\<forall>(k, v) \<in> set (expected_identity owner vid (Some doc) None None). map_of metadata k = Some v)
    \<and> (\<exists>ds. vis w name = Some ds \<and> int (length ds) = metadata_count (ew_env W) metadata \<and> ds \<noteq> []
      \<and> (\<forall>d \<in> set ds. owned_active owner doc vid (snd d)))"
proof -
  have ids: "contract_id_ok owner" "contract_id_ok vid" "name = physical_name W owner vid"
    using assms(3) by (auto simp: verify_online_version_def physical_index_name_def call_simps Let_def split: if_splits)
  obtain w1 r k o' a w2 where s: "inspect_identity W name (expected_identity owner vid (Some doc) None None) w = (Inr metadata, w1)"
    "vt_request (ew_transport W) (OnlineCounts name (owned_query owner doc vid) (active_query owner doc vid)) w1 = (Inr r, w')"
    "read_online_counts (metadata_count (ew_env W) metadata) r = Inr (k, o', a)"
    "k = o'" "k = metadata_count (ew_env W) metadata" "a = metadata_count (ew_env W) metadata"
    using assms(3) unfolding ids(3)
    by (auto simp: verify_online_version_def physical_index_name_def call_simps Let_def split: if_splits)
  have quiet: "w1 = w" "w' = w1"
    using inspect_identity_quiet [OF assms(2) s(1)] node_quietD [OF assms(2) _ s(2)] by simp_all
  note meta = read_identity_Inr [OF s(1)]
  obtain ds where ds: "vis w1 name = Some ds"
    "total_hits r \<in> {Inl EsIndexNotReady, Inr (Some (json_count ds))}"
    "doc_count r ''active'' = Some (json_count (matching m (active_query owner doc vid) ds))"
    using node_readsD(3) [OF assms(1) _ s(2)] quiet by auto
  then have counts: "k = int (length ds)" "a = int (length (matching m (active_query owner doc vid) ds))"
    using s(3) by (auto simp: read_online_counts_def bind_res_Inr_iff count_of_json_count split: if_splits)
  have "owned_active owner doc vid (snd d)" if "d \<in> set ds" for d
    using matching_all [OF _ that, of m "active_query owner doc vid"] counts s(5,6)
      active_query_owned [OF node_readsD(1) [OF assms(1)]] by simp
  moreover have "1 \<le> metadata_count (ew_env W) metadata" using meta(2) by (auto simp: metadata_count_def)
  ultimately show ?thesis using ids quiet meta(1) ds(1) counts(1) s(5) by auto
qed

subsection \<open>One index only\<close>

text \<open>A request about one index leaves the others alone.\<close>

definition node_local :: "'w version_transport \<Rightarrow> ('w \<Rightarrow> string \<Rightarrow> 'd) \<Rightarrow> bool" where
  "node_local T docs \<longleftrightarrow>
     (\<forall>req w n. n \<noteq> request_index req \<longrightarrow> docs (snd (vt_request T req w)) n = docs w n) \<and>
     (\<forall>k w n. n \<noteq> k \<longrightarrow> docs (snd (vt_exists T k w)) n = docs w n)"

definition leaves :: "('w \<Rightarrow> 'd) \<Rightarrow> ('w, 'e, 'a) call \<Rightarrow> bool" where
  "leaves obs m \<longleftrightarrow> (\<forall>w. obs (snd (m w)) = obs w)"

named_theorems leaves_intros "calls that leave an observation unchanged"

lemma leaves_return [leaves_intros]: "leaves obs (call_return x)"
  by (simp add: leaves_def call_return_def)

lemma leaves_raise [leaves_intros]: "leaves obs (call_raise e)"
  by (simp add: leaves_def call_raise_def)

lemma leaves_lift [leaves_intros]: "leaves obs (lift_call r)"
  by (simp add: leaves_def lift_call_def)

lemma leaves_bind [leaves_intros]: "leaves obs m \<Longrightarrow> (\<And>x. leaves obs (f x)) \<Longrightarrow> leaves obs (call_bind m f)"
  by (auto simp: leaves_def call_bind_def split: prod.splits sum.splits) (metis snd_conv)+

lemma leaves_if [leaves_intros]: "(b \<Longrightarrow> leaves obs m) \<Longrightarrow> (\<not> b \<Longrightarrow> leaves obs m') \<Longrightarrow> leaves obs (if b then m else m')"
  by simp

lemma leaves_split [leaves_intros]: "(\<And>a b. leaves obs (f a b)) \<Longrightarrow> leaves obs (case x of (a, b) \<Rightarrow> f a b)"
  by (cases x) simp

lemma leaves_name:
  "(\<And>x. x = physical_name W owner vid \<Longrightarrow> leaves obs (f x)) \<Longrightarrow>
     leaves obs (call_bind (lift_call (physical_index_name W owner vid)) f)"
  by (auto simp: leaves_def call_bind_def lift_call_def physical_index_name_def)

lemma leaves_create_index:
  assumes "\<And>metadata. leaves obs (vt_request (ew_transport W) (CreateHidden name metadata index_properties))"
    and "leaves obs (vt_exists (ew_transport W) name)"
  shows "leaves obs (create_index W name metadata)"
proof -
  have "leaves obs (call_bind (vt_exists (ew_transport W) name)
      (\<lambda>there. if there then call_return () else call_raise EsIndexNotReady))"
    by (intro leaves_intros assms(2))
  then show ?thesis using assms(1) [of metadata]
    unfolding leaves_def create_index_def by (auto split: prod.splits sum.splits es_error.splits) (metis snd_conv)+
qed

lemma node_local_leaves:
  assumes "node_local T docs" and "n \<noteq> k"
  shows "request_index req = k \<Longrightarrow> leaves (\<lambda>w. docs w n) (vt_request T req)" and "leaves (\<lambda>w. docs w n) (vt_exists T k)"
  using assms unfolding node_local_def leaves_def by blast+

text \<open>The writer works on one index. Whatever the node answers, an operation for one owner and version,
  whether it returns or raises, leaves what every other index holds as it was; in particular the indexes
  of all versions whose identity has another digest.\<close>

theorem writer_touches_one_index:
  assumes "node_local (ew_transport W) docs" and "n \<noteq> physical_name W owner vid"
  shows "docs (snd (ensure_staged W owner doc vid chunks w)) n = docs w n
    \<and> docs (snd (activate_version W owner vid w)) n = docs w n
    \<and> docs (snd (deactivate_version W owner vid w)) n = docs w n
    \<and> docs (snd (verify_online_version W owner doc vid w)) n = docs w n
    \<and> docs (snd (delete_version W owner vid w)) n = docs w n"
proof -
  let ?name = "physical_name W owner vid" and ?obs = "\<lambda>w. docs w n"
  note request = node_local_leaves(1) [OF assms]
  note there = node_local_leaves(2) [OF assms]
  have inspect: "leaves ?obs (inspect_identity W ?name e)" for e
    unfolding inspect_identity_def by (intro leaves_intros request) simp
  have counts: "leaves ?obs (es_count W ?name q)" for q
    unfolding es_count_def by (intro leaves_intros request) (simp split: option.splits)
  have owned: "leaves ?obs (verify_owned_count W ?name owner doc vid k b)" for k b
    unfolding verify_owned_count_def by (intro leaves_intros counts)
  have payloads: "leaves ?obs (verify_source_payloads W ?name chunks b)" for b
    unfolding verify_source_payloads_def Let_def by (intro leaves_intros request) simp
  have bulk: "leaves ?obs (bulk_index W ?name chunks)"
    unfolding bulk_index_def by (intro leaves_intros request) simp_all
  have create: "leaves ?obs (create_index W ?name metadata)" for metadata
    by (intro leaves_create_index request there) simp
  have fill: "leaves ?obs (complete_index W ?name owner doc vid chunks k)" for k
    unfolding complete_index_def by (intro leaves_intros payloads bulk owned)
  have active: "leaves ?obs (set_active W owner vid b)" for b
    unfolding set_active_def by (rule leaves_name) (auto intro!: leaves_intros inspect counts there request)
  have "leaves ?obs (ensure_staged W owner doc vid chunks)"
    unfolding ensure_staged_def Let_def by (intro leaves_intros there create inspect owned fill payloads)
  moreover have "leaves ?obs (activate_version W owner vid)" unfolding activate_version_def by (rule active)
  moreover have "leaves ?obs (deactivate_version W owner vid)"
    unfolding deactivate_version_def by (rule leaves_name) (auto intro!: leaves_intros there active)
  moreover have "leaves ?obs (verify_online_version W owner doc vid)"
    unfolding verify_online_version_def Let_def by (rule leaves_name) (auto intro!: leaves_intros inspect request)
  moreover have "leaves ?obs (delete_version W owner vid)"
    unfolding delete_version_def by (rule leaves_name) (auto intro!: leaves_intros there inspect request)
  ultimately show ?thesis unfolding leaves_def by blast
qed

subsection \<open>Deactivation\<close>

text \<open>An update by query, which the writer asks to refresh the index, changes the documents that match and can
  be searched. When it answers without failures and nothing was waiting for a refresh before, exactly the
  matching documents have the new activity, and can be searched.\<close>

definition no_failures :: "jobject \<Rightarrow> bool" where
  "no_failures r \<longleftrightarrow> get r ''failures'' \<in> {None, Some JNull, Some (JList [])}"

definition updated :: "(jobject \<Rightarrow> bool) \<Rightarrow> bool \<Rightarrow> es_documents \<Rightarrow> es_documents" where
  "updated sel b ds = map (\<lambda>(i, source). (i, if sel source then put_field source ''is_active'' (JBool b) else source)) ds"

definition node_updates ::
  "(es_query \<Rightarrow> jobject \<Rightarrow> bool) \<Rightarrow> 'w version_transport \<Rightarrow> 'w es_view \<Rightarrow> 'w es_view \<Rightarrow> bool" where
  "node_updates m T vis sto \<longleftrightarrow>
     (\<forall>n q b w r w' ds. vt_request T (UpdateActive n q b) w = (Inr r, w') \<longrightarrow> no_failures r \<longrightarrow>
        vis w n = Some ds \<longrightarrow> sto w n = Some ds \<longrightarrow> vis w' n = Some (updated (m q) b ds))"

definition of_version :: "string \<Rightarrow> string \<Rightarrow> jobject \<Rightarrow> bool" where
  "of_version owner vid source \<longleftrightarrow> field_has source ''tenant_id'' (JStr (ascii owner)) \<and>
     field_has source ''version_id'' (JStr (ascii vid))"

lemma identity_query_version:
  assumes "es_semantics m"
  shows "m (identity_query owner vid) = of_version owner vid"
  using es_semanticsD(2,4) [OF assms] by (auto simp: identity_query_def term_text_def of_version_def)

text \<open>C14. An index that was staged in part cannot be taken offline. Let an index describe the version and
  hold fewer documents, all of them searchable, than the chunk count in its metadata, and let the node
  answer the requests of a deactivation, the update without failures. Then the update is done, every
  document of the owner and the version is inactive and can be searched as such, and all others are as they
  were; but the call raises that the index is not ready.\<close>

theorem partial_index_never_deactivates:
  assumes "node_reads m (ew_transport W) vis sto" and "node_quiet (ew_transport W)"
    and "node_updates m (ew_transport W) vis sto"
    and "contract_id_ok owner" and "contract_id_ok vid"
    and "vis w (physical_name W owner vid) = Some ds" and "sto w (physical_name W owner vid) = Some ds"
    and "inspect_identity W (physical_name W owner vid) (expected_identity owner vid None None None) w = (Inr metadata, w)"
    and "int (length ds) < metadata_count (ew_env W) metadata"
    and "vt_exists (ew_transport W) (physical_name W owner vid) w = (Inr b, w)"
    and "vt_request (ew_transport W) (UpdateActive (physical_name W owner vid) (identity_query owner vid) False) w = (Inr r, v)"
    and "no_failures r"
    and "vt_request (ew_transport W) (CountWhere (physical_name W owner vid)
      (BoolQuery [identity_query owner vid, Term ''is_active'' (JBool False)] [] 0 [])) v = (Inr r', v')"
  shows "deactivate_version W owner vid w = (Inl EsIndexNotReady, v)
    \<and> vis v (physical_name W owner vid) = Some (updated (of_version owner vid) False ds)"
proof -
  let ?name = "physical_name W owner vid"
    and ?q = "BoolQuery [identity_query owner vid, Term ''is_active'' (JBool False)] [] 0 []"
  have name: "physical_index_name W owner vid = Inr ?name" using assms(4,5) by (simp add: physical_index_name_def)
  have b: b using node_readsD(4) [OF assms(1,10)] assms(7) by simp
  have "vis v ?name = Some (updated (m (identity_query owner vid)) False ds)"
    using assms(3,6,7,11,12) unfolding node_updates_def by blast
  then have vis: "vis v ?name = Some (updated (of_version owner vid) False ds)"
    by (simp add: identity_query_version [OF node_readsD(1) [OF assms(1)]])
  have v': "v' = v" using node_quietD [OF assms(2) _ assms(13)] by simp
  obtain us where "vis v ?name = Some us" "get r' ''count'' = Some (json_count (matching m ?q us))"
    using node_readsD(3) [OF assms(1) _ assms(13)] v' by auto
  then have count: "get r' ''count'' = Some (json_count (matching m ?q (updated (of_version owner vid) False ds)))"
    using vis by simp
  let ?k = "int (length (matching m ?q (updated (of_version owner vid) False ds)))"
  have "es_count W ?name (Some ?q) v = (Inr ?k, v)"
    using assms(13) v' count by (simp add: es_count_def call_bind_def lift_call_def count_of_json_count)
  moreover have "length (updated (of_version owner vid) False ds) = length ds" by (simp add: updated_def)
  then have "length (matching m ?q (updated (of_version owner vid) False ds)) \<le> length ds"
    unfolding matching_def by (metis length_filter_le)
  then have "?k \<noteq> metadata_count (ew_env W) metadata" using assms(9) by linarith
  ultimately have "set_active W owner vid False w = (Inl EsIndexNotReady, v)"
    using name assms(8,10,11,12) b
    by (simp add: set_active_def call_bind_def lift_call_def call_raise_def no_failures_def)
  then have "deactivate_version W owner vid w = (Inl EsIndexNotReady, v)"
    using name assms(10) b by (simp add: deactivate_version_def call_bind_def lift_call_def)
  with vis show ?thesis by simp
qed

subsection \<open>A node\<close>

text \<open>The metadata, the searchable and the stored documents of every index. Bulk requests store, a refresh or
  an update makes searchable.\<close>

type_synonym sample_state = "(string \<times> (string \<times> pytext) list \<times> es_documents \<times> es_documents) list"

definition sample_searchable :: "sample_state es_view" where
  "sample_searchable w n = map_option (\<lambda>(_, vs, _). AList.clearjunk vs) (map_of w n)"

definition sample_on_disk :: "sample_state es_view" where
  "sample_on_disk w n = map_option (\<lambda>(_, _, ss). AList.clearjunk ss) (map_of w n)"

definition sample_index_json :: "string \<Rightarrow> (string \<times> pytext) list \<Rightarrow> jobject" where
  "sample_index_json n metadata = [(n, JObj [
     (''mappings'', JObj [(''_meta'', JObj (map (\<lambda>(k, v). (k, JStr v)) metadata)), (''dynamic'', JStr (ascii ''strict'')),
        (''properties'', JObj (map (\<lambda>(f, type). (f, JObj [(''type'', JStr (ascii type))])) index_properties))]),
     (''settings'', JObj [(''index'', JObj [(''hidden'', JStr (ascii ''true''))])])])]"

definition mget_entry :: "string \<Rightarrow> es_documents \<Rightarrow> pytext \<Rightarrow> json" where
  "mget_entry n ds i = JObj ((''_index'', JStr (ascii n)) # (case map_of ds i of
       None \<Rightarrow> [(''_id'', JStr i), (''found'', JBool False)]
     | Some source \<Rightarrow> [(''_id'', JStr i), (''_version'', JInt 1), (''found'', JBool True), (''_source'', JObj source)]))"

definition sample_answer ::
  "version_request \<Rightarrow> (string \<times> pytext) list \<Rightarrow> es_documents \<Rightarrow> es_documents \<Rightarrow> sample_state \<Rightarrow>
     (es_error + jobject) \<times> sample_state" where
  "sample_answer req metadata vs ss w = (case req of
       CreateHidden n md ps \<Rightarrow> (Inl EsIndexNotReady, w)
     | ReadIndex n \<Rightarrow> (Inr (sample_index_json n metadata), w)
     | UpdateActive n q b \<Rightarrow> (let ds = updated (eval_query q) b ss in (Inr [], (n, metadata, ds, ds) # w))
     | CountAll n \<Rightarrow> (Inr [(''count'', json_count vs)], w)
     | CountWhere n q \<Rightarrow> (Inr [(''count'', json_count (matching eval_query q vs))], w)
     | OnlineCounts n p q \<Rightarrow> (Inr [
         (''aggregations'', JObj [(''active'', JObj [(''doc_count'', json_count (matching eval_query q vs))]),
            (''owned'', JObj [(''doc_count'', json_count (matching eval_query p vs))])]),
         (''hits'', JObj [(''total'', JObj [(''relation'', JStr (ascii ''eq'')), (''value'', json_count vs)])])], w)
     | BulkChunks n cs \<Rightarrow> (Inr [(''errors'', JBool False)], (n, metadata, vs, cs @ ss) # w)
     | RefreshIndex n \<Rightarrow> (Inr [], (n, metadata, ss, ss) # w)
     | MultiGet n ids \<Rightarrow> (Inr [(''docs'', JList (map (mget_entry n ss) ids))], w)
     | DeleteIndex n \<Rightarrow> (Inr [(''acknowledged'', JBool True)], filter (\<lambda>e. fst e \<noteq> n) w))"

definition sample_node :: "sample_state version_transport" where
  "sample_node = \<lparr>vt_exists = (\<lambda>n w. (Inr (map_of w n \<noteq> None), w)),
     vt_request = (\<lambda>req w. case map_of w (request_index req) of
         None \<Rightarrow> (case req of CreateHidden n md ps \<Rightarrow> (Inr [], (n, md, [], []) # w) | _ \<Rightarrow> (Inl EsIndexNotReady, w))
       | Some (md, vs, ss) \<Rightarrow> sample_answer req md (AList.clearjunk vs) (AList.clearjunk ss) w)\<rparr>"

lemma sample_node_request:
  assumes "vt_request sample_node req w = (Inr r, w')" and "\<not> (\<exists>n md ps. req = CreateHidden n md ps)"
  obtains md vs ss where "map_of w (request_index req) = Some (md, vs, ss)"
    and "sample_answer req md (AList.clearjunk vs) (AList.clearjunk ss) w = (Inr r, w')"
  using assms by (cases req) (auto simp: sample_node_def split: option.splits)

lemma mget_entry_found:
  assumes "JObj e = mget_entry n ds i" and "get e ''found'' = Some (JBool True)"
  shows "\<exists>source. get e ''_id'' = Some (JStr i) \<and> map_of ds i = Some source \<and> get e ''_source'' = Some (JObj source)"
  using assms by (auto simp: mget_entry_def get_def split: option.splits)

lemma sample_node_answers:
  assumes "reads req" and "sample_answer req md vs ss w = (Inr r, w')"
  shows "w' = w \<and> answers eval_query (Some vs) (Some ss) req r"
proof (cases req)
  case (MultiGet n ids)
  then have w: "w' = w" and r: "r = [(''docs'', JList (map (mget_entry n ss) ids))]"
    using assms(2) by (auto simp: sample_answer_def)
  have "found_documents ss r"
    unfolding found_documents_def r using mget_entry_found by (fastforce simp: get_def)
  then show ?thesis using MultiGet w by simp
qed (use assms in \<open>auto simp: sample_answer_def get_def total_hits_def doc_count_def Let_def\<close>)

lemma sample_node_quiet: "node_quiet sample_node"
  unfolding node_quiet_def
proof (intro conjI allI impI)
  fix n w b w' assume "vt_exists sample_node n w = (Inr b, w')"
  then show "w' = w" by (simp add: sample_node_def)
next
  fix req w r w' assume req: "reads req" and run: "vt_request sample_node req w = (Inr r, w')"
  obtain md vs ss where "sample_answer req md (AList.clearjunk vs) (AList.clearjunk ss) w = (Inr r, w')"
    by (rule sample_node_request [OF run]) (use req in auto)
  with req sample_node_answers show "w' = w" by blast
qed

lemma sample_node_reads: "node_reads eval_query sample_node sample_searchable sample_on_disk"
  unfolding node_reads_def
proof (intro conjI allI impI)
  show "es_semantics eval_query" by (rule eval_query_semantics)
next
  fix w n ds assume "sample_on_disk w n = Some ds"
  then show "distinct (map fst ds)" by (auto simp: sample_on_disk_def distinct_clearjunk)
next
  fix n w b w' assume "vt_exists sample_node n w = (Inr b, w')"
  then show "refreshes sample_searchable sample_on_disk w w'" and "b = (sample_on_disk w' n \<noteq> None)"
    by (auto simp: sample_node_def sample_on_disk_def refreshes_refl)
next
  fix req w r w' assume req: "reads req" and run: "vt_request sample_node req w = (Inr r, w')"
  obtain md vs ss where a: "map_of w (request_index req) = Some (md, vs, ss)"
    "sample_answer req md (AList.clearjunk vs) (AList.clearjunk ss) w = (Inr r, w')"
    by (rule sample_node_request [OF run]) (use req in auto)
  note s = sample_node_answers [OF req a(2)]
  then show "refreshes sample_searchable sample_on_disk w w'" by (simp add: refreshes_refl)
  show "answers eval_query (sample_searchable w' (request_index req)) (sample_on_disk w' (request_index req)) req r"
    using s a(1) by (simp add: sample_searchable_def sample_on_disk_def)
qed

lemma clearjunk_distinct: "distinct (map fst xs) \<Longrightarrow> AList.clearjunk xs = xs"
  by (induction xs) (auto simp: delete_idem)

lemma clearjunk_twice: "AList.clearjunk (AList.clearjunk xs) = AList.clearjunk xs"
  by (simp add: clearjunk_distinct distinct_clearjunk)

lemma sample_node_refreshes: "node_refreshes sample_node sample_searchable sample_on_disk"
  unfolding node_refreshes_def
proof (intro conjI allI impI)
  fix n w r w' assume run: "vt_request sample_node (RefreshIndex n) w = (Inr r, w')"
  obtain md vs ss where "sample_answer (RefreshIndex n) md (AList.clearjunk vs) (AList.clearjunk ss) w = (Inr r, w')"
    by (rule sample_node_request [OF run]) auto
  then show "sample_searchable w' n = sample_on_disk w' n"
    by (auto simp: sample_answer_def sample_searchable_def sample_on_disk_def)
next
  fix n metadata ps w assume "sample_on_disk w n = None"
  then show "let w' = snd (vt_request sample_node (CreateHidden n metadata ps) w) in
      sample_searchable w' n = sample_on_disk w' n"
    by (auto simp: sample_node_def sample_searchable_def sample_on_disk_def)
qed

lemma map_of_filter_other: "n \<noteq> k \<Longrightarrow> map_of (filter (\<lambda>e. fst e \<noteq> k) w) n = map_of w n"
  by (induction w) auto

lemma sample_node_local: "node_local sample_node sample_on_disk"
proof -
  have "map_of (snd (vt_request sample_node req w)) n = map_of w n" if "n \<noteq> request_index req" for req w n
    using that
    by (cases req) (auto simp: sample_node_def sample_answer_def Let_def map_of_filter_other split: option.splits)
  then show ?thesis by (simp add: node_local_def sample_on_disk_def) (simp add: sample_node_def)
qed

lemma sample_node_updates: "node_updates eval_query sample_node sample_searchable sample_on_disk"
  unfolding node_updates_def
proof (intro allI impI)
  fix n q b w r w' ds
  assume "vt_request sample_node (UpdateActive n q b) w = (Inr r, w')" and ds: "sample_on_disk w n = Some ds"
  then obtain md vs ss where a: "map_of w n = Some (md, vs, ss)"
    "sample_answer (UpdateActive n q b) md (AList.clearjunk vs) (AList.clearjunk ss) w = (Inr r, w')"
    by (elim sample_node_request) auto
  have "ds = AList.clearjunk ss" using a(1) ds by (simp add: sample_on_disk_def)
  moreover have "map fst (updated (eval_query q) b (AList.clearjunk ss)) = map fst (AList.clearjunk ss)"
    by (auto simp: updated_def comp_def)
  then have "distinct (map fst (updated (eval_query q) b (AList.clearjunk ss)))" using distinct_clearjunk by metis
  ultimately show "sample_searchable w' n = Some (updated (eval_query q) b ds)"
    using a(2) clearjunk_distinct by (auto simp: sample_answer_def sample_searchable_def Let_def)
qed

text \<open>A fresh version, staged, activated and verified.\<close>

definition sample_writer_env :: writer_env where
  "sample_writer_env = \<lparr>we_es = \<lparr>es_fingerprint = (\<lambda>_. replicate 64 97), es_str = (\<lambda>_. [])\<rparr>,
     we_unicode = sample_unicode, we_sha256 = (\<lambda>_. replicate 64 CHR ''b'')\<rparr>"

definition sample_es_writer :: "sample_state es_version_writer" where
  "sample_es_writer = \<lparr>ew_index_prefix = ''chunks'', ew_env = sample_writer_env, ew_transport = sample_node\<rparr>"

definition sample_staged_chunk :: jobject where
  "sample_staged_chunk = chunk_json (sample_online_chunk\<lparr>ch_is_active := False\<rparr>)"

definition sample_staging :: "(es_error + index_write_receipt) \<times> sample_state" where
  "sample_staging = ensure_staged sample_es_writer ''alice'' ''doc1'' ''v_ready'' [sample_staged_chunk] []"

lemma sample_staged: "fst sample_staging = Inr \<lparr>rc_backend = ELASTICSEARCH, rc_owner_id = ''alice'',
    rc_document_version_id = ''v_ready'', rc_chunk_count = 1, rc_source_chunks_sha256 = replicate 64 CHR ''a''\<rparr>"
  by code_simp

lemma sample_hypotheses:
  "node_reads eval_query (ew_transport sample_es_writer) sample_searchable sample_on_disk"
  "node_refreshes (ew_transport sample_es_writer) sample_searchable sample_on_disk"
  "node_quiet (ew_transport sample_es_writer)"
  "node_local (ew_transport sample_es_writer) sample_on_disk"
  "node_updates eval_query (ew_transport sample_es_writer) sample_searchable sample_on_disk"
  "ascii_digits (we_unicode (ew_env sample_es_writer))"
  by (simp_all add: sample_es_writer_def sample_writer_env_def sample_node_reads sample_node_refreshes sample_node_quiet
      sample_node_local sample_node_updates sample_unicode_plain)

theorem staged_index_is_exact_witness:
  "\<exists>rc ss w. ensure_staged sample_es_writer ''alice'' ''doc1'' ''v_ready'' [sample_staged_chunk] [] = (Inr rc, w) \<and>
     rc_chunk_count rc = 1 \<and>
     sample_on_disk w (physical_name sample_es_writer ''alice'' ''v_ready'') = Some ss \<and>
     sample_searchable w (physical_name sample_es_writer ''alice'' ''v_ready'') = Some ss \<and>
     fst ` set ss = {ascii ''chunk1''}"
proof -
  obtain rc where run: "ensure_staged sample_es_writer ''alice'' ''doc1'' ''v_ready'' [sample_staged_chunk] []
      = (Inr rc, snd sample_staging)"
    using sample_staged by (metis prod.collapse sample_staging_def)
  have key: "chunk_key sample_staged_chunk = ascii ''chunk1''" by code_simp
  have absent: "sample_on_disk [] (physical_name sample_es_writer ''alice'' ''v_ready'') = None"
    by (simp add: sample_on_disk_def)
  from staged_index_is_exact [OF sample_hypotheses(1,2,6) run] run show ?thesis
    by (auto simp: Let_def key absent)
qed

definition sample_activated :: sample_state where
  "sample_activated = snd (activate_version sample_es_writer ''alice'' ''v_ready'' (snd sample_staging))"

theorem online_route_is_verified_witness:
  "\<exists>ds. sample_searchable sample_activated (physical_name sample_es_writer ''alice'' ''v_ready'') = Some ds \<and> ds \<noteq> [] \<and>
     (\<forall>d \<in> set ds. owned_active ''alice'' ''doc1'' ''v_ready'' (snd d))"
proof -
  let ?run = "verify_online_version sample_es_writer ''alice'' ''doc1'' ''v_ready'' sample_activated"
  have "case fst ?run of Inl _ \<Rightarrow> False | Inr _ \<Rightarrow> True" by code_simp
  then obtain name metadata where "?run = (Inr (name, metadata), snd ?run)"
    by (cases ?run; cases "fst ?run") auto
  from online_route_is_verified [OF sample_hypotheses(1,3) this] show ?thesis by blast
qed

theorem writer_touches_one_index_witness:
  "sample_on_disk (snd (delete_version sample_es_writer ''alice'' ''v_ready'' [(''other'', [], [], [([1], [])])])) ''other''
   = Some [([1], [])]"
proof -
  have "physical_name sample_es_writer ''alice'' ''v_ready'' \<noteq> ''other''" by code_simp
  then show ?thesis
    using writer_touches_one_index [OF sample_hypotheses(4), of "''other''" "''alice''" "''v_ready''"]
    by (simp add: sample_on_disk_def)
qed

text \<open>Two chunks were to be staged, one is there, and active.\<close>

definition sample_partial :: sample_state where
  "sample_partial = (let ds = [(chunk_key sample_staged_chunk, put_field sample_staged_chunk ''is_active'' (JBool True))] in
     [(physical_name sample_es_writer ''alice'' ''v_ready'',
       version_metadata sample_writer_env ''alice'' ''doc1'' ''v_ready'' [sample_staged_chunk, sample_staged_chunk], ds, ds)])"

lemma sample_partial_inspected:
  "case inspect_identity sample_es_writer (physical_name sample_es_writer ''alice'' ''v_ready'')
       (expected_identity ''alice'' ''v_ready'' None None None) sample_partial of
     (Inr metadata, _) \<Rightarrow> metadata_count (ew_env sample_es_writer) metadata = 2 | _ \<Rightarrow> False"
  by code_simp

lemma sample_partial_facts:
  "contract_id_ok ''alice''" "contract_id_ok ''v_ready''"
  "sample_searchable sample_partial (physical_name sample_es_writer ''alice'' ''v_ready'') =
     Some [(chunk_key sample_staged_chunk, put_field sample_staged_chunk ''is_active'' (JBool True))]"
  "sample_on_disk sample_partial (physical_name sample_es_writer ''alice'' ''v_ready'') =
     Some [(chunk_key sample_staged_chunk, put_field sample_staged_chunk ''is_active'' (JBool True))]"
  by (code_simp, code_simp, simp_all add: sample_searchable_def sample_on_disk_def sample_partial_def Let_def)

theorem partial_index_never_deactivates_witness:
  "\<exists>v i source. deactivate_version sample_es_writer ''alice'' ''v_ready'' sample_partial = (Inl EsIndexNotReady, v) \<and>
     sample_searchable v (physical_name sample_es_writer ''alice'' ''v_ready'') = Some [(i, source)] \<and>
     get source ''is_active'' = Some (JBool False)"
proof -
  let ?name = "physical_name sample_es_writer ''alice'' ''v_ready''"
    and ?T = "ew_transport sample_es_writer"
    and ?update = "UpdateActive (physical_name sample_es_writer ''alice'' ''v_ready'') (identity_query ''alice'' ''v_ready'') False"
  let ?c = "CountWhere ?name (BoolQuery [identity_query ''alice'' ''v_ready'', Term ''is_active'' (JBool False)] [] 0 [])"
  obtain metadata w where "inspect_identity sample_es_writer ?name (expected_identity ''alice'' ''v_ready'' None None None)
      sample_partial = (Inr metadata, w)" and count: "metadata_count (ew_env sample_es_writer) metadata = 2"
    using sample_partial_inspected by (auto split: prod.splits sum.splits)
  moreover from this(1) have "w = sample_partial"
    by (rule inspect_identity_quiet [OF sample_hypotheses(3)])
  ultimately have inspect: "inspect_identity sample_es_writer ?name (expected_identity ''alice'' ''v_ready'' None None None)
      sample_partial = (Inr metadata, sample_partial)" by simp
  have there: "vt_exists ?T ?name sample_partial = (Inr True, sample_partial)"
    by (simp add: sample_es_writer_def sample_node_def sample_partial_def Let_def)
  obtain v where update: "vt_request ?T ?update sample_partial = (Inr [], v)"
    by (auto simp: sample_es_writer_def sample_node_def sample_partial_def sample_answer_def Let_def)
  have "case fst (vt_request ?T ?c (snd (vt_request ?T ?update sample_partial))) of Inl _ \<Rightarrow> False | Inr _ \<Rightarrow> True"
    by code_simp
  then obtain r' v' where counted: "vt_request ?T ?c v = (Inr r', v')"
    by (cases "vt_request ?T ?c v"; cases "fst (vt_request ?T ?c v)") (simp_all add: update)
  have none: "no_failures []" by (simp add: no_failures_def get_def)
  have "of_version ''alice'' ''v_ready'' (put_field sample_staged_chunk ''is_active'' (JBool True))" by code_simp
  with partial_index_never_deactivates [OF sample_hypotheses(1,3,5) sample_partial_facts inspect _ there update none counted]
  show ?thesis by (simp add: count updated_def get_put_field)
qed

end
