(* ===== verification/MilvusVersions.thy ===== *)
theory MilvusVersions
  imports MilvusWriter ElasticsearchVersions "HOL-Library.Multiset" "HOL-Library.Code_Target_Nat"
begin

text \<open>
  Properties of the version writer of Milvus. \<open>rows_of\<close> is what the collections of the store hold;
  \<open>store_reads\<close> states what Milvus documents of the requests that read, \<open>store_upserts\<close> of those that
  write, \<open>store_available\<close> that the store answers. \<open>sample_store\<close> satisfies them.
\<close>

subsection \<open>The store\<close>

text \<open>A query without a filter returns rows of the collection in some order, up to the limit.\<close>

definition store_reads :: "'w milvus_transport \<Rightarrow> ('w \<Rightarrow> string \<Rightarrow> jobject list option) \<Rightarrow> bool" where
  "store_reads T rows_of \<longleftrightarrow>
     (\<forall>n w v w'. T (HasCollection n) w = (Inr v, w') \<longrightarrow> w' = w \<and> (v = JBool True \<longleftrightarrow> rows_of w n \<noteq> None)) \<and>
     (\<forall>n w v w'. T (DescribeCollection n) w = (Inr v, w') \<longrightarrow> w' = w) \<and>
     (\<forall>n k w v w'. T (QueryRows n [] sorted_fields k) w = (Inr v, w') \<longrightarrow> w' = w \<and>
        (\<exists>rs p. rows_of w n = Some rs \<and> mset p = mset rs \<and> v = JList (map JObj (take (nat k) p))))"

lemma store_readsD:
  assumes "store_reads T rows_of"
  shows "T (HasCollection n) w = (Inr v, w') \<Longrightarrow> w' = w \<and> (v = JBool True \<longleftrightarrow> rows_of w n \<noteq> None)"
    and "T (DescribeCollection n) w = (Inr v, w') \<Longrightarrow> w' = w"
    and "T (QueryRows n [] sorted_fields k) w = (Inr v, w') \<Longrightarrow> w' = w \<and>
        (\<exists>rs p. rows_of w n = Some rs \<and> mset p = mset rs \<and> v = JList (map JObj (take (nat k) p)))"
proof -
  note a = assms [unfolded store_reads_def]
  show "T (HasCollection n) w = (Inr v, w') \<Longrightarrow> w' = w \<and> (v = JBool True \<longleftrightarrow> rows_of w n \<noteq> None)"
    by (rule conjunct1 [OF a, rule_format])
  show "T (DescribeCollection n) w = (Inr v, w') \<Longrightarrow> w' = w"
    by (rule conjunct1 [OF conjunct2 [OF a], rule_format])
  show "T (QueryRows n [] sorted_fields k) w = (Inr v, w') \<Longrightarrow> w' = w \<and>
        (\<exists>rs p. rows_of w n = Some rs \<and> mset p = mset rs \<and> v = JList (map JObj (take (nat k) p)))"
    by (rule conjunct2 [OF conjunct2 [OF a], rule_format])
qed

text \<open>Fewer rows than the limit are all rows.\<close>

lemma query_rows_Inr:
  assumes "store_reads (mw_transport W) rows_of" and "query_rows W name k w = (Inr got, w')"
  obtains rs where "w' = w" and "rows_of w name = Some rs" and "length got \<le> length rs"
    and "int (length got) < k \<longrightarrow> mset got = mset rs"
proof -
  obtain v where v: "mw_transport W (QueryRows name [] sorted_fields k) w = (Inr v, w')" and k: "1 \<le> k"
    and answer: "(case v of
        JList rows \<Rightarrow>
          if list_all (\<lambda>r. fields_of (Some r) \<noteq> None) rows
          then call_return (map (\<lambda>r. the (fields_of (Some r))) rows) else call_raise MilvusNotReady
      | _ \<Rightarrow> call_raise MilvusNotReady) w' = (Inr got, w')"
  proof -
    have k: "\<not> (k < 1 \<or> max_version_rows + 1 < k)"
      using assms(2) by (auto simp: query_rows_def call_simps split: if_splits)
    then obtain v v' where v: "mw_transport W (QueryRows name [] sorted_fields k) w = (Inr v, v')"
      and a: "(case v of
        JList rows \<Rightarrow>
          if list_all (\<lambda>r. fields_of (Some r) \<noteq> None) rows
          then call_return (map (\<lambda>r. the (fields_of (Some r))) rows) else call_raise MilvusNotReady
      | _ \<Rightarrow> call_raise MilvusNotReady) v' = (Inr got, w')"
      using assms(2) unfolding query_rows_def if_not_P [OF k] call_bind_Inr by blast
    have "v' = w'" using a by (cases v) (simp_all add: call_simps split: if_splits)
    with v a k show thesis using that by auto
  qed
  obtain rs p where s: "w' = w" "rows_of w name = Some rs" "mset p = mset rs"
    "v = JList (map JObj (take (nat k) p))"
    using store_readsD(3) [OF assms(1) v] by auto
  have t: "got = take (nat k) p" using answer unfolding s(4) by (simp add: comp_def call_simps split: if_splits)
  have len: "length p = length rs" using s(3) by (metis size_mset)
  have "mset got = mset rs" if "int (length got) < k"
    using that t s(3) k by (cases "length p \<le> nat k") (simp_all add: min_def)
  moreover have "length got \<le> length rs" using t len by simp
  ultimately show thesis using that s by blast
qed

subsection \<open>Rows\<close>

lemma plain_value_JStr: "plain_value v = JStr t \<longleftrightarrow> v = JStr t"
  by (cases v rule: plain_value.cases) auto

lemma py_get_JStr: "py_get d k = JStr t \<longleftrightarrow> get d k = Some (JStr t)"
  by (simp add: py_get_def plain_value_JStr split: option.split)

lemma same_value_get:
  assumes "same_value a b"
  shows "py_get a k = py_get b k"
proof -
  let ?p = "map (\<lambda>(k, v). (k, plain_value v))"
  have eq: "?p a = ?p b" using assms by (simp add: same_value_def)
  have m: "map_of (?p d) k = map_option plain_value (map_of d k)" for d
    by (induction d) auto
  have "py_get d k = (case map_of (?p d) k of None \<Rightarrow> JNull | Some v \<Rightarrow> v)" for d
    unfolding m by (simp add: py_get_def get_def split: option.split)
  with eq show ?thesis by simp
qed

text \<open>What a validated row says.\<close>

lemma validated_row_Inr:
  assumes "validated_row E meta row = Inr (i, v, payload)"
  shows "get row ''chunk_id'' = Some (JStr i)" and "get row ''payload'' = Some (JObj payload)"
    and "row_identity_ok meta row payload i"
  using assms
  by (auto simp: validated_row_def bind_res_Inr_iff elim!: fields_of.elims split: if_splits option.splits json.splits)

lemma expected_rows_Inr:
  assumes "expected_rows E meta chunks vs actual rows = Inr all"
  shows "\<exists>new. all = actual @ new \<and> length new = length rows \<and>
     (distinct (map fst actual) \<longrightarrow> distinct (map fst all)) \<and> set (map fst new) \<subseteq> set (map chunk_key chunks) \<and>
     (\<forall>e \<in> set new. \<exists>row \<in> set rows. \<exists>payload. validated_row E meta row = Inr (fst e, snd e, payload) \<and>
        same_value (put_field payload ''is_active'' (JBool False))
          (the (map_of (map (\<lambda>c. (chunk_key c, c)) chunks) (fst e))))"
  using assms
proof (induction rows arbitrary: actual)
  case (Cons row rows)
  obtain i v payload where r: "validated_row E meta row = Inr (i, v, payload)"
    "i \<notin> set (map fst actual)" "i \<in> set (map chunk_key chunks)"
    "same_value (put_field payload ''is_active'' (JBool False)) (the (map_of (map (\<lambda>c. (chunk_key c, c)) chunks) i))"
    "expected_rows E meta chunks vs (actual @ [(i, v)]) rows = Inr all"
    using Cons.prems by (auto simp: bind_res_Inr_iff split: if_splits)
  obtain new where n: "all = (actual @ [(i, v)]) @ new" "length new = length rows"
    "distinct (map fst (actual @ [(i, v)])) \<longrightarrow> distinct (map fst all)" "set (map fst new) \<subseteq> set (map chunk_key chunks)"
    "\<forall>e \<in> set new. \<exists>row \<in> set rows. \<exists>payload. validated_row E meta row = Inr (fst e, snd e, payload) \<and>
        same_value (put_field payload ''is_active'' (JBool False))
          (the (map_of (map (\<lambda>c. (chunk_key c, c)) chunks) (fst e)))"
    using Cons.IH [OF r(5)] by blast
  show ?case
  proof (intro exI [of _ "(i, v) # new"] conjI)
    show "distinct (map fst actual) \<longrightarrow> distinct (map fst all)" using n(3) r(2) by simp
    show "set (map fst ((i, v) # new)) \<subseteq> set (map chunk_key chunks)" using n(4) r(3) by simp
    show "\<forall>e \<in> set ((i, v) # new). \<exists>row' \<in> set (row # rows). \<exists>payload.
        validated_row E meta row' = Inr (fst e, snd e, payload) \<and>
        same_value (put_field payload ''is_active'' (JBool False))
          (the (map_of (map (\<lambda>c. (chunk_key c, c)) chunks) (fst e)))"
      using n(5) r(1,4) by auto
  qed (use n(1,2) in simp_all)
qed simp

text \<open>A row that stores a chunk: its payload is the chunk up to the activity, and the fields the
  authorization filter reads are those of the chunk.\<close>

definition stores_chunk :: "jobject \<Rightarrow> jobject \<Rightarrow> bool" where
  "stores_chunk c row \<longleftrightarrow>
     get row ''chunk_id'' = Some (JStr (chunk_key c)) \<and>
     (\<exists>payload. get row ''payload'' = Some (JObj payload) \<and> get row ''is_active'' = get payload ''is_active'' \<and>
        same_value (put_field payload ''is_active'' (JBool False)) c) \<and>
     (\<forall>k \<in> {''document_id'', ''tenant_id'', ''visibility'', ''library_scope_ids''}. py_get row k = py_get c k)"

lemma validated_row_stores:
  assumes "validated_row E meta row = Inr (chunk_key c, v, payload)"
    and "same_value (put_field payload ''is_active'' (JBool False)) c"
  shows "stores_chunk c row"
proof -
  note r = validated_row_Inr [OF assms(1)]
  have "py_get (put_field payload ''is_active'' (JBool False)) k = py_get payload k" if "k \<noteq> ''is_active''" for k
    using that by (simp add: py_get_def get_put_field)
  then have "py_get payload k = py_get c k" if "k \<noteq> ''is_active''" for k
    using that same_value_get [OF assms(2), of k] by simp
  then show ?thesis using r assms(2) by (auto simp: stores_chunk_def row_identity_ok_def)
qed

lemma verify_expected_rows_Inr:
  assumes "verify_expected_rows E rows chunks meta False vs = Inr seen" and "distinct (map chunk_key chunks)"
  shows "length rows = length chunks" and "\<forall>c \<in> set chunks. \<exists>row \<in> set rows. stores_chunk c row"
proof -
  obtain all where a: "expected_rows E meta chunks vs [] rows = Inr all" "set (map fst all) = set (map chunk_key chunks)"
    using assms(1) by (auto simp: verify_expected_rows_def bind_res_Inr_iff Let_def split: if_splits)
  have all: "length all = length rows" "distinct (map fst all)"
    "\<forall>e \<in> set all. \<exists>row \<in> set rows. \<exists>payload. validated_row E meta row = Inr (fst e, snd e, payload) \<and>
        same_value (put_field payload ''is_active'' (JBool False))
          (the (map_of (map (\<lambda>c. (chunk_key c, c)) chunks) (fst e)))"
    using expected_rows_Inr [OF a(1)] by auto
  show "length rows = length chunks"
    using a(2) all(1,2) assms(2) by (metis distinct_card length_map)
  show "\<forall>c \<in> set chunks. \<exists>row \<in> set rows. stores_chunk c row"
  proof
    fix c assume c: "c \<in> set chunks"
    then have "chunk_key c \<in> set (map fst all)" using a(2) by auto
    then obtain e where e: "e \<in> set all" "fst e = chunk_key c" by auto
    have "map_of (map (\<lambda>c. (chunk_key c, c)) chunks) (chunk_key c) = Some c"
      using assms(2) c by (intro map_of_is_SomeI) (simp_all add: comp_def)
    then have "the (map_of (map (\<lambda>c. (chunk_key c, c)) chunks) (fst e)) = c" using e(2) by simp
    moreover obtain row payload where "row \<in> set rows" "validated_row E meta row = Inr (fst e, snd e, payload)"
      "same_value (put_field payload ''is_active'' (JBool False))
        (the (map_of (map (\<lambda>c. (chunk_key c, c)) chunks) (fst e)))"
      using all(3) e(1) by blast
    ultimately show "\<exists>row \<in> set rows. stores_chunk c row"
      using validated_row_stores [of E meta row c "snd e" payload] e(2) by auto
  qed
qed

lemma lifecycle_rows_Inr:
  assumes "lifecycle_rows E meta active vs rows = Inr out" and "row \<in> set rows"
  shows "\<exists>i v payload. validated_row E meta row = Inr (i, v, payload) \<and>
     (\<forall>b. active = Some b \<longrightarrow> get payload ''is_active'' = Some (JBool b))"
  using assms
proof (induction rows arbitrary: vs)
  case (Cons r rows)
  obtain i v payload where r: "validated_row E meta r = Inr (i, v, payload)"
    "\<not> (case active of None \<Rightarrow> False | Some b \<Rightarrow> get payload ''is_active'' \<noteq> Some (JBool b))"
    "lifecycle_rows E meta active (vs @ [(i, v)]) rows = Inr out"
    using Cons.prems(1) by (auto simp: bind_res_Inr_iff split: if_splits)
  show ?case
  proof (cases "row = r")
    case True
    with r(1,2) show ?thesis by (auto split: option.splits)
  next
    case False
    with Cons.IH [OF r(3)] Cons.prems(2) show ?thesis by simp
  qed
qed simp

text \<open>A row of the version whose activity is \<open>b\<close>, in the field and in the payload.\<close>

definition owned_row :: "string \<Rightarrow> string \<Rightarrow> bool \<Rightarrow> jobject \<Rightarrow> bool" where
  "owned_row owner vid b row \<longleftrightarrow>
     get row ''tenant_id'' = Some (JStr (ascii owner)) \<and> get row ''is_active'' = Some (JBool b) \<and>
     (\<exists>payload. get row ''payload'' = Some (JObj payload) \<and> get payload ''tenant_id'' = Some (JStr (ascii owner)) \<and>
        get payload ''version_id'' = Some (JStr (ascii vid)) \<and> get payload ''is_active'' = Some (JBool b))"

lemma verify_lifecycle_rows_Inr:
  assumes "verify_lifecycle_rows E rows meta incomplete (Some b) = Inr ()"
    and "map_of meta ''owner_id'' = Some (ascii owner)" and "map_of meta ''document_version_id'' = Some (ascii vid)"
  shows "int (length rows) \<le> version_row_count E meta"
    and "\<not> incomplete \<Longrightarrow> int (length rows) = version_row_count E meta"
    and "row \<in> set rows \<Longrightarrow> owned_row owner vid b row \<and> get row ''document_id'' = Some (JStr (meta_text meta ''document_id''))"
proof -
  show "int (length rows) \<le> version_row_count E meta"
    "\<not> incomplete \<Longrightarrow> int (length rows) = version_row_count E meta"
    using assms(1) by (auto simp: verify_lifecycle_rows_def Let_def split: if_splits)
  obtain out where out: "lifecycle_rows E meta (Some b) [] rows = Inr out"
    using assms(1) by (auto simp: verify_lifecycle_rows_def Let_def bind_res_Inr_iff split: if_splits)
  assume "row \<in> set rows"
  then obtain i v payload where r: "validated_row E meta row = Inr (i, v, payload)"
    "get payload ''is_active'' = Some (JBool b)"
    using lifecycle_rows_Inr [OF out] by blast
  note s = validated_row_Inr [OF r(1)]
  have "py_get row ''tenant_id'' = JStr (ascii owner)" "py_get row ''document_id'' = JStr (meta_text meta ''document_id'')"
    using s(3) assms(2) py_get_JStr [of payload "''tenant_id''"] py_get_JStr [of payload "''document_id''"]
    by (simp_all add: row_identity_ok_def meta_text_def)
  then have "get row ''tenant_id'' = Some (JStr (ascii owner))"
    "get row ''document_id'' = Some (JStr (meta_text meta ''document_id''))"
    by (simp_all only: py_get_JStr)
  moreover have "get payload ''tenant_id'' = Some (JStr (ascii owner))" "get payload ''version_id'' = Some (JStr (ascii vid))"
    "get row ''is_active'' = Some (JBool b)"
    using s(3) r(2) assms(2,3) by (simp_all add: row_identity_ok_def meta_text_def)
  ultimately show "owned_row owner vid b row \<and> get row ''document_id'' = Some (JStr (meta_text meta ''document_id''))"
    using s(2) r(2) by (auto simp: owned_row_def)
qed

subsection \<open>Staging\<close>

lemma inspect_collection_Inr:
  assumes "inspect_collection W name expected verify d i w = (Inr meta, w')"
  obtains identity where "\<forall>(k, v) \<in> set (expected identity). map_of meta k = Some v"
    and "1 \<le> version_row_count (mw_env W) meta" and "version_row_count (mw_env W) meta \<le> max_version_rows"
    and "meta_int (mw_env W) meta ''chunk_count'' = Some (version_row_count (mw_env W) meta)"
    and "verify \<longrightarrow> i \<noteq> None \<longrightarrow> identity = i"
proof -
  obtain description identity where ok: "collection_ok (mw_env W) (expected identity) meta description"
    and i: "verify \<longrightarrow> i \<noteq> None \<longrightarrow> identity = i"
    using assms by (auto simp: inspect_collection_def call_simps split: option.splits if_splits)
  have pairs: "\<forall>(k, v) \<in> set (expected identity). map_of meta k = Some v"
    using ok by (auto simp: collection_ok_def split: if_splits)
  obtain n where n: "meta_int (mw_env W) meta ''chunk_count'' = Some n" "1 \<le> n" "n \<le> max_version_rows"
    using ok by (auto simp: collection_ok_def not_less split: if_splits option.splits)
  show thesis by (rule that [OF pairs _ _ _ i]) (use n in \<open>simp_all add: version_row_count_def\<close>)
qed

lemma expected_collection_owner:
  assumes "\<forall>(k, v) \<in> set (expected_collection owner vid doc h n i). map_of meta k = Some v"
  shows "map_of meta ''owner_id'' = Some (ascii owner)" and "map_of meta ''document_version_id'' = Some (ascii vid)"
    and "doc = Some d \<Longrightarrow> map_of meta ''document_id'' = Some (ascii d)"
    and "h = Some x \<Longrightarrow> map_of meta ''source_chunks_sha256'' = Some x"
    and "n = Some m \<Longrightarrow> map_of meta ''chunk_count'' = Some (decimal m)"
proof -
  have m: "(k, v) \<in> set (expected_collection owner vid doc h n i) \<Longrightarrow> map_of meta k = Some v" for k v
    using assms by fastforce
  show "map_of meta ''owner_id'' = Some (ascii owner)" "map_of meta ''document_version_id'' = Some (ascii vid)"
    by (rule m, simp add: expected_collection_def)+
  show "doc = Some d \<Longrightarrow> map_of meta ''document_id'' = Some (ascii d)"
    and "h = Some x \<Longrightarrow> map_of meta ''source_chunks_sha256'' = Some x"
    and "n = Some m \<Longrightarrow> map_of meta ''chunk_count'' = Some (decimal m)" for d x m
    by (rule m, simp add: expected_collection_def)+
qed

lemma milvus_check_keys:
  "milvus_check_chunks ids chunks \<Longrightarrow> distinct (map chunk_key chunks) \<and> ids \<inter> chunk_key ` set chunks = {}"
  by (induction ids chunks rule: milvus_check_chunks.induct) (auto split: if_splits)

lemma version_stage_keys: "version_stage_ok owner doc vid chunks \<Longrightarrow> distinct (map chunk_key chunks)"
  using milvus_check_keys by (auto simp: version_stage_ok_def milvus_validate_chunks_def split: if_splits)

text \<open>The rows that the last check read are those of the collection.\<close>

lemma complete_rows_Inr:
  assumes "store_reads (mw_transport W) rows_of"
    and "query_rows W name max_version_rows w = (Inr rows, w1)"
    and "complete_rows W name chunks meta rows seen w1 = (Inr staged, w')"
  obtains rs where "rows_of w' name = Some rs" and "int (length staged) < max_version_rows \<longrightarrow> mset staged = mset rs"
proof (cases "filter (\<lambda>c. chunk_key c \<notin> set seen) chunks = []")
  case True
  then have "staged = rows" "w' = w1" using assms(3) by (simp_all add: complete_rows_def call_simps)
  moreover obtain rs where "w1 = w" "rows_of w name = Some rs" "length rows \<le> length rs" "int (length rows) < max_version_rows \<longrightarrow> mset rows = mset rs"
    by (rule query_rows_Inr [OF assms(1,2)])
  ultimately show thesis using that by simp
next
  case False
  then obtain w2 where q: "query_rows W name max_version_rows w2 = (Inr staged, w')"
    using assms(3) unfolding complete_rows_def Let_def if_not_P [OF False]
    by (auto simp: call_simps split: if_splits)
  obtain rs where "w' = w2" "rows_of w2 name = Some rs" "length staged \<le> length rs" "int (length staged) < max_version_rows \<longrightarrow> mset staged = mset rs"
    by (rule query_rows_Inr [OF assms(1) q])
  then show thesis using that by simp
qed

lemma stage_version_Inr:
  assumes "stage_version W owner doc vid chunks w = (Inr rc, w')"
  obtains w1 w2 w3 w4 meta rows seen staged seen' where "version_stage_ok owner doc vid chunks"
    and "inspect_collection W (collection_name W owner vid) (expected_collection owner vid (Some doc)
        (Some (mv_fingerprint (mw_milvus (mw_env W)) chunks)) (Some (length chunks))) True None None w1 = (Inr meta, w2)"
    and "query_rows W (collection_name W owner vid) max_version_rows w2 = (Inr rows, w3)"
    and "complete_rows W (collection_name W owner vid) chunks meta rows seen w3 = (Inr staged, w')"
    and "verify_expected_rows (mw_env W) staged chunks meta False None = Inr seen'"
    and "rc = \<lparr>rc_backend = MILVUS, rc_owner_id = owner, rc_document_version_id = vid,
         rc_chunk_count = version_row_count (mw_env W) meta,
         rc_source_chunks_sha256 = map char_of (meta_text meta ''source_chunks_sha256'')\<rparr>"
proof -
  have ok: "version_stage_ok owner doc vid chunks"
    using assms by (auto simp: stage_version_def call_simps split: if_splits)
  let ?name = "collection_name W owner vid"
  note run = assms [unfolded stage_version_def Let_def]
  have "\<exists>w1 w2 w3 meta rows seen staged seen'.
      inspect_collection W ?name (expected_collection owner vid (Some doc)
        (Some (mv_fingerprint (mw_milvus (mw_env W)) chunks)) (Some (length chunks))) True None None w1 = (Inr meta, w2)
      \<and> query_rows W ?name max_version_rows w2 = (Inr rows, w3)
      \<and> complete_rows W ?name chunks meta rows seen w3 = (Inr staged, w')
      \<and> verify_expected_rows (mw_env W) staged chunks meta False None = Inr seen'
      \<and> rc = \<lparr>rc_backend = MILVUS, rc_owner_id = owner, rc_document_version_id = vid,
         rc_chunk_count = version_row_count (mw_env W) meta,
         rc_source_chunks_sha256 = map char_of (meta_text meta ''source_chunks_sha256'')\<rparr>"
    using run ok by (simp only: not_True_eq_False if_False call_bind_Inr call_return_Inr lift_call_Inr) blast
  then show thesis using that ok by blast
qed

text \<open>C15. A receipt of the Milvus writer is true. When staging returns, whatever the collection held before and
  whatever failed in between, the collection of the version holds exactly one row per chunk: its payload is
  the chunk up to its activity, the fields that the authorization filter reads are those of the chunk, and
  the activity of row and payload agree; and the receipt names the version, the number of chunks and their
  fingerprint. The largest version, of 16000 chunks, is left out: the query that checks it reads no further
  row.\<close>

theorem staged_rows_are_exact:
  assumes "store_reads (mw_transport W) rows_of" and "ascii_digits (mw_unicode (mw_env W))"
    and "stage_version W owner doc vid chunks w = (Inr rc, w')" and "int (length chunks) < max_version_rows"
  shows "rc = \<lparr>rc_backend = MILVUS, rc_owner_id = owner, rc_document_version_id = vid,
      rc_chunk_count = int (length chunks),
      rc_source_chunks_sha256 = map char_of (mv_fingerprint (mw_milvus (mw_env W)) chunks)\<rparr>
    \<and> (\<exists>rs. rows_of w' (collection_name W owner vid) = Some rs \<and> length rs = length chunks
      \<and> (\<forall>c \<in> set chunks. \<exists>row \<in> set rs. stores_chunk c row))"
proof -
  let ?name = "collection_name W owner vid"
  obtain w1 w2 w3 w4 meta rows seen staged seen' where s: "version_stage_ok owner doc vid chunks"
    "inspect_collection W ?name (expected_collection owner vid (Some doc)
        (Some (mv_fingerprint (mw_milvus (mw_env W)) chunks)) (Some (length chunks))) True None None w1 = (Inr meta, w2)"
    "query_rows W ?name max_version_rows w2 = (Inr rows, w3)"
    "complete_rows W ?name chunks meta rows seen w3 = (Inr staged, w')"
    "verify_expected_rows (mw_env W) staged chunks meta False None = Inr seen'"
    "rc = \<lparr>rc_backend = MILVUS, rc_owner_id = owner, rc_document_version_id = vid,
         rc_chunk_count = version_row_count (mw_env W) meta,
         rc_source_chunks_sha256 = map char_of (meta_text meta ''source_chunks_sha256'')\<rparr>"
    by (rule stage_version_Inr [OF assms(3)])
  obtain identity where m: "\<forall>(k, v) \<in> set (expected_collection owner vid (Some doc)
        (Some (mv_fingerprint (mw_milvus (mw_env W)) chunks)) (Some (length chunks)) identity). map_of meta k = Some v"
    "meta_int (mw_env W) meta ''chunk_count'' = Some (version_row_count (mw_env W) meta)"
    by (rule inspect_collection_Inr [OF s(2)])
  have meta: "map_of meta ''source_chunks_sha256'' = Some (mv_fingerprint (mw_milvus (mw_env W)) chunks)"
    "version_row_count (mw_env W) meta = int (length chunks)"
    using expected_collection_owner(4,5) [OF m(1)] m(2) py_int_decimal [OF assms(2), of "length chunks"]
    by (simp_all add: meta_int_def)
  note staged = verify_expected_rows_Inr [OF s(5) version_stage_keys [OF s(1)]]
  obtain rs where rs: "rows_of w' ?name = Some rs" "int (length staged) < max_version_rows \<longrightarrow> mset staged = mset rs"
    by (rule complete_rows_Inr [OF assms(1) s(3,4)])
  then have "mset staged = mset rs" using staged(1) assms(4) by simp
  then have "length rs = length chunks" "set rs = set staged" using staged(1) mset_eq_length mset_eq_setD by metis+
  then show ?thesis using s(6) meta rs(1) staged(2) by (simp add: meta_text_def)
qed

subsection \<open>The online route\<close>

lemma both_calls_Inr [call_simps]:
  "both_calls m m' w = (Inr (a, b), w') \<longleftrightarrow> (\<exists>v. m w = (Inr a, v) \<and> m' v = (Inr b, w'))"
  by (auto simp: both_calls_def bind_res_Inr_iff split: prod.splits)

lemma not_ready_Inr [call_simps]: "not_ready m w = (Inr x, w') \<longleftrightarrow> m w = (Inr x, w')"
  by (auto simp: not_ready_def split: prod.splits sum.splits)

lemma verify_online_collection_name:
  assumes "verify_online_collection W owner doc vid w = (Inr (name, meta), w')"
  shows "name = collection_name W owner vid" and "physical_collection_name W owner vid = Inr name"
  using assms by (auto simp: verify_online_collection_def physical_collection_name_def call_simps split: if_splits prod.splits)

text \<open>The identity compared is the one the provider answers at the start: reading the description is a read.\<close>

lemma verify_online_collection_Inr:
  assumes "store_reads (mw_transport W) rows_of"
    and "verify_online_collection W owner doc vid w = (Inr (name, meta), w')"
  obtains d i w1 w2 w3 rows where
    "inspect_collection W name (expected_collection owner vid (Some doc) None None) True
      (Some d) (Some i) w1 = (Inr meta, w2)"
    and "ep_identity (mw_provider W) w = (Inr i, w3)"
    and "query_rows W name (version_row_count (mw_env W) meta + 1) w2 = (Inr rows, w')"
    and "verify_lifecycle_rows (mw_env W) rows meta False (Some True) = Inr ()"
proof -
  note name = verify_online_collection_name [OF assms(2)]
  have "not_ready (call_bind (both_calls (describe_collection W name) (ep_identity (mw_provider W))) (\<lambda>(description, identity).
     call_bind (inspect_collection W name (expected_collection owner vid (Some doc) None None) True
       (Some description) (Some identity)) (\<lambda>meta.
     call_bind (query_rows W name (version_row_count (mw_env W) meta + 1)) (\<lambda>rows.
     call_bind (lift_call (verify_lifecycle_rows (mw_env W) rows meta False (Some True))) (\<lambda>_.
     call_return (name, meta)))))) w = (Inr (name, meta), w')"
    using assms(2) name(2) by (simp add: verify_online_collection_def call_bind_def lift_call_def)
  then obtain d i meta' v0 v1 v2 v3 rows where "describe_collection W name w = (Inr d, v0)"
    "ep_identity (mw_provider W) v0 = (Inr i, v1)"
    "inspect_collection W name (expected_collection owner vid (Some doc) None None) True
      (Some d) (Some i) v1 = (Inr meta, v2)"
    "query_rows W name (version_row_count (mw_env W) meta + 1) v2 = (Inr rows, w')"
    "verify_lifecycle_rows (mw_env W) rows meta False (Some True) = Inr ()"
    by (auto simp: call_simps)
  moreover from this(1) have "v0 = w"
    using store_readsD(2) [OF assms(1)] by (auto simp: describe_collection_def call_simps)
  ultimately show thesis using that by blast
qed

text \<open>C17. A verified Milvus route is online as a whole. When the verification returns, it names the
  collection of the version; the description names the owner, the version and the document, and the
  provider, model and model digest it names are those the embedding provider answers now; and the
  collection holds as many rows as the description says, at least one and also when they are 16000; each
  belongs to the owner, the document and the version and is active in its field and its payload.\<close>

theorem milvus_route_is_verified:
  assumes "store_reads (mw_transport W) rows_of"
    and "verify_online_collection W owner doc vid w = (Inr (name, meta), w')"
  shows "name = collection_name W owner vid
    \<and> (\<exists>identity v. ep_identity (mw_provider W) w = (Inr identity, v)
      \<and> (\<forall>(k, t) \<in> set (expected_collection owner vid (Some doc) None None (Some identity)). map_of meta k = Some t))
    \<and> (\<exists>rs. rows_of w' name = Some rs \<and> int (length rs) = version_row_count (mw_env W) meta \<and> rs \<noteq> []
      \<and> (\<forall>row \<in> set rs. owned_row owner vid True row \<and> get row ''document_id'' = Some (JStr (ascii doc))))"
proof -
  note name = verify_online_collection_name [OF assms(2)]
  obtain d i w1 w2 w3 rows where s: "inspect_collection W name (expected_collection owner vid (Some doc) None None) True
      (Some d) (Some i) w1 = (Inr meta, w2)"
    "ep_identity (mw_provider W) w = (Inr i, w3)"
    "query_rows W name (version_row_count (mw_env W) meta + 1) w2 = (Inr rows, w')"
    "verify_lifecycle_rows (mw_env W) rows meta False (Some True) = Inr ()"
    by (rule verify_online_collection_Inr [OF assms])
  obtain identity where m: "\<forall>(k, v) \<in> set (expected_collection owner vid (Some doc) None None identity). map_of meta k = Some v"
    "1 \<le> version_row_count (mw_env W) meta" "True \<longrightarrow> Some i \<noteq> None \<longrightarrow> identity = Some i"
    by (rule inspect_collection_Inr [OF s(1)])
  then have pairs: "\<forall>(k, v) \<in> set (expected_collection owner vid (Some doc) None None (Some i)). map_of meta k = Some v"
    by simp
  note own = expected_collection_owner [OF m(1)]
  obtain rs where rs: "w' = w2" "rows_of w2 name = Some rs" "length rows \<le> length rs"
    "int (length rows) < version_row_count (mw_env W) meta + 1 \<longrightarrow> mset rows = mset rs"
    by (rule query_rows_Inr [OF assms(1) s(3)])
  note rows = verify_lifecycle_rows_Inr [OF s(4) own(1,2)]
  have "mset rows = mset rs" using rs(4) rows(1) by simp
  then have "length rs = length rows" and set: "set rs = set rows" using mset_eq_length mset_eq_setD by metis+
  moreover have "owned_row owner vid True row \<and> get row ''document_id'' = Some (JStr (ascii doc))" if "row \<in> set rows" for row
    using rows(3) [OF that] own(3) by (simp add: meta_text_def)
  ultimately have "int (length rs) = version_row_count (mw_env W) meta \<and> rs \<noteq> []
      \<and> (\<forall>row \<in> set rs. owned_row owner vid True row \<and> get row ''document_id'' = Some (JStr (ascii doc)))"
    using rows(2) m(2) by auto
  then show ?thesis using name(1) pairs s(2) rs(1,2) by blast
qed

subsection \<open>Activity\<close>

lemma set_version_active_Inr:
  assumes "set_version_active W owner vid b incomplete w = (Inr (), w')"
  obtains w1 w2 w3 meta verified where
    "inspect_collection W (collection_name W owner vid) (expected_collection owner vid None None None) False None None w1
      = (Inr meta, w2)"
    and "query_rows W (collection_name W owner vid) max_version_rows w3 = (Inr verified, w')"
    and "verify_lifecycle_rows (mw_env W) verified meta incomplete (Some b) = Inr ()"
proof -
  have name: "physical_collection_name W owner vid = Inr (collection_name W owner vid)"
    using assms by (auto simp: set_version_active_def physical_collection_name_def call_simps split: if_splits)
  show thesis using assms unfolding set_version_active_def name
    by (auto simp: call_bind_Inr lift_call_Inr call_raise_Inr split: if_splits intro: that)
qed

lemma set_version_active_rows:
  assumes "store_reads (mw_transport W) rows_of" and "set_version_active W owner vid b incomplete w = (Inr (), w')"
  obtains rs where "rows_of w' (collection_name W owner vid) = Some rs" and "\<not> incomplete \<longrightarrow> rs \<noteq> []"
    and "int (length rs) < max_version_rows \<longrightarrow> (\<forall>row \<in> set rs. owned_row owner vid b row)"
proof -
  obtain w1 w2 w3 meta verified where s: "inspect_collection W (collection_name W owner vid)
      (expected_collection owner vid None None None) False None None w1 = (Inr meta, w2)"
    "query_rows W (collection_name W owner vid) max_version_rows w3 = (Inr verified, w')"
    "verify_lifecycle_rows (mw_env W) verified meta incomplete (Some b) = Inr ()"
    by (rule set_version_active_Inr [OF assms(2)])
  obtain identity where m: "\<forall>(k, v) \<in> set (expected_collection owner vid None None None identity). map_of meta k = Some v"
    "1 \<le> version_row_count (mw_env W) meta"
    by (rule inspect_collection_Inr [OF s(1)])
  note rows = verify_lifecycle_rows_Inr [OF s(3) expected_collection_owner(1,2) [OF m(1)]]
  obtain rs where rs: "w' = w3" "rows_of w3 (collection_name W owner vid) = Some rs" "length verified \<le> length rs"
    "int (length verified) < max_version_rows \<longrightarrow> mset verified = mset rs"
    by (rule query_rows_Inr [OF assms(1) s(2)])
  have "set rs = set verified" if "int (length rs) < max_version_rows"
    using rs(3,4) that mset_eq_setD [of verified rs] by simp
  then have owned: "int (length rs) < max_version_rows \<longrightarrow> (\<forall>row \<in> set rs. owned_row owner vid b row)"
    using rows(3) by simp
  have "\<not> incomplete \<longrightarrow> rs \<noteq> []" using rows(2) m(2) rs(3) by auto
  with rs(1,2) show thesis by (intro that [OF _ _ owned]) simp_all
qed

text \<open>C18. The activity is written everywhere. When the activation of a version returns, its collection is there
  and every row of it is of the version and active, in the field that the filter reads and in the payload;
  when its deactivation returns, the collection is absent, or every row of it is inactive, however few of
  its rows were staged. A collection of 16000 rows and more is not read to its end.\<close>

theorem activity_is_written:
  assumes "store_reads (mw_transport W) rows_of"
  shows "(activate_collection W owner vid w = (Inr (), w') \<longrightarrow>
      (\<exists>rs. rows_of w' (collection_name W owner vid) = Some rs \<and> rs \<noteq> [] \<and>
         (int (length rs) < max_version_rows \<longrightarrow> (\<forall>row \<in> set rs. owned_row owner vid True row))))
    \<and> (deactivate_collection W owner vid w = (Inr (), w') \<longrightarrow>
      rows_of w' (collection_name W owner vid) = None \<or>
      (\<exists>rs. rows_of w' (collection_name W owner vid) = Some rs \<and>
         (int (length rs) < max_version_rows \<longrightarrow> (\<forall>row \<in> set rs. owned_row owner vid False row))))"
proof (intro conjI impI)
  assume "activate_collection W owner vid w = (Inr (), w')"
  then have "set_version_active W owner vid True False w = (Inr (), w')" by (simp add: activate_collection_def)
  then obtain rs where "rows_of w' (collection_name W owner vid) = Some rs" "\<not> False \<longrightarrow> rs \<noteq> []"
    "int (length rs) < max_version_rows \<longrightarrow> (\<forall>row \<in> set rs. owned_row owner vid True row)"
    by (rule set_version_active_rows [OF assms])
  then show "\<exists>rs. rows_of w' (collection_name W owner vid) = Some rs \<and> rs \<noteq> [] \<and>
         (int (length rs) < max_version_rows \<longrightarrow> (\<forall>row \<in> set rs. owned_row owner vid True row))" by simp
next
  assume run: "deactivate_collection W owner vid w = (Inr (), w')"
  then have name: "physical_collection_name W owner vid = Inr (collection_name W owner vid)"
    by (auto simp: deactivate_collection_def physical_collection_name_def call_simps split: if_splits)
  obtain v w1 where h: "mw_transport W (HasCollection (collection_name W owner vid)) w = (Inr v, w1)"
    "(if v \<noteq> JBool True then call_return () else set_version_active W owner vid False True) w1 = (Inr (), w')"
    using run unfolding deactivate_collection_def name by (auto simp: call_bind_Inr lift_call_Inr)
  note there = store_readsD(1) [OF assms h(1)]
  show "rows_of w' (collection_name W owner vid) = None \<or>
      (\<exists>rs. rows_of w' (collection_name W owner vid) = Some rs \<and>
         (int (length rs) < max_version_rows \<longrightarrow> (\<forall>row \<in> set rs. owned_row owner vid False row)))"
  proof (cases "v = JBool True")
    case True
    then have "set_version_active W owner vid False True w1 = (Inr (), w')" using h(2) by simp
    then obtain rs where "rows_of w' (collection_name W owner vid) = Some rs" "\<not> True \<longrightarrow> rs \<noteq> []"
      "int (length rs) < max_version_rows \<longrightarrow> (\<forall>row \<in> set rs. owned_row owner vid False row)"
      by (rule set_version_active_rows [OF assms])
    then show ?thesis by simp
  next
    case False
    then show ?thesis using h(2) there by (simp add: call_return_Inr)
  qed
qed

subsection \<open>Partial collections\<close>

text \<open>An upsert replaces the rows with the same key and adds the others.\<close>

definition store_upserts :: "'w milvus_transport \<Rightarrow> ('w \<Rightarrow> string \<Rightarrow> jobject list option) \<Rightarrow> bool" where
  "store_upserts T rows_of \<longleftrightarrow> (\<forall>n new w v w'. T (UpsertRows n new) w = (Inr v, w') \<longrightarrow>
     (\<exists>old rs d. rows_of w n = Some old \<and> rows_of w' n = Some rs \<and>
        mset rs = mset (new @ filter (\<lambda>r. chunk_key r \<notin> set (map chunk_key new)) old) \<and>
        v = JObj d \<and> py_get d ''upsert_count'' \<in> {JNull, JInt (int (length new))}))"

definition rewritten_rows :: "bool \<Rightarrow> jobject list \<Rightarrow> jobject list \<Rightarrow> bool" where
  "rewritten_rows b rs new \<longleftrightarrow>
     set new \<subseteq> with_active b ` {row \<in> set rs. fields_of (get row ''payload'') \<noteq> None}"

definition store_available :: "'w milvus_transport \<Rightarrow> ('w \<Rightarrow> string \<Rightarrow> jobject list option) \<Rightarrow> bool" where
  "store_available T rows_of \<longleftrightarrow>
     (\<forall>w n. \<exists>v w'. T (HasCollection n) w = (Inr v, w')) \<and>
     (\<forall>w n rs. rows_of w n = Some rs \<longrightarrow>
        (\<forall>k. 1 \<le> k \<and> k \<le> 16384 \<longrightarrow> (\<exists>v w'. T (QueryRows n [] sorted_fields k) w = (Inr v, w'))) \<and>
        (\<forall>b new. rewritten_rows b rs new \<longrightarrow> (\<exists>v w'. T (UpsertRows n new) w = (Inr v, w'))) \<and>
        (\<forall>req \<in> {Flush n, LoadCollection n}. \<exists>v w'. T req w = (Inr v, w') \<and> rows_of w' n = rows_of w n))"

lemma store_availableD:
  assumes "store_available T rows_of"
  shows "\<exists>v w'. T (HasCollection n) w = (Inr v, w')"
    and "rows_of w n = Some rs \<Longrightarrow> 1 \<le> k \<Longrightarrow> k \<le> 16384 \<Longrightarrow>
      \<exists>v w'. T (QueryRows n [] sorted_fields k) w = (Inr v, w')"
    and "rows_of w n = Some rs \<Longrightarrow> rewritten_rows b rs new \<Longrightarrow> \<exists>v w'. T (UpsertRows n new) w = (Inr v, w')"
    and "rows_of w n = Some rs \<Longrightarrow> req \<in> {Flush n, LoadCollection n} \<Longrightarrow>
      \<exists>v w'. T req w = (Inr v, w') \<and> rows_of w' n = rows_of w n"
proof -
  note a = assms [unfolded store_available_def]
  note there = conjunct2 [OF a, rule_format, of w n rs]
  show "\<exists>v w'. T (HasCollection n) w = (Inr v, w')" by (rule conjunct1 [OF a, rule_format])
  show "rows_of w n = Some rs \<Longrightarrow> 1 \<le> k \<Longrightarrow> k \<le> 16384 \<Longrightarrow>
      \<exists>v w'. T (QueryRows n [] sorted_fields k) w = (Inr v, w')"
    by (drule there) blast
  show "rows_of w n = Some rs \<Longrightarrow> rewritten_rows b rs new \<Longrightarrow> \<exists>v w'. T (UpsertRows n new) w = (Inr v, w')"
    by (drule there) blast
  show "rows_of w n = Some rs \<Longrightarrow> req \<in> {Flush n, LoadCollection n} \<Longrightarrow>
      \<exists>v w'. T req w = (Inr v, w') \<and> rows_of w' n = rows_of w n"
    by (drule there) (erule conjE, erule conjE, erule bspec)
qed

lemma lifecycle_rows_ok:
  assumes "\<forall>row \<in> set rows. \<exists>v payload. validated_row E meta row = Inr (chunk_key row, v, payload) \<and>
      (\<forall>b. active = Some b \<longrightarrow> get payload ''is_active'' = Some (JBool b))"
    and "distinct (map fst vs @ map chunk_key rows)"
  shows "\<exists>out. lifecycle_rows E meta active vs rows = Inr out \<and>
    (\<forall>e \<in> set out. e \<in> set vs \<or> (\<exists>row \<in> set rows. \<exists>payload. validated_row E meta row = Inr (fst e, snd e, payload)))"
  using assms
proof (induction rows arbitrary: vs)
  case (Cons row rows)
  obtain v payload where r: "validated_row E meta row = Inr (chunk_key row, v, payload)"
    "\<forall>b. active = Some b \<longrightarrow> get payload ''is_active'' = Some (JBool b)"
    using Cons.prems(1) by auto
  have step: "lifecycle_rows E meta active vs (row # rows) = lifecycle_rows E meta active (vs @ [(chunk_key row, v)]) rows"
    using r Cons.prems(2) by (cases active) auto
  have "\<exists>out. lifecycle_rows E meta active (vs @ [(chunk_key row, v)]) rows = Inr out \<and>
    (\<forall>e \<in> set out. e \<in> set (vs @ [(chunk_key row, v)]) \<or>
       (\<exists>row \<in> set rows. \<exists>payload. validated_row E meta row = Inr (fst e, snd e, payload)))"
    using Cons.prems by (intro Cons.IH) auto
  then show ?case using step r(1) by fastforce
qed simp

text \<open>The rows of a collection that was staged in part.\<close>

definition staged_rows :: "milvus_writer_env \<Rightarrow> (string \<times> pytext) list \<Rightarrow> jobject list \<Rightarrow> bool" where
  "staged_rows E meta rs \<longleftrightarrow> int (length rs) \<le> version_row_count E meta \<and> distinct (map chunk_key rs) \<and>
     (\<forall>row \<in> set rs. \<exists>v payload. validated_row E meta row = Inr (chunk_key row, v, payload))"

lemma validated_row_vector:
  assumes "validated_row E meta row = Inr (i, v, payload)"
  shows "meta_int E meta ''embedding_dimension'' = Some (int (length v))"
proof -
  have len: "row_vector xs = Inr ys \<Longrightarrow> length ys = length xs" for xs ys
    by (induction xs arbitrary: ys) (auto simp: bind_res_Inr_iff)
  obtain chunk_id xs where "meta_int E meta ''embedding_dimension'' = Some (int (length xs))" "row_vector xs = Inr v"
    using assms
    by (auto simp: validated_row_def bind_res_Inr_iff split: if_splits option.splits json.splits)
  with len show ?thesis by simp
qed

lemma verify_lifecycle_rows_partial:
  assumes "staged_rows E meta rs" and "meta_int E meta ''embedding_dimension'' = Some d" and "1 \<le> d"
    and "\<forall>row \<in> set rs. \<forall>v payload. validated_row E meta row = Inr (chunk_key row, v, payload) \<longrightarrow>
      (\<forall>b. active = Some b \<longrightarrow> get payload ''is_active'' = Some (JBool b))"
  shows "verify_lifecycle_rows E rs meta True active = Inr ()"
proof -
  have "\<forall>row \<in> set rs. \<exists>v payload. validated_row E meta row = Inr (chunk_key row, v, payload) \<and>
      (\<forall>b. active = Some b \<longrightarrow> get payload ''is_active'' = Some (JBool b))"
    using assms(1,4) unfolding staged_rows_def by blast
  then obtain out where out: "lifecycle_rows E meta active [] rs = Inr out"
    "\<forall>e \<in> set out. \<exists>row \<in> set rs. \<exists>payload. validated_row E meta row = Inr (fst e, snd e, payload)"
    using lifecycle_rows_ok [of rs E meta active "[]"] assms(1) by (auto simp: staged_rows_def)
  have "snd e \<noteq> []" if "e \<in> set out" for e
    using out(2) that validated_row_vector assms(2,3) by fastforce
  then have "\<not> (\<exists>(i, v) \<in> set out. v = [])" by fastforce
  then show ?thesis using out(1) assms(1)
    by (simp add: verify_lifecycle_rows_def embeddings_match_def embeddings_fingerprint_def staged_rows_def)
qed

lemma put_field_keys: "k \<in> set (map fst d) \<Longrightarrow> map fst (put_field d k v) = map fst d"
  by (auto simp: put_field_def)

lemma get_has_key: "get d k = Some v \<Longrightarrow> k \<in> set (map fst d)"
  by (metis domIff dom_map_of_conv_image_fst get_def list.set_map option.distinct(1))

text \<open>Writing the activity of a row keeps it a row of the version.\<close>

lemma validated_with_active:
  assumes "validated_row E meta row = Inr (chunk_key row, v, payload)"
  shows "validated_row E meta (with_active b row) =
      Inr (chunk_key row, v, put_field payload ''is_active'' (JBool b))"
    and "chunk_key (with_active b row) = chunk_key row"
proof -
  note r = validated_row_Inr [OF assms]
  have active: "is_bool (get row ''is_active'')" using r(3) unfolding row_identity_ok_def by blast
  then obtain a where a: "get row ''is_active'' = Some (JBool a)"
    by (cases "get row ''is_active''" rule: is_bool.cases) auto
  let ?row = "put_field row ''is_active'' (JBool b)"
  have "map fst ?row = map fst row" by (rule put_field_keys [OF get_has_key [OF a]])
  moreover have "''payload'' \<in> set (map fst ?row)" using calculation get_has_key [OF r(2)] by simp
  ultimately have keys: "map fst (with_active b row) = map fst row"
    unfolding with_active_def by (simp add: put_field_keys)
  have others: "get (with_active b row) k = get row k" if "k \<noteq> ''is_active''" "k \<noteq> ''payload''" for k
    using that by (simp add: with_active_def get_put_field)
  have own: "get (with_active b row) ''is_active'' = Some (JBool b)"
    "get (with_active b row) ''payload'' = Some (JObj (put_field payload ''is_active'' (JBool b)))"
    using r(2) by (simp_all add: with_active_def get_put_field)
  show "chunk_key (with_active b row) = chunk_key row"
    by (simp add: chunk_key_def text_field_def others)
  have id: "row_identity_ok meta (with_active b row) (put_field payload ''is_active'' (JBool b)) (chunk_key row)"
    using r(3) own by (simp add: row_identity_ok_def get_put_field py_get_def others)
  show "validated_row E meta (with_active b row) =
      Inr (chunk_key row, v, put_field payload ''is_active'' (JBool b))"
    using assms id unfolding validated_row_def
    by (auto simp: keys others own bind_res_Inr_iff r(1,2) split: if_splits option.splits json.splits)
qed

lemma query_rows_returns:
  assumes "store_reads (mw_transport W) rows_of" and "store_available (mw_transport W) rows_of"
    and "rows_of w name = Some rs" and "int (length rs) < max_version_rows"
  obtains p where "mset p = mset rs" and "query_rows W name max_version_rows w = (Inr p, w)"
proof -
  let ?req = "QueryRows name [] sorted_fields max_version_rows"
  obtain v w' where run: "mw_transport W ?req w = (Inr v, w')"
    using store_availableD(2) [OF assms(2,3), of max_version_rows] by (auto simp: max_version_rows_def)
  obtain rs' p where p: "w' = w" "rows_of w name = Some rs'" "mset p = mset rs'"
    "v = JList (map JObj (take (nat max_version_rows) p))"
    using store_readsD(3) [OF assms(1) run] by blast
  have "length p = length rs" using p(2,3) assms(3) by (metis option.inject size_mset)
  then have all: "take (nat max_version_rows) p = p" using assms(4) by simp
  have limit: "\<not> (max_version_rows < 1 \<or> max_version_rows + 1 < max_version_rows)"
    by (simp add: max_version_rows_def)
  have "mw_transport W ?req w = (Inr (JList (map JObj p)), w)" using run p(1,4) all by simp
  moreover have "list_all (\<lambda>r. fields_of (Some r) \<noteq> None) (map JObj p)" by (simp add: list_all_iff)
  ultimately have "query_rows W name max_version_rows w = (Inr p, w)"
    unfolding query_rows_def if_not_P [OF limit] by (simp add: call_bind_def call_return_def comp_def)
  then show thesis using that p(2,3) assms(3) by simp
qed

lemma upsert_checked_returns:
  assumes "store_upserts (mw_transport W) rows_of" and "store_available (mw_transport W) rows_of"
    and "rows_of w name = Some old" and "rewritten_rows b old new"
  obtains w' rs where "upsert_checked W name new w = (Inr (), w')" and "rows_of w' name = Some rs"
    and "mset rs = mset (new @ filter (\<lambda>r. chunk_key r \<notin> set (map chunk_key new)) old)"
proof -
  note available = store_availableD(3,4) [OF assms(2)]
  obtain v w1 where run: "mw_transport W (UpsertRows name new) w = (Inr v, w1)"
    using available(1) [OF assms(3,4)] by auto
  obtain rs d where u: "rows_of w1 name = Some rs"
    "mset rs = mset (new @ filter (\<lambda>r. chunk_key r \<notin> set (map chunk_key new)) old)"
    "v = JObj d" "py_get d ''upsert_count'' \<in> {JNull, JInt (int (length new))}"
  proof -
    have "\<exists>old rs d. rows_of w name = Some old \<and> rows_of w1 name = Some rs \<and>
        mset rs = mset (new @ filter (\<lambda>r. chunk_key r \<notin> set (map chunk_key new)) old) \<and>
        v = JObj d \<and> py_get d ''upsert_count'' \<in> {JNull, JInt (int (length new))}"
      by (rule assms(1) [unfolded store_upserts_def, rule_format, OF run])
    with assms(3) show thesis using that by (elim exE conjE) simp
  qed
  obtain v2 w2 where f: "mw_transport W (Flush name) w1 = (Inr v2, w2)" "rows_of w2 name = rows_of w1 name"
    using available(2) [OF u(1), of "Flush name"] by auto
  obtain v3 w3 where l: "mw_transport W (LoadCollection name) w2 = (Inr v3, w3)" "rows_of w3 name = rows_of w2 name"
    using available(2) [of w2 name rs "LoadCollection name"] u(1) f(2) by auto
  have "upsert_checked W name new w = (Inr (), w3)"
    using run u(3,4) f(1) l(1)
    by (auto simp: upsert_checked_def flush_and_load_def call_bind_def lift_call_def call_return_def call_raise_def)
  then show thesis using that u(1,2) f(2) l(2) by simp
qed

lemma staged_rows_mset:
  assumes "mset p = mset rs" and "staged_rows E meta rs"
  shows "staged_rows E meta p"
proof -
  have "length p = length rs" "set p = set rs" using assms(1) mset_eq_length mset_eq_setD by blast+
  moreover have "distinct (map chunk_key p)"
    using assms by (metis mset_eq_imp_distinct_iff mset_map staged_rows_def)
  ultimately show ?thesis using assms(2) by (simp add: staged_rows_def)
qed

lemma staged_rows_with_active:
  assumes "staged_rows E meta rs"
  shows "staged_rows E meta (map (with_active b) rs)"
    and "\<forall>row \<in> set (map (with_active b) rs). \<forall>v payload. validated_row E meta row = Inr (chunk_key row, v, payload) \<longrightarrow>
      get payload ''is_active'' = Some (JBool b)"
proof -
  have row: "\<exists>v payload. validated_row E meta (with_active b row) = Inr (chunk_key row, v, put_field payload ''is_active'' (JBool b))
      \<and> chunk_key (with_active b row) = chunk_key row" if "row \<in> set rs" for row
    using assms that validated_with_active unfolding staged_rows_def by blast
  then have "map chunk_key (map (with_active b) rs) = map chunk_key rs" by auto
  then show "staged_rows E meta (map (with_active b) rs)"
    using assms row by (auto simp: staged_rows_def simp flip: map_map) fastforce+
  show "\<forall>row \<in> set (map (with_active b) rs). \<forall>v payload. validated_row E meta row = Inr (chunk_key row, v, payload) \<longrightarrow>
      get payload ''is_active'' = Some (JBool b)"
    using row by (fastforce simp: get_put_field)
qed

text \<open>Writing the activity of all rows, if there are any, leaves just these rows.\<close>

lemma write_active_returns:
  assumes "store_upserts (mw_transport W) rows_of" and "store_available (mw_transport W) rows_of"
    and "rows_of w name = Some rs" and "mset p = mset rs" and "staged_rows E meta rs"
  obtains w' rs' where "(if p = [] then call_return () else upsert_checked W name (map (with_active b) p)) w = (Inr (), w')"
    and "rows_of w' name = Some rs'" and "mset rs' = mset (map (with_active b) p)"
proof (cases "p = []")
  case True
  then show thesis using that [of w rs] assms(3,4) by (simp add: call_return_def)
next
  case False
  let ?new = "map (with_active b) p"
  have "fields_of (get r ''payload'') \<noteq> None" if "r \<in> set rs" for r
    using assms(5) that validated_row_Inr(2) unfolding staged_rows_def by fastforce
  then have new: "rewritten_rows b rs ?new" using mset_eq_setD [OF assms(4)] by (auto simp: rewritten_rows_def)
  obtain w' rs' where u: "upsert_checked W name ?new w = (Inr (), w')" "rows_of w' name = Some rs'"
    "mset rs' = mset (?new @ filter (\<lambda>r. chunk_key r \<notin> set (map chunk_key ?new)) rs)"
    by (rule upsert_checked_returns [OF assms(1-3) new])
  have "chunk_key (with_active b r) = chunk_key r" if "r \<in> set rs" for r
    using assms(5) that validated_with_active(2) unfolding staged_rows_def by blast
  moreover have "set p = set rs" by (rule mset_eq_setD [OF assms(4)])
  ultimately have "filter (\<lambda>r. chunk_key r \<notin> set (map chunk_key ?new)) rs = []" by (force simp: filter_empty_conv)
  then have "mset rs' = mset ?new" using u(3) by (simp only: append_Nil2)
  with u(1,2) False show thesis using that by simp
qed

text \<open>C16. A collection that was staged in part can be taken offline. When the store answers and the collection
  describes the version and holds fewer than 16000 rows of it, however few of the chunks they are, the
  deactivation returns, and afterwards the collection holds as many rows, all of them inactive.\<close>

theorem partial_collection_deactivates:
  assumes "store_reads (mw_transport W) rows_of" and "store_upserts (mw_transport W) rows_of"
    and "store_available (mw_transport W) rows_of"
    and "contract_id_ok owner" and "contract_id_ok vid" and "rows_of w (collection_name W owner vid) = Some rs"
    and "inspect_collection W (collection_name W owner vid) (expected_collection owner vid None None None) False None None w
      = (Inr meta, w)"
    and "staged_rows (mw_env W) meta rs" and "int (length rs) < max_version_rows"
  shows "\<exists>w' rs'. deactivate_collection W owner vid w = (Inr (), w') \<and>
    rows_of w' (collection_name W owner vid) = Some rs' \<and> length rs' = length rs \<and>
    (\<forall>row \<in> set rs'. owned_row owner vid False row)"
proof -
  let ?name = "collection_name W owner vid" and ?E = "mw_env W"
  have name: "physical_collection_name W owner vid = Inr ?name"
    using assms(4,5) by (simp add: physical_collection_name_def)
  have there: "mw_transport W (HasCollection ?name) w = (Inr (JBool True), w)"
    using store_availableD(1) [OF assms(3), of ?name w] store_readsD(1) [OF assms(1)] assms(6) by fastforce
  obtain p where p: "mset p = mset rs" "query_rows W ?name max_version_rows w = (Inr p, w)"
    by (rule query_rows_returns [OF assms(1,3,6,9)])
  obtain d where d: "meta_int ?E meta ''embedding_dimension'' = Some d" "1 \<le> d"
    using assms(7) by (auto simp: inspect_collection_def call_simps collection_ok_def split: if_splits option.splits)
  note rows = staged_rows_mset [OF p(1) assms(8)]
  have before: "verify_lifecycle_rows ?E p meta True None = Inr ()"
    by (rule verify_lifecycle_rows_partial [OF rows d]) simp
  let ?new = "map (with_active False) p"
  obtain w1 rs' where wr: "(if p = [] then call_return () else upsert_checked W ?name ?new) w = (Inr (), w1)"
    "rows_of w1 ?name = Some rs'" "mset rs' = mset ?new"
    by (rule write_active_returns [OF assms(2,3,6) p(1) assms(8)])
  have len: "length rs' = length rs" using mset_eq_length [OF wr(3)] mset_eq_length [OF p(1)] by simp
  then have small: "int (length rs') < max_version_rows" using assms(9) by simp
  obtain q where q: "mset q = mset rs'" "query_rows W ?name max_version_rows w1 = (Inr q, w1)"
    by (rule query_rows_returns [OF assms(1,3) wr(2) small])
  note active = staged_rows_with_active [OF rows, of False]
  have "mset q = mset ?new" using q(1) wr(3) by simp
  note staged = staged_rows_mset [OF this active(1)]
  have "set q = set ?new" using mset_eq_setD [OF \<open>mset q = mset ?new\<close>] .
  then have after: "verify_lifecycle_rows ?E q meta True (Some False) = Inr ()"
    using active(2) by (intro verify_lifecycle_rows_partial [OF staged d]) simp
  have "set_version_active W owner vid False True w = (Inr (), w1)"
    using there assms(7) p(2) before wr(1) q(2) after unfolding set_version_active_def name
    by (simp add: call_bind_def lift_call_def)
  then have run: "deactivate_collection W owner vid w = (Inr (), w1)"
    using there unfolding deactivate_collection_def name by (simp add: call_bind_def lift_call_def)
  obtain rs'' where "rows_of w1 ?name = Some rs''" "\<not> True \<longrightarrow> rs'' \<noteq> []"
    "int (length rs'') < max_version_rows \<longrightarrow> (\<forall>row \<in> set rs''. owned_row owner vid False row)"
    by (rule set_version_active_rows [OF assms(1) \<open>set_version_active W owner vid False True w = (Inr (), w1)\<close>])
  with wr(2) len small run show ?thesis by auto
qed

subsection \<open>A store\<close>

type_synonym sample_collections = "(string \<times> pytext \<times> jobject list) list"

definition sample_rows :: "sample_collections \<Rightarrow> string \<Rightarrow> jobject list option" where
  "sample_rows w n = map_option snd (map_of w n)"

fun sample_store :: "sample_collections milvus_transport" where
  "sample_store (HasCollection n) w = (Inr (JBool (map_of w n \<noteq> None)), w)"
| "sample_store (CreateCollection n dimension description) w =
     (if map_of w n \<noteq> None then (Inl MilvusTransportError, w) else (Inr JNull, (n, description, []) # w))"
| "sample_store (UpsertRows n new) w = (case map_of w n of
       None \<Rightarrow> (Inl MilvusTransportError, w)
     | Some (description, old) \<Rightarrow> (Inr (JObj [(''upsert_count'', JInt (int (length new)))]),
         (n, description, new @ filter (\<lambda>r. chunk_key r \<notin> set (map chunk_key new)) old) # w))"
| "sample_store (Flush n) w = (Inr JNull, w)"
| "sample_store (LoadCollection n) w = (Inr JNull, w)"
| "sample_store (DropCollection n) w = (Inr JNull, filter (\<lambda>e. fst e \<noteq> n) w)"
| "sample_store (DescribeCollection n) w = (case map_of w n of
       None \<Rightarrow> (Inl MilvusTransportError, w)
     | Some (description, rows) \<Rightarrow> (Inr (JObj [(''description'', JStr description),
         (''fields'', JList (map (\<lambda>f. JObj [(''name'', JStr (ascii f))]) expected_fields))]), w))"
| "sample_store (QueryRows n expression names k) w = (case map_of w n of
       None \<Rightarrow> (Inl MilvusTransportError, w)
     | Some (description, rows) \<Rightarrow> (Inr (JList (map JObj (take (nat k) rows))), w))"
| "sample_store _ w = (Inl MilvusTransportError, w)"

lemma sample_store_reads: "store_reads sample_store sample_rows"
  by (auto simp: store_reads_def sample_rows_def split: option.splits)

lemma sample_store_upserts: "store_upserts sample_store sample_rows"
  by (auto simp: store_upserts_def sample_rows_def py_get_def get_def split: option.splits)

lemma sample_store_available: "store_available sample_store sample_rows"
  by (auto simp: store_available_def sample_rows_def)

definition sample_second_chunk :: jobject where
  "sample_second_chunk = chunk_json (sample_online_chunk\<lparr>ch_is_active := False, ch_chunk_id := ''chunk2''\<rparr>)"

definition sample_chunks :: "jobject list" where
  "sample_chunks = [sample_staged_chunk, sample_second_chunk]"

text \<open>The codec of the one description there is.\<close>

definition sample_milvus_codec :: "(string \<times> pytext) list \<Rightarrow> milvus_env" where
  "sample_milvus_codec meta = \<lparr>mv_fingerprint = (\<lambda>_. replicate 64 97), mv_str = (\<lambda>_. []),
     mv_loads = (\<lambda>_. Some (JObj (map (\<lambda>(k, v). (k, JStr v)) meta))), mv_dumps = (\<lambda>_. []), mv_sqrt = (\<lambda>x. x)\<rparr>"

definition sample_codec_env :: "(string \<times> pytext) list \<Rightarrow> milvus_writer_env" where
  "sample_codec_env meta = \<lparr>mw_milvus = sample_milvus_codec meta, mw_unicode = sample_unicode,
     mw_sha256 = (\<lambda>_. replicate 64 CHR ''b''), mw_embeddings_sha256 = (\<lambda>_. replicate 64 98)\<rparr>"

definition sample_collection_metadata :: "(string \<times> pytext) list" where
  "sample_collection_metadata = collection_metadata (sample_codec_env []) ''alice'' ''doc1'' ''v_ready''
     sample_chunks \<lparr>mi_provider = ascii ''p'', mi_model = ascii ''m'', mi_digest = ascii ''d''\<rparr> 2 (replicate 64 98)"

definition sample_milvus_env :: milvus_writer_env where
  "sample_milvus_env = sample_codec_env sample_collection_metadata"

definition sample_provider :: "'w embedding_provider" where
  "sample_provider = \<lparr>ep_identity = call_return \<lparr>mi_provider = ascii ''p'', mi_model = ascii ''m'', mi_digest = ascii ''d''\<rparr>,
     ep_embed = (\<lambda>ts. call_return (map (\<lambda>_. [Some 1, Some 0]) ts))\<rparr>"

definition sample_milvus_writer :: "sample_collections milvus_version_writer" where
  "sample_milvus_writer = \<lparr>mw_collection_prefix = ''chunks'', mw_env = sample_milvus_env,
     mw_transport = sample_store, mw_provider = sample_provider\<rparr>"

definition sample_collection_name :: string where
  "sample_collection_name = collection_name sample_milvus_writer ''alice'' ''v_ready''"

text \<open>The collection of two chunks with the rows of some of them, as a staging left it that was cut short.\<close>

definition sample_collection :: "jobject list \<Rightarrow> sample_collections" where
  "sample_collection chunks = [(sample_collection_name,
     describe_metadata (mw_milvus sample_milvus_env) sample_collection_metadata, map (\<lambda>c. milvus_row c [1, 0]) chunks)]"

definition sample_restaging :: "(milvus_error + index_write_receipt) \<times> sample_collections" where
  "sample_restaging = stage_version sample_milvus_writer ''alice'' ''doc1'' ''v_ready'' sample_chunks (sample_collection sample_chunks)"

lemma sample_restaged:
  "fst sample_restaging = Inr \<lparr>rc_backend = MILVUS, rc_owner_id = ''alice'',
    rc_document_version_id = ''v_ready'', rc_chunk_count = 2, rc_source_chunks_sha256 = replicate 64 CHR ''a''\<rparr>"
  by code_simp

lemma sample_store_hypotheses:
  "store_reads (mw_transport sample_milvus_writer) sample_rows"
  "store_upserts (mw_transport sample_milvus_writer) sample_rows"
  "store_available (mw_transport sample_milvus_writer) sample_rows"
  "ascii_digits (mw_unicode (mw_env sample_milvus_writer))"
  by (simp_all add: sample_milvus_writer_def sample_milvus_env_def sample_codec_env_def sample_store_reads sample_store_upserts
      sample_store_available sample_unicode_plain)

theorem staged_rows_are_exact_witness:
  "\<exists>rs. sample_rows (snd sample_restaging) sample_collection_name = Some rs \<and> length rs = 2 \<and>
     (\<forall>c \<in> set sample_chunks. \<exists>row \<in> set rs. stores_chunk c row)"
proof -
  obtain rc where run: "stage_version sample_milvus_writer ''alice'' ''doc1'' ''v_ready'' sample_chunks
      (sample_collection sample_chunks) = (Inr rc, snd sample_restaging)"
    using sample_restaged by (metis prod.collapse sample_restaging_def)
  have two: "length sample_chunks = 2" by (simp add: sample_chunks_def)
  have small: "int (length sample_chunks) < max_version_rows" by (simp add: two max_version_rows_def)
  from staged_rows_are_exact [OF sample_store_hypotheses(1,4) run small]
  show ?thesis by (simp only: two sample_collection_name_def)
qed

definition sample_online_collection :: sample_collections where
  "sample_online_collection = sample_collection (map (\<lambda>c. put_field c ''is_active'' (JBool True)) sample_chunks)"

theorem milvus_route_is_verified_witness:
  "\<exists>meta v rs. verify_online_collection sample_milvus_writer ''alice'' ''doc1'' ''v_ready'' sample_online_collection
       = (Inr (sample_collection_name, meta), v) \<and>
     map_of meta ''embedding_model'' = Some (ascii ''m'') \<and>
     sample_rows v sample_collection_name = Some rs \<and> rs \<noteq> [] \<and>
     (\<forall>row \<in> set rs. owned_row ''alice'' ''v_ready'' True row)"
proof -
  let ?run = "verify_online_collection sample_milvus_writer ''alice'' ''doc1'' ''v_ready'' sample_online_collection"
  have "case fst ?run of Inl _ \<Rightarrow> False | Inr _ \<Rightarrow> True" by code_simp
  then obtain name meta where run: "?run = (Inr (name, meta), snd ?run)"
    by (cases ?run; cases "fst ?run") auto
  note verified = milvus_route_is_verified [OF sample_store_hypotheses(1) run]
  have name: "name = sample_collection_name" using verified by (simp add: sample_collection_name_def)
  obtain i v where "ep_identity (mw_provider sample_milvus_writer) sample_online_collection = (Inr i, v)"
    "map_of meta ''embedding_model'' = Some (mi_model i)"
    using verified by (auto simp: expected_collection_def)
  then have "map_of meta ''embedding_model'' = Some (ascii ''m'')"
    by (auto simp: sample_milvus_writer_def sample_provider_def call_return_def)
  moreover obtain rs where "sample_rows (snd ?run) sample_collection_name = Some rs" "rs \<noteq> []"
    "\<forall>row \<in> set rs. owned_row ''alice'' ''v_ready'' True row"
    using verified unfolding name by blast
  ultimately show ?thesis using run unfolding name by blast
qed
theorem activity_is_written_witness:
  "\<exists>w rs. activate_collection sample_milvus_writer ''alice'' ''v_ready'' (sample_collection sample_chunks) = (Inr (), w) \<and>
     sample_rows w sample_collection_name = Some rs \<and> length rs = 2 \<and>
     (\<forall>row \<in> set rs. owned_row ''alice'' ''v_ready'' True row)"
proof -
  let ?run = "activate_collection sample_milvus_writer ''alice'' ''v_ready'' (sample_collection sample_chunks)"
  have "fst ?run = Inr ()" by code_simp
  then have run: "?run = (Inr (), snd ?run)" by (rule call_result)
  have "map_option length (sample_rows (snd ?run) sample_collection_name) = Some 2" by code_simp
  then obtain rs where rs: "sample_rows (snd ?run) sample_collection_name = Some rs" "length rs = 2" by auto
  then have "int (length rs) < max_version_rows" by (simp add: max_version_rows_def)
  with activity_is_written [OF sample_store_hypotheses(1), of "''alice''" "''v_ready''" "sample_collection sample_chunks" "snd ?run"] run rs
  have "\<forall>row \<in> set rs. owned_row ''alice'' ''v_ready'' True row"
    unfolding sample_collection_name_def by fastforce
  with run rs show ?thesis by blast
qed

text \<open>One of the two chunks is there.\<close>

theorem partial_collection_deactivates_witness:
  "\<exists>w'. fst (deactivate_collection sample_milvus_writer ''alice'' ''v_ready'' (sample_collection [sample_staged_chunk])) = Inr () \<and>
     (\<exists>rs. sample_rows w' sample_collection_name = Some rs \<and> length rs = 1 \<and>
        (\<forall>row \<in> set rs. owned_row ''alice'' ''v_ready'' False row))"
proof -
  let ?w = "sample_collection [sample_staged_chunk]" and ?E = "mw_env sample_milvus_writer"
  let ?rs = "[milvus_row sample_staged_chunk [1, 0]]"
  have there: "sample_rows ?w (collection_name sample_milvus_writer ''alice'' ''v_ready'') = Some ?rs"
    by (simp add: sample_rows_def sample_collection_def sample_collection_name_def)
  have inspect: "inspect_collection sample_milvus_writer (collection_name sample_milvus_writer ''alice'' ''v_ready'')
      (expected_collection ''alice'' ''v_ready'' None None None) False None None ?w = (Inr sample_collection_metadata, ?w)"
    by code_simp
  let ?row = "milvus_row sample_staged_chunk [1, 0]"
  have "case validated_row ?E sample_collection_metadata ?row of
      Inl _ \<Rightarrow> False | Inr (i, v, payload) \<Rightarrow> i = chunk_key ?row" by code_simp
  then have "\<exists>v payload. validated_row ?E sample_collection_metadata ?row = Inr (chunk_key ?row, v, payload)"
    by (cases "validated_row ?E sample_collection_metadata ?row") auto
  then have valid: "\<forall>row \<in> set ?rs. \<exists>v payload. validated_row ?E sample_collection_metadata row = Inr (chunk_key row, v, payload)"
    by simp
  have "version_row_count ?E sample_collection_metadata = 2" by code_simp
  with valid have staged: "staged_rows ?E sample_collection_metadata ?rs" by (simp add: staged_rows_def)
  have ids: "contract_id_ok ''alice''" "contract_id_ok ''v_ready''" by code_simp+
  have small: "int (length ?rs) < max_version_rows" by (simp add: max_version_rows_def)
  from partial_collection_deactivates [OF sample_store_hypotheses(1-3) ids there inspect staged small]
  show ?thesis unfolding sample_collection_name_def by auto
qed

end
