(* ===== verification/Spec2Isabelle.thy ===== *)
theory Spec2Isabelle
  imports OnlineVisibility OnlineCoverage PdfPipeline OnlineAnswers GenerationSafety QueryPlans MilvusVersions
begin

text \<open>
  A verification library of the zhiyan evidence-constrained RAG service (\<^verbatim>\<open>src/backend\<close>).

  \<^bold>\<open>The program.\<close> An owner uploads papers as PDF files. Ingestion registers the document, its
  immutable version and a job in PostgreSQL, parses and splits the file into chunks that are exact
  spans of the text, and stores them (\<^verbatim>\<open>ingestion\<close>, \<^verbatim>\<open>storage\<close>). The two search indexes are then
  staged, verified and activated, and only the last commit makes the version READY, that is
  online; going offline starts with the facts and schedules the deletion of the indexes, which a
  worker performs under a lease. A question is answered from the chunks of READY versions only:
  each version has a physical index and collection of its own, both are searched with the
  caller's authorization filter, the rankings are fused, and everything is checked again before it
  is returned (\<^verbatim>\<open>retrieval\<close>). The chunks become evidence cards of an answer; a generated answer
  keeps only the claims that a deterministic check supports by the evidence they cite (\<^verbatim>\<open>rag\<close>).

  \<^bold>\<open>Layers.\<close> RagPrelude (results as sums, identity strings, tables as lists of rows), PyValues
  (text as code points, JSON), Binary64 (Python's floats), Regex and RegexLines (Python's \<^verbatim>\<open>re\<close>) are
  the vocabulary. The rest follows the code.

  \<^enum> \<^bold>\<open>The fact source\<close> (\<^verbatim>\<open>storage\<close>). StorageModels: the records and validators of \<^verbatim>\<open>models.py\<close>.
    FactTables: the schema of \<^verbatim>\<open>migrations\<close> and the statements of \<^verbatim>\<open>postgres.py\<close> (\<open>sql_...\<close>), with the
    integrity \<open>db_inv\<close> and the history relation \<open>db_history\<close>; FactIntegrity: every statement keeps
    the one and extends the other. Transactions: the connection (\<open>conn\<close>), commits and rollbacks
    under any list of faults. PostgresFacts, RuntimeSnapshots and CleanupQueue: the methods of
    \<open>PostgresFactRepository\<close>, by the names they have there. FactRuns: these methods as a step
    relation \<open>fact_step\<close>, and what holds along every run: integrity, at most one online version
    per document, evidence for READY, finality of INACTIVE, revisions, atomicity, bounded cleanup.
  \<^enum> \<^bold>\<open>Publication\<close> (\<^verbatim>\<open>ingestion\<close>). IndexLifecycle is \<^verbatim>\<open>index_lifecycle.py\<close>, CleanupWorker is
    \<^verbatim>\<open>cleanup.py\<close>; their repositories are protocols, the locales \<open>fact_contract\<close>,
    \<open>index_publication\<close>, \<open>index_inactivation\<close> and \<open>cleanup_contract\<close> state what they rely on, and
    PostgresCollaborators interprets all four on the real fact source. PersistentIngestion is
    \<^verbatim>\<open>persistent.py\<close>, between registration and the stored snapshot.
  \<^enum> \<^bold>\<open>Index writers\<close> (\<^verbatim>\<open>ingestion\<close>). ElasticsearchWriter is \<^verbatim>\<open>elasticsearch_writer.py\<close> and MilvusWriter
    \<^verbatim>\<open>milvus_writer.py\<close>, each method by its own name or that name with \<open>collection\<close> or \<open>version\<close>;
    \<open>es_index_writer\<close> and \<open>milvus_index_writer\<close> are the writers the publication calls.
    ElasticsearchVersions and MilvusVersions show that a receipt means an exact index, that a
    verified route is owned and active as a whole, that a writer leaves other indexes alone, and
    what deactivation does to an index staged in part.
  \<^enum> \<^bold>\<open>Parsing and splitting\<close> (\<^verbatim>\<open>ingestion\<close>). Splitter is \<^verbatim>\<open>splitter.py\<close>, SplitterSpans shows that
    the structural strategies lose no text, SplitterFixed what the fixed strategy does; PdfParser
    is \<^verbatim>\<open>parser.py\<close>, PdfBlocks its blocks; PdfService is \<^verbatim>\<open>service.py\<close>, PdfChunks follows a PDF
    through all three; PdfPipeline installs the service in PersistentIngestion.
  \<^enum> \<^bold>\<open>Retrieval\<close> (\<^verbatim>\<open>retrieval\<close>). AuthorizedScope: scopes, \<^verbatim>\<open>fixture.py\<close> and \<^verbatim>\<open>sqlite_fts.py\<close>.
    RankedResults: \<^verbatim>\<open>results.py\<close>, \<^verbatim>\<open>hybrid.py\<close> and the fusion. RouteCoverage:
    \<^verbatim>\<open>comparison_route_coverage.py\<close>. ElasticsearchIndex and MilvusIndex: the two adapters; both
    interpret the locale \<open>authorized_backend\<close>. OnlineRouting: \<^verbatim>\<open>online.py\<close>; OnlineCoverage and
    OnlineVisibility compose it with the selector and with the fact source. QueryPlanning:
    \<^verbatim>\<open>comparison_decomposition.py\<close>, the planner of the online retriever; QueryPlans shows what its
    queries keep of the question. Reranker: \<^verbatim>\<open>online_reranker.py\<close>.
  \<^enum> \<^bold>\<open>Answers\<close> (\<^verbatim>\<open>rag\<close>). Answers: \<^verbatim>\<open>answer_builder.py\<close> and the consumers, one per retrieval mode;
    OnlineAnswers follows an online question through retrieval, reranker and answer. ClaimText,
    ClaimEvidence, ClaimSupport and ClaimSets: \<^verbatim>\<open>claim_evidence.py\<close>, from the normalisation of text
    and numbers over the check of one claim to the audited evidence sets. Generation:
    \<^verbatim>\<open>generation.py\<close>; GenerationCitations shows that rendered citations are read back,
    GenerationSafety that a completed answer consists of supported claims.

  \<^bold>\<open>Modelling decisions.\<close>
  \<^item> Errors are \<open>Inl\<close>; a raise, an early return and a refused statement are branches. An exception
    whose content nobody reads is \<open>()\<close>; what passes through a handler is one escaped value.
  \<^item> A clock, an identifier factory and every answer of an external service are arguments. In
    PostgresCollaborators clock and identifiers are functions of the connection. External indexes,
    object stores and caches act on an arbitrary world \<open>'w\<close>, each call as it likes.
  \<^item> A driver error may strike at any statement or commit: a list of booleans says where.
    A commit that raises has committed nothing, and a rollback does not fail; a commit that is done
    although its answer is lost is outside the model.
    Transactions run one after another, so interleaving is the order of method calls.
    \<^verbatim>\<open>ORDER BY\<close> of text uses the C collation.
  \<^item> SHA-256, canonical JSON and fingerprints are parameters; where it matters a hypothesis says
    that a digest is 64 hexadecimal digits. pypdf is a parameter: opening, decrypting, pages
    and their text, each of which may raise.
  \<^item> Floats are rationals rounded to binary64 at every operation, with overflow; the square root is
    a parameter. JSON numbers that are not finite are values of their own.
  \<^item> Unicode's tables of letters, digits and case folding are a record of functions; white
    space, control characters, UTF-8 and the letters that ignore case with ASCII ones are written
    out. A pattern has the list of its backtracking results, the first one counts; the patterns
    searched for never match the empty text, so the search needs no fuel.
  \<^item> What the queries of Elasticsearch and Milvus mean is a hypothesis (\<open>es_semantics\<close>,
    \<open>milvus_semantics\<close>); the witnesses hold an evaluator of the filters that satisfies it. What their
    requests do to an index is one too. An Elasticsearch index has two views: the documents stored, which
    \<^verbatim>\<open>_mget\<close> reads at once, and the searchable ones, which \<^verbatim>\<open>_count\<close> and searches see and which catch up
    at a refresh, requested or in the background (\<open>node_reads\<close>, \<open>node_refreshes\<close>, \<open>node_updates\<close>,
    \<open>node_local\<close>; where a theorem needs an index that nobody refreshes or changes meanwhile it says
    \<open>node_quiet\<close>). Milvus has \<open>store_reads\<close>, \<open>store_upserts\<close> and \<open>store_available\<close>, the last only for the
    limits and rows the writer sends. \<open>sample_node\<close>, with its refreshes, and \<open>sample_store\<close> satisfy them.
  \<^item> A generated claim is its text and its list of citation numbers. Evidence items are JSON; one
    that is no object raises where it is read. The generation service, the scorer of the
    reranker, its titles, HTTP, \<^verbatim>\<open>json.loads\<close>, \<^verbatim>\<open>json.dumps\<close> and \<open>str\<close> are arguments. Where a theorem
    needs that Unicode's tables are the usual ones on ASCII it says so (\<open>ascii_digits\<close>,
    \<open>newline_plain\<close>, \<open>citation_tables\<close>, \<open>single_fold\<close>).
  \<^item> A dictionary that only gains keys is a list of pairs. The two calls that the Milvus writer
    gives to a pool of threads are made in the order in which it submits them. Rounding to four
    bytes is written out (\<open>binary32\<close>); negative zero is zero. The fusion compares payloads by
    structure, where Python also takes 1, 1.0 and \<^verbatim>\<open>True\<close> as equal.
  \<^item> Integers have no width: the 32 bits of the \<^verbatim>\<open>INTEGER\<close> columns (revisions, attempts, pages,
    ordinals) are not modelled, so a value of \<open>2 ^ 31\<close>, which PostgreSQL refuses, is stored here.

  \<^bold>\<open>Bounds.\<close> No definition takes fuel. \<open>hard_cuts\<close> and \<open>long_pieces\<close> end for every positive
  step; for a step that would not advance, which no configuration has, they return what is left.
  The Milvus writer reads at most 16000 rows, the size of the largest version; what it cannot see of
  a collection that large the statements leave open.

  \<^bold>\<open>Not modelled.\<close> Latencies, logs and observation sinks; the migrations runner and the file system
  behind the PDF objects; HTTP endpoints; offline evaluation and its scripts; the clients of the
  embedding, reranking and generation services, which are reached over the network; the SQLite
  statements of the local index; command lines and the reading of configuration files.
\<close>

end
